(* ===== verification/Prelude.thy ===== *)
theory Prelude
  imports Complex_Main "HOL-Library.Finite_Map" "HOL-Library.Multiset" "HOL-Library.Sublist"
    "HOL-Library.Word"
begin

text \<open>
  Shared vocabulary of the development: sums over finite maps (used for balances and
  bounties), folds of fallible steps, sorting by a comparison key, and the two generic
  interfaces the components are checked against: \<open>codec\<close> (an encoder with a decoder that
  inverts it) and \<open>guarded_step\<close> (a fallible state transformer with an invariant).
\<close>

named_theorems go_simps \<open>definitional equations of small Go helpers, for symbolic evaluation\<close>
named_theorems state_simps \<open>frame equations of ledger updates\<close>

section \<open>Finite maps\<close>

text \<open>A Go map is a finite map. Reading a missing key of a numeric map yields zero.\<close>

definition fm_get :: "('k, 'v) fmap \<Rightarrow> 'v \<Rightarrow> 'k \<Rightarrow> 'v" where
  "fm_get m d k = (case fmlookup m k of None \<Rightarrow> d | Some v \<Rightarrow> v)"

definition fm_sum :: "('v \<Rightarrow> int) \<Rightarrow> ('k, 'v) fmap \<Rightarrow> int" where
  "fm_sum w m = (\<Sum>k \<in> fmdom' m. w (the (fmlookup m k)))"

definition fm_weight :: "('v \<Rightarrow> int) \<Rightarrow> ('k, 'v) fmap \<Rightarrow> 'k \<Rightarrow> int" where
  "fm_weight w m k = (case fmlookup m k of None \<Rightarrow> 0 | Some v \<Rightarrow> w v)"

lemma fm_get_upd [simp]: "fm_get (fmupd k v m) d k' = (if k = k' then v else fm_get m d k')"
  by (simp add: fm_get_def)

lemma fm_get_empty [simp]: "fm_get fmempty d k = d"
  by (simp add: fm_get_def)

lemma fm_weight_id: "fm_weight (\<lambda>x. x) m k = fm_get m 0 k"
  by (simp add: fm_weight_def fm_get_def)

lemma fm_sum_empty [simp]: "fm_sum w fmempty = 0"
  by (simp add: fm_sum_def)

lemma fm_sum_split:
  "fm_sum w m = fm_weight w m k + (\<Sum>j \<in> fmdom' m - {k}. w (the (fmlookup m j)))"
proof (cases "k \<in> fmdom' m")
  case True
  then obtain v where v: "fmlookup m k = Some v"
    by (auto simp: fmlookup_dom'_iff)
  have "fm_sum w m = w (the (fmlookup m k)) + (\<Sum>j \<in> fmdom' m - {k}. w (the (fmlookup m j)))"
    unfolding fm_sum_def using True by (intro sum.remove) simp_all
  then show ?thesis using v by (simp add: fm_weight_def)
next
  case False
  then have "fmlookup m k = None" and "fmdom' m - {k} = fmdom' m"
    by (auto simp: fmdom'_notD)
  then show ?thesis by (simp add: fm_weight_def fm_sum_def)
qed

lemma fm_sum_upd: "fm_sum w (fmupd k v m) = fm_sum w m - fm_weight w m k + w v"
proof -
  have "(\<Sum>j \<in> fmdom' (fmupd k v m) - {k}. w (the (fmlookup (fmupd k v m) j)))
      = (\<Sum>j \<in> fmdom' m - {k}. w (the (fmlookup m j)))"
    by (rule sum.cong) auto
  then show ?thesis
    using fm_sum_split [of w "fmupd k v m" k] fm_sum_split [of w m k]
    by (simp add: fm_weight_def)
qed

lemma fm_sum_nonneg: "(\<And>k v. fmlookup m k = Some v \<Longrightarrow> 0 \<le> w v) \<Longrightarrow> 0 \<le> fm_sum w m"
  unfolding fm_sum_def by (intro sum_nonneg) (auto simp: fmlookup_dom'_iff)

lemma fm_weight_le_sum:
  assumes "\<And>k v. fmlookup m k = Some v \<Longrightarrow> 0 \<le> w v"
  shows "fm_weight w m k \<le> fm_sum w m"
proof -
  have "0 \<le> (\<Sum>j \<in> fmdom' m - {k}. w (the (fmlookup m j)))"
    using assms by (intro sum_nonneg) (auto simp: fmlookup_dom'_iff)
  then show ?thesis using fm_sum_split [of w m k] by linarith
qed

text \<open>
  Iteration over a map. Go leaves the order open; the model lists the entries by key, and
  is used only where the result does not depend on the order.
\<close>

definition fm_entries :: "('k::linorder, 'v) fmap \<Rightarrow> ('k \<times> 'v) list" where
  "fm_entries m = map (\<lambda>k. (k, the (fmlookup m k))) (sorted_list_of_fset (fmdom m))"

definition fm_values :: "('k::linorder, 'v) fmap \<Rightarrow> 'v list" where
  "fm_values m = map snd (fm_entries m)"

lemma fm_entries_iff: "(k, v) \<in> set (fm_entries m) \<longleftrightarrow> fmlookup m k = Some v"
  by (auto simp: fm_entries_def image_iff fmlookup_dom_iff sorted_list_of_fset_simps)

lemma fm_values_iff: "v \<in> set (fm_values m) \<longleftrightarrow> (\<exists>k. fmlookup m k = Some v)"
  by (force simp: fm_values_def fm_entries_iff [symmetric] image_iff)

lemma fm_entries_fst: "map fst (fm_entries m) = sorted_list_of_fset (fmdom m)"
  by (simp add: fm_entries_def comp_def)

lemma distinct_fm_entries_fst: "distinct (map fst (fm_entries m))"
  by (simp add: fm_entries_fst sorted_list_of_fset.rep_eq)

section \<open>Lists\<close>

fun keep_until :: "('a \<Rightarrow> bool) \<Rightarrow> nat \<Rightarrow> 'a list \<Rightarrow> 'a list" where
  "keep_until p n [] = []"
| "keep_until p n (x # xs) =
     (if n = 0 then [] else if p x then x # keep_until p (n - 1) xs else keep_until p n xs)"

lemma keep_until_take: "keep_until p n xs = take n (filter p xs)"
  by (induction xs arbitrary: n) (auto simp: take_Cons')

lemma sum_list_filter_partition:
  "(\<Sum>x\<leftarrow>xs. (f x :: int)) = (\<Sum>x\<leftarrow>filter p xs. f x) + (\<Sum>x\<leftarrow>filter (\<lambda>x. \<not> p x) xs. f x)"
  by (induction xs) auto

lemma length_remove1_le: "length (remove1 x xs) \<le> length xs"
  by (induction xs) auto

section \<open>Positional numerals\<close>

text \<open>Big-endian digits of a number in a base, without leading zero, and their value.\<close>

fun to_base :: "nat \<Rightarrow> nat \<Rightarrow> nat list" where
  "to_base b n = (if n = 0 \<or> b < 2 then [] else to_base b (n div b) @ [n mod b])"

declare to_base.simps [simp del]

definition from_base :: "nat \<Rightarrow> nat list \<Rightarrow> nat" where
  "from_base b ds = fold (\<lambda>d v. b * v + d) ds 0"

lemma from_base_Nil [simp]: "from_base b [] = 0"
  by (simp add: from_base_def)

lemma from_base_snoc [simp]: "from_base b (ds @ [d]) = b * from_base b ds + d"
  by (simp add: from_base_def)

lemma from_base_zeros: "from_base b (replicate z 0 @ ds) = from_base b ds"
proof -
  have "fold (\<lambda>d v. b * v + d) (replicate z 0) 0 = (0::nat)"
    by (induction z) simp_all
  then show ?thesis by (simp add: from_base_def)
qed

lemma to_base_0 [simp]: "to_base b 0 = []"
  by (simp add: to_base.simps)

lemma from_base_to_base [simp]: "2 \<le> b \<Longrightarrow> from_base b (to_base b n) = n"
proof (induction b n rule: to_base.induct)
  case (1 b n)
  then show ?case by (cases "n = 0") (simp_all add: to_base.simps [of b n])
qed

lemma to_base_less: "2 \<le> b \<Longrightarrow> d \<in> set (to_base b n) \<Longrightarrow> d < b"
proof (induction b n rule: to_base.induct)
  case (1 b n)
  then show ?case by (cases "n = 0") (auto simp: to_base.simps [of b n])
qed

lemma to_base_hd: "to_base b n \<noteq> [] \<Longrightarrow> hd (to_base b n) \<noteq> 0"
proof (induction b n rule: to_base.induct)
  case (1 b n)
  show ?case
  proof (cases "n = 0 \<or> b < 2")
    case True
    with 1 show ?thesis by (simp add: to_base.simps [of b n])
  next
    case False
    show ?thesis
    proof (cases "to_base b (n div b) = []")
      case True
      then have "n div b = 0" using False by (auto simp: to_base.simps [of b "n div b"] split: if_splits)
      then have "n mod b = n" using False by (auto simp: div_eq_0_iff)
      with True False show ?thesis by (simp add: to_base.simps [of b n])
    next
      case nonempty: False
      with 1 False show ?thesis by (simp add: to_base.simps [of b n])
    qed
  qed
qed

lemma to_base_from_base:
  assumes "2 \<le> b"
  shows "(\<And>d. d \<in> set ds \<Longrightarrow> d < b) \<Longrightarrow> ds = [] \<or> hd ds \<noteq> 0 \<Longrightarrow> to_base b (from_base b ds) = ds"
proof (induction ds rule: rev_induct)
  case (snoc d ds)
  have d: "d < b" using snoc.prems(1) by simp
  have IH: "to_base b (from_base b ds) = ds"
    using snoc by (cases ds) auto
  have "b * from_base b ds + d \<noteq> 0"
  proof (cases ds)
    case Nil
    then show ?thesis using snoc.prems(2) by simp
  next
    case (Cons e es)
    then have "to_base b (from_base b ds) \<noteq> []" using IH by simp
    then have "from_base b ds \<noteq> 0" by (metis to_base_0)
    then show ?thesis using assms by simp
  qed
  then show ?case
    using d assms IH by (simp add: to_base.simps [of b "b * from_base b ds + d"])
qed simp

lemma zero_prefix_split:
  "xs = replicate (length (takeWhile (\<lambda>x. x = z) xs)) z @ dropWhile (\<lambda>x. x = z) xs"
proof -
  have "takeWhile (\<lambda>x. x = z) xs = replicate (length (takeWhile (\<lambda>x. x = z) xs)) z"
    by (metis (mono_tags, lifting) replicate_length_same set_takeWhileD)
  then show ?thesis by (metis takeWhile_dropWhile_id)
qed

lemma takeWhile_replicate_append:
  "ys = [] \<or> hd ys \<noteq> z \<Longrightarrow> takeWhile (\<lambda>x. x = z) (replicate n z @ ys) = replicate n z"
  by (induction n) (cases ys; simp)+

section \<open>Interfaces\<close>

text \<open>
  A codec: \<open>enc\<close> is defined on the values \<open>dom\<close> admits, and \<open>dec\<close> gives the value
  back. Two clients follow: encodings of admissible values are unambiguous, and a decoder
  accepts every encoding.
\<close>

locale codec =
  fixes enc :: "'a \<Rightarrow> 'b"
    and dec :: "'b \<Rightarrow> 'c"
    and ok :: "'a \<Rightarrow> 'c"
    and adm :: "'a \<Rightarrow> bool"
  assumes dec_enc: "adm x \<Longrightarrow> dec (enc x) = ok x"
    and ok_inj: "ok x = ok y \<Longrightarrow> x = y"
begin

lemma enc_inj: "adm x \<Longrightarrow> adm y \<Longrightarrow> enc x = enc y \<Longrightarrow> x = y"
  using dec_enc ok_inj by metis

lemma enc_inj_on: "inj_on enc {x. adm x}"
  by (rule inj_onI) (auto intro: enc_inj)

end

text \<open>
  A fallible step over a state: on success it keeps the invariant. Running a list of
  steps, stopping at the first failure, keeps it too. The Go loops over transactions and
  over crawl proofs are such runs.
\<close>

fun run_steps :: "('s \<Rightarrow> 'x \<Rightarrow> 'e + 's \<times> 'y) \<Rightarrow> 's \<Rightarrow> 'x list \<Rightarrow> 'e + 's \<times> 'y list" where
  "run_steps f s [] = Inr (s, [])"
| "run_steps f s (x # xs) =
     (case f s x of
        Inl e \<Rightarrow> Inl e
      | Inr (s', y) \<Rightarrow>
          (case run_steps f s' xs of Inl e \<Rightarrow> Inl e | Inr (s'', ys) \<Rightarrow> Inr (s'', y # ys)))"

lemma run_steps_ConsE:
  assumes "run_steps f s (x # xs) = Inr (t, ys)"
  obtains s' y ys' where "f s x = Inr (s', y)" and "run_steps f s' xs = Inr (t, ys')"
    and "ys = y # ys'"
  using assms by (auto split: sum.splits prod.splits)

lemma run_steps_length: "run_steps f s xs = Inr (t, ys) \<Longrightarrow> length ys = length xs"
  by (induction xs arbitrary: s ys) (auto elim!: run_steps_ConsE simp del: run_steps.simps(2))

locale guarded_step =
  fixes step :: "'s \<Rightarrow> 'x \<Rightarrow> 'e + 's \<times> 'y"
    and inv :: "'s \<Rightarrow> bool"
  assumes step_inv: "inv s \<Longrightarrow> step s x = Inr (s', y) \<Longrightarrow> inv s'"
begin

lemma run_inv: "inv s \<Longrightarrow> run_steps step s xs = Inr (t, ys) \<Longrightarrow> inv t"
proof (induction xs arbitrary: s ys)
  case (Cons x xs)
  from Cons.prems(2) obtain s' y ys'
    where "step s x = Inr (s', y)" "run_steps step s' xs = Inr (t, ys')"
    by (rule run_steps_ConsE)
  with Cons.prems(1) Cons.IH show ?case by (blast intro: step_inv)
qed simp

end

text \<open>
  A measured step: each successful step changes a quantity of the state by an amount read
  off its input, so a run changes it by the sum.
\<close>

locale metered_step =
  fixes step :: "'s \<Rightarrow> 'x \<Rightarrow> 'e + 's \<times> 'y"
    and inv :: "'s \<Rightarrow> bool"
    and quantity :: "'s \<Rightarrow> int"
    and delta :: "'y \<Rightarrow> int"
  assumes metered_inv: "inv s \<Longrightarrow> step s x = Inr (s', y) \<Longrightarrow> inv s'"
    and metered: "inv s \<Longrightarrow> step s x = Inr (s', y) \<Longrightarrow> quantity s' = quantity s + delta y"
begin

sublocale guarded_step step inv
  by unfold_locales (rule metered_inv)

lemma run_metered:
  "inv s \<Longrightarrow> run_steps step s xs = Inr (t, ys) \<Longrightarrow> quantity t = quantity s + (\<Sum>y\<leftarrow>ys. delta y)"
proof (induction xs arbitrary: s ys)
  case (Cons x xs)
  from Cons.prems(2) obtain s' y ys'
    where *: "step s x = Inr (s', y)" "run_steps step s' xs = Inr (t, ys')" "ys = y # ys'"
    by (rule run_steps_ConsE)
  with Cons.prems(1) have "inv s'" "quantity s' = quantity s + delta y"
    by (blast intro: metered_inv, blast intro: metered)
  with Cons.IH [OF _ *(2)] *(3) show ?case by simp
qed simp

end

end
