(* ===== verification/Chain_Types.thy ===== *)
theory Chain_Types
  imports Prelude
begin

text \<open>
  The data the program stores, signs and exchanges: the structs of
  \<open>src/core/blockchain.go\<close>, \<open>src/core/system_contracts.go\<close> and the page type of
  \<open>src/core/consensus/pouw.go\<close>, field by field. A Go string and a byte slice are both a
  list of bytes (Isabelle's \<open>char\<close> is an 8-bit value); \<open>uint64\<close> is a 64-bit word;
  \<open>*big.Int\<close> is an integer, with \<open>None\<close> for nil where it can occur; a map is a finite
  map; a \<open>time.Time\<close> counts nanoseconds from Go's zero time, so that \<open>IsZero\<close> is
  equality with 0. Field names carry a prefix naming their struct.
\<close>

type_synonym bytes = "char list"
type_synonym u64 = "64 word"
type_synonym time = int

text \<open>\<open>type TxType string\<close>: any string can arrive in a transaction; three are known.\<close>

definition TxTypeTransfer :: string where
  "TxTypeTransfer = ''transfer''"

definition TxTypeSearchTask :: string where
  "TxTypeSearchTask = ''search_task''"

definition TxTypeContractDeploy :: string where
  "TxTypeContractDeploy = ''contract_deploy''"

record SearchTaskRequest =
  req_Query :: string
  req_URL :: string
  req_BaseBounty :: string
  req_Difficulty :: u64
  req_DataVolumeBytes :: u64

record ContractFunction =
  fn_Signature :: string
  fn_Selector :: string
  fn_Mutability :: string

record ContractDeploymentRequest =
  dep_Name :: string
  dep_Runtime :: string
  dep_Description :: string
  dep_Source :: string
  dep_StorageModel :: string
  dep_Code :: string
  dep_Functions :: "ContractFunction list"

record ContractRecord =
  con_Address :: string
  con_Name :: string
  con_Kind :: string
  con_Handler :: string
  con_Code :: string
  con_CodeHash :: string
  con_Description :: string
  con_Owner :: string
  con_TxHash :: string
  con_System :: bool
  con_Executable :: bool
  con_GenesisDeployed :: bool
  con_DeploymentBlock :: u64
  con_DeploymentModel :: string
  con_Functions :: "ContractFunction list"
  con_Source :: string
  con_StorageModel :: string

record SearchTaskRecord =
  task_ID :: string
  task_TxHash :: string
  task_Submitter :: string
  task_Query :: string
  task_URL :: string
  task_BaseBounty :: string
  task_GrossBounty :: string
  task_ArchitectFee :: string
  task_MinerReward :: string
  task_Difficulty :: u64
  task_DataVolumeBytes :: u64
  task_CreatedAt :: time
  task_Autonomous :: bool
  task_ParentTaskID :: string
  task_Depth :: u64
  task_Completed :: bool
  task_CompletedAt :: time
  task_ProofHash :: string
  task_MinedBy :: string

record SearchRecord =
  doc_TaskID :: string
  doc_URL :: string
  doc_Query :: string
  doc_Title :: string
  doc_Snippet :: string
  doc_Body :: string
  doc_BodyBytes :: u64
  doc_ContentHash :: string
  doc_SimHash :: u64
  doc_IndexedAt :: time
  doc_IndexedBy :: string
  doc_ProofHash :: string
  doc_BlockHash :: string
  doc_TermCounts :: "(string, u64) fmap"

record NameRecord =
  name_Name :: string
  name_Owner :: string
  name_RegisteredAt :: time
  name_TxHash :: string

record Transaction =
  tx_Hash :: string
  tx_Type :: string
  tx_From :: string
  tx_To :: string
  tx_Value :: string
  tx_Nonce :: u64
  tx_Timestamp :: time
  tx_Data :: bytes
  tx_PublicKey :: bytes
  tx_Signature :: bytes

text \<open>
  \<open>consensus.IndexedPage\<close>. \<open>QueryCoverage\<close> is a \<open>float64\<close> quotient of two small counts;
  it is kept as the exact rational.
\<close>

record IndexedPage =
  page_URL :: string
  page_Title :: string
  page_Body :: string
  page_Snippet :: string
  page_OutboundLinks :: "string list"
  page_StatusCode :: int
  page_BodyBytes :: u64
  page_ContentHash :: string
  page_QueryCoverage :: rat
  page_SimHash :: u64
  page_IndexedAt :: time

record CrawlProof =
  pr_TaskID :: string
  pr_TaskTxHash :: string
  pr_Query :: string
  pr_URL :: string
  pr_Miner :: string
  pr_Page :: IndexedPage
  pr_ProofHash :: string
  pr_GrossBounty :: string
  pr_ArchitectFee :: string
  pr_MinerReward :: string
  pr_CreatedAt :: time

record BlockHeader =
  hdr_Number :: u64
  hdr_ParentHash :: string
  hdr_StateRoot :: string
  hdr_Timestamp :: time
  hdr_Miner :: string
  hdr_TxRoot :: string
  hdr_CrawlRoot :: string

record BlockBody =
  body_Transactions :: "Transaction list"
  body_CrawlProofs :: "CrawlProof list"

record Block =
  blk_Hash :: string
  blk_Header :: BlockHeader
  blk_Body :: BlockBody

record BlockMeta =
  meta_Hash :: string
  meta_ParentHash :: string
  meta_Number :: u64
  meta_Work :: string
  meta_CumulativeWork :: string
  meta_Canonical :: bool

text \<open>
  \<open>StateSnapshot\<close>. Balances are pointers the program never stores as nil, so they are plain
  integers here. \<open>Clone\<close> copies every map, record and number; on immutable values it is the
  identity, so the model passes states by value and needs no counterpart for it.
\<close>

record StateSnapshot =
  Balances :: "(string, int) fmap"
  Nonces :: "(string, u64) fmap"
  PendingTasks :: "(string, SearchTaskRecord) fmap"
  SearchIndex :: "(string, SearchRecord) fmap"
  MentionCounts :: "(string, u64) fmap"
  Names :: "(string, NameRecord) fmap"
  Contracts :: "(string, ContractRecord) fmap"
  ContractData :: "(string, string) fmap"

definition NewStateSnapshot :: StateSnapshot where
  "NewStateSnapshot =
     \<lparr>Balances = fmempty, Nonces = fmempty, PendingTasks = fmempty, SearchIndex = fmempty,
      MentionCounts = fmempty, Names = fmempty, Contracts = fmempty, ContractData = fmempty\<rparr>"

record AppliedTransaction =
  app_Transaction :: Transaction
  app_ArchitectFee :: int
  app_NetValue :: int
  app_Task :: "SearchTaskRecord option"
  app_Contract :: "ContractRecord option"

text \<open>The zero values Go gives a declared struct.\<close>

definition zero_BlockHeader :: BlockHeader where
  "zero_BlockHeader =
     \<lparr>hdr_Number = 0, hdr_ParentHash = [], hdr_StateRoot = [], hdr_Timestamp = 0, hdr_Miner = [],
      hdr_TxRoot = [], hdr_CrawlRoot = []\<rparr>"

definition zero_Block :: Block where
  "zero_Block =
     \<lparr>blk_Hash = [], blk_Header = zero_BlockHeader,
      blk_Body = \<lparr>body_Transactions = [], body_CrawlProofs = []\<rparr>\<rparr>"

definition zero_BlockMeta :: BlockMeta where
  "zero_BlockMeta =
     \<lparr>meta_Hash = [], meta_ParentHash = [], meta_Number = 0, meta_Work = [],
      meta_CumulativeWork = [], meta_Canonical = False\<rparr>"

end
