(* ===== verification/Go_Lib.thy ===== *)
theory Go_Lib
  imports Chain_Types "HOL-Library.List_Lexorder" "HOL-Library.Char_ord"
begin

text \<open>
  The parts of Go and of its standard library the program uses: strings and their bytes
  (compared lexicographically by byte, as Go does), UTF-8, decimal and hexadecimal numbers,
  big-endian integers.

  What cannot be read in the repository is a parameter: the record \<open>env\<close> holds the hash
  functions, signature verification, the byte rendering of JSON and the decoding of the two
  payload types, URL parsing, the Unicode tables beyond ASCII and the clock. Every
  definition that uses one of them takes the record as its first argument.
\<close>

section \<open>Errors\<close>

text \<open>
  Every sentinel error of the modelled packages, errors made on the spot (\<open>ErrText\<close>),
  errors of a library (\<open>ErrLib\<close>), and \<open>GoPanic\<close> for a run-time panic, which unwinds
  through every caller.
\<close>

datatype err =
    ErrBlockNotFound | ErrCrawlProofNotFound | ErrInsufficientBalance | ErrInvalidBlock
  | ErrInvalidSignature | ErrInvalidTransaction | ErrInvalidTransactionFee | ErrInvalidNonce
  | ErrTaskNotFound | ErrTaskSettled | ErrTransactionNotFound
  | ErrUnsupportedUserContractRuntime | ErrInvalidUserContractCall
  | ErrUnsupportedNativeContract | ErrNativeCallNotPayable | ErrInvalidUNSCall
  | ErrAliasResolverRequired | ErrEmptyPublicKey | ErrInvalidAddress | ErrInvalidChecksum
  | ErrEmptyQuery | ErrInsufficientValidators | ErrInvalidBounty | ErrInvalidPriorityRule
  | ErrInvalidURL | ErrNilCrawler | ErrNilGovernanceSource | ErrNilPriorityRegistry
  | ErrNoIndexableResult | ErrNoSeedURLs
  | ErrAlreadyMining | ErrPoolFull | ErrSenderQueueFull | ErrReplacementUnderpriced
  | ErrPendingNonceConflict | ErrForkNotPreferred | ErrInvalidVoteChoice
  | ErrText string | ErrLib string | GoPanic

type_synonym 'a res = "err + 'a"

section \<open>JSON trees and URLs\<close>

text \<open>
  A value as \<open>encoding/json\<close> sees it: field names and \<open>omitempty\<close> are applied by the
  model of each struct, the rendering of the tree as bytes is the parameter
  \<open>json_marshal\<close>.
\<close>

datatype json =
    JStr string | JUint u64 | JInt int | JFloat rat | JBool bool | JTime time | JBytes bytes
  | JArr "json list" | JObj "(string \<times> json) list"

record url =
  Scheme :: string
  Host :: string
  Path :: string
  RawQuery :: string
  Fragment :: string
  url_rest :: string

record env =
  sha256 :: "bytes \<Rightarrow> bytes"
  ripemd160 :: "bytes \<Rightarrow> bytes"
  keccak256 :: "bytes \<Rightarrow> bytes"
  ed25519_verify :: "bytes \<Rightarrow> bytes \<Rightarrow> bytes \<Rightarrow> bool"
  json_marshal :: "json \<Rightarrow> bytes"
  unmarshal_task :: "bytes \<Rightarrow> SearchTaskRequest option"
  unmarshal_deployment :: "bytes \<Rightarrow> ContractDeploymentRequest option"
  url_parse :: "string \<Rightarrow> url option"
  url_string :: "url \<Rightarrow> string"
  url_hostname :: "url \<Rightarrow> string"
  url_escaped_path :: "url \<Rightarrow> string"
  uni_to_lower :: "string \<Rightarrow> string"
  uni_letter_number :: "nat \<Rightarrow> bool"
  uni_lower_rune :: "nat \<Rightarrow> nat"
  uni_equal_fold :: "string \<Rightarrow> string \<Rightarrow> bool"
  now :: time

section \<open>Bytes and ASCII\<close>

definition byte :: "char \<Rightarrow> nat" where
  "byte c = of_char c"

lemma byte_less: "byte c < 256"
  by (simp add: byte_def)

lemma byte_inject [simp]: "byte c = byte d \<longleftrightarrow> c = d"
  by (simp add: byte_def)

lemma char_of_byte [simp]: "char_of (byte c) = c"
  by (simp add: byte_def)

lemma byte_char_of [simp]: "byte (char_of n) = n mod 256"
  by (simp add: byte_def)

definition is_ascii :: "string \<Rightarrow> bool" where
  "is_ascii s = list_all (\<lambda>c. byte c < 128) s"

definition lower_char :: "char \<Rightarrow> char" where
  "lower_char c = (if 65 \<le> byte c \<and> byte c \<le> 90 then char_of (byte c + 32) else c)"

text \<open>\<open>strings.ToLower\<close>: byte-wise on an ASCII string, by the Unicode tables otherwise.\<close>

definition ToLower :: "env \<Rightarrow> string \<Rightarrow> string" where
  "ToLower E s = (if is_ascii s then map lower_char s else uni_to_lower E s)"

text \<open>\<open>strings.EqualFold\<close>.\<close>

definition EqualFold :: "env \<Rightarrow> string \<Rightarrow> string \<Rightarrow> bool" where
  "EqualFold E s t =
     (if is_ascii s \<and> is_ascii t then map lower_char s = map lower_char t else uni_equal_fold E s t)"

section \<open>strings.TrimSpace\<close>

text \<open>
  The UTF-8 encodings of the code points with the White_Space property. Such an encoding
  ends a string exactly when \<open>utf8.DecodeLastRune\<close> yields its code point, because its
  first byte is the only rune start in it.
\<close>

definition white_space :: "string list" where
  "white_space = map (map char_of)
     [[9], [10], [11], [12], [13], [32], [194, 133], [194, 160], [225, 154, 128],
      [226, 128, 128], [226, 128, 129], [226, 128, 130], [226, 128, 131], [226, 128, 132],
      [226, 128, 133], [226, 128, 134], [226, 128, 135], [226, 128, 136], [226, 128, 137],
      [226, 128, 138], [226, 128, 168], [226, 128, 169], [226, 128, 175], [226, 129, 159],
      [227, 128, 128 :: nat]]"

definition lead :: "string list \<Rightarrow> string \<Rightarrow> nat" where
  "lead ws s = (case filter (\<lambda>w. prefix w s) ws of [] \<Rightarrow> 0 | w # _ \<Rightarrow> length w)"

function trim_front :: "string list \<Rightarrow> string \<Rightarrow> string" where
  "trim_front ws s = (if lead ws s = 0 \<or> s = [] then s else trim_front ws (drop (lead ws s) s))"
  by pat_completeness auto
termination
  by (relation "measure (\<lambda>(ws, s). length s)") auto

declare trim_front.simps [simp del]

definition TrimSpace :: "string \<Rightarrow> string" where
  "TrimSpace s = rev (trim_front (map rev white_space) (rev (trim_front white_space s)))"

lemma lead_trim_front: "lead ws (trim_front ws s) = 0 \<or> trim_front ws s = []"
proof (induction ws s rule: trim_front.induct)
  case (1 ws s)
  then show ?case by (cases "lead ws s = 0 \<or> s = []") (auto simp: trim_front.simps [of ws s])
qed

lemma trim_front_id: "lead ws s = 0 \<or> s = [] \<Longrightarrow> trim_front ws s = s"
  by (subst trim_front.simps) simp

lemma suffix_trim_front: "suffix (trim_front ws s) s"
proof (induction ws s rule: trim_front.induct)
  case (1 ws s)
  then show ?case
    by (cases "lead ws s = 0 \<or> s = []")
      (auto simp: trim_front.simps [of ws s] intro: suffix_order.trans suffix_drop)
qed

lemma lead_eq_0:
  "[] \<notin> set ws \<Longrightarrow> lead ws s = 0 \<longleftrightarrow> (\<forall>w \<in> set ws. \<not> prefix w s)"
proof (cases "filter (\<lambda>w. prefix w s) ws")
  case Nil
  then show ?thesis by (auto simp: lead_def filter_empty_conv)
next
  case (Cons w vs)
  assume ne: "[] \<notin> set ws"
  have "w \<in> set (filter (\<lambda>w. prefix w s) ws)" by (simp add: Cons)
  then have w: "w \<in> set ws" "prefix w s" by simp_all
  with ne Cons show ?thesis by (auto simp: lead_def)
qed

lemma white_space_nonempty: "[] \<notin> set white_space" "[] \<notin> set (map rev white_space)"
  by (simp_all add: white_space_def)

lemma lead_prefix:
  assumes "[] \<notin> set ws" and "prefix u s" and "lead ws s = 0"
  shows "lead ws u = 0"
  using assms by (auto simp: lead_eq_0 intro: prefix_order.trans)

lemma TrimSpace_idem [simp]: "TrimSpace (TrimSpace s) = TrimSpace s"
proof -
  define t where "t = trim_front white_space s"
  define u where "u = trim_front (map rev white_space) (rev t)"
  have u: "lead (map rev white_space) u = 0 \<or> u = []"
    unfolding u_def by (rule lead_trim_front)
  have "suffix u (rev t)" unfolding u_def by (rule suffix_trim_front)
  then have "prefix (rev u) t" by (simp add: suffix_to_prefix)
  moreover have "lead white_space t = 0 \<or> t = []"
    unfolding t_def by (rule lead_trim_front)
  ultimately have "lead white_space (rev u) = 0 \<or> rev u = []"
    using lead_prefix [OF white_space_nonempty(1), of "rev u" t] by auto
  then have "trim_front white_space (rev u) = rev u" by (rule trim_front_id)
  moreover have "trim_front (map rev white_space) u = u" using u by (rule trim_front_id)
  ultimately show ?thesis
    by (simp add: TrimSpace_def u_def t_def)
qed

text \<open>A string that starts and ends with a visible ASCII character is not trimmed.\<close>

definition visible :: "char \<Rightarrow> bool" where
  "visible c = (33 \<le> byte c \<and> byte c < 128)"

lemma not_white_start: "visible c \<Longrightarrow> lead white_space (c # s) = 0"
  by (subst lead_eq_0 [OF white_space_nonempty(1)])
    (auto simp: white_space_def visible_def)

lemma not_white_end: "visible c \<Longrightarrow> lead (map rev white_space) (c # s) = 0"
  by (subst lead_eq_0 [OF white_space_nonempty(2)])
    (auto simp: white_space_def visible_def)

lemma TrimSpace_visible:
  assumes "s = [] \<or> visible (hd s) \<and> visible (last s)"
  shows "TrimSpace s = s"
proof (cases s)
  case Nil
  then show ?thesis by (simp add: TrimSpace_def trim_front_id)
next
  case (Cons c t)
  with assms have "visible c" by simp
  then have 1: "trim_front white_space s = s"
    using Cons by (intro trim_front_id) (simp add: not_white_start)
  obtain d r where r: "rev s = d # r" using Cons by (cases "rev s") auto
  then have "visible d" using assms Cons by (metis last_rev rev_rev_ident list.distinct(1) list.sel(1))
  then have "trim_front (map rev white_space) (rev s) = rev s"
    using r by (intro trim_front_id) (simp add: not_white_end)
  with 1 show ?thesis by (simp add: TrimSpace_def)
qed

lemma TrimSpace_Nil [simp]: "TrimSpace [] = []"
  by (simp add: TrimSpace_visible)

lemma TrimSpace_length: "length (TrimSpace s) \<le> length s"
proof -
  have "length (trim_front ws u) \<le> length u" for ws u
    using suffix_trim_front [of ws u] by (rule suffix_length_le)
  then show ?thesis
    unfolding TrimSpace_def by (metis length_rev order_trans)
qed

section \<open>UTF-8\<close>

text \<open>
  \<open>utf8.DecodeRune\<close>: the code point at the front of a non-empty string and its width; an
  invalid encoding yields \<open>RuneError\<close> with width 1.
\<close>

definition rune_error :: nat where
  "rune_error = 65533"

definition in_range :: "nat \<Rightarrow> nat \<Rightarrow> string \<Rightarrow> nat \<Rightarrow> bool" where
  "in_range lo hi s i = (i < length s \<and> lo \<le> byte (s ! i) \<and> byte (s ! i) \<le> hi)"

definition decode_rune :: "string \<Rightarrow> nat \<times> nat" where
  "decode_rune s =
     (let b0 = byte (s ! 0); b = (\<lambda>i. byte (s ! i)) in
      if b0 < 128 then (b0, 1)
      else if 194 \<le> b0 \<and> b0 \<le> 223 \<and> in_range 128 191 s 1
        then ((b0 - 192) * 64 + (b 1 - 128), 2)
      else if 224 \<le> b0 \<and> b0 \<le> 239
          \<and> in_range (if b0 = 224 then 160 else 128) (if b0 = 237 then 159 else 191) s 1
          \<and> in_range 128 191 s 2
        then ((b0 - 224) * 4096 + (b 1 - 128) * 64 + (b 2 - 128), 3)
      else if 240 \<le> b0 \<and> b0 \<le> 244
          \<and> in_range (if b0 = 240 then 144 else 128) (if b0 = 244 then 143 else 191) s 1
          \<and> in_range 128 191 s 2 \<and> in_range 128 191 s 3
        then ((b0 - 240) * 262144 + (b 1 - 128) * 4096 + (b 2 - 128) * 64 + (b 3 - 128), 4)
      else (rune_error, 1))"

lemma decode_rune_width: "0 < snd (decode_rune s)"
  by (simp add: decode_rune_def Let_def)

text \<open>The runes \<open>for _, r := range s\<close> visits.\<close>

function runes :: "string \<Rightarrow> nat list" where
  "runes s = (if s = [] then [] else fst (decode_rune s) # runes (drop (snd (decode_rune s)) s))"
  by pat_completeness auto
termination
  by (relation "measure length") (auto simp: decode_rune_width)

declare runes.simps [simp del]

text \<open>\<open>utf8.EncodeRune\<close> on the code points \<open>runes\<close> yields.\<close>

definition encode_rune :: "nat \<Rightarrow> string" where
  "encode_rune r =
     map char_of
       (if r < 128 then [r]
        else if r < 2048 then [192 + r div 64, 128 + r mod 64]
        else if r < 65536 then [224 + r div 4096, 128 + r div 64 mod 64, 128 + r mod 64]
        else [240 + r div 262144, 128 + r div 4096 mod 64, 128 + r div 64 mod 64, 128 + r mod 64])"

lemma runes_ascii: "is_ascii s \<Longrightarrow> runes s = map byte s"
proof (induction s)
  case Nil
  then show ?case by (simp add: runes.simps)
next
  case (Cons c s)
  then have "decode_rune (c # s) = (byte c, 1)"
    by (simp add: is_ascii_def decode_rune_def Let_def)
  with Cons show ?case by (simp add: runes.simps [of "c # s"] is_ascii_def)
qed

section \<open>Decimal numbers\<close>

definition digit_char :: "nat \<Rightarrow> char" where
  "digit_char d = char_of (48 + d)"

definition is_digit :: "char \<Rightarrow> bool" where
  "is_digit c = (48 \<le> byte c \<and> byte c \<le> 57)"

text \<open>\<open>strconv.FormatUint(n, 10)\<close> and \<open>(*big.Int).String\<close>.\<close>

fun show_nat :: "nat \<Rightarrow> string" where
  "show_nat n = (if n < 10 then [digit_char n] else show_nat (n div 10) @ [digit_char (n mod 10)])"

declare show_nat.simps [simp del]

definition FormatUint :: "u64 \<Rightarrow> string" where
  "FormatUint w = show_nat (unat w)"

definition show_int :: "int \<Rightarrow> string" where
  "show_int i = (if i < 0 then CHR ''-'' # show_nat (nat (- i)) else show_nat (nat i))"

definition digits_value :: "string \<Rightarrow> nat" where
  "digits_value s = fold (\<lambda>c v. 10 * v + (byte c - 48)) s 0"

definition parse_digits :: "string \<Rightarrow> nat option" where
  "parse_digits s = (if s \<noteq> [] \<and> list_all is_digit s then Some (digits_value s) else None)"

text \<open>\<open>new(big.Int).SetString(s, 10)\<close>: an optional sign and at least one digit; nil otherwise.\<close>

definition SetString :: "string \<Rightarrow> int option" where
  "SetString s =
     (case s of
        [] \<Rightarrow> None
      | c # t \<Rightarrow>
          if c = CHR ''-'' then map_option (\<lambda>n. - int n) (parse_digits t)
          else if c = CHR ''+'' then map_option int (parse_digits t)
          else map_option int (parse_digits s))"

text \<open>\<open>strconv.ParseUint(s, 10, 64)\<close>.\<close>

definition ParseUint :: "string \<Rightarrow> u64 res" where
  "ParseUint s =
     (case parse_digits s of
        None \<Rightarrow> Inl (ErrLib ''strconv: invalid syntax'')
      | Some n \<Rightarrow> if n < 2 ^ 64 then Inr (of_nat n) else Inl (ErrLib ''strconv: value out of range''))"

lemma byte_digit_char: "d < 10 \<Longrightarrow> byte (digit_char d) = 48 + d"
  by (simp add: digit_char_def)

lemma is_digit_char: "d < 10 \<Longrightarrow> is_digit (digit_char d)"
  by (simp add: is_digit_def byte_digit_char)

lemma show_nat_nonempty [simp]: "show_nat n \<noteq> []"
  by (subst show_nat.simps) simp

lemma show_nat_digits: "list_all is_digit (show_nat n)"
proof (induction n rule: show_nat.induct)
  case (1 n)
  then show ?case by (cases "n < 10") (simp_all add: show_nat.simps [of n] is_digit_char)
qed

lemma digits_value_show_nat [simp]: "digits_value (show_nat n) = n"
proof (induction n rule: show_nat.induct)
  case (1 n)
  show ?case
  proof (cases "n < 10")
    case True
    then show ?thesis by (simp add: show_nat.simps [of n] digits_value_def byte_digit_char)
  next
    case False
    then show ?thesis using 1
      by (simp add: show_nat.simps [of n] digits_value_def byte_digit_char)
  qed
qed

lemma parse_digits_show_nat [simp]: "parse_digits (show_nat n) = Some n"
  by (simp add: parse_digits_def show_nat_digits)

lemma show_nat_hd: "show_nat n = c # t \<Longrightarrow> is_digit c"
  using show_nat_digits [of n] by simp

lemma SetString_show_nat: "SetString (show_nat n) = Some (int n)"
proof (cases "show_nat n")
  case (Cons c t)
  then have "is_digit c" by (rule show_nat_hd)
  then have "c \<noteq> CHR ''-''" "c \<noteq> CHR ''+''" by (auto simp: is_digit_def byte_def)
  then show ?thesis
    using Cons by (simp add: SetString_def parse_digits_show_nat [of n, unfolded Cons])
qed simp

lemma SetString_show_int [simp]: "SetString (show_int i) = Some i"
proof (cases "i < 0")
  case True
  then show ?thesis by (simp add: show_int_def SetString_def)
next
  case False
  then show ?thesis by (simp add: show_int_def SetString_show_nat)
qed

lemma show_int_inject [simp]: "show_int i = show_int j \<longleftrightarrow> i = j"
  by (metis SetString_show_int option.inject)

lemma ParseUint_FormatUint [simp]: "ParseUint (FormatUint w) = Inr w"
  using unsigned_less [of w] by (simp add: ParseUint_def FormatUint_def)

lemma digit_visible: "is_digit c \<Longrightarrow> visible c"
  by (simp add: is_digit_def visible_def)

lemma TrimSpace_show_nat [simp]: "TrimSpace (show_nat n) = show_nat n"
proof (rule TrimSpace_visible)
  have "list_all visible (show_nat n)"
    using show_nat_digits [of n] by (auto simp: list_all_iff digit_visible)
  then show "show_nat n = [] \<or> visible (hd (show_nat n)) \<and> visible (last (show_nat n))"
    by (simp add: list_all_iff)
qed

lemma TrimSpace_show_int [simp]: "TrimSpace (show_int i) = show_int i"
proof (cases "i < 0")
  case True
  have "visible (last (show_nat n))" for n
    using show_nat_digits [of n] by (simp add: list_all_iff digit_visible)
  with True show ?thesis
    by (intro TrimSpace_visible) (simp add: show_int_def visible_def byte_def)
qed (simp add: show_int_def)

section \<open>Bytes of integers\<close>

text \<open>\<open>(*big.Int).SetBytes\<close> and \<open>(*big.Int).Bytes\<close>: big endian, no leading zero byte.\<close>

definition big_SetBytes :: "bytes \<Rightarrow> nat" where
  "big_SetBytes bs = fold (\<lambda>c v. 256 * v + byte c) bs 0"

fun big_Bytes :: "nat \<Rightarrow> bytes" where
  "big_Bytes n = (if n = 0 then [] else big_Bytes (n div 256) @ [char_of (n mod 256)])"

declare big_Bytes.simps [simp del]

text \<open>\<open>binary.BigEndian.PutUint64\<close> and \<open>Uint64\<close> on eight bytes.\<close>

fun be_bytes :: "nat \<Rightarrow> nat \<Rightarrow> bytes" where
  "be_bytes 0 n = []"
| "be_bytes (Suc k) n = be_bytes k (n div 256) @ [char_of (n mod 256)]"

lemma length_be_bytes [simp]: "length (be_bytes k n) = k"
  by (induction k arbitrary: n) auto

lemma big_SetBytes_append1 [simp]: "big_SetBytes (bs @ [c]) = 256 * big_SetBytes bs + byte c"
  by (simp add: big_SetBytes_def)

lemma big_SetBytes_Nil [simp]: "big_SetBytes [] = 0"
  by (simp add: big_SetBytes_def)

lemma big_SetBytes_be_bytes: "n < 256 ^ k \<Longrightarrow> big_SetBytes (be_bytes k n) = n"
proof (induction k arbitrary: n)
  case (Suc k)
  then have "n div 256 < 256 ^ k" by (simp add: less_mult_imp_div_less mult.commute)
  with Suc.IH show ?case by simp
qed simp

lemma big_SetBytes_Bytes [simp]: "big_SetBytes (big_Bytes n) = n"
proof (induction n rule: big_Bytes.induct)
  case (1 n)
  then show ?case
    by (cases "n = 0") (simp_all add: big_Bytes.simps [of n] big_Bytes.simps [of 0])
qed

lemma big_SetBytes_from_base: "big_SetBytes bs = from_base 256 (map byte bs)"
  by (induction bs rule: rev_induct) simp_all

lemma big_Bytes_to_base: "big_Bytes n = map char_of (to_base 256 n)"
proof (induction n rule: big_Bytes.induct)
  case (1 n)
  then show ?case by (cases "n = 0") (simp_all add: big_Bytes.simps [of n] big_Bytes.simps [of 0] to_base.simps [of 256 n])
qed

lemma big_Bytes_hd: "big_Bytes n \<noteq> [] \<Longrightarrow> byte (hd (big_Bytes n)) \<noteq> 0"
  using to_base_hd [of 256 n] to_base_less [of 256 "hd (to_base 256 n)" n]
  by (auto simp: big_Bytes_to_base hd_map)

lemma big_Bytes_SetBytes:
  assumes "bs = [] \<or> byte (hd bs) \<noteq> 0"
  shows "big_Bytes (big_SetBytes bs) = bs"
proof -
  have "to_base 256 (from_base 256 (map byte bs)) = map byte bs"
    using assms by (intro to_base_from_base) (cases bs; auto simp: byte_less)+
  then show ?thesis
    by (simp add: big_Bytes_to_base big_SetBytes_from_base map_idI)
qed

lemma big_SetBytes_zeros: "big_SetBytes (replicate z (char_of (0::nat)) @ bs) = big_SetBytes bs"
  by (simp add: big_SetBytes_from_base from_base_zeros)

section \<open>Hexadecimal\<close>

text \<open>\<open>hex.EncodeToString\<close> (lower case) and \<open>hex.DecodeString\<close> (either case).\<close>

definition hex_digit :: "nat \<Rightarrow> char" where
  "hex_digit n = ''0123456789abcdef'' ! n"

definition hex_encode :: "bytes \<Rightarrow> string" where
  "hex_encode bs = concat (map (\<lambda>c. [hex_digit (byte c div 16), hex_digit (byte c mod 16)]) bs)"

definition hex_value :: "char \<Rightarrow> nat option" where
  "hex_value c =
     (let b = byte c in
      if 48 \<le> b \<and> b \<le> 57 then Some (b - 48)
      else if 97 \<le> b \<and> b \<le> 102 then Some (b - 87)
      else if 65 \<le> b \<and> b \<le> 70 then Some (b - 55)
      else None)"

fun hex_decode :: "string \<Rightarrow> bytes option" where
  "hex_decode [] = Some []"
| "hex_decode [c] = None"
| "hex_decode (c # d # s) =
     (case (hex_value c, hex_value d, hex_decode s) of
        (Some h, Some l, Some bs) \<Rightarrow> Some (char_of (16 * h + l) # bs)
      | _ \<Rightarrow> None)"

lemma hex_value_digit: "n < 16 \<Longrightarrow> hex_value (hex_digit n) = Some n"
proof -
  have "list_all (\<lambda>n. hex_value (hex_digit n) = Some n) [0..<16]" by code_simp
  then show "n < 16 \<Longrightarrow> hex_value (hex_digit n) = Some n" by (simp add: list_all_iff)
qed

lemma hex_decode_encode [simp]: "hex_decode (hex_encode bs) = Some bs"
proof (induction bs)
  case (Cons b bs)
  have "byte b div 16 < 16" using byte_less [of b] by (simp add: less_mult_imp_div_less)
  then have v: "hex_value (hex_digit (byte b div 16)) = Some (byte b div 16)"
    "hex_value (hex_digit (byte b mod 16)) = Some (byte b mod 16)"
    by (simp_all add: hex_value_digit)
  have "hex_encode (b # bs) = hex_digit (byte b div 16) # hex_digit (byte b mod 16) # hex_encode bs"
    by (simp add: hex_encode_def)
  with v Cons show ?case by simp
qed (simp add: hex_encode_def)

lemma hex_encode_inject [simp]: "hex_encode xs = hex_encode ys \<longleftrightarrow> xs = ys"
  by (metis hex_decode_encode option.inject)

lemma length_hex_encode [simp]: "length (hex_encode bs) = 2 * length bs"
  by (induction bs) (simp_all add: hex_encode_def)

text \<open>\<open>strings.TrimPrefix\<close>, \<open>strings.Contains\<close> and \<open>strings.Join\<close>.\<close>

definition TrimPrefix :: "string \<Rightarrow> string \<Rightarrow> string" where
  "TrimPrefix p s = (if prefix p s then drop (length p) s else s)"

definition Contains :: "string \<Rightarrow> string \<Rightarrow> bool" where
  "Contains s t = sublist t s"

definition Join :: "string list \<Rightarrow> string \<Rightarrow> string" where
  "Join xs sep = (case xs of [] \<Rightarrow> [] | y # ys \<Rightarrow> y @ concat (map (\<lambda>x. sep @ x) ys))"

section \<open>Words of a text\<close>

text \<open>
  \<open>strings.Fields\<close> after a mapping that leaves only letters, numbers and spaces: the maximal
  runs of kept runes, each encoded in UTF-8. \<open>unicode.IsLetter\<close>, \<open>IsNumber\<close> and
  \<open>ToLower\<close> are decided on ASCII and read from the Unicode tables beyond it.
\<close>

definition is_word_rune :: "env \<Rightarrow> nat \<Rightarrow> bool" where
  "is_word_rune E r =
     (if r < 128 then (48 \<le> r \<and> r \<le> 57) \<or> (65 \<le> r \<and> r \<le> 90) \<or> (97 \<le> r \<and> r \<le> 122)
      else uni_letter_number E r)"

definition lower_rune :: "env \<Rightarrow> nat \<Rightarrow> nat" where
  "lower_rune E r =
     (if r < 128 then (if 65 \<le> r \<and> r \<le> 90 then r + 32 else r) else uni_lower_rune E r)"

fun split_words :: "nat list \<Rightarrow> nat option list \<Rightarrow> nat list list" where
  "split_words cur [] = (if cur = [] then [] else [rev cur])"
| "split_words cur (Some r # rs) = split_words (r # cur) rs"
| "split_words cur (None # rs) =
     (if cur = [] then split_words [] rs else rev cur # split_words [] rs)"

definition tokenize :: "env \<Rightarrow> string \<Rightarrow> string list" where
  "tokenize E input =
     map (\<lambda>w. concat (map encode_rune w))
       (split_words [] (map (\<lambda>r. if is_word_rune E r then Some (lower_rune E r) else None) (runes input)))"

end
