(* ===== verification/Constants.thy ===== *)
theory Constants
  imports Go_Lib
begin

text \<open>
  \<open>src/core/constants/constants.go\<close>: protocol constants, the architect fee and the
  basis-point arithmetic. Amounts are \<open>*big.Int\<close>, modelled as \<open>int option\<close> where the
  code accepts nil and as \<open>int\<close> where it cannot occur; multipliers are \<open>uint64\<close>.
\<close>

definition GenesisArchitectAddress :: string where
  "GenesisArchitectAddress = ''UFI_GENESIS_ARCHITECT_REPLACE_ME''"

definition SearchPrecompileAddress :: string where
  "SearchPrecompileAddress = ''0x101''"

definition UNSRegistryAddress :: string where
  "UNSRegistryAddress = ''0x102''"

definition DefaultChainID :: u64 where
  "DefaultChainID = 333"

text \<open>Unix seconds, and the instant they denote counted from Go's zero time.\<close>

definition GenesisTimestampUnix :: int where
  "GenesisTimestampUnix = 1735689600"

definition unix_time :: "int \<Rightarrow> time" where
  "unix_time sec = (62135596800 + sec) * 1000000000"

definition BasisPoints :: u64 where
  "BasisPoints = 10000"

definition DefaultMultiplierBPS :: u64 where
  "DefaultMultiplierBPS = BasisPoints"

definition GovernanceQuorumBPS :: u64 where
  "GovernanceQuorumBPS = 1000"

definition UNSBasePrice :: int where
  "UNSBasePrice = 100000"

definition UNSPopularityMultiplier :: int where
  "UNSPopularityMultiplier = 10000"

definition cloneBigInt :: "int option \<Rightarrow> int" where
  "cloneBigInt v = (case v of None \<Rightarrow> 0 | Some x \<Rightarrow> x)"

definition ArchitectFee :: "int option \<Rightarrow> int" where
  "ArchitectFee amount =
     (case amount of
        None \<Rightarrow> 0
      | Some a \<Rightarrow> if a \<le> 0 then 0 else (a * 333) div 10000)"

definition SplitArchitectFee :: "int option \<Rightarrow> int \<times> int" where
  "SplitArchitectFee amount =
     (let total = cloneBigInt amount; fee = ArchitectFee (Some total)
      in (total - fee, fee))"

definition ApplyBasisPoints :: "int option \<Rightarrow> u64 \<Rightarrow> int" where
  "ApplyBasisPoints amount bps =
     (let value = cloneBigInt amount
      in if value \<le> 0 then 0 else (value * uint bps) div uint BasisPoints)"

text \<open>\<open>numerator.BitLen() > 64\<close> holds exactly when the value does not fit a \<open>uint64\<close>.\<close>

definition saturate_u64 :: "int \<Rightarrow> u64" where
  "saturate_u64 v = (if 2 ^ 64 \<le> v then - 1 else of_int v)"

definition ScaleUint64Ceil :: "u64 \<Rightarrow> u64 \<Rightarrow> u64" where
  "ScaleUint64Ceil value bps =
     (if value = 0 \<or> bps = 0 then 0
      else saturate_u64
             ((uint value * uint bps + (uint BasisPoints - 1)) div uint BasisPoints))"

text \<open>The loop of \<open>ComposeBasisPoints\<close>; a zero multiplier returns at once.\<close>

fun compose_loop :: "int \<Rightarrow> u64 list \<Rightarrow> int option" where
  "compose_loop composite [] = Some composite"
| "compose_loop composite (m # ms) =
     (if m = 0 then None
      else compose_loop
             ((composite * uint m + (uint BasisPoints - 1)) div uint BasisPoints) ms)"

definition ComposeBasisPoints :: "u64 list \<Rightarrow> u64" where
  "ComposeBasisPoints multipliers =
     (case compose_loop (uint BasisPoints) multipliers of
        None \<Rightarrow> 0
      | Some composite \<Rightarrow> saturate_u64 composite)"

lemmas constants_defs [go_simps] =
  GenesisArchitectAddress_def SearchPrecompileAddress_def UNSRegistryAddress_def
  DefaultMultiplierBPS_def BasisPoints_def cloneBigInt_def

section \<open>The architect fee\<close>

lemma ArchitectFee_nonneg [simp]: "0 \<le> ArchitectFee a"
  by (auto simp: ArchitectFee_def pos_imp_zdiv_nonneg_iff split: option.splits)

lemma ArchitectFee_le: "0 \<le> a \<Longrightarrow> ArchitectFee (Some a) \<le> a"
  using zdiv_mono1 [of "a * 333" "a * 10000" 10000] by (simp add: ArchitectFee_def)

lemma ArchitectFee_zero [simp]: "ArchitectFee (Some 0) = 0"
  by (simp add: ArchitectFee_def)

lemma ArchitectFee_neg: "a \<le> 0 \<Longrightarrow> ArchitectFee (Some a) = 0"
  by (simp add: ArchitectFee_def)

section \<open>Basis points\<close>

lemma BasisPoints_unat [simp]: "uint BasisPoints = 10000"
  by (simp add: BasisPoints_def)

lemma uint_saturate_u64:
  assumes "0 \<le> v"
  shows "uint (saturate_u64 v) = min v (2 ^ 64 - 1)"
proof (cases "2 ^ 64 \<le> v")
  case True
  have "uint (- 1 :: u64) = 2 ^ 64 - 1" by (simp add: unsigned_minus_1_eq_mask mask_eq_exp_minus_1)
  with True show ?thesis by (simp add: saturate_u64_def)
next
  case False
  then show ?thesis using assms
    by (simp add: saturate_u64_def uint_word_of_int take_bit_int_def)
qed

lemma ceil_div:
  fixes x :: int
  shows "(x + 9999) div 10000 = - ((- x) div 10000)"
proof -
  have "- x = 10000 * ((- x) div 10000) + (- x) mod 10000" by simp
  moreover have "0 \<le> (- x) mod 10000" "(- x) mod 10000 < 10000" by simp_all
  ultimately show ?thesis
    by (intro int_div_pos_eq [where r = "9999 - (- x) mod 10000"]) linarith+
qed

lemma floor_div:
  fixes x :: int
  shows "x div 10000 * 10000 \<le> x" and "x < (x div 10000 + 1) * 10000"
proof -
  have "x = 10000 * (x div 10000) + x mod 10000" by simp
  moreover have "0 \<le> x mod 10000" "x mod 10000 < 10000" by simp_all
  ultimately show "x div 10000 * 10000 \<le> x" and "x < (x div 10000 + 1) * 10000"
    by (simp_all add: algebra_simps)
qed

lemma ApplyBasisPoints_nonneg [simp]: "0 \<le> ApplyBasisPoints a b"
  by (simp add: ApplyBasisPoints_def Let_def pos_imp_zdiv_nonneg_iff)

lemma ApplyBasisPoints_identity: "0 \<le> a \<Longrightarrow> ApplyBasisPoints (Some a) BasisPoints = a"
  by (simp add: ApplyBasisPoints_def Let_def cloneBigInt_def)

lemma compose_loop_None: "compose_loop c ms = None \<longleftrightarrow> 0 \<in> set ms"
  by (induction ms arbitrary: c) auto

lemma compose_step_lower:
  fixes m :: u64
  assumes "1 \<le> c" and "m \<noteq> 0"
  shows "1 \<le> (c * uint m + 9999) div 10000"
proof -
  have "uint m \<noteq> 0" using assms(2) by (simp add: uint_0_iff)
  then have "1 \<le> uint m" using uint_ge_0 [of m] by linarith
  then have "1 \<le> c * uint m" using assms(1) mult_mono [of 1 c 1 "uint m"] by simp
  then show ?thesis by simp
qed

lemma compose_loop_ge1: "1 \<le> c \<Longrightarrow> compose_loop c ms = Some r \<Longrightarrow> 1 \<le> r"
  by (induction ms arbitrary: c) (auto split: if_splits dest: compose_step_lower)

lemma saturate_uint [simp]: "saturate_u64 (uint w) = w"
proof -
  have "uint w < 2 ^ 64" using uint_bounded [of w] by simp
  then show ?thesis by (simp add: saturate_u64_def)
qed

section \<open>Properties\<close>

text \<open>
  The architect fee of any amount is non-negative, the net part and the fee add up to
  the amount, and for a non-negative amount the fee is the floor of 3.33 percent of it,
  so it never exceeds the amount and the net part is never negative.
\<close>

theorem architect_fee_split:
  "SplitArchitectFee (Some a) = (a - ArchitectFee (Some a), ArchitectFee (Some a))
   \<and> 0 \<le> ArchitectFee (Some a)
   \<and> (if 0 \<le> a
      then ArchitectFee (Some a) * 10000 \<le> a * 333
           \<and> a * 333 < (ArchitectFee (Some a) + 1) * 10000
           \<and> 0 \<le> a - ArchitectFee (Some a)
      else ArchitectFee (Some a) = 0)"
proof (cases "0 \<le> a")
  case True
  then show ?thesis
    using ArchitectFee_le [of a] floor_div [of "a * 333"]
    by (auto simp: SplitArchitectFee_def ArchitectFee_def Let_def cloneBigInt_def)
next
  case False
  then show ?thesis by (simp add: SplitArchitectFee_def ArchitectFee_def Let_def cloneBigInt_def)
qed

text \<open>
  \<open>ScaleUint64Ceil\<close> is the ceiling of \<open>value * bps / 10000\<close>, saturating at the largest
  \<open>uint64\<close> instead of wrapping around.
\<close>

theorem ScaleUint64Ceil_spec:
  "uint (ScaleUint64Ceil v b) = min (- ((- (uint v * uint b)) div 10000)) (2 ^ 64 - 1)"
proof (cases "v = 0 \<or> b = 0")
  case True
  then show ?thesis by (auto simp: ScaleUint64Ceil_def)
next
  case False
  have nn: "0 \<le> (uint v * uint b + 9999) div 10000" by (simp add: pos_imp_zdiv_nonneg_iff)
  show ?thesis
    using False uint_saturate_u64 [OF nn] by (simp add: ScaleUint64Ceil_def ceil_div)
qed

text \<open>
  \<open>ComposeBasisPoints\<close> returns zero exactly when some multiplier is zero, and the
  neutral multiplier 10000 can be inserted in front without changing the result; a single
  multiplier composes to itself.
\<close>

theorem ComposeBasisPoints_laws:
  "(ComposeBasisPoints ms = 0 \<longleftrightarrow> 0 \<in> set ms)
   \<and> ComposeBasisPoints (BasisPoints # ms) = ComposeBasisPoints ms
   \<and> ComposeBasisPoints [m] = m"
proof (intro conjI)
  have nz: "saturate_u64 r \<noteq> 0" if "1 \<le> r" for r
    using that uint_saturate_u64 [of r] by (auto simp: min_def split: if_splits)
  show "ComposeBasisPoints ms = 0 \<longleftrightarrow> 0 \<in> set ms"
  proof (cases "compose_loop (uint BasisPoints) ms")
    case None
    then show ?thesis using compose_loop_None [of "uint BasisPoints" ms] by (simp add: ComposeBasisPoints_def)
  next
    case (Some r)
    then have "1 \<le> r" using compose_loop_ge1 [of "uint BasisPoints" ms r] by simp
    with Some show ?thesis
      using compose_loop_None [of "uint BasisPoints" ms] nz by (simp add: ComposeBasisPoints_def)
  qed
  show "ComposeBasisPoints (BasisPoints # ms) = ComposeBasisPoints ms"
    by (simp add: ComposeBasisPoints_def) (simp add: BasisPoints_def)
  show "ComposeBasisPoints [m] = m"
    by (simp add: ComposeBasisPoints_def)
qed

end
