(* ===== verification/Address.thy ===== *)
theory Address
  imports Constants
begin

text \<open>
  \<open>src/core/types/address.go\<close>: UFI account addresses, Base58 with a four-byte double
  SHA-256 checksum. An address is a version byte and a 20-byte hash; the Go type fixes the
  length of the hash, the predicate \<open>wf_address\<close> states it. Both directions of the textual
  form are proved: printing then parsing gives the address back, and a text that parses is
  the printed form of what it parses to.
\<close>

definition UFIPrefix :: string where
  "UFIPrefix = ''UFI''"

definition CurrentAddressVersion :: char where
  "CurrentAddressVersion = char_of (1 :: nat)"

definition addressHashSize :: nat where
  "addressHashSize = 20"

definition addressChecksumSize :: nat where
  "addressChecksumSize = 4"

definition base58Alphabet :: string where
  "base58Alphabet = ''123456789ABCDEFGHJKLMNPQRSTUVWXYZabcdefghijkmnopqrstuvwxyz''"

record Address =
  version :: char
  hash160 :: bytes

definition zero_hash160 :: bytes where
  "zero_hash160 = replicate addressHashSize (char_of (0 :: nat))"

definition zero_Address :: Address where
  "zero_Address = \<lparr>version = char_of (0 :: nat), hash160 = zero_hash160\<rparr>"

definition Address_IsZero :: "Address \<Rightarrow> bool" where
  "Address_IsZero a \<longleftrightarrow> byte (version a) = 0 \<and> hash160 a = zero_hash160"

definition Address_Equal :: "Address \<Rightarrow> Address \<Rightarrow> bool" where
  "Address_Equal a b \<longleftrightarrow> version a = version b \<and> hash160 a = hash160 b"

definition Address_Bytes :: "Address \<Rightarrow> bytes" where
  "Address_Bytes a = (if Address_IsZero a then [] else version a # hash160 a)"

definition NewAddress :: "char \<Rightarrow> bytes \<Rightarrow> Address res" where
  "NewAddress v h =
     (if byte v = 0 \<or> length h \<noteq> addressHashSize then Inl ErrInvalidAddress
      else Inr \<lparr>version = v, hash160 = h\<rparr>)"

definition NewAddressFromPubKey :: "env \<Rightarrow> bytes \<Rightarrow> Address res" where
  "NewAddressFromPubKey E pubKey =
     (if pubKey = [] then Inl ErrEmptyPublicKey
      else NewAddress CurrentAddressVersion (ripemd160 E (sha256 E pubKey)))"

section \<open>Base58\<close>

definition buildBase58DecodeMap :: "char \<Rightarrow> int" where
  "buildBase58DecodeMap =
     fold (\<lambda>(i, ch) lookup. lookup(ch := int i)) (enumerate 0 base58Alphabet) (\<lambda>_. - 1)"

fun base58_decode_loop :: "string \<Rightarrow> nat \<Rightarrow> nat res" where
  "base58_decode_loop [] value = Inr value"
| "base58_decode_loop (c # cs) value =
     (let index = buildBase58DecodeMap c
      in if index < 0 then Inl ErrInvalidAddress
         else base58_decode_loop cs (value * 58 + nat index))"

definition base58Decode :: "string \<Rightarrow> bytes res" where
  "base58Decode input =
     (if input = [] then Inl ErrInvalidAddress
      else
        (case base58_decode_loop input 0 of
           Inl e \<Rightarrow> Inl e
         | Inr value \<Rightarrow>
             let decoded = big_Bytes value;
                 leadingZeros = length (takeWhile (\<lambda>c. c = base58Alphabet ! 0) input)
             in Inr (replicate leadingZeros (char_of (0 :: nat)) @ decoded)))"

text \<open>The division loop of \<open>base58Encode\<close> appends the digits least significant first.\<close>

fun base58_encode_loop :: "nat \<Rightarrow> string" where
  "base58_encode_loop value =
     (if value = 0 then [] else base58Alphabet ! (value mod 58) # base58_encode_loop (value div 58))"

declare base58_encode_loop.simps [simp del]

definition base58Encode :: "bytes \<Rightarrow> string" where
  "base58Encode input =
     (if input = [] then []
      else rev (base58_encode_loop (big_SetBytes input)
                @ map (\<lambda>_. base58Alphabet ! 0) (takeWhile (\<lambda>b. byte b = 0) input)))"

section \<open>Textual form\<close>

definition addressChecksum :: "env \<Rightarrow> char \<Rightarrow> bytes \<Rightarrow> bytes" where
  "addressChecksum E v h =
     take addressChecksumSize (sha256 E (sha256 E (UFIPrefix @ [v] @ h)))"

fun checksumMatches :: "bytes \<Rightarrow> bytes \<Rightarrow> bool" where
  "checksumMatches [] [] = True"
| "checksumMatches (x # xs) (y # ys) = (if x \<noteq> y then False else checksumMatches xs ys)"
| "checksumMatches _ _ = False"

definition ParseAddress :: "env \<Rightarrow> string \<Rightarrow> Address res" where
  "ParseAddress E encoded =
     (let value = TrimSpace encoded in
      if \<not> prefix UFIPrefix value then Inl ErrInvalidAddress
      else
        (case base58Decode (drop (length UFIPrefix) value) of
           Inl e \<Rightarrow> Inl e
         | Inr decoded \<Rightarrow>
             if length decoded \<noteq> 1 + addressHashSize + addressChecksumSize
             then Inl ErrInvalidAddress
             else
               (let v = decoded ! 0;
                    h = take addressHashSize (drop 1 decoded)
                in if byte v = 0 then Inl ErrInvalidAddress
                   else if \<not> checksumMatches (addressChecksum E v h)
                               (drop (1 + addressHashSize) decoded)
                   then Inl ErrInvalidChecksum
                   else Inr \<lparr>version = v, hash160 = h\<rparr>)))"

definition Address_String :: "env \<Rightarrow> Address \<Rightarrow> string" where
  "Address_String E a =
     (if Address_IsZero a then []
      else UFIPrefix
           @ base58Encode ([version a] @ hash160 a @ addressChecksum E (version a) (hash160 a)))"

definition NormalizeAlias :: "env \<Rightarrow> string \<Rightarrow> string" where
  "NormalizeAlias E alias = ToLower E (TrimSpace alias)"

text \<open>\<open>AliasResolver\<close> is an interface: \<open>None\<close> is the nil resolver, otherwise its two methods.\<close>

definition ResolveAddress :: "env \<Rightarrow> (string \<Rightarrow> Address res) option \<Rightarrow> string \<Rightarrow> Address res" where
  "ResolveAddress E resolver input =
     (let value = TrimSpace input in
      if value = [] then Inl ErrInvalidAddress
      else if prefix UFIPrefix value then ParseAddress E value
      else (case resolver of
              None \<Rightarrow> Inl ErrAliasResolverRequired
            | Some resolve \<Rightarrow> resolve (NormalizeAlias E value)))"

definition LookupAlias :: "(Address \<Rightarrow> string res) option \<Rightarrow> Address \<Rightarrow> string res" where
  "LookupAlias resolver a =
     (case resolver of
        None \<Rightarrow> Inl ErrAliasResolverRequired
      | Some reverse \<Rightarrow> reverse a)"

definition UnmarshalText :: "env \<Rightarrow> Address \<Rightarrow> bytes \<Rightarrow> Address \<times> unit res" where
  "UnmarshalText E a text =
     (case ParseAddress E text of Inl e \<Rightarrow> (a, Inl e) | Inr parsed \<Rightarrow> (parsed, Inr ()))"

definition wf_address :: "Address \<Rightarrow> bool" where
  "wf_address a \<longleftrightarrow> byte (version a) \<noteq> 0 \<and> length (hash160 a) = addressHashSize"

text \<open>The documented output length of SHA-256, which the Go type \<open>[32]byte\<close> guarantees.\<close>

definition sha256_len :: "env \<Rightarrow> bool" where
  "sha256_len E \<longleftrightarrow> (\<forall>x. length (sha256 E x) = 32)"

lemmas address_sizes = addressHashSize_def addressChecksumSize_def

section \<open>Base58 is a positional numeral system\<close>

lemma length_base58Alphabet: "length base58Alphabet = 58"
  by (simp add: base58Alphabet_def)

lemma distinct_base58Alphabet: "distinct base58Alphabet"
  by (simp add: base58Alphabet_def)

lemma fold_enumerate_miss:
  "y \<notin> set xs \<Longrightarrow> fold (\<lambda>(i, ch) f. f(ch := int i)) (enumerate n xs) g y = g y"
  by (induction xs arbitrary: n g) auto

lemma fold_enumerate_lookup:
  "distinct xs \<Longrightarrow> i < length xs \<Longrightarrow>
     fold (\<lambda>(i, ch) f. f(ch := int i)) (enumerate n xs) g (xs ! i) = int (n + i)"
proof (induction xs arbitrary: n g i)
  case (Cons x xs)
  show ?case
  proof (cases i)
    case 0
    with Cons.prems have "fold (\<lambda>(i, ch) f. f(ch := int i)) (enumerate (Suc n) xs) (g(x := int n)) x = int n"
      by (subst fold_enumerate_miss) simp_all
    with 0 show ?thesis by (simp del: fun_upd_apply)
  next
    case (Suc j)
    with Cons show ?thesis by simp
  qed
qed simp

lemma decode_map_hit: "i < 58 \<Longrightarrow> buildBase58DecodeMap (base58Alphabet ! i) = int i"
  using fold_enumerate_lookup [OF distinct_base58Alphabet, of i 0 "\<lambda>_. - 1"]
  by (simp add: buildBase58DecodeMap_def length_base58Alphabet)

lemma decode_map_inverse:
  assumes "0 \<le> buildBase58DecodeMap c"
  shows "base58Alphabet ! nat (buildBase58DecodeMap c) = c"
    and "nat (buildBase58DecodeMap c) < 58"
proof -
  have "c \<in> set base58Alphabet"
    using assms fold_enumerate_miss [of c base58Alphabet 0 "\<lambda>_. - 1"]
    by (auto simp: buildBase58DecodeMap_def)
  then obtain i where i: "i < 58" "c = base58Alphabet ! i"
    by (metis in_set_conv_nth length_base58Alphabet)
  then show "base58Alphabet ! nat (buildBase58DecodeMap c) = c"
    and "nat (buildBase58DecodeMap c) < 58"
    by (simp_all add: decode_map_hit)
qed

definition b58 :: "nat \<Rightarrow> char" where
  "b58 d = base58Alphabet ! d"

lemma base58_decode_loop_digits:
  "(\<And>d. d \<in> set ds \<Longrightarrow> d < 58) \<Longrightarrow>
     base58_decode_loop (map b58 ds) v = Inr (fold (\<lambda>d v. 58 * v + d) ds v)"
  by (induction ds arbitrary: v) (auto simp: b58_def decode_map_hit mult.commute)

lemma base58_decode_loop_Inr:
  assumes "base58_decode_loop cs v = Inr r"
  obtains ds where "cs = map b58 ds" and "\<And>d. d \<in> set ds \<Longrightarrow> d < 58"
proof -
  have "\<exists>ds. cs = map b58 ds \<and> (\<forall>d \<in> set ds. d < 58)" using assms
  proof (induction cs arbitrary: v)
    case (Cons c cs)
    then have nn: "0 \<le> buildBase58DecodeMap c"
      and "base58_decode_loop cs (v * 58 + nat (buildBase58DecodeMap c)) = Inr r"
      by (auto simp: Let_def split: if_splits)
    then obtain ds where "cs = map b58 ds" "\<forall>d \<in> set ds. d < 58" using Cons.IH by blast
    with decode_map_inverse [OF nn] show ?case
      by (intro exI [of _ "nat (buildBase58DecodeMap c) # ds"]) (simp add: b58_def)
  qed simp
  then show thesis using that by blast
qed

lemma rev_base58_encode_loop: "rev (base58_encode_loop n) = map b58 (to_base 58 n)"
proof (induction n rule: base58_encode_loop.induct)
  case (1 n)
  then show ?case
    by (cases "n = 0")
      (simp_all add: base58_encode_loop.simps [of n] base58_encode_loop.simps [of 0]
        to_base.simps [of 58 n] b58_def)
qed

lemma base58Encode_digits:
  "bs \<noteq> [] \<Longrightarrow> base58Encode bs =
     map b58 (replicate (length (takeWhile (\<lambda>b. byte b = 0) bs)) 0 @ to_base 58 (big_SetBytes bs))"
  by (simp add: base58Encode_def rev_base58_encode_loop map_replicate_const b58_def)

lemma b58_eq_zero: "d < 58 \<Longrightarrow> b58 d = b58 0 \<longleftrightarrow> d = 0"
  using nth_eq_iff_index_eq [OF distinct_base58Alphabet, of d 0]
  by (simp add: b58_def length_base58Alphabet)

lemma takeWhile_b58:
  "(\<And>d. d \<in> set ds \<Longrightarrow> d < 58) \<Longrightarrow>
     length (takeWhile (\<lambda>c. c = b58 0) (map b58 ds)) = length (takeWhile (\<lambda>d. d = 0) ds)"
  by (induction ds) (auto simp: b58_eq_zero)

lemma base58Decode_digits:
  assumes "ds \<noteq> []" and "\<And>d. d \<in> set ds \<Longrightarrow> d < 58"
  shows "base58Decode (map b58 ds) =
    Inr (replicate (length (takeWhile (\<lambda>d. d = 0) ds)) (char_of (0 :: nat)) @ big_Bytes (from_base 58 ds))"
proof -
  have "length (takeWhile (\<lambda>c. c = base58Alphabet ! 0) (map b58 ds)) = length (takeWhile (\<lambda>d. d = 0) ds)"
    using takeWhile_b58 [OF assms(2)] by (simp add: b58_def)
  then show ?thesis
    using assms by (simp add: base58Decode_def base58_decode_loop_digits from_base_def)
qed

lemma byte_zero_iff: "byte c = 0 \<longleftrightarrow> c = char_of (0 :: nat)"
proof -
  have "byte (char_of (0 :: nat)) = 0" by simp
  then show ?thesis by (metis byte_inject)
qed

lemma zero_bytes_split:
  "bs = replicate (length (takeWhile (\<lambda>b. byte b = 0) bs)) (char_of (0 :: nat))
        @ big_Bytes (big_SetBytes bs)"
proof -
  define r where "r = dropWhile (\<lambda>b. b = char_of (0 :: nat)) bs"
  have split: "bs = replicate (length (takeWhile (\<lambda>b. byte b = 0) bs)) (char_of (0 :: nat)) @ r"
    using zero_prefix_split [of bs "char_of (0 :: nat)"] by (simp add: byte_zero_iff r_def)
  have "r = [] \<or> byte (hd r) \<noteq> 0"
    using hd_dropWhile [of "\<lambda>b. b = char_of (0 :: nat)" bs] by (auto simp: r_def byte_zero_iff)
  then have "big_Bytes (big_SetBytes r) = r" by (rule big_Bytes_SetBytes)
  moreover have "big_SetBytes bs = big_SetBytes r"
    by (subst split) (rule big_SetBytes_zeros)
  ultimately show ?thesis using split by simp
qed

lemma base58_round_trip:
  assumes "bs \<noteq> []"
  shows "base58Decode (base58Encode bs) = Inr bs"
proof -
  define z where "z = length (takeWhile (\<lambda>b. byte b = 0) bs)"
  define n where "n = big_SetBytes bs"
  define ds where "ds = replicate z 0 @ to_base 58 n"
  have enc: "base58Encode bs = map b58 ds"
    using assms by (simp add: base58Encode_digits ds_def z_def n_def)
  have small: "d < 58" if "d \<in> set ds" for d
    using that to_base_less [of 58 d n] by (auto simp: ds_def)
  have "to_base 58 n = [] \<or> hd (to_base 58 n) \<noteq> 0" using to_base_hd by blast
  then have zeros: "takeWhile (\<lambda>d. d = 0) ds = replicate z 0"
    unfolding ds_def by (rule takeWhile_replicate_append)
  have bs: "bs = replicate z (char_of (0 :: nat)) @ big_Bytes n"
    unfolding z_def n_def by (rule zero_bytes_split)
  then have "ds \<noteq> []"
    using assms by (auto simp: ds_def big_Bytes.simps [of n] to_base.simps [of 58 n] split: if_splits)
  with small have "base58Decode (map b58 ds) = Inr (replicate z (char_of (0 :: nat)) @ big_Bytes (from_base 58 ds))"
    using zeros by (simp add: base58Decode_digits)
  moreover have "from_base 58 ds = n" by (simp add: ds_def from_base_zeros)
  ultimately show ?thesis using enc bs by simp
qed

lemma base58_canonical:
  assumes "base58Decode s = Inr bs"
  shows "base58Encode bs = s" and "s \<noteq> []"
proof -
  from assms show ne: "s \<noteq> []" by (auto simp: base58Decode_def)
  with assms obtain v where "base58_decode_loop s 0 = Inr v"
    by (auto simp: base58Decode_def split: sum.splits)
  then obtain ds where s: "s = map b58 ds" and small: "\<forall>d \<in> set ds. d < 58"
    using base58_decode_loop_Inr by blast
  define z where "z = length (takeWhile (\<lambda>d. d = 0) ds)"
  define r where "r = dropWhile (\<lambda>d. d = 0) ds"
  have ds: "ds = replicate z 0 @ r" unfolding z_def r_def by (rule zero_prefix_split)
  have hd_r: "r = [] \<or> hd r \<noteq> 0"
    unfolding r_def using hd_dropWhile [of "\<lambda>d. d = 0" ds] by blast
  have "to_base 58 (from_base 58 r) = r"
    using small hd_r by (intro to_base_from_base) (auto simp: ds)
  moreover have val: "from_base 58 ds = from_base 58 r" by (subst ds) (rule from_base_zeros)
  moreover have bs: "bs = replicate z (char_of (0 :: nat)) @ big_Bytes (from_base 58 ds)"
    using assms s ne base58Decode_digits [of ds] small by (simp add: z_def)
  moreover have "takeWhile (\<lambda>b. byte b = 0) bs = replicate z (char_of (0 :: nat))"
  proof -
    have "big_Bytes (from_base 58 ds) = [] \<or> hd (big_Bytes (from_base 58 ds)) \<noteq> char_of (0 :: nat)"
      using big_Bytes_hd [of "from_base 58 ds"] by (auto simp only: byte_zero_iff)
    then show ?thesis unfolding bs byte_zero_iff by (rule takeWhile_replicate_append)
  qed
  moreover have "big_SetBytes bs = from_base 58 ds"
    unfolding bs by (simp add: big_SetBytes_zeros)
  moreover have "bs \<noteq> []"
  proof
    assume "bs = []"
    then have "z = 0" "big_Bytes (from_base 58 r) = []" using bs val by simp_all
    then have "from_base 58 r = 0" using big_SetBytes_Bytes [of "from_base 58 r"] by simp
    with \<open>to_base 58 (from_base 58 r) = r\<close> have "r = []" by simp
    with \<open>z = 0\<close> ds have "ds = []" by simp
    with s ne show False by simp
  qed
  ultimately show "base58Encode bs = s"
    by (simp add: base58Encode_digits s ds)
qed

interpretation base58: codec base58Encode base58Decode Inr "\<lambda>bs. bs \<noteq> []"
  by unfold_locales (simp_all add: base58_round_trip)

section \<open>Addresses round-trip\<close>

lemma checksumMatches_eq [simp]: "checksumMatches xs ys \<longleftrightarrow> xs = ys"
  by (induction xs ys rule: checksumMatches.induct) auto

lemma b58_visible: "d < 58 \<Longrightarrow> visible (b58 d)"
proof -
  assume "d < 58"
  then have "b58 d \<in> set base58Alphabet" by (simp add: b58_def length_base58Alphabet)
  moreover have "list_all visible base58Alphabet"
    by (simp add: base58Alphabet_def visible_def byte_def)
  ultimately show ?thesis by (simp add: list_all_iff)
qed

lemma base58Encode_visible: "c \<in> set (base58Encode bs) \<Longrightarrow> visible c"
  by (cases "bs = []")
    (auto simp: base58Encode_digits base58Encode_def [of "[]"] intro!: b58_visible dest: to_base_less [rotated])

lemma Address_String_visible: "TrimSpace (Address_String E a) = Address_String E a"
proof (cases "Address_IsZero a")
  case False
  define e where "e = base58Encode ([version a] @ hash160 a @ addressChecksum E (version a) (hash160 a))"
  have "visible (last (UFIPrefix @ e))"
  proof (cases "e = []")
    case True
    then show ?thesis by (simp add: UFIPrefix_def visible_def byte_def)
  next
    case False
    then have "last e \<in> set e" by simp
    then have "visible (last e)" unfolding e_def by (rule base58Encode_visible)
    with False show ?thesis by simp
  qed
  moreover have "visible (hd (UFIPrefix @ e))" by (simp add: UFIPrefix_def visible_def byte_def)
  ultimately have "TrimSpace (UFIPrefix @ e) = UFIPrefix @ e" by (intro TrimSpace_visible) simp
  with False show ?thesis by (simp add: Address_String_def e_def)
qed (simp add: Address_String_def)

lemma wf_not_zero: "wf_address a \<Longrightarrow> \<not> Address_IsZero a"
  by (simp add: wf_address_def Address_IsZero_def)

lemma Parse_String:
  assumes "wf_address a" and "sha256_len E"
  shows "ParseAddress E (Address_String E a) = Inr a"
proof -
  define raw where "raw = [version a] @ hash160 a @ addressChecksum E (version a) (hash160 a)"
  have str: "Address_String E a = UFIPrefix @ base58Encode raw"
    using wf_not_zero [OF assms(1)] by (simp add: Address_String_def raw_def)
  have ck: "length (addressChecksum E (version a) (hash160 a)) = 4"
    using assms(2) by (simp add: addressChecksum_def address_sizes sha256_len_def)
  have len: "length raw = 1 + addressHashSize + addressChecksumSize"
    using assms(1) ck by (simp add: raw_def wf_address_def address_sizes)
  have "base58Decode (base58Encode raw) = Inr raw"
    by (rule base58_round_trip) (simp add: raw_def)
  then show ?thesis
    using Address_String_visible [of E a] assms(1) len
    by (simp add: ParseAddress_def str raw_def wf_address_def Let_def)
qed

lemma String_Parse:
  assumes "ParseAddress E s = Inr a"
  shows "Address_String E a = TrimSpace s" and "wf_address a"
proof -
  obtain d where pre: "prefix UFIPrefix (TrimSpace s)"
    and dec: "base58Decode (drop (length UFIPrefix) (TrimSpace s)) = Inr d"
    and len: "length d = 1 + addressHashSize + addressChecksumSize"
    and v: "byte (d ! 0) \<noteq> 0"
    and ck: "addressChecksum E (d ! 0) (take addressHashSize (drop 1 d)) = drop (1 + addressHashSize) d"
    and a: "a = \<lparr>version = d ! 0, hash160 = take addressHashSize (drop 1 d)\<rparr>"
    using assms by (auto simp: ParseAddress_def Let_def split: if_splits sum.splits)
  show wf: "wf_address a" using v len by (simp add: a wf_address_def address_sizes)
  have "[d ! 0] @ take addressHashSize (drop 1 d) @ drop (1 + addressHashSize) d = d"
    using len by (cases d) (simp_all add: address_sizes)
  then have "[version a] @ hash160 a @ addressChecksum E (version a) (hash160 a) = d"
    unfolding a using ck by (simp del: append_Cons append_Nil)
  then have "Address_String E a = UFIPrefix @ base58Encode d"
    using wf_not_zero [OF wf] by (simp add: Address_String_def)
  also have "base58Encode d = drop (length UFIPrefix) (TrimSpace s)"
    by (rule base58_canonical(1) [OF dec])
  also have "UFIPrefix @ drop (length UFIPrefix) (TrimSpace s) = TrimSpace s"
    using pre by (auto simp: prefix_def)
  finally show "Address_String E a = TrimSpace s" .
qed

interpretation address_text: codec "Address_String E" "ParseAddress E" Inr
    "\<lambda>a. wf_address a \<and> sha256_len E" for E
  by unfold_locales (auto simp: Parse_String)

lemma NewAddress_wf: "NewAddress v h = Inr a \<Longrightarrow> wf_address a"
  by (auto simp: NewAddress_def wf_address_def split: if_splits)

lemma NewAddressFromPubKey_wf: "NewAddressFromPubKey E pk = Inr a \<Longrightarrow> wf_address a"
  by (auto simp: NewAddressFromPubKey_def intro: NewAddress_wf split: if_splits)

section \<open>Properties\<close>

text \<open>
  Base58 loses nothing and is canonical: decoding the encoding of a non-empty byte
  string, leading zero bytes included, returns it, and a text decodes to at most the bytes
  whose encoding is that very text.
\<close>

theorem base58_round_trip_canonical:
  "(bs \<noteq> [] \<longrightarrow> base58Decode (base58Encode bs) = Inr bs)
   \<and> (base58Decode s = Inr bs \<longrightarrow> base58Encode bs = s)"
  using base58.dec_enc base58_canonical by blast

theorem base58_round_trip_canonical_witness:
  "base58Decode (base58Encode (map char_of [0, 57 :: nat])) = Inr (map char_of [0, 57 :: nat])
   \<and> base58Decode ''1z'' = Inr (map char_of [0, 57 :: nat])
   \<and> base58Encode (map char_of [0, 57 :: nat]) = ''1z''"
proof -
  have "base58Decode ''1z'' = Inr (map char_of [0, 57 :: nat])" by code_simp
  with base58_round_trip_canonical [of "map char_of [0, 57 :: nat]" "''1z''"]
  show ?thesis by simp
qed

text \<open>
  A well-formed address parses back from its textual form, and an accepted text is,
  up to surrounding white space, the one textual form of a well-formed address: no two
  different texts denote the same account.
\<close>

theorem address_text_round_trip:
  "(wf_address a \<and> sha256_len E \<longrightarrow> ParseAddress E (Address_String E a) = Inr a)
   \<and> (ParseAddress E s = Inr a \<longrightarrow> Address_String E a = TrimSpace s \<and> wf_address a)"
  using address_text.dec_enc String_Parse by blast

text \<open>A concrete environment for witnesses: constant hashes of the documented lengths.\<close>

definition toy_env :: env where
  "toy_env =
     \<lparr>sha256 = (\<lambda>_. replicate 32 (CHR ''s'')), ripemd160 = (\<lambda>_. replicate 20 (CHR ''r'')),
      keccak256 = (\<lambda>x. take 32 (x @ replicate 32 (CHR ''k''))),
      ed25519_verify = (\<lambda>_ _ _. True), json_marshal = (\<lambda>_. ''{}''),
      unmarshal_task = (\<lambda>_. None), unmarshal_deployment = (\<lambda>_. None),
      url_parse = (\<lambda>s. Some \<lparr>Scheme = ''http'', Host = ''h'', Path = s, RawQuery = [], Fragment = [], url_rest = []\<rparr>),
      url_string = Path, url_hostname = Host, url_escaped_path = Path,
      uni_to_lower = (\<lambda>s. s), uni_letter_number = (\<lambda>_. False), uni_lower_rune = (\<lambda>r. r),
      uni_equal_fold = (\<lambda>s t. s = t),
      now = 1\<rparr>"

lemma toy_env_sha256 [simp]: "sha256_len toy_env"
  by (simp add: sha256_len_def toy_env_def)

definition toy_address :: Address where
  "toy_address = \<lparr>version = CurrentAddressVersion, hash160 = replicate 20 (CHR ''r'')\<rparr>"

theorem address_text_round_trip_witness:
  "ParseAddress toy_env (Address_String toy_env toy_address) = Inr toy_address
   \<and> Address_String toy_env toy_address = TrimSpace (Address_String toy_env toy_address)"
proof -
  have "wf_address toy_address"
    by (simp add: toy_address_def wf_address_def CurrentAddressVersion_def address_sizes)
  with address_text_round_trip [of toy_address toy_env "Address_String toy_env toy_address"]
  show ?thesis by simp
qed

end
