(* ===== verification/Consensus.thy ===== *)
theory Consensus
  imports Address "HOL-Library.Product_Lexorder"
begin

unbundle bit_operations_syntax

text \<open>
  Proof of useful work: \<open>src/core/governance/model.go\<close> and
  \<open>src/core/consensus/pouw.go\<close>. Governance events become priority rules; a registry of
  rules scales the bounty and difficulty of a crawl task for a URL; a miner crawls, and
  three sampled validators repeat the crawl and compare fingerprints.

  Interfaces of the code (\<open>Crawler\<close>, \<open>ValidatorNode\<close>, the random source) are
  arguments. Similarities are \<open>float64\<close> in the code: a distance of at most 64 divided by
  64 is exact there, so the rational of the model is the same number; query coverage and
  the average similarity are rounded by the code and exact here.
\<close>

section \<open>Governance\<close>

type_synonym VoteChoice = "8 word"

definition VoteAgainst :: VoteChoice where "VoteAgainst = 0"
definition VoteFor :: VoteChoice where "VoteFor = 1"
definition VoteAbstain :: VoteChoice where "VoteAbstain = 2"

record GovernanceEvent =
  ev_ProposalID :: u64
  ev_Sector :: string
  ev_MultiplierBPS :: u64
  ev_BlockNumber :: u64
  ev_TransactionID :: string
  ev_EmittedAt :: time

record PriorityRule =
  rule_Sector :: string
  rule_MultiplierBPS :: u64
  rule_SourceProposalID :: u64
  rule_ActivatedAt :: time

definition normalizeMultiplier :: "u64 \<Rightarrow> u64" where
  "normalizeMultiplier multiplier = (if multiplier = 0 then DefaultMultiplierBPS else multiplier)"

definition ToPriorityRule :: "env \<Rightarrow> GovernanceEvent \<Rightarrow> PriorityRule" where
  "ToPriorityRule E e =
     \<lparr>rule_Sector = TrimSpace (ToLower E (ev_Sector e)),
      rule_MultiplierBPS = normalizeMultiplier (ev_MultiplierBPS e),
      rule_SourceProposalID = ev_ProposalID e, rule_ActivatedAt = ev_EmittedAt e\<rparr>"

definition VoteChoice_String :: "VoteChoice \<Rightarrow> string" where
  "VoteChoice_String v =
     (if v = VoteAgainst then ''against'' else if v = VoteFor then ''for''
      else if v = VoteAbstain then ''abstain'' else ''unknown'')"

definition ParseVoteChoice :: "env \<Rightarrow> string \<Rightarrow> VoteChoice res" where
  "ParseVoteChoice E input =
     (let v = TrimSpace (ToLower E input) in
      if v \<in> {''0'', ''no'', ''against''} then Inr VoteAgainst
      else if v \<in> {''1'', ''yes'', ''for''} then Inr VoteFor
      else if v \<in> {''2'', ''abstain''} then Inr VoteAbstain
      else Inl ErrInvalidVoteChoice)"

definition NormalizeProposalTitle :: "string \<Rightarrow> u64 \<Rightarrow> string" where
  "NormalizeProposalTitle title proposalID =
     (let trimmed = TrimSpace title in
      if trimmed \<noteq> [] then trimmed
      else ''UGP-'' @ replicate (3 - length (FormatUint proposalID)) (CHR ''0'') @ FormatUint proposalID)"

definition FormatVotes :: "string \<Rightarrow> string" where
  "FormatVotes raw = (if TrimSpace raw = [] then ''0'' else raw)"

definition ProposalQuorumVotes :: "string \<Rightarrow> string" where
  "ProposalQuorumVotes circulatingSupply =
     (case ParseUint (TrimSpace circulatingSupply) of
        Inl _ \<Rightarrow> ''0''
      | Inr votes \<Rightarrow> FormatUint (ScaleUint64Ceil votes GovernanceQuorumBPS))"

section \<open>Tasks\<close>

record CrawlTask =
  ct_ID :: string
  ct_Query :: string
  ct_SeedURLs :: "string list"
  ct_BaseDifficulty :: u64
  ct_Difficulty :: u64
  ct_AdjustedDifficulty :: u64
  ct_DataVolumeBytes :: u64
  ct_BaseBounty :: "int option"
  ct_TotalBounty :: "int option"
  ct_ArchitectFee :: "int option"
  ct_MinerReward :: "int option"
  ct_GovernanceMultiplierBPS :: u64
  ct_PrioritySectors :: "string list"
  ct_CreatedAt :: time
  ct_ExpiresAt :: time

record TaskAdjustment =
  adj_URL :: string
  adj_MultiplierBPS :: u64
  adj_AdjustedBounty :: int
  adj_ArchitectFee :: int
  adj_NetMinerReward :: int
  adj_AdjustedDifficulty :: u64
  adj_PrioritySectors :: "string list"
  adj_MatchedRules :: "PriorityRule list"

definition QuoteBounty :: "int option \<Rightarrow> u64 \<Rightarrow> u64 \<Rightarrow> int res" where
  "QuoteBounty baseBounty difficulty dataVolume =
     (let base = cloneBigInt baseBounty in
      if base < 0 then Inl ErrInvalidBounty else Inr (base + uint difficulty * uint dataVolume))"

definition baseDifficulty :: "CrawlTask \<Rightarrow> u64" where
  "baseDifficulty t = (if ct_BaseDifficulty t \<noteq> 0 then ct_BaseDifficulty t else ct_Difficulty t)"

definition quoteBaseTaskBounty :: "CrawlTask \<Rightarrow> int res" where
  "quoteBaseTaskBounty task = QuoteBounty (ct_BaseBounty task) (baseDifficulty task) (ct_DataVolumeBytes task)"

definition normalizeURL :: "env \<Rightarrow> string \<Rightarrow> string res" where
  "normalizeURL E raw =
     (case url_parse E (TrimSpace raw) of
        None \<Rightarrow> Inl ErrInvalidURL
      | Some target \<Rightarrow>
          if Scheme target = [] \<or> Host target = [] then Inl ErrInvalidURL
          else Inr (url_string E (target\<lparr>Fragment := [], Scheme := ToLower E (Scheme target),
                                        Host := ToLower E (Host target)\<rparr>)))"

fun normalize_seeds :: "env \<Rightarrow> string list \<Rightarrow> string list \<Rightarrow> string list res" where
  "normalize_seeds E normalized [] = Inr normalized"
| "normalize_seeds E normalized (candidate # rest) =
     (case normalizeURL E candidate of
        Inl e \<Rightarrow> Inl e
      | Inr target \<Rightarrow>
          if target \<in> set normalized then normalize_seeds E normalized rest
          else normalize_seeds E (normalized @ [target]) rest)"

definition normalizeSeedURLs :: "env \<Rightarrow> string list \<Rightarrow> string list res" where
  "normalizeSeedURLs E seedURLs =
     (if seedURLs = [] then Inl ErrNoSeedURLs
      else
        (case normalize_seeds E [] seedURLs of
           Inl e \<Rightarrow> Inl e
         | Inr normalized \<Rightarrow> if normalized = [] then Inl ErrNoSeedURLs else Inr normalized))"

text \<open>\<open>UnixNano\<close>: nanoseconds since 1970 as an \<open>int64\<close>.\<close>

definition UnixNano :: "time \<Rightarrow> int" where
  "UnixNano t = sint (word_of_int (t - unix_time 0) :: 64 word)"

definition buildTaskID :: "env \<Rightarrow> CrawlTask \<Rightarrow> string" where
  "buildTaskID E task =
     (let baseBounty = (case quoteBaseTaskBounty task of Inl _ \<Rightarrow> 0 | Inr b \<Rightarrow> b);
          payload = Join [ct_Query task, Join (ct_SeedURLs task) '','', FormatUint (baseDifficulty task),
                          FormatUint (ct_DataVolumeBytes task), show_int baseBounty,
                          show_int (UnixNano (ct_CreatedAt task))] ''|''
      in hex_encode (take 16 (sha256 E payload)))"

definition NewCrawlTask ::
    "env \<Rightarrow> string \<Rightarrow> string list \<Rightarrow> int option \<Rightarrow> u64 \<Rightarrow> u64 \<Rightarrow> int \<Rightarrow> CrawlTask res" where
  "NewCrawlTask E query seedURLs baseBounty difficulty dataVolume ttl =
     (let normalizedQuery = TrimSpace query in
      if normalizedQuery = [] then Inl ErrEmptyQuery
      else
        (case normalizeSeedURLs E seedURLs of
           Inl e \<Rightarrow> Inl e
         | Inr normalizedURLs \<Rightarrow>
             (case QuoteBounty baseBounty difficulty dataVolume of
                Inl e \<Rightarrow> Inl e
              | Inr quoted \<Rightarrow>
                  let createdAt = now E;
                      task = \<lparr>ct_ID = [], ct_Query = normalizedQuery, ct_SeedURLs = normalizedURLs,
                              ct_BaseDifficulty = difficulty, ct_Difficulty = difficulty,
                              ct_AdjustedDifficulty = difficulty, ct_DataVolumeBytes = dataVolume,
                              ct_BaseBounty = Some (cloneBigInt baseBounty), ct_TotalBounty = Some quoted,
                              ct_ArchitectFee = Some (ArchitectFee (Some quoted)),
                              ct_MinerReward = Some (quoted - ArchitectFee (Some quoted)),
                              ct_GovernanceMultiplierBPS = DefaultMultiplierBPS, ct_PrioritySectors = [],
                              ct_CreatedAt = createdAt,
                              ct_ExpiresAt = (if 0 < ttl then createdAt + ttl else 0)\<rparr>
                  in Inr (task\<lparr>ct_ID := buildTaskID E task\<rparr>))))"

section \<open>String sets\<close>

fun unique_loop :: "string list \<Rightarrow> string list \<Rightarrow> string list" where
  "unique_loop out [] = out"
| "unique_loop out (v # vs) =
     (let cleaned = TrimSpace v in
      if cleaned = [] then unique_loop out vs
      else if cleaned \<in> set out then unique_loop out vs
      else unique_loop (out @ [cleaned]) vs)"

definition uniqueStrings :: "string list \<Rightarrow> string list" where
  "uniqueStrings values = (if values = [] then [] else sort (unique_loop [] values))"

definition sameStringSet :: "string list \<Rightarrow> string list \<Rightarrow> bool" where
  "sameStringSet left right =
     (let a = uniqueStrings left; b = uniqueStrings right in
      if length a \<noteq> length b then False else list_all (\<lambda>i. a ! i = b ! i) [0..<length a])"

section \<open>Priority registry\<close>

text \<open>A registry pointer is \<open>None\<close> when nil; its content is the map of rules by sector.\<close>

type_synonym registry = "(string, PriorityRule) fmap"

definition NewPriorityRegistry :: registry where
  "NewPriorityRegistry = fmempty"

definition Snapshot :: "registry option \<Rightarrow> PriorityRule list" where
  "Snapshot r =
     (case r of
        None \<Rightarrow> []
      | Some rules \<Rightarrow> sort_key (\<lambda>x. (rule_Sector x, unat (rule_SourceProposalID x))) (fm_values rules))"

definition UpsertRule :: "env \<Rightarrow> registry option \<Rightarrow> PriorityRule \<Rightarrow> registry res" where
  "UpsertRule E r rule =
     (case r of
        None \<Rightarrow> Inl ErrNilPriorityRegistry
      | Some rules \<Rightarrow>
          let normalizedSector = TrimSpace (ToLower E (rule_Sector rule)) in
          if normalizedSector = [] \<or> rule_MultiplierBPS rule = 0 then Inl ErrInvalidPriorityRule
          else
            (let updated = rule\<lparr>rule_Sector := normalizedSector,
                                rule_ActivatedAt := (if rule_ActivatedAt rule = 0 then now E
                                                     else rule_ActivatedAt rule)\<rparr>
             in Inr (fmupd normalizedSector updated rules)))"

definition priorityRuleMatchesURL :: "env \<Rightarrow> string \<Rightarrow> string \<Rightarrow> bool" where
  "priorityRuleMatchesURL E rawURL sector =
     (let normalizedSector = TrimSpace (ToLower E sector) in
      if normalizedSector = [] then False
      else
        (case url_parse E rawURL of
           None \<Rightarrow> False
         | Some target \<Rightarrow>
             let host = ToLower E (url_hostname E target);
                 path = ToLower E (url_escaped_path E target);
                 full = ToLower E rawURL
             in if prefix ''.'' normalizedSector then
                  (let sfx = TrimPrefix ''.'' normalizedSector in host = sfx \<or> suffix (''.'' @ sfx) host)
                else if prefix ''host:'' normalizedSector then
                  (let expected = TrimPrefix ''host:'' normalizedSector in host = expected \<or> suffix (''.'' @ expected) host)
                else if prefix ''path:'' normalizedSector then
                  Contains path (TrimPrefix ''path:'' normalizedSector)
                else Contains host normalizedSector \<or> Contains path normalizedSector \<or> Contains full normalizedSector))"

definition Registry_Apply :: "env \<Rightarrow> registry option \<Rightarrow> CrawlTask \<Rightarrow> string \<Rightarrow> TaskAdjustment res" where
  "Registry_Apply E r task targetURL =
     (case normalizeURL E targetURL of
        Inl e \<Rightarrow> Inl e
      | Inr normalizedTarget \<Rightarrow>
          (case quoteBaseTaskBounty task of
             Inl e \<Rightarrow> Inl e
           | Inr baseBounty \<Rightarrow>
               let adjustment =
                     \<lparr>adj_URL = normalizedTarget, adj_MultiplierBPS = DefaultMultiplierBPS,
                      adj_AdjustedBounty = baseBounty, adj_ArchitectFee = ArchitectFee (Some baseBounty),
                      adj_NetMinerReward = baseBounty - ArchitectFee (Some baseBounty),
                      adj_AdjustedDifficulty = baseDifficulty task, adj_PrioritySectors = [],
                      adj_MatchedRules = []\<rparr>;
                   matchedRules = filter (\<lambda>rule. priorityRuleMatchesURL E normalizedTarget (rule_Sector rule)) (Snapshot r);
                   composite = foldl (\<lambda>c rule. ComposeBasisPoints [c, rule_MultiplierBPS rule])
                                 DefaultMultiplierBPS matchedRules
               in if matchedRules = [] then Inr adjustment
                  else
                    (let bounty = ApplyBasisPoints (Some baseBounty) composite
                     in Inr (adjustment\<lparr>
                          adj_MultiplierBPS := composite,
                          adj_AdjustedDifficulty := ScaleUint64Ceil (baseDifficulty task) composite,
                          adj_AdjustedBounty := bounty,
                          adj_ArchitectFee := ArchitectFee (Some bounty),
                          adj_NetMinerReward := bounty - ArchitectFee (Some bounty),
                          adj_PrioritySectors := uniqueStrings (map rule_Sector matchedRules),
                          adj_MatchedRules := matchedRules\<rparr>))))"

definition applyGovernanceToTask ::
    "env \<Rightarrow> CrawlTask \<Rightarrow> string \<Rightarrow> registry option \<Rightarrow> (CrawlTask \<times> TaskAdjustment) res" where
  "applyGovernanceToTask E task targetURL r =
     (case normalizeURL E targetURL of
        Inl e \<Rightarrow> Inl e
      | Inr normalizedTarget \<Rightarrow>
          (case Registry_Apply E r task normalizedTarget of
             Inl e \<Rightarrow> Inl e
           | Inr adjustment \<Rightarrow>
               Inr (task\<lparr>ct_SeedURLs := [normalizedTarget], ct_Difficulty := adj_AdjustedDifficulty adjustment,
                         ct_AdjustedDifficulty := adj_AdjustedDifficulty adjustment,
                         ct_GovernanceMultiplierBPS := adj_MultiplierBPS adjustment,
                         ct_TotalBounty := Some (adj_AdjustedBounty adjustment),
                         ct_ArchitectFee := Some (adj_ArchitectFee adjustment),
                         ct_MinerReward := Some (adj_NetMinerReward adjustment),
                         ct_PrioritySectors := adj_PrioritySectors adjustment\<rparr>, adjustment)))"

section \<open>Governance listener\<close>

text \<open>
  \<open>GovernanceListener.Run\<close> selects among cancellation, the error channel and the event
  channel. An arrival is what the select delivers; a closed channel becomes nil and delivers
  nothing more. The loop ends when both are closed.
\<close>

datatype arrival =
    CtxDone err
  | ErrRecv "err option"
  | ErrsClosed
  | EventRecv GovernanceEvent
  | EventsClosed

record listener =
  li_Registry :: registry
  li_FromBlock :: u64
  li_events :: bool
  li_errs :: bool

text \<open>The outcome: still waiting after the last arrival, or returned.\<close>

datatype outcome = Waiting listener | Returned listener "unit res"

definition listener_step :: "env \<Rightarrow> listener \<Rightarrow> arrival \<Rightarrow> outcome" where
  "listener_step E l a =
     (case a of
        CtxDone e \<Rightarrow> Returned l (Inl e)
      | ErrRecv None \<Rightarrow> Waiting l
      | ErrRecv (Some e) \<Rightarrow> if li_errs l then Returned l (Inl e) else Waiting l
      | ErrsClosed \<Rightarrow> Waiting (l\<lparr>li_errs := False\<rparr>)
      | EventsClosed \<Rightarrow> Waiting (l\<lparr>li_events := False\<rparr>)
      | EventRecv ev \<Rightarrow>
          if \<not> li_events l then Waiting l
          else
            (case UpsertRule E (Some (li_Registry l)) (ToPriorityRule E ev) of
               Inl e \<Rightarrow> Returned l (Inl e)
             | Inr rules \<Rightarrow>
                 Waiting (l\<lparr>li_Registry := rules,
                            li_FromBlock := (if li_FromBlock l \<le> ev_BlockNumber ev then ev_BlockNumber ev + 1
                                             else li_FromBlock l)\<rparr>)))"

fun listener_loop :: "env \<Rightarrow> listener \<Rightarrow> arrival list \<Rightarrow> outcome" where
  "listener_loop E l as =
     (if \<not> li_events l \<and> \<not> li_errs l then Returned l (Inr ())
      else
        (case as of
           [] \<Rightarrow> Waiting l
         | a # rest \<Rightarrow>
             (case listener_step E l a of
                Returned l' r \<Rightarrow> Returned l' r
              | Waiting l' \<Rightarrow> listener_loop E l' rest)))"

declare listener_loop.simps [simp del]

text \<open>
  \<open>Run\<close>: the subscription is the source's answer for the starting block, with the arrivals
  its channels deliver.
\<close>

definition Listener_Run ::
    "env \<Rightarrow> (u64 \<Rightarrow> arrival list res) option \<Rightarrow> registry option \<Rightarrow> u64 \<Rightarrow> outcome res" where
  "Listener_Run E source r fromBlock =
     (case source of
        None \<Rightarrow> Inl ErrNilGovernanceSource
      | Some subscribe \<Rightarrow>
          (case r of
             None \<Rightarrow> Inl ErrNilPriorityRegistry
           | Some rules \<Rightarrow>
               (case subscribe fromBlock of
                  Inl e \<Rightarrow> Inl e
                | Inr arrivals \<Rightarrow>
                    Inr (listener_loop E
                      \<lparr>li_Registry = rules, li_FromBlock = fromBlock, li_events = True, li_errs = True\<rparr> arrivals))))"

section \<open>Fingerprints\<close>

definition HammingDistance :: "u64 \<Rightarrow> u64 \<Rightarrow> nat" where
  "HammingDistance left right = length (filter (\<lambda>i. bit (left XOR right) i) [0..<64])"

definition Similarity :: "u64 \<Rightarrow> u64 \<Rightarrow> rat" where
  "Similarity left right = 1 - of_nat (HammingDistance left right) / 64"

definition SimHashSimilarityThreshold :: rat where
  "SimHashSimilarityThreshold = 95 / 100"

definition token_frequencies :: "string list \<Rightarrow> (string, nat) fmap" where
  "token_frequencies tokens = fold (\<lambda>t m. fmupd t (fm_get m 0 t + 1) m) tokens fmempty"

definition token_fingerprint :: "env \<Rightarrow> string \<Rightarrow> u64" where
  "token_fingerprint E token = of_nat (big_SetBytes (take 8 (sha256 E token)))"

text \<open>The weight of one bit: every token adds or subtracts its frequency.\<close>

definition bit_weight :: "env \<Rightarrow> (string \<times> nat) list \<Rightarrow> nat \<Rightarrow> int" where
  "bit_weight E frequencies i =
     fold (\<lambda>(token, w) acc. if bit (token_fingerprint E token) i then acc + int w else acc - int w) frequencies 0"

definition SimHash :: "env \<Rightarrow> string \<Rightarrow> u64" where
  "SimHash E txt =
     (let tokens = tokenize E txt in
      if tokens = [] then 0
      else
        (let frequencies = fm_entries (token_frequencies tokens) in
         fold (\<lambda>i fp. if 0 < bit_weight E frequencies i then fp OR push_bit i 1 else fp) [0..<64] 0))"

definition QueryCoverage :: "env \<Rightarrow> string \<Rightarrow> string \<Rightarrow> rat" where
  "QueryCoverage E query txt =
     (let queryTokens = uniqueStrings (tokenize E query) in
      if queryTokens = [] then 0
      else
        (let corpus = tokenize E txt; found = length (filter (\<lambda>t. t \<in> set corpus) queryTokens)
         in of_nat found / of_nat (length queryTokens)))"

section \<open>Mining\<close>

text \<open>\<open>Crawler\<close> is an interface: its method, or \<open>None\<close> for a nil crawler.\<close>

type_synonym crawler = "CrawlTask \<Rightarrow> string \<Rightarrow> IndexedPage res"

record Miner =
  miner_ID :: string
  miner_Crawler :: "crawler option"
  miner_PriorityRegistry :: "registry option"

record MiningResult =
  mr_TaskID :: string
  mr_MinerID :: string
  mr_URL :: string
  mr_Page :: IndexedPage
  mr_ProofHash :: string
  mr_AppliedMultiplierBPS :: u64
  mr_AppliedPrioritySectors :: "string list"
  mr_AdjustedDifficulty :: u64
  mr_AdjustedBounty :: "int option"
  mr_ArchitectFee :: "int option"
  mr_MinerReward :: "int option"
  mr_CompletedAt :: time

definition buildProofHash :: "env \<Rightarrow> string \<Rightarrow> string \<Rightarrow> string \<Rightarrow> u64 \<Rightarrow> string" where
  "buildProofHash E taskID targetURL contentHash simHash =
     hex_encode (sha256 E (json_marshal E (JObj
       [(''taskId'', JStr taskID), (''url'', JStr targetURL), (''contentHash'', JStr contentHash),
        (''simHash'', JUint simHash)])))"

definition MineURL :: "env \<Rightarrow> Miner \<Rightarrow> CrawlTask \<Rightarrow> string \<Rightarrow> MiningResult res" where
  "MineURL E m task targetURL =
     (case miner_Crawler m of
        None \<Rightarrow> Inl ErrNilCrawler
      | Some index \<Rightarrow>
          (case applyGovernanceToTask E task targetURL (miner_PriorityRegistry m) of
             Inl e \<Rightarrow> Inl e
           | Inr (governedTask, adjustment) \<Rightarrow>
               (case index governedTask (ct_SeedURLs governedTask ! 0) of
                  Inl e \<Rightarrow> Inl e
                | Inr page \<Rightarrow>
                    Inr \<lparr>mr_TaskID = ct_ID governedTask, mr_MinerID = miner_ID m, mr_URL = page_URL page,
                         mr_Page = page,
                         mr_ProofHash = buildProofHash E (ct_ID governedTask) (page_URL page)
                           (page_ContentHash page) (page_SimHash page),
                         mr_AppliedMultiplierBPS = adj_MultiplierBPS adjustment,
                         mr_AppliedPrioritySectors = adj_PrioritySectors adjustment,
                         mr_AdjustedDifficulty = adj_AdjustedDifficulty adjustment,
                         mr_AdjustedBounty = Some (adj_AdjustedBounty adjustment),
                         mr_ArchitectFee = Some (adj_ArchitectFee adjustment),
                         mr_MinerReward = Some (adj_NetMinerReward adjustment),
                         mr_CompletedAt = now E\<rparr>)))"

fun mine_loop :: "env \<Rightarrow> Miner \<Rightarrow> CrawlTask \<Rightarrow> err option \<Rightarrow> string list \<Rightarrow> MiningResult res" where
  "mine_loop E m task lastErr [] =
     Inl (case lastErr of None \<Rightarrow> ErrNoIndexableResult | Some e \<Rightarrow> e)"
| "mine_loop E m task lastErr (u # us) =
     (case MineURL E m task u of Inr r \<Rightarrow> Inr r | Inl e \<Rightarrow> mine_loop E m task (Some e) us)"

definition Mine :: "env \<Rightarrow> Miner \<Rightarrow> CrawlTask \<Rightarrow> MiningResult res" where
  "Mine E m task =
     (if miner_Crawler m = None then Inl ErrNilCrawler
      else if ct_SeedURLs task = [] then Inl ErrNoSeedURLs
      else mine_loop E m task None (ct_SeedURLs task))"

section \<open>Validation\<close>

definition ValidatorSampleSize :: nat where
  "ValidatorSampleSize = 3"

definition ValidatorQuorum :: nat where
  "ValidatorQuorum = 2"

text \<open>The interface \<open>ValidatorNode\<close>, and the struct \<open>Validator\<close> that implements it.\<close>

record ValidatorNode =
  vn_ID :: string
  vn_Index :: crawler
  vn_ResolveGovernance :: "CrawlTask \<Rightarrow> string \<Rightarrow> (CrawlTask \<times> TaskAdjustment) res"

definition Validator :: "env \<Rightarrow> string \<Rightarrow> crawler option \<Rightarrow> registry option \<Rightarrow> ValidatorNode" where
  "Validator E nodeID crawl r =
     \<lparr>vn_ID = nodeID,
      vn_Index = (\<lambda>task targetURL. case crawl of None \<Rightarrow> Inl ErrNilCrawler | Some index \<Rightarrow> index task targetURL),
      vn_ResolveGovernance = (\<lambda>task targetURL. applyGovernanceToTask E task targetURL r)\<rparr>"

text \<open>An observation; \<open>obs_Error\<close> is the error whose text the code records, if any.\<close>

record ValidatorObservation =
  obs_ValidatorID :: string
  obs_Similarity :: rat
  obs_Matched :: bool
  obs_GovernanceMatched :: bool
  obs_ExpectedMultiplierBPS :: u64
  obs_ExpectedDifficulty :: u64
  obs_ExpectedBounty :: string
  obs_ExpectedArchitectFee :: string
  obs_ExpectedMinerReward :: string
  obs_PageHash :: string
  obs_SimHash :: u64
  obs_Error :: "err option"

record ValidationResult =
  vr_Approved :: bool
  vr_GovernanceValidated :: bool
  vr_AverageSimilarity :: rat
  vr_MatchingValidators :: nat
  vr_Observations :: "ValidatorObservation list"
  vr_SampleSize :: nat
  vr_Threshold :: rat

definition governanceMatches :: "MiningResult \<Rightarrow> TaskAdjustment \<Rightarrow> bool" where
  "governanceMatches mined adjustment =
     (if mr_AppliedMultiplierBPS mined \<noteq> adj_MultiplierBPS adjustment then False
      else if mr_AdjustedDifficulty mined \<noteq> adj_AdjustedDifficulty adjustment then False
      else if cloneBigInt (mr_AdjustedBounty mined) \<noteq> adj_AdjustedBounty adjustment then False
      else if cloneBigInt (mr_ArchitectFee mined) \<noteq> adj_ArchitectFee adjustment then False
      else if cloneBigInt (mr_MinerReward mined) \<noteq> adj_NetMinerReward adjustment then False
      else sameStringSet (mr_AppliedPrioritySectors mined) (adj_PrioritySectors adjustment))"

text \<open>\<open>shuffle\<close> is what \<open>rng.Shuffle\<close> makes of the pool; a nil validator is \<open>None\<close>.\<close>

definition sampleValidators ::
    "ValidatorNode option list \<Rightarrow> nat \<Rightarrow> (ValidatorNode list \<Rightarrow> ValidatorNode list) \<Rightarrow> string
     \<Rightarrow> ValidatorNode list res" where
  "sampleValidators validators sampleSize shuffle excludeID =
     (let pool = filter (\<lambda>v. \<not> (excludeID \<noteq> [] \<and> vn_ID v = excludeID)) (List.map_filter (\<lambda>v. v) validators) in
      if length pool < sampleSize then Inl ErrInsufficientValidators
      else Inr (take sampleSize (shuffle pool)))"

text \<open>
  One goroutine. Each writes its own slot of the result, so running them in any order is
  mapping over the sample.
\<close>

definition observe :: "CrawlTask \<Rightarrow> MiningResult \<Rightarrow> ValidatorNode \<Rightarrow> ValidatorObservation" where
  "observe task mined validator =
     (let o0 = \<lparr>obs_ValidatorID = vn_ID validator, obs_Similarity = 0, obs_Matched = False,
               obs_GovernanceMatched = False, obs_ExpectedMultiplierBPS = 0, obs_ExpectedDifficulty = 0,
               obs_ExpectedBounty = [], obs_ExpectedArchitectFee = [], obs_ExpectedMinerReward = [],
               obs_PageHash = [], obs_SimHash = 0, obs_Error = None\<rparr>
      in (case vn_ResolveGovernance validator task (mr_URL mined) of
            Inl e \<Rightarrow> o0\<lparr>obs_Error := Some e\<rparr>
          | Inr (governedTask, adjustment) \<Rightarrow>
              let o1 = o0\<lparr>obs_ExpectedMultiplierBPS := adj_MultiplierBPS adjustment,
                          obs_ExpectedDifficulty := adj_AdjustedDifficulty adjustment,
                          obs_ExpectedBounty := show_int (adj_AdjustedBounty adjustment),
                          obs_ExpectedArchitectFee := show_int (adj_ArchitectFee adjustment),
                          obs_ExpectedMinerReward := show_int (adj_NetMinerReward adjustment),
                          obs_GovernanceMatched := governanceMatches mined adjustment\<rparr>
              in if \<not> obs_GovernanceMatched o1
                 then o1\<lparr>obs_Error := Some (ErrText ''consensus: governance multiplier mismatch'')\<rparr>
                 else
                   (case vn_Index validator governedTask (mr_URL mined) of
                      Inl e \<Rightarrow> o1\<lparr>obs_Error := Some e\<rparr>
                    | Inr page \<Rightarrow>
                        let s = Similarity (page_SimHash (mr_Page mined)) (page_SimHash page)
                        in o1\<lparr>obs_PageHash := page_ContentHash page, obs_SimHash := page_SimHash page,
                              obs_Similarity := s, obs_Matched := (s > SimHashSimilarityThreshold)\<rparr>)))"

definition VerifyMiningResult ::
    "CrawlTask \<Rightarrow> MiningResult \<Rightarrow> ValidatorNode option list \<Rightarrow> (ValidatorNode list \<Rightarrow> ValidatorNode list)
     \<Rightarrow> ValidationResult res" where
  "VerifyMiningResult task mined validators shuffle =
     (case sampleValidators validators ValidatorSampleSize shuffle (mr_MinerID mined) of
        Inl e \<Rightarrow> Inl e
      | Inr sampled \<Rightarrow>
          let observations = map (observe task mined) sampled;
              governanceMatchesCount = length (filter obs_GovernanceMatched observations);
              successful = filter (\<lambda>ob. obs_Error ob = None) observations;
              matching = length (filter obs_Matched successful);
              totalSimilarity = sum_list (map obs_Similarity successful);
              average = (if successful = [] then 0 else totalSimilarity / of_nat (length successful));
              governanceValidated = (ValidatorQuorum \<le> governanceMatchesCount)
          in Inr \<lparr>vr_Approved = (ValidatorQuorum \<le> matching \<and> governanceValidated),
                  vr_GovernanceValidated = governanceValidated, vr_AverageSimilarity = average,
                  vr_MatchingValidators = matching, vr_Observations = observations,
                  vr_SampleSize = length sampled, vr_Threshold = SimHashSimilarityThreshold\<rparr>)"

text \<open>Text helpers of the crawler.\<close>

definition truncateRunes :: "string \<Rightarrow> nat \<Rightarrow> string" where
  "truncateRunes input limit =
     (if limit = 0 then []
      else if length (runes input) \<le> limit then input
      else TrimSpace (concat (map encode_rune (take limit (runes input)))))"

end
