(* ===== verification/Useful_Work.thy ===== *)
theory Useful_Work
  imports Consensus
begin

text \<open>
  What the proof-of-useful-work layer guarantees: governed bounties stay consistent,
  fingerprints compare as intended, and a result is approved only when two sampled
  validators reproduce it.
\<close>

section \<open>Sets of strings\<close>

lemma unique_loop_spec:
  assumes "distinct out" and "\<forall>x \<in> set out. x \<noteq> []"
  shows "distinct (unique_loop out vs) \<and> set (unique_loop out vs) = set out \<union> (TrimSpace ` set vs - {[]})"
  using assms
proof (induction vs arbitrary: out)
  case (Cons v vs)
  show ?case
  proof (cases "TrimSpace v = [] \<or> TrimSpace v \<in> set out")
    case True
    then show ?thesis using Cons.IH [OF Cons.prems] Cons.prems by (auto simp: Let_def)
  next
    case False
    then have "distinct (out @ [TrimSpace v])" "\<forall>x \<in> set (out @ [TrimSpace v]). x \<noteq> []"
      using Cons.prems by auto
    from Cons.IH [OF this] False show ?thesis by (auto simp: Let_def)
  qed
qed simp

lemma uniqueStrings_set: "set (uniqueStrings vs) = TrimSpace ` set vs - {[]}"
  using unique_loop_spec [of "[]" vs] by (simp add: uniqueStrings_def)

lemma uniqueStrings_sorted: "sorted (uniqueStrings vs) \<and> distinct (uniqueStrings vs)"
  using unique_loop_spec [of "[]" vs] by (simp add: uniqueStrings_def)

lemma sameStringSet_iff:
  "sameStringSet xs ys \<longleftrightarrow> TrimSpace ` set xs - {[]} = TrimSpace ` set ys - {[]}"
proof -
  have pointwise: "(length a = length b \<and> list_all (\<lambda>i. a ! i = b ! i) [0..<length a]) = (a = b)"
    for a b :: "string list"
    using list_eq_iff_nth_eq [of a b] by (auto simp: list_all_iff)
  have "sameStringSet xs ys \<longleftrightarrow> uniqueStrings xs = uniqueStrings ys"
    unfolding pointwise [symmetric] sameStringSet_def Let_def by simp
  also have "\<dots> \<longleftrightarrow> set (uniqueStrings xs) = set (uniqueStrings ys)"
    using uniqueStrings_sorted [of xs] uniqueStrings_sorted [of ys]
    by (auto simp del: set_sort intro: sorted_distinct_set_unique)
  finally show ?thesis by (simp only: uniqueStrings_set)
qed

section \<open>Registry\<close>

definition registry_inv :: "registry \<Rightarrow> bool" where
  "registry_inv rules \<longleftrightarrow>
     (\<forall>k r. fmlookup rules k = Some r \<longrightarrow> rule_Sector r = k \<and> k \<noteq> [] \<and> rule_MultiplierBPS r \<noteq> 0)"

lemma UpsertRule_inv:
  assumes "registry_inv rules" and "UpsertRule E (Some rules) rule = Inr rules'"
  shows "registry_inv rules'"
proof -
  let ?key = "TrimSpace (ToLower E (rule_Sector rule))"
  have key: "?key \<noteq> []" and multiplier: "rule_MultiplierBPS rule \<noteq> 0"
    using assms(2) by (auto simp: UpsertRule_def Let_def split: if_splits)
  obtain t where "rules' = fmupd ?key (rule\<lparr>rule_Sector := ?key, rule_ActivatedAt := t\<rparr>) rules"
    using assms(2) key multiplier by (simp add: UpsertRule_def Let_def) blast
  then show ?thesis using assms(1) key multiplier by (simp add: registry_inv_def)
qed

lemma Snapshot_set: "set (Snapshot (Some rules)) = {r. \<exists>k. fmlookup rules k = Some r}"
  by (auto simp: Snapshot_def fm_values_iff)

lemma ComposeBasisPoints_pair_nonzero:
  assumes "c \<noteq> 0" and "m \<noteq> 0"
  shows "ComposeBasisPoints [c, m] \<noteq> 0"
proof -
  obtain r where r: "compose_loop (uint BasisPoints) [c, m] = Some r"
    using compose_loop_None [of "uint BasisPoints" "[c, m]"] assms by auto
  then have "1 \<le> r" using compose_loop_ge1 [of "uint BasisPoints" "[c, m]" r] by simp
  then have "uint (ComposeBasisPoints [c, m]) \<ge> 1"
    using r uint_saturate_u64 [of r] by (simp add: ComposeBasisPoints_def)
  then show ?thesis by auto
qed

lemma composite_nonzero:
  assumes "\<forall>r \<in> set rs. rule_MultiplierBPS r \<noteq> 0" and "c \<noteq> 0"
  shows "foldl (\<lambda>c r. ComposeBasisPoints [c, rule_MultiplierBPS r]) c rs \<noteq> 0"
  using assms by (induction rs arbitrary: c) (auto simp: ComposeBasisPoints_pair_nonzero)

lemma ScaleUint64Ceil_pos:
  assumes "d \<noteq> 0" and "b \<noteq> 0"
  shows "ScaleUint64Ceil d b \<noteq> 0"
proof -
  have "1 \<le> uint d" "1 \<le> uint b" using assms by (simp_all add: int_one_le_iff_zero_less word_gt_0_no uint_0_iff less_le)
  then have "1 \<le> (uint d * uint b + 9999) div 10000"
    using mult_mono [of 1 "uint d" 1 "uint b"] by simp
  then have "uint (ScaleUint64Ceil d b) \<ge> 1"
    using assms uint_saturate_u64 [of "(uint d * uint b + 9999) div 10000"]
    by (simp add: ScaleUint64Ceil_def)
  then show ?thesis by auto
qed

section \<open>Fingerprints\<close>

lemma Hamming_card: "HammingDistance x y = card {i. i < 64 \<and> bit x i \<noteq> bit y i}"
proof -
  have "HammingDistance x y = card (set (filter (\<lambda>i. bit (x XOR y) i) [0..<64]))"
    unfolding HammingDistance_def by (rule distinct_card [symmetric]) simp
  also have "set (filter (\<lambda>i. bit (x XOR y) i) [0..<64]) = {i. i < 64 \<and> bit x i \<noteq> bit y i}"
    by (auto simp: bit_xor_iff)
  finally show ?thesis .
qed

lemma Hamming_zero: "HammingDistance x y = 0 \<longleftrightarrow> x = y"
proof -
  have "HammingDistance x y = 0 \<longleftrightarrow> (\<forall>i < 64. bit x i = bit y i)"
    unfolding Hamming_card by (subst card_eq_0_iff) auto
  also have "\<dots> \<longleftrightarrow> x = y" by (auto intro: bit_word_eqI)
  finally show ?thesis .
qed

lemma Hamming_sym: "HammingDistance x y = HammingDistance y x"
  by (simp add: Hamming_card) (metis (no_types, lifting))

lemma Hamming_triangle: "HammingDistance x z \<le> HammingDistance x y + HammingDistance y z"
proof -
  have "HammingDistance x z \<le> card ({i. i < 64 \<and> bit x i \<noteq> bit y i} \<union> {i. i < 64 \<and> bit y i \<noteq> bit z i})"
    unfolding Hamming_card by (rule card_mono) auto
  also have "\<dots> \<le> HammingDistance x y + HammingDistance y z"
    unfolding Hamming_card by (rule card_Un_le)
  finally show ?thesis .
qed

lemma similarity_threshold: "Similarity x y > SimHashSimilarityThreshold \<longleftrightarrow> HammingDistance x y \<le> 3"
proof -
  have "Similarity x y > SimHashSimilarityThreshold \<longleftrightarrow> (of_nat (100 * HammingDistance x y) :: rat) < of_nat 320"
    by (simp add: Similarity_def SimHashSimilarityThreshold_def field_simps)
  also have "\<dots> \<longleftrightarrow> 100 * HammingDistance x y < 320" by (rule of_nat_less_iff)
  finally show ?thesis by auto
qed

lemma fold_or_bits:
  "bit (fold (\<lambda>i fp. if P i then fp OR push_bit i 1 else fp) is (w :: u64)) n \<longleftrightarrow>
     bit w n \<or> n < 64 \<and> n \<in> set is \<and> P n"
proof (induction "is" arbitrary: w)
  case (Cons i js)
  have one: "bit (push_bit i 1 :: u64) n \<longleftrightarrow> n = i \<and> n < 64"
    by (auto simp: bit_push_bit_iff bit_1_iff push_bit_of_1 bit_exp_iff)
  show ?case by (simp del: push_bit_of_1 add: Cons.IH bit_or_iff one) blast
qed simp

lemma token_frequencies_lookup:
  "fmlookup (token_frequencies ts) t = (if t \<in> set ts then Some (count_list ts t) else None)"
proof -
  have "fmlookup (fold (\<lambda>t m. fmupd t (fm_get m 0 t + 1) m) xs m) t =
      (if t \<in> set xs then Some (fm_get m 0 t + count_list xs t) else fmlookup m t)" for xs m
    by (induction xs arbitrary: m) auto
  then show ?thesis by (simp add: token_frequencies_def)
qed

lemma token_frequencies_mset:
  assumes "mset xs = mset ys"
  shows "token_frequencies xs = token_frequencies ys"
proof (rule fmap_ext)
  fix t
  have "set xs = set ys" using assms by (metis set_mset_mset)
  moreover have "count_list xs t = count_list ys t" using assms by (metis count_mset)
  ultimately show "fmlookup (token_frequencies xs) t = fmlookup (token_frequencies ys) t"
    by (simp add: token_frequencies_lookup)
qed


lemma fold_signed_sum:
  "fold (\<lambda>(t, w) acc. if P t then acc + int w else acc - int w) xs a =
     a + sum_list (map (\<lambda>(t, w). if P t then int w else - int w) xs)"
  by (induction xs arbitrary: a) auto

lemma fm_entries_sum:
  "sum_list (map (\<lambda>(k, v). f k v) (fm_entries m)) = (\<Sum>k \<in> fmdom' m. f k (the (fmlookup m k)))"
proof -
  have "sum_list (map (\<lambda>(k, v). f k v) (fm_entries m)) =
      sum_list (map (\<lambda>k. f k (the (fmlookup m k))) (map fst (fm_entries m)))"
    by (rule arg_cong [where f = sum_list]) (auto simp: fm_entries_iff)
  also have "\<dots> = (\<Sum>k \<in> set (map fst (fm_entries m)). f k (the (fmlookup m k)))"
    by (rule sum_list_distinct_conv_sum_set [OF distinct_fm_entries_fst])
  also have "set (map fst (fm_entries m)) = fmdom' m"
    unfolding fm_entries_fst by (simp add: fmdom'_alt_def)
  finally show ?thesis .
qed

lemma token_frequencies_dom: "fmdom' (token_frequencies ts) = set ts"
  by (auto simp: fmdom'I token_frequencies_lookup fmlookup_dom'_iff split: if_splits)

lemma bit_weight_sum:
  "bit_weight E (fm_entries (token_frequencies ts)) i =
     (\<Sum>t \<in> set ts. if bit (token_fingerprint E t) i then int (count_list ts t) else - int (count_list ts t))"
proof -
  have "bit_weight E (fm_entries (token_frequencies ts)) i =
      (\<Sum>t \<in> set ts. if bit (token_fingerprint E t) i then int (the (fmlookup (token_frequencies ts) t))
                       else - int (the (fmlookup (token_frequencies ts) t)))"
    unfolding bit_weight_def fold_signed_sum fm_entries_sum token_frequencies_dom by simp
  also have "\<dots> = (\<Sum>t \<in> set ts. if bit (token_fingerprint E t) i then int (count_list ts t)
                                    else - int (count_list ts t))"
    by (rule sum.cong) (simp_all add: token_frequencies_lookup)
  finally show ?thesis .
qed

text \<open>
  What the registry charges: the governed bounty splits exactly into the architect fee and the
  miner reward, both non-negative; exactly the rules matching the normalised URL apply; with no match the
  quoted bounty and difficulty are unchanged; and in a well-formed registry a match never zeroes
  the multiplier, nor the difficulty of a task that has one.
\<close>

theorem registry_apply_consistent:
  assumes "Registry_Apply E r task target = Inr a"
  shows "adj_AdjustedBounty a = adj_ArchitectFee a + adj_NetMinerReward a
    \<and> 0 \<le> adj_ArchitectFee a \<and> 0 \<le> adj_NetMinerReward a
    \<and> set (adj_MatchedRules a) = {x \<in> set (Snapshot r). priorityRuleMatchesURL E (adj_URL a) (rule_Sector x)}
    \<and> (adj_MatchedRules a = [] \<longrightarrow> adj_MultiplierBPS a = DefaultMultiplierBPS
         \<and> quoteBaseTaskBounty task = Inr (adj_AdjustedBounty a)
         \<and> adj_AdjustedDifficulty a = baseDifficulty task)
    \<and> ((\<forall>rules. r = Some rules \<longrightarrow> registry_inv rules) \<longrightarrow> adj_MultiplierBPS a \<noteq> 0
         \<and> (baseDifficulty task \<noteq> 0 \<longrightarrow> adj_AdjustedDifficulty a \<noteq> 0))"
proof -
  obtain n b where n: "normalizeURL E target = Inr n" and b: "quoteBaseTaskBounty task = Inr b"
    using assms by (auto simp: Registry_Apply_def split: sum.splits)
  have b0: "0 \<le> b"
    using b by (auto simp: quoteBaseTaskBounty_def QuoteBounty_def Let_def split: if_splits)
  define ms where "ms = filter (\<lambda>rule. priorityRuleMatchesURL E n (rule_Sector rule)) (Snapshot r)"
  define c where "c = foldl (\<lambda>c rule. ComposeBasisPoints [c, rule_MultiplierBPS rule]) DefaultMultiplierBPS ms"
  have default: "DefaultMultiplierBPS \<noteq> 0" by (simp add: DefaultMultiplierBPS_def BasisPoints_def)
  have c0: "c \<noteq> 0" if "\<forall>rules. r = Some rules \<longrightarrow> registry_inv rules"
    unfolding c_def
  proof (rule composite_nonzero [OF _ default], rule ballI)
    fix x assume "x \<in> set ms"
    then show "rule_MultiplierBPS x \<noteq> 0"
      using that by (cases r) (auto simp: ms_def Snapshot_set registry_inv_def, simp add: Snapshot_def)
  qed
  have set_ms: "set ms = {x \<in> set (Snapshot r). priorityRuleMatchesURL E n (rule_Sector x)}"
    by (auto simp: ms_def)
  show ?thesis
  proof (cases "ms = []")
    case True
    then have a: "adj_URL a = n" "adj_MatchedRules a = []" "adj_MultiplierBPS a = DefaultMultiplierBPS"
      "adj_AdjustedBounty a = b" "adj_ArchitectFee a = ArchitectFee (Some b)"
      "adj_NetMinerReward a = b - ArchitectFee (Some b)" "adj_AdjustedDifficulty a = baseDifficulty task"
      using assms by (auto simp: Registry_Apply_def n b Let_def ms_def [symmetric])
    show ?thesis using a b ArchitectFee_le [OF b0] default set_ms True by simp
  next
    case False
    define v where "v = ApplyBasisPoints (Some b) c"
    have a: "adj_URL a = n" "adj_MatchedRules a = ms" "adj_MultiplierBPS a = c"
      "adj_AdjustedBounty a = v" "adj_ArchitectFee a = ArchitectFee (Some v)"
      "adj_NetMinerReward a = v - ArchitectFee (Some v)"
      "adj_AdjustedDifficulty a = ScaleUint64Ceil (baseDifficulty task) c"
      using assms False by (auto simp: Registry_Apply_def n b Let_def v_def ms_def [symmetric] c_def [symmetric])
    have "0 \<le> v" by (simp add: v_def)
    then show ?thesis
      using a ArchitectFee_le [of v] c0 set_ms False ScaleUint64Ceil_pos [of "baseDifficulty task" c]
      by (simp del: ArchitectFee_nonneg add: ArchitectFee_nonneg [of "Some v"])
  qed
qed

section \<open>Listener\<close>

lemma listener_step_inv:
  assumes "registry_inv (li_Registry l)"
  shows "case listener_step E l x of Waiting l' \<Rightarrow> registry_inv (li_Registry l') | Returned l' _ \<Rightarrow> registry_inv (li_Registry l')"
  using assms UpsertRule_inv by (auto simp: listener_step_def split: arrival.splits option.splits sum.splits)

lemma UpsertRule_dom:
  "UpsertRule E (Some rules) rule = Inr rules' \<Longrightarrow> fmdom rules |\<subseteq>| fmdom rules'"
  by (auto simp: UpsertRule_def Let_def split: if_splits)

lemma next_block: "b \<noteq> (- 1 :: u64) \<Longrightarrow> b < b + 1"
  using unatSuc [of b] by (simp add: word_less_nat_alt add.commute eq_neg_iff_add_eq_0)

lemma listener_step_progress:
  assumes "case x of EventRecv ev \<Rightarrow> ev_BlockNumber ev \<noteq> - 1 | _ \<Rightarrow> True" and "listener_step E l x = Waiting l'"
  shows "li_FromBlock l \<le> li_FromBlock l' \<and> fmdom (li_Registry l) |\<subseteq>| fmdom (li_Registry l')
    \<and> (\<forall>ev. x = EventRecv ev \<and> li_events l \<longrightarrow> ev_BlockNumber ev < li_FromBlock l'
         \<and> TrimSpace (ToLower E (rule_Sector (ToPriorityRule E ev))) |\<in>| fmdom (li_Registry l'))"
proof (cases x)
  case (EventRecv ev)
  show ?thesis
  proof (cases "li_events l")
    case True
    then obtain rules where up: "UpsertRule E (Some (li_Registry l)) (ToPriorityRule E ev) = Inr rules"
      and l': "l' = l\<lparr>li_Registry := rules, li_FromBlock := (if li_FromBlock l \<le> ev_BlockNumber ev
                 then ev_BlockNumber ev + 1 else li_FromBlock l)\<rparr>"
      using assms(2) EventRecv by (auto simp: listener_step_def split: sum.splits)
    have "TrimSpace (ToLower E (rule_Sector (ToPriorityRule E ev))) |\<in>| fmdom rules"
      using up by (auto simp: UpsertRule_def Let_def split: if_splits)
    moreover have "ev_BlockNumber ev < ev_BlockNumber ev + 1"
      using assms(1) EventRecv by (simp add: next_block)
    ultimately show ?thesis using UpsertRule_dom [OF up] l' EventRecv by auto
  qed (use assms EventRecv in \<open>auto simp: listener_step_def\<close>)
qed (use assms in \<open>auto simp: listener_step_def split: option.splits if_splits\<close>)

text \<open>
  Whatever the subscription delivers, in whatever order and wherever it stops, the listener leaves a
  well-formed registry and forgets no sector; and while it goes on waiting its resume point only
  moves forward (for block numbers below the largest uint64).
\<close>

theorem listener_run_sound:
  assumes "registry_inv (li_Registry l)"
    and "\<forall>ev. EventRecv ev \<in> set arrivals \<longrightarrow> ev_BlockNumber ev \<noteq> - 1"
  shows "case listener_loop E l arrivals of
      Waiting l' \<Rightarrow> registry_inv (li_Registry l') \<and> fmdom (li_Registry l) |\<subseteq>| fmdom (li_Registry l')
        \<and> li_FromBlock l \<le> li_FromBlock l'
    | Returned l' result \<Rightarrow> registry_inv (li_Registry l') \<and> fmdom (li_Registry l) |\<subseteq>| fmdom (li_Registry l')
        \<and> li_FromBlock l \<le> li_FromBlock l'"
  using assms
proof (induction arrivals arbitrary: l)
  case Nil
  then show ?case by (subst listener_loop.simps) simp
next
  case (Cons x xs)
  show ?case
  proof (cases "\<not> li_events l \<and> \<not> li_errs l")
    case True
    then show ?thesis using Cons.prems by (subst listener_loop.simps) simp
  next
    case False
    show ?thesis
    proof (cases "listener_step E l x")
      case (Returned l' r)
      then have "l' = l" by (auto simp: listener_step_def split: arrival.splits option.splits if_splits sum.splits)
      with Returned False Cons.prems show ?thesis by (subst listener_loop.simps) simp
    next
      case (Waiting l1)
      have inv1: "registry_inv (li_Registry l1)"
        using listener_step_inv [OF Cons.prems(1), of E x] Waiting by simp
      have progress: "li_FromBlock l \<le> li_FromBlock l1 \<and> fmdom (li_Registry l) |\<subseteq>| fmdom (li_Registry l1)"
        using listener_step_progress [OF _ Waiting] Cons.prems(2) by (cases x) auto
      have "listener_loop E l (x # xs) = listener_loop E l1 xs"
        using False Waiting by (subst listener_loop.simps) auto
      then show ?thesis
        using Cons.IH [OF inv1] Cons.prems(2) progress
        by (auto split: outcome.splits)
    qed
  qed
qed

definition toy_event :: GovernanceEvent where
  "toy_event = \<lparr>ev_ProposalID = 1, ev_Sector = ''host:h'', ev_MultiplierBPS = 20000, ev_BlockNumber = 7,
     ev_TransactionID = ''t'', ev_EmittedAt = 5\<rparr>"

definition toy_listener :: listener where
  "toy_listener = \<lparr>li_Registry = NewPriorityRegistry, li_FromBlock = 3, li_events = True, li_errs = True\<rparr>"

definition toy_rule :: PriorityRule where
  "toy_rule = \<lparr>rule_Sector = ''host:h'', rule_MultiplierBPS = 20000, rule_SourceProposalID = 1, rule_ActivatedAt = 5\<rparr>"

lemma toy_host_lower: "ToLower toy_env ''host:h'' = ''host:h''" "TrimSpace ''host:h'' = ''host:h''"
  by (simp_all add: ToLower_def is_ascii_def byte_def lower_char_def)
    (rule TrimSpace_visible, simp add: visible_def byte_def)

lemma toy_ToPriorityRule: "ToPriorityRule toy_env toy_event = toy_rule"
  by (simp add: ToPriorityRule_def toy_event_def toy_rule_def normalizeMultiplier_def toy_host_lower)

lemma toy_upsert: "UpsertRule toy_env (Some fmempty) toy_rule = Inr (fmupd ''host:h'' toy_rule fmempty)"
  by (simp add: UpsertRule_def toy_rule_def toy_host_lower Let_def)

lemma toy_registry_inv: "registry_inv (fmupd ''host:h'' toy_rule fmempty)" "registry_inv fmempty"
  by (simp_all add: registry_inv_def toy_rule_def)

lemma toy_listener_loop:
  "listener_loop toy_env toy_listener [EventRecv toy_event, ErrsClosed, EventsClosed] =
     Returned \<lparr>li_Registry = fmupd ''host:h'' toy_rule fmempty, li_FromBlock = 8, li_events = False, li_errs = False\<rparr> (Inr ())"
  by (simp add: listener_loop.simps listener_step_def toy_listener_def toy_ToPriorityRule NewPriorityRegistry_def
      toy_upsert) (simp add: toy_event_def)

theorem listener_run_sound_witness:
  "listener_loop toy_env toy_listener [EventRecv toy_event, ErrsClosed, EventsClosed] =
     Returned \<lparr>li_Registry = fmupd ''host:h'' toy_rule fmempty, li_FromBlock = 8, li_events = False, li_errs = False\<rparr> (Inr ())
   \<and> registry_inv (fmupd ''host:h'' toy_rule fmempty) \<and> (3 :: u64) \<le> 8"
proof -
  have "registry_inv (li_Registry toy_listener)"
    by (simp add: toy_listener_def NewPriorityRegistry_def toy_registry_inv)
  from listener_run_sound [OF this, of "[EventRecv toy_event, ErrsClosed, EventsClosed]" toy_env]
  show ?thesis by (simp add: toy_listener_loop) (simp add: toy_event_def toy_listener_def)
qed

definition toy_crawl_task :: CrawlTask where
  "toy_crawl_task = \<lparr>ct_ID = ''id'', ct_Query = ''q'', ct_SeedURLs = [''u''], ct_BaseDifficulty = 2, ct_Difficulty = 2,
     ct_AdjustedDifficulty = 2, ct_DataVolumeBytes = 3, ct_BaseBounty = Some 94, ct_TotalBounty = Some 100,
     ct_ArchitectFee = Some 3, ct_MinerReward = Some 97, ct_GovernanceMultiplierBPS = 10000,
     ct_PrioritySectors = [], ct_CreatedAt = 1, ct_ExpiresAt = 0\<rparr>"

definition toy_registry :: registry where
  "toy_registry = fmupd ''host:h'' toy_rule fmempty"

lemma toy_Snapshot: "Snapshot (Some toy_registry) = [toy_rule]"
proof -
  have "fm_values toy_registry = [toy_rule]"
    by (simp add: fm_values_def fm_entries_def toy_registry_def sorted_list_of_fset.rep_eq)
  then show ?thesis by (simp add: Snapshot_def)
qed

lemma toy_url: "normalizeURL toy_env ''u'' = Inr ''u''"
proof -
  have "TrimSpace ''u'' = ''u''" by (rule TrimSpace_visible) (simp add: visible_def byte_def)
  then show ?thesis by (simp add: normalizeURL_def toy_env_def)
qed

lemma toy_match: "priorityRuleMatchesURL toy_env ''u'' ''host:h''"
proof -
  have parse: "url_parse toy_env ''u'' = Some \<lparr>Scheme = ''http'', Host = ''h'', Path = ''u'', RawQuery = [], Fragment = [], url_rest = []\<rparr>"
    "url_hostname toy_env = Host" by (simp_all add: toy_env_def)
  have "ToLower toy_env ''h'' = ''h''"
    by (simp add: ToLower_def is_ascii_def byte_def lower_char_def)
  then show ?thesis
    unfolding priorityRuleMatchesURL_def toy_host_lower parse by (simp add: Let_def TrimPrefix_def)
qed

lemma toy_apply: "\<exists>a. Registry_Apply toy_env (Some toy_registry) toy_crawl_task ''u'' = Inr a
    \<and> adj_MatchedRules a = [toy_rule] \<and> adj_AdjustedBounty a = 200"
proof -
  have "quoteBaseTaskBounty toy_crawl_task = Inr 100"
    by (simp add: quoteBaseTaskBounty_def QuoteBounty_def baseDifficulty_def toy_crawl_task_def cloneBigInt_def)
  moreover have "rule_Sector toy_rule = ''host:h''" "rule_MultiplierBPS toy_rule = 20000"
    by (simp_all add: toy_rule_def)
  moreover have "ApplyBasisPoints (Some 100) (ComposeBasisPoints [DefaultMultiplierBPS, 20000]) = 200"
    by (simp add: ApplyBasisPoints_def ComposeBasisPoints_def DefaultMultiplierBPS_def BasisPoints_def saturate_u64_def
        cloneBigInt_def)
  ultimately show ?thesis
    by (simp add: Registry_Apply_def toy_url toy_Snapshot toy_match Let_def)
qed

theorem registry_apply_consistent_witness:
  "\<exists>a. Registry_Apply toy_env (Some toy_registry) toy_crawl_task ''u'' = Inr a
    \<and> adj_AdjustedBounty a = 200 \<and> adj_ArchitectFee a + adj_NetMinerReward a = 200
    \<and> adj_MultiplierBPS a \<noteq> 0 \<and> adj_AdjustedDifficulty a \<noteq> 0"
proof -
  obtain a where a: "Registry_Apply toy_env (Some toy_registry) toy_crawl_task ''u'' = Inr a"
    and bounty: "adj_AdjustedBounty a = 200" using toy_apply by blast
  have "baseDifficulty toy_crawl_task \<noteq> 0" by (simp add: baseDifficulty_def toy_crawl_task_def)
  then show ?thesis
    using registry_apply_consistent [OF a] bounty a toy_registry_inv(1) by (auto simp: toy_registry_def)
qed

text \<open>
  The number of differing bits is a metric on fingerprints, and the similarity threshold of 0.95
  accepts exactly the fingerprints at distance at most three.
\<close>

theorem hamming_metric:
  "(HammingDistance x y = 0 \<longleftrightarrow> x = y) \<and> HammingDistance x y = HammingDistance y x
   \<and> HammingDistance x z \<le> HammingDistance x y + HammingDistance y z \<and> HammingDistance x y \<le> 64
   \<and> (Similarity x y > SimHashSimilarityThreshold \<longleftrightarrow> HammingDistance x y \<le> 3)"
proof -
  have "HammingDistance x y \<le> 64"
    using length_filter_le [of "\<lambda>i. bit (x XOR y) i" "[0..<64]"] by (simp add: HammingDistance_def)
  then show ?thesis
    by (intro conjI Hamming_zero Hamming_sym Hamming_triangle similarity_threshold)
qed

text \<open>
  The fingerprint is the majority vote: bit $i$ is set exactly when the occurrences of tokens whose
  hash has bit $i$ outnumber the others. So it depends on the tokens of the text only as a
  multiset, not on the order in which the map of frequencies is walked.
\<close>

theorem SimHash_majority:
  "bit (SimHash E txt) i \<longleftrightarrow> i < 64 \<and>
     0 < (\<Sum>t \<in> set (tokenize E txt). if bit (token_fingerprint E t) i then int (count_list (tokenize E txt) t)
                                     else - int (count_list (tokenize E txt) t))"
proof (cases "tokenize E txt = []")
  case True
  then show ?thesis by (simp add: SimHash_def)
next
  case False
  then show ?thesis
    by (simp del: push_bit_of_1 add: SimHash_def Let_def fold_or_bits bit_weight_sum)
qed

text \<open>
  Two lists of priority sectors agree exactly when they are the same set of trimmed, non-empty
  strings: order, repetition, blanks and surrounding white space do not matter.
\<close>

theorem same_string_set_spec:
  "sameStringSet xs ys \<longleftrightarrow> {TrimSpace x |x. x \<in> set xs} - {[]} = {TrimSpace y |y. y \<in> set ys} - {[]}"
  unfolding sameStringSet_iff by (simp only: Setcompr_eq_image)

section \<open>Verification of a mined result\<close>

text \<open>A validator supports a result: it resolves the same governance and re-crawls a close fingerprint.\<close>

definition supports :: "CrawlTask \<Rightarrow> MiningResult \<Rightarrow> ValidatorNode \<Rightarrow> bool" where
  "supports task mined v =
     (case vn_ResolveGovernance v task (mr_URL mined) of
        Inl _ \<Rightarrow> False
      | Inr (governed, adjustment) \<Rightarrow>
          governanceMatches mined adjustment \<and>
          (case vn_Index v governed (mr_URL mined) of
             Inl _ \<Rightarrow> False
           | Inr page \<Rightarrow> HammingDistance (page_SimHash (mr_Page mined)) (page_SimHash page) \<le> 3))"

definition eligible :: "MiningResult \<Rightarrow> ValidatorNode option list \<Rightarrow> ValidatorNode list" where
  "eligible mined validators =
     filter (\<lambda>v. mr_MinerID mined = [] \<or> vn_ID v \<noteq> mr_MinerID mined) (List.map_filter (\<lambda>v. v) validators)"

lemma observe_supports:
  "obs_Matched (observe task mined v) \<longleftrightarrow> supports task mined v"
  "supports task mined v \<Longrightarrow> obs_Error (observe task mined v) = None \<and> obs_GovernanceMatched (observe task mined v)"
  by (auto simp: observe_def supports_def Let_def similarity_threshold split: sum.splits)

lemma sampleValidators_eligible:
  "sampleValidators vs n shuffle (mr_MinerID mined) =
     (if length (eligible mined vs) < n then Inl ErrInsufficientValidators
      else Inr (take n (shuffle (eligible mined vs))))"
proof -
  have "(\<lambda>v. \<not> (mr_MinerID mined \<noteq> [] \<and> vn_ID v = mr_MinerID mined)) =
      (\<lambda>v. mr_MinerID mined = [] \<or> vn_ID v \<noteq> mr_MinerID mined)" by auto
  then show ?thesis by (simp add: sampleValidators_def eligible_def)
qed

lemma mset_take_shuffle:
  assumes "mset (shuffle xs) = mset xs"
  shows "mset (take n (shuffle xs)) \<subseteq># mset xs"
  unfolding assms [symmetric] by (metis append_take_drop_id mset_append mset_subset_eq_add_left)

lemma approval_counts:
  "VerifyMiningResult task mined vs shuffle = Inr v \<Longrightarrow>
   sampled = take 3 (shuffle (eligible mined vs)) \<Longrightarrow>
   vr_MatchingValidators v = length (filter (supports task mined) sampled)
   \<and> (vr_Approved v \<longleftrightarrow> 2 \<le> length (filter (supports task mined) sampled))"
proof -
  assume run: "VerifyMiningResult task mined vs shuffle = Inr v" and s: "sampled = take 3 (shuffle (eligible mined vs))"
  have count: "length (filter obs_Matched (filter (\<lambda>ob. obs_Error ob = None) (map (observe task mined) xs))) =
      length (filter (supports task mined) xs)" for xs
    by (induction xs) (use observe_supports in auto)
  have governed: "length (filter (supports task mined) xs) \<le> length (filter obs_GovernanceMatched (map (observe task mined) xs))" for xs
    by (induction xs) (use observe_supports in auto)
  show ?thesis
    using run count [of sampled] governed [of sampled]
    unfolding VerifyMiningResult_def sampleValidators_eligible ValidatorSampleSize_def ValidatorQuorum_def s
    by (auto simp: Let_def split: if_splits)
qed

text \<open>
  The verdict on a mined result: with fewer than three validators other than the miner it is refused;
  otherwise three of them, none of them the miner, are asked, and the result is approved exactly when two of the three
  resolve the same governance and re-crawl a fingerprint at distance at most three. The shuffle may be
  any permutation.
\<close>

theorem verification_decision:
  assumes "\<And>xs. mset (shuffle xs) = mset xs"
  shows "case VerifyMiningResult task mined validators shuffle of
      Inl e \<Rightarrow> e = ErrInsufficientValidators \<and> length (eligible mined validators) < 3
    | Inr v \<Rightarrow> \<exists>sampled. mset sampled \<subseteq># mset (eligible mined validators) \<and> length sampled = 3
        \<and> map obs_ValidatorID (vr_Observations v) = map vn_ID sampled
        \<and> vr_MatchingValidators v = length (filter (supports task mined) sampled)
        \<and> (vr_Approved v \<longleftrightarrow> 2 \<le> length (filter (supports task mined) sampled))"
proof (cases "VerifyMiningResult task mined validators shuffle")
  case (Inl e)
  then show ?thesis
    by (auto simp: VerifyMiningResult_def sampleValidators_eligible ValidatorSampleSize_def Let_def split: if_splits)
next
  case (Inr v)
  define sampled where "sampled = take 3 (shuffle (eligible mined validators))"
  have pool: "3 \<le> length (eligible mined validators)" and obs: "vr_Observations v = map (observe task mined) sampled"
    using Inr by (auto simp: VerifyMiningResult_def sampleValidators_eligible ValidatorSampleSize_def Let_def
        sampled_def split: if_splits)
  have "obs_ValidatorID (observe task mined x) = vn_ID x" for x
    by (auto simp: observe_def Let_def split: sum.splits)
  then have ids: "map obs_ValidatorID (vr_Observations v) = map vn_ID sampled" by (simp add: obs)
  have "length (shuffle (eligible mined validators)) = length (eligible mined validators)"
    using assms by (metis size_mset)
  then have "length sampled = 3" using pool by (simp add: sampled_def)
  moreover have "mset sampled \<subseteq># mset (eligible mined validators)"
    unfolding sampled_def by (rule mset_take_shuffle) (rule assms)
  ultimately show ?thesis
    using approval_counts [OF Inr sampled_def] ids Inr by auto
qed

lemma sameStringSet_refl [simp]: "sameStringSet xs xs"
  by (simp add: sameStringSet_iff)

lemma governed_target:
  assumes "normalizeURL E n = Inr n" and "applyGovernanceToTask E task n r = Inr (g, a)"
  shows "ct_SeedURLs g = [n]"
  using assms by (auto simp: applyGovernanceToTask_def split: sum.splits)

lemma MineURL_shape:
  assumes "MineURL E m task target = Inr mined"
  obtains n index g a page where "normalizeURL E target = Inr n" and "miner_Crawler m = Some index"
    and "applyGovernanceToTask E task target (miner_PriorityRegistry m) = Inr (g, a)"
    and "ct_SeedURLs g = [n]" and "index g n = Inr page"
    and "mr_Page mined = page" and "mr_URL mined = page_URL page" and "mr_MinerID mined = miner_ID m"
    and "governanceMatches mined a"
    and "mr_ProofHash mined = buildProofHash E (mr_TaskID mined) (mr_URL mined) (page_ContentHash page) (page_SimHash page)"
proof -
  obtain index where index: "miner_Crawler m = Some index"
    using assms by (auto simp: MineURL_def split: option.splits)
  obtain g a where ga: "applyGovernanceToTask E task target (miner_PriorityRegistry m) = Inr (g, a)"
    using assms index by (auto simp: MineURL_def split: sum.splits)
  then obtain n where n: "normalizeURL E target = Inr n" and seed: "ct_SeedURLs g = [n]"
    by (auto simp: applyGovernanceToTask_def split: sum.splits)
  obtain page where page: "index g n = Inr page"
    using assms index ga seed by (auto simp: MineURL_def split: sum.splits)
  have mined: "mined = \<lparr>mr_TaskID = ct_ID g, mr_MinerID = miner_ID m, mr_URL = page_URL page, mr_Page = page,
      mr_ProofHash = buildProofHash E (ct_ID g) (page_URL page) (page_ContentHash page) (page_SimHash page),
      mr_AppliedMultiplierBPS = adj_MultiplierBPS a, mr_AppliedPrioritySectors = adj_PrioritySectors a,
      mr_AdjustedDifficulty = adj_AdjustedDifficulty a, mr_AdjustedBounty = Some (adj_AdjustedBounty a),
      mr_ArchitectFee = Some (adj_ArchitectFee a), mr_MinerReward = Some (adj_NetMinerReward a),
      mr_CompletedAt = now E\<rparr>"
    using assms index ga seed page by (simp add: MineURL_def)
  show ?thesis
    by (rule that [OF n index ga seed page]) (simp_all add: mined governanceMatches_def cloneBigInt_def)
qed

text \<open>
  An honest miner is approved: when a miner's crawl succeeds, its pages carry the URL asked for, and
  every eligible validator (at least three) runs the same crawler over the same registry, verification
  approves the result with three matching validators. Normalising a normalised URL is assumed to change nothing.
\<close>

theorem honest_result_approved:
  assumes mine: "MineURL E m task target = Inr mined"
    and crawl: "\<And>t u p. index t u = Inr p \<Longrightarrow> page_URL p = u" and "miner_Crawler m = Some index"
    and stable: "\<And>u n. normalizeURL E u = Inr n \<Longrightarrow> normalizeURL E n = Inr n"
    and shuffle: "\<And>xs. mset (shuffle xs) = mset xs"
    and pool: "3 \<le> length (eligible mined validators)"
    and honest: "\<And>v. Some v \<in> set validators \<Longrightarrow>
      v = Validator E (vn_ID v) (Some index) (miner_PriorityRegistry m)"
  shows "\<exists>v. VerifyMiningResult task mined validators shuffle = Inr v \<and> vr_Approved v \<and> vr_MatchingValidators v = 3"
proof -
  obtain n g a page where n: "normalizeURL E target = Inr n"
    and ga: "applyGovernanceToTask E task target (miner_PriorityRegistry m) = Inr (g, a)"
    and seed: "ct_SeedURLs g = [n]" and page: "index g n = Inr page" and mp: "mr_Page mined = page"
    and url: "mr_URL mined = page_URL page" and gm: "governanceMatches mined a"
    using MineURL_shape [OF mine] assms(3) by (metis option.inject)
  have url_n: "mr_URL mined = n" using url crawl [OF page] by simp
  have again: "applyGovernanceToTask E task n (miner_PriorityRegistry m) = Inr (g, a)"
    using ga unfolding applyGovernanceToTask_def n stable [OF n] by simp
  have supporting: "supports task mined v" if "Some v \<in> set validators" for v
  proof -
    have "vn_ResolveGovernance v task n = Inr (g, a)" "vn_Index v g n = Inr page"
      by (subst honest [OF that], simp add: Validator_def again page)+
    then show ?thesis by (simp add: supports_def url_n gm mp Hamming_zero [THEN iffD2])
  qed
  define sampled where "sampled = take 3 (shuffle (eligible mined validators))"
  have len: "length sampled = 3"
    using pool shuffle [THEN arg_cong [where f = size]] by (simp add: sampled_def)
  have "set sampled \<subseteq> set (eligible mined validators)"
    unfolding sampled_def using mset_take_shuffle [of shuffle "eligible mined validators" 3, OF shuffle]
    by (metis mset_subset_eqD set_mset_mset subsetI)
  then have "Some x \<in> set validators" if "x \<in> set sampled" for x
    using that by (auto simp: eligible_def List.map_filter_def)
  then have "filter (supports task mined) sampled = sampled"
    using supporting by (simp add: filter_id_conv)
  moreover obtain v where v: "VerifyMiningResult task mined validators shuffle = Inr v"
    using pool by (simp add: VerifyMiningResult_def sampleValidators_eligible ValidatorSampleSize_def Let_def)
  ultimately show ?thesis using approval_counts [OF v sampled_def] len by simp
qed

text \<open>
  The query coverage of a page is a proportion, and it is complete exactly when the query has a token
  and every one of its tokens occurs in the text.
\<close>

theorem query_coverage_spec:
  "0 \<le> QueryCoverage E query txt \<and> QueryCoverage E query txt \<le> 1
   \<and> (QueryCoverage E query txt = 1 \<longleftrightarrow>
        uniqueStrings (tokenize E query) \<noteq> [] \<and> set (uniqueStrings (tokenize E query)) \<subseteq> set (tokenize E txt))"
proof (cases "uniqueStrings (tokenize E query) = []")
  case True
  then show ?thesis by (simp add: QueryCoverage_def)
next
  case False
  define q where "q = uniqueStrings (tokenize E query)"
  define found where "found = filter (\<lambda>t. t \<in> set (tokenize E txt)) q"
  have le: "length found \<le> length q" by (simp add: found_def)
  have q: "0 < length q" using False by (simp add: q_def)
  have cov: "QueryCoverage E query txt = of_nat (length found) / of_nat (length q)"
    using False by (simp add: QueryCoverage_def Let_def q_def found_def)
  have "of_nat (length found) / of_nat (length q) = (1 :: rat) \<longleftrightarrow> length found = length q"
    using q by (simp add: divide_eq_eq)
  also have "\<dots> \<longleftrightarrow> set q \<subseteq> set (tokenize E txt)"
    unfolding found_def by (metis (no_types, lifting) filter_id_conv filter_True length_filter_less order.irrefl subset_eq)
  finally show ?thesis using le q by (simp add: cov q_def [symmetric] divide_le_eq)
qed

definition toy_crawler :: crawler where
  "toy_crawler task target = Inr \<lparr>page_URL = target, page_Title = ''t'', page_Body = ''b'', page_Snippet = ''s'',
     page_OutboundLinks = [], page_StatusCode = 200, page_BodyBytes = 1, page_ContentHash = ''c'', page_QueryCoverage = 1,
     page_SimHash = 5, page_IndexedAt = 1\<rparr>"

definition toy_miner :: Miner where
  "toy_miner = \<lparr>miner_ID = ''m'', miner_Crawler = Some toy_crawler, miner_PriorityRegistry = Some toy_registry\<rparr>"

definition toy_validators :: "ValidatorNode option list" where
  "toy_validators = None # map (\<lambda>i. Some (Validator toy_env i (Some toy_crawler) (Some toy_registry))) [''m'', ''a'', ''b'', ''c'']"

lemma toy_mined: "\<exists>mined. MineURL toy_env toy_miner toy_crawl_task ''u'' = Inr mined \<and> mr_MinerID mined = ''m''"
proof -
  obtain a where "Registry_Apply toy_env (Some toy_registry) toy_crawl_task ''u'' = Inr a" using toy_apply by blast
  then show ?thesis
    by (simp add: MineURL_def toy_miner_def applyGovernanceToTask_def toy_url toy_crawler_def)
qed

lemma toy_eligible: "mr_MinerID mined = ''m'' \<Longrightarrow> length (eligible mined toy_validators) = 3"
  by (simp add: eligible_def toy_validators_def List.map_filter_def Validator_def)

theorem verification_decision_witness:
  "\<exists>mined v. MineURL toy_env toy_miner toy_crawl_task ''u'' = Inr mined
     \<and> VerifyMiningResult toy_crawl_task mined toy_validators rev = Inr v \<and> length (vr_Observations v) = 3"
proof -
  obtain mined where mined: "MineURL toy_env toy_miner toy_crawl_task ''u'' = Inr mined" "mr_MinerID mined = ''m''"
    using toy_mined by blast
  have "\<And>xs :: ValidatorNode list. mset (rev xs) = mset xs" by simp
  from verification_decision [where shuffle = rev and task = toy_crawl_task and mined = mined and validators = toy_validators, OF this] toy_eligible [OF mined(2)] mined(1)
  show ?thesis by (cases "VerifyMiningResult toy_crawl_task mined toy_validators rev") (auto dest: map_eq_imp_length_eq)
qed

theorem honest_result_approved_witness:
  "\<exists>mined v. MineURL toy_env toy_miner toy_crawl_task ''u'' = Inr mined
     \<and> VerifyMiningResult toy_crawl_task mined toy_validators rev = Inr v \<and> vr_Approved v"
proof -
  obtain mined where mined: "MineURL toy_env toy_miner toy_crawl_task ''u'' = Inr mined" "mr_MinerID mined = ''m''"
    using toy_mined by blast
  have norm: "normalizeURL toy_env u = Inr (TrimSpace u)" for u
    by (simp add: normalizeURL_def toy_env_def)
  have "\<exists>v. VerifyMiningResult toy_crawl_task mined toy_validators rev = Inr v \<and> vr_Approved v \<and> vr_MatchingValidators v = 3"
  proof (rule honest_result_approved [OF mined(1), of toy_crawler])
    show "page_URL p = u" if "toy_crawler t u = Inr p" for t u p using that by (auto simp: toy_crawler_def)
    show "miner_Crawler toy_miner = Some toy_crawler" by (simp add: toy_miner_def)
    show "normalizeURL toy_env n = Inr n" if "normalizeURL toy_env u = Inr n" for u n using that by (auto simp: norm)
    show "mset (rev xs) = mset xs" for xs :: "ValidatorNode list" by simp
    show "3 \<le> length (eligible mined toy_validators)" using toy_eligible [OF mined(2)] by simp
    show "v = Validator toy_env (vn_ID v) (Some toy_crawler) (miner_PriorityRegistry toy_miner)"
      if "Some v \<in> set toy_validators" for v
      using that by (auto simp: toy_validators_def toy_miner_def Validator_def)
  qed
  with mined(1) show ?thesis by blast
qed

end
