(* ===== verification/Abi.thy ===== *)
theory Abi
  imports Address
begin

text \<open>
  Call data: \<open>src/core/uns.go\<close> and the ABI helpers of \<open>src/core/user_contracts.go\<close>,
  \<open>src/core/system_contracts.go\<close> and \<open>src/core/blockchain.go\<close>. A call is a four-byte
  selector, a 32-byte offset, a 32-byte length and the padded text. The reader computes
  the end of the text in Go's signed 64-bit \<open>int\<close>; the model keeps that width, so the
  overflow of a huge length field shows.
\<close>

definition functionSelector :: "env \<Rightarrow> string \<Rightarrow> bytes" where
  "functionSelector E signature = take 4 (keccak256 E signature)"

definition registerNameSelector :: "env \<Rightarrow> bytes" where
  "registerNameSelector E = functionSelector E ''registerName(string)''"

definition registerSelector :: "env \<Rightarrow> bytes" where
  "registerSelector E = functionSelector E ''register(string)''"

definition registrationPriceSelector :: "env \<Rightarrow> bytes" where
  "registrationPriceSelector E = functionSelector E ''registrationPrice(string)''"

definition mentionFrequencySelector :: "env \<Rightarrow> bytes" where
  "mentionFrequencySelector E = functionSelector E ''mentionFrequency(string)''"

definition noteSelector :: "env \<Rightarrow> bytes" where
  "noteSelector E = functionSelector E ''note()''"

definition setNoteSelector :: "env \<Rightarrow> bytes" where
  "setNoteSelector E = functionSelector E ''setNote(string)''"

text \<open>A 32-byte word whose low eight bytes hold a \<open>uint64\<close>, and text padded to 32 bytes.\<close>

definition word32 :: "u64 \<Rightarrow> bytes" where
  "word32 n = replicate 24 (char_of (0 :: nat)) @ be_bytes 8 (unat n)"

definition padded :: "bytes \<Rightarrow> bytes" where
  "padded bs = bs @ replicate ((length bs + 31) div 32 * 32 - length bs) (char_of (0 :: nat))"

definition encodeSingleStringCall :: "bytes \<Rightarrow> string \<Rightarrow> bytes res" where
  "encodeSingleStringCall selector value =
     (let normalized = TrimSpace value in
      if normalized = [] then Inl ErrInvalidUNSCall
      else Inr (selector @ word32 32 @ word32 (of_nat (length normalized)) @ padded normalized))"

text \<open>\<open>binary.BigEndian.Uint64\<close> of \<open>data[lo : lo+8]\<close>.\<close>

definition Uint64_at :: "nat \<Rightarrow> bytes \<Rightarrow> u64" where
  "Uint64_at lo data = of_nat (big_SetBytes (take 8 (drop lo data)))"

definition decodeSingleStringCall :: "bytes \<Rightarrow> bytes list \<Rightarrow> string res" where
  "decodeSingleStringCall data selectors =
     (if length data < 4 + 64 then Inl ErrInvalidUNSCall
      else if \<not> list_ex (\<lambda>candidate. take 4 data = candidate) selectors then Inl ErrInvalidUNSCall
      else if Uint64_at (4 + 24) data \<noteq> 32 then Inl ErrInvalidUNSCall
      else
        (let len = Uint64_at (4 + 32 + 24) data in
         if len = 0 then Inl ErrInvalidUNSCall
         else
           (let start = 68 :: int; stop = sint (68 + len :: 64 word) in
            if stop > int (length data) then Inl ErrInvalidUNSCall
            else if stop < start then Inl GoPanic
            else
              (let name = TrimSpace (take (nat (stop - start)) (drop 68 data)) in
               if name = [] then Inl ErrInvalidUNSCall else Inr name))))"

definition EncodeRegisterNameCall :: "env \<Rightarrow> string \<Rightarrow> bytes res" where
  "EncodeRegisterNameCall E name = encodeSingleStringCall (registerNameSelector E) name"

definition EncodeRegistrationPriceCall :: "env \<Rightarrow> string \<Rightarrow> bytes res" where
  "EncodeRegistrationPriceCall E name = encodeSingleStringCall (registrationPriceSelector E) name"

definition EncodeMentionFrequencyCall :: "env \<Rightarrow> string \<Rightarrow> bytes res" where
  "EncodeMentionFrequencyCall E term = encodeSingleStringCall (mentionFrequencySelector E) term"

definition DecodeRegisterNameCall :: "env \<Rightarrow> bytes \<Rightarrow> string res" where
  "DecodeRegisterNameCall E data = decodeSingleStringCall data [registerNameSelector E, registerSelector E]"

definition DecodeRegistrationPriceCall :: "env \<Rightarrow> bytes \<Rightarrow> string res" where
  "DecodeRegistrationPriceCall E data = decodeSingleStringCall data [registrationPriceSelector E]"

definition DecodeMentionFrequencyCall :: "env \<Rightarrow> bytes \<Rightarrow> string res" where
  "DecodeMentionFrequencyCall E data = decodeSingleStringCall data [mentionFrequencySelector E]"

definition encodeABIString :: "string \<Rightarrow> bytes" where
  "encodeABIString value =
     (let payload = TrimSpace value
      in word32 32 @ word32 (of_nat (length payload)) @ padded payload)"

definition matchesSelector :: "bytes \<Rightarrow> bytes \<Rightarrow> bool" where
  "matchesSelector data selector \<longleftrightarrow> length data = 4 \<and> take 4 data = selector"

definition selectorHex :: "bytes \<Rightarrow> string" where
  "selectorHex selector = ''0x'' @ hex_encode selector"

definition hashHex :: "env \<Rightarrow> string \<Rightarrow> string" where
  "hashHex E raw = ''0x'' @ hex_encode (sha256 E raw)"

definition padUint256 :: "nat \<Rightarrow> bytes" where
  "padUint256 value =
     (let bs = big_Bytes value in
      if 32 \<le> length bs then drop (length bs - 32) bs
      else replicate (32 - length bs) (char_of (0 :: nat)) @ bs)"

text \<open>The documented length of Keccak-256, which \<open>sum[:4]\<close> relies on.\<close>

definition keccak_len :: "env \<Rightarrow> bool" where
  "keccak_len E \<longleftrightarrow> (\<forall>x. length (keccak256 E x) = 32)"

lemma length_functionSelector: "keccak_len E \<Longrightarrow> length (functionSelector E s) = 4"
  by (simp add: functionSelector_def keccak_len_def)

lemma length_word32 [simp]: "length (word32 n) = 32"
  by (simp add: word32_def)

lemma padded_prefix: "take (length bs) (padded bs) = bs"
  by (simp add: padded_def)

lemma length_padded: "length bs \<le> length (padded bs)"
  by (simp add: padded_def)

lemma Uint64_at_word32:
  assumes "length xs + 24 = lo"
  shows "Uint64_at lo (xs @ word32 n @ ys) = n"
proof -
  have "drop lo (xs @ word32 n @ ys) = be_bytes 8 (unat n) @ ys"
    using assms by (simp add: word32_def)
  moreover have "unat n < 256 ^ 8" using unsigned_less [of n] by simp
  ultimately show ?thesis
    by (simp add: Uint64_at_def big_SetBytes_be_bytes)
qed

lemma unat_u64_small: "n < 2 ^ 64 \<Longrightarrow> unat (of_nat n :: u64) = n"
  by (simp add: unat_of_nat take_bit_nat_eq_self)

lemma sint_small: "n < 2 ^ 63 \<Longrightarrow> sint (of_nat n :: 64 word) = int n"
  using unat_u64_small [of n]
  by (simp add: sint_uint uint_nat signed_take_bit_int_eq_self)

lemma sint_u64: "sint (w :: u64) = (uint w + 2 ^ 63) mod 2 ^ 64 - 2 ^ 63"
  using int_word_sint [of "uint w", where 'a = 64] by simp

text \<open>The end position is below the start exactly when the length field overflows \<open>int\<close>.\<close>

lemma stop_before_start: "sint (68 + len :: u64) < 68 \<longleftrightarrow> 2 ^ 63 - 68 \<le> uint len"
proof -
  have len: "0 \<le> uint len" "uint len < 2 ^ 64" using unsigned_less [of len] by simp_all
  have "uint (68 + len) = (68 + uint len) mod 2 ^ 64" by (simp add: uint_word_ariths)
  then have "sint (68 + len) = ((68 + uint len) mod 2 ^ 64 + 2 ^ 63) mod 2 ^ 64 - 2 ^ 63"
    by (simp only: sint_u64)
  also have "\<dots> = (uint len + (68 + 2 ^ 63)) mod 2 ^ 64 - 2 ^ 63"
    unfolding mod_add_left_eq by (simp add: algebra_simps)
  also have "\<dots> < 68 \<longleftrightarrow> 2 ^ 63 - 68 \<le> uint len"
  proof (cases "uint len < 2 ^ 63 - 68")
    case True
    then have "(uint len + (68 + 2 ^ 63)) mod 2 ^ 64 = uint len + (68 + 2 ^ 63)"
      using len by (intro mod_pos_pos_trivial) simp_all
    with True len show ?thesis by simp
  next
    case False
    then have "(uint len + (68 + 2 ^ 63)) mod 2 ^ 64 = (uint len + (68 + 2 ^ 63) - 2 ^ 64) mod 2 ^ 64"
      by (metis minus_mod_self2)
    also have "\<dots> = uint len + (68 + 2 ^ 63) - 2 ^ 64"
      using False len by (intro mod_pos_pos_trivial) simp_all
    finally show ?thesis using False len by simp
  qed
  finally show ?thesis .
qed

text \<open>The part of the reader behind its guards, as one condition.\<close>

lemma decode_header:
  assumes "length selector = 4" and "selector \<in> set selectors" and "s \<noteq> []"
    and "length s < 2 ^ 63 - 68"
  shows "decodeSingleStringCall (selector @ word32 32 @ word32 (of_nat (length s)) @ padded s) selectors
       = (let name = TrimSpace s in if name = [] then Inl ErrInvalidUNSCall else Inr name)"
proof -
  define data where "data = selector @ word32 32 @ word32 (of_nat (length s)) @ padded s"
  have off: "Uint64_at 28 data = 32"
    unfolding data_def using assms(1) by (intro Uint64_at_word32) simp
  have len: "Uint64_at 60 data = of_nat (length s)"
    using Uint64_at_word32 [of "selector @ word32 32" 60 "of_nat (length s)" "padded s"] assms(1)
    by (simp add: data_def)
  have nz: "(of_nat (length s) :: 64 word) \<noteq> 0"
    using assms(3,4) unat_u64_small [of "length s"] by auto
  have "sint (68 + of_nat (length s) :: 64 word) = sint (of_nat (68 + length s) :: 64 word)" by simp
  also have "\<dots> = int (68 + length s)" by (rule sint_small) (use assms(4) in simp)
  finally have stop: "sint (68 + of_nat (length s) :: 64 word) = 68 + int (length s)" by simp
  have size: "68 + length s \<le> length data" using assms(1) length_padded [of s] by (simp add: data_def)
  have body: "take (length s) (drop 68 data) = s" using assms(1) padded_prefix [of s] by (simp add: data_def)
  have sel: "list_ex (\<lambda>candidate. take 4 data = candidate) selectors"
    using assms(1,2) by (auto simp: data_def list_ex_iff)
  have "decodeSingleStringCall data selectors
      = (let name = TrimSpace s in if name = [] then Inl ErrInvalidUNSCall else Inr name)"
    using off len nz stop size body sel by (simp add: decodeSingleStringCall_def Let_def)
  then show ?thesis by (simp add: data_def)
qed

interpretation call_data: codec "encodeSingleStringCall selector"
    "\<lambda>r. case r of Inl e \<Rightarrow> Inl e | Inr data \<Rightarrow> decodeSingleStringCall data selectors"
    Inr
    "\<lambda>s. TrimSpace s = s \<and> s \<noteq> [] \<and> length s < 2 ^ 63 - 68 \<and> length selector = 4 \<and> selector \<in> set selectors"
  for selector selectors
  by unfold_locales (auto simp: encodeSingleStringCall_def decode_header)

section \<open>Properties\<close>

text \<open>
  Every non-blank argument survives the trip through call data: a reader that accepts
  the writer's selector returns the trimmed text, and two arguments with the same call data
  are the same up to surrounding white space.
\<close>

theorem call_data_round_trip:
  assumes "encodeSingleStringCall selector value = Inr data"
    and "length selector = 4" and "selector \<in> set selectors" and "length value < 2 ^ 63 - 68"
  shows "decodeSingleStringCall data selectors = Inr (TrimSpace value)"
proof -
  have "encodeSingleStringCall selector (TrimSpace value) = Inr data" and "TrimSpace value \<noteq> []"
    using assms(1) by (auto simp: encodeSingleStringCall_def Let_def split: if_splits)
  then show ?thesis
    using call_data.dec_enc [where x = "TrimSpace value" and selector = selector and selectors = selectors]
      assms(2-4) TrimSpace_length [of "value"]
    by simp
qed

theorem call_data_round_trip_witness:
  "decodeSingleStringCall (''abcd'' @ word32 32 @ word32 3 @ padded ''foo'') [''abcd''] = Inr ''foo''"
proof -
  have t: "TrimSpace ''foo'' = ''foo''" by (rule TrimSpace_visible) (simp add: visible_def byte_def)
  then have "encodeSingleStringCall ''abcd'' ''foo'' = Inr (''abcd'' @ word32 32 @ word32 3 @ padded ''foo'')"
    by (simp add: encodeSingleStringCall_def)
  then show ?thesis
    using call_data_round_trip [of "''abcd''" "''foo''" _ "[''abcd'']"] t by simp
qed

text \<open>
  What the call-data reader does on arbitrary input. It never reads past the data, a
  returned text is trimmed and non-empty, and it panics exactly on a well-formed header
  whose length field overflows a signed 64-bit position.
\<close>

theorem decodeSingleStringCall_total:
  "(case decodeSingleStringCall data selectors of
      Inr name \<Rightarrow> name \<noteq> [] \<and> TrimSpace name = name \<and> 68 + length name \<le> length data
                  \<and> take 4 data \<in> set selectors
    | Inl e \<Rightarrow> e = ErrInvalidUNSCall \<or> e = GoPanic)
   \<and> (decodeSingleStringCall data selectors = Inl GoPanic
      \<longleftrightarrow> 68 \<le> length data \<and> take 4 data \<in> set selectors \<and> Uint64_at 28 data = 32
          \<and> 2 ^ 63 - 68 \<le> uint (Uint64_at 60 data))"
proof -
  have len: "68 + length (TrimSpace (take n (drop 68 data))) \<le> length data" if "68 \<le> length data" for n
    using that TrimSpace_length [of "take n (drop 68 data)"] by auto
  have neg: "2 ^ 63 - 68 \<le> uint w \<Longrightarrow> sint (68 + w) \<le> int (length data) \<and> w \<noteq> 0" if "68 \<le> length data" for w :: u64
    using that stop_before_start [of w] by auto
  show ?thesis
    using len neg [of "Uint64_at 60 data"] stop_before_start [of "Uint64_at 60 data"]
    by (auto simp: decodeSingleStringCall_def Let_def list_ex_iff not_less)
qed

end
