(* ===== verification/Contracts.thy ===== *)
theory Contracts
  imports Abi
begin

text \<open>
  System and user contracts: \<open>src/core/native_contracts.go\<close>,
  \<open>src/core/system_contracts.go\<close>, \<open>src/core/user_contracts.go\<close> and the balance helpers
  of \<open>src/core/blockchain.go\<close>. A system contract is the Go struct with its two function
  fields; the registry of system contracts is a map by address. Operations that mutate the
  state in place return the new state; none of them changes it before its last guard, so an
  error leaves the state as it was.
\<close>

definition UserContractRuntimeDescriptorV1 :: string where
  "UserContractRuntimeDescriptorV1 = ''descriptor-v1''"

definition UserContractRuntimeNoteV1 :: string where
  "UserContractRuntimeNoteV1 = ''note-v1''"

definition maxUserContractCodeBytes :: nat where
  "maxUserContractCodeBytes = 131072"

record CallMessage =
  call_From :: string
  call_To :: string
  call_Data :: bytes
  call_Value :: "int option"

record systemContract =
  sc_record :: ContractRecord
  sc_call :: "StateSnapshot \<Rightarrow> CallMessage \<Rightarrow> bytes res"
  sc_execute :: "(StateSnapshot \<Rightarrow> Transaction \<Rightarrow> int \<Rightarrow> int \<Rightarrow> StateSnapshot res) option"

section \<open>Balances and terms\<close>

definition creditBalance :: "(string, int) fmap \<Rightarrow> string \<Rightarrow> int \<Rightarrow> (string, int) fmap" where
  "creditBalance balances address amount =
     (if amount = 0 then balances else fmupd address (fm_get balances 0 address + amount) balances)"

definition debitBalance :: "(string, int) fmap \<Rightarrow> string \<Rightarrow> int \<Rightarrow> (string, int) fmap" where
  "debitBalance balances address amount = fmupd address (fm_get balances 0 address - amount) balances"

definition normalizeTerm :: "env \<Rightarrow> string \<Rightarrow> string" where
  "normalizeTerm E term = (case tokenize E term of [] \<Rightarrow> [] | t # _ \<Rightarrow> t)"

definition normalizeUNSName :: "string \<Rightarrow> string" where
  "normalizeUNSName name = TrimSpace name"

section \<open>Name registry\<close>

text \<open>A nil state pointer is \<open>None\<close>.\<close>

definition mentionFrequencyFromState :: "env \<Rightarrow> StateSnapshot option \<Rightarrow> string \<Rightarrow> u64" where
  "mentionFrequencyFromState E state term =
     (case state of None \<Rightarrow> 0 | Some s \<Rightarrow> fm_get (MentionCounts s) 0 (normalizeTerm E term))"

definition UNSRegistrationPriceFromState :: "env \<Rightarrow> StateSnapshot option \<Rightarrow> string \<Rightarrow> int res" where
  "UNSRegistrationPriceFromState E state name =
     (let normalized = normalizeUNSName name in
      if normalized = [] then Inl ErrInvalidTransaction
      else
        (let base = UNSBasePrice;
             popularity = uint (mentionFrequencyFromState E state normalized) * UNSPopularityMultiplier
         in Inr (base + popularity)))"

definition executeUNSRegistration ::
    "env \<Rightarrow> StateSnapshot \<Rightarrow> Transaction \<Rightarrow> int \<Rightarrow> int \<Rightarrow> StateSnapshot res" where
  "executeUNSRegistration E state tx totalValue netValue =
     (case DecodeRegisterNameCall E (tx_Data tx) of
        Inl e \<Rightarrow> Inl e
      | Inr name \<Rightarrow>
          let normalizedName = normalizeUNSName name in
          if normalizedName = [] then Inl ErrInvalidTransaction
          else if fmlookup (Names state) normalizedName \<noteq> None then Inl ErrInvalidTransaction
          else
            (case UNSRegistrationPriceFromState E (Some state) normalizedName of
               Inl e \<Rightarrow> Inl e
             | Inr requiredPrice \<Rightarrow>
                 if totalValue \<noteq> requiredPrice then Inl ErrInvalidTransaction
                 else Inr (state\<lparr>
                        Balances := creditBalance (Balances state) UNSRegistryAddress netValue,
                        Names := fmupd normalizedName
                          \<lparr>name_Name = normalizedName, name_Owner = tx_From tx,
                           name_RegisteredAt = tx_Timestamp tx, name_TxHash = tx_Hash tx\<rparr>
                          (Names state)\<rparr>)))"

section \<open>System contracts\<close>

definition function_json :: "ContractFunction \<Rightarrow> json" where
  "function_json f =
     JObj [(''signature'', JStr (fn_Signature f)), (''selector'', JStr (fn_Selector f)),
           (''mutability'', JStr (fn_Mutability f))]"

definition buildDescriptorCode :: "env \<Rightarrow> ContractRecord \<Rightarrow> string" where
  "buildDescriptorCode E record =
     (let payload = JObj
            [(''protocol'', JStr ''UniFied/SystemContract/v1''),
             (''address'', JStr (con_Address record)), (''name'', JStr (con_Name record)),
             (''kind'', JStr (con_Kind record)), (''handler'', JStr (con_Handler record)),
             (''functions'', JArr (map function_json (con_Functions record)))]
      in ''0x'' @ hex_encode (map char_of [254, 85, 70, 73 :: nat] @ json_marshal E payload))"

definition buildSystemContractRecord ::
    "env \<Rightarrow> string \<Rightarrow> string \<Rightarrow> string \<Rightarrow> string \<Rightarrow> string \<Rightarrow> string \<Rightarrow> string \<Rightarrow> bool
     \<Rightarrow> ContractFunction list \<Rightarrow> ContractRecord" where
  "buildSystemContractRecord E address name kind handler description source storageModel executable functions =
     (let record =
            \<lparr>con_Address = TrimSpace address, con_Name = TrimSpace name, con_Kind = TrimSpace kind,
             con_Handler = TrimSpace handler, con_Code = [], con_CodeHash = [],
             con_Description = TrimSpace description, con_Owner = [], con_TxHash = [],
             con_System = True, con_Executable = executable, con_GenesisDeployed = True,
             con_DeploymentBlock = 0, con_DeploymentModel = ''native-protocol-contract'',
             con_Functions = functions, con_Source = TrimSpace source,
             con_StorageModel = TrimSpace storageModel\<rparr>;
          code = buildDescriptorCode E record
      in record\<lparr>con_Code := code, con_CodeHash := hashHex E (TrimPrefix ''0x'' code)\<rparr>)"

definition view_function :: "string \<Rightarrow> bytes \<Rightarrow> ContractFunction" where
  "view_function signature selector =
     \<lparr>fn_Signature = signature, fn_Selector = selectorHex selector, fn_Mutability = ''view''\<rparr>"

definition nonpayable_function :: "string \<Rightarrow> bytes \<Rightarrow> ContractFunction" where
  "nonpayable_function signature selector =
     \<lparr>fn_Signature = signature, fn_Selector = selectorHex selector, fn_Mutability = ''nonpayable''\<rparr>"

definition searchRecord :: "env \<Rightarrow> ContractRecord" where
  "searchRecord E =
     buildSystemContractRecord E SearchPrecompileAddress ''SearchPrecompile'' ''precompile''
       ''search-index''
       ''System search precompile exposing mention-frequency reads against the local crawl ledger.''
       ''protocol://system/search-precompile'' ''derived from search index state'' False
       [view_function ''mentionFrequency(string)'' (mentionFrequencySelector E)]"

definition unsRecord :: "env \<Rightarrow> ContractRecord" where
  "unsRecord E =
     buildSystemContractRecord E UNSRegistryAddress ''UNSRegistry'' ''system-contract''
       ''uns-registry''
       ''System UNS registry contract with popularity-based pricing and architect fee enforcement.''
       ''protocol://system/uns-registry'' ''derived from names, balances, and mention counts'' True
       [nonpayable_function ''register(string)'' (registerSelector E),
        nonpayable_function ''registerName(string)'' (registerNameSelector E),
        view_function ''registrationPrice(string)'' (registrationPriceSelector E),
        view_function ''mentionFrequency(string)'' (mentionFrequencySelector E)]"

definition search_call :: "env \<Rightarrow> StateSnapshot \<Rightarrow> CallMessage \<Rightarrow> bytes res" where
  "search_call E state call =
     (case DecodeMentionFrequencyCall E (call_Data call) of
        Inl e \<Rightarrow> Inl e
      | Inr term \<Rightarrow> Inr (padUint256 (unat (mentionFrequencyFromState E (Some state) term))))"

text \<open>
  The registry tries one reader and then the other: a decoding error falls through, but a
  panic in a reader is not caught.
\<close>

definition uns_call :: "env \<Rightarrow> StateSnapshot \<Rightarrow> CallMessage \<Rightarrow> bytes res" where
  "uns_call E state call =
     (case DecodeRegistrationPriceCall E (call_Data call) of
        Inr term \<Rightarrow>
          (case UNSRegistrationPriceFromState E (Some state) term of
             Inl priceErr \<Rightarrow> Inl priceErr
           | Inr price \<Rightarrow> Inr (padUint256 (nat price)))
      | Inl GoPanic \<Rightarrow> Inl GoPanic
      | Inl _ \<Rightarrow>
          (case DecodeMentionFrequencyCall E (call_Data call) of
             Inr term \<Rightarrow> Inr (padUint256 (unat (mentionFrequencyFromState E (Some state) term)))
           | Inl GoPanic \<Rightarrow> Inl GoPanic
           | Inl _ \<Rightarrow> Inl ErrInvalidUNSCall))"

definition buildProtocolSystemContracts :: "env \<Rightarrow> string \<Rightarrow> systemContract option" where
  "buildProtocolSystemContracts E =
     map_of
       [(con_Address (searchRecord E),
         \<lparr>sc_record = searchRecord E, sc_call = search_call E,
          sc_execute = Some (\<lambda>state tx totalValue netValue. Inl ErrNativeCallNotPayable)\<rparr>),
        (con_Address (unsRecord E),
         \<lparr>sc_record = unsRecord E, sc_call = uns_call E,
          sc_execute = Some (executeUNSRegistration E)\<rparr>)]"

definition systemContractByAddress :: "env \<Rightarrow> string \<Rightarrow> systemContract option" where
  "systemContractByAddress E address = buildProtocolSystemContracts E (TrimSpace address)"

definition IsNativeContractAddress :: "env \<Rightarrow> string \<Rightarrow> bool" where
  "IsNativeContractAddress E address \<longleftrightarrow> systemContractByAddress E address \<noteq> None"

definition SystemContractAt :: "env \<Rightarrow> string \<Rightarrow> ContractRecord option" where
  "SystemContractAt E address = map_option sc_record (systemContractByAddress E address)"

definition ListSystemContracts :: "env \<Rightarrow> ContractRecord list" where
  "ListSystemContracts E = sort_key con_Address [searchRecord E, unsRecord E]"

definition CallNativeContract :: "env \<Rightarrow> StateSnapshot option \<Rightarrow> string \<Rightarrow> bytes \<Rightarrow> bytes res" where
  "CallNativeContract E state to data =
     (case state of
        None \<Rightarrow> Inl ErrInvalidTransaction
      | Some s \<Rightarrow>
          (case systemContractByAddress E to of
             None \<Rightarrow> Inl ErrUnsupportedNativeContract
           | Some contract \<Rightarrow>
               sc_call contract s
                 \<lparr>call_From = [], call_To = TrimSpace to, call_Data = data, call_Value = None\<rparr>))"

definition ExecuteNativeTransfer ::
    "env \<Rightarrow> StateSnapshot option \<Rightarrow> Transaction \<Rightarrow> int \<Rightarrow> int \<Rightarrow> StateSnapshot res" where
  "ExecuteNativeTransfer E state tx totalValue netValue =
     (case state of
        None \<Rightarrow> Inl ErrInvalidTransaction
      | Some s \<Rightarrow>
          (case systemContractByAddress E (tx_To tx) of
             None \<Rightarrow> Inl ErrUnsupportedNativeContract
           | Some contract \<Rightarrow>
               (case sc_execute contract of
                  None \<Rightarrow> Inl ErrNativeCallNotPayable
                | Some execute \<Rightarrow> execute s tx totalValue netValue)))"

definition ExecuteReadOnlyCall :: "env \<Rightarrow> StateSnapshot option \<Rightarrow> CallMessage \<Rightarrow> bytes res" where
  "ExecuteReadOnlyCall E state call =
     (case state of
        None \<Rightarrow> Inl ErrInvalidTransaction
      | Some s \<Rightarrow>
          if cloneBigInt (call_Value call) \<noteq> 0 then Inl ErrNativeCallNotPayable
          else CallNativeContract E (Some s) (call_To call) (call_Data call))"

definition buildNativeReadOnlyCall :: "env \<Rightarrow> string \<Rightarrow> string \<Rightarrow> bytes res" where
  "buildNativeReadOnlyCall E to input =
     (if TrimSpace to = SearchPrecompileAddress then EncodeMentionFrequencyCall E input
      else if TrimSpace to = UNSRegistryAddress then EncodeRegistrationPriceCall E input
      else Inl ErrUnsupportedNativeContract)"

section \<open>User contracts\<close>

definition canonicalHexCode :: "env \<Rightarrow> string \<Rightarrow> string" where
  "canonicalHexCode E raw =
     (let cleaned = TrimSpace raw in
      if cleaned = [] then []
      else if prefix ''0x'' cleaned \<or> prefix ''0X'' cleaned
      then ''0x'' @ ToLower E (TrimPrefix ''0X'' (TrimPrefix ''0x'' cleaned))
      else ''0x'' @ ToLower E cleaned)"

definition decodeHexContractCode :: "env \<Rightarrow> string \<Rightarrow> bytes res" where
  "decodeHexContractCode E raw =
     (let cleaned = TrimSpace (TrimPrefix ''0x'' (canonicalHexCode E raw)) in
      if cleaned = [] then Inl ErrInvalidTransaction
      else if length cleaned mod 2 \<noteq> 0 then Inl ErrInvalidTransaction
      else
        (case hex_decode cleaned of
           None \<Rightarrow> Inl ErrInvalidTransaction
         | Some decoded \<Rightarrow>
             if maxUserContractCodeBytes < length decoded then Inl ErrInvalidTransaction
             else Inr decoded))"

text \<open>
  \<open>sort.Slice\<close> leaves the order of equal selectors open in general; on lists of up to
  twelve functions it is an insertion sort, which is stable, and so is the model's sort.
\<close>

definition cloneContractFunctions :: "ContractFunction list \<Rightarrow> ContractFunction list" where
  "cloneContractFunctions functions =
     sort_key fn_Selector
       (map (\<lambda>fn. fn\<lparr>fn_Signature := TrimSpace (fn_Signature fn), fn_Selector := TrimSpace (fn_Selector fn),
                      fn_Mutability := TrimSpace (fn_Mutability fn)\<rparr>) functions)"

definition normalizeContractDeploymentRequest ::
    "env \<Rightarrow> ContractDeploymentRequest \<Rightarrow> ContractDeploymentRequest res" where
  "normalizeContractDeploymentRequest E request =
     (let n0 = \<lparr>dep_Name = TrimSpace (dep_Name request),
                dep_Runtime = ToLower E (TrimSpace (dep_Runtime request)),
                dep_Description = TrimSpace (dep_Description request),
                dep_Source = TrimSpace (dep_Source request),
                dep_StorageModel = TrimSpace (dep_StorageModel request),
                dep_Code = canonicalHexCode E (dep_Code request),
                dep_Functions = cloneContractFunctions (dep_Functions request)\<rparr> in
      if dep_Name n0 = [] then Inl ErrInvalidTransaction
      else
        (let n1 = (if dep_Runtime n0 = [] then n0\<lparr>dep_Runtime := UserContractRuntimeDescriptorV1\<rparr> else n0);
             n2 = (if dep_Source n1 = [] then n1\<lparr>dep_Source := ''protocol://user-contract''\<rparr> else n1);
             typed =
               (if dep_Runtime n2 = UserContractRuntimeDescriptorV1
                then Inr (if dep_StorageModel n2 = []
                          then n2\<lparr>dep_StorageModel := ''descriptor metadata only''\<rparr> else n2)
                else if dep_Runtime n2 = UserContractRuntimeNoteV1
                then
                  (let n3 = (if dep_StorageModel n2 = []
                             then n2\<lparr>dep_StorageModel := ''single note value''\<rparr> else n2)
                   in Inr (if dep_Functions n3 = []
                           then n3\<lparr>dep_Functions :=
                                  [view_function ''note()'' (noteSelector E),
                                   nonpayable_function ''setNote(string)'' (setNoteSelector E)]\<rparr>
                           else n3))
                else Inl ErrUnsupportedUserContractRuntime)
         in (case typed of
               Inl e \<Rightarrow> Inl e
             | Inr n4 \<Rightarrow>
                 if dep_Code n4 \<noteq> []
                 then (case decodeHexContractCode E (dep_Code n4) of Inl e \<Rightarrow> Inl e | Inr _ \<Rightarrow> Inr n4)
                 else Inr n4)))"

definition deriveUserContractAddress :: "env \<Rightarrow> string \<Rightarrow> string" where
  "deriveUserContractAddress E txHash =
     ''0x'' @ hex_encode (take 20 (sha256 E (''ufi-user-contract|'' @ TrimSpace txHash)))"

definition buildUserContractDescriptorCode :: "env \<Rightarrow> ContractRecord \<Rightarrow> string" where
  "buildUserContractDescriptorCode E record =
     (let payload = JObj
            [(''protocol'', JStr ''UniFied/UserContract/v1''),
             (''address'', JStr (con_Address record)), (''name'', JStr (con_Name record)),
             (''runtime'', JStr (con_Handler record)), (''owner'', JStr (con_Owner record)),
             (''functions'', JArr (map function_json (cloneContractFunctions (con_Functions record))))]
      in ''0x'' @ hex_encode (map char_of [254, 85, 67, 84 :: nat] @ json_marshal E payload))"

definition BuildUserContractRecord ::
    "env \<Rightarrow> Transaction \<Rightarrow> ContractDeploymentRequest \<Rightarrow> ContractRecord res" where
  "BuildUserContractRecord E tx request =
     (case normalizeContractDeploymentRequest E request of
        Inl e \<Rightarrow> Inl e
      | Inr n \<Rightarrow>
          let record =
                \<lparr>con_Address = deriveUserContractAddress E (tx_Hash tx), con_Name = dep_Name n,
                 con_Kind = ''user-contract'', con_Handler = dep_Runtime n, con_Code = [],
                 con_CodeHash = [], con_Description = dep_Description n, con_Owner = tx_From tx,
                 con_TxHash = tx_Hash tx, con_System = False,
                 con_Executable = (dep_Runtime n = UserContractRuntimeNoteV1),
                 con_GenesisDeployed = False, con_DeploymentBlock = 0,
                 con_DeploymentModel = ''user-deployed-contract'',
                 con_Functions = cloneContractFunctions (dep_Functions n),
                 con_Source = dep_Source n, con_StorageModel = dep_StorageModel n\<rparr>;
              code = (if dep_Code n \<noteq> [] then dep_Code n else buildUserContractDescriptorCode E record)
          in Inr (record\<lparr>con_Code := code, con_CodeHash := hashHex E (TrimPrefix ''0x'' code)\<rparr>))"

definition ExecuteUserContractReadOnlyCall ::
    "env \<Rightarrow> StateSnapshot \<Rightarrow> ContractRecord \<Rightarrow> CallMessage \<Rightarrow> bytes res" where
  "ExecuteUserContractReadOnlyCall E state record call =
     (let handler = TrimSpace (con_Handler record) in
      if handler = UserContractRuntimeNoteV1 then
        if cloneBigInt (call_Value call) \<noteq> 0 then Inl ErrNativeCallNotPayable
        else if \<not> matchesSelector (call_Data call) (noteSelector E) then Inl ErrInvalidUserContractCall
        else Inr (encodeABIString (fm_get (ContractData state) [] (con_Address record)))
      else if handler = UserContractRuntimeDescriptorV1 then Inl ErrUnsupportedUserContractRuntime
      else Inl ErrUnsupportedUserContractRuntime)"

definition ExecuteUserContractTransfer ::
    "env \<Rightarrow> StateSnapshot \<Rightarrow> ContractRecord \<Rightarrow> Transaction \<Rightarrow> int \<Rightarrow> int \<Rightarrow> StateSnapshot res" where
  "ExecuteUserContractTransfer E state record tx totalValue netValue =
     (let handler = TrimSpace (con_Handler record) in
      if handler = UserContractRuntimeNoteV1 then
        if totalValue \<noteq> 0 then Inl ErrNativeCallNotPayable
        else
          (case decodeSingleStringCall (tx_Data tx) [setNoteSelector E] of
             Inl e \<Rightarrow> Inl e
           | Inr note \<Rightarrow>
               Inr (state\<lparr>ContractData := fmupd (con_Address record) note (ContractData state)\<rparr>))
      else if handler = UserContractRuntimeDescriptorV1 then Inl ErrUnsupportedUserContractRuntime
      else Inl ErrUnsupportedUserContractRuntime)"

section \<open>The registry of system contracts\<close>

lemma TrimSpace_system_addresses [simp]:
  "TrimSpace SearchPrecompileAddress = SearchPrecompileAddress"
  "TrimSpace UNSRegistryAddress = UNSRegistryAddress"
  by (rule TrimSpace_visible,
      simp add: SearchPrecompileAddress_def UNSRegistryAddress_def visible_def byte_def)+

lemma con_Address_system [simp]:
  "con_Address (searchRecord E) = SearchPrecompileAddress"
  "con_Address (unsRecord E) = UNSRegistryAddress"
  by (simp_all add: searchRecord_def unsRecord_def buildSystemContractRecord_def Let_def)

lemma system_addresses_distinct [simp]:
  "SearchPrecompileAddress \<noteq> UNSRegistryAddress" "UNSRegistryAddress \<noteq> SearchPrecompileAddress"
  by (simp_all add: SearchPrecompileAddress_def UNSRegistryAddress_def)

lemma systemContractByAddress_eq:
  "systemContractByAddress E a =
     (if TrimSpace a = SearchPrecompileAddress
      then Some \<lparr>sc_record = searchRecord E, sc_call = search_call E,
                 sc_execute = Some (\<lambda>state tx totalValue netValue. Inl ErrNativeCallNotPayable)\<rparr>
      else if TrimSpace a = UNSRegistryAddress
      then Some \<lparr>sc_record = unsRecord E, sc_call = uns_call E, sc_execute = Some (executeUNSRegistration E)\<rparr>
      else None)"
  by (simp add: systemContractByAddress_def buildProtocolSystemContracts_def)

lemma IsNative_iff:
  "IsNativeContractAddress E a \<longleftrightarrow> TrimSpace a = SearchPrecompileAddress \<or> TrimSpace a = UNSRegistryAddress"
  by (simp add: IsNativeContractAddress_def systemContractByAddress_eq)

section \<open>Balance arithmetic\<close>

lemma fm_get_credit [state_simps]:
  "fm_get (creditBalance b a x) 0 k = fm_get b 0 k + (if k = a then x else 0)"
  by (simp add: creditBalance_def)

lemma fm_get_debit [state_simps]:
  "fm_get (debitBalance b a x) 0 k = fm_get b 0 k - (if k = a then x else 0)"
  by (simp add: debitBalance_def)

abbreviation total :: "(string, int) fmap \<Rightarrow> int" where
  "total b \<equiv> fm_sum (\<lambda>x. x) b"

lemma total_credit [state_simps]: "total (creditBalance b a x) = total b + x"
  by (simp add: creditBalance_def fm_sum_upd fm_weight_id)

lemma total_debit [state_simps]: "total (debitBalance b a x) = total b - x"
  by (simp add: debitBalance_def fm_sum_upd fm_weight_id)

end
