(* ===== verification/Ledger.thy ===== *)
theory Ledger
  imports Contracts
begin

text \<open>
  Transactions: hashing, signatures, normalisation and their application to a state
  (\<open>src/core/blockchain.go\<close>). \<open>ApplyTransactionWithArchitect\<close> mutates the state it is
  given before its last checks, so the model returns the state with the result: after an
  error it is the partially updated one. The callers work on a clone and drop it on error;
  \<open>apply_tx\<close> is that use.
\<close>

definition SearchEscrowAddress :: string where
  "SearchEscrowAddress = ''UFI_SEARCH_ESCROW''"

definition ed25519_PublicKeySize :: nat where
  "ed25519_PublicKeySize = 32"

definition ed25519_SignatureSize :: nat where
  "ed25519_SignatureSize = 64"

section \<open>Payloads and hashes\<close>

text \<open>A field with \<open>omitempty\<close> is left out when it is empty.\<close>

definition opt_str :: "string \<Rightarrow> string \<Rightarrow> (string \<times> json) list" where
  "opt_str k v = (if v = [] then [] else [(k, JStr v)])"

definition opt_bytes :: "string \<Rightarrow> bytes \<Rightarrow> (string \<times> json) list" where
  "opt_bytes k v = (if v = [] then [] else [(k, JBytes v)])"

definition signing_fields :: "Transaction \<Rightarrow> (string \<times> json) list" where
  "signing_fields tx =
     [(''type'', JStr (tx_Type tx)), (''from'', JStr (tx_From tx))] @ opt_str ''to'' (tx_To tx)
     @ [(''value'', JStr (tx_Value tx)), (''nonce'', JUint (tx_Nonce tx)),
        (''timestamp'', JTime (tx_Timestamp tx))]
     @ opt_bytes ''data'' (tx_Data tx) @ opt_bytes ''publicKey'' (tx_PublicKey tx)"

definition signingPayload :: "env \<Rightarrow> Transaction \<Rightarrow> bytes" where
  "signingPayload E tx = json_marshal E (JObj (signing_fields tx))"

definition computeTransactionHash :: "env \<Rightarrow> Transaction \<Rightarrow> string" where
  "computeTransactionHash E tx =
     hex_encode (sha256 E (json_marshal E
       (JObj (signing_fields tx @ opt_bytes ''signature'' (tx_Signature tx)))))"

definition normalizeTransaction :: "env \<Rightarrow> Transaction \<Rightarrow> Transaction" where
  "normalizeTransaction E tx =
     (let n = tx\<lparr>tx_From := TrimSpace (tx_From tx), tx_To := TrimSpace (tx_To tx),
                  tx_Timestamp := (if tx_Timestamp tx = 0 then now E else tx_Timestamp tx)\<rparr>
      in n\<lparr>tx_Hash := computeTransactionHash E n\<rparr>)"

section \<open>Validation\<close>

definition normalizedArchitectAddress :: "string \<Rightarrow> string" where
  "normalizedArchitectAddress address =
     (let cleaned = TrimSpace address in if cleaned = [] then GenesisArchitectAddress else cleaned)"

definition validateNonSystemAddressWithArchitect :: "env \<Rightarrow> string \<Rightarrow> string \<Rightarrow> unit res" where
  "validateNonSystemAddressWithArchitect E address architectAddress =
     (let cleaned = TrimSpace address in
      if cleaned = [] then Inl ErrInvalidTransaction
      else if cleaned = normalizedArchitectAddress architectAddress
          \<or> cleaned = GenesisArchitectAddress \<or> cleaned = SearchEscrowAddress
          \<or> cleaned = UNSRegistryAddress
      then Inr ()
      else (case ParseAddress E cleaned of Inl e \<Rightarrow> Inl e | Inr _ \<Rightarrow> Inr ()))"

definition validateNonSystemAddress :: "env \<Rightarrow> string \<Rightarrow> unit res" where
  "validateNonSystemAddress E address =
     validateNonSystemAddressWithArchitect E address GenesisArchitectAddress"

definition ValidateSignature :: "env \<Rightarrow> Transaction \<Rightarrow> unit res" where
  "ValidateSignature E tx =
     (if tx_Type tx \<noteq> TxTypeTransfer \<and> tx_Type tx \<noteq> TxTypeSearchTask \<and> tx_Type tx \<noteq> TxTypeContractDeploy
      then Inl ErrInvalidTransaction
      else
        (case validateNonSystemAddress E (tx_From tx) of
           Inl e \<Rightarrow> Inl e
         | Inr _ \<Rightarrow>
             if length (tx_PublicKey tx) \<noteq> ed25519_PublicKeySize
                \<or> length (tx_Signature tx) \<noteq> ed25519_SignatureSize
             then Inl ErrInvalidSignature
             else
               (case NewAddressFromPubKey E (tx_PublicKey tx) of
                  Inl e \<Rightarrow> Inl e
                | Inr derived \<Rightarrow>
                    if Address_String E derived \<noteq> tx_From tx then Inl ErrInvalidSignature
                    else if \<not> ed25519_verify E (tx_PublicKey tx) (signingPayload E tx) (tx_Signature tx)
                    then Inl ErrInvalidSignature
                    else if tx_Hash tx \<noteq> computeTransactionHash E tx then Inl ErrInvalidTransaction
                    else Inr ())))"

definition ValueBig :: "Transaction \<Rightarrow> int res" where
  "ValueBig tx =
     (case SetString (TrimSpace (tx_Value tx)) of
        None \<Rightarrow> Inl ErrInvalidTransaction
      | Some v \<Rightarrow> Inr v)"

text \<open>The methods \<open>SearchTaskRequest\<close> and \<open>ContractDeploymentRequest\<close> of a transaction.\<close>

definition tx_SearchTaskRequest :: "env \<Rightarrow> Transaction \<Rightarrow> SearchTaskRequest res" where
  "tx_SearchTaskRequest E tx =
     (if tx_Type tx \<noteq> TxTypeSearchTask then Inl ErrInvalidTransaction
      else if tx_Data tx = [] then Inl ErrInvalidTransaction
      else
        (case unmarshal_task E (tx_Data tx) of
           None \<Rightarrow> Inl (ErrLib ''json'')
         | Some request \<Rightarrow>
             if TrimSpace (req_Query request) = [] \<or> TrimSpace (req_URL request) = []
             then Inl ErrInvalidTransaction
             else if SetString (TrimSpace (req_BaseBounty request)) = None
             then Inl ErrInvalidTransaction
             else Inr request))"

definition tx_ContractDeploymentRequest :: "env \<Rightarrow> Transaction \<Rightarrow> ContractDeploymentRequest res" where
  "tx_ContractDeploymentRequest E tx =
     (if tx_Type tx \<noteq> TxTypeContractDeploy then Inl ErrInvalidTransaction
      else if tx_Data tx = [] then Inl ErrInvalidTransaction
      else
        (case unmarshal_deployment E (tx_Data tx) of
           None \<Rightarrow> Inl (ErrLib ''json'')
         | Some request \<Rightarrow> normalizeContractDeploymentRequest E request))"

section \<open>Application\<close>

definition contract_address_at :: "StateSnapshot \<Rightarrow> string \<Rightarrow> string" where
  "contract_address_at state address =
     (case fmlookup (Contracts state) address of None \<Rightarrow> [] | Some c \<Rightarrow> con_Address c)"

text \<open>The guards before the first mutation; on success the parsed value.\<close>

definition check_transaction :: "env \<Rightarrow> StateSnapshot \<Rightarrow> Transaction \<Rightarrow> int res" where
  "check_transaction E state normalized =
     (case ValidateSignature E normalized of
        Inl e \<Rightarrow> Inl e
      | Inr _ \<Rightarrow>
          (case ValueBig normalized of
             Inl e \<Rightarrow> Inl e
           | Inr v \<Rightarrow>
               let allowZeroValueTransfer =
                     tx_Type normalized = TxTypeTransfer \<and> tx_Data normalized \<noteq> []
                     \<and> (IsNativeContractAddress E (tx_To normalized)
                        \<or> contract_address_at state (TrimSpace (tx_To normalized)) \<noteq> [])
               in if tx_Type normalized = TxTypeContractDeploy \<and> v < 0 then Inl ErrInvalidTransaction
                  else if tx_Type normalized \<noteq> TxTypeContractDeploy \<and> v \<le> 0 \<and> \<not> allowZeroValueTransfer
                  then Inl ErrInvalidTransaction
                  else if tx_Nonce normalized \<noteq> fm_get (Nonces state) 0 (tx_From normalized)
                  then Inl ErrInvalidNonce
                  else if fm_get (Balances state) 0 (tx_From normalized) < v
                  then Inl ErrInsufficientBalance
                  else Inr v))"

text \<open>The three branches of the \<open>switch\<close>, on the state after debit, fee and nonce.\<close>

definition apply_transfer ::
    "env \<Rightarrow> StateSnapshot \<Rightarrow> Transaction \<Rightarrow> int \<Rightarrow> int \<Rightarrow> string \<Rightarrow> StateSnapshot res" where
  "apply_transfer E state tx v net architectAddress =
     (if IsNativeContractAddress E (tx_To tx) then ExecuteNativeTransfer E (Some state) tx v net
      else
        (case fmlookup (Contracts state) (tx_To tx) of
           Some contract \<Rightarrow> ExecuteUserContractTransfer E state contract tx v net
         | None \<Rightarrow>
             (case validateNonSystemAddressWithArchitect E (tx_To tx) architectAddress of
                Inl e \<Rightarrow> Inl e
              | Inr _ \<Rightarrow> Inr (state\<lparr>Balances := creditBalance (Balances state) (tx_To tx) net\<rparr>))))"

definition new_search_task ::
    "Transaction \<Rightarrow> SearchTaskRequest \<Rightarrow> int \<Rightarrow> int \<Rightarrow> int \<Rightarrow> SearchTaskRecord" where
  "new_search_task tx request v fee net =
     \<lparr>task_ID = tx_Hash tx, task_TxHash = tx_Hash tx, task_Submitter = tx_From tx,
      task_Query = req_Query request, task_URL = req_URL request,
      task_BaseBounty = req_BaseBounty request, task_GrossBounty = show_int v,
      task_ArchitectFee = show_int fee, task_MinerReward = show_int net,
      task_Difficulty = req_Difficulty request, task_DataVolumeBytes = req_DataVolumeBytes request,
      task_CreatedAt = tx_Timestamp tx, task_Autonomous = False, task_ParentTaskID = [],
      task_Depth = 0, task_Completed = False, task_CompletedAt = 0, task_ProofHash = [],
      task_MinedBy = []\<rparr>"

definition apply_search_task ::
    "env \<Rightarrow> StateSnapshot \<Rightarrow> Transaction \<Rightarrow> int \<Rightarrow> int \<Rightarrow> int \<Rightarrow> (StateSnapshot \<times> SearchTaskRecord) res" where
  "apply_search_task E state tx v fee net =
     (case tx_SearchTaskRequest E tx of
        Inl e \<Rightarrow> Inl e
      | Inr request \<Rightarrow>
          let record = new_search_task tx request v fee net
          in Inr (state\<lparr>Balances := creditBalance (Balances state) SearchEscrowAddress net,
                        PendingTasks := fmupd (task_ID record) record (PendingTasks state)\<rparr>, record))"

definition apply_contract_deploy ::
    "env \<Rightarrow> StateSnapshot \<Rightarrow> Transaction \<Rightarrow> (StateSnapshot \<times> ContractRecord) res" where
  "apply_contract_deploy E state tx =
     (case tx_ContractDeploymentRequest E tx of
        Inl e \<Rightarrow> Inl e
      | Inr request \<Rightarrow>
          (case BuildUserContractRecord E tx request of
             Inl e \<Rightarrow> Inl e
           | Inr record \<Rightarrow>
               if tx_To tx \<noteq> [] \<or> con_Address record = [] then Inl ErrInvalidTransaction
               else if IsNativeContractAddress E (con_Address record) then Inl ErrInvalidTransaction
               else if fmlookup (Contracts state) (con_Address record) \<noteq> None
               then Inl ErrInvalidTransaction
               else
                 (let s1 = state\<lparr>Contracts := fmupd (con_Address record) record (Contracts state)\<rparr>;
                      s2 = (if con_Handler record = UserContractRuntimeNoteV1
                            then s1\<lparr>ContractData := fmupd (con_Address record) [] (ContractData s1)\<rparr>
                            else s1)
                  in Inr (s2, record))))"

definition charge_sender ::
    "StateSnapshot \<Rightarrow> Transaction \<Rightarrow> int \<Rightarrow> int \<Rightarrow> string \<Rightarrow> StateSnapshot" where
  "charge_sender state tx v fee architect =
     state\<lparr>Balances := creditBalance (debitBalance (Balances state) (tx_From tx) v) architect fee,
           Nonces := fmupd (tx_From tx) (tx_Nonce tx + 1) (Nonces state)\<rparr>"

definition ApplyTransactionWithArchitect ::
    "env \<Rightarrow> StateSnapshot \<Rightarrow> Transaction \<Rightarrow> string \<Rightarrow> StateSnapshot \<times> AppliedTransaction res" where
  "ApplyTransactionWithArchitect E state tx architectAddress =
     (let normalized = normalizeTransaction E tx in
      case check_transaction E state normalized of
        Inl e \<Rightarrow> (state, Inl e)
      | Inr v \<Rightarrow>
          let fee = ArchitectFee (Some v);
              net = v - fee;
              architect = normalizedArchitectAddress architectAddress;
              charged = charge_sender state normalized v fee architect;
              result = \<lparr>app_Transaction = normalized, app_ArchitectFee = fee, app_NetValue = net,
                        app_Task = None, app_Contract = None\<rparr>
          in if tx_Type normalized = TxTypeTransfer then
               (case apply_transfer E charged normalized v net architect of
                  Inl e \<Rightarrow> (charged, Inl e)
                | Inr s \<Rightarrow> (s, Inr result))
             else if tx_Type normalized = TxTypeSearchTask then
               (case apply_search_task E charged normalized v fee net of
                  Inl e \<Rightarrow> (charged, Inl e)
                | Inr (s, record) \<Rightarrow> (s, Inr (result\<lparr>app_Task := Some record\<rparr>)))
             else if tx_Type normalized = TxTypeContractDeploy then
               (case apply_contract_deploy E charged normalized of
                  Inl e \<Rightarrow> (charged, Inl e)
                | Inr (s, record) \<Rightarrow> (s, Inr (result\<lparr>app_Contract := Some record\<rparr>)))
             else (charged, Inl ErrInvalidTransaction))"

definition ApplyTransaction :: "env \<Rightarrow> StateSnapshot \<Rightarrow> Transaction \<Rightarrow> StateSnapshot \<times> AppliedTransaction res" where
  "ApplyTransaction E state tx = ApplyTransactionWithArchitect E state tx GenesisArchitectAddress"

text \<open>The use every caller makes: apply to a clone, keep the clone only on success.\<close>

definition apply_tx :: "env \<Rightarrow> string \<Rightarrow> StateSnapshot \<Rightarrow> Transaction \<Rightarrow> (StateSnapshot \<times> AppliedTransaction) res" where
  "apply_tx E architect state tx =
     (case ApplyTransactionWithArchitect E state tx architect of
        (s, Inr a) \<Rightarrow> Inr (s, a)
      | (_, Inl e) \<Rightarrow> Inl e)"

section \<open>What an application changes\<close>

text \<open>
  The shape of a successful application: the guards held, and the state is the charged
  state with the effect of the transaction's type.
\<close>

lemma ValidateSignature_From:
  assumes "ValidateSignature E tx = Inr u"
  obtains a where "tx_From tx = Address_String E a" and "wf_address a"
  using assms NewAddressFromPubKey_wf
  by (force simp: ValidateSignature_def split: if_splits sum.splits)

lemma check_transaction_Inr:
  assumes "check_transaction E st tx = Inr v"
  shows "ValidateSignature E tx = Inr ()" and "ValueBig tx = Inr v"
    and "tx_Nonce tx = fm_get (Nonces st) 0 (tx_From tx)"
    and "v \<le> fm_get (Balances st) 0 (tx_From tx)"
    and "tx_Type tx = TxTypeContractDeploy \<Longrightarrow> 0 \<le> v"
    and "tx_Type tx \<noteq> TxTypeContractDeploy \<Longrightarrow> v \<le> 0 \<Longrightarrow>
           tx_Type tx = TxTypeTransfer \<and> tx_Data tx \<noteq> []
           \<and> (IsNativeContractAddress E (tx_To tx) \<or> contract_address_at st (TrimSpace (tx_To tx)) \<noteq> [])"
  using assms
  by (auto simp: check_transaction_def Let_def split: if_splits sum.splits)

lemma ValidateSignature_type:
  "ValidateSignature E tx = Inr u \<Longrightarrow>
     tx_Type tx = TxTypeTransfer \<or> tx_Type tx = TxTypeSearchTask \<or> tx_Type tx = TxTypeContractDeploy"
  by (auto simp: ValidateSignature_def split: if_splits)

lemma tx_types_distinct [simp]:
  "TxTypeTransfer \<noteq> TxTypeSearchTask" "TxTypeTransfer \<noteq> TxTypeContractDeploy"
  "TxTypeSearchTask \<noteq> TxTypeTransfer" "TxTypeSearchTask \<noteq> TxTypeContractDeploy"
  "TxTypeContractDeploy \<noteq> TxTypeTransfer" "TxTypeContractDeploy \<noteq> TxTypeSearchTask"
  by (simp_all add: TxTypeTransfer_def TxTypeSearchTask_def TxTypeContractDeploy_def)

lemma apply_tx_cases:
  assumes "apply_tx E architect st tx = Inr (st', a)"
  obtains n v charged
  where "n = normalizeTransaction E tx" and "check_transaction E st n = Inr v"
    and "app_Transaction a = n" and "app_ArchitectFee a = ArchitectFee (Some v)"
    and "app_NetValue a = v - ArchitectFee (Some v)"
    and "charged = charge_sender st n v (ArchitectFee (Some v)) (normalizedArchitectAddress architect)"
    and "tx_Type n = TxTypeTransfer \<and>
           apply_transfer E charged n v (v - ArchitectFee (Some v)) (normalizedArchitectAddress architect) = Inr st'
         \<or> tx_Type n = TxTypeSearchTask \<and> (\<exists>r.
           apply_search_task E charged n v (ArchitectFee (Some v)) (v - ArchitectFee (Some v)) = Inr (st', r))
         \<or> tx_Type n = TxTypeContractDeploy \<and> (\<exists>r. apply_contract_deploy E charged n = Inr (st', r))"
proof (cases "check_transaction E st (normalizeTransaction E tx)")
  case (Inl e)
  then show ?thesis
    using assms by (simp add: apply_tx_def ApplyTransactionWithArchitect_def Let_def)
next
  case (Inr v)
  show ?thesis
    by (rule that [OF refl Inr _ _ _ refl])
      (use assms Inr in \<open>auto simp: apply_tx_def ApplyTransactionWithArchitect_def Let_def
         split: if_splits sum.splits prod.splits\<close>)
qed

section \<open>System addresses\<close>

lemma base58Encode_alphabet: "c \<in> set (base58Encode bs) \<Longrightarrow> c \<in> set base58Alphabet"
  using to_base_less [of 58]
  by (cases "bs = []")
    (auto simp: base58Encode_digits base58Encode_def [of "[]"] b58_def length_base58Alphabet)

lemma Address_String_no_underscore: "CHR ''_'' \<notin> set (Address_String E a)"
proof -
  have "CHR ''_'' \<notin> set base58Alphabet" by (simp add: base58Alphabet_def)
  then show ?thesis
    using base58Encode_alphabet by (auto simp: Address_String_def UFIPrefix_def)
qed

lemma sender_not_escrow:
  assumes "ValidateSignature E tx = Inr u"
  shows "tx_From tx \<noteq> SearchEscrowAddress"
proof -
  obtain a where "tx_From tx = Address_String E a"
    using assms by (rule ValidateSignature_From)
  then have "CHR ''_'' \<notin> set (tx_From tx)" by (simp add: Address_String_no_underscore)
  moreover have "CHR ''_'' \<in> set SearchEscrowAddress" by (simp add: SearchEscrowAddress_def)
  ultimately show ?thesis by metis
qed

lemma TrimSpace_ledger_addresses [simp]:
  "TrimSpace SearchEscrowAddress = SearchEscrowAddress"
  "TrimSpace GenesisArchitectAddress = GenesisArchitectAddress"
  by (rule TrimSpace_visible,
      simp add: SearchEscrowAddress_def GenesisArchitectAddress_def visible_def byte_def)+

section \<open>The ledger invariant\<close>

text \<open>
  What the escrow owes: the miner reward of every task not yet completed. A reward is
  stored as decimal text.
\<close>

definition task_owed :: "SearchTaskRecord \<Rightarrow> int" where
  "task_owed t =
     (if task_Completed t then 0
      else (case SetString (task_MinerReward t) of None \<Rightarrow> 0 | Some r \<Rightarrow> r))"

definition obligations :: "StateSnapshot \<Rightarrow> int" where
  "obligations st = fm_sum task_owed (PendingTasks st)"

definition total_supply :: "StateSnapshot \<Rightarrow> int" where
  "total_supply st = total (Balances st)"

definition task_ok :: "SearchTaskRecord \<Rightarrow> bool" where
  "task_ok t \<longleftrightarrow>
     (\<exists>g f r. task_GrossBounty t = show_int g \<and> task_ArchitectFee t = show_int f
        \<and> task_MinerReward t = show_int r \<and> 0 \<le> f \<and> 0 \<le> r \<and> f + r = g)"

definition ledger_inv :: "StateSnapshot \<Rightarrow> bool" where
  "ledger_inv st \<longleftrightarrow>
     (\<forall>a. 0 \<le> fm_get (Balances st) 0 a)
     \<and> (\<forall>k t. fmlookup (PendingTasks st) k = Some t \<longrightarrow> task_ID t = k \<and> task_ok t)
     \<and> obligations st \<le> fm_get (Balances st) 0 SearchEscrowAddress"

lemma task_owed_nonneg: "task_ok t \<Longrightarrow> 0 \<le> task_owed t"
  by (auto simp: task_ok_def task_owed_def)

lemma new_search_task_ok:
  "0 \<le> v \<Longrightarrow> task_ok (new_search_task tx r v (ArchitectFee (Some v)) (v - ArchitectFee (Some v)))"
  using ArchitectFee_le [of v] by (force simp: new_search_task_def task_ok_def)

lemma new_search_task_owed: "task_owed (new_search_task tx r v fee net) = net"
  by (simp add: new_search_task_def task_owed_def)

lemma owed_weight_nonneg: "ledger_inv st \<Longrightarrow> 0 \<le> fm_weight task_owed (PendingTasks st) k"
  by (auto simp: ledger_inv_def fm_weight_def task_owed_nonneg split: option.splits)

section \<open>Effects by transaction type\<close>

lemma apply_transfer_effect:
  assumes "apply_transfer E st tx v net architect = Inr st'" and "v = 0 \<Longrightarrow> net = 0"
  shows "Balances st' = creditBalance (Balances st)
           (if IsNativeContractAddress E (tx_To tx) then UNSRegistryAddress else tx_To tx) net"
    and "PendingTasks st' = PendingTasks st" and "Nonces st' = Nonces st"
    and "IsNativeContractAddress E (tx_To tx) \<or> fmlookup (Contracts st) (tx_To tx) \<noteq> None \<Longrightarrow> 0 \<le> v"
proof -
  have zero: "creditBalance b d 0 = b" for b d by (simp add: creditBalance_def)
  show "Balances st' = creditBalance (Balances st)
           (if IsNativeContractAddress E (tx_To tx) then UNSRegistryAddress else tx_To tx) net"
    using assms
    by (auto simp: zero IsNative_iff apply_transfer_def ExecuteNativeTransfer_def systemContractByAddress_eq
        executeUNSRegistration_def ExecuteUserContractTransfer_def Let_def
        split: if_splits option.splits sum.splits)
  show "PendingTasks st' = PendingTasks st" and "Nonces st' = Nonces st"
    using assms(1)
    by (auto simp: apply_transfer_def ExecuteNativeTransfer_def systemContractByAddress_eq
        executeUNSRegistration_def ExecuteUserContractTransfer_def Let_def
        split: if_splits option.splits sum.splits)
  show "0 \<le> v" if "IsNativeContractAddress E (tx_To tx) \<or> fmlookup (Contracts st) (tx_To tx) \<noteq> None"
    using assms(1) that
    by (auto simp: apply_transfer_def ExecuteNativeTransfer_def systemContractByAddress_eq
        executeUNSRegistration_def ExecuteUserContractTransfer_def Let_def UNSRegistrationPriceFromState_def
        UNSBasePrice_def UNSPopularityMultiplier_def
        split: if_splits option.splits sum.splits)
qed

lemma apply_search_task_effect:
  assumes "apply_search_task E st tx v fee net = Inr (st', r)"
  obtains request where "tx_SearchTaskRequest E tx = Inr request" and "r = new_search_task tx request v fee net"
    and "st' = st\<lparr>Balances := creditBalance (Balances st) SearchEscrowAddress net,
                   PendingTasks := fmupd (tx_Hash tx) r (PendingTasks st)\<rparr>"
  using assms
  by (auto simp: apply_search_task_def Let_def new_search_task_def split: sum.splits)

lemma apply_contract_deploy_effect:
  assumes "apply_contract_deploy E st tx = Inr (st', r)"
  shows "Balances st' = Balances st" and "PendingTasks st' = PendingTasks st"
    and "Nonces st' = Nonces st"
    and "fmlookup (Contracts st) (con_Address r) = None"
    and "Contracts st' = fmupd (con_Address r) r (Contracts st)"
  using assms
  by (auto simp: apply_contract_deploy_def Let_def split: sum.splits if_splits)

lemma charge_sender_simps [simp]:
  "Balances (charge_sender st tx v fee a) = creditBalance (debitBalance (Balances st) (tx_From tx) v) a fee"
  "Nonces (charge_sender st tx v fee a) = fmupd (tx_From tx) (tx_Nonce tx + 1) (Nonces st)"
  "PendingTasks (charge_sender st tx v fee a) = PendingTasks st"
  "Contracts (charge_sender st tx v fee a) = Contracts st"
  "Names (charge_sender st tx v fee a) = Names st"
  "SearchIndex (charge_sender st tx v fee a) = SearchIndex st"
  by (simp_all add: charge_sender_def)

lemma normalizeTransaction_simps [simp]:
  "tx_From (normalizeTransaction E tx) = TrimSpace (tx_From tx)"
  "tx_To (normalizeTransaction E tx) = TrimSpace (tx_To tx)"
  "tx_Nonce (normalizeTransaction E tx) = tx_Nonce tx"
  "tx_Value (normalizeTransaction E tx) = tx_Value tx"
  "tx_Type (normalizeTransaction E tx) = tx_Type tx"
  "tx_Data (normalizeTransaction E tx) = tx_Data tx"
  "tx_PublicKey (normalizeTransaction E tx) = tx_PublicKey tx"
  "tx_Signature (normalizeTransaction E tx) = tx_Signature tx"
  by (simp_all add: normalizeTransaction_def Let_def)

lemma apply_tx_value_nonneg:
  assumes "apply_tx E architect st tx = Inr (st', a)"
    and "check_transaction E st (normalizeTransaction E tx) = Inr v"
  shows "0 \<le> v"
proof (rule ccontr)
  assume neg: "\<not> 0 \<le> v"
  obtain n w charged where n: "n = normalizeTransaction E tx" "check_transaction E st n = Inr w"
    "charged = charge_sender st n w (ArchitectFee (Some w)) (normalizedArchitectAddress architect)"
    "tx_Type n = TxTypeTransfer \<and>
       apply_transfer E charged n w (w - ArchitectFee (Some w)) (normalizedArchitectAddress architect) = Inr st'
     \<or> tx_Type n = TxTypeSearchTask \<and> (\<exists>r.
       apply_search_task E charged n w (ArchitectFee (Some w)) (w - ArchitectFee (Some w)) = Inr (st', r))
     \<or> tx_Type n = TxTypeContractDeploy \<and> (\<exists>r. apply_contract_deploy E charged n = Inr (st', r))"
    using assms(1) by (rule apply_tx_cases)
  have w: "w = v" using assms(2) n(1,2) by simp
  have ty: "tx_Type n = TxTypeTransfer"
    and dest: "IsNativeContractAddress E (tx_To n) \<or> contract_address_at st (TrimSpace (tx_To n)) \<noteq> []"
    using check_transaction_Inr(5,6) [OF n(2)] neg w by fastforce+
  then have "apply_transfer E charged n v (v - ArchitectFee (Some v)) (normalizedArchitectAddress architect) = Inr st'"
    using n(4) w by auto
  moreover have "IsNativeContractAddress E (tx_To n) \<or> fmlookup (Contracts charged) (tx_To n) \<noteq> None"
    using dest n(1,3) by (auto simp: contract_address_at_def split: option.splits)
  ultimately show False
    using apply_transfer_effect(4) [of E charged n v "v - ArchitectFee (Some v)" _ st'] neg by auto
qed

text \<open>Who is credited with the net value.\<close>

definition payee :: "env \<Rightarrow> Transaction \<Rightarrow> string" where
  "payee E tx =
     (if tx_Type tx = TxTypeSearchTask then SearchEscrowAddress
      else if IsNativeContractAddress E (tx_To tx) then UNSRegistryAddress
      else TrimSpace (tx_To tx))"

text \<open>
  One statement of what a successful application does to the books: the sender pays the
  value, the architect gets the fee, one account gets the net value unless a contract is
  deployed, and only the sender's nonce moves.
\<close>

lemma apply_tx_books:
  assumes "apply_tx E architect st tx = Inr (st', a)"
  obtains v net d where "0 \<le> v" and "v \<le> fm_get (Balances st) 0 (TrimSpace (tx_From tx))"
    and "TrimSpace (tx_From tx) \<noteq> SearchEscrowAddress"
    and "ValueBig (app_Transaction a) = Inr v"
    and "app_ArchitectFee a = ArchitectFee (Some v)" and "app_NetValue a = v - ArchitectFee (Some v)"
    and "net = (if tx_Type tx = TxTypeContractDeploy then 0 else app_NetValue a)"
    and "app_Transaction a = normalizeTransaction E tx"
    and "tx_Nonce tx = fm_get (Nonces st) 0 (TrimSpace (tx_From tx))"
    and "Nonces st' = fmupd (TrimSpace (tx_From tx)) (tx_Nonce tx + 1) (Nonces st)"
    and "Balances st' = creditBalance (creditBalance (debitBalance (Balances st) (TrimSpace (tx_From tx)) v)
           (normalizedArchitectAddress architect) (ArchitectFee (Some v))) d net"
    and "d = payee E tx"
    and "if tx_Type tx = TxTypeSearchTask
         then d = SearchEscrowAddress \<and> (\<exists>req. PendingTasks st' = fmupd (tx_Hash (app_Transaction a))
                (new_search_task (app_Transaction a) req v (ArchitectFee (Some v)) net) (PendingTasks st))
         else PendingTasks st' = PendingTasks st"
proof -
  obtain n v charged where n: "n = normalizeTransaction E tx" "check_transaction E st n = Inr v"
    "app_Transaction a = n" "app_ArchitectFee a = ArchitectFee (Some v)"
    "app_NetValue a = v - ArchitectFee (Some v)"
    "charged = charge_sender st n v (ArchitectFee (Some v)) (normalizedArchitectAddress architect)"
    "tx_Type n = TxTypeTransfer \<and>
       apply_transfer E charged n v (v - ArchitectFee (Some v)) (normalizedArchitectAddress architect) = Inr st'
     \<or> tx_Type n = TxTypeSearchTask \<and> (\<exists>r.
       apply_search_task E charged n v (ArchitectFee (Some v)) (v - ArchitectFee (Some v)) = Inr (st', r))
     \<or> tx_Type n = TxTypeContractDeploy \<and> (\<exists>r. apply_contract_deploy E charged n = Inr (st', r))"
    using assms by (rule apply_tx_cases)
  have v: "0 \<le> v" using apply_tx_value_nonneg [OF assms] n(1,2) by simp
  note guards = check_transaction_Inr [OF n(2)]
  have escrow: "TrimSpace (tx_From tx) \<noteq> SearchEscrowAddress"
    using sender_not_escrow [OF guards(1)] n(1) by simp
  have base: "v \<le> fm_get (Balances st) 0 (TrimSpace (tx_From tx))"
    "tx_Nonce tx = fm_get (Nonces st) 0 (TrimSpace (tx_From tx))"
    "ValueBig (app_Transaction a) = Inr v"
    using guards n(1,3) by simp_all
  note common = v base(1) escrow base(3) n(4,5) refl n(3) [unfolded n(1)] base(2)
  from n(7) consider
      (transfer) "tx_Type tx = TxTypeTransfer"
        "apply_transfer E charged n v (v - ArchitectFee (Some v)) (normalizedArchitectAddress architect) = Inr st'"
    | (task) r where "tx_Type tx = TxTypeSearchTask"
        "apply_search_task E charged n v (ArchitectFee (Some v)) (v - ArchitectFee (Some v)) = Inr (st', r)"
    | (deploy) r where "tx_Type tx = TxTypeContractDeploy" "apply_contract_deploy E charged n = Inr (st', r)"
    using n(1) by auto
  then show thesis
  proof cases
    case transfer
    note eff = apply_transfer_effect [OF transfer(2)]
    with transfer eff n(1,4,5,6) show thesis
      by (intro that [OF common, of "payee E tx"]) (auto simp: payee_def IsNative_iff)
  next
    case task
    obtain req where "r = new_search_task n req v (ArchitectFee (Some v)) (v - ArchitectFee (Some v))"
      "st' = charged\<lparr>Balances := creditBalance (Balances charged) SearchEscrowAddress (v - ArchitectFee (Some v)),
                     PendingTasks := fmupd (tx_Hash n) r (PendingTasks charged)\<rparr>"
      using task(2) by (rule apply_search_task_effect)
    with task n(1,3,4,5,6) show thesis
      by (intro that [OF common, of "payee E tx"]) (auto simp: payee_def)
  next
    case deploy
    note eff = apply_contract_deploy_effect [OF deploy(2)]
    have "creditBalance b d 0 = b" for b d by (simp add: creditBalance_def)
    with deploy eff(1-3) n(1,6) show thesis by (intro that [OF common, of "payee E tx"]) auto
  qed
qed

section \<open>Invariant and supply\<close>

definition burned :: "AppliedTransaction \<Rightarrow> int" where
  "burned a = (if tx_Type (app_Transaction a) = TxTypeContractDeploy then app_NetValue a else 0)"

lemma apply_tx_inv:
  assumes inv: "ledger_inv st" and step: "apply_tx E architect st tx = Inr (st', a)"
  shows "ledger_inv st'"
proof -
  obtain v net d where v: "0 \<le> v" "v \<le> fm_get (Balances st) 0 (TrimSpace (tx_From tx))"
    and escrow: "TrimSpace (tx_From tx) \<noteq> SearchEscrowAddress"
    and net: "app_NetValue a = v - ArchitectFee (Some v)"
      "net = (if tx_Type tx = TxTypeContractDeploy then 0 else app_NetValue a)"
    and bal: "Balances st' = creditBalance (creditBalance (debitBalance (Balances st) (TrimSpace (tx_From tx)) v)
           (normalizedArchitectAddress architect) (ArchitectFee (Some v))) d net"
    and tasks: "if tx_Type tx = TxTypeSearchTask
         then d = SearchEscrowAddress \<and> (\<exists>req. PendingTasks st' = fmupd (tx_Hash (app_Transaction a))
                (new_search_task (app_Transaction a) req v (ArchitectFee (Some v)) net) (PendingTasks st))
         else PendingTasks st' = PendingTasks st"
    using step by (rule apply_tx_books)
  have net0: "0 \<le> net" using net ArchitectFee_le [OF v(1)] by simp
  have nonneg: "0 \<le> fm_get (Balances st') 0 k" for k
    using inv v net0 by (auto simp: bal state_simps ledger_inv_def)
  have owed: "obligations st \<le> fm_get (Balances st) 0 SearchEscrowAddress"
    using inv by (simp add: ledger_inv_def)
  show ?thesis
  proof (cases "tx_Type tx = TxTypeSearchTask")
    case True
    then obtain req where d: "d = SearchEscrowAddress"
      and new: "PendingTasks st' = fmupd (tx_Hash (app_Transaction a))
        (new_search_task (app_Transaction a) req v (ArchitectFee (Some v)) net) (PendingTasks st)"
      using tasks by auto
    have "net = v - ArchitectFee (Some v)" using True net by simp
    then have ok: "task_ok (new_search_task (app_Transaction a) req v (ArchitectFee (Some v)) net)"
      using new_search_task_ok [OF v(1)] by simp
    have "obligations st' \<le> obligations st + net"
      using owed_weight_nonneg [OF inv]
      by (simp add: obligations_def new fm_sum_upd new_search_task_owed)
    then have "obligations st' \<le> fm_get (Balances st') 0 SearchEscrowAddress"
      using owed escrow ArchitectFee_nonneg [of "Some v"]
      by (auto simp: bal d state_simps simp del: ArchitectFee_nonneg)
    then show ?thesis
      using inv nonneg ok by (auto simp: ledger_inv_def new) (simp add: new_search_task_def)
  next
    case False
    then have same: "PendingTasks st' = PendingTasks st" using tasks by simp
    have "fm_get (Balances st) 0 SearchEscrowAddress \<le> fm_get (Balances st') 0 SearchEscrowAddress"
      using escrow net0 by (simp add: bal state_simps)
    then show ?thesis using inv nonneg owed by (simp add: ledger_inv_def same obligations_def)
  qed
qed

lemma apply_tx_supply:
  assumes "apply_tx E architect st tx = Inr (st', a)"
  shows "total_supply st' = total_supply st + - burned a"
  using assms
  by (rule apply_tx_books) (auto simp: total_supply_def state_simps burned_def)

interpretation ledger: metered_step "apply_tx E architect" ledger_inv total_supply "\<lambda>a. - burned a"
  for E architect
  by unfold_locales (blast intro: apply_tx_inv, rule apply_tx_supply)

section \<open>Properties\<close>

text \<open>The abstract contract of a transaction: a payment on balances.\<close>

definition pay :: "(string \<Rightarrow> int) \<Rightarrow> string \<Rightarrow> string \<Rightarrow> string option \<Rightarrow> int \<Rightarrow> int \<Rightarrow> string \<Rightarrow> int" where
  "pay b from architect to v fee k =
     b k - (if k = from then v else 0) + (if k = architect then fee else 0)
     + (if to = Some k then v - fee else 0)"

abbreviation balance_of :: "StateSnapshot \<Rightarrow> string \<Rightarrow> int" where
  "balance_of st \<equiv> fm_get (Balances st) 0"

abbreviation nonce_of :: "StateSnapshot \<Rightarrow> string \<Rightarrow> u64" where
  "nonce_of st \<equiv> fm_get (Nonces st) 0"


text \<open>
  C2: a list of transactions applied in order keeps the ledger invariant: no balance is
  negative, every task record is filed under its identifier with a gross bounty that is fee
  plus reward, and the search escrow holds at least the rewards of the open tasks. The
  total supply changes only by the net value of contract deployments, which is destroyed.
\<close>

theorem ledger_run_sound:
  assumes "ledger_inv st" and "run_steps (apply_tx E architect) st txs = Inr (st', applied)"
  shows "ledger_inv st' \<and> total_supply st' = total_supply st - (\<Sum>a\<leftarrow>applied. burned a)"
proof
  show "ledger_inv st'" using assms by (rule ledger.run_inv)
  have "(\<Sum>a\<leftarrow>applied. - burned a) = - (\<Sum>a\<leftarrow>applied. burned a)" by (induction applied) simp_all
  with ledger.run_metered [OF assms]
  show "total_supply st' = total_supply st - (\<Sum>a\<leftarrow>applied. burned a)" by simp
qed


section \<open>A concrete ledger\<close>

text \<open>One funded account and a transfer signed by its key.\<close>

definition toy_tx :: "string \<Rightarrow> int \<Rightarrow> bytes \<Rightarrow> Transaction" where
  "toy_tx ty v data =
     \<lparr>tx_Hash = [], tx_Type = ty, tx_From = Address_String toy_env toy_address,
      tx_To = GenesisArchitectAddress, tx_Value = show_int v, tx_Nonce = 0, tx_Timestamp = 1,
      tx_Data = data, tx_PublicKey = replicate 32 (CHR ''p''), tx_Signature = replicate 64 (CHR ''s'')\<rparr>"

lemma toy_tx_simps [simp]:
  "tx_Type (toy_tx ty v d) = ty" "tx_From (toy_tx ty v d) = Address_String toy_env toy_address"
  "tx_To (toy_tx ty v d) = GenesisArchitectAddress" "tx_Value (toy_tx ty v d) = show_int v"
  "tx_Nonce (toy_tx ty v d) = 0" "tx_Timestamp (toy_tx ty v d) = 1" "tx_Data (toy_tx ty v d) = d"
  "tx_PublicKey (toy_tx ty v d) = replicate 32 (CHR ''p'')"
  "tx_Signature (toy_tx ty v d) = replicate 64 (CHR ''s'')"
  by (simp_all add: toy_tx_def)

lemma toy_verify [simp]: "ed25519_verify toy_env k m s"
  by (simp add: toy_env_def)

lemma validate_architect [simp]:
  "validateNonSystemAddressWithArchitect E GenesisArchitectAddress a = Inr ()"
  by (simp add: validateNonSystemAddressWithArchitect_def) (simp add: GenesisArchitectAddress_def)

definition toy_state :: StateSnapshot where
  "toy_state = NewStateSnapshot\<lparr>Balances := fmupd (Address_String toy_env toy_address) 5000 fmempty\<rparr>"

lemma computeTransactionHash_upd [simp]:
  "computeTransactionHash E (tx\<lparr>tx_Hash := h\<rparr>) = computeTransactionHash E tx"
  by (simp add: computeTransactionHash_def signing_fields_def)

lemma toy_pubkey: "NewAddressFromPubKey toy_env (replicate 32 c) = Inr toy_address"
  by (simp add: NewAddressFromPubKey_def NewAddress_def toy_env_def toy_address_def
      CurrentAddressVersion_def address_sizes)

lemma toy_address_wf: "wf_address toy_address"
  by (simp add: toy_address_def wf_address_def CurrentAddressVersion_def address_sizes)

lemma toy_signed:
  assumes "ty = TxTypeTransfer \<or> ty = TxTypeSearchTask \<or> ty = TxTypeContractDeploy"
  shows "ValidateSignature toy_env (normalizeTransaction toy_env (toy_tx ty v data)) = Inr ()"
proof -
  have "Address_String toy_env toy_address \<noteq> []"
    using wf_not_zero [OF toy_address_wf] by (simp add: Address_String_def UFIPrefix_def)
  moreover have "tx_Hash (normalizeTransaction E tx) = computeTransactionHash E (normalizeTransaction E tx)" for E tx
    by (simp add: normalizeTransaction_def Let_def)
  ultimately show ?thesis
    using assms Parse_String [OF toy_address_wf, of toy_env]
    by (auto simp: ValidateSignature_def Let_def toy_pubkey
        Address_String_visible validateNonSystemAddress_def validateNonSystemAddressWithArchitect_def
        ed25519_PublicKeySize_def ed25519_SignatureSize_def)
qed

lemma toy_checked:
  assumes "ty = TxTypeTransfer \<or> ty = TxTypeSearchTask \<or> ty = TxTypeContractDeploy"
    and "0 < v" and "v \<le> 5000"
  shows "check_transaction toy_env toy_state (normalizeTransaction toy_env (toy_tx ty v data)) = Inr v"
  using assms toy_signed [OF assms(1)]
  by (auto simp: check_transaction_def Let_def ValueBig_def toy_state_def
      NewStateSnapshot_def Address_String_visible)

lemma toy_inv: "ledger_inv toy_state"
  by (simp add: ledger_inv_def toy_state_def NewStateSnapshot_def obligations_def)

lemma toy_transfer:
  assumes "0 < v" and "v \<le> 5000"
  shows "\<exists>st a. apply_tx toy_env [] toy_state (toy_tx TxTypeTransfer v []) = Inr (st, a)"
proof -
  have "\<not> IsNativeContractAddress toy_env GenesisArchitectAddress"
    by (simp add: IsNative_iff, simp add: GenesisArchitectAddress_def
        SearchPrecompileAddress_def UNSRegistryAddress_def)
  moreover have "fmlookup (Contracts toy_state) k = None" for k
    by (simp add: toy_state_def NewStateSnapshot_def)
  ultimately show ?thesis
    using toy_checked [of TxTypeTransfer v "[]"] assms
    by (simp add: apply_tx_def ApplyTransactionWithArchitect_def Let_def apply_transfer_def)
qed


theorem ledger_run_sound_witness:
  "\<exists>st applied. run_steps (apply_tx toy_env []) toy_state [toy_tx TxTypeTransfer 1000 []] = Inr (st, applied)
     \<and> ledger_inv st \<and> total_supply st = total_supply toy_state - (\<Sum>a\<leftarrow>applied. burned a)"
proof -
  obtain st a where "apply_tx toy_env [] toy_state (toy_tx TxTypeTransfer 1000 []) = Inr (st, a)"
    using toy_transfer [of 1000] by auto
  then have run: "run_steps (apply_tx toy_env []) toy_state [toy_tx TxTypeTransfer 1000 []] = Inr (st, [a])"
    by simp
  then show ?thesis using ledger_run_sound [OF toy_inv run] by blast
qed


end
