(* ===== verification/Mempool.thy ===== *)
theory Mempool
  imports Ledger Consensus "HOL-Library.Signed_Division"
begin

text \<open>
  The pending pools of \<open>src/core/engine.go\<close>: \<open>TxPool\<close> and \<open>TaskPool\<close>. The code writes the
  same structure twice, over transactions and over search-task envelopes; here it is written once
  over any item that carries a transaction (\<open>txof\<close>), and the two pools are its instances. Every
  operation runs under the pool's mutex, so operations are sequential. The pool's lists are
  values: the code copies them before handing them out.
\<close>

section \<open>Data\<close>

record SearchTaskEnvelope =
  env_Transaction :: Transaction
  env_Request :: SearchTaskRequest
  env_Task :: CrawlTask

record 'a pool =
  pool_pending :: "'a list"
  pool_seen :: "string fset"
  pool_bySenderNonce :: "(string, string) fmap"
  pool_senderCounts :: "(string, int) fmap"
  pool_limit :: int
  pool_senderLimit :: int

type_synonym TxPool = "Transaction pool"
type_synonym TaskPool = "SearchTaskEnvelope pool"

definition DefaultTxPoolLimit :: int where "DefaultTxPoolLimit = 4096"
definition DefaultTaskPoolLimit :: int where "DefaultTaskPoolLimit = 1024"
definition DefaultSenderPendingLimit :: int where "DefaultSenderPendingLimit = 32"
definition DefaultReplacementBumpBPS :: int where "DefaultReplacementBumpBPS = 11000"

definition NewTxPool :: TxPool where
  "NewTxPool = \<lparr>pool_pending = [], pool_seen = {||}, pool_bySenderNonce = fmempty, pool_senderCounts = fmempty,
     pool_limit = DefaultTxPoolLimit, pool_senderLimit = DefaultSenderPendingLimit\<rparr>"

definition NewTaskPool :: TaskPool where
  "NewTaskPool = \<lparr>pool_pending = [], pool_seen = {||}, pool_bySenderNonce = fmempty, pool_senderCounts = fmempty,
     pool_limit = DefaultTaskPoolLimit, pool_senderLimit = DefaultSenderPendingLimit\<rparr>"

section \<open>Helpers\<close>

definition senderNonceKey :: "string \<Rightarrow> u64 \<Rightarrow> string" where
  "senderNonceKey sender nonce = sender @ ''#'' @ FormatUint nonce"

definition item_hash :: "('a \<Rightarrow> Transaction) \<Rightarrow> 'a \<Rightarrow> string" where
  "item_hash txof x = tx_Hash (txof x)"

definition item_key :: "('a \<Rightarrow> Transaction) \<Rightarrow> 'a \<Rightarrow> string" where
  "item_key txof x = senderNonceKey (tx_From (txof x)) (tx_Nonce (txof x))"

text \<open>\<open>indexOfHashLocked\<close>; \<open>None\<close> is the code's -1.\<close>

fun indexOfHash :: "('a \<Rightarrow> Transaction) \<Rightarrow> 'a list \<Rightarrow> string \<Rightarrow> nat option" where
  "indexOfHash txof [] h = None"
| "indexOfHash txof (x # xs) h =
     (if tx_Hash (txof x) = h then Some 0 else map_option Suc (indexOfHash txof xs h))"

definition shouldReplace :: "string \<Rightarrow> string \<Rightarrow> bool" where
  "shouldReplace currentValue nextValue =
     (case SetString currentValue of
        None \<Rightarrow> False
      | Some current \<Rightarrow>
          (case SetString nextValue of
             None \<Rightarrow> False
           | Some nxt \<Rightarrow> (current * DefaultReplacementBumpBPS) sdiv uint BasisPoints \<le> nxt))"

definition rebuildIndices :: "('a \<Rightarrow> Transaction) \<Rightarrow> 'a pool \<Rightarrow> 'a pool" where
  "rebuildIndices txof p =
     p\<lparr>pool_seen := fold (\<lambda>x s. finsert (item_hash txof x) s) (pool_pending p) {||},
       pool_bySenderNonce := fold (\<lambda>x m. fmupd (item_key txof x) (item_hash txof x) m) (pool_pending p) fmempty,
       pool_senderCounts :=
         fold (\<lambda>x m. fmupd (tx_From (txof x)) (fm_get m 0 (tx_From (txof x)) + 1) m) (pool_pending p) fmempty\<rparr>"

section \<open>Operations\<close>

definition replace_item :: "('a \<Rightarrow> Transaction) \<Rightarrow> 'a pool \<Rightarrow> nat \<Rightarrow> string \<Rightarrow> 'a \<Rightarrow> 'a pool" where
  "replace_item txof p i existingHash x =
     p\<lparr>pool_pending := (pool_pending p)[i := x],
       pool_seen := finsert (item_hash txof x) (pool_seen p |-| {|existingHash|}),
       pool_bySenderNonce := fmupd (item_key txof x) (item_hash txof x) (pool_bySenderNonce p)\<rparr>"

definition append_item :: "('a \<Rightarrow> Transaction) \<Rightarrow> 'a pool \<Rightarrow> 'a \<Rightarrow> 'a pool" where
  "append_item txof p x =
     p\<lparr>pool_pending := pool_pending p @ [x],
       pool_seen := finsert (item_hash txof x) (pool_seen p),
       pool_bySenderNonce := fmupd (item_key txof x) (item_hash txof x) (pool_bySenderNonce p),
       pool_senderCounts := fmupd (tx_From (txof x)) (fm_get (pool_senderCounts p) 0 (tx_From (txof x)) + 1)
                              (pool_senderCounts p)\<rparr>"

definition pool_full :: "'a pool \<Rightarrow> bool" where
  "pool_full p \<longleftrightarrow> 0 < pool_limit p \<and> pool_limit p \<le> int (length (pool_pending p))"

definition sender_full :: "'a pool \<Rightarrow> string \<Rightarrow> bool" where
  "sender_full p sender \<longleftrightarrow> 0 < pool_senderLimit p \<and> pool_senderLimit p \<le> fm_get (pool_senderCounts p) 0 sender"

definition add_new :: "('a \<Rightarrow> Transaction) \<Rightarrow> 'a pool \<Rightarrow> 'a \<Rightarrow> 'a pool \<times> unit res" where
  "add_new txof p x =
     (if pool_full p then (p, Inl ErrPoolFull)
      else if sender_full p (tx_From (txof x)) then (p, Inl ErrSenderQueueFull)
      else (append_item txof p x, Inr ()))"

definition pool_Add :: "('a \<Rightarrow> Transaction) \<Rightarrow> 'a pool \<Rightarrow> 'a \<Rightarrow> 'a pool \<times> unit res" where
  "pool_Add txof p x =
     (if item_hash txof x |\<in>| pool_seen p then (p, Inr ())
      else
        (case fmlookup (pool_bySenderNonce p) (item_key txof x) of
           None \<Rightarrow> add_new txof p x
         | Some existingHash \<Rightarrow>
             (case indexOfHash txof (pool_pending p) existingHash of
                None \<Rightarrow> add_new txof (p\<lparr>pool_bySenderNonce := fmdrop (item_key txof x) (pool_bySenderNonce p)\<rparr>) x
              | Some index \<Rightarrow>
                  if \<not> shouldReplace (tx_Value (txof (pool_pending p ! index))) (tx_Value (txof x))
                  then (p, Inl ErrReplacementUnderpriced)
                  else (replace_item txof p index existingHash x, Inr ()))))"

definition effective_limit :: "int \<Rightarrow> 'a list \<Rightarrow> nat" where
  "effective_limit limit xs = (if limit \<le> 0 \<or> int (length xs) < limit then length xs else nat limit)"

definition pool_Drain :: "('a \<Rightarrow> Transaction) \<Rightarrow> 'a pool \<Rightarrow> int \<Rightarrow> 'a pool \<times> 'a list" where
  "pool_Drain txof p limit =
     (let n = effective_limit limit (pool_pending p) in
      (rebuildIndices txof (p\<lparr>pool_pending := drop n (pool_pending p)\<rparr>), take n (pool_pending p)))"

text \<open>One round of \<open>Requeue\<close>'s loop; \<open>None\<close> is its \<open>break\<close>.\<close>

definition requeue_new :: "('a \<Rightarrow> Transaction) \<Rightarrow> 'a pool \<Rightarrow> 'a \<Rightarrow> 'a pool option" where
  "requeue_new txof p x =
     (if pool_full p then None
      else if sender_full p (tx_From (txof x)) then Some p
      else Some (append_item txof p x))"

definition requeue_one :: "('a \<Rightarrow> Transaction) \<Rightarrow> 'a pool \<Rightarrow> 'a \<Rightarrow> 'a pool option" where
  "requeue_one txof p x =
     (if item_hash txof x |\<in>| pool_seen p then Some p
      else
        (case fmlookup (pool_bySenderNonce p) (item_key txof x) of
           None \<Rightarrow> requeue_new txof p x
         | Some existingHash \<Rightarrow>
             (case indexOfHash txof (pool_pending p) existingHash of
                None \<Rightarrow> requeue_new txof p x
              | Some index \<Rightarrow>
                  if \<not> shouldReplace (tx_Value (txof (pool_pending p ! index))) (tx_Value (txof x)) then Some p
                  else Some (replace_item txof p index existingHash x))))"

fun pool_Requeue :: "('a \<Rightarrow> Transaction) \<Rightarrow> 'a pool \<Rightarrow> 'a list \<Rightarrow> 'a pool" where
  "pool_Requeue txof p [] = p"
| "pool_Requeue txof p (x # xs) =
     (case requeue_one txof p x of None \<Rightarrow> p | Some q \<Rightarrow> pool_Requeue txof q xs)"

definition pool_PendingForSender :: "('a \<Rightarrow> Transaction) \<Rightarrow> 'a pool \<Rightarrow> string \<Rightarrow> 'a list" where
  "pool_PendingForSender txof p sender = filter (\<lambda>x. tx_From (txof x) = sender) (pool_pending p)"

definition copy_limited :: "'a list \<Rightarrow> int \<Rightarrow> 'a list" where
  "copy_limited items limit = take (effective_limit limit items) items"

definition pool_Snapshot :: "'a pool \<Rightarrow> int \<Rightarrow> 'a list" where
  "pool_Snapshot p limit = copy_limited (pool_pending p) limit"

definition pool_Status :: "'a pool \<Rightarrow> int \<times> int \<times> int" where
  "pool_Status p = (int (length (pool_pending p)), pool_limit p, pool_senderLimit p)"

definition pool_RemoveSenderFromNonce ::
    "('a \<Rightarrow> Transaction) \<Rightarrow> 'a pool \<Rightarrow> string \<Rightarrow> u64 \<Rightarrow> 'a pool \<times> 'a list" where
  "pool_RemoveSenderFromNonce txof p sender nonce =
     (let hit = (\<lambda>x. tx_From (txof x) = sender \<and> nonce \<le> tx_Nonce (txof x));
          removed = filter hit (pool_pending p);
          remaining = filter (\<lambda>x. \<not> hit x) (pool_pending p)
      in if removed = [] then (p, [])
         else (rebuildIndices txof (p\<lparr>pool_pending := remaining\<rparr>), removed))"

section \<open>Draining the highest values\<close>

text \<open>
  \<open>bySender\<close> and \<open>senders\<close> as one list: the senders in order of first appearance, each with its
  queue.
\<close>

type_synonym 'a queues = "(string \<times> 'a list) list"

fun queue_push :: "string \<Rightarrow> 'a \<Rightarrow> 'a queues \<Rightarrow> 'a queues" where
  "queue_push sender x [] = [(sender, [x])]"
| "queue_push sender x ((s, q) # qs) =
     (if s = sender then (s, q @ [x]) # qs else (s, q) # queue_push sender x qs)"

definition queue_order :: "('a \<Rightarrow> Transaction) \<Rightarrow> 'a \<Rightarrow> u64 \<times> time \<times> string" where
  "queue_order txof x = (tx_Nonce (txof x), tx_Timestamp (txof x), tx_Hash (txof x))"

definition sender_queues :: "('a \<Rightarrow> Transaction) \<Rightarrow> 'a list \<Rightarrow> 'a queues" where
  "sender_queues txof xs =
     map (\<lambda>(s, q). (s, sort_key (queue_order txof) q)) (fold (\<lambda>x qs. queue_push (tx_From (txof x)) x qs) xs [])"

text \<open>
  The search for the best head: the index, the head itself and its value, which is \<open>None\<close> (a nil
  pointer) when the text is not a number. Comparing a nil with a number panics.
\<close>

type_synonym 'a best = "(nat \<times> 'a \<times> int option) option"

definition item_value :: "('a \<Rightarrow> Transaction) \<Rightarrow> 'a \<Rightarrow> int option" where
  "item_value txof x = (case ValueBig (txof x) of Inl _ \<Rightarrow> None | Inr v \<Rightarrow> Some v)"

definition earlier :: "('a \<Rightarrow> Transaction) \<Rightarrow> 'a \<Rightarrow> 'a \<Rightarrow> bool" where
  "earlier txof x y \<longleftrightarrow> tx_Timestamp (txof x) < tx_Timestamp (txof y)
     \<or> tx_Timestamp (txof x) = tx_Timestamp (txof y) \<and> tx_Hash (txof x) < tx_Hash (txof y)"

fun best_head :: "('a \<Rightarrow> Transaction) \<Rightarrow> nat \<Rightarrow> 'a queues \<Rightarrow> 'a best \<Rightarrow> 'a best res" where
  "best_head txof i [] b = Inr b"
| "best_head txof i ((s, []) # qs) b = best_head txof (Suc i) qs b"
| "best_head txof i ((s, x # q) # qs) None = best_head txof (Suc i) qs (Some (i, x, item_value txof x))"
| "best_head txof i ((s, x # q) # qs) (Some (j, y, bv)) =
     (case (item_value txof x, bv) of
        (Some v, Some b) \<Rightarrow>
          if b < v \<or> v = b \<and> earlier txof x y then best_head txof (Suc i) qs (Some (i, x, Some v))
          else best_head txof (Suc i) qs (Some (j, y, bv))
      | (None, None) \<Rightarrow>
          if earlier txof x y then best_head txof (Suc i) qs (Some (i, x, None))
          else best_head txof (Suc i) qs (Some (j, y, bv))
      | _ \<Rightarrow> Inl GoPanic)"

definition pop_queue :: "nat \<Rightarrow> 'a queues \<Rightarrow> 'a queues" where
  "pop_queue i qs = qs[i := (fst (qs ! i), tl (snd (qs ! i)))]"

text \<open>The selection loop; the first argument is what \<open>limit - len(selected)\<close> still allows.\<close>

fun drain_loop :: "('a \<Rightarrow> Transaction) \<Rightarrow> nat \<Rightarrow> 'a queues \<Rightarrow> 'a list res" where
  "drain_loop txof 0 qs = Inr []"
| "drain_loop txof (Suc n) qs =
     (case best_head txof 0 qs None of
        Inl e \<Rightarrow> Inl e
      | Inr None \<Rightarrow> Inr []
      | Inr (Some (i, x, _)) \<Rightarrow>
          (case drain_loop txof n (pop_queue i qs) of Inl e \<Rightarrow> Inl e | Inr selected \<Rightarrow> Inr (x # selected)))"

definition pool_DrainHighestValue :: "('a \<Rightarrow> Transaction) \<Rightarrow> 'a pool \<Rightarrow> int \<Rightarrow> 'a pool \<times> 'a list res" where
  "pool_DrainHighestValue txof p limit =
     (let n = effective_limit limit (pool_pending p) in
      if n = 0 then (p, Inr [])
      else
        (case drain_loop txof n (sender_queues txof (pool_pending p)) of
           Inl e \<Rightarrow> (p, Inl e)
         | Inr selected \<Rightarrow>
             (rebuildIndices txof (p\<lparr>pool_pending :=
                filter (\<lambda>x. item_hash txof x \<notin> set (map (item_hash txof) selected)) (pool_pending p)\<rparr>),
              Inr selected)))"

text \<open>The two pools.\<close>

definition TxPool_Add :: "TxPool \<Rightarrow> Transaction \<Rightarrow> TxPool \<times> unit res" where
  "TxPool_Add = pool_Add (\<lambda>tx. tx)"

definition TxPool_Drain :: "TxPool \<Rightarrow> int \<Rightarrow> TxPool \<times> Transaction list" where
  "TxPool_Drain = pool_Drain (\<lambda>tx. tx)"

definition TxPool_Requeue :: "TxPool \<Rightarrow> Transaction list \<Rightarrow> TxPool" where
  "TxPool_Requeue = pool_Requeue (\<lambda>tx. tx)"

definition TxPool_PendingForSender :: "TxPool \<Rightarrow> string \<Rightarrow> Transaction list" where
  "TxPool_PendingForSender = pool_PendingForSender (\<lambda>tx. tx)"

definition TxPool_RemoveSenderFromNonce :: "TxPool \<Rightarrow> string \<Rightarrow> u64 \<Rightarrow> TxPool \<times> Transaction list" where
  "TxPool_RemoveSenderFromNonce = pool_RemoveSenderFromNonce (\<lambda>tx. tx)"

definition TaskPool_Add :: "TaskPool \<Rightarrow> SearchTaskEnvelope \<Rightarrow> TaskPool \<times> unit res" where
  "TaskPool_Add = pool_Add env_Transaction"

definition TaskPool_DrainHighestValue :: "TaskPool \<Rightarrow> int \<Rightarrow> TaskPool \<times> SearchTaskEnvelope list res" where
  "TaskPool_DrainHighestValue = pool_DrainHighestValue env_Transaction"

definition TaskPool_Requeue :: "TaskPool \<Rightarrow> SearchTaskEnvelope list \<Rightarrow> TaskPool" where
  "TaskPool_Requeue = pool_Requeue env_Transaction"

definition TaskPool_PendingForSender :: "TaskPool \<Rightarrow> string \<Rightarrow> SearchTaskEnvelope list" where
  "TaskPool_PendingForSender = pool_PendingForSender env_Transaction"

definition TaskPool_RemoveSenderFromNonce :: "TaskPool \<Rightarrow> string \<Rightarrow> u64 \<Rightarrow> TaskPool \<times> SearchTaskEnvelope list" where
  "TaskPool_RemoveSenderFromNonce = pool_RemoveSenderFromNonce env_Transaction"

text \<open>\<open>cloneCrawlTask\<close> copies; a nil amount becomes zero.\<close>

definition cloneCrawlTask :: "CrawlTask \<Rightarrow> CrawlTask" where
  "cloneCrawlTask task =
     task\<lparr>ct_BaseBounty := Some (cloneBigInt (ct_BaseBounty task)),
          ct_TotalBounty := Some (cloneBigInt (ct_TotalBounty task)),
          ct_ArchitectFee := Some (cloneBigInt (ct_ArchitectFee task)),
          ct_MinerReward := Some (cloneBigInt (ct_MinerReward task))\<rparr>"

definition limitSearchTaskEnvelopes :: "SearchTaskEnvelope list \<Rightarrow> int \<Rightarrow> SearchTaskEnvelope list" where
  "limitSearchTaskEnvelopes items limit =
     map (\<lambda>t. t\<lparr>env_Task := cloneCrawlTask (env_Task t)\<rparr>) (copy_limited items limit)"

definition TaskPool_Snapshot :: "TaskPool \<Rightarrow> int \<Rightarrow> SearchTaskEnvelope list" where
  "TaskPool_Snapshot p limit = limitSearchTaskEnvelopes (pool_pending p) limit"

end
