(* ===== verification/Mempool_Laws.thy ===== *)
theory Mempool_Laws
  imports Mempool
begin

text \<open>
  What the pending pools guarantee: their indexes always say what the pending list says, the limits
  hold, nothing is lost or invented, and draining takes the best executable tasks first.
\<close>

section \<open>Keys and indexes\<close>

lemma digits_no_hash: "CHR ''#'' \<notin> set (show_nat n)"
  using show_nat_digits [of n] by (auto simp: list_all_iff is_digit_def byte_def)

lemma FormatUint_inj [simp]: "FormatUint a = FormatUint b \<longleftrightarrow> a = b"
  using ParseUint_FormatUint by (metis sum.inject(2))

lemma split_at_last_hash:
  assumes "s @ CHR ''#'' # d = s' @ CHR ''#'' # d'" and "CHR ''#'' \<notin> set d" and "CHR ''#'' \<notin> set d'"
  shows "s = s' \<and> d = d'"
proof -
  have suffix: "takeWhile (\<lambda>c. c \<noteq> CHR ''#'') (rev (t @ CHR ''#'' # e)) = rev e" if "CHR ''#'' \<notin> set e" for t e
    using that by (auto simp: takeWhile_tail takeWhile_eq_all_conv)
  have "rev d = rev d'"
    using suffix [OF assms(2), of s] suffix [OF assms(3), of s'] unfolding assms(1) by (rule trans [OF sym])
  with assms(1) show ?thesis by simp
qed

lemma senderNonceKey_inject [simp]:
  "senderNonceKey s n = senderNonceKey s' n' \<longleftrightarrow> s = s' \<and> n = n'"
  using split_at_last_hash [of s "FormatUint n" s' "FormatUint n'"]
    FormatUint_inj [of n n'] by (auto simp: senderNonceKey_def FormatUint_def digits_no_hash)

lemma item_key_same:
  "item_key txof x = item_key txof y \<longleftrightarrow>
     tx_From (txof x) = tx_From (txof y) \<and> tx_Nonce (txof x) = tx_Nonce (txof y)"
  by (simp add: item_key_def)

definition seen_of :: "('a \<Rightarrow> Transaction) \<Rightarrow> 'a list \<Rightarrow> string fset" where
  "seen_of txof xs = fold (\<lambda>x s. finsert (item_hash txof x) s) xs {||}"

definition keys_of :: "('a \<Rightarrow> Transaction) \<Rightarrow> 'a list \<Rightarrow> (string, string) fmap" where
  "keys_of txof xs = fold (\<lambda>x m. fmupd (item_key txof x) (item_hash txof x) m) xs fmempty"

definition counts_of :: "('a \<Rightarrow> Transaction) \<Rightarrow> 'a list \<Rightarrow> (string, int) fmap" where
  "counts_of txof xs = fold (\<lambda>x m. fmupd (tx_From (txof x)) (fm_get m 0 (tx_From (txof x)) + 1) m) xs fmempty"

lemma index_snoc:
  "seen_of txof (xs @ [x]) = finsert (item_hash txof x) (seen_of txof xs)"
  "keys_of txof (xs @ [x]) = fmupd (item_key txof x) (item_hash txof x) (keys_of txof xs)"
  "counts_of txof (xs @ [x]) =
     fmupd (tx_From (txof x)) (fm_get (counts_of txof xs) 0 (tx_From (txof x)) + 1) (counts_of txof xs)"
  by (simp_all add: seen_of_def keys_of_def counts_of_def)

lemma seen_of_iff: "h |\<in>| seen_of txof xs \<longleftrightarrow> h \<in> item_hash txof ` set xs"
  by (induction xs rule: rev_induct) (auto simp: index_snoc seen_of_def)

lemma keys_of_lookup:
  "distinct (map (item_key txof) xs) \<Longrightarrow>
   fmlookup (keys_of txof xs) k = Some h \<longleftrightarrow> (\<exists>x \<in> set xs. item_key txof x = k \<and> item_hash txof x = h)"
proof (induction xs rule: rev_induct)
  case (snoc x xs)
  then have fresh: "\<forall>y \<in> set xs. item_key txof y \<noteq> item_key txof x" and "distinct (map (item_key txof) xs)"
    by (auto simp: image_iff)
  then show ?case using snoc.IH by (cases "k = item_key txof x") (auto simp: index_snoc)
qed (simp add: keys_of_def)

lemma counts_of_lookup:
  "fmlookup (counts_of txof xs) s =
     (let n = length (filter (\<lambda>x. tx_From (txof x) = s) xs) in if n = 0 then None else Some (int n))"
proof (induction xs rule: rev_induct)
  case (snoc x xs)
  then show ?case by (auto simp: index_snoc fm_get_def Let_def)
qed (simp add: counts_of_def)

lemma counts_of_get: "fm_get (counts_of txof xs) 0 s = int (length (filter (\<lambda>x. tx_From (txof x) = s) xs))"
  by (simp add: fm_get_def counts_of_lookup Let_def)

lemma counts_of_cong: "map (\<lambda>x. tx_From (txof x)) xs = map (\<lambda>x. tx_From (txof x)) ys \<Longrightarrow> counts_of txof xs = counts_of txof ys"
proof (rule fmap_ext)
  fix s assume same: "map (\<lambda>x. tx_From (txof x)) xs = map (\<lambda>x. tx_From (txof x)) ys"
  have "length (filter (\<lambda>x. tx_From (txof x) = s) zs) = length (filter (\<lambda>y. y = s) (map (\<lambda>x. tx_From (txof x)) zs))" for zs
    by (simp add: filter_map comp_def)
  from this [of xs] this [of ys]
  have "length (filter (\<lambda>x. tx_From (txof x) = s) xs) = length (filter (\<lambda>x. tx_From (txof x) = s) ys)"
    unfolding same by (rule trans [OF _ sym])
  then show "fmlookup (counts_of txof xs) s = fmlookup (counts_of txof ys) s"
    by (simp only: counts_of_lookup)
qed

lemma rebuild_indexes:
  "rebuildIndices txof p = p\<lparr>pool_seen := seen_of txof (pool_pending p),
     pool_bySenderNonce := keys_of txof (pool_pending p), pool_senderCounts := counts_of txof (pool_pending p)\<rparr>"
  by (simp add: rebuildIndices_def seen_of_def keys_of_def counts_of_def)

section \<open>Invariant\<close>

text \<open>
  A pool in good order: no hash and no sender and nonce occur twice, the indexes are what a rebuild
  would make of the pending list, and the limits that are set hold.
\<close>

definition pool_inv :: "('a \<Rightarrow> Transaction) \<Rightarrow> 'a pool \<Rightarrow> bool" where
  "pool_inv txof p \<longleftrightarrow>
     distinct (map (item_hash txof) (pool_pending p)) \<and> distinct (map (item_key txof) (pool_pending p))
     \<and> rebuildIndices txof p = p
     \<and> (0 < pool_limit p \<longrightarrow> int (length (pool_pending p)) \<le> pool_limit p)
     \<and> (0 < pool_senderLimit p \<longrightarrow>
          (\<forall>s. int (length (pool_PendingForSender txof p s)) \<le> pool_senderLimit p))"

lemma rebuild_id_iff:
  "rebuildIndices txof p = p \<longleftrightarrow> pool_seen p = seen_of txof (pool_pending p)
     \<and> pool_bySenderNonce p = keys_of txof (pool_pending p) \<and> pool_senderCounts p = counts_of txof (pool_pending p)"
  by (cases p) (auto simp: rebuild_indexes)

lemma rebuild_fields [simp]:
  "pool_pending (rebuildIndices txof p) = pool_pending p" "pool_limit (rebuildIndices txof p) = pool_limit p"
  "pool_senderLimit (rebuildIndices txof p) = pool_senderLimit p"
  "rebuildIndices txof (rebuildIndices txof p) = rebuildIndices txof p"
  by (simp_all add: rebuild_indexes)

lemma pool_invD:
  assumes "pool_inv txof p"
  shows "distinct (map (item_hash txof) (pool_pending p))" "distinct (map (item_key txof) (pool_pending p))"
    "pool_seen p = seen_of txof (pool_pending p)" "pool_bySenderNonce p = keys_of txof (pool_pending p)"
    "pool_senderCounts p = counts_of txof (pool_pending p)"
  using assms by (simp_all add: pool_inv_def rebuild_id_iff)

lemma length_filter_sub: "mset xs \<subseteq># mset ys \<Longrightarrow> length (filter P xs) \<le> length (filter P ys)"
  by (metis mset_filter multiset_filter_mono size_mset size_mset_mono)

lemma distinct_map_sub:
  assumes sub: "mset xs \<subseteq># mset ys" and "distinct (map f ys)"
  shows "distinct (map f xs)"
proof -
  obtain zs where split: "mset ys = mset (xs @ zs)"
    using sub by (metis ex_mset mset_append mset_subset_eq_exists_conv)
  have "mset (map f ys) = mset (map f (xs @ zs))" by (simp only: mset_map split)
  then have "distinct (map f (xs @ zs))" using mset_eq_imp_distinct_iff assms(2) by blast
  then show ?thesis by simp
qed

text \<open>Every operation that shrinks the pending list and rebuilds keeps the invariant.\<close>

lemma rebuild_inv:
  assumes inv: "pool_inv txof p" and sub: "mset xs \<subseteq># mset (pool_pending p)"
  shows "pool_inv txof (rebuildIndices txof (p\<lparr>pool_pending := xs\<rparr>))"
proof -
  note distinct = distinct_map_sub [OF sub]
  have shorter: "length (filter P xs) \<le> length (filter P (pool_pending p))" for P
    by (rule length_filter_sub [OF sub])
  have "int (length xs) \<le> pool_limit p" if "0 < pool_limit p"
    using inv that shorter [of "\<lambda>_. True"] by (simp add: pool_inv_def)
  moreover have "int (length (filter (\<lambda>x. tx_From (txof x) = s) xs)) \<le> pool_senderLimit p" if "0 < pool_senderLimit p" for s
  proof -
    have "int (length (filter (\<lambda>x. tx_From (txof x) = s) (pool_pending p))) \<le> pool_senderLimit p"
      using inv that by (simp add: pool_inv_def pool_PendingForSender_def)
    with shorter [of "\<lambda>x. tx_From (txof x) = s"] show ?thesis by linarith
  qed
  ultimately show ?thesis
    using distinct [OF pool_invD(1) [OF inv]] distinct [OF pool_invD(2) [OF inv]]
    by (simp add: pool_inv_def pool_PendingForSender_def)
qed

lemma append_inv:
  assumes inv: "pool_inv txof p" and hash: "item_hash txof x \<notin> item_hash txof ` set (pool_pending p)"
    and key: "item_key txof x \<notin> item_key txof ` set (pool_pending p)"
    and room: "\<not> pool_full p" "\<not> sender_full p (tx_From (txof x))"
  shows "pool_inv txof (append_item txof p x)"
proof -
  note idx = pool_invD [OF inv]
  have "int (length (filter (\<lambda>x. tx_From (txof x) = s) (pool_pending p @ [x]))) \<le> pool_senderLimit p"
    if "0 < pool_senderLimit p" for s
    using inv that room(2) by (auto simp: pool_inv_def pool_PendingForSender_def sender_full_def idx counts_of_get)
  moreover have "int (length (pool_pending p @ [x])) \<le> pool_limit p" if "0 < pool_limit p"
    using room(1) that by (simp add: pool_full_def)
  ultimately show ?thesis
    using idx hash key
    by (simp add: pool_inv_def append_item_def rebuild_id_iff index_snoc pool_PendingForSender_def image_iff)
qed

section \<open>Replacement\<close>

lemma indexOfHash_Some: "indexOfHash txof xs h = Some i \<Longrightarrow> i < length xs \<and> item_hash txof (xs ! i) = h"
  by (induction xs arbitrary: i) (auto simp: item_hash_def split: if_splits)

lemma indexOfHash_None: "indexOfHash txof xs h = None \<longleftrightarrow> h \<notin> item_hash txof ` set xs"
  by (induction xs) (auto simp: item_hash_def)

lemma slot_lookup:
  assumes inv: "pool_inv txof p"
  shows "case fmlookup (pool_bySenderNonce p) k of
      None \<Rightarrow> k \<notin> item_key txof ` set (pool_pending p)
    | Some h \<Rightarrow> (\<exists>i. indexOfHash txof (pool_pending p) h = Some i \<and> i < length (pool_pending p)
        \<and> item_key txof (pool_pending p ! i) = k \<and> item_hash txof (pool_pending p ! i) = h)"
proof (cases "fmlookup (pool_bySenderNonce p) k")
  case None
  then show ?thesis
    using keys_of_lookup [OF pool_invD(2) [OF inv], of k] by (auto simp: pool_invD(4) [OF inv])
next
  case (Some h)
  note idx = pool_invD [OF inv]
  obtain x where x: "x \<in> set (pool_pending p)" "item_key txof x = k" "item_hash txof x = h"
    using Some keys_of_lookup [OF idx(2), of k h] by (auto simp: idx(4))
  then obtain i where i: "indexOfHash txof (pool_pending p) h = Some i"
    using indexOfHash_None [of txof "pool_pending p" h] by (cases "indexOfHash txof (pool_pending p) h") auto
  have at: "i < length (pool_pending p)" "item_hash txof (pool_pending p ! i) = h" using indexOfHash_Some [OF i] by auto
  then have "pool_pending p ! i = x"
    using idx(1) x by (auto simp: distinct_map inj_on_def)
  with x at i Some show ?thesis by auto
qed

lemma distinct_update:
  assumes "distinct (map f xs)" and "i < length xs" and "f x \<notin> f ` set xs \<or> f x = f (xs ! i)"
  shows "distinct (map f (xs[i := x]))"
proof -
  have "f x \<notin> set (map f xs) - {map f xs ! i}" using assms(2,3) by auto
  then show ?thesis unfolding map_update by (rule distinct_list_update [OF assms(1)])
qed

lemma replace_inv:
  assumes inv: "pool_inv txof p" and hash: "item_hash txof x \<notin> item_hash txof ` set (pool_pending p)"
    and i: "i < length (pool_pending p)" and h: "item_hash txof (pool_pending p ! i) = h"
    and key: "item_key txof (pool_pending p ! i) = item_key txof x"
  shows "pool_inv txof (replace_item txof p i h x)"
proof -
  note idx = pool_invD [OF inv]
  let ?xs = "pool_pending p" and ?ys = "(pool_pending p)[i := x]"
  have dh: "distinct (map (item_hash txof) ?ys)" by (rule distinct_update [OF idx(1) i]) (use hash in simp)
  have dk: "distinct (map (item_key txof) ?ys)" by (rule distinct_update [OF idx(2) i]) (use key in simp)
  have "distinct ?xs" using idx(1) by (simp add: distinct_map)
  then have set: "set ?ys = insert x (set ?xs - {?xs ! i})" by (rule set_update_distinct) (rule i)
  have seen: "finsert (item_hash txof x) (seen_of txof ?xs |-| {|h|}) = seen_of txof ?ys"
  proof (rule fset_eqI)
    fix g
    have "item_hash txof y = h \<longleftrightarrow> y = ?xs ! i" if "y \<in> set ?xs" for y
      using inj_on_eq_iff [OF _ that nth_mem [OF i], of "item_hash txof"] h idx(1) by (simp add: distinct_map)
    then show "g |\<in>| finsert (item_hash txof x) (seen_of txof ?xs |-| {|h|}) \<longleftrightarrow> g |\<in>| seen_of txof ?ys"
      by (auto simp: seen_of_iff set)
  qed
  have keys: "fmupd (item_key txof x) (item_hash txof x) (keys_of txof ?xs) = keys_of txof ?ys"
  proof (rule fmap_ext)
    fix k
    have other: "item_key txof y = item_key txof x \<longleftrightarrow> y = ?xs ! i" if "y \<in> set ?xs" for y
      using inj_on_eq_iff [OF _ that nth_mem [OF i], of "item_key txof"] key idx(2) by (simp add: distinct_map)
    have "fmlookup (fmupd (item_key txof x) (item_hash txof x) (keys_of txof ?xs)) k = Some g \<longleftrightarrow>
        fmlookup (keys_of txof ?ys) k = Some g" for g
    proof (cases "k = item_key txof x")
      case True
      then show ?thesis unfolding keys_of_lookup [OF dk] using other by (auto simp: set)
    next
      case False
      have "y \<in> set ?xs \<and> item_key txof y = k \<longleftrightarrow> y \<in> set ?ys \<and> item_key txof y = k" for y
        using False key by (auto simp: set)
      then have "(\<exists>y \<in> set ?xs. item_key txof y = k \<and> item_hash txof y = g) \<longleftrightarrow>
          (\<exists>y \<in> set ?ys. item_key txof y = k \<and> item_hash txof y = g)" by blast
      with False show ?thesis unfolding keys_of_lookup [OF dk] by (simp add: keys_of_lookup [OF idx(2)])
    qed
    then show "fmlookup (fmupd (item_key txof x) (item_hash txof x) (keys_of txof ?xs)) k = fmlookup (keys_of txof ?ys) k"
      by (metis option.exhaust)
  qed
  have senders: "map (\<lambda>x. tx_From (txof x)) ?ys = map (\<lambda>x. tx_From (txof x)) ?xs"
    unfolding map_update using key i by (simp add: item_key_same list_update_same_conv)
  have "length (filter (\<lambda>x. tx_From (txof x) = s) ?ys) = length (filter (\<lambda>x. tx_From (txof x) = s) ?xs)" for s
    using counts_of_get [of txof ?ys s] counts_of_get [of txof ?xs s] by (simp add: counts_of_cong [OF senders])
  then show ?thesis
    using inv dh dk seen keys counts_of_cong [OF senders]
    by (simp add: pool_inv_def replace_item_def rebuild_id_iff pool_PendingForSender_def)
qed

section \<open>The operations\<close>

text \<open>In a pool in good order, where an addition can go: it is known, its slot is taken, or it is new.\<close>

lemma pool_Add_cases:
  assumes inv: "pool_inv txof p"
  obtains (known) "item_hash txof x \<in> item_hash txof ` set (pool_pending p)" "pool_Add txof p x = (p, Inr ())"
      "requeue_one txof p x = Some p"
    | (taken) i where "item_hash txof x \<notin> item_hash txof ` set (pool_pending p)" "i < length (pool_pending p)"
      "item_key txof (pool_pending p ! i) = item_key txof x"
      "pool_Add txof p x =
        (if shouldReplace (tx_Value (txof (pool_pending p ! i))) (tx_Value (txof x))
         then (replace_item txof p i (item_hash txof (pool_pending p ! i)) x, Inr ()) else (p, Inl ErrReplacementUnderpriced))"
      "requeue_one txof p x = Some
        (if shouldReplace (tx_Value (txof (pool_pending p ! i))) (tx_Value (txof x))
         then replace_item txof p i (item_hash txof (pool_pending p ! i)) x else p)"
    | (fresh) "item_hash txof x \<notin> item_hash txof ` set (pool_pending p)"
      "item_key txof x \<notin> item_key txof ` set (pool_pending p)"
      "pool_Add txof p x = add_new txof p x" "requeue_one txof p x = requeue_new txof p x"
proof (cases "item_hash txof x \<in> item_hash txof ` set (pool_pending p)")
  case True
  then have "item_hash txof x |\<in>| pool_seen p" by (simp add: pool_invD(3) [OF inv] seen_of_iff)
  then show ?thesis by (intro known [OF True]) (simp_all add: pool_Add_def requeue_one_def)
next
  case False
  then have unseen: "\<not> item_hash txof x |\<in>| pool_seen p" by (simp add: pool_invD(3) [OF inv] seen_of_iff)
  note slot = slot_lookup [OF inv, of "item_key txof x"]
  show ?thesis
  proof (cases "fmlookup (pool_bySenderNonce p) (item_key txof x)")
    case None
    then show ?thesis
      using slot unseen by (intro fresh [OF False]) (simp_all add: pool_Add_def requeue_one_def)
  next
    case (Some h)
    then obtain i where "indexOfHash txof (pool_pending p) h = Some i" "i < length (pool_pending p)"
      "item_key txof (pool_pending p ! i) = item_key txof x" "item_hash txof (pool_pending p ! i) = h"
      using slot by auto
    then show ?thesis
      using unseen Some by (intro taken [OF False, of i]) (simp_all add: pool_Add_def requeue_one_def)
  qed
qed

lemma pool_Add_inv:
  assumes inv: "pool_inv txof p"
  shows "pool_inv txof (fst (pool_Add txof p x))"
  using inv
proof (cases rule: pool_Add_cases [of txof p x, case_names known taken fresh])
  case (taken i)
  then show ?thesis using replace_inv [OF inv taken(1,2) refl taken(3)] inv by simp
next
  case fresh
  then show ?thesis using append_inv [OF inv fresh(1,2)] inv by (simp add: add_new_def)
qed (use inv in simp)

lemma requeue_one_inv:
  assumes inv: "pool_inv txof p" and step: "requeue_one txof p x = Some q"
  shows "pool_inv txof q"
  using inv
proof (cases rule: pool_Add_cases [of txof p x, case_names known taken fresh])
  case (taken i)
  then show ?thesis using replace_inv [OF inv taken(1,2) refl taken(3)] inv step by (simp split: if_splits)
next
  case fresh
  then show ?thesis using append_inv [OF inv fresh(1,2)] inv step by (auto simp: requeue_new_def split: if_splits)
qed (use inv step in simp)

lemma pool_Requeue_inv: "pool_inv txof p \<Longrightarrow> pool_inv txof (pool_Requeue txof p xs)"
  by (induction xs arbitrary: p) (auto split: option.splits dest: requeue_one_inv)

lemma mset_drop_sub: "mset (drop n xs) \<subseteq># mset xs"
  by (metis append_take_drop_id mset_append mset_subset_eq_add_right)

lemma pool_Drain_inv: "pool_inv txof p \<Longrightarrow> pool_inv txof (fst (pool_Drain txof p limit))"
  by (simp add: pool_Drain_def Let_def rebuild_inv mset_drop_sub)

lemma pool_Remove_inv: "pool_inv txof p \<Longrightarrow> pool_inv txof (fst (pool_RemoveSenderFromNonce txof p s n))"
  by (simp add: pool_RemoveSenderFromNonce_def Let_def rebuild_inv multiset_filter_subset)

lemma pool_DrainHighest_inv: "pool_inv txof p \<Longrightarrow> pool_inv txof (fst (pool_DrainHighestValue txof p limit))"
  by (auto simp: pool_DrainHighestValue_def Let_def intro!: rebuild_inv split: sum.splits)

section \<open>The best task first\<close>

definition val :: "('a \<Rightarrow> Transaction) \<Rightarrow> 'a \<Rightarrow> int" where
  "val txof x = (case item_value txof x of None \<Rightarrow> 0 | Some v \<Rightarrow> v)"

definition priced :: "('a \<Rightarrow> Transaction) \<Rightarrow> 'a list \<Rightarrow> bool" where
  "priced txof xs \<longleftrightarrow> (\<forall>x \<in> set xs. item_value txof x = Some (val txof x))"

lemma pricedI: "(\<And>x. x \<in> set xs \<Longrightarrow> item_value txof x \<noteq> None) \<Longrightarrow> priced txof xs"
  by (fastforce simp: priced_def val_def)

text \<open>The current best, if there is one, carries its own value.\<close>

definition best_ok :: "('a \<Rightarrow> Transaction) \<Rightarrow> 'a best \<Rightarrow> bool" where
  "best_ok txof b \<longleftrightarrow> (\<forall>i x v. b = Some (i, x, v) \<longrightarrow> v = Some (val txof x))"

definition at_least :: "('a \<Rightarrow> Transaction) \<Rightarrow> 'a best \<Rightarrow> 'a best \<Rightarrow> bool" where
  "at_least txof b b' \<longleftrightarrow> (\<forall>i x v. b = Some (i, x, v) \<longrightarrow> (\<exists>j y w. b' = Some (j, y, w) \<and> val txof x \<le> val txof y))"

definition points_into :: "nat \<Rightarrow> 'a queues \<Rightarrow> 'a best \<Rightarrow> bool" where
  "points_into k qs b \<longleftrightarrow>
     (\<forall>i x v. b = Some (i, x, v) \<longrightarrow> k \<le> i \<and> i < k + length qs \<and> (\<exists>q. snd (qs ! (i - k)) = x # q))"

definition covers :: "('a \<Rightarrow> Transaction) \<Rightarrow> 'a queues \<Rightarrow> 'a best \<Rightarrow> bool" where
  "covers txof qs b \<longleftrightarrow>
     (\<forall>s x q. (s, x # q) \<in> set qs \<longrightarrow> (\<exists>j y w. b = Some (j, y, w) \<and> val txof x \<le> val txof y))"

lemma points_into_Cons:
  "points_into (Suc k) qs b \<Longrightarrow> points_into k ((s, q) # qs) b"
  by (auto simp: points_into_def nth_Cons' Suc_diff_le)

lemma best_head_spec:
  assumes "priced txof (concat (map snd qs))" and "best_ok txof b"
  shows "\<exists>b'. best_head txof k qs b = Inr b' \<and> best_ok txof b' \<and> at_least txof b b'
    \<and> (b' = b \<or> points_into k qs b') \<and> covers txof qs b'"
  using assms
proof (induction qs arbitrary: k b)
  case Nil
  then show ?case by (auto simp: at_least_def covers_def)
next
  case (Cons sq qs)
  obtain s q where sq: "sq = (s, q)" by (cases sq)
  have pr: "priced txof (concat (map snd qs))" using Cons.prems(1) by (auto simp: priced_def)
  show ?case
  proof (cases q)
    case Nil
    then show ?thesis
      using Cons.IH [OF pr Cons.prems(2), of "Suc k"] points_into_Cons [of k qs _ s q] by (auto simp: sq covers_def)
  next
    case (Cons x t)
    have vx: "item_value txof x = Some (val txof x)"
      using Cons.prems(1) Cons by (simp add: sq priced_def)
    define b1 where "b1 = (case b of None \<Rightarrow> Some (k, x, Some (val txof x))
      | Some (j, y, bv) \<Rightarrow> if val txof y < val txof x \<or> val txof x = val txof y \<and> earlier txof x y
                          then Some (k, x, Some (val txof x)) else Some (j, y, bv))"
    have step: "best_head txof k (sq # qs) b = best_head txof (Suc k) qs b1"
      using Cons.prems(2) by (cases b) (auto simp: sq Cons vx b1_def best_ok_def)
    have b1: "best_ok txof b1" "at_least txof b b1" "b1 = b \<or> points_into k (sq # qs) b1"
      "\<exists>j y w. b1 = Some (j, y, w) \<and> val txof x \<le> val txof y"
      using Cons.prems(2) by (auto simp: b1_def best_ok_def at_least_def points_into_def sq Cons
          split: option.splits if_splits)
    obtain b' where b': "best_head txof (Suc k) qs b1 = Inr b'" "best_ok txof b'" "at_least txof b1 b'"
      "b' = b1 \<or> points_into (Suc k) qs b'" "covers txof qs b'"
      using Cons.IH [OF pr b1(1)] by blast
    have "at_least txof b b'" using b1(2) b'(3) by (fastforce simp: at_least_def)
    moreover have "covers txof (sq # qs) b'"
      using b1(4) b'(3,5) by (fastforce simp: covers_def at_least_def sq Cons)
    moreover have "b' = b \<or> points_into k (sq # qs) b'"
      using b'(4) b1(3) points_into_Cons [of k qs b' s q] by (auto simp: sq)
    ultimately show ?thesis using step b'(1,2) by auto
  qed
qed

text \<open>What the queues of a drain look like: one per sender, holding that sender's items.\<close>

definition queues_ok :: "('a \<Rightarrow> Transaction) \<Rightarrow> 'a queues \<Rightarrow> bool" where
  "queues_ok txof qs \<longleftrightarrow> distinct (map fst qs) \<and> (\<forall>(s, q) \<in> set qs. \<forall>x \<in> set q. tx_From (txof x) = s)"

definition from_sender :: "('a \<Rightarrow> Transaction) \<Rightarrow> string \<Rightarrow> 'a list \<Rightarrow> 'a list" where
  "from_sender txof s xs = filter (\<lambda>x. tx_From (txof x) = s) xs"

lemma pop_mset:
  assumes "i < length qs" and "snd (qs ! i) = x # q"
  shows "mset (concat (map snd qs)) = add_mset x (mset (concat (map snd (pop_queue i qs))))"
proof -
  have "qs = take i qs @ qs ! i # drop (Suc i) qs" using assms(1) by (rule id_take_nth_drop)
  then have "mset (concat (map snd qs)) = mset (concat (map snd (take i qs @ qs ! i # drop (Suc i) qs)))" by simp
  moreover have "pop_queue i qs = take i qs @ (fst (qs ! i), q) # drop (Suc i) qs"
    using assms by (simp add: pop_queue_def upd_conv_take_nth_drop)
  ultimately show ?thesis by (simp add: assms(2))
qed

lemma pop_queues_ok:
  assumes ok: "queues_ok txof qs" and i: "i < length qs" and x: "snd (qs ! i) = x # q"
  shows "queues_ok txof (pop_queue i qs)" and "tx_From (txof x) = fst (qs ! i)"
proof -
  have mem: "(fst (qs ! i), x # q) \<in> set qs" using i x by (metis nth_mem prod.collapse)
  then show "tx_From (txof x) = fst (qs ! i)" using ok by (fastforce simp: queues_ok_def)
  have fsts: "map fst (pop_queue i qs) = map fst qs"
    using i by (simp add: pop_queue_def map_update list_update_same_conv)
  have "\<forall>y \<in> set q. tx_From (txof y) = fst (qs ! i)" using mem ok by (fastforce simp: queues_ok_def)
  moreover have "set (pop_queue i qs) \<subseteq> insert (fst (qs ! i), q) (set qs)"
    unfolding pop_queue_def x using set_update_subset_insert by fastforce
  ultimately show "queues_ok txof (pop_queue i qs)"
    using ok unfolding queues_ok_def fsts by fastforce
qed

text \<open>
  The contract of the selection: every chosen item is, among the heads its sender queues had at that
  point, one of highest value; each queue is taken from its front; and it stops only at the limit or when
  every queue is empty.
\<close>

definition selection :: "('a \<Rightarrow> Transaction) \<Rightarrow> nat \<Rightarrow> 'a queues \<Rightarrow> 'a list \<Rightarrow> bool" where
  "selection txof n qs sel \<longleftrightarrow>
     length sel = min n (length (concat (map snd qs))) \<and> mset sel \<subseteq># mset (concat (map snd qs))
     \<and> (\<forall>j < length qs. prefix (from_sender txof (fst (qs ! j)) sel) (snd (qs ! j)))
     \<and> (\<forall>m < length sel. \<forall>j < length qs.
          (case drop (length (from_sender txof (fst (qs ! j)) (take m sel))) (snd (qs ! j)) of
             [] \<Rightarrow> True | y # _ \<Rightarrow> val txof y \<le> val txof (sel ! m)))"

lemma selection_Nil:
  assumes "\<And>s q. (s, q) \<in> set qs \<Longrightarrow> q = []"
  shows "selection txof n qs []"
proof -
  have "concat (map snd qs) = []" using assms by fastforce
  then show ?thesis by (simp only: selection_def from_sender_def) simp
qed

lemma selection_Cons:
  assumes ok: "queues_ok txof qs" and i: "i < length qs" and x: "snd (qs ! i) = x # q"
    and best: "\<And>s y t. (s, y # t) \<in> set qs \<Longrightarrow> val txof y \<le> val txof x"
    and rest: "selection txof n (pop_queue i qs) sel"
  shows "selection txof (Suc n) qs (x # sel)"
proof -
  note sender = pop_queues_ok(2) [OF ok i x]
  have len: "length (pop_queue i qs) = length qs" by (simp add: pop_queue_def)
  have other: "pop_queue i qs ! j = (if j = i then (fst (qs ! i), q) else qs ! j)" if "j < length qs" for j
    using that x by (simp add: pop_queue_def)
  have mine: "tx_From (txof x) = fst (qs ! j) \<longleftrightarrow> j = i" if "j < length qs" for j
    using ok that i sender by (auto simp: queues_ok_def distinct_conv_nth)
  have pre: "prefix (from_sender txof (fst (qs ! j)) (x # sel)) (snd (qs ! j))" if j: "j < length qs" for j
    using rest j mine [OF j] other [OF j] x by (auto simp: selection_def len from_sender_def split: if_splits)
  have greedy: "case drop (length (from_sender txof (fst (qs ! j)) (take m (x # sel)))) (snd (qs ! j)) of
      [] \<Rightarrow> True | y # _ \<Rightarrow> val txof y \<le> val txof ((x # sel) ! m)"
    if m: "m < length (x # sel)" and j: "j < length qs" for m j
  proof (cases m)
    case 0
    then show ?thesis
      using best [of "fst (qs ! j)" "hd (snd (qs ! j))" "tl (snd (qs ! j))"] nth_mem [OF j]
      by (cases "qs ! j", cases "snd (qs ! j)") (simp_all add: from_sender_def)
  next
    case (Suc k)
    then have "case drop (length (from_sender txof (fst (pop_queue i qs ! j)) (take k sel))) (snd (pop_queue i qs ! j)) of
        [] \<Rightarrow> True | y # _ \<Rightarrow> val txof y \<le> val txof (sel ! k)"
      using rest m j by (simp add: selection_def len)
    then show ?thesis using Suc other [OF j] mine [OF j] x by (auto simp: from_sender_def split: if_splits list.splits)
  qed
  have "mset (concat (map snd qs)) = add_mset x (mset (concat (map snd (pop_queue i qs))))" by (rule pop_mset [OF i x])
  moreover from this have "length (concat (map snd qs)) = Suc (length (concat (map snd (pop_queue i qs))))"
    by (metis size_add_mset size_mset)
  ultimately show ?thesis using rest pre greedy by (simp add: selection_def)
qed

lemma drain_loop_spec:
  assumes "queues_ok txof qs" and "priced txof (concat (map snd qs))"
  shows "\<exists>sel. drain_loop txof n qs = Inr sel \<and> selection txof n qs sel"
  using assms
proof (induction n arbitrary: qs)
  case 0
  then show ?case by (simp add: selection_def from_sender_def)
next
  case (Suc n)
  obtain b where b: "best_head txof 0 qs None = Inr b" "points_into 0 qs b" "covers txof qs b"
    using best_head_spec [OF Suc.prems(2), of None 0] by (auto simp: best_ok_def points_into_def)
  show ?case
  proof (cases b)
    case None
    then have "q = []" if "(s, q) \<in> set qs" for s q
      using b(3) that by (cases q) (auto simp: covers_def)
    from selection_Nil [OF this] show ?thesis using b(1) None by simp
  next
    case (Some w)
    then obtain i x v q where w: "b = Some (i, x, v)" "i < length qs" "snd (qs ! i) = x # q"
      using b(2) by (cases w) (auto simp: points_into_def)
    have "priced txof (concat (map snd (pop_queue i qs)))"
      using Suc.prems(2) pop_mset [OF w(2,3), THEN arg_cong [where f = set_mset]]
      unfolding priced_def set_mset_mset set_mset_add_mset_insert by blast
    then obtain sel where sel: "drain_loop txof n (pop_queue i qs) = Inr sel" "selection txof n (pop_queue i qs) sel"
      using Suc.IH [OF pop_queues_ok(1) [OF Suc.prems(1) w(2,3)]] by blast
    have "selection txof (Suc n) qs (x # sel)"
      by (rule selection_Cons [OF Suc.prems(1) w(2,3) _ sel(2)]) (use b(3) w(1) in \<open>auto simp: covers_def\<close>)
    then show ?thesis using b(1) w(1) sel(1) by simp
  qed
qed

subsection \<open>The queues of the pool\<close>

lemma queue_push_fst:
  "map fst (queue_push s x qs) = (if s \<in> set (map fst qs) then map fst qs else map fst qs @ [s])"
  by (induction s x qs rule: queue_push.induct) auto

lemma queue_push_mset: "mset (concat (map snd (queue_push s x qs))) = add_mset x (mset (concat (map snd qs)))"
  by (induction s x qs rule: queue_push.induct) auto

lemma queue_push_mem:
  "distinct (map fst qs) \<Longrightarrow> (t, q) \<in> set (queue_push s x qs) \<Longrightarrow>
   (t \<noteq> s \<and> (t, q) \<in> set qs) \<or> (t = s \<and> (\<exists>q0. q = q0 @ [x] \<and> ((s, q0) \<in> set qs \<or> q0 = [] \<and> s \<notin> fst ` set qs)))"
  by (induction s x qs rule: queue_push.induct) (force split: if_splits)+

definition grouped :: "('a \<Rightarrow> Transaction) \<Rightarrow> 'a list \<Rightarrow> 'a queues \<Rightarrow> bool" where
  "grouped txof xs qs \<longleftrightarrow> distinct (map fst qs) \<and> mset (concat (map snd qs)) = mset xs
     \<and> set (map fst qs) = (\<lambda>x. tx_From (txof x)) ` set xs
     \<and> (\<forall>(s, q) \<in> set qs. q = from_sender txof s xs)"

lemma grouped_push:
  assumes "grouped txof xs qs"
  shows "grouped txof (xs @ [x]) (queue_push (tx_From (txof x)) x qs)"
proof -
  have "q = from_sender txof t (xs @ [x])" if "(t, q) \<in> set (queue_push (tx_From (txof x)) x qs)" for t q
    using queue_push_mem [OF _ that] assms
    by (fastforce simp: grouped_def from_sender_def filter_empty_conv image_iff)
  then show ?thesis
    using assms by (auto simp: grouped_def queue_push_fst queue_push_mset)
qed

lemma grouped_fold: "grouped txof xs (fold (\<lambda>x qs. queue_push (tx_From (txof x)) x qs) xs [])"
proof (induction xs rule: rev_induct)
  case (snoc x xs)
  then show ?case by (simp add: grouped_push)
qed (simp add: grouped_def)

lemma sender_queues_spec:
  "queues_ok txof (sender_queues txof xs)" "mset (concat (map snd (sender_queues txof xs))) = mset xs"
  "set (map fst (sender_queues txof xs)) = (\<lambda>x. tx_From (txof x)) ` set xs"
  "(s, q) \<in> set (sender_queues txof xs) \<Longrightarrow> q = sort_key (queue_order txof) (from_sender txof s xs)"
proof -
  define qs where "qs = fold (\<lambda>x qs. queue_push (tx_From (txof x)) x qs) xs []"
  have g: "grouped txof xs qs" unfolding qs_def by (rule grouped_fold)
  have sq: "sender_queues txof xs = map (\<lambda>(s, q). (s, sort_key (queue_order txof) q)) qs"
    by (simp add: sender_queues_def qs_def)
  have fsts: "map fst (sender_queues txof xs) = map fst qs" by (simp add: sq comp_def split_beta)
  then show "set (map fst (sender_queues txof xs)) = (\<lambda>x. tx_From (txof x)) ` set xs"
    using g by (simp only: grouped_def)
  show q: "(s, q) \<in> set (sender_queues txof xs) \<Longrightarrow> q = sort_key (queue_order txof) (from_sender txof s xs)" for s q
    using g by (auto simp: sq grouped_def)
  have "tx_From (txof x) = s" if "(s, q) \<in> set (sender_queues txof xs)" "x \<in> set q" for s q x
    using q [OF that(1)] that(2) by (simp add: from_sender_def)
  then show "queues_ok txof (sender_queues txof xs)"
    using g unfolding queues_ok_def fsts by (auto simp: grouped_def)
  have "mset (concat (map snd (map (\<lambda>(s, q). (s, sort_key (queue_order txof) q)) zs))) = mset (concat (map snd zs))" for zs
    by (induction zs) auto
  then show "mset (concat (map snd (sender_queues txof xs))) = mset xs"
    using g unfolding sq grouped_def by metis
qed

lemma from_sender_nil: "s \<notin> (\<lambda>x. tx_From (txof x)) ` set xs \<Longrightarrow> from_sender txof s xs = []"
  by (auto simp: from_sender_def filter_empty_conv)

lemma remaining_mset:
  assumes "distinct (map f xs)" and "mset sel \<subseteq># mset xs"
  shows "mset xs = mset sel + mset (filter (\<lambda>x. f x \<notin> set (map f sel)) xs)"
proof -
  have inj: "inj_on f (set xs)" and "distinct xs" using assms(1) by (auto simp: distinct_map)
  have sub: "set sel \<subseteq> set xs" using assms(2) by (metis set_mset_mono set_mset_mset)
  have "distinct sel" using distinct_map_sub [OF assms(2) assms(1)] by (simp add: distinct_map)
  have same: "f x \<in> set (map f sel) \<longleftrightarrow> x \<in> set sel" if "x \<in> set xs" for x
    using inj sub that by (auto simp: inj_on_def)
  have "mset (filter (\<lambda>x. x \<in> set sel) xs) = mset sel"
    using \<open>distinct xs\<close> \<open>distinct sel\<close> sub by (subst set_eq_iff_mset_eq_distinct [symmetric]) auto
  moreover have "filter (\<lambda>x. f x \<notin> set (map f sel)) xs = filter (\<lambda>x. \<not> x \<in> set sel) xs"
    by (rule filter_cong) (use same in auto)
  moreover have "mset xs = mset (filter (\<lambda>x. x \<in> set sel) xs) + mset (filter (\<lambda>x. \<not> x \<in> set sel) xs)"
    unfolding mset_filter by (rule multiset_partition)
  ultimately show ?thesis by metis
qed

lemma drain_highest_spec:
  assumes inv: "pool_inv txof p" and pr: "priced txof (pool_pending p)"
  obtains sel p' where "pool_DrainHighestValue txof p limit = (p', Inr sel)"
    and "mset (pool_pending p) = mset sel + mset (pool_pending p')"
    and "length sel = effective_limit limit (pool_pending p)"
    and "\<And>s. prefix (from_sender txof s sel) (sort_key (queue_order txof) (pool_PendingForSender txof p s))"
    and "\<And>m s y t. m < length sel \<Longrightarrow>
      drop (length (from_sender txof s (take m sel))) (sort_key (queue_order txof) (pool_PendingForSender txof p s)) = y # t
      \<Longrightarrow> val txof y \<le> val txof (sel ! m)"
proof (cases "effective_limit limit (pool_pending p) = 0")
  case True
  then show ?thesis by (intro that [of p "[]"]) (simp_all add: pool_DrainHighestValue_def from_sender_def)
next
  case False
  let ?xs = "pool_pending p" and ?n = "effective_limit limit (pool_pending p)"
  define qs where "qs = sender_queues txof ?xs"
  note spec = sender_queues_spec [where txof = txof and xs = ?xs, folded qs_def]
  have "priced txof (concat (map snd qs))"
    using pr spec(2) [THEN arg_cong [where f = set_mset]] unfolding priced_def set_mset_mset by simp
  then obtain sel where run: "drain_loop txof ?n qs = Inr sel" and sel: "selection txof ?n qs sel"
    using drain_loop_spec [OF spec(1)] by blast
  have size: "length (concat (map snd qs)) = length ?xs" using spec(2) by (metis size_mset)
  have sub: "mset sel \<subseteq># mset ?xs" using sel spec(2) by (simp add: selection_def)
  have queue: "\<exists>j < length qs. fst (qs ! j) = s \<and> snd (qs ! j) = sort_key (queue_order txof) (pool_PendingForSender txof p s)"
    if "s \<in> (\<lambda>x. tx_From (txof x)) ` set ?xs" for s
  proof -
    have "s \<in> set (map fst qs)" using that spec(3) by (simp only:)
    then obtain j where j: "j < length qs" "fst (qs ! j) = s" by (auto simp: in_set_conv_nth)
    then have "(s, snd (qs ! j)) \<in> set qs" by (metis nth_mem prod.collapse)
    with j spec(4) show ?thesis by (auto simp: from_sender_def pool_PendingForSender_def)
  qed
  have sender: "from_sender txof s sel = [] \<and> pool_PendingForSender txof p s = []"
    if "s \<notin> (\<lambda>x. tx_From (txof x)) ` set ?xs" for s
    using that sub [THEN set_mset_mono] from_sender_nil [of s txof sel] from_sender_nil [of s txof ?xs]
    by (auto simp: from_sender_def pool_PendingForSender_def)
  let ?p = "rebuildIndices txof (p\<lparr>pool_pending := filter (\<lambda>x. item_hash txof x \<notin> set (map (item_hash txof) sel)) ?xs\<rparr>)"
  show ?thesis
  proof (rule that [of ?p sel])
    show "pool_DrainHighestValue txof p limit = (?p, Inr sel)"
      using False run by (simp add: pool_DrainHighestValue_def qs_def)
    show "mset ?xs = mset sel + mset (pool_pending ?p)"
      using remaining_mset [OF pool_invD(1) [OF inv] sub] by simp
    have "?n \<le> length ?xs" by (auto simp: effective_limit_def)
    then show "length sel = ?n" using sel size by (simp add: selection_def)
    show "prefix (from_sender txof s sel) (sort_key (queue_order txof) (pool_PendingForSender txof p s))" for s
      using queue [of s] sender [of s] sel unfolding selection_def by (metis Nil_prefix)
    show "val txof y \<le> val txof (sel ! m)" if "m < length sel"
      and "drop (length (from_sender txof s (take m sel))) (sort_key (queue_order txof) (pool_PendingForSender txof p s)) = y # t"
      for m s y t
    proof -
      have "s \<in> (\<lambda>x. tx_From (txof x)) ` set ?xs" using sender [of s] that(2) by force
      then obtain j where "j < length qs" "fst (qs ! j) = s"
        "snd (qs ! j) = sort_key (queue_order txof) (pool_PendingForSender txof p s)" using queue by blast
      with sel that show ?thesis unfolding selection_def by (metis list.case(2))
    qed
  qed
qed

lemma drain_highest_ex:
  assumes "pool_inv txof p" and "priced txof (pool_pending p)"
  shows "\<exists>sel p'. pool_DrainHighestValue txof p limit = (p', Inr sel)
    \<and> mset (pool_pending p) = mset sel + mset (pool_pending p')
    \<and> length sel = effective_limit limit (pool_pending p)
    \<and> (\<forall>s. prefix (from_sender txof s sel) (sort_key (queue_order txof) (pool_PendingForSender txof p s)))
    \<and> (\<forall>m s y t. m < length sel \<and>
        drop (length (from_sender txof s (take m sel))) (sort_key (queue_order txof) (pool_PendingForSender txof p s)) = y # t
        \<longrightarrow> val txof y \<le> val txof (sel ! m))"
  by (rule drain_highest_spec [OF assms, of limit]) blast

section \<open>Putting back what was drained\<close>

lemma requeue_appends:
  assumes "pool_inv txof q"
    and "distinct (map (item_hash txof) (pool_pending q @ xs))" and "distinct (map (item_key txof) (pool_pending q @ xs))"
    and "0 < pool_limit q \<longrightarrow> int (length (pool_pending q @ xs)) \<le> pool_limit q"
    and "0 < pool_senderLimit q \<longrightarrow> (\<forall>s. int (length (from_sender txof s (pool_pending q @ xs))) \<le> pool_senderLimit q)"
  shows "pool_pending (pool_Requeue txof q xs) = pool_pending q @ xs"
  using assms
proof (induction xs arbitrary: q)
  case (Cons x xs)
  note inv = Cons.prems(1)
  have fresh: "item_hash txof x \<notin> item_hash txof ` set (pool_pending q)"
    "item_key txof x \<notin> item_key txof ` set (pool_pending q)" using Cons.prems(2,3) by auto
  have room: "\<not> pool_full q" using Cons.prems(4) by (auto simp: pool_full_def)
  have "0 < pool_senderLimit q \<Longrightarrow>
      int (length (from_sender txof (tx_From (txof x)) (pool_pending q @ x # xs))) \<le> pool_senderLimit q"
    using Cons.prems(5) by blast
  then have sroom: "\<not> sender_full q (tx_From (txof x))"
    by (auto simp: sender_full_def pool_invD(5) [OF inv] counts_of_get from_sender_def)
  have step: "requeue_one txof q x = Some (append_item txof q x)"
    using inv
  proof (cases rule: pool_Add_cases [of txof q x, case_names known taken fresh'])
    case (taken i)
    then show ?thesis using fresh(2) by (metis image_eqI nth_mem)
  next
    case fresh'
    then show ?thesis using room sroom by (simp add: requeue_new_def)
  qed (use fresh(1) in simp)
  have "pool_pending (pool_Requeue txof (append_item txof q x) xs) = pool_pending (append_item txof q x) @ xs"
  proof (rule Cons.IH)
    show "pool_inv txof (append_item txof q x)" by (rule append_inv [OF inv fresh room sroom])
  qed (use Cons.prems(2-5) in \<open>simp_all add: append_item_def\<close>)
  then show ?case by (simp add: step append_item_def)
qed simp

lemma requeue_restores:
  assumes inv: "pool_inv txof p" and inv': "pool_inv txof q" and parts: "mset (pool_pending p) = mset (out @ pool_pending q)"
    and lim: "pool_limit q = pool_limit p" "pool_senderLimit q = pool_senderLimit p"
  shows "mset (pool_pending (pool_Requeue txof q out)) = mset (pool_pending p)"
proof -
  let ?all = "pool_pending q @ out"
  have all: "mset ?all = mset (pool_pending p)" using parts by (simp add: add.commute)
  have sub: "mset ?all \<subseteq># mset (pool_pending p)" using all by simp
  have lens: "length (filter P ?all) = length (filter P (pool_pending p))" for P
    using all by (metis mset_filter size_mset)
  have "pool_pending (pool_Requeue txof q out) = ?all"
  proof (rule requeue_appends [OF inv'])
    show "distinct (map (item_hash txof) ?all)" by (rule distinct_map_sub [OF sub pool_invD(1) [OF inv]])
    show "distinct (map (item_key txof) ?all)" by (rule distinct_map_sub [OF sub pool_invD(2) [OF inv]])
    show "0 < pool_limit q \<longrightarrow> int (length ?all) \<le> pool_limit q"
      using inv lim(1) lens [of "\<lambda>_. True"] by (simp add: pool_inv_def)
    show "0 < pool_senderLimit q \<longrightarrow> (\<forall>s. int (length (from_sender txof s ?all)) \<le> pool_senderLimit q)"
      using inv lim(2) lens by (simp add: pool_inv_def from_sender_def pool_PendingForSender_def del: filter_append)
  qed
  then show ?thesis by (simp only: all)
qed

section \<open>The contract of a pool\<close>

text \<open>
  What the engine relies on: each operation keeps the invariant, brings in nothing but what it was
  given, and splits what it takes out from what it leaves.
\<close>

datatype 'a pool_op = Submit 'a | Put_back "'a list" | Take int | Evict string u64

locale mempool =
  fixes txof :: "'a \<Rightarrow> Transaction"
    and add :: "'a pool \<Rightarrow> 'a \<Rightarrow> 'a pool \<times> unit res"
    and requeue :: "'a pool \<Rightarrow> 'a list \<Rightarrow> 'a pool"
    and drain :: "'a pool \<Rightarrow> int \<Rightarrow> 'a pool \<times> 'a list res"
    and evict :: "'a pool \<Rightarrow> string \<Rightarrow> u64 \<Rightarrow> 'a pool \<times> 'a list"
  assumes add_inv: "pool_inv txof p \<Longrightarrow> pool_inv txof (fst (add p x))"
    and requeue_inv: "pool_inv txof p \<Longrightarrow> pool_inv txof (requeue p xs)"
    and drain_inv: "pool_inv txof p \<Longrightarrow> pool_inv txof (fst (drain p n))"
    and evict_inv: "pool_inv txof p \<Longrightarrow> pool_inv txof (fst (evict p s k))"
    and add_mem: "set (pool_pending (fst (add p x))) \<subseteq> insert x (set (pool_pending p))"
    and requeue_mem: "set (pool_pending (requeue p xs)) \<subseteq> set xs \<union> set (pool_pending p)"
    and drain_mem: "set (pool_pending (fst (drain p n))) \<subseteq> set (pool_pending p)"
    and evict_mem: "set (pool_pending (fst (evict p s k))) \<subseteq> set (pool_pending p)"
begin

definition step :: "'a pool_op \<Rightarrow> 'a pool \<Rightarrow> 'a pool" where
  "step op p = (case op of
     Submit x \<Rightarrow> fst (add p x) | Put_back xs \<Rightarrow> requeue p xs | Take n \<Rightarrow> fst (drain p n) | Evict s k \<Rightarrow> fst (evict p s k))"

definition brought :: "'a pool_op \<Rightarrow> 'a set" where
  "brought op = (case op of Submit x \<Rightarrow> {x} | Put_back xs \<Rightarrow> set xs | _ \<Rightarrow> {})"

lemma run_sound:
  "pool_inv txof p \<Longrightarrow> pool_inv txof (fold step ops p)
     \<and> set (pool_pending (fold step ops p)) \<subseteq> set (pool_pending p) \<union> (\<Union>op \<in> set ops. brought op)"
proof (induction ops arbitrary: p)
  case (Cons op ops)
  have inv: "pool_inv txof (step op p)"
    using Cons.prems by (cases op) (simp_all add: step_def add_inv requeue_inv drain_inv evict_inv)
  have mem: "set (pool_pending (step op p)) \<subseteq> set (pool_pending p) \<union> brought op"
    using add_mem requeue_mem drain_mem evict_mem by (cases op) (simp_all add: step_def brought_def, blast+)
  from Cons.IH [OF inv] mem show ?case by auto
qed simp

end

lemma replace_mem: "set (pool_pending (replace_item txof p i h x)) \<subseteq> insert x (set (pool_pending p))"
  by (simp add: replace_item_def set_update_subset_insert)

lemma pool_Add_mem: "set (pool_pending (fst (pool_Add txof p x))) \<subseteq> insert x (set (pool_pending p))"
  using replace_mem [of txof p _ _ x]
  by (auto simp: pool_Add_def add_new_def append_item_def split: option.splits if_splits)

lemma requeue_one_mem: "requeue_one txof p x = Some q \<Longrightarrow> set (pool_pending q) \<subseteq> insert x (set (pool_pending p))"
  using replace_mem [of txof p _ _ x]
  by (auto simp: requeue_one_def requeue_new_def append_item_def split: option.splits if_splits)

lemma pool_Requeue_mem: "set (pool_pending (pool_Requeue txof p xs)) \<subseteq> set xs \<union> set (pool_pending p)"
proof (induction xs arbitrary: p)
  case (Cons x xs)
  then show ?case using requeue_one_mem [of txof p x] by (fastforce split: option.splits)
qed simp

lemma pool_Drain_mem: "set (pool_pending (fst (pool_Drain txof p n))) \<subseteq> set (pool_pending p)"
  by (auto simp: pool_Drain_def Let_def dest: in_set_dropD)

lemma pool_Remove_mem: "set (pool_pending (fst (pool_RemoveSenderFromNonce txof p s k))) \<subseteq> set (pool_pending p)"
  by (auto simp: pool_RemoveSenderFromNonce_def Let_def)

lemma pool_DrainHighest_mem: "set (pool_pending (fst (pool_DrainHighestValue txof p n))) \<subseteq> set (pool_pending p)"
  by (auto simp: pool_DrainHighestValue_def Let_def split: sum.splits)

definition TxPool_take :: "TxPool \<Rightarrow> int \<Rightarrow> TxPool \<times> Transaction list res" where
  "TxPool_take p n = (case TxPool_Drain p n of (q, out) \<Rightarrow> (q, Inr out))"

lemma TxPool_take_fst: "fst (TxPool_take p n) = fst (TxPool_Drain p n)"
  by (simp add: TxPool_take_def split_beta)

lemmas TxPool_defs = TxPool_Add_def TxPool_Requeue_def TxPool_take_fst TxPool_Drain_def TxPool_RemoveSenderFromNonce_def

lemmas TaskPool_defs = TaskPool_Add_def TaskPool_Requeue_def TaskPool_DrainHighestValue_def
  TaskPool_RemoveSenderFromNonce_def

interpretation tx_pool: mempool "\<lambda>tx. tx" TxPool_Add TxPool_Requeue TxPool_take TxPool_RemoveSenderFromNonce
  by unfold_locales (simp_all add: TxPool_defs pool_Add_inv pool_Requeue_inv pool_Drain_inv pool_Remove_inv
      pool_Add_mem pool_Requeue_mem pool_Drain_mem pool_Remove_mem)

interpretation task_pool: mempool env_Transaction TaskPool_Add TaskPool_Requeue TaskPool_DrainHighestValue
    TaskPool_RemoveSenderFromNonce
  by unfold_locales (simp_all add: TaskPool_defs pool_Add_inv pool_Requeue_inv pool_DrainHighest_inv pool_Remove_inv
      pool_Add_mem pool_Requeue_mem pool_DrainHighest_mem pool_Remove_mem)

definition TxPool_step :: "Transaction pool_op \<Rightarrow> TxPool \<Rightarrow> TxPool" where
  "TxPool_step op p = (case op of
     Submit x \<Rightarrow> fst (TxPool_Add p x) | Put_back xs \<Rightarrow> TxPool_Requeue p xs | Take n \<Rightarrow> fst (TxPool_Drain p n)
   | Evict s k \<Rightarrow> fst (TxPool_RemoveSenderFromNonce p s k))"

definition TaskPool_step :: "SearchTaskEnvelope pool_op \<Rightarrow> TaskPool \<Rightarrow> TaskPool" where
  "TaskPool_step op p = (case op of
     Submit x \<Rightarrow> fst (TaskPool_Add p x) | Put_back xs \<Rightarrow> TaskPool_Requeue p xs
   | Take n \<Rightarrow> fst (TaskPool_DrainHighestValue p n) | Evict s k \<Rightarrow> fst (TaskPool_RemoveSenderFromNonce p s k))"

definition given :: "'a pool_op \<Rightarrow> 'a set" where
  "given op = (case op of Submit x \<Rightarrow> {x} | Put_back xs \<Rightarrow> set xs | _ \<Rightarrow> {})"

lemma pool_steps:
  "tx_pool.step = TxPool_step" "tx_pool.brought = given" "task_pool.step = TaskPool_step" "task_pool.brought = given"
  by (auto simp: fun_eq_iff tx_pool.step_def task_pool.step_def TxPool_step_def TaskPool_step_def tx_pool.brought_def
      task_pool.brought_def given_def TxPool_take_fst split: pool_op.splits)

lemma new_pools_inv: "pool_inv (\<lambda>tx. tx) NewTxPool" "pool_inv env_Transaction NewTaskPool"
  by (simp_all add: pool_inv_def NewTxPool_def NewTaskPool_def rebuildIndices_def pool_PendingForSender_def)

lemma requeue_one_limits:
  "requeue_one txof r x = Some r' \<Longrightarrow> pool_limit r' = pool_limit r \<and> pool_senderLimit r' = pool_senderLimit r"
  by (auto simp: requeue_one_def requeue_new_def append_item_def replace_item_def split: option.splits if_splits)

lemma pool_Requeue_limits [simp]:
  "pool_limit (pool_Requeue txof r xs) = pool_limit r" "pool_senderLimit (pool_Requeue txof r xs) = pool_senderLimit r"
  by (induction xs arbitrary: r) (auto split: option.splits dest: requeue_one_limits)

lemma TxPool_step_limits [simp]:
  "pool_limit (TxPool_step op p) = pool_limit p" "pool_senderLimit (TxPool_step op p) = pool_senderLimit p"
  by (cases op; simp add: TxPool_step_def TxPool_defs pool_Add_def add_new_def append_item_def replace_item_def
      pool_Drain_def pool_RemoveSenderFromNonce_def Let_def split: option.splits)+

lemma TaskPool_step_limits [simp]:
  "pool_limit (TaskPool_step op q) = pool_limit q" "pool_senderLimit (TaskPool_step op q) = pool_senderLimit q"
  by (cases op; simp add: TaskPool_step_def TaskPool_defs pool_Add_def add_new_def append_item_def replace_item_def
      pool_DrainHighestValue_def pool_RemoveSenderFromNonce_def Let_def split: option.splits sum.splits)+

lemma fold_TxPool_limits [simp]:
  "pool_limit (fold TxPool_step ops p) = pool_limit p" "pool_senderLimit (fold TxPool_step ops p) = pool_senderLimit p"
  by (induction ops arbitrary: p) simp_all

lemma fold_TaskPool_limits [simp]:
  "pool_limit (fold TaskPool_step ops q) = pool_limit q" "pool_senderLimit (fold TaskPool_step ops q) = pool_senderLimit q"
  by (induction ops arbitrary: q) simp_all

text \<open>
  Whatever sequence of submissions, put-backs, drains and evictions a fresh pool goes through, its indexes
  agree with its pending list, no hash and no nonce of a sender is pending twice, the capacity and the
  per-sender limit hold, and everything pending was once submitted or put back.
\<close>

theorem pools_run_sound:
  "(case fold TxPool_step ops NewTxPool of p \<Rightarrow>
      pool_inv (\<lambda>tx. tx) p \<and> length (pool_pending p) \<le> 4096
      \<and> (\<forall>s. length (TxPool_PendingForSender p s) \<le> 32) \<and> set (pool_pending p) \<subseteq> (\<Union>op \<in> set ops. given op))
   \<and> (case fold TaskPool_step ops' NewTaskPool of q \<Rightarrow>
      pool_inv env_Transaction q \<and> length (pool_pending q) \<le> 1024
      \<and> (\<forall>s. length (TaskPool_PendingForSender q s) \<le> 32) \<and> set (pool_pending q) \<subseteq> (\<Union>op \<in> set ops'. given op))"
proof -
  define p where "p = fold TxPool_step ops NewTxPool"
  define q where "q = fold TaskPool_step ops' NewTaskPool"
  have lim: "pool_limit p = 4096" "pool_senderLimit p = 32" "pool_limit q = 1024" "pool_senderLimit q = 32"
    by (simp_all add: p_def q_def NewTxPool_def NewTaskPool_def DefaultTxPoolLimit_def DefaultTaskPoolLimit_def
        DefaultSenderPendingLimit_def)
  have p: "pool_inv (\<lambda>tx. tx) p" "set (pool_pending p) \<subseteq> (\<Union>op \<in> set ops. given op)"
    using tx_pool.run_sound [OF new_pools_inv(1), of ops] by (simp_all add: pool_steps p_def NewTxPool_def)
  have q: "pool_inv env_Transaction q" "set (pool_pending q) \<subseteq> (\<Union>op \<in> set ops'. given op)"
    using task_pool.run_sound [OF new_pools_inv(2), of ops'] by (simp_all add: pool_steps q_def NewTaskPool_def)
  have "length (pool_pending p) \<le> 4096 \<and> (\<forall>s. length (TxPool_PendingForSender p s) \<le> 32)"
    using p(1) by (simp add: pool_inv_def lim TxPool_PendingForSender_def)
  moreover have "length (pool_pending q) \<le> 1024 \<and> (\<forall>s. length (TaskPool_PendingForSender q s) \<le> 32)"
    using q(1) by (simp add: pool_inv_def lim TaskPool_PendingForSender_def)
  ultimately show ?thesis using p q by (simp add: p_def [symmetric] q_def [symmetric])
qed

lemma shouldReplace_floor:
  assumes "SetString cur = Some a" and "SetString new = Some b" and "0 \<le> a"
  shows "shouldReplace cur new \<longleftrightarrow> a * 11 div 10 \<le> b"
proof -
  have "(a * 11000) sdiv 10000 = a * 11000 div 10000"
    using assms(3) by (simp add: signed_divide_int_def sgn_if)
  also have "\<dots> = a * 11 div 10" by simp
  finally show ?thesis using assms(1,2) by (simp add: shouldReplace_def DefaultReplacementBumpBPS_def)
qed

text \<open>
  What \<open>Add\<close> decides, in a pool in good order: a refused item leaves the pool as it was; a known hash is
  accepted silently; an item whose sender and nonce are taken replaces the pending one, in place, exactly
  when it pays at least eleven tenths of its value rounded down, so that below ten an equal value is enough;
  and a new item is appended exactly when neither the pool nor its sender's share is full.
\<close>

theorem pool_add_decision:
  assumes inv: "pool_inv txof p" and add: "pool_Add txof p x = (p', r)"
  shows "(r \<noteq> Inr () \<longrightarrow> p' = p)
    \<and> (item_hash txof x \<in> item_hash txof ` set (pool_pending p) \<longrightarrow> p' = p \<and> r = Inr ())
    \<and> (item_hash txof x \<notin> item_hash txof ` set (pool_pending p) \<longrightarrow>
        (\<forall>i a b. i < length (pool_pending p) \<and> tx_From (txof (pool_pending p ! i)) = tx_From (txof x)
           \<and> tx_Nonce (txof (pool_pending p ! i)) = tx_Nonce (txof x)
           \<and> SetString (tx_Value (txof (pool_pending p ! i))) = Some a \<and> SetString (tx_Value (txof x)) = Some b \<and> 0 \<le> a
           \<longrightarrow> (if a * 11 div 10 \<le> b then r = Inr () \<and> pool_pending p' = (pool_pending p)[i := x]
               else r = Inl ErrReplacementUnderpriced))
        \<and> ((\<forall>y \<in> set (pool_pending p). tx_From (txof y) \<noteq> tx_From (txof x) \<or> tx_Nonce (txof y) \<noteq> tx_Nonce (txof x))
           \<longrightarrow> (if pool_full p then r = Inl ErrPoolFull
               else if 0 < pool_senderLimit p \<and> pool_senderLimit p \<le> int (length (pool_PendingForSender txof p (tx_From (txof x))))
               then r = Inl ErrSenderQueueFull
               else r = Inr () \<and> pool_pending p' = pool_pending p @ [x])))"
  using inv
proof (cases rule: pool_Add_cases [of txof p x, case_names known taken fresh])
  case known
  then show ?thesis using add by simp
next
  case (taken i)
  have unique: "j = i" if "j < length (pool_pending p)" "tx_From (txof (pool_pending p ! j)) = tx_From (txof x)"
    "tx_Nonce (txof (pool_pending p ! j)) = tx_Nonce (txof x)" for j
    using pool_invD(2) [OF inv] taken(2,3) that
    by (metis distinct_conv_nth item_key_same length_map nth_map)
  define up where "up = shouldReplace (tx_Value (txof (pool_pending p ! i))) (tx_Value (txof x))"
  have out: "if up then r = Inr () \<and> pool_pending p' = (pool_pending p)[i := x] else r = Inl ErrReplacementUnderpriced \<and> p' = p"
    using taken(4) add by (auto simp: up_def replace_item_def split: if_splits)
  have price: "up \<longleftrightarrow> a * 11 div 10 \<le> b"
    if "SetString (tx_Value (txof (pool_pending p ! i))) = Some a" "SetString (tx_Value (txof x)) = Some b" "0 \<le> a" for a b
    unfolding up_def by (rule shouldReplace_floor [OF that])
  have slot: "pool_pending p ! i \<in> set (pool_pending p)" "tx_From (txof (pool_pending p ! i)) = tx_From (txof x)"
    "tx_Nonce (txof (pool_pending p ! i)) = tx_Nonce (txof x)" using taken(2,3) by (simp_all add: item_key_same)
  show ?thesis
  proof (intro conjI impI allI, goal_cases)
    case 1
    then show ?case using out by (simp split: if_splits)
  next
    case (4 j a b)
    then have "j = i" using unique by blast
    then show ?case using 4 out price [of a b] by simp
  next
    case 5
    then show ?case using slot by blast
  qed (use taken(1) in simp_all)
next
  case fresh
  have "\<not> (tx_From (txof (pool_pending p ! i)) = tx_From (txof x) \<and> tx_Nonce (txof (pool_pending p ! i)) = tx_Nonce (txof x))"
    if "i < length (pool_pending p)" for i
    using fresh(2) that by (metis image_eqI item_key_same nth_mem)
  moreover have "sender_full p (tx_From (txof x)) \<longleftrightarrow> 0 < pool_senderLimit p
      \<and> pool_senderLimit p \<le> int (length (pool_PendingForSender txof p (tx_From (txof x))))"
    by (simp add: sender_full_def pool_invD(5) [OF inv] counts_of_get pool_PendingForSender_def)
  ultimately show ?thesis
    using fresh(1,3) add by (auto simp: add_new_def append_item_def split: if_splits)
qed

lemma pricedI_ValueBig: "(\<And>x. x \<in> set xs \<Longrightarrow> \<exists>v. ValueBig (txof x) = Inr v) \<Longrightarrow> priced txof xs"
  by (rule pricedI) (fastforce simp: item_value_def)

text \<open>
  Draining the task pool never panics on numeric values: it returns as many tasks as asked for (or all), it loses and
  duplicates nothing, it takes each sender's tasks in nonce order from the lowest, and every task it
  takes has at least the value of every task that was then next in line for its sender.
\<close>

theorem task_drain_greedy:
  assumes "pool_inv env_Transaction p"
    and "\<And>t. t \<in> set (pool_pending p) \<Longrightarrow> \<exists>v. ValueBig (env_Transaction t) = Inr v"
  shows "\<exists>sel p'. TaskPool_DrainHighestValue p limit = (p', Inr sel) \<and> pool_inv env_Transaction p'
    \<and> mset (pool_pending p) = mset sel + mset (pool_pending p')
    \<and> length sel = effective_limit limit (pool_pending p)
    \<and> (\<forall>s. prefix (from_sender env_Transaction s sel)
             (sort_key (queue_order env_Transaction) (TaskPool_PendingForSender p s)))
    \<and> (\<forall>m s y t. m < length sel \<and>
          drop (length (from_sender env_Transaction s (take m sel)))
            (sort_key (queue_order env_Transaction) (TaskPool_PendingForSender p s)) = y # t
          \<longrightarrow> val env_Transaction y \<le> val env_Transaction (sel ! m))"
proof -
  have "priced env_Transaction (pool_pending p)" by (rule pricedI_ValueBig) (rule assms(2))
  from drain_highest_ex [OF assms(1) this, of limit] show ?thesis
    using pool_DrainHighest_inv [OF assms(1), of limit]
    unfolding TaskPool_DrainHighestValue_def TaskPool_PendingForSender_def by (metis fst_conv)
qed

text \<open>
  When mining fails after a drain, putting back what was drained restores both pools to the same pending
  items: no limit and no collision drops one of them.
\<close>

theorem drain_requeue_restores:
  assumes "pool_inv env_Transaction p"
    and "\<And>t. t \<in> set (pool_pending p) \<Longrightarrow> \<exists>v. ValueBig (env_Transaction t) = Inr v"
    and "TaskPool_DrainHighestValue p limit = (q, Inr tasks)"
    and "pool_inv (\<lambda>tx. tx) P" and "TxPool_Drain P limit' = (Q, transfers)"
  shows "mset (pool_pending (TaskPool_Requeue q tasks)) = mset (pool_pending p)
    \<and> mset (pool_pending (TxPool_Requeue Q transfers)) = mset (pool_pending P)"
proof
  have pr: "priced env_Transaction (pool_pending p)" by (rule pricedI_ValueBig) (rule assms(2))
  obtain sel p' where run: "pool_DrainHighestValue env_Transaction p limit = (p', Inr sel)"
    and parts: "mset (pool_pending p) = mset sel + mset (pool_pending p')"
    using drain_highest_ex [OF assms(1) pr, of limit] by blast
  have q: "q = p'" "tasks = sel" using assms(3) run by (simp_all add: TaskPool_DrainHighestValue_def)
  have lim: "pool_limit q = pool_limit p" "pool_senderLimit q = pool_senderLimit p"
    using TaskPool_step_limits [of "Take limit" p] assms(3) by (simp_all add: TaskPool_step_def)
  have inv: "pool_inv env_Transaction q" using task_pool.drain_inv [OF assms(1), of limit] assms(3) by simp
  show "mset (pool_pending (TaskPool_Requeue q tasks)) = mset (pool_pending p)"
    unfolding TaskPool_Requeue_def by (rule requeue_restores [OF assms(1) inv _ lim]) (simp add: parts q)
  have limQ: "pool_limit Q = pool_limit P" "pool_senderLimit Q = pool_senderLimit P"
    using TxPool_step_limits [of "Take limit'" P] assms(5) by (simp_all add: TxPool_step_def)
  have invQ: "pool_inv (\<lambda>tx. tx) Q" using pool_Drain_inv [OF assms(4), of limit'] assms(5) by (simp add: TxPool_Drain_def)
  have "transfers @ pool_pending Q = pool_pending P"
    using assms(5) by (auto simp: TxPool_Drain_def pool_Drain_def Let_def)
  then show "mset (pool_pending (TxPool_Requeue Q transfers)) = mset (pool_pending P)"
    unfolding TxPool_Requeue_def by (intro requeue_restores [OF assms(4) invQ _ limQ]) simp
qed

definition toy_item :: "string \<Rightarrow> int \<Rightarrow> SearchTaskEnvelope" where
  "toy_item sender v =
     \<lparr>env_Transaction = (toy_tx TxTypeSearchTask v [])\<lparr>tx_From := sender, tx_Hash := sender\<rparr>,
      env_Request = \<lparr>req_Query = [], req_URL = [], req_BaseBounty = [], req_Difficulty = 0, req_DataVolumeBytes = 0\<rparr>,
      env_Task = \<lparr>ct_ID = [], ct_Query = [], ct_SeedURLs = [], ct_BaseDifficulty = 0, ct_Difficulty = 0,
        ct_AdjustedDifficulty = 0, ct_DataVolumeBytes = 0, ct_BaseBounty = None, ct_TotalBounty = None,
        ct_ArchitectFee = None, ct_MinerReward = None, ct_GovernanceMultiplierBPS = 0, ct_PrioritySectors = [],
        ct_CreatedAt = 0, ct_ExpiresAt = 0\<rparr>\<rparr>"

definition toy_tasks :: TaskPool where
  "toy_tasks = fst (TaskPool_Add (fst (TaskPool_Add NewTaskPool (toy_item ''a'' 3))) (toy_item ''b'' 7))"

definition toy_transfers :: TxPool where
  "toy_transfers = fst (TxPool_Add NewTxPool (toy_tx TxTypeTransfer 5 []))"

lemma toy_item_simps [simp]:
  "tx_Hash (env_Transaction (toy_item s v)) = s" "tx_From (env_Transaction (toy_item s v)) = s"
  "ValueBig (env_Transaction (toy_item s v)) = Inr v"
  by (simp_all add: toy_item_def ValueBig_def)

lemma toy_pools:
  "pool_inv env_Transaction toy_tasks" "pool_inv (\<lambda>tx. tx) toy_transfers"
  "pool_pending toy_tasks = [toy_item ''a'' 3, toy_item ''b'' 7]" "pool_pending toy_transfers = [toy_tx TxTypeTransfer 5 []]"
proof -
  show "pool_inv env_Transaction toy_tasks" "pool_inv (\<lambda>tx. tx) toy_transfers"
    unfolding toy_tasks_def toy_transfers_def TaskPool_Add_def TxPool_Add_def
    by (intro pool_Add_inv new_pools_inv)+
  have key: "item_key env_Transaction (toy_item ''b'' 7) \<noteq> item_key env_Transaction (toy_item ''a'' 3)"
    by (simp add: item_key_same)
  show "pool_pending toy_tasks = [toy_item ''a'' 3, toy_item ''b'' 7]"
    using key by (simp add: toy_tasks_def TaskPool_Add_def pool_Add_def NewTaskPool_def add_new_def pool_full_def
        sender_full_def append_item_def item_hash_def DefaultTaskPoolLimit_def DefaultSenderPendingLimit_def fm_get_def)
  show "pool_pending toy_transfers = [toy_tx TxTypeTransfer 5 []]"
    by (simp add: toy_transfers_def TxPool_Add_def pool_Add_def NewTxPool_def add_new_def pool_full_def
        sender_full_def append_item_def DefaultTxPoolLimit_def DefaultSenderPendingLimit_def)
qed

lemma toy_tasks_priced: "t \<in> set (pool_pending toy_tasks) \<Longrightarrow> \<exists>v. ValueBig (env_Transaction t) = Inr v"
  by (auto simp: toy_pools)

theorem pool_add_decision_witness:
  "\<exists>p'. pool_Add (\<lambda>tx. tx) toy_transfers ((toy_tx TxTypeTransfer 5 [])\<lparr>tx_Hash := ''n''\<rparr>) = (p', Inr ())
     \<and> pool_pending p' = [(toy_tx TxTypeTransfer 5 [])\<lparr>tx_Hash := ''n''\<rparr>]"
proof -
  let ?x = "(toy_tx TxTypeTransfer 5 [])\<lparr>tx_Hash := ''n''\<rparr>"
  obtain p' r where add: "pool_Add (\<lambda>tx. tx) toy_transfers ?x = (p', r)" by (cases "pool_Add (\<lambda>tx. tx) toy_transfers ?x")
  have "tx_Hash (toy_tx TxTypeTransfer 5 []) = []" by (simp add: toy_tx_def)
  then have "r = Inr () \<and> pool_pending p' = [?x]"
    using pool_add_decision [OF toy_pools(2) add] by (simp add: toy_pools item_hash_def)
  with add show ?thesis by blast
qed

theorem task_drain_greedy_witness:
  "\<exists>sel p'. TaskPool_DrainHighestValue toy_tasks 1 = (p', Inr sel) \<and> length sel = 1
     \<and> 7 \<le> val env_Transaction (sel ! 0)"
proof -
  obtain sel p' where sel: "TaskPool_DrainHighestValue toy_tasks 1 = (p', Inr sel)"
    "length sel = effective_limit 1 (pool_pending toy_tasks)"
    "\<forall>m s y t. m < length sel \<and>
          drop (length (from_sender env_Transaction s (take m sel)))
            (sort_key (queue_order env_Transaction) (TaskPool_PendingForSender toy_tasks s)) = y # t
          \<longrightarrow> val env_Transaction y \<le> val env_Transaction (sel ! m)"
    using task_drain_greedy [OF toy_pools(1) toy_tasks_priced, of 1] by auto
  have "length sel = 1" using sel(2) by (simp add: effective_limit_def toy_pools)
  moreover have "TaskPool_PendingForSender toy_tasks ''b'' = [toy_item ''b'' 7]"
    by (simp add: TaskPool_PendingForSender_def pool_PendingForSender_def toy_pools)
  ultimately have "val env_Transaction (toy_item ''b'' 7) \<le> val env_Transaction (sel ! 0)"
    using sel(3) [THEN spec [of _ 0], THEN spec [of _ "''b''"]] by (simp add: from_sender_def)
  then show ?thesis using sel(1) \<open>length sel = 1\<close> by (auto simp: val_def item_value_def)
qed

theorem drain_requeue_restores_witness:
  "\<exists>q tasks Q transfers. TaskPool_DrainHighestValue toy_tasks 1 = (q, Inr tasks) \<and> TxPool_Drain toy_transfers 1 = (Q, transfers)
     \<and> mset (pool_pending (TaskPool_Requeue q tasks)) = {#toy_item ''a'' 3, toy_item ''b'' 7#}
     \<and> mset (pool_pending (TxPool_Requeue Q transfers)) = {#toy_tx TxTypeTransfer 5 []#}"
proof -
  have pr: "priced env_Transaction (pool_pending toy_tasks)" by (rule pricedI_ValueBig) (rule toy_tasks_priced)
  obtain q tasks where q: "TaskPool_DrainHighestValue toy_tasks 1 = (q, Inr tasks)"
    using drain_highest_ex [OF toy_pools(1) pr, of 1] unfolding TaskPool_DrainHighestValue_def by blast
  obtain Q transfers where Q: "TxPool_Drain toy_transfers 1 = (Q, transfers)" by (cases "TxPool_Drain toy_transfers 1")
  from drain_requeue_restores [OF toy_pools(1) toy_tasks_priced q toy_pools(2) Q] q Q
  show ?thesis by (auto simp: toy_pools add_mset_commute)
qed

end
