(* ===== verification/Network.thy ===== *)
theory Network
  imports Ledger
begin

text \<open>
  Network configuration: \<open>src/core/network_config.go\<close> and the reconciliation of a stored with
  a requested configuration in \<open>src/core/blockchain.go\<close>. Reading and writing its file is in
  \<open>Operator_Tools\<close>. A wrapped or formatted error is the constructor \<open>ErrText\<close>
  with the fixed part of its message.
\<close>

record NetworkConfig =
  net_Name :: string
  net_ChainID :: u64
  net_GenesisAddress :: string
  net_ArchitectAddress :: string
  net_CirculatingSupply :: string
  net_Bootnodes :: "string list"
  net_SystemContracts :: "ContractRecord list"

definition DefaultNetworkConfig :: "env \<Rightarrow> NetworkConfig" where
  "DefaultNetworkConfig E =
     \<lparr>net_Name = ''unified-local'', net_ChainID = DefaultChainID, net_GenesisAddress = [],
      net_ArchitectAddress = TrimSpace GenesisArchitectAddress, net_CirculatingSupply = ''1000000'',
      net_Bootnodes = [], net_SystemContracts = ListSystemContracts E\<rparr>"

fun bootnodes_loop :: "string list \<Rightarrow> string list \<Rightarrow> string list" where
  "bootnodes_loop out [] = out"
| "bootnodes_loop out (v # vs) =
     (let cleaned = TrimSpace v in
      if cleaned = [] then bootnodes_loop out vs
      else if cleaned \<in> set out then bootnodes_loop out vs
      else bootnodes_loop (out @ [cleaned]) vs)"

definition normalizeBootnodes :: "string list \<Rightarrow> string list" where
  "normalizeBootnodes values = bootnodes_loop [] values"

definition validateProtocolAddress :: "env \<Rightarrow> string \<Rightarrow> string \<Rightarrow> unit res" where
  "validateProtocolAddress E label address =
     (let cleaned = TrimSpace address in
      if cleaned = [] \<or> Contains cleaned ''REPLACE_ME'' then Inr ()
      else (case ParseAddress E cleaned of Inl _ \<Rightarrow> Inl (ErrText (''core: invalid '' @ label)) | Inr _ \<Rightarrow> Inr ()))"

definition overlay :: "string \<Rightarrow> string \<Rightarrow> string" where
  "overlay fallback given_value = (if TrimSpace given_value \<noteq> [] then TrimSpace given_value else fallback)"

text \<open>The defaults overlaid with the given fields, and the checks on the result.\<close>

definition overlaid :: "env \<Rightarrow> NetworkConfig \<Rightarrow> NetworkConfig" where
  "overlaid E cfg =
     \<lparr>net_Name = overlay (net_Name (DefaultNetworkConfig E)) (net_Name cfg),
      net_ChainID = (if net_ChainID cfg \<noteq> 0 then net_ChainID cfg else net_ChainID (DefaultNetworkConfig E)),
      net_GenesisAddress = overlay (net_GenesisAddress (DefaultNetworkConfig E)) (net_GenesisAddress cfg),
      net_ArchitectAddress = overlay (net_ArchitectAddress (DefaultNetworkConfig E)) (net_ArchitectAddress cfg),
      net_CirculatingSupply = overlay (net_CirculatingSupply (DefaultNetworkConfig E)) (net_CirculatingSupply cfg),
      net_Bootnodes = normalizeBootnodes (net_Bootnodes cfg),
      net_SystemContracts = (if net_SystemContracts cfg \<noteq> [] then net_SystemContracts cfg
                             else net_SystemContracts (DefaultNetworkConfig E))\<rparr>"

definition NormalizeNetworkConfig :: "env \<Rightarrow> NetworkConfig \<Rightarrow> NetworkConfig res" where
  "NormalizeNetworkConfig E cfg =
     (let normalized = overlaid E cfg in
      if net_ChainID normalized = 0 then Inl (ErrText ''core: chain ID is required'')
      else
        (case validateProtocolAddress E ''genesis address'' (net_GenesisAddress normalized) of
           Inl e \<Rightarrow> Inl e
         | Inr _ \<Rightarrow>
             (case validateProtocolAddress E ''architect address'' (net_ArchitectAddress normalized) of
                Inl e \<Rightarrow> Inl e
              | Inr _ \<Rightarrow> Inr normalized)))"

section \<open>Reconciliation with a stored configuration\<close>

definition ensureNetworkValueMatch :: "string \<Rightarrow> string \<Rightarrow> string \<Rightarrow> unit res" where
  "ensureNetworkValueMatch label stored requested =
     (let s = TrimSpace stored; r = TrimSpace requested in
      if s = [] \<or> r = [] \<or> s = r then Inr () else Inl (ErrText (''core: '' @ label @ '' mismatch'')))"

definition ensureNetworkValueMatchWithFallback :: "string \<Rightarrow> string \<Rightarrow> string \<Rightarrow> string \<Rightarrow> unit res" where
  "ensureNetworkValueMatchWithFallback label stored requested fallback =
     (let r = TrimSpace requested in
      ensureNetworkValueMatch label stored (if r = TrimSpace fallback then [] else r))"

definition ensureNetworkUintMatch :: "string \<Rightarrow> u64 \<Rightarrow> u64 \<Rightarrow> unit res" where
  "ensureNetworkUintMatch label stored requested =
     (if stored = 0 \<or> requested = 0 \<or> stored = requested then Inr ()
      else Inl (ErrText (''core: '' @ label @ '' mismatch'')))"

definition ensureNetworkUintMatchWithFallback :: "string \<Rightarrow> u64 \<Rightarrow> u64 \<Rightarrow> u64 \<Rightarrow> unit res" where
  "ensureNetworkUintMatchWithFallback label stored requested fallback =
     ensureNetworkUintMatch label stored (if requested = fallback then 0 else requested)"

definition blank_config :: "NetworkConfig \<Rightarrow> bool" where
  "blank_config c \<longleftrightarrow> TrimSpace (net_Name c) = [] \<and> net_ChainID c = 0 \<and> TrimSpace (net_ArchitectAddress c) = []
     \<and> TrimSpace (net_GenesisAddress c) = [] \<and> TrimSpace (net_CirculatingSupply c) = [] \<and> net_SystemContracts c = []"

text \<open>A field of the stored configuration, filled from the request when blank; with whether it changed.\<close>

definition fill_text :: "string \<Rightarrow> string \<Rightarrow> string \<times> bool" where
  "fill_text stored requested =
     (if TrimSpace stored = [] \<and> TrimSpace requested \<noteq> [] then (requested, True) else (stored, False))"

definition fill_list :: "'a list \<Rightarrow> 'a list \<Rightarrow> 'a list \<times> bool" where
  "fill_list stored requested = (if stored = [] \<and> requested \<noteq> [] then (requested, True) else (stored, False))"

definition check_match :: "env \<Rightarrow> NetworkConfig \<Rightarrow> NetworkConfig \<Rightarrow> unit res" where
  "check_match E stored requested =
     (case ensureNetworkValueMatchWithFallback ''network architect address'' (net_ArchitectAddress stored)
             (net_ArchitectAddress requested) GenesisArchitectAddress of
        Inl e \<Rightarrow> Inl e
      | Inr _ \<Rightarrow>
          (case ensureNetworkValueMatch ''network genesis address'' (net_GenesisAddress stored) (net_GenesisAddress requested) of
             Inl e \<Rightarrow> Inl e
           | Inr _ \<Rightarrow>
               (case ensureNetworkUintMatchWithFallback ''network chain ID'' (net_ChainID stored) (net_ChainID requested)
                       DefaultChainID of
                  Inl e \<Rightarrow> Inl e
                | Inr _ \<Rightarrow>
                    ensureNetworkValueMatchWithFallback ''network circulating supply'' (net_CirculatingSupply stored)
                      (net_CirculatingSupply requested) (net_CirculatingSupply (DefaultNetworkConfig E)))))"

definition reconcileNetworkConfig ::
    "env \<Rightarrow> NetworkConfig \<Rightarrow> NetworkConfig \<Rightarrow> Block \<Rightarrow> (NetworkConfig \<times> bool) res" where
  "reconcileNetworkConfig E stored requested latest =
     (if blank_config stored then
        (let legacyMiner = TrimSpace (hdr_Miner (blk_Header latest));
             requestedArchitect = TrimSpace (net_ArchitectAddress requested) in
         if legacyMiner \<noteq> [] \<and> requestedArchitect \<noteq> [] \<and> requestedArchitect \<noteq> GenesisArchitectAddress
            \<and> requestedArchitect \<noteq> legacyMiner
         then Inl (ErrText ''core: existing chain architect address mismatch'')
         else
           (case NormalizeNetworkConfig E
                   (if legacyMiner \<noteq> [] then requested\<lparr>net_ArchitectAddress := legacyMiner\<rparr> else requested) of
              Inl e \<Rightarrow> Inl e
            | Inr normalized \<Rightarrow> Inr (normalized, True)))
      else
        (case check_match E stored requested of
           Inl e \<Rightarrow> Inl e
         | Inr _ \<Rightarrow>
             let name = fill_text (net_Name stored) (net_Name requested);
                 genesis = fill_text (net_GenesisAddress stored) (net_GenesisAddress requested);
                 architect = fill_text (net_ArchitectAddress stored) (net_ArchitectAddress requested);
                 chain = (if net_ChainID stored = 0 \<and> net_ChainID requested \<noteq> 0 then (net_ChainID requested, True)
                          else (net_ChainID stored, False));
                 supply_text = fill_text (net_CirculatingSupply stored) (net_CirculatingSupply requested);
                 boot = fill_list (net_Bootnodes stored) (net_Bootnodes requested);
                 system = fill_list (net_SystemContracts stored) (net_SystemContracts requested);
                 resolved = \<lparr>net_Name = fst name, net_ChainID = fst chain, net_GenesisAddress = fst genesis,
                             net_ArchitectAddress = fst architect, net_CirculatingSupply = fst supply_text,
                             net_Bootnodes = fst boot, net_SystemContracts = fst system\<rparr>;
                 changed = (snd name \<or> snd genesis \<or> snd architect \<or> snd chain \<or> snd supply_text
                            \<or> snd boot \<or> snd system)
             in (case NormalizeNetworkConfig E resolved of
                   Inl e \<Rightarrow> Inl e
                 | Inr normalized \<Rightarrow> Inr (normalized, changed))))"

text \<open>
  \<open>inferGenesisAddress\<close> walks a map, in no fixed order: the list is the order of one run. A nil
  amount counts as zero.
\<close>

definition infer_step :: "string \<Rightarrow> string \<times> int option \<Rightarrow> (string \<times> int) option \<Rightarrow> (string \<times> int) option" where
  "infer_step architectAddress entry best =
     (let cleaned = TrimSpace (fst entry); amount = cloneBigInt (snd entry) in
      if cleaned = [] \<or> cleaned = normalizedArchitectAddress architectAddress then best
      else
        (case best of
           None \<Rightarrow> Some (cleaned, amount)
         | Some (selected, most) \<Rightarrow>
             if most < amount \<or> amount = most \<and> cleaned < selected then Some (cleaned, amount) else best))"

definition inferGenesisAddress :: "(string \<times> int option) list \<Rightarrow> string \<Rightarrow> string" where
  "inferGenesisAddress balances architectAddress =
     (case fold (infer_step architectAddress) balances None of None \<Rightarrow> [] | Some (selected, _) \<Rightarrow> selected)"

section \<open>What normalisation guarantees\<close>

lemma bootnodes_loop_spec:
  assumes "distinct out" and "\<forall>x \<in> set out. x \<noteq> [] \<and> TrimSpace x = x"
  shows "distinct (bootnodes_loop out vs) \<and> (\<forall>x \<in> set (bootnodes_loop out vs). x \<noteq> [] \<and> TrimSpace x = x)"
  using assms
proof (induction vs arbitrary: out)
  case (Cons v vs)
  show ?case
  proof (cases "TrimSpace v = [] \<or> TrimSpace v \<in> set out")
    case True
    then show ?thesis using Cons.IH [OF Cons.prems] by (auto simp: Let_def)
  next
    case False
    then have "distinct (out @ [TrimSpace v])" "\<forall>x \<in> set (out @ [TrimSpace v]). x \<noteq> [] \<and> TrimSpace x = x"
      using Cons.prems by auto
    from Cons.IH [OF this] False show ?thesis by (simp add: Let_def)
  qed
qed simp

lemma bootnodes_loop_fixed:
  assumes "distinct (out @ vs)" and "\<forall>x \<in> set vs. x \<noteq> [] \<and> TrimSpace x = x"
  shows "bootnodes_loop out vs = out @ vs"
  using assms
proof (induction vs arbitrary: out)
  case (Cons v vs)
  then show ?case using Cons.IH [of "out @ [v]"] by (auto simp: Let_def)
qed simp

lemma normalizeBootnodes_idem: "normalizeBootnodes (normalizeBootnodes vs) = normalizeBootnodes vs"
  using bootnodes_loop_spec [of "[]" vs] bootnodes_loop_fixed [of "[]" "normalizeBootnodes vs"]
  by (simp add: normalizeBootnodes_def)

lemma overlay_idem [simp]: "TrimSpace d = d \<Longrightarrow> overlay d (overlay d v) = overlay d v"
  by (simp add: overlay_def)

lemma default_texts [simp]:
  "TrimSpace ''unified-local'' = ''unified-local''" "TrimSpace ''1000000'' = ''1000000''"
  by (rule TrimSpace_visible, simp add: visible_def byte_def)+

lemma overlaid_idem [simp]: "overlaid E (overlaid E cfg) = overlaid E cfg"
  by (simp add: overlaid_def DefaultNetworkConfig_def normalizeBootnodes_idem)

lemma NormalizeNetworkConfig_Inr:
  "NormalizeNetworkConfig E cfg = Inr n \<longleftrightarrow> n = overlaid E cfg \<and> net_ChainID n \<noteq> 0
     \<and> validateProtocolAddress E ''genesis address'' (net_GenesisAddress n) = Inr ()
     \<and> validateProtocolAddress E ''architect address'' (net_ArchitectAddress n) = Inr ()"
  by (auto simp: NormalizeNetworkConfig_def Let_def split: sum.splits)

lemma normalized_again: "NormalizeNetworkConfig E cfg = Inr n \<Longrightarrow> NormalizeNetworkConfig E n = Inr n"
  by (auto simp: NormalizeNetworkConfig_Inr)

lemma architect_nonempty: "GenesisArchitectAddress \<noteq> []"
  by (simp add: GenesisArchitectAddress_def)

lemma overlaid_texts:
  assumes "n = overlaid E cfg"
  shows "TrimSpace (net_Name n) = net_Name n" "net_Name n \<noteq> []"
    "TrimSpace (net_ArchitectAddress n) = net_ArchitectAddress n" "net_ArchitectAddress n \<noteq> []"
    "TrimSpace (net_CirculatingSupply n) = net_CirculatingSupply n" "net_CirculatingSupply n \<noteq> []"
    "TrimSpace (net_GenesisAddress n) = net_GenesisAddress n"
  using assms architect_nonempty by (auto simp: overlaid_def DefaultNetworkConfig_def overlay_def)

text \<open>
  A normalised configuration is a fixed point of normalisation; and when a node reopens a chain with a
  normalised configuration, the reconciled configuration keeps the stored chain id, name, architect, supply
  and, if it has one, genesis address, whatever was requested.
\<close>

theorem network_identity_kept:
  assumes norm: "NormalizeNetworkConfig E cfg = Inr stored"
    and rec: "reconcileNetworkConfig E stored requested latest = Inr (resolved, changed)"
  shows "NormalizeNetworkConfig E stored = Inr stored \<and> net_ChainID resolved = net_ChainID stored
    \<and> net_ArchitectAddress resolved = net_ArchitectAddress stored
    \<and> (net_GenesisAddress stored \<noteq> [] \<longrightarrow> net_GenesisAddress resolved = net_GenesisAddress stored)
    \<and> net_CirculatingSupply resolved = net_CirculatingSupply stored \<and> net_Name resolved = net_Name stored
    \<and> NormalizeNetworkConfig E resolved = Inr resolved"
proof -
  have chain: "net_ChainID stored \<noteq> 0" and stored: "stored = overlaid E cfg"
    using norm by (auto simp: NormalizeNetworkConfig_Inr)
  note t = overlaid_texts [OF stored]
  then have "\<not> blank_config stored" by (simp add: blank_config_def)
  then obtain r where r: "NormalizeNetworkConfig E r = Inr resolved" "net_ChainID r = net_ChainID stored"
    "net_ArchitectAddress r = net_ArchitectAddress stored" "net_CirculatingSupply r = net_CirculatingSupply stored"
    "net_Name r = net_Name stored" "net_GenesisAddress stored \<noteq> [] \<longrightarrow> net_GenesisAddress r = net_GenesisAddress stored"
    using rec t chain
    by (auto simp: reconcileNetworkConfig_def Let_def fill_text_def split: sum.splits)
  then have "resolved = overlaid E r" by (simp add: NormalizeNetworkConfig_Inr)
  then have "net_ChainID resolved = net_ChainID stored" "net_ArchitectAddress resolved = net_ArchitectAddress stored"
    "net_CirculatingSupply resolved = net_CirculatingSupply stored" "net_Name resolved = net_Name stored"
    "net_GenesisAddress stored \<noteq> [] \<longrightarrow> net_GenesisAddress resolved = net_GenesisAddress stored"
    using r(2-6) chain t by (auto simp: overlaid_def overlay_def)
  with normalized_again [OF norm] normalized_again [OF r(1)] show ?thesis by blast
qed

definition toy_network :: NetworkConfig where
  "toy_network = overlaid toy_env \<lparr>net_Name = [], net_ChainID = 7, net_GenesisAddress = [],
     net_ArchitectAddress = ''REPLACE_ME'', net_CirculatingSupply = [], net_Bootnodes = [], net_SystemContracts = []\<rparr>"

lemma toy_network_normal: "NormalizeNetworkConfig toy_env toy_network = Inr toy_network"
proof -
  have "TrimSpace ''REPLACE_ME'' = ''REPLACE_ME''" by (rule TrimSpace_visible) (simp add: visible_def byte_def)
  then have "net_GenesisAddress toy_network = []" "net_ArchitectAddress toy_network = ''REPLACE_ME''"
    "net_ChainID toy_network \<noteq> 0"
    by (simp_all add: toy_network_def overlaid_def overlay_def DefaultNetworkConfig_def)
  then show ?thesis
    using \<open>TrimSpace ''REPLACE_ME'' = ''REPLACE_ME''\<close>
    by (simp add: NormalizeNetworkConfig_Inr validateProtocolAddress_def Contains_def) (simp add: toy_network_def)
qed

theorem network_identity_kept_witness:
  "\<exists>resolved changed. reconcileNetworkConfig toy_env toy_network toy_network zero_Block = Inr (resolved, changed)
     \<and> net_ChainID resolved = 7 \<and> NormalizeNetworkConfig toy_env resolved = Inr resolved"
proof -
  note t = overlaid_texts [OF toy_network_def]
  have "\<not> blank_config toy_network" using t by (simp add: blank_config_def)
  moreover have "check_match toy_env toy_network toy_network = Inr ()"
    by (simp add: check_match_def ensureNetworkValueMatchWithFallback_def ensureNetworkValueMatch_def
        ensureNetworkUintMatchWithFallback_def ensureNetworkUintMatch_def Let_def)
  moreover have "\<lparr>net_Name = net_Name n, net_ChainID = net_ChainID n, net_GenesisAddress = net_GenesisAddress n,
      net_ArchitectAddress = net_ArchitectAddress n, net_CirculatingSupply = net_CirculatingSupply n,
      net_Bootnodes = net_Bootnodes n, net_SystemContracts = net_SystemContracts n\<rparr> = n" for n by simp
  ultimately obtain resolved changed where rec: "reconcileNetworkConfig toy_env toy_network toy_network zero_Block = Inr (resolved, changed)"
    using toy_network_normal by (simp add: reconcileNetworkConfig_def Let_def fill_text_def fill_list_def)
  have "net_ChainID toy_network = 7" by (simp add: toy_network_def overlaid_def)
  with network_identity_kept [OF toy_network_normal rec] rec show ?thesis by auto
qed

end
