(* ===== verification/Crawl.thy ===== *)
theory Crawl
  imports Ledger "HOL-Library.Product_Lexorder"
begin

text \<open>
  Crawl proofs (\<open>src/core/blockchain.go\<close>): normalisation, settlement against the escrow,
  the search index with its mention counts, and the autonomous tasks a proof spawns.
  \<open>ApplyCrawlProof\<close> changes the state only after its last check, so it returns either an
  error or the new state. Comparing a nil \<open>*big.Int\<close> with a number is a panic.
\<close>

definition maxStoredProofTitleBytes :: nat where
  "maxStoredProofTitleBytes = 1024"

definition maxStoredProofSnippetBytes :: nat where
  "maxStoredProofSnippetBytes = 512"

definition maxStoredProofBodyBytes :: nat where
  "maxStoredProofBodyBytes = 8192"

definition maxStoredProofOutboundLinks :: nat where
  "maxStoredProofOutboundLinks = 64"

definition autonomousCrawlMaxDepth :: u64 where
  "autonomousCrawlMaxDepth = 2"

definition autonomousCrawlLinksPerProof :: nat where
  "autonomousCrawlLinksPerProof = 4"

definition autonomousCrawlPendingTaskLimit :: nat where
  "autonomousCrawlPendingTaskLimit = 1024"

section \<open>Normalisation of a proof\<close>

text \<open>\<open>utf8.RuneLen\<close> on the runes a range loop yields, none of which is a surrogate.\<close>

definition RuneLen :: "nat \<Rightarrow> nat" where
  "RuneLen r = (if r < 128 then 1 else if r < 2048 then 2 else if r < 65536 then 3 else 4)"

fun truncate_runes :: "nat \<Rightarrow> nat \<Rightarrow> nat list \<Rightarrow> string" where
  "truncate_runes limit written [] = []"
| "truncate_runes limit written (r # rs) =
     (if limit < written + RuneLen r then []
      else encode_rune r @ truncate_runes limit (written + RuneLen r) rs)"

definition truncateUTF8Bytes :: "string \<Rightarrow> nat \<Rightarrow> string" where
  "truncateUTF8Bytes value limit =
     (if limit = 0 \<or> length value \<le> limit then value else truncate_runes limit 0 (runes value))"

fun truncate_links :: "nat \<Rightarrow> string list \<Rightarrow> string list \<Rightarrow> string list" where
  "truncate_links limit out [] = out"
| "truncate_links limit out (link # links) =
     (let cleaned = TrimSpace link in
      if cleaned = [] then truncate_links limit out links
      else if cleaned \<in> set out then truncate_links limit out links
      else
        (let out' = out @ [cleaned]
         in if limit \<le> length out' then out' else truncate_links limit out' links))"

definition truncateOutboundLinks :: "string list \<Rightarrow> nat \<Rightarrow> string list" where
  "truncateOutboundLinks links limit =
     (if limit = 0 \<or> links = [] then [] else truncate_links limit [] links)"

definition computeCrawlProofHash :: "env \<Rightarrow> CrawlProof \<Rightarrow> string" where
  "computeCrawlProofHash E proof =
     hex_encode (sha256 E (json_marshal E (JObj
       [(''taskId'', JStr (pr_TaskID proof)), (''url'', JStr (pr_URL proof)),
        (''contentHash'', JStr (page_ContentHash (pr_Page proof))),
        (''simHash'', JUint (page_SimHash (pr_Page proof)))])))"

definition normalize_page :: "IndexedPage \<Rightarrow> IndexedPage" where
  "normalize_page page =
     page\<lparr>page_URL := TrimSpace (page_URL page),
          page_Title := truncateUTF8Bytes (TrimSpace (page_Title page)) maxStoredProofTitleBytes,
          page_Snippet := truncateUTF8Bytes (TrimSpace (page_Snippet page)) maxStoredProofSnippetBytes,
          page_Body := truncateUTF8Bytes (TrimSpace (page_Body page)) maxStoredProofBodyBytes,
          page_BodyBytes := (if page_BodyBytes page = 0 then of_nat (length (page_Body page))
                             else page_BodyBytes page),
          page_ContentHash := TrimSpace (page_ContentHash page),
          page_OutboundLinks := truncateOutboundLinks (page_OutboundLinks page) maxStoredProofOutboundLinks\<rparr>"

definition normalizeCrawlProof :: "env \<Rightarrow> CrawlProof \<Rightarrow> CrawlProof res" where
  "normalizeCrawlProof E proof =
     (let n0 = proof\<lparr>pr_TaskID := TrimSpace (pr_TaskID proof),
                      pr_TaskTxHash := TrimSpace (pr_TaskTxHash proof),
                      pr_URL := TrimSpace (pr_URL proof), pr_Query := TrimSpace (pr_Query proof),
                      pr_Miner := TrimSpace (pr_Miner proof),
                      pr_Page := normalize_page (pr_Page proof)\<rparr> in
      if pr_TaskID n0 = [] \<or> pr_URL n0 = [] \<or> pr_Miner n0 = [] then Inl ErrInvalidBlock
      else
        (let n1 = (if pr_CreatedAt n0 = 0 then n0\<lparr>pr_CreatedAt := now E\<rparr> else n0);
             n2 = (if pr_ProofHash n1 = [] then n1\<lparr>pr_ProofHash := computeCrawlProofHash E n1\<rparr> else n1)
         in if pr_ProofHash n2 \<noteq> computeCrawlProofHash E n2 then Inl ErrInvalidBlock else Inr n2))"

section \<open>Autonomous tasks\<close>

definition normalizeSearchTaskURL :: "env \<Rightarrow> string \<Rightarrow> string res" where
  "normalizeSearchTaskURL E raw =
     (case url_parse E (TrimSpace raw) of
        None \<Rightarrow> Inl ErrInvalidTransaction
      | Some target \<Rightarrow>
          if Scheme target = [] \<or> Host target = [] then Inl ErrInvalidTransaction
          else
            (let t = target\<lparr>Fragment := [], Scheme := ToLower E (Scheme target), Host := ToLower E (Host target)\<rparr>
             in if Scheme t \<noteq> ''http'' \<and> Scheme t \<noteq> ''https'' then Inl ErrInvalidTransaction
                else Inr (url_string E t)))"

text \<open>\<open>path.Ext\<close>: the text from the last dot after the last slash.\<close>

definition path_Ext :: "string \<Rightarrow> string" where
  "path_Ext p =
     (let r = takeWhile (\<lambda>c. c \<noteq> CHR ''/'') (rev p);
          e = takeWhile (\<lambda>c. c \<noteq> CHR ''.'') r
      in if CHR ''.'' \<in> set r then CHR ''.'' # rev e else [])"

definition skipped_extensions :: "string list" where
  "skipped_extensions =
     [''.7z'', ''.avi'', ''.bin'', ''.bmp'', ''.css'', ''.csv'', ''.doc'', ''.docx'', ''.gif'', ''.gz'',
      ''.ico'', ''.jpeg'', ''.jpg'', ''.js'', ''.json'', ''.m4a'', ''.mov'', ''.mp3'', ''.mp4'', ''.pdf'',
      ''.png'', ''.ppt'', ''.pptx'', ''.rss'', ''.svg'', ''.tar'', ''.tgz'', ''.txt'', ''.wav'', ''.webm'',
      ''.webp'', ''.woff'', ''.woff2'', ''.xls'', ''.xlsx'', ''.xml'', ''.zip'']"

definition shouldSkipAutonomousURL :: "env \<Rightarrow> string \<Rightarrow> bool" where
  "shouldSkipAutonomousURL E target =
     (case url_parse E target of
        None \<Rightarrow> True
      | Some parsed \<Rightarrow> ToLower E (path_Ext (url_escaped_path E parsed)) \<in> set skipped_extensions)"

definition trim_slashes :: "string \<Rightarrow> string" where
  "trim_slashes s = rev (dropWhile (\<lambda>c. c = CHR ''/'') (rev (dropWhile (\<lambda>c. c = CHR ''/'') s)))"

definition countURLPathSegments :: "string \<Rightarrow> nat" where
  "countURLPathSegments rawPath =
     (let trimmed = trim_slashes rawPath in
      if trimmed = [] then 0 else Suc (length (filter (\<lambda>c. c = CHR ''/'') trimmed)))"

definition stateHasActiveSearchTaskURL :: "StateSnapshot \<Rightarrow> string \<Rightarrow> bool" where
  "stateHasActiveSearchTaskURL state target =
     list_ex (\<lambda>task. \<not> task_Completed task \<and> task_URL task = target) (fm_values (PendingTasks state))"

definition countActiveAutonomousSearchTasks :: "StateSnapshot \<Rightarrow> nat" where
  "countActiveAutonomousSearchTasks state =
     length (filter (\<lambda>task. \<not> task_Completed task \<and> task_Autonomous task) (fm_values (PendingTasks state)))"

definition buildAutonomousSearchTaskID :: "env \<Rightarrow> string \<Rightarrow> string \<Rightarrow> u64 \<Rightarrow> string" where
  "buildAutonomousSearchTaskID E parentTaskID target depth =
     hex_encode (take 16 (sha256 E
       (Join [TrimSpace parentTaskID, FormatUint depth, TrimSpace target] ''|'')))"

record candidate =
  cand_url :: string
  cand_sameHost :: bool
  cand_hasQuery :: bool
  cand_pathSegments :: nat
  cand_length :: nat

text \<open>The body of the candidate loop: the links already selected play the part of \<open>seen\<close>.\<close>

definition consider_link ::
    "env \<Rightarrow> StateSnapshot \<Rightarrow> SearchTaskRecord \<Rightarrow> CrawlProof \<Rightarrow> string \<Rightarrow> candidate list \<Rightarrow> string \<Rightarrow> candidate list" where
  "consider_link E state parent proof parentHost candidates raw =
     (case normalizeSearchTaskURL E raw of
        Inl _ \<Rightarrow> candidates
      | Inr target \<Rightarrow>
          if target = TrimSpace (pr_URL proof) \<or> target = TrimSpace (task_URL parent) then candidates
          else if shouldSkipAutonomousURL E target then candidates
          else if target \<in> cand_url ` set candidates then candidates
          else if fmlookup (SearchIndex state) target \<noteq> None then candidates
          else if stateHasActiveSearchTaskURL state target then candidates
          else
            (case url_parse E target of
               None \<Rightarrow> candidates
             | Some parsed \<Rightarrow>
                 candidates @
                   [\<lparr>cand_url = target,
                     cand_sameHost = (parentHost \<noteq> [] \<and> EqualFold E (url_hostname E parsed) parentHost),
                     cand_hasQuery = (RawQuery parsed \<noteq> []),
                     cand_pathSegments = countURLPathSegments (Path parsed),
                     cand_length = length target\<rparr>]))"

text \<open>
  The comparison of the sort as a key: same host first, then without query, then fewer
  segments, shorter, alphabetical. The URLs are distinct, so the order is total.
\<close>

definition candidate_key :: "candidate \<Rightarrow> bool \<times> bool \<times> nat \<times> nat \<times> string" where
  "candidate_key c =
     (\<not> cand_sameHost c, cand_hasQuery c, cand_pathSegments c, cand_length c, cand_url c)"

definition selectAutonomousOutboundLinks ::
    "env \<Rightarrow> StateSnapshot \<Rightarrow> SearchTaskRecord \<Rightarrow> CrawlProof \<Rightarrow> string list" where
  "selectAutonomousOutboundLinks E state parent proof =
     (let parentURL =
            (case url_parse E (TrimSpace (pr_URL proof)) of
               Some u \<Rightarrow> Some u
             | None \<Rightarrow> url_parse E (TrimSpace (task_URL parent)));
          parentHost = (case parentURL of None \<Rightarrow> [] | Some u \<Rightarrow> ToLower E (url_hostname E u));
          candidates = foldl (consider_link E state parent proof parentHost) [] (page_OutboundLinks (pr_Page proof))
      in map cand_url (sort_key candidate_key candidates))"

definition autonomous_task ::
    "env \<Rightarrow> SearchTaskRecord \<Rightarrow> CrawlProof \<Rightarrow> string \<Rightarrow> SearchTaskRecord" where
  "autonomous_task E parent proof target =
     (let nextDepth = task_Depth parent + 1;
          originTxHash = (if TrimSpace (task_TxHash parent) = [] then task_ID parent
                          else TrimSpace (task_TxHash parent))
      in \<lparr>task_ID = buildAutonomousSearchTaskID E (task_ID parent) target nextDepth,
          task_TxHash = originTxHash, task_Submitter = task_Submitter parent,
          task_Query = task_Query parent, task_URL = target, task_BaseBounty = ''0'',
          task_GrossBounty = ''0'', task_ArchitectFee = ''0'', task_MinerReward = ''0'',
          task_Difficulty = 0, task_DataVolumeBytes = 0, task_CreatedAt = pr_CreatedAt proof,
          task_Autonomous = True, task_ParentTaskID = task_ID parent, task_Depth = nextDepth,
          task_Completed = False, task_CompletedAt = 0, task_ProofHash = [], task_MinedBy = []\<rparr>)"

definition buildAutonomousSearchTaskRecords ::
    "env \<Rightarrow> StateSnapshot \<Rightarrow> SearchTaskRecord \<Rightarrow> CrawlProof \<Rightarrow> SearchTaskRecord list" where
  "buildAutonomousSearchTaskRecords E state parent proof =
     (if task_Autonomous parent \<and> autonomousCrawlMaxDepth \<le> task_Depth parent then []
      else if page_OutboundLinks (pr_Page proof) = [] then []
      else
        (let activeAutonomous = countActiveAutonomousSearchTasks state in
         if autonomousCrawlPendingTaskLimit \<le> activeAutonomous then []
         else
           (let candidates = selectAutonomousOutboundLinks E state parent proof;
                limit = min autonomousCrawlLinksPerProof (autonomousCrawlPendingTaskLimit - activeAutonomous)
            in map (autonomous_task E parent proof) (take limit candidates))))"

section \<open>Mention counts\<close>

definition computeTermCounts :: "env \<Rightarrow> string \<Rightarrow> (string, u64) fmap" where
  "computeTermCounts E text =
     fold (\<lambda>term counts. fmupd term (fm_get counts 0 term + 1) counts) (tokenize E text) fmempty"

text \<open>The order in which Go ranges over \<open>counts\<close> does not matter: its keys are distinct.\<close>

definition addMentionCounts :: "(string, u64) fmap \<Rightarrow> (string, u64) fmap \<Rightarrow> (string, u64) fmap" where
  "addMentionCounts target counts =
     fold (\<lambda>(term, count) m. fmupd term (fm_get m 0 term + count) m) (fm_entries counts) target"

definition subtract_mention :: "string \<times> u64 \<Rightarrow> (string, u64) fmap \<Rightarrow> (string, u64) fmap" where
  "subtract_mention tc m =
     (let current = fm_get m 0 (fst tc) in
      if current \<le> snd tc then fmdrop (fst tc) m else fmupd (fst tc) (current - snd tc) m)"

definition subtractMentionCounts :: "(string, u64) fmap \<Rightarrow> (string, u64) fmap \<Rightarrow> (string, u64) fmap" where
  "subtractMentionCounts target counts = fold subtract_mention (fm_entries counts) target"

section \<open>Settlement\<close>

text \<open>\<open>x.Cmp(y) != 0\<close> on pointers: equal pointers (both nil) compare equal, one nil panics.\<close>

definition big_differs :: "int option \<Rightarrow> int option \<Rightarrow> bool res" where
  "big_differs x y =
     (case (x, y) of
        (None, None) \<Rightarrow> Inr False
      | (Some a, Some b) \<Rightarrow> Inr (a \<noteq> b)
      | _ \<Rightarrow> Inl GoPanic)"

fun any_differs :: "(int option \<times> int option) list \<Rightarrow> bool res" where
  "any_differs [] = Inr False"
| "any_differs ((x, y) # ps) =
     (case big_differs x y of
        Inl e \<Rightarrow> Inl e
      | Inr True \<Rightarrow> Inr True
      | Inr False \<Rightarrow> any_differs ps)"

definition settled_record :: "env \<Rightarrow> CrawlProof \<Rightarrow> string \<Rightarrow> SearchRecord" where
  "settled_record E p blockHash =
     \<lparr>doc_TaskID = pr_TaskID p, doc_URL = pr_URL p, doc_Query = pr_Query p,
      doc_Title = page_Title (pr_Page p), doc_Snippet = page_Snippet (pr_Page p),
      doc_Body = page_Body (pr_Page p), doc_BodyBytes = page_BodyBytes (pr_Page p),
      doc_ContentHash = page_ContentHash (pr_Page p), doc_SimHash = page_SimHash (pr_Page p),
      doc_IndexedAt = pr_CreatedAt p, doc_IndexedBy = pr_Miner p, doc_ProofHash = pr_ProofHash p,
      doc_BlockHash = blockHash,
      doc_TermCounts =
        computeTermCounts E (pr_Query p @ '' '' @ page_Title (pr_Page p) @ '' '' @ page_Body (pr_Page p))\<rparr>"

definition settle :: "env \<Rightarrow> StateSnapshot \<Rightarrow> SearchTaskRecord \<Rightarrow> CrawlProof \<Rightarrow> string \<Rightarrow> int \<Rightarrow> StateSnapshot" where
  "settle E state task p blockHash reward =
     (let balances = creditBalance (debitBalance (Balances state) SearchEscrowAddress reward) (pr_Miner p) reward;
          record = settled_record E p blockHash;
          mentions1 = (case fmlookup (SearchIndex state) (pr_URL p) of
                         None \<Rightarrow> MentionCounts state
                       | Some existing \<Rightarrow> subtractMentionCounts (MentionCounts state) (doc_TermCounts existing));
          mentions2 = addMentionCounts mentions1 (doc_TermCounts record);
          done_task = task\<lparr>task_Completed := True, task_CompletedAt := pr_CreatedAt p,
                         task_ProofHash := pr_ProofHash p, task_MinedBy := pr_Miner p\<rparr>;
          s1 = state\<lparr>Balances := balances, MentionCounts := mentions2,
                     SearchIndex := fmupd (pr_URL p) record (SearchIndex state),
                     PendingTasks := fmupd (task_ID done_task) done_task (PendingTasks state)\<rparr>
      in s1\<lparr>PendingTasks :=
              fold (\<lambda>spawned m. fmupd (task_ID spawned) spawned m)
                (buildAutonomousSearchTaskRecords E s1 done_task p) (PendingTasks s1)\<rparr>)"

definition ApplyCrawlProof ::
    "env \<Rightarrow> StateSnapshot \<Rightarrow> CrawlProof \<Rightarrow> string \<Rightarrow> (StateSnapshot \<times> CrawlProof) res" where
  "ApplyCrawlProof E state proof blockHash =
     (case normalizeCrawlProof E proof of
        Inl e \<Rightarrow> Inl e
      | Inr p \<Rightarrow>
          (case fmlookup (PendingTasks state) (pr_TaskID p) of
             None \<Rightarrow> Inl ErrTaskNotFound
           | Some task \<Rightarrow>
               if task_Completed task then Inl ErrTaskSettled
               else
                 (case any_differs
                         [(SetString (task_GrossBounty task), SetString (pr_GrossBounty p)),
                          (SetString (task_ArchitectFee task), SetString (pr_ArchitectFee p)),
                          (SetString (task_MinerReward task), SetString (pr_MinerReward p))] of
                    Inl e \<Rightarrow> Inl e
                  | Inr True \<Rightarrow> Inl ErrInvalidTransactionFee
                  | Inr False \<Rightarrow>
                      (case SetString (pr_MinerReward p) of
                         None \<Rightarrow> Inl GoPanic
                       | Some reward \<Rightarrow>
                           if fm_get (Balances state) 0 SearchEscrowAddress < reward
                           then Inl ErrInsufficientBalance
                           else Inr (settle E state task p blockHash reward, p)))))"

end
