(* ===== verification/Settlement.thy ===== *)
theory Settlement
  imports Crawl
begin

text \<open>
  What settling a crawl proof guarantees: the books and the escrow, the task, the mention
  counts of the search index, and the bounds on what a proof stores and spawns.
\<close>

section \<open>Open tasks\<close>

lemma fm_count:
  "int (length (filter P (fm_values m))) = fm_sum (\<lambda>v. of_bool (P v)) m"
proof -
  have "int (length (filter P xs)) = (\<Sum>x\<leftarrow>xs. of_bool (P x))" for xs
    by (induction xs) auto
  then have "int (length (filter P (fm_values m)))
      = (\<Sum>k\<leftarrow>sorted_list_of_fset (fmdom m). of_bool (P (the (fmlookup m k))))"
    unfolding fm_values_def fm_entries_def by (simp only: map_map comp_def snd_conv)
  also have "\<dots> = (\<Sum>k\<in>fmdom' m. of_bool (P (the (fmlookup m k))))"
    by (subst sum_list_distinct_conv_sum_set)
      (simp_all add: sorted_list_of_fset.rep_eq fmdom'_alt_def)
  finally show ?thesis by (simp add: fm_sum_def)
qed

definition tasks_ok :: "(string, SearchTaskRecord) fmap \<Rightarrow> bool" where
  "tasks_ok m \<longleftrightarrow> (\<forall>k t. fmlookup m k = Some t \<longrightarrow> task_ID t = k \<and> task_ok t)"

abbreviation add_tasks :: "SearchTaskRecord list \<Rightarrow> (string, SearchTaskRecord) fmap \<Rightarrow> (string, SearchTaskRecord) fmap" where
  "add_tasks ts m \<equiv> fold (\<lambda>spawned m. fmupd (task_ID spawned) spawned m) ts m"

lemma tasks_ok_upd: "tasks_ok m \<Longrightarrow> task_ok t \<Longrightarrow> tasks_ok (fmupd (task_ID t) t m)"
  by (simp add: tasks_ok_def)

lemma tasks_ok_weight: "tasks_ok m \<Longrightarrow> 0 \<le> fm_weight task_owed m k"
  by (auto simp: tasks_ok_def fm_weight_def task_owed_nonneg split: option.splits)

lemma add_tasks_ok:
  assumes "tasks_ok m" and "\<forall>t \<in> set ts. task_ok t \<and> task_owed t = 0"
  shows "tasks_ok (add_tasks ts m) \<and> fm_sum task_owed (add_tasks ts m) \<le> fm_sum task_owed m"
  using assms
proof (induction ts arbitrary: m)
  case (Cons t ts)
  have ok: "tasks_ok (fmupd (task_ID t) t m)" using Cons.prems by (intro tasks_ok_upd) auto
  have "fm_sum task_owed (fmupd (task_ID t) t m) \<le> fm_sum task_owed m"
    using Cons.prems tasks_ok_weight [of m "task_ID t"] by (simp add: fm_sum_upd)
  with Cons.IH [OF ok] Cons.prems show ?case by auto
qed simp

lemma add_tasks_count:
  assumes "\<And>v. 0 \<le> w v \<and> w v \<le> 1"
  shows "fm_sum w (add_tasks ts m) \<le> fm_sum w m + int (length ts)"
proof (induction ts arbitrary: m)
  case (Cons t ts)
  have "0 \<le> fm_weight w m (task_ID t)" using assms by (simp add: fm_weight_def split: option.splits)
  then have "fm_sum w (fmupd (task_ID t) t m) \<le> fm_sum w m + 1"
    using assms [of t] by (simp add: fm_sum_upd)
  with Cons.IH [of "fmupd (task_ID t) t m"] show ?case by simp
qed simp

lemma add_tasks_lookup:
  assumes "fmlookup (add_tasks ts m) k = Some t"
  shows "t \<in> set ts \<and> task_ID t = k \<or> fmlookup m k = Some t"
  using assms
proof (induction ts arbitrary: m)
  case (Cons a ts)
  have "t \<in> set ts \<and> task_ID t = k \<or> fmlookup (fmupd (task_ID a) a m) k = Some t"
    by (rule Cons.IH) (use Cons.prems in simp)
  then show ?case by (auto split: if_splits)
qed simp

lemma add_tasks_other: "k \<notin> task_ID ` set ts \<Longrightarrow> fmlookup (add_tasks ts m) k = fmlookup m k"
  by (induction ts arbitrary: m) auto

lemma show_int_0: "show_int 0 = ''0''"
  by code_simp

lemma autonomous_task_ok: "task_ok (autonomous_task E parent p u) \<and> task_owed (autonomous_task E parent p u) = 0"
proof
  show "task_ok (autonomous_task E parent p u)"
    unfolding task_ok_def by (intro exI [of _ 0]) (simp add: autonomous_task_def Let_def show_int_0)
  have "SetString ''0'' = Some 0" using SetString_show_int [of 0] by (simp add: show_int_0)
  then show "task_owed (autonomous_task E parent p u) = 0"
    by (simp add: autonomous_task_def Let_def task_owed_def)
qed

lemma spawned_ok:
  "t \<in> set (buildAutonomousSearchTaskRecords E st parent p) \<Longrightarrow> task_ok t \<and> task_owed t = 0"
  by (auto simp: buildAutonomousSearchTaskRecords_def Let_def autonomous_task_ok split: if_splits dest: in_set_takeD)

lemma spawned_id:
  assumes "t \<in> set (buildAutonomousSearchTaskRecords E st parent p)"
  obtains u d where "task_ID t = buildAutonomousSearchTaskID E (task_ID parent) u d"
proof -
  obtain u where "t = autonomous_task E parent p u"
    using assms by (auto simp: buildAutonomousSearchTaskRecords_def Let_def split: if_splits)
  then show thesis by (intro that) (simp add: autonomous_task_def Let_def)
qed

section \<open>Normalised proofs and comparisons\<close>

lemma normalizeCrawlProof_Inr:
  assumes "normalizeCrawlProof E proof = Inr p"
  shows "pr_TaskID p = TrimSpace (pr_TaskID proof)" and "pr_URL p = TrimSpace (pr_URL proof)"
    and "pr_Miner p = TrimSpace (pr_Miner proof)" and "pr_Page p = normalize_page (pr_Page proof)"
    and "pr_GrossBounty p = pr_GrossBounty proof" and "pr_ArchitectFee p = pr_ArchitectFee proof"
    and "pr_MinerReward p = pr_MinerReward proof" and "pr_Miner p \<noteq> []" and "pr_URL p \<noteq> []"
    and "pr_ProofHash p = computeCrawlProofHash E p"
  using assms
  by (auto simp: normalizeCrawlProof_def Let_def split: if_splits)

lemma any_differs_False:
  "any_differs ps = Inr False \<longleftrightarrow> list_all (\<lambda>(x, y). x = y) ps"
  by (induction ps) (auto simp: big_differs_def split: option.splits bool.splits)

lemma ApplyCrawlProof_Inr:
  assumes "ApplyCrawlProof E st proof bh = Inr (st', p)"
  obtains task reward where "normalizeCrawlProof E proof = Inr p"
    and "fmlookup (PendingTasks st) (pr_TaskID p) = Some task" and "\<not> task_Completed task"
    and "SetString (task_MinerReward task) = Some reward"
    and "reward \<le> fm_get (Balances st) 0 SearchEscrowAddress"
    and "st' = settle E st task p bh reward"
proof -
  obtain q task reward where *: "normalizeCrawlProof E proof = Inr q"
    "fmlookup (PendingTasks st) (pr_TaskID q) = Some task" "\<not> task_Completed task"
    "any_differs
       [(SetString (task_GrossBounty task), SetString (pr_GrossBounty q)),
        (SetString (task_ArchitectFee task), SetString (pr_ArchitectFee q)),
        (SetString (task_MinerReward task), SetString (pr_MinerReward q))] = Inr False"
    "SetString (pr_MinerReward q) = Some reward"
    "reward \<le> fm_get (Balances st) 0 SearchEscrowAddress"
    "st' = settle E st task q bh reward" "p = q"
    using assms unfolding ApplyCrawlProof_def
    by (auto simp del: any_differs.simps split: sum.splits option.splits if_splits bool.splits)
  then show thesis using that unfolding any_differs_False by simp
qed

section \<open>Settlement keeps the books\<close>

definition complete_task :: "SearchTaskRecord \<Rightarrow> CrawlProof \<Rightarrow> SearchTaskRecord" where
  "complete_task task p =
     task\<lparr>task_Completed := True, task_CompletedAt := pr_CreatedAt p,
          task_ProofHash := pr_ProofHash p, task_MinedBy := pr_Miner p\<rparr>"

lemma complete_task_simps [simp]:
  "task_ID (complete_task t p) = task_ID t" "task_Completed (complete_task t p)"
  "task_owed (complete_task t p) = 0" "task_ok (complete_task t p) = task_ok t"
  "task_Autonomous (complete_task t p) = task_Autonomous t" "task_Depth (complete_task t p) = task_Depth t"
  by (simp_all add: complete_task_def task_owed_def task_ok_def)

lemma settle_simps:
  "Balances (settle E st task p bh r) =
     creditBalance (debitBalance (Balances st) SearchEscrowAddress r) (pr_Miner p) r"
  "SearchIndex (settle E st task p bh r) = fmupd (pr_URL p) (settled_record E p bh) (SearchIndex st)"
  "Nonces (settle E st task p bh r) = Nonces st"
  "MentionCounts (settle E st task p bh r) =
     addMentionCounts
       (case fmlookup (SearchIndex st) (pr_URL p) of
          None \<Rightarrow> MentionCounts st
        | Some old \<Rightarrow> subtractMentionCounts (MentionCounts st) (doc_TermCounts old))
       (doc_TermCounts (settled_record E p bh))"
  by (simp_all add: settle_def Let_def)

text \<open>The state the autonomous tasks are chosen in.\<close>

lemma settle_tasks:
  obtains s1 where "PendingTasks s1 = fmupd (task_ID task) (complete_task task p) (PendingTasks st)"
    and "SearchIndex s1 = fmupd (pr_URL p) (settled_record E p bh) (SearchIndex st)"
    and "PendingTasks (settle E st task p bh r) =
      add_tasks (buildAutonomousSearchTaskRecords E s1 (complete_task task p) p) (PendingTasks s1)"
  by (rule that [of "st\<lparr>Balances := creditBalance (debitBalance (Balances st) SearchEscrowAddress r) (pr_Miner p) r,
       MentionCounts := MentionCounts (settle E st task p bh r),
       SearchIndex := fmupd (pr_URL p) (settled_record E p bh) (SearchIndex st),
       PendingTasks := fmupd (task_ID task) (complete_task task p) (PendingTasks st)\<rparr>"])
    (simp_all add: settle_def Let_def complete_task_def)

lemma settle_inv:
  assumes inv: "ledger_inv st" and step: "ApplyCrawlProof E st proof bh = Inr (st', p)"
  shows "ledger_inv st'" and "total_supply st' = total_supply st"
proof -
  obtain task r where task: "fmlookup (PendingTasks st) (pr_TaskID p) = Some task" "\<not> task_Completed task"
    "SetString (task_MinerReward task) = Some r" "r \<le> fm_get (Balances st) 0 SearchEscrowAddress"
    and st': "st' = settle E st task p bh r"
    using step by (rule ApplyCrawlProof_Inr)
  show "total_supply st' = total_supply st" by (simp add: st' settle_simps total_supply_def state_simps)
  have oks: "tasks_ok (PendingTasks st)" using inv by (simp add: ledger_inv_def tasks_ok_def)
  then have id: "task_ID task = pr_TaskID p" "task_ok task" using task(1) by (auto simp: tasks_ok_def)
  have r: "0 \<le> r" using id(2) task(3) by (auto simp: task_ok_def)
  obtain s1 where s1: "PendingTasks s1 = fmupd (task_ID task) (complete_task task p) (PendingTasks st)"
    "PendingTasks st' = add_tasks (buildAutonomousSearchTaskRecords E s1 (complete_task task p) p) (PendingTasks s1)"
    unfolding st' by (rule settle_tasks)
  have ok1: "tasks_ok (PendingTasks s1)"
    using tasks_ok_upd [OF oks, of "complete_task task p"] id by (simp add: s1)
  have "fm_sum task_owed (PendingTasks s1) = obligations st - r"
    using task id by (simp add: s1 fm_sum_upd fm_weight_def task_owed_def [of task] obligations_def)
  then have "tasks_ok (PendingTasks st') \<and> obligations st' \<le> obligations st - r"
    using add_tasks_ok [OF ok1] spawned_ok by (simp add: s1(2) obligations_def)
  moreover have "fm_get (Balances st') 0 k \<ge> 0" for k
    using inv r task(4) by (auto simp: st' settle_simps state_simps ledger_inv_def)
  moreover have "fm_get (Balances st) 0 SearchEscrowAddress - r \<le> fm_get (Balances st') 0 SearchEscrowAddress"
    using r by (simp add: st' settle_simps state_simps)
  moreover have "obligations st \<le> fm_get (Balances st) 0 SearchEscrowAddress"
    using inv by (simp add: ledger_inv_def)
  ultimately show "ledger_inv st'" by (simp add: ledger_inv_def tasks_ok_def)
qed

interpretation settlement: metered_step "\<lambda>st proof. ApplyCrawlProof E st proof bh" ledger_inv total_supply "\<lambda>_. 0"
  for E bh
  by unfold_locales (auto intro: settle_inv)

section \<open>Mention counts\<close>

lemma add_mentions_list:
  assumes "distinct (map fst xs)"
  shows "fm_get (fold (\<lambda>(term, count) m. fmupd term (fm_get m 0 term + count) m) xs m) 0 t
       = fm_get m 0 t + (case map_of xs t of None \<Rightarrow> 0 | Some c \<Rightarrow> (c :: u64))"
  using assms
proof (induction xs arbitrary: m)
  case (Cons x xs)
  obtain k c where x: "x = (k, c)" by force
  have "map_of xs k = None" using Cons.prems by (simp add: x map_of_eq_None_iff)
  with Cons show ?case by (auto simp: x)
qed simp

lemma map_of_fm_entries: "map_of (fm_entries m) t = fmlookup m t"
proof (cases "fmlookup m t")
  case None
  then have "t \<notin> fst ` set (fm_entries m)" using fm_entries_iff [of t _ m] by force
  then show ?thesis using None by (simp add: map_of_eq_None_iff)
next
  case (Some v)
  then show ?thesis using fm_entries_iff [of t v m] distinct_fm_entries_fst [of m] by simp
qed

lemma addMentionCounts_get: "fm_get (addMentionCounts m c) 0 t = fm_get m 0 t + fm_get c 0 t"
  unfolding addMentionCounts_def
  by (subst add_mentions_list [OF distinct_fm_entries_fst]) (simp add: map_of_fm_entries fm_get_def)

lemma subtract_mention_get:
  "fm_get (subtract_mention (k, c) m) 0 t =
     (if t = k then (if fm_get m 0 k \<le> c then 0 else fm_get m 0 k - c) else fm_get m 0 t)"
  by (simp add: subtract_mention_def Let_def) (simp add: fm_get_def)

lemma subtract_mentions_list:
  assumes "distinct (map fst xs)"
  shows "fm_get (fold subtract_mention xs m) 0 t =
    (case map_of xs t of None \<Rightarrow> fm_get m 0 t
     | Some c \<Rightarrow> if fm_get m 0 t \<le> c then 0 else fm_get m 0 t - c)"
  using assms
proof (induction xs arbitrary: m)
  case (Cons x xs)
  obtain k c where x: "x = (k, c)" by force
  have "map_of xs k = None" using Cons.prems by (simp add: x map_of_eq_None_iff)
  with Cons show ?case by (auto simp: x subtract_mention_get split: option.splits)
qed simp

lemma subtractMentionCounts_get:
  "fm_get (subtractMentionCounts m c) 0 t =
     (if fm_get m 0 t \<le> fm_get c 0 t then 0 else fm_get m 0 t - fm_get c 0 t)"
  unfolding subtractMentionCounts_def
  by (subst subtract_mentions_list [OF distinct_fm_entries_fst])
    (simp add: map_of_fm_entries fm_get_def [of c] split: option.splits)

definition mentions_in :: "string \<Rightarrow> SearchRecord \<Rightarrow> int" where
  "mentions_in t d = uint (fm_get (doc_TermCounts d) 0 t)"

definition mention_total :: "StateSnapshot \<Rightarrow> string \<Rightarrow> int" where
  "mention_total st t = fm_sum (mentions_in t) (SearchIndex st)"

definition index_inv :: "StateSnapshot \<Rightarrow> bool" where
  "index_inv st \<longleftrightarrow> (\<forall>t. uint (fm_get (MentionCounts st) 0 t) = mention_total st t)"

lemma mentions_in_nonneg [simp]: "0 \<le> mentions_in t d"
  by (simp add: mentions_in_def)

lemma mentions_without_old:
  assumes "index_inv st" and "fmlookup (SearchIndex st) u = Some old"
  shows "uint (fm_get (subtractMentionCounts (MentionCounts st) (doc_TermCounts old)) 0 t)
       = mention_total st t - mentions_in t old"
proof -
  have cur: "uint (fm_get (MentionCounts st) 0 t) = mention_total st t"
    using assms(1) by (simp add: index_inv_def)
  have "mentions_in t old \<le> mention_total st t"
    using fm_weight_le_sum [of "SearchIndex st" "mentions_in t" u] assms(2)
    by (simp add: mention_total_def fm_weight_def)
  with cur show ?thesis
    by (auto simp: subtractMentionCounts_get mentions_in_def word_le_def uint_sub_if')
qed

lemma settle_mentions:
  assumes "index_inv st" and "\<forall>t. mention_total (settle E st task p bh r) t < 2 ^ 64"
  shows "index_inv (settle E st task p bh r)"
  unfolding index_inv_def
proof
  fix t
  define st' where "st' = settle E st task p bh r"
  define rest where "rest = mention_total st t - fm_weight (mentions_in t) (SearchIndex st) (pr_URL p)"
  define m where "m = (case fmlookup (SearchIndex st) (pr_URL p) of
          None \<Rightarrow> MentionCounts st
        | Some old \<Rightarrow> subtractMentionCounts (MentionCounts st) (doc_TermCounts old))"
  have m: "uint (fm_get m 0 t) = rest"
    using assms(1) mentions_without_old [OF assms(1)]
    by (auto simp: m_def rest_def fm_weight_def index_inv_def split: option.splits)
  have total: "mention_total st' t = rest + mentions_in t (settled_record E p bh)"
    by (simp add: st'_def settle_simps mention_total_def fm_sum_upd rest_def)
  have "mention_total st' t < 2 ^ 64" using assms(2) by (simp add: st'_def)
  then have "uint (fm_get m 0 t) + uint (fm_get (doc_TermCounts (settled_record E p bh)) 0 t) < 2 ^ 64"
    using total m by (simp add: mentions_in_def)
  then have "uint (fm_get m 0 t + fm_get (doc_TermCounts (settled_record E p bh)) 0 t)
      = uint (fm_get m 0 t) + uint (fm_get (doc_TermCounts (settled_record E p bh)) 0 t)"
    by (simp add: uint_word_ariths)
  then show "uint (fm_get (MentionCounts (settle E st task p bh r)) 0 t) = mention_total (settle E st task p bh r) t"
    using m total by (simp add: st'_def [symmetric] settle_simps [of E st task p bh r, folded st'_def]
        addMentionCounts_get m_def [symmetric] mentions_in_def)
qed

section \<open>Stored texts and links\<close>

lemma length_encode_rune [simp]: "length (encode_rune r) = RuneLen r"
  by (simp add: encode_rune_def RuneLen_def)

lemma truncate_runes_length: "w \<le> limit \<Longrightarrow> w + length (truncate_runes limit w rs) \<le> limit"
proof (induction rs arbitrary: w)
  case (Cons r rs)
  then show ?case using Cons.IH [of "w + RuneLen r"] by (simp add: not_less add.assoc)
qed simp

lemma truncate_runes_prefix:
  "\<exists>k. truncate_runes limit w rs = concat (map encode_rune (take k rs))"
proof (induction rs arbitrary: w)
  case (Cons r rs)
  show ?case
  proof (cases "limit < w + RuneLen r")
    case True
    then show ?thesis by (intro exI [of _ 0]) simp
  next
    case False
    obtain k where "truncate_runes limit (w + RuneLen r) rs = concat (map encode_rune (take k rs))"
      using Cons.IH by blast
    with False show ?thesis by (intro exI [of _ "Suc k"]) simp
  qed
qed simp

lemma truncateUTF8Bytes_length: "0 < limit \<Longrightarrow> length (truncateUTF8Bytes s limit) \<le> limit"
  using truncate_runes_length [of 0 limit] by (simp add: truncateUTF8Bytes_def)

lemma truncate_links_sound:
  assumes "distinct out" and "\<forall>l \<in> set out. l \<noteq> [] \<and> TrimSpace l = l" and "length out < limit"
  shows "distinct (truncate_links limit out ls) \<and> length (truncate_links limit out ls) \<le> limit
    \<and> (\<forall>l \<in> set (truncate_links limit out ls). l \<noteq> [] \<and> TrimSpace l = l)
    \<and> set (truncate_links limit out ls) \<subseteq> set out \<union> TrimSpace ` set ls"
  using assms
proof (induction ls arbitrary: out)
  case (Cons l ls)
  show ?case
  proof (cases "TrimSpace l = [] \<or> TrimSpace l \<in> set out \<or> limit \<le> Suc (length out)")
    case True
    then show ?thesis using Cons.IH [OF Cons.prems] Cons.prems by (auto simp: Let_def)
  next
    case False
    then have "distinct (out @ [TrimSpace l])" "\<forall>x \<in> set (out @ [TrimSpace l]). x \<noteq> [] \<and> TrimSpace x = x"
      "length (out @ [TrimSpace l]) < limit" using Cons.prems by auto
    from Cons.IH [OF this] False show ?thesis by (auto simp: Let_def)
  qed
qed auto

section \<open>Autonomous tasks\<close>

definition fresh_link :: "env \<Rightarrow> StateSnapshot \<Rightarrow> string \<Rightarrow> bool" where
  "fresh_link E st u \<longleftrightarrow>
     fmlookup (SearchIndex st) u = None \<and> \<not> stateHasActiveSearchTaskURL st u
     \<and> \<not> shouldSkipAutonomousURL E u"

lemma consider_link_sound:
  assumes "distinct (map cand_url cs)" and "\<forall>c \<in> set cs. fresh_link E st (cand_url c)"
  shows "distinct (map cand_url (consider_link E st parent p h cs raw))
    \<and> (\<forall>c \<in> set (consider_link E st parent p h cs raw). fresh_link E st (cand_url c))"
  using assms
  by (auto simp: consider_link_def fresh_link_def split: sum.splits option.splits)

lemma select_links_sound:
  "distinct (selectAutonomousOutboundLinks E st parent p)
   \<and> (\<forall>u \<in> set (selectAutonomousOutboundLinks E st parent p). fresh_link E st u)"
proof -
  have loop: "distinct (map cand_url (foldl (consider_link E st parent p h) cs ls))
      \<and> (\<forall>c \<in> set (foldl (consider_link E st parent p h) cs ls). fresh_link E st (cand_url c))"
    if "distinct (map cand_url cs) \<and> (\<forall>c \<in> set cs. fresh_link E st (cand_url c))" for h cs ls
    using that
  proof (induction ls arbitrary: cs)
    case (Cons l ls)
    then have "distinct (map cand_url cs)" "\<forall>c \<in> set cs. fresh_link E st (cand_url c)" by auto
    from Cons.IH [OF consider_link_sound [OF this]] show ?case by simp
  qed simp
  have sorted: "distinct (map cand_url (sort_key candidate_key cs))" if "distinct (map cand_url cs)" for cs
  proof -
    have "mset (map cand_url (sort_key candidate_key cs)) = mset (map cand_url cs)" by simp
    then show ?thesis using that by (metis mset_eq_imp_distinct_iff)
  qed
  show ?thesis
    unfolding selectAutonomousOutboundLinks_def Let_def
    using loop [of "[]"] by (auto intro!: sorted)
qed

definition active_autonomous :: "SearchTaskRecord \<Rightarrow> bool" where
  "active_autonomous t \<longleftrightarrow> \<not> task_Completed t \<and> task_Autonomous t"

definition depth_ok :: "SearchTaskRecord \<Rightarrow> bool" where
  "depth_ok t \<longleftrightarrow> (if task_Autonomous t then task_Depth t \<le> autonomousCrawlMaxDepth else task_Depth t = 0)"

definition crawl_inv :: "StateSnapshot \<Rightarrow> bool" where
  "crawl_inv st \<longleftrightarrow>
     countActiveAutonomousSearchTasks st \<le> autonomousCrawlPendingTaskLimit
     \<and> (\<forall>k t. fmlookup (PendingTasks st) k = Some t \<longrightarrow> task_ID t = k \<and> depth_ok t)"

lemma count_active: "int (countActiveAutonomousSearchTasks st) = fm_sum (\<lambda>t. of_bool (active_autonomous t)) (PendingTasks st)"
  unfolding countActiveAutonomousSearchTasks_def active_autonomous_def by (rule fm_count)

lemma spawned_bounds:
  "length (buildAutonomousSearchTaskRecords E st parent p) \<le> autonomousCrawlLinksPerProof
   \<and> (buildAutonomousSearchTaskRecords E st parent p \<noteq> [] \<longrightarrow>
      countActiveAutonomousSearchTasks st + length (buildAutonomousSearchTaskRecords E st parent p)
        \<le> autonomousCrawlPendingTaskLimit)"
  by (auto simp: buildAutonomousSearchTaskRecords_def Let_def)

lemma spawned_depth:
  assumes "t \<in> set (buildAutonomousSearchTaskRecords E st parent p)" and "depth_ok parent"
  shows "depth_ok t" and "task_Autonomous t" and "fresh_link E st (task_URL t)"
proof -
  obtain u where t: "t = autonomous_task E parent p u" and u: "u \<in> set (selectAutonomousOutboundLinks E st parent p)"
    and d: "\<not> (task_Autonomous parent \<and> autonomousCrawlMaxDepth \<le> task_Depth parent)"
    using assms(1)
    by (auto simp: buildAutonomousSearchTaskRecords_def Let_def split: if_splits dest: in_set_takeD)
  show "task_Autonomous t" "fresh_link E st (task_URL t)"
    using t u select_links_sound [of E st parent p] by (auto simp: autonomous_task_def Let_def)
  have "task_Depth parent < 2" using d assms(2) by (auto simp: depth_ok_def autonomousCrawlMaxDepth_def split: if_splits)
  then have "task_Depth parent + 1 \<le> 2" by (rule inc_le)
  then show "depth_ok t" using t by (simp add: depth_ok_def autonomous_task_def Let_def autonomousCrawlMaxDepth_def)
qed

lemma settle_crawl_inv:
  assumes "crawl_inv st" and "fmlookup (PendingTasks st) k = Some task" and "\<not> task_Completed task"
  shows "crawl_inv (settle E st task p bh r)"
proof -
  let ?st' = "settle E st task p bh r" and ?w = "\<lambda>t. of_bool (active_autonomous t) :: int"
  obtain s1 where s1: "PendingTasks s1 = fmupd (task_ID task) (complete_task task p) (PendingTasks st)"
    "PendingTasks ?st' = add_tasks (buildAutonomousSearchTaskRecords E s1 (complete_task task p) p) (PendingTasks s1)"
    by (rule settle_tasks)
  define ts where "ts = buildAutonomousSearchTaskRecords E s1 (complete_task task p) p"
  have task: "task_ID task = k" "depth_ok task" using assms(1,2) by (auto simp: crawl_inv_def)
  have "0 \<le> fm_weight ?w (PendingTasks st) (task_ID task)" by (simp add: fm_weight_def split: option.splits)
  then have "fm_sum ?w (PendingTasks s1) \<le> fm_sum ?w (PendingTasks st)"
    by (simp add: s1(1) fm_sum_upd active_autonomous_def [of "complete_task task p"])
  then have s1_count: "countActiveAutonomousSearchTasks s1 \<le> autonomousCrawlPendingTaskLimit"
    using assms(1) count_active [of s1] count_active [of st] by (simp add: crawl_inv_def)
  have "fm_sum ?w (add_tasks ts (PendingTasks s1)) \<le> fm_sum ?w (PendingTasks s1) + int (length ts)"
    by (rule add_tasks_count) auto
  then have "countActiveAutonomousSearchTasks ?st' \<le> countActiveAutonomousSearchTasks s1 + length ts"
    using count_active [of ?st'] count_active [of s1] by (simp add: s1(2) ts_def [symmetric])
  then have "countActiveAutonomousSearchTasks ?st' \<le> autonomousCrawlPendingTaskLimit"
    using s1_count spawned_bounds [of E s1 "complete_task task p" p] by (cases "ts = []") (auto simp: ts_def)
  moreover have "task_ID t = j \<and> depth_ok t" if "fmlookup (PendingTasks ?st') j = Some t" for j t
  proof -
    have "depth_ok (complete_task task p)" using task(2) by (simp add: depth_ok_def)
    moreover from that have "t \<in> set ts \<and> task_ID t = j \<or> fmlookup (PendingTasks s1) j = Some t"
      unfolding s1(2) ts_def by (rule add_tasks_lookup)
    ultimately show ?thesis
      using assms(1) spawned_depth(1) [of t E s1 "complete_task task p" p]
      by (auto simp: ts_def s1(1) crawl_inv_def split: if_splits)
  qed
  ultimately show ?thesis by (simp add: crawl_inv_def)
qed

lemma ledger_inv_task:
  assumes "ledger_inv st" and "fmlookup (PendingTasks st) k = Some t"
  obtains g f r where "task_ID t = k" and "task_GrossBounty t = show_int g"
    and "task_ArchitectFee t = show_int f" and "task_MinerReward t = show_int r" and "0 \<le> r"
proof -
  have "task_ID t = k \<and> task_ok t" using assms by (simp add: ledger_inv_def)
  then show thesis using that by (auto simp: task_ok_def)
qed

section \<open>Properties\<close>

text \<open>
  Settling a list of crawl proofs keeps the ledger invariant (balances non-negative,
  task records well-formed, the escrow covering every open reward) and neither creates nor
  destroys money.
\<close>

theorem settlement_run_sound:
  assumes "ledger_inv st"
    and "run_steps (\<lambda>st proof. ApplyCrawlProof E st proof bh) st proofs = Inr (st', settled)"
  shows "ledger_inv st' \<and> total_supply st' = total_supply st"
  using settlement.run_inv [OF assms] settlement.run_metered [OF assms]
  by (simp add: sum_list_0)


text \<open>
  C35: a task pays once. Settling it moves exactly its reward from the escrow to the miner
  and marks it completed, and no later proof for the same task is accepted on the resulting
  state, provided the identifier hash does not reproduce the identifier it is computed from.
\<close>

theorem task_settles_once:
  assumes "ledger_inv st" and "ApplyCrawlProof E st proof bh = Inr (st', p)"
    and "\<forall>u d. buildAutonomousSearchTaskID E (pr_TaskID p) u d \<noteq> pr_TaskID p"
  shows "(\<exists>task r. fmlookup (PendingTasks st) (pr_TaskID p) = Some task \<and> task_MinerReward task = show_int r
      \<and> balance_of st' = (\<lambda>k. balance_of st k - (if k = SearchEscrowAddress then r else 0) + (if k = pr_Miner p then r else 0)))
    \<and> (normalizeCrawlProof E proof' = Inr p' \<and> pr_TaskID p' = pr_TaskID p
       \<longrightarrow> ApplyCrawlProof E st' proof' bh' = Inl ErrTaskSettled)"
proof -
  obtain task r where task: "fmlookup (PendingTasks st) (pr_TaskID p) = Some task"
    "SetString (task_MinerReward task) = Some r" and st': "st' = settle E st task p bh r"
    using assms(2) by (rule ApplyCrawlProof_Inr)
  have t: "task_ID task = pr_TaskID p" "task_MinerReward task = show_int r"
    using ledger_inv_task [OF assms(1) task(1)] task(2) by (metis, metis SetString_show_int option.inject)
  obtain s1 where s1: "PendingTasks s1 = fmupd (task_ID task) (complete_task task p) (PendingTasks st)"
    "PendingTasks st' = add_tasks (buildAutonomousSearchTaskRecords E s1 (complete_task task p) p) (PendingTasks s1)"
    unfolding st' by (rule settle_tasks)
  have "pr_TaskID p \<notin> task_ID ` set (buildAutonomousSearchTaskRecords E s1 (complete_task task p) p)"
  proof
    assume "pr_TaskID p \<in> task_ID ` set (buildAutonomousSearchTaskRecords E s1 (complete_task task p) p)"
    then obtain s where s: "s \<in> set (buildAutonomousSearchTaskRecords E s1 (complete_task task p) p)"
      "task_ID s = pr_TaskID p" by auto
    obtain u d where "task_ID s = buildAutonomousSearchTaskID E (pr_TaskID p) u d"
      using spawned_id [OF s(1)] t(1) by auto
    with s(2) assms(3) show False by simp
  qed
  then have "fmlookup (PendingTasks st') (pr_TaskID p) = Some (complete_task task p)"
    by (simp add: s1 add_tasks_other t(1))
  moreover have "balance_of st' = (\<lambda>k. balance_of st k - (if k = SearchEscrowAddress then r else 0)
      + (if k = pr_Miner p then r else 0))"
    by (rule ext) (simp add: st' settle_simps state_simps)
  ultimately show ?thesis using task t(2) by (auto simp: ApplyCrawlProof_def)
qed

text \<open>
  C37: the mention count of every term is the sum of its counts over the indexed documents;
  indexing or re-indexing a page keeps that, as long as no total exceeds a \<open>uint64\<close>.
\<close>

theorem mention_counts_match_index:
  assumes "index_inv st" and "ApplyCrawlProof E st proof bh = Inr (st', p)"
    and "\<forall>t. mention_total st' t < 2 ^ 64"
  shows "index_inv st' \<and> fmlookup (SearchIndex st') (pr_URL p) = Some (settled_record E p bh)
    \<and> (\<forall>u. u \<noteq> pr_URL p \<longrightarrow> fmlookup (SearchIndex st') u = fmlookup (SearchIndex st) u)"
proof -
  obtain task r where "st' = settle E st task p bh r" using assms(2) by (rule ApplyCrawlProof_Inr)
  then show ?thesis using settle_mentions [OF assms(1)] assms(3) by (simp add: settle_simps)
qed

text \<open>
  Autonomous crawling is bounded. Settling a proof keeps at most 1024 open autonomous
  tasks and no task deeper than two links; one proof spawns at most four, for distinct links
  that are neither indexed nor the target of an open task.
\<close>

theorem autonomous_crawl_bounded:
  "(crawl_inv st \<and> ApplyCrawlProof E st proof bh = Inr (st', p) \<longrightarrow> crawl_inv st')
   \<and> length (buildAutonomousSearchTaskRecords E st parent q) \<le> 4
   \<and> distinct (map task_URL (buildAutonomousSearchTaskRecords E st parent q))
   \<and> (depth_ok parent \<longrightarrow> (\<forall>t \<in> set (buildAutonomousSearchTaskRecords E st parent q).
        fmlookup (SearchIndex st) (task_URL t) = None \<and> \<not> stateHasActiveSearchTaskURL st (task_URL t)
        \<and> task_Depth t \<le> 2 \<and> task_owed t = 0))"
proof (intro conjI)
  show "crawl_inv st \<and> ApplyCrawlProof E st proof bh = Inr (st', p) \<longrightarrow> crawl_inv st'"
    by (auto elim!: ApplyCrawlProof_Inr intro: settle_crawl_inv)
  show "length (buildAutonomousSearchTaskRecords E st parent q) \<le> 4"
    using spawned_bounds [of E st parent q] by (simp add: autonomousCrawlLinksPerProof_def)
  have "map (\<lambda>u. task_URL (autonomous_task E parent q u)) us = us" for us
    by (simp add: autonomous_task_def Let_def)
  then show "distinct (map task_URL (buildAutonomousSearchTaskRecords E st parent q))"
    using select_links_sound [of E st parent q]
    by (simp add: buildAutonomousSearchTaskRecords_def Let_def comp_def distinct_take)
  show "depth_ok parent \<longrightarrow> (\<forall>t \<in> set (buildAutonomousSearchTaskRecords E st parent q).
        fmlookup (SearchIndex st) (task_URL t) = None \<and> \<not> stateHasActiveSearchTaskURL st (task_URL t)
        \<and> task_Depth t \<le> 2 \<and> task_owed t = 0)"
    using spawned_depth [of _ E st parent q] spawned_ok [of _ E st parent q]
    by (auto simp: fresh_link_def depth_ok_def autonomousCrawlMaxDepth_def)
qed

text \<open>
  What a proof stores is bounded: a truncated text fits the limit and is the encoding
  of a prefix of its characters, a text within the limit is unchanged, and the kept links
  are at most 64, trimmed, non-empty, distinct and taken from the page.
\<close>

theorem stored_proof_bounded:
  "(0 < limit \<longrightarrow> length (truncateUTF8Bytes s limit) \<le> limit)
   \<and> (length s \<le> limit \<longrightarrow> truncateUTF8Bytes s limit = s)
   \<and> (limit < length s \<longrightarrow> 0 < limit \<longrightarrow>
        (\<exists>k. truncateUTF8Bytes s limit = concat (map encode_rune (take k (runes s)))))
   \<and> distinct (truncateOutboundLinks links 64) \<and> length (truncateOutboundLinks links 64) \<le> 64
   \<and> set (truncateOutboundLinks links 64) \<subseteq> TrimSpace ` set links - {[]}"
proof -
  have "distinct (truncate_links 64 [] links) \<and> length (truncate_links 64 [] links) \<le> 64
    \<and> (\<forall>l \<in> set (truncate_links 64 [] links). l \<noteq> [] \<and> TrimSpace l = l)
    \<and> set (truncate_links 64 [] links) \<subseteq> set [] \<union> TrimSpace ` set links"
    by (rule truncate_links_sound) auto
  then show ?thesis
    using truncateUTF8Bytes_length [of limit s] truncate_runes_prefix [of limit 0 "runes s"]
    by (auto simp: truncateUTF8Bytes_def truncateOutboundLinks_def)
qed

section \<open>A concrete settlement\<close>

definition toy_task :: SearchTaskRecord where
  "toy_task =
     \<lparr>task_ID = ''t'', task_TxHash = ''t'', task_Submitter = ''s'', task_Query = [], task_URL = ''u'',
      task_BaseBounty = ''100'', task_GrossBounty = show_int 100, task_ArchitectFee = show_int 3,
      task_MinerReward = show_int 97, task_Difficulty = 0, task_DataVolumeBytes = 0,
      task_CreatedAt = 1, task_Autonomous = False, task_ParentTaskID = [], task_Depth = 0,
      task_Completed = False, task_CompletedAt = 0, task_ProofHash = [], task_MinedBy = []\<rparr>"

definition toy_proof :: CrawlProof where
  "toy_proof =
     \<lparr>pr_TaskID = ''t'', pr_TaskTxHash = ''t'', pr_Query = [], pr_URL = ''u'', pr_Miner = ''m'',
      pr_Page = \<lparr>page_URL = ''u'', page_Title = [], page_Body = [], page_Snippet = [],
        page_OutboundLinks = [], page_StatusCode = 200, page_BodyBytes = 1, page_ContentHash = [],
        page_QueryCoverage = 0, page_SimHash = 0, page_IndexedAt = 1\<rparr>,
      pr_ProofHash = [], pr_GrossBounty = show_int 100, pr_ArchitectFee = show_int 3,
      pr_MinerReward = show_int 97, pr_CreatedAt = 1\<rparr>"

definition toy_escrow :: StateSnapshot where
  "toy_escrow = NewStateSnapshot\<lparr>Balances := fmupd SearchEscrowAddress 97 fmempty,
     PendingTasks := fmupd ''t'' toy_task fmempty\<rparr>"

definition toy_normal :: CrawlProof where
  "toy_normal = toy_proof\<lparr>pr_ProofHash := computeCrawlProofHash toy_env toy_proof\<rparr>"

lemma TrimSpace_letters [simp]: "TrimSpace ''t'' = ''t''" "TrimSpace ''u'' = ''u''" "TrimSpace ''m'' = ''m''"
  by (rule TrimSpace_visible, simp add: visible_def byte_def)+

lemma toy_normalized: "normalizeCrawlProof toy_env toy_proof = Inr toy_normal"
proof -
  have page: "normalize_page (pr_Page toy_proof) = pr_Page toy_proof"
    by (simp add: normalize_page_def toy_proof_def truncateUTF8Bytes_def truncateOutboundLinks_def)
  have "TrimSpace (pr_TaskID toy_proof) = pr_TaskID toy_proof" "TrimSpace (pr_URL toy_proof) = pr_URL toy_proof"
    "TrimSpace (pr_Miner toy_proof) = pr_Miner toy_proof" "TrimSpace (pr_TaskTxHash toy_proof) = pr_TaskTxHash toy_proof"
    "TrimSpace (pr_Query toy_proof) = pr_Query toy_proof" "pr_ProofHash toy_proof = []"
    "pr_TaskID toy_proof \<noteq> []" "pr_URL toy_proof \<noteq> []" "pr_Miner toy_proof \<noteq> []" "pr_CreatedAt toy_proof = 1"
    by (simp_all add: toy_proof_def)
  with page show ?thesis
    by (simp add: normalizeCrawlProof_def toy_normal_def Let_def computeCrawlProofHash_def)
qed

lemma toy_escrow_inv: "ledger_inv toy_escrow"
proof -
  have "task_ok toy_task" by (simp add: task_ok_def toy_task_def)
  moreover have "task_owed toy_task = 97" "task_ID toy_task = ''t''"
    by (simp_all add: task_owed_def toy_task_def)
  ultimately show ?thesis
    by (simp add: ledger_inv_def toy_escrow_def NewStateSnapshot_def obligations_def fm_sum_upd fm_weight_def)
qed

lemma toy_open: "fmlookup (PendingTasks toy_escrow) (pr_TaskID toy_normal) = Some toy_task" "\<not> task_Completed toy_task"
  by (simp_all add: toy_escrow_def toy_normal_def toy_proof_def toy_task_def)

definition toy_settled :: StateSnapshot where
  "toy_settled = settle toy_env toy_escrow toy_task toy_normal [] 97"

lemma toy_settles: "ApplyCrawlProof toy_env toy_escrow toy_proof [] = Inr (toy_settled, toy_normal)"
  using toy_open
  by (simp add: ApplyCrawlProof_def toy_normalized toy_settled_def)
    (simp add: toy_normal_def toy_proof_def toy_task_def big_differs_def toy_escrow_def)

theorem settlement_run_sound_witness:
  "run_steps (\<lambda>st proof. ApplyCrawlProof toy_env st proof []) toy_escrow [toy_proof] = Inr (toy_settled, [toy_normal])
   \<and> ledger_inv toy_settled \<and> total_supply toy_settled = total_supply toy_escrow"
proof -
  have run: "run_steps (\<lambda>st proof. ApplyCrawlProof toy_env st proof []) toy_escrow [toy_proof] = Inr (toy_settled, [toy_normal])"
    by (simp add: toy_settles)
  with settlement_run_sound [OF toy_escrow_inv run] show ?thesis by simp
qed


theorem task_settles_once_witness:
  "ApplyCrawlProof toy_env toy_settled toy_proof [] = Inl ErrTaskSettled"
proof -
  have "length (buildAutonomousSearchTaskID toy_env x u d) = 32" for x u d
    by (simp add: buildAutonomousSearchTaskID_def toy_env_def)
  moreover have "length (pr_TaskID toy_normal) = 1" by (simp add: toy_normal_def toy_proof_def)
  ultimately have "\<forall>u d. buildAutonomousSearchTaskID toy_env (pr_TaskID toy_normal) u d \<noteq> pr_TaskID toy_normal"
    by (metis num.distinct(1) numeral_eq_one_iff)
  then show ?thesis
    using task_settles_once [OF toy_escrow_inv toy_settles] toy_normalized by blast
qed

theorem mention_counts_match_index_witness:
  "index_inv toy_settled \<and> fmlookup (SearchIndex toy_settled) ''u'' = Some (settled_record toy_env toy_normal [])"
proof -
  have "tokenize toy_env (pr_Query toy_normal @ '' '' @ page_Title (pr_Page toy_normal) @ '' '' @ page_Body (pr_Page toy_normal)) = []"
    by (simp add: toy_normal_def toy_proof_def tokenize_def runes_ascii is_ascii_def byte_def is_word_rune_def)
  then have "doc_TermCounts (settled_record toy_env toy_normal []) = fmempty"
    by (simp add: settled_record_def computeTermCounts_def)
  then have "\<forall>t. mention_total toy_settled t < 2 ^ 64"
    by (simp add: toy_settled_def mention_total_def settle_simps fm_sum_upd fm_weight_def
        toy_escrow_def NewStateSnapshot_def mentions_in_def)
  moreover have "index_inv toy_escrow"
    by (simp add: index_inv_def toy_escrow_def NewStateSnapshot_def mention_total_def)
  moreover have "pr_URL toy_normal = ''u''" by (simp add: toy_normal_def toy_proof_def)
  ultimately show ?thesis using mention_counts_match_index [OF _ toy_settles] by auto
qed

theorem autonomous_crawl_bounded_witness:
  "crawl_inv toy_settled"
proof -
  have "crawl_inv toy_escrow"
    using count_active [of toy_escrow]
    by (simp add: crawl_inv_def toy_escrow_def NewStateSnapshot_def fm_sum_upd fm_weight_def
        active_autonomous_def toy_task_def depth_ok_def autonomousCrawlPendingTaskLimit_def)
  then show ?thesis using autonomous_crawl_bounded toy_settles by blast
qed

theorem stored_proof_bounded_witness:
  "length (truncateUTF8Bytes ''abc'' 2) \<le> 2 \<and> truncateUTF8Bytes ''ab'' 2 = ''ab''"
  using stored_proof_bounded [of 2 "''abc''" "[]"] stored_proof_bounded [of 2 "''ab''" "[]"] by simp

end
