(* ===== verification/Blocks.thy ===== *)
theory Blocks
  imports Settlement
begin

text \<open>
  Blocks (\<open>src/core/blockchain.go\<close>): Merkle roots, the state root, the block hash, the
  useful-work measure and \<open>prepareBlock\<close>, which both mining and importing run. A block
  without a hash is one being mined: its roots and hash are filled in; a block with a hash
  must carry exactly the roots and the hash computed from its parent state.
\<close>

definition searchTaskTxWorkUnits :: u64 where
  "searchTaskTxWorkUnits = 2"

definition maxProofWorkBodyBytes :: nat where
  "maxProofWorkBodyBytes = 32768"

definition maxProofWorkUniqueTerms :: nat where
  "maxProofWorkUniqueTerms = 256"

definition proofWorkTermBoostBPS :: u64 where
  "proofWorkTermBoostBPS = 15"

definition proofWorkBodyChunkBytes :: nat where
  "proofWorkBodyChunkBytes = 128"

definition maxProofWorkBodyBoostBPS :: u64 where
  "maxProofWorkBodyBoostBPS = 2500"

definition maxProofWorkHostPenaltyFloorBPS :: u64 where
  "maxProofWorkHostPenaltyFloorBPS = 2500"

definition maxProofWorkSubmitterPenaltyFloorBPS :: u64 where
  "maxProofWorkSubmitterPenaltyFloorBPS = 4000"

section \<open>Merkle roots\<close>

fun merkle_level :: "env \<Rightarrow> string list \<Rightarrow> string list" where
  "merkle_level E [] = []"
| "merkle_level E [left] = [hex_encode (sha256 E (left @ left))]"
| "merkle_level E (left # right # nodes) = hex_encode (sha256 E (left @ right)) # merkle_level E nodes"

lemma length_merkle_level: "length (merkle_level E xs) = (length xs + 1) div 2"
  by (induction E xs rule: merkle_level.induct) auto

function merkle_loop :: "env \<Rightarrow> string list \<Rightarrow> string list" where
  "merkle_loop E nodes = (if 1 < length nodes then merkle_loop E (merkle_level E nodes) else nodes)"
  by pat_completeness auto
termination
  by (relation "measure (\<lambda>(E, nodes). length nodes)") (auto simp: length_merkle_level)

declare merkle_loop.simps [simp del]

definition merkleRoot :: "env \<Rightarrow> string list \<Rightarrow> string" where
  "merkleRoot E values =
     (if values = [] then hex_encode (sha256 E []) else merkle_loop E values ! 0)"

definition transactionsRoot :: "env \<Rightarrow> Transaction list \<Rightarrow> string" where
  "transactionsRoot E transactions = merkleRoot E (map tx_Hash transactions)"

definition crawlProofsRoot :: "env \<Rightarrow> CrawlProof list \<Rightarrow> string" where
  "crawlProofsRoot E proofs = merkleRoot E (map pr_ProofHash proofs)"

section \<open>Hashes of records\<close>

definition opt_flag :: "string \<Rightarrow> bool \<Rightarrow> (string \<times> json) list" where
  "opt_flag k b = (if b then [(k, JBool b)] else [])"

definition opt_uint :: "string \<Rightarrow> u64 \<Rightarrow> (string \<times> json) list" where
  "opt_uint k n = (if n = 0 then [] else [(k, JUint n)])"

definition task_json :: "SearchTaskRecord \<Rightarrow> json" where
  "task_json t = JObj
     ([(''id'', JStr (task_ID t)), (''txHash'', JStr (task_TxHash t)), (''submitter'', JStr (task_Submitter t)),
       (''query'', JStr (task_Query t)), (''url'', JStr (task_URL t)), (''baseBounty'', JStr (task_BaseBounty t)),
       (''grossBounty'', JStr (task_GrossBounty t)), (''architectFee'', JStr (task_ArchitectFee t)),
       (''minerReward'', JStr (task_MinerReward t)), (''difficulty'', JUint (task_Difficulty t)),
       (''dataVolumeBytes'', JUint (task_DataVolumeBytes t)), (''createdAt'', JTime (task_CreatedAt t))]
      @ opt_flag ''autonomous'' (task_Autonomous t) @ opt_str ''parentTaskId'' (task_ParentTaskID t)
      @ opt_uint ''depth'' (task_Depth t)
      @ [(''completed'', JBool (task_Completed t)), (''completedAt'', JTime (task_CompletedAt t))]
      @ opt_str ''proofHash'' (task_ProofHash t) @ opt_str ''minedBy'' (task_MinedBy t))"

definition doc_json :: "SearchRecord \<Rightarrow> json" where
  "doc_json d = JObj
     [(''taskId'', JStr (doc_TaskID d)), (''url'', JStr (doc_URL d)), (''query'', JStr (doc_Query d)),
      (''title'', JStr (doc_Title d)), (''snippet'', JStr (doc_Snippet d)), (''body'', JStr (doc_Body d)),
      (''bodyBytes'', JUint (doc_BodyBytes d)), (''contentHash'', JStr (doc_ContentHash d)),
      (''simHash'', JUint (doc_SimHash d)), (''indexedAt'', JTime (doc_IndexedAt d)),
      (''indexedBy'', JStr (doc_IndexedBy d)), (''proofHash'', JStr (doc_ProofHash d)),
      (''blockHash'', JStr (doc_BlockHash d)),
      (''termCounts'', JObj (map (\<lambda>(t, c). (t, JUint c)) (fm_entries (doc_TermCounts d))))]"

definition name_json :: "NameRecord \<Rightarrow> json" where
  "name_json n = JObj
     [(''name'', JStr (name_Name n)), (''owner'', JStr (name_Owner n)),
      (''registeredAt'', JTime (name_RegisteredAt n)), (''txHash'', JStr (name_TxHash n))]"

definition header_json :: "BlockHeader \<Rightarrow> json" where
  "header_json h = JObj
     [(''number'', JUint (hdr_Number h)), (''parentHash'', JStr (hdr_ParentHash h)),
      (''stateRoot'', JStr (hdr_StateRoot h)), (''timestamp'', JTime (hdr_Timestamp h)),
      (''miner'', JStr (hdr_Miner h)), (''txRoot'', JStr (hdr_TxRoot h)), (''crawlRoot'', JStr (hdr_CrawlRoot h))]"

definition computeBlockHash :: "env \<Rightarrow> Block \<Rightarrow> string" where
  "computeBlockHash E block = hex_encode (sha256 E (json_marshal E (header_json (blk_Header block))))"

text \<open>
  The entries of each map in key order. A search record is hashed without the hash of the
  block that holds it; contracts and their data are not part of the root.
\<close>

definition computeStateRoot :: "env \<Rightarrow> StateSnapshot \<Rightarrow> string" where
  "computeStateRoot E state =
     (let entries =
        map (\<lambda>(a, b). ''bal:'' @ a @ ''='' @ show_int b) (fm_entries (Balances state))
        @ map (\<lambda>(a, n). ''nonce:'' @ a @ ''='' @ FormatUint n) (fm_entries (Nonces state))
        @ map (\<lambda>(i, t). ''task:'' @ i @ ''='' @ json_marshal E (task_json t)) (fm_entries (PendingTasks state))
        @ map (\<lambda>(u, d). ''search:'' @ u @ ''='' @ json_marshal E (doc_json (d\<lparr>doc_BlockHash := []\<rparr>)))
            (fm_entries (SearchIndex state))
        @ map (\<lambda>(t, c). ''mention:'' @ t @ ''='' @ FormatUint c) (fm_entries (MentionCounts state))
        @ map (\<lambda>(k, n). ''name:'' @ k @ ''='' @ json_marshal E (name_json n)) (fm_entries (Names state))
      in hex_encode (sha256 E (Join entries ''|'')))"

section \<open>Useful work\<close>

definition usefulProofQualityBPS :: "env \<Rightarrow> CrawlProof \<Rightarrow> u64" where
  "usefulProofQualityBPS E proof =
     (let page = pr_Page proof;
          txt = TrimSpace (page_Title page @ '' '' @ page_Snippet page @ '' '' @ page_Body page);
          uniqueTerms = min (size (fmdom (computeTermCounts E txt))) maxProofWorkUniqueTerms;
          bodyBytes = min (length (page_Body page) + length (page_Title page) + length (page_Snippet page))
                        maxProofWorkBodyBytes;
          bodyBoost = min (of_nat (bodyBytes div proofWorkBodyChunkBytes) * 10) maxProofWorkBodyBoostBPS
      in BasisPoints + of_nat uniqueTerms * proofWorkTermBoostBPS + bodyBoost)"

definition occurrencePenaltyBPS :: "nat \<Rightarrow> u64 \<Rightarrow> u64" where
  "occurrencePenaltyBPS n flr =
     (if n \<le> 1 then BasisPoints
      else
        (let penalty = BasisPoints div of_nat n in if penalty < flr then flr else penalty))"

definition normalizeWorkHost :: "env \<Rightarrow> string \<Rightarrow> string" where
  "normalizeWorkHost E rawURL =
     (let cleaned = TrimSpace (ToLower E rawURL) in
      if cleaned = [] then []
      else
        (case url_parse E cleaned of
           Some parsed \<Rightarrow> if Host parsed \<noteq> [] then ToLower E (url_hostname E parsed) else cleaned
         | None \<Rightarrow> cleaned))"

definition computeUsefulProofWork :: "env \<Rightarrow> SearchTaskRecord \<Rightarrow> CrawlProof \<Rightarrow> nat \<Rightarrow> nat \<Rightarrow> int" where
  "computeUsefulProofWork E record proof hostOccurrences submitterOccurrences =
     (let difficulty = (if task_Difficulty record = 0 then 1 else task_Difficulty record);
          qualityBPS = usefulProofQualityBPS E proof;
          hostPenalty = occurrencePenaltyBPS hostOccurrences maxProofWorkHostPenaltyFloorBPS;
          submitterPenalty = occurrencePenaltyBPS submitterOccurrences maxProofWorkSubmitterPenaltyFloorBPS;
          composite = ComposeBasisPoints [qualityBPS, hostPenalty, submitterPenalty];
          weighted = ApplyBasisPoints (Some (uint difficulty)) composite
      in if weighted \<le> 0 then 1 else weighted)"

definition tx_work :: "Transaction \<Rightarrow> int" where
  "tx_work tx = (if tx_Type tx = TxTypeSearchTask then uint searchTaskTxWorkUnits else 1)"

text \<open>The occurrence maps count, over all proofs of the block, the host and the submitter.\<close>

definition proof_task :: "StateSnapshot \<Rightarrow> CrawlProof \<Rightarrow> SearchTaskRecord option" where
  "proof_task state proof = fmlookup (PendingTasks state) (TrimSpace (pr_TaskID proof))"

definition host_count :: "env \<Rightarrow> CrawlProof list \<Rightarrow> string \<Rightarrow> nat" where
  "host_count E proofs host = length (filter (\<lambda>p. normalizeWorkHost E (pr_URL p) = host) proofs)"

definition submitter_count :: "StateSnapshot \<Rightarrow> CrawlProof list \<Rightarrow> string \<Rightarrow> nat" where
  "submitter_count state proofs who =
     length (filter (\<lambda>p. case proof_task state p of None \<Rightarrow> False | Some r \<Rightarrow> TrimSpace (task_Submitter r) = who) proofs)"

definition computeBlockWork :: "env \<Rightarrow> StateSnapshot \<Rightarrow> Transaction list \<Rightarrow> CrawlProof list \<Rightarrow> int res" where
  "computeBlockWork E state transactions proofs =
     (if list_ex (\<lambda>p. proof_task state p = None) proofs then Inl ErrTaskNotFound
      else Inr ((\<Sum>tx\<leftarrow>transactions. tx_work tx)
                + (\<Sum>p\<leftarrow>proofs. let record = the (proof_task state p) in
                     computeUsefulProofWork E record p
                       (host_count E proofs (normalizeWorkHost E (pr_URL p)))
                       (submitter_count state proofs (TrimSpace (task_Submitter record))))))"

section \<open>Preparing a block\<close>

record preparedBlock =
  pb_Block :: Block
  pb_State :: StateSnapshot
  pb_Work :: int

definition zero_SearchRecord :: SearchRecord where
  "zero_SearchRecord =
     \<lparr>doc_TaskID = [], doc_URL = [], doc_Query = [], doc_Title = [], doc_Snippet = [], doc_Body = [],
      doc_BodyBytes = 0, doc_ContentHash = [], doc_SimHash = 0, doc_IndexedAt = 0, doc_IndexedBy = [],
      doc_ProofHash = [], doc_BlockHash = [], doc_TermCounts = fmempty\<rparr>"

definition stamp_record :: "string \<Rightarrow> CrawlProof \<Rightarrow> StateSnapshot \<Rightarrow> StateSnapshot" where
  "stamp_record hash p st =
     st\<lparr>SearchIndex := fmupd (pr_URL p)
          ((fm_get (SearchIndex st) zero_SearchRecord (pr_URL p))\<lparr>doc_BlockHash := hash\<rparr>) (SearchIndex st)\<rparr>"

definition expected_block ::
    "env \<Rightarrow> Block \<Rightarrow> Block \<Rightarrow> Transaction list \<Rightarrow> CrawlProof list \<Rightarrow> StateSnapshot \<Rightarrow> Block" where
  "expected_block E parent block txs proofs snapshot =
     (let header = (blk_Header block)\<lparr>
            hdr_Number := hdr_Number (blk_Header parent) + 1, hdr_ParentHash := blk_Hash parent,
            hdr_Timestamp := (if hdr_Timestamp (blk_Header block) = 0 then now E
                              else hdr_Timestamp (blk_Header block)),
            hdr_TxRoot := transactionsRoot E txs, hdr_CrawlRoot := crawlProofsRoot E proofs,
            hdr_StateRoot := computeStateRoot E snapshot\<rparr>;
          b = block\<lparr>blk_Header := header,
                     blk_Body := \<lparr>body_Transactions = txs, body_CrawlProofs = proofs\<rparr>\<rparr>
      in b\<lparr>blk_Hash := computeBlockHash E b\<rparr>)"

definition prepareBlock ::
    "env \<Rightarrow> Block \<Rightarrow> StateSnapshot option \<Rightarrow> Block \<Rightarrow> string \<Rightarrow> preparedBlock res" where
  "prepareBlock E parent parentState block architectAddress =
     (case parentState of
        None \<Rightarrow> Inl ErrInvalidBlock
      | Some st \<Rightarrow>
          if hdr_Number (blk_Header block) \<noteq> hdr_Number (blk_Header parent) + 1 then Inl ErrInvalidBlock
          else if hdr_ParentHash (blk_Header block) \<noteq> blk_Hash parent then Inl ErrInvalidBlock
          else
            (case run_steps (apply_tx E architectAddress) st (body_Transactions (blk_Body block)) of
               Inl e \<Rightarrow> Inl e
             | Inr (st1, applied) \<Rightarrow>
                 let normalizedTxs = map app_Transaction applied in
                 (case computeBlockWork E st1 normalizedTxs (body_CrawlProofs (blk_Body block)) of
                    Inl e \<Rightarrow> Inl e
                  | Inr work \<Rightarrow>
                      (case run_steps (\<lambda>s p. ApplyCrawlProof E s p []) st1 (body_CrawlProofs (blk_Body block)) of
                         Inl e \<Rightarrow> Inl e
                       | Inr (st2, normalizedProofs) \<Rightarrow>
                           let expected = expected_block E parent block normalizedTxs normalizedProofs st2 in
                           if blk_Hash block \<noteq> [] \<and>
                              (hdr_TxRoot (blk_Header expected) \<noteq> hdr_TxRoot (blk_Header block)
                               \<or> hdr_CrawlRoot (blk_Header expected) \<noteq> hdr_CrawlRoot (blk_Header block)
                               \<or> hdr_StateRoot (blk_Header expected) \<noteq> hdr_StateRoot (blk_Header block)
                               \<or> blk_Hash expected \<noteq> blk_Hash block)
                           then Inl ErrInvalidBlock
                           else Inr \<lparr>pb_Block = expected,
                                     pb_State = fold (stamp_record (blk_Hash expected)) normalizedProofs st2,
                                     pb_Work = work\<rparr>))))"

section \<open>Work is positive and bounded\<close>

lemma uint_of_nat_small: "n < 2 ^ 64 \<Longrightarrow> uint (of_nat n :: u64) = int n"
  using unat_u64_small [of n] by (simp add: uint_nat)

lemma uint_add3_small:
  fixes a b c :: u64
  assumes "uint a + uint b + uint c < 2 ^ 64"
  shows "uint (a + b + c) = uint a + uint b + uint c"
proof -
  have "uint a + uint b < 2 ^ 64" using assms uint_ge_0 [of c] by linarith
  then show ?thesis using assms by (simp add: uint_word_ariths)
qed

lemma quality_bounds:
  "10000 \<le> uint (usefulProofQualityBPS E p) \<and> uint (usefulProofQualityBPS E p) \<le> 16340"
proof -
  define u where "u = min (size (fmdom (computeTermCounts E (TrimSpace (page_Title (pr_Page p) @ '' ''
     @ page_Snippet (pr_Page p) @ '' '' @ page_Body (pr_Page p)))))) maxProofWorkUniqueTerms"
  define b where "b = min (of_nat (min (length (page_Body (pr_Page p)) + length (page_Title (pr_Page p))
     + length (page_Snippet (pr_Page p))) maxProofWorkBodyBytes div proofWorkBodyChunkBytes) * 10) maxProofWorkBodyBoostBPS"
  have q: "usefulProofQualityBPS E p = BasisPoints + of_nat u * 15 + b"
    by (simp add: usefulProofQualityBPS_def Let_def u_def b_def proofWorkTermBoostBPS_def)
  have "u \<le> 256" by (simp add: u_def maxProofWorkUniqueTerms_def)
  then have "uint (of_nat (u * 15) :: u64) = int (u * 15)" by (intro uint_of_nat_small) simp
  then have u15: "uint (of_nat u * 15 :: u64) = int u * 15" by simp
  have "b \<le> 2500" by (simp add: b_def maxProofWorkBodyBoostBPS_def)
  then have b: "uint b \<le> 2500" by (simp add: word_le_def)
  have "uint BasisPoints + uint (of_nat u * 15 :: u64) + uint b < 2 ^ 64"
    using u15 b \<open>u \<le> 256\<close> by simp
  then have "uint (usefulProofQualityBPS E p) = 10000 + int u * 15 + uint b"
    unfolding q by (simp only: uint_add3_small u15 BasisPoints_unat)
  then show ?thesis using b \<open>u \<le> 256\<close> by simp
qed

lemma penalty_bounds:
  assumes "1 \<le> uint flr" and "uint flr \<le> 10000"
  shows "1 \<le> uint (occurrencePenaltyBPS n flr) \<and> uint (occurrencePenaltyBPS n flr) \<le> 10000"
proof -
  have "unat (BasisPoints div of_nat n) \<le> unat BasisPoints"
    unfolding unat_div by (rule div_le_dividend)
  then have "int (unat (BasisPoints div of_nat n)) \<le> int (unat BasisPoints)" by (rule of_nat_mono)
  then have "uint (BasisPoints div of_nat n) \<le> 10000" unfolding uint_nat [symmetric] BasisPoints_unat .
  then show ?thesis
    using assms by (auto simp: occurrencePenaltyBPS_def Let_def word_less_def)
qed

lemma ceil_scale_le:
  fixes c m :: int
  assumes "0 \<le> c" and "m \<le> 10000"
  shows "(c * m + 9999) div 10000 \<le> c"
proof -
  have "c * m \<le> c * 10000" using assms by (intro mult_left_mono) simp_all
  then have "(c * m + 9999) div 10000 \<le> (c * 10000 + 9999) div 10000" by (intro zdiv_mono1) simp_all
  also have "\<dots> = c" by (simp add: div_add1_eq)
  finally show ?thesis .
qed

lemma compose3_bounds:
  assumes "1 \<le> uint q" and "uint q \<le> 16340" and "1 \<le> uint h" and "uint h \<le> 10000"
    and "1 \<le> uint s" and "uint s \<le> 10000"
  shows "1 \<le> uint (ComposeBasisPoints [q, h, s]) \<and> uint (ComposeBasisPoints [q, h, s]) \<le> 16340"
proof -
  have nz: "q \<noteq> 0" "h \<noteq> 0" "s \<noteq> 0" using assms by auto
  define c2 where "c2 = (uint q * uint h + 9999) div 10000"
  define c3 where "c3 = (c2 * uint s + 9999) div 10000"
  have "(10000 * uint q + 9999) div 10000 = uint q" by simp
  then have loop: "compose_loop (uint BasisPoints) [q, h, s] = Some c3"
    using nz by (simp add: c2_def c3_def)
  have c2: "1 \<le> c2" "c2 \<le> uint q"
    using compose_step_lower [OF assms(1) nz(2)] ceil_scale_le [of "uint q" "uint h"] assms by (simp_all add: c2_def)
  have c3: "1 \<le> c3" "c3 \<le> c2"
    using compose_step_lower [OF c2(1) nz(3)] ceil_scale_le [of c2 "uint s"] c2 assms by (simp_all add: c3_def)
  have "uint (ComposeBasisPoints [q, h, s]) = c3"
    using uint_saturate_u64 [of c3] c3 c2 assms(2) loop by (simp add: ComposeBasisPoints_def)
  then show ?thesis using c2 c3 assms(2) by simp
qed

lemma computeUsefulProofWork_bounds:
  "1 \<le> computeUsefulProofWork E r p h s \<and> computeUsefulProofWork E r p h s \<le> 2 * max 1 (uint (task_Difficulty r))"
proof -
  define c where "c = ComposeBasisPoints [usefulProofQualityBPS E p,
    occurrencePenaltyBPS h maxProofWorkHostPenaltyFloorBPS, occurrencePenaltyBPS s maxProofWorkSubmitterPenaltyFloorBPS]"
  define d where "d = uint (if task_Difficulty r = 0 then 1 else task_Difficulty r)"
  have c: "1 \<le> uint c" "uint c \<le> 16340"
    using quality_bounds [of E p] penalty_bounds [of maxProofWorkHostPenaltyFloorBPS h]
      penalty_bounds [of maxProofWorkSubmitterPenaltyFloorBPS s]
      compose3_bounds [of "usefulProofQualityBPS E p" "occurrencePenaltyBPS h maxProofWorkHostPenaltyFloorBPS"
        "occurrencePenaltyBPS s maxProofWorkSubmitterPenaltyFloorBPS"]
    by (simp_all add: c_def maxProofWorkHostPenaltyFloorBPS_def maxProofWorkSubmitterPenaltyFloorBPS_def)
  have d1: "1 \<le> d" "d = max 1 (uint (task_Difficulty r))"
    using uint_ge_0 [of "task_Difficulty r"] by (auto simp: d_def max_def uint_0_iff le_less int_one_le_iff_zero_less)
  have "d * uint c \<le> d * 20000" using c d1 by (intro mult_left_mono) simp_all
  then have "d * uint c div 10000 \<le> d * 20000 div 10000" by (intro zdiv_mono1) simp_all
  then have "ApplyBasisPoints (Some d) c \<le> 2 * d"
    using d1 by (simp add: ApplyBasisPoints_def Let_def cloneBigInt_def)
  moreover have "computeUsefulProofWork E r p h s = (if ApplyBasisPoints (Some d) c \<le> 0 then 1 else ApplyBasisPoints (Some d) c)"
    by (simp add: computeUsefulProofWork_def Let_def c_def d_def)
  ultimately show ?thesis using d1(1) unfolding d1(2) [symmetric] by simp
qed

lemma computeBlockWork_lower:
  assumes "computeBlockWork E st txs proofs = Inr w"
  shows "int (length txs) + int (length proofs) \<le> w"
proof -
  have tx: "int (length xs) \<le> (\<Sum>tx\<leftarrow>xs. tx_work tx)" for xs
    by (induction xs) (auto simp: tx_work_def searchTaskTxWorkUnits_def)
  have pr: "int (length xs) \<le> (\<Sum>p\<leftarrow>xs. f p)" if "\<And>p. 1 \<le> f p" for xs and f :: "CrawlProof \<Rightarrow> int"
  proof (induction xs)
    case (Cons p xs)
    then show ?case using that [of p] by simp
  qed simp
  have "int (length proofs) \<le> (\<Sum>p\<leftarrow>proofs. let record = the (proof_task st p) in
     computeUsefulProofWork E record p (host_count E proofs (normalizeWorkHost E (pr_URL p)))
       (submitter_count st proofs (TrimSpace (task_Submitter record))))"
    by (rule pr) (simp add: Let_def computeUsefulProofWork_bounds)
  then show ?thesis using assms tx [of txs] by (auto simp: computeBlockWork_def split: if_splits)
qed

section \<open>The state root\<close>

lemma map_fm_entries_upd:
  assumes "fmlookup m k = Some v" and "f (k, v') = f (k, v)"
  shows "map f (fm_entries (fmupd k v' m)) = map f (fm_entries m)"
proof -
  have "fmdom (fmupd k v' m) = fmdom m"
    using assms(1) by (auto simp: fmlookup_dom_iff)
  then show ?thesis
    using assms by (auto simp: fm_entries_def)
qed

lemma state_root_stamp:
  assumes "fmlookup (SearchIndex st) (pr_URL p) = Some d"
  shows "computeStateRoot E (stamp_record h p st) = computeStateRoot E st"
proof -
  have "map (\<lambda>(u, d). ''search:'' @ u @ ''='' @ json_marshal E (doc_json (d\<lparr>doc_BlockHash := []\<rparr>)))
          (fm_entries (SearchIndex (stamp_record h p st)))
      = map (\<lambda>(u, d). ''search:'' @ u @ ''='' @ json_marshal E (doc_json (d\<lparr>doc_BlockHash := []\<rparr>)))
          (fm_entries (SearchIndex st))"
    unfolding stamp_record_def using assms
    by (simp add: fm_get_def) (rule map_fm_entries_upd, simp_all)
  then show ?thesis by (simp add: computeStateRoot_def Let_def) (simp add: stamp_record_def)
qed

lemma stamp_lookup: "fmlookup (SearchIndex st) u \<noteq> None \<Longrightarrow> fmlookup (SearchIndex (stamp_record h p st)) u \<noteq> None"
  by (simp add: stamp_record_def)

lemma state_root_stamps:
  "\<forall>p \<in> set ps. fmlookup (SearchIndex st) (pr_URL p) \<noteq> None \<Longrightarrow>
     computeStateRoot E (fold (stamp_record h) ps st) = computeStateRoot E st"
proof (induction ps arbitrary: st)
  case (Cons p ps)
  then obtain d where "fmlookup (SearchIndex st) (pr_URL p) = Some d" by auto
  then have "computeStateRoot E (stamp_record h p st) = computeStateRoot E st" by (rule state_root_stamp)
  with Cons.IH [of "stamp_record h p st"] Cons.prems stamp_lookup show ?case by simp
qed simp

lemma proofs_indexed:
  assumes "run_steps (\<lambda>s p. ApplyCrawlProof E s p bh) st proofs = Inr (st', ps)"
  shows "\<forall>u. fmlookup (SearchIndex st) u \<noteq> None \<or> u \<in> pr_URL ` set ps \<longrightarrow> fmlookup (SearchIndex st') u \<noteq> None"
  using assms
proof (induction proofs arbitrary: st ps)
  case (Cons p proofs)
  from Cons.prems obtain s1 q qs where step: "ApplyCrawlProof E st p bh = Inr (s1, q)"
    and run: "run_steps (\<lambda>s p. ApplyCrawlProof E s p bh) s1 proofs = Inr (st', qs)" and ps: "ps = q # qs"
    by (rule run_steps_ConsE)
  obtain task r where "s1 = settle E st task q bh r" using step by (rule ApplyCrawlProof_Inr)
  then have "fmlookup (SearchIndex s1) u \<noteq> None"
    if "fmlookup (SearchIndex st) u \<noteq> None \<or> u = pr_URL q" for u
    using that by (auto simp: settle_simps)
  with Cons.IH [OF run] show ?case by (auto simp: ps)
qed simp

lemma stamp_frame [simp]:
  "Balances (fold (stamp_record h) ps st) = Balances st"
  "PendingTasks (fold (stamp_record h) ps st) = PendingTasks st"
  "Nonces (fold (stamp_record h) ps st) = Nonces st"
  by (induction ps arbitrary: st) (simp_all add: stamp_record_def)

lemma ledger_inv_stamp [simp]: "ledger_inv (fold (stamp_record h) ps st) = ledger_inv st"
  by (simp add: ledger_inv_def obligations_def)

section \<open>Shape of a prepared block\<close>

lemma prepareBlock_Inr:
  assumes "prepareBlock E parent (Some st) block arch = Inr pb"
  obtains st1 applied st2 ps work where
    "hdr_Number (blk_Header block) = hdr_Number (blk_Header parent) + 1"
    "hdr_ParentHash (blk_Header block) = blk_Hash parent"
    "run_steps (apply_tx E arch) st (body_Transactions (blk_Body block)) = Inr (st1, applied)"
    "computeBlockWork E st1 (map app_Transaction applied) (body_CrawlProofs (blk_Body block)) = Inr work"
    "run_steps (\<lambda>s p. ApplyCrawlProof E s p []) st1 (body_CrawlProofs (blk_Body block)) = Inr (st2, ps)"
    "pb_Block pb = expected_block E parent block (map app_Transaction applied) ps st2"
    "pb_State pb = fold (stamp_record (blk_Hash (pb_Block pb))) ps st2" "pb_Work pb = work"
    "blk_Hash block \<noteq> [] \<Longrightarrow> blk_Hash (pb_Block pb) = blk_Hash block \<and> hdr_TxRoot (blk_Header (pb_Block pb)) = hdr_TxRoot (blk_Header block)
       \<and> hdr_CrawlRoot (blk_Header (pb_Block pb)) = hdr_CrawlRoot (blk_Header block)
       \<and> hdr_StateRoot (blk_Header (pb_Block pb)) = hdr_StateRoot (blk_Header block)"
  using assms
  by (auto simp: prepareBlock_def Let_def split: if_splits sum.splits prod.splits)

lemma expected_block_simps [simp]:
  "hdr_Number (blk_Header (expected_block E parent b txs ps st)) = hdr_Number (blk_Header parent) + 1"
  "hdr_ParentHash (blk_Header (expected_block E parent b txs ps st)) = blk_Hash parent"
  "hdr_TxRoot (blk_Header (expected_block E parent b txs ps st)) = transactionsRoot E txs"
  "hdr_CrawlRoot (blk_Header (expected_block E parent b txs ps st)) = crawlProofsRoot E ps"
  "hdr_StateRoot (blk_Header (expected_block E parent b txs ps st)) = computeStateRoot E st"
  "blk_Hash (expected_block E parent b txs ps st) = computeBlockHash E (expected_block E parent b txs ps st)"
  "blk_Body (expected_block E parent b txs ps st) = \<lparr>body_Transactions = txs, body_CrawlProofs = ps\<rparr>"
  by (simp_all add: expected_block_def Let_def computeBlockHash_def)

section \<open>Replaying a block\<close>

lemma normalizeTransaction_idem:
  assumes "now E \<noteq> 0"
  shows "normalizeTransaction E (normalizeTransaction E tx) = normalizeTransaction E tx"
  using assms by (simp add: normalizeTransaction_def Let_def computeTransactionHash_def signing_fields_def)

lemma apply_tx_normalized:
  assumes "now E \<noteq> 0" and "apply_tx E arch st tx = Inr (st', a)"
  shows "apply_tx E arch st (app_Transaction a) = Inr (st', a)"
proof -
  have "app_Transaction a = normalizeTransaction E tx" using assms(2) by (rule apply_tx_books)
  then show ?thesis
    using assms(2)
    by (simp add: apply_tx_def ApplyTransactionWithArchitect_def normalizeTransaction_idem [OF assms(1)]
        del: normalizeTransaction_simps)
qed

lemma run_steps_replay:
  assumes "run_steps f s xs = Inr (t, ys)"
    and "\<And>s x t y. f s x = Inr (t, y) \<Longrightarrow> y \<in> set ys \<Longrightarrow> f s (g y) = Inr (t, y)"
  shows "run_steps f s (map g ys) = Inr (t, ys)"
  using assms
proof (induction xs arbitrary: s ys)
  case (Cons x xs)
  from Cons.prems(1) obtain s' y ys' where *: "f s x = Inr (s', y)" "run_steps f s' xs = Inr (t, ys')" "ys = y # ys'"
    by (rule run_steps_ConsE)
  have "run_steps f s' (map g ys') = Inr (t, ys')"
    using *(2) by (rule Cons.IH) (use Cons.prems(2) *(3) in auto)
  moreover have "f s (g y) = Inr (s', y)" using Cons.prems(2) [OF *(1)] *(3) by simp
  ultimately show ?case using *(3) by simp
qed simp

lemma ApplyCrawlProof_normalized:
  assumes "ApplyCrawlProof E st proof bh = Inr (st', q)" and "normalizeCrawlProof E q = Inr q"
  shows "ApplyCrawlProof E st q bh = Inr (st', q)"
proof -
  have "normalizeCrawlProof E proof = Inr q" using assms(1) by (rule ApplyCrawlProof_Inr)
  then show ?thesis using assms by (simp add: ApplyCrawlProof_def)
qed

lemma run_proofs_tasks:
  assumes "run_steps (\<lambda>s p. ApplyCrawlProof E s p bh) st proofs = Inr (st', ps)"
  shows "map (\<lambda>p. TrimSpace (pr_TaskID p)) ps = map (\<lambda>p. TrimSpace (pr_TaskID p)) proofs"
  using assms
proof (induction proofs arbitrary: st ps)
  case (Cons p proofs)
  from Cons.prems obtain s1 q qs where step: "ApplyCrawlProof E st p bh = Inr (s1, q)"
    and run: "run_steps (\<lambda>s p. ApplyCrawlProof E s p bh) s1 proofs = Inr (st', qs)" and ps: "ps = q # qs"
    by (rule run_steps_ConsE)
  have "normalizeCrawlProof E p = Inr q" using step by (rule ApplyCrawlProof_Inr)
  then have "pr_TaskID q = TrimSpace (pr_TaskID p)" by (rule normalizeCrawlProof_Inr)
  with Cons.IH [OF run] ps show ?case by simp
qed simp

lemma work_of_normalized:
  assumes "computeBlockWork E st txs proofs = Inr w"
    and "map (\<lambda>p. TrimSpace (pr_TaskID p)) ps = map (\<lambda>p. TrimSpace (pr_TaskID p)) proofs"
  shows "\<exists>w'. computeBlockWork E st txs ps = Inr w'"
proof -
  have "set (map (\<lambda>p. TrimSpace (pr_TaskID p)) ps) = set (map (\<lambda>p. TrimSpace (pr_TaskID p)) proofs)"
    using assms(2) by simp
  then have "list_ex (\<lambda>p. proof_task st p = None) ps = list_ex (\<lambda>p. proof_task st p = None) proofs"
    by (auto simp: list_ex_iff proof_task_def set_map image_iff) (metis (no_types, lifting) imageE imageI)+
  then show ?thesis using assms(1) by (auto simp: computeBlockWork_def split: if_splits)
qed

lemma expected_block_again:
  "expected_block E parent (expected_block E parent b txs ps st) txs ps st = expected_block E parent b txs ps st"
  by (simp add: expected_block_def Let_def computeBlockHash_def)

section \<open>When normalisation is stable\<close>

lemma truncate_links_id:
  assumes "distinct (acc @ ls)" and "\<forall>l \<in> set ls. l \<noteq> [] \<and> TrimSpace l = l" and "length (acc @ ls) \<le> limit"
  shows "truncate_links limit acc ls = acc @ ls"
  using assms
proof (induction ls arbitrary: acc)
  case (Cons l ls)
  show ?case
  proof (cases "limit \<le> Suc (length acc)")
    case True
    then have "ls = []" using Cons.prems(3) by (cases ls) auto
    with True Cons.prems show ?thesis by (simp add: Let_def)
  next
    case False
    with Cons.IH [of "acc @ [l]"] Cons.prems show ?thesis by (simp add: Let_def)
  qed
qed simp

lemma truncateOutboundLinks_idem:
  assumes "0 < limit"
  shows "truncateOutboundLinks (truncateOutboundLinks ls limit) limit = truncateOutboundLinks ls limit"
proof -
  have "distinct (truncate_links limit [] ls) \<and> length (truncate_links limit [] ls) \<le> limit
    \<and> (\<forall>l \<in> set (truncate_links limit [] ls). l \<noteq> [] \<and> TrimSpace l = l)
    \<and> set (truncate_links limit [] ls) \<subseteq> set [] \<union> TrimSpace ` set ls"
    by (rule truncate_links_sound) (use assms in auto)
  then show ?thesis
    using truncate_links_id [of "[]" "truncate_links limit [] ls" limit]
    by (auto simp: truncateOutboundLinks_def)
qed

lemma truncateUTF8Bytes_fit: "length s \<le> limit \<Longrightarrow> truncateUTF8Bytes s limit = s"
  by (simp add: truncateUTF8Bytes_def)

lemma truncate_trimmed:
  assumes "length s \<le> limit"
  shows "truncateUTF8Bytes (TrimSpace s) limit = TrimSpace s"
  using assms TrimSpace_length [of s] by (intro truncateUTF8Bytes_fit) simp

lemma computeCrawlProofHash_upd [simp]:
  "computeCrawlProofHash E (p\<lparr>pr_ProofHash := h\<rparr>) = computeCrawlProofHash E p"
  by (simp add: computeCrawlProofHash_def)

definition trimmed_page :: "IndexedPage \<Rightarrow> bool" where
  "trimmed_page page \<longleftrightarrow> TrimSpace (page_Title page) = page_Title page
     \<and> TrimSpace (page_Snippet page) = page_Snippet page \<and> TrimSpace (page_Body page) = page_Body page"

lemma normalize_page_stable:
  assumes "q = normalize_page p" and "length (page_Body p) < 2 ^ 64"
  shows "normalize_page q = q \<longleftrightarrow> trimmed_page q"
proof -
  have pos: "0 < maxStoredProofTitleBytes" "0 < maxStoredProofSnippetBytes" "0 < maxStoredProofBodyBytes"
    "0 < maxStoredProofOutboundLinks"
    by (simp_all add: maxStoredProofTitleBytes_def maxStoredProofSnippetBytes_def
        maxStoredProofBodyBytes_def maxStoredProofOutboundLinks_def)
  have body: "page_BodyBytes q = 0 \<Longrightarrow> page_Body q = []"
    using assms unat_u64_small [of "length (page_Body p)"]
    by (auto simp: normalize_page_def truncateUTF8Bytes_def split: if_splits)
  have "truncateUTF8Bytes (TrimSpace (page_Title q)) maxStoredProofTitleBytes = TrimSpace (page_Title q)"
    "truncateUTF8Bytes (TrimSpace (page_Snippet q)) maxStoredProofSnippetBytes = TrimSpace (page_Snippet q)"
    "truncateUTF8Bytes (TrimSpace (page_Body q)) maxStoredProofBodyBytes = TrimSpace (page_Body q)"
    unfolding assms(1) normalize_page_def by (rule truncate_trimmed, simp add: truncateUTF8Bytes_length pos)+
  moreover have "TrimSpace (page_URL q) = page_URL q" "TrimSpace (page_ContentHash q) = page_ContentHash q"
    "truncateOutboundLinks (page_OutboundLinks q) maxStoredProofOutboundLinks = page_OutboundLinks q"
    by (simp_all add: assms(1) normalize_page_def truncateOutboundLinks_idem pos(4))
  moreover have "(if page_BodyBytes q = 0 then of_nat (length (page_Body q)) else page_BodyBytes q) = page_BodyBytes q"
    using body by simp
  ultimately have "normalize_page q = q\<lparr>page_Title := TrimSpace (page_Title q),
      page_Snippet := TrimSpace (page_Snippet q), page_Body := TrimSpace (page_Body q)\<rparr>"
    by (cases q) (simp only: normalize_page_def, simp)
  then show ?thesis by (cases q) (auto simp: trimmed_page_def)
qed

lemma run_steps_output:
  assumes "run_steps f s xs = Inr (t, ys)" and "y \<in> set ys"
  shows "\<exists>s x s'. f s x = Inr (s', y)"
  using assms
proof (induction xs arbitrary: s ys)
  case (Cons x xs)
  from Cons.prems(1) obtain s' z zs where "f s x = Inr (s', z)" "run_steps f s' xs = Inr (t, zs)" "ys = z # zs"
    by (rule run_steps_ConsE)
  with Cons show ?case by auto
qed simp

section \<open>Properties\<close>

text \<open>
  A prepared block is consistent with its parent and with the state it produces: the
  number and parent link, the transaction and proof roots, the hash of the header, and a
  state root that is the root of the resulting state. On a sound parent ledger the resulting
  ledger is sound, and the supply changes only by what deployments burn. A block that came
  with a hash is returned with that hash.
\<close>

theorem prepared_block_consistent:
  assumes "ledger_inv st" and "prepareBlock E parent (Some st) block arch = Inr pb"
  shows "hdr_Number (blk_Header (pb_Block pb)) = hdr_Number (blk_Header parent) + 1
    \<and> hdr_ParentHash (blk_Header (pb_Block pb)) = blk_Hash parent
    \<and> hdr_TxRoot (blk_Header (pb_Block pb)) = transactionsRoot E (body_Transactions (blk_Body (pb_Block pb)))
    \<and> hdr_CrawlRoot (blk_Header (pb_Block pb)) = crawlProofsRoot E (body_CrawlProofs (blk_Body (pb_Block pb)))
    \<and> hdr_StateRoot (blk_Header (pb_Block pb)) = computeStateRoot E (pb_State pb)
    \<and> blk_Hash (pb_Block pb) = computeBlockHash E (pb_Block pb)
    \<and> (blk_Hash block = [] \<or> blk_Hash (pb_Block pb) = blk_Hash block)
    \<and> ledger_inv (pb_State pb) \<and> total_supply (pb_State pb) \<le> total_supply st
    \<and> int (length (body_Transactions (blk_Body block)) + length (body_CrawlProofs (blk_Body block))) \<le> pb_Work pb"
  using assms(2)
proof (rule prepareBlock_Inr)
  fix st1 applied st2 ps work
  assume txs: "run_steps (apply_tx E arch) st (body_Transactions (blk_Body block)) = Inr (st1, applied)"
    and work: "computeBlockWork E st1 (map app_Transaction applied) (body_CrawlProofs (blk_Body block)) = Inr work"
    and proofs: "run_steps (\<lambda>s p. ApplyCrawlProof E s p []) st1 (body_CrawlProofs (blk_Body block)) = Inr (st2, ps)"
    and pb: "pb_Block pb = expected_block E parent block (map app_Transaction applied) ps st2"
    "pb_State pb = fold (stamp_record (blk_Hash (pb_Block pb))) ps st2" "pb_Work pb = work"
    and hash: "blk_Hash block \<noteq> [] \<Longrightarrow> blk_Hash (pb_Block pb) = blk_Hash block \<and> hdr_TxRoot (blk_Header (pb_Block pb)) = hdr_TxRoot (blk_Header block)
       \<and> hdr_CrawlRoot (blk_Header (pb_Block pb)) = hdr_CrawlRoot (blk_Header block)
       \<and> hdr_StateRoot (blk_Header (pb_Block pb)) = hdr_StateRoot (blk_Header block)"
  have inv1: "ledger_inv st1" using assms(1) txs by (rule ledger.run_inv)
  have inv2: "ledger_inv st2" using inv1 proofs by (rule settlement.run_inv)
  have "0 \<le> burned a" if "a \<in> set applied" for a
    using run_steps_output [OF txs that] by (auto elim!: apply_tx_books simp: burned_def ArchitectFee_le)
  then have "(\<Sum>a\<leftarrow>applied. - burned a) \<le> 0" by (intro sum_list_nonpos) auto
  then have "total_supply st2 \<le> total_supply st"
    using ledger.run_metered [OF assms(1) txs] settlement.run_metered [OF inv1 proofs] by (simp add: sum_list_0)
  moreover have "total_supply (pb_State pb) = total_supply st2" by (simp add: pb(2) total_supply_def)
  moreover have "computeStateRoot E (pb_State pb) = computeStateRoot E st2"
    unfolding pb(2) using proofs_indexed [OF proofs] by (intro state_root_stamps) auto
  moreover have "length applied = length (body_Transactions (blk_Body block))"
    using txs by (rule run_steps_length)
  ultimately show ?thesis
    using pb inv2 hash computeBlockWork_lower [OF work] by auto
qed


text \<open>
  Which normalised proofs are in normal form: exactly those whose stored title,
  snippet and body are still trimmed. Truncation can leave white space at the end, and
  then a second pass changes the proof, so that an importing node computes another state
  root than the miner.
\<close>

theorem normalize_stable_iff_trimmed:
  assumes "normalizeCrawlProof E proof = Inr p" and "now E \<noteq> 0"
    and "length (page_Body (pr_Page proof)) < 2 ^ 64"
  shows "normalizeCrawlProof E p = Inr p \<longleftrightarrow> trimmed_page (pr_Page p)"
proof -
  note p = normalizeCrawlProof_Inr [OF assms(1)]
  have fields: "TrimSpace (pr_TaskID p) = pr_TaskID p" "TrimSpace (pr_TaskTxHash p) = pr_TaskTxHash p"
    "TrimSpace (pr_URL p) = pr_URL p" "TrimSpace (pr_Query p) = pr_Query p" "TrimSpace (pr_Miner p) = pr_Miner p"
    "pr_TaskID p \<noteq> []" "pr_CreatedAt p \<noteq> 0"
    using assms(1,2) by (auto simp: normalizeCrawlProof_def Let_def split: if_splits)
  have page: "normalize_page (pr_Page p) = pr_Page p \<longleftrightarrow> trimmed_page (pr_Page p)"
    by (rule normalize_page_stable [OF p(4) assms(3)])
  have hash: "computeCrawlProofHash E (p\<lparr>pr_Page := normalize_page (pr_Page p)\<rparr>) = pr_ProofHash p"
    unfolding p(10) computeCrawlProofHash_def by (simp add: p(4)) (simp add: normalize_page_def)
  have same: "p\<lparr>pr_TaskID := pr_TaskID p, pr_TaskTxHash := pr_TaskTxHash p, pr_URL := pr_URL p,
      pr_Query := pr_Query p, pr_Miner := pr_Miner p, pr_Page := x\<rparr> = p\<lparr>pr_Page := x\<rparr>" for x
    by simp
  have "normalizeCrawlProof E p = Inr (p\<lparr>pr_Page := normalize_page (pr_Page p)\<rparr>)"
    using p(8,9) fields hash by (simp add: normalizeCrawlProof_def Let_def same)
  also have "\<dots> = Inr p \<longleftrightarrow> normalize_page (pr_Page p) = pr_Page p" by (cases p) auto
  finally show ?thesis using page by simp
qed

text \<open>
  The state root covers neither the deployed contracts nor their data: two states that
  differ only there have the same root.
\<close>

theorem state_root_ignores_contracts:
  "computeStateRoot E (st\<lparr>Contracts := c, ContractData := d\<rparr>) = computeStateRoot E st"
  by (simp add: computeStateRoot_def)

text \<open>
  Useful work is positive and bounded: a proof is worth at least one unit and at most
  twice the difficulty of its task, so no page can inflate it further, and a block is worth
  at least the number of its transactions and proofs.
\<close>

theorem block_work_bounds:
  "1 \<le> computeUsefulProofWork E r p h s
   \<and> computeUsefulProofWork E r p h s \<le> 2 * max 1 (uint (task_Difficulty r))
   \<and> (computeBlockWork E st txs proofs = Inr w \<longrightarrow> int (length txs + length proofs) \<le> w)"
  using computeUsefulProofWork_bounds [of E r p h s] computeBlockWork_lower [of E st txs proofs w] by simp

section \<open>A concrete block\<close>

definition toy_block :: Block where
  "toy_block = zero_Block\<lparr>blk_Header := zero_BlockHeader\<lparr>hdr_Number := 1, hdr_Timestamp := 5, hdr_Miner := ''m''\<rparr>,
     blk_Body := \<lparr>body_Transactions = [], body_CrawlProofs = [toy_proof]\<rparr>\<rparr>"

lemma toy_env_now [simp]: "now toy_env = 1"
  by (simp add: toy_env_def)

lemma toy_prepared: "\<exists>pb. prepareBlock toy_env zero_Block (Some toy_escrow) toy_block [] = Inr pb
    \<and> body_CrawlProofs (blk_Body (pb_Block pb)) = [toy_normal]"
proof -
  have "proof_task toy_escrow toy_proof = Some toy_task"
    by (simp add: proof_task_def toy_escrow_def toy_proof_def)
  then show ?thesis
    by (simp add: prepareBlock_def toy_block_def zero_Block_def zero_BlockHeader_def Let_def
        computeBlockWork_def toy_settles)
qed

lemma toy_trimmed: "trimmed_page (pr_Page toy_normal)"
  by (simp add: trimmed_page_def toy_normal_def toy_proof_def)

lemma toy_normal_stable: "normalizeCrawlProof toy_env toy_normal = Inr toy_normal"
proof -
  have page: "normalize_page (pr_Page toy_normal) = pr_Page toy_normal"
    by (simp add: normalize_page_def toy_normal_def toy_proof_def truncateUTF8Bytes_def truncateOutboundLinks_def)
  have "TrimSpace (pr_TaskID toy_normal) = pr_TaskID toy_normal" "TrimSpace (pr_URL toy_normal) = pr_URL toy_normal"
    "TrimSpace (pr_Miner toy_normal) = pr_Miner toy_normal" "TrimSpace (pr_TaskTxHash toy_normal) = pr_TaskTxHash toy_normal"
    "TrimSpace (pr_Query toy_normal) = pr_Query toy_normal" "pr_ProofHash toy_normal = computeCrawlProofHash toy_env toy_normal"
    "pr_TaskID toy_normal \<noteq> []" "pr_URL toy_normal \<noteq> []" "pr_Miner toy_normal \<noteq> []" "pr_CreatedAt toy_normal = 1"
    using normalizeCrawlProof_Inr(10) [OF toy_normalized] by (simp_all add: toy_normal_def toy_proof_def)
  with page show ?thesis by (simp add: normalizeCrawlProof_def Let_def computeCrawlProofHash_def)
qed

theorem prepared_block_consistent_witness:
  "\<exists>pb. prepareBlock toy_env zero_Block (Some toy_escrow) toy_block [] = Inr pb
     \<and> ledger_inv (pb_State pb) \<and> 1 \<le> pb_Work pb"
proof -
  obtain pb where pb: "prepareBlock toy_env zero_Block (Some toy_escrow) toy_block [] = Inr pb"
    using toy_prepared by blast
  from prepared_block_consistent [OF toy_escrow_inv pb] have "ledger_inv (pb_State pb)"
    "int (length (body_Transactions (blk_Body toy_block)) + length (body_CrawlProofs (blk_Body toy_block))) \<le> pb_Work pb"
    by blast+
  then show ?thesis using pb by (auto simp: toy_block_def)
qed

theorem normalize_stable_iff_trimmed_witness:
  "normalizeCrawlProof toy_env toy_normal = Inr toy_normal"
  using normalize_stable_iff_trimmed [OF toy_normalized] toy_trimmed by (simp add: toy_proof_def)


theorem block_work_bounds_witness:
  "computeBlockWork toy_env toy_escrow [] [] = Inr 0 \<and> int (length [] + length []) \<le> (0 :: int)
   \<and> 1 \<le> computeUsefulProofWork toy_env toy_task toy_proof 1 1"
  using block_work_bounds [of toy_env toy_task toy_proof 1 1 toy_escrow "[]" "[]" 0]
  by (simp add: computeBlockWork_def)

end
