(* ===== verification/Fork_Choice.thy ===== *)
theory Fork_Choice
  imports Blocks
begin

text \<open>
  Which tip wins (\<open>isPreferredTip\<close> of \<open>src/core/blockchain.go\<close>) and what happens to a
  block whose parent is not known yet (\<open>src/core/fork_choice.go\<close>). The preference is a
  strict total order on tips with different hashes, so the tip a node ends with does not
  depend on the order in which it saw the blocks. The orphan buffer is two maps; it
  implements a plain set of blocks.
\<close>

section \<open>Preference between tips\<close>

definition WorkBig :: "BlockMeta \<Rightarrow> int" where
  "WorkBig m = (case SetString (TrimSpace (meta_Work m)) of None \<Rightarrow> 0 | Some v \<Rightarrow> v)"

definition CumulativeWorkBig :: "BlockMeta \<Rightarrow> int" where
  "CumulativeWorkBig m = (case SetString (TrimSpace (meta_CumulativeWork m)) of None \<Rightarrow> 0 | Some v \<Rightarrow> v)"

definition isPreferredTip :: "BlockMeta \<Rightarrow> BlockMeta \<Rightarrow> bool" where
  "isPreferredTip candidate current =
     (if CumulativeWorkBig candidate \<noteq> CumulativeWorkBig current
      then CumulativeWorkBig current < CumulativeWorkBig candidate
      else if meta_Number candidate \<noteq> meta_Number current
      then meta_Number current < meta_Number candidate
      else meta_Hash candidate < meta_Hash current)"

text \<open>A strict preference, total between alternatives with different keys.\<close>

locale preference =
  fixes better :: "'a \<Rightarrow> 'a \<Rightarrow> bool"
    and key :: "'a \<Rightarrow> 'k"
  assumes better_irrefl: "\<not> better x x"
    and better_trans: "better x y \<Longrightarrow> better y z \<Longrightarrow> better x z"
    and better_total: "key x \<noteq> key y \<Longrightarrow> better x y \<or> better y x"
begin

definition pick :: "'a list \<Rightarrow> 'a \<Rightarrow> 'a" where
  "pick xs start = fold (\<lambda>x best. if better x best then x else best) xs start"

lemma pick_Cons [simp]: "pick (x # xs) b = pick xs (if better x b then x else b)"
  by (simp add: pick_def)

lemma pick_Nil [simp]: "pick [] b = b"
  by (simp add: pick_def)

lemma pick_mem: "pick xs b \<in> insert b (set xs)"
proof (induction xs arbitrary: b)
  case (Cons x xs)
  then show ?case using Cons [of x] Cons [of b] by auto
qed simp

lemma pick_start: "pick xs b = b \<or> better (pick xs b) b"
proof (induction xs arbitrary: b)
  case (Cons x xs)
  show ?case
  proof (cases "better x b")
    case True
    then show ?thesis using Cons [of x] better_trans [of "pick xs x" x b] by auto
  next
    case False
    then show ?thesis using Cons [of b] by simp
  qed
qed simp

lemma pick_best:
  assumes "inj_on key (insert b (set xs))" and "y \<in> insert b (set xs)"
  shows "pick xs b = y \<or> better (pick xs b) y"
  using assms
proof (induction xs arbitrary: b)
  case (Cons x xs)
  define c where "c = (if better x b then x else b)"
  have step: "pick (x # xs) b = pick xs c" by (simp add: c_def)
  have inj: "inj_on key (insert c (set xs))"
    using Cons.prems(1) by (rule inj_on_subset) (auto simp: c_def)
  have "y = c \<or> better c y \<or> y \<in> set xs"
  proof (cases "x = b")
    case False
    then have "key x \<noteq> key b" using inj_onD [OF Cons.prems(1), of x b] by simp blast
    then show ?thesis using Cons.prems(2) better_total [of x b] by (auto simp: c_def)
  qed (use Cons.prems(2) in \<open>auto simp: c_def\<close>)
  then show ?case
  proof (elim disjE)
    assume "better c y"
    then show ?thesis using pick_start [of xs c] better_trans [of "pick xs c" c y] step by auto
  qed (use Cons.IH [OF inj] step in auto)
qed simp

lemma better_asym: "better x y \<Longrightarrow> \<not> better y x"
  using better_trans better_irrefl by blast

lemma pick_unbeaten:
  assumes "inj_on key (insert b (set xs))" and "y \<in> insert b (set xs)"
  shows "\<not> better y (pick xs b)"
  using pick_best [OF assms] better_irrefl better_asym by metis

lemma pick_unique:
  assumes "inj_on key (insert b (set xs))" and "insert b (set xs) = insert c (set ys)"
  shows "pick xs b = pick ys c"
proof (rule ccontr)
  assume ne: "pick xs b \<noteq> pick ys c"
  have "pick xs b \<in> insert c (set ys)" "pick ys c \<in> insert b (set xs)"
    using pick_mem [of xs b] pick_mem [of ys c] assms(2) by auto
  then have "better (pick xs b) (pick ys c)" "better (pick ys c) (pick xs b)"
    using pick_best [of b xs "pick ys c"] pick_best [of c ys "pick xs b"] assms ne by auto
  then show False using better_trans better_irrefl by blast
qed

end

interpretation tip: preference isPreferredTip meta_Hash
  by unfold_locales (auto simp: isPreferredTip_def split: if_splits)

section \<open>The orphan buffer\<close>

datatype ForkDecision = ForkDecisionImport | ForkDecisionBuffer | ForkDecisionIgnore | ForkDecisionReject

record ForkChoice =
  bufferedByHash :: "(string, Block) fmap"
  bufferedByParent :: "(string, string list) fmap"

definition NewForkChoice :: ForkChoice where
  "NewForkChoice = \<lparr>bufferedByHash = fmempty, bufferedByParent = fmempty\<rparr>"

abbreviation parent_of :: "Block \<Rightarrow> string" where
  "parent_of b \<equiv> hdr_ParentHash (blk_Header b)"

definition bufferLocked :: "ForkChoice \<Rightarrow> Block \<Rightarrow> ForkChoice" where
  "bufferLocked f block =
     (if fmlookup (bufferedByHash f) (blk_Hash block) \<noteq> None then f
      else f\<lparr>bufferedByHash := fmupd (blk_Hash block) block (bufferedByHash f),
             bufferedByParent := fmupd (parent_of block)
               (fm_get (bufferedByParent f) [] (parent_of block) @ [blk_Hash block]) (bufferedByParent f)\<rparr>)"

text \<open>A nil \<open>*ForkChoice\<close> is \<open>None\<close>.\<close>

definition Decide :: "ForkChoice option \<Rightarrow> Block \<Rightarrow> bool \<Rightarrow> bool \<Rightarrow> ForkChoice option \<times> ForkDecision" where
  "Decide f block hasBlock hasParent =
     (case f of
        None \<Rightarrow>
          (None, if hasBlock then ForkDecisionIgnore
                 else if 0 < hdr_Number (blk_Header block) \<and> \<not> hasParent then ForkDecisionBuffer
                 else ForkDecisionImport)
      | Some fc \<Rightarrow>
          if hasBlock then (Some fc, ForkDecisionIgnore)
          else if 0 < hdr_Number (blk_Header block) \<and> \<not> hasParent
          then (Some (bufferLocked fc block), ForkDecisionBuffer)
          else (Some fc, ForkDecisionImport))"

fun take_children :: "(string, Block) fmap \<Rightarrow> string list \<Rightarrow> (string, Block) fmap \<times> Block list" where
  "take_children m [] = (m, [])"
| "take_children m (h # hs) =
     (case fmlookup m h of
        None \<Rightarrow> take_children m hs
      | Some b \<Rightarrow> let (m', bs) = take_children (fmdrop h m) hs in (m', b # bs))"

text \<open>The children have different hashes, so the comparison orders them completely.\<close>

definition takeBufferedChildrenLocked :: "ForkChoice \<Rightarrow> string \<Rightarrow> ForkChoice \<times> Block list" where
  "takeBufferedChildrenLocked f parentHash =
     (let hashes = fm_get (bufferedByParent f) [] parentHash;
          f1 = f\<lparr>bufferedByParent := fmdrop parentHash (bufferedByParent f)\<rparr>
      in if hashes = [] then (f1, [])
         else
           (let (m, children) = take_children (bufferedByHash f1) hashes
            in (f1\<lparr>bufferedByHash := m\<rparr>,
                sort_key (\<lambda>b. (unat (hdr_Number (blk_Header b)), blk_Hash b)) children)))"

definition CanonicalImported :: "ForkChoice option \<Rightarrow> Block \<Rightarrow> ForkChoice option \<times> Block list" where
  "CanonicalImported f block =
     (case f of
        None \<Rightarrow> (None, [])
      | Some fc \<Rightarrow> let (fc', bs) = takeBufferedChildrenLocked fc (blk_Hash block) in (Some fc', bs))"

definition ForkChoice_Status :: "ForkChoice option \<Rightarrow> nat" where
  "ForkChoice_Status f = (case f of None \<Rightarrow> 0 | Some fc \<Rightarrow> size (fmdom (bufferedByHash fc)))"

section \<open>The buffer as a set of blocks\<close>

definition buffered :: "ForkChoice \<Rightarrow> Block set" where
  "buffered f = {b. fmlookup (bufferedByHash f) (blk_Hash b) = Some b}"

definition fc_inv :: "ForkChoice \<Rightarrow> bool" where
  "fc_inv f \<longleftrightarrow>
     (\<forall>h b. fmlookup (bufferedByHash f) h = Some b \<longrightarrow> blk_Hash b = h)
     \<and> (\<forall>p. distinct (fm_get (bufferedByParent f) [] p)
          \<and> set (fm_get (bufferedByParent f) [] p) = {blk_Hash b | b. b \<in> buffered f \<and> parent_of b = p})"

lemma fc_inv_new: "fc_inv NewForkChoice" "buffered NewForkChoice = {}"
  by (simp_all add: fc_inv_def NewForkChoice_def buffered_def)

lemma buffer_inv:
  assumes "fc_inv f"
  shows "fc_inv (bufferLocked f b)"
    and "buffered (bufferLocked f b) = (if blk_Hash b \<in> blk_Hash ` buffered f then buffered f else insert b (buffered f))"
proof -
  have known: "fmlookup (bufferedByHash f) (blk_Hash b) \<noteq> None \<longleftrightarrow> blk_Hash b \<in> blk_Hash ` buffered f"
  proof
    assume "fmlookup (bufferedByHash f) (blk_Hash b) \<noteq> None"
    then obtain c where c: "fmlookup (bufferedByHash f) (blk_Hash b) = Some c" by blast
    then have "blk_Hash c = blk_Hash b" using assms unfolding fc_inv_def by blast
    with c have "c \<in> buffered f" by (simp add: buffered_def)
    then show "blk_Hash b \<in> blk_Hash ` buffered f" by (rule rev_image_eqI) (simp add: \<open>blk_Hash c = blk_Hash b\<close>)
  qed (auto simp: buffered_def)
  then show set: "buffered (bufferLocked f b) = (if blk_Hash b \<in> blk_Hash ` buffered f then buffered f else insert b (buffered f))"
    by (auto simp: bufferLocked_def buffered_def split: if_splits)
  show "fc_inv (bufferLocked f b)"
  proof (cases "fmlookup (bufferedByHash f) (blk_Hash b) = None")
    case True
    then have b: "buffered (bufferLocked f b) = insert b (buffered f)" using set known by simp
    have "blk_Hash b \<notin> set (fm_get (bufferedByParent f) [] (parent_of b))"
      using assms known True by (auto simp: fc_inv_def)
    moreover have "bufferedByHash (bufferLocked f b) = fmupd (blk_Hash b) b (bufferedByHash f)"
      "fm_get (bufferedByParent (bufferLocked f b)) [] q =
         fm_get (bufferedByParent f) [] q @ (if q = parent_of b then [blk_Hash b] else [])" for q
      using True by (simp_all add: bufferLocked_def)
    moreover have "{blk_Hash c | c. c \<in> insert b (buffered f) \<and> parent_of c = q} =
        {blk_Hash c | c. c \<in> buffered f \<and> parent_of c = q} \<union> (if q = parent_of b then {blk_Hash b} else {})" for q
      by auto
    ultimately show ?thesis
      using assms unfolding fc_inv_def b by simp
  qed (use assms in \<open>simp add: bufferLocked_def\<close>)
qed

lemma take_children_spec:
  assumes "distinct hs" and "\<And>h. h \<in> set hs \<Longrightarrow> fmlookup m h \<noteq> None"
  shows "take_children m hs = (fmdrop_fset (fset_of_list hs) m, map (\<lambda>h. the (fmlookup m h)) hs)"
  using assms
proof (induction hs arbitrary: m)
  case (Cons h hs)
  then obtain b where b: "fmlookup m h = Some b" by (meson list.set_intros(1) not_None_eq)
  have "take_children (fmdrop h m) hs = (fmdrop_fset (fset_of_list hs) (fmdrop h m), map (\<lambda>k. the (fmlookup (fmdrop h m) k)) hs)"
    using Cons.prems by (intro Cons.IH) auto
  moreover have "map (\<lambda>k. the (fmlookup (fmdrop h m) k)) hs = map (\<lambda>k. the (fmlookup m k)) hs"
    using Cons.prems(1) by auto
  moreover have "fmdrop_fset (fset_of_list hs) (fmdrop h m) = fmdrop_fset (fset_of_list (h # hs)) m"
    by (rule fmap_ext) auto
  ultimately show ?case using b by simp
qed (auto intro: fmap_ext)

lemma take_spec:
  assumes inv: "fc_inv f" and take: "takeBufferedChildrenLocked f p = (f', bs)"
  shows "fc_inv f'" and "buffered f' = {b \<in> buffered f. parent_of b \<noteq> p}"
    and "set bs = {b \<in> buffered f. parent_of b = p}" and "distinct bs"
    and "sorted (map (\<lambda>b. (unat (hdr_Number (blk_Header b)), blk_Hash b)) bs)"
proof -
  define hs where "hs = fm_get (bufferedByParent f) [] p"
  have hs: "distinct hs" "set hs = {blk_Hash b | b. b \<in> buffered f \<and> parent_of b = p}"
    using inv by (auto simp: fc_inv_def hs_def)
  then have known: "fmlookup (bufferedByHash f) h \<noteq> None" if "h \<in> set hs" for h
    using that by (auto simp: buffered_def)
  define cs where "cs = map (\<lambda>h. the (fmlookup (bufferedByHash f) h)) hs"
  have result: "f' = \<lparr>bufferedByHash = fmdrop_fset (fset_of_list hs) (bufferedByHash f),
        bufferedByParent = fmdrop p (bufferedByParent f)\<rparr>"
    "bs = sort_key (\<lambda>b. (unat (hdr_Number (blk_Header b)), blk_Hash b)) cs"
    using take take_children_spec [OF hs(1) known]
    by (auto simp: takeBufferedChildrenLocked_def Let_def hs_def [symmetric] cs_def split: if_splits)
  have hash: "blk_Hash b = h" if "fmlookup (bufferedByHash f) h = Some b" for h b
    using inv that unfolding fc_inv_def by blast
  have same: "b = c" if "b \<in> buffered f" "c \<in> buffered f" "blk_Hash b = blk_Hash c" for b c
    using that by (simp add: buffered_def)
  have "set cs = {b \<in> buffered f. parent_of b = p}"
  proof -
    have "the (fmlookup (bufferedByHash f) (blk_Hash b)) = b" if "b \<in> buffered f" for b
      using that by (simp add: buffered_def)
    then show ?thesis unfolding cs_def set_map hs(2) by force
  qed
  then show "set bs = {b \<in> buffered f. parent_of b = p}" by (simp add: result(2))
  have "map blk_Hash cs = hs" unfolding cs_def using known hash by (auto intro!: map_idI)
  then have "distinct cs" using hs(1) by (metis distinct_map)
  then show "distinct bs" by (simp add: result(2))
  show "sorted (map (\<lambda>b. (unat (hdr_Number (blk_Header b)), blk_Hash b)) bs)"
    unfolding result(2) by (rule sorted_sort_key)
  show buf: "buffered f' = {b \<in> buffered f. parent_of b \<noteq> p}"
  proof -
    have "fmlookup (bufferedByHash f') h = (if h \<in> set hs then None else fmlookup (bufferedByHash f) h)" for h
      by (simp add: result(1) fset_of_list.rep_eq)
    then have "b \<in> buffered f' \<longleftrightarrow> b \<in> buffered f \<and> blk_Hash b \<notin> set hs" for b
      by (simp add: buffered_def)
    moreover have "blk_Hash b \<in> set hs \<longleftrightarrow> parent_of b = p" if "b \<in> buffered f" for b
      unfolding hs(2) using that same by blast
    ultimately show ?thesis by auto
  qed
  have "{blk_Hash b | b. b \<in> buffered f' \<and> parent_of b = q} =
      (if q = p then {} else {blk_Hash b | b. b \<in> buffered f \<and> parent_of b = q})" for q
    unfolding buf by auto
  moreover have "fm_get (bufferedByParent f') [] q = (if q = p then [] else fm_get (bufferedByParent f) [] q)" for q
    by (simp add: result(1) fm_get_def)
  moreover have "blk_Hash b = h" if "fmlookup (bufferedByHash f') h = Some b" for h b
    using that hash by (simp add: result(1) split: if_splits)
  ultimately show "fc_inv f'"
    using inv unfolding fc_inv_def by simp
qed

text \<open>
  The buffer as a state machine: orphans arrive, imported blocks release their children.
\<close>

inductive fc_step :: "ForkChoice \<Rightarrow> ForkChoice \<Rightarrow> bool" where
  arrive: "Decide (Some f) b hasBlock hasParent = (Some f', d) \<Longrightarrow> fc_step f f'"
| release: "CanonicalImported (Some f) b = (Some f', bs) \<Longrightarrow> fc_step f f'"

inductive_cases fc_stepE: "fc_step f f'"

lemma fc_step_inv: "fc_step f f' \<Longrightarrow> fc_inv f \<Longrightarrow> fc_inv f'"
proof (erule fc_stepE)
  fix b hb hp d
  assume "fc_inv f" "Decide (Some f) b hb hp = (Some f', d)"
  then show "fc_inv f'" using buffer_inv(1) [of f b] by (auto simp: Decide_def split: if_splits)
next
  fix b bs
  assume "fc_inv f" "CanonicalImported (Some f) b = (Some f', bs)"
  then show "fc_inv f'" using take_spec(1) [of f "blk_Hash b" f' bs]
    by (auto simp: CanonicalImported_def split: prod.splits)
qed

section \<open>Properties\<close>

text \<open>
  C39: the tip a node prefers among the tips it has seen does not depend on the order of
  their arrival: folding the preference over any two sequences with the same set of tips,
  no two of which share a hash, ends at the same tip.
\<close>

theorem preferred_tip_order_independent:
  assumes "inj_on meta_Hash (insert b (set xs))" and "insert b (set xs) = insert c (set ys)"
  shows "fold (\<lambda>x best. if isPreferredTip x best then x else best) xs b
       = fold (\<lambda>y best. if isPreferredTip y best then y else best) ys c
    \<and> (\<forall>t \<in> insert b (set xs). \<not> isPreferredTip t (fold (\<lambda>x best. if isPreferredTip x best then x else best) xs b))"
proof
  show "fold (\<lambda>x best. if isPreferredTip x best then x else best) xs b
       = fold (\<lambda>y best. if isPreferredTip y best then y else best) ys c"
    using tip.pick_unique [OF assms] by (simp add: tip.pick_def)
  show "\<forall>t \<in> insert b (set xs). \<not> isPreferredTip t (fold (\<lambda>x best. if isPreferredTip x best then x else best) xs b)"
    using tip.pick_unbeaten [OF assms(1)] unfolding tip.pick_def by simp
qed

text \<open>
  C40: in every state the orphan buffer can reach, releasing the children of a block returns
  exactly the buffered blocks with that parent, once each and ordered by number and hash,
  and leaves exactly the others.
\<close>

theorem orphan_buffer_refines_set:
  assumes "fc_step\<^sup>*\<^sup>* NewForkChoice f" and "takeBufferedChildrenLocked f p = (f', bs)"
  shows "set bs = {b \<in> buffered f. parent_of b = p} \<and> distinct bs
    \<and> sorted (map (\<lambda>b. (unat (hdr_Number (blk_Header b)), blk_Hash b)) bs)
    \<and> buffered f' = {b \<in> buffered f. parent_of b \<noteq> p}
    \<and> buffered (bufferLocked f b) =
        (if blk_Hash b \<in> blk_Hash ` buffered f then buffered f else insert b (buffered f))"
proof -
  have "fc_inv f" using assms(1)
    by (induction rule: rtranclp_induct) (auto simp: fc_inv_new intro: fc_step_inv)
  then show ?thesis using take_spec [OF _ assms(2)] buffer_inv(2) by simp
qed

lemma prepared_child_preferred:
  assumes "prepareBlock E parent (Some st) block arch = Inr pb"
    and "meta_Number pm = hdr_Number (blk_Header parent)" and "meta_Number pm \<noteq> - 1"
    and "meta_Number cm = hdr_Number (blk_Header (pb_Block pb))"
    and "meta_CumulativeWork cm = show_int (CumulativeWorkBig pm + pb_Work pb)"
  shows "isPreferredTip cm pm \<and> \<not> isPreferredTip pm cm"
  using assms(1)
proof (rule prepareBlock_Inr)
  fix st1 applied st2 ps work
  assume "computeBlockWork E st1 (map app_Transaction applied) (body_CrawlProofs (blk_Body block)) = Inr work"
    and pb: "pb_Block pb = expected_block E parent block (map app_Transaction applied) ps st2" "pb_Work pb = work"
  then have "0 \<le> pb_Work pb" using computeBlockWork_lower [of E st1 "map app_Transaction applied"] by fastforce
  then have work: "CumulativeWorkBig pm \<le> CumulativeWorkBig cm" using assms(5) by (simp add: CumulativeWorkBig_def [of cm])
  have "meta_Number cm = meta_Number pm + 1" using assms(2,4) pb(1) by simp
  moreover have "1 + meta_Number pm \<noteq> 0" using assms(3) by (metis add.commute add_eq_0_iff)
  then have "unat (1 + meta_Number pm) = Suc (unat (meta_Number pm))" by (rule unatSuc)
  ultimately have "meta_Number pm < meta_Number cm" by (simp add: word_less_nat_alt add.commute)
  with work show ?thesis by (auto simp: isPreferredTip_def)
qed

text \<open>
  Extending a tip always wins over the tip: a block with the next number and
  cumulative work not below its parent's is preferred, so a node never keeps a block whose
  child it knows (up to the largest block number).
\<close>

theorem child_preferred_over_parent:
  assumes "prepareBlock E parent (Some st) block arch = Inr pb"
    and "meta_Number pm = hdr_Number (blk_Header parent)" and "meta_Number pm \<noteq> - 1"
    and "meta_Number cm = hdr_Number (blk_Header (pb_Block pb))"
    and "meta_CumulativeWork cm = show_int (CumulativeWorkBig pm + pb_Work pb)"
  shows "isPreferredTip cm pm \<and> \<not> isPreferredTip pm cm"
  using assms by (rule prepared_child_preferred)

section \<open>Concrete tips and orphans\<close>

definition toy_meta :: "string \<Rightarrow> int \<Rightarrow> u64 \<Rightarrow> BlockMeta" where
  "toy_meta h w n = zero_BlockMeta\<lparr>meta_Hash := h, meta_CumulativeWork := show_int w, meta_Number := n\<rparr>"

theorem preferred_tip_order_independent_witness:
  "fold (\<lambda>x best. if isPreferredTip x best then x else best) [toy_meta ''a'' 2 1] (toy_meta ''b'' 1 1)
   = fold (\<lambda>x best. if isPreferredTip x best then x else best) [toy_meta ''b'' 1 1] (toy_meta ''a'' 2 1)"
proof -
  have "inj_on meta_Hash (insert (toy_meta ''b'' 1 1) (set [toy_meta ''a'' 2 1]))"
    by (simp add: toy_meta_def zero_BlockMeta_def)
  then show ?thesis
    using preferred_tip_order_independent [of "toy_meta ''b'' 1 1" "[toy_meta ''a'' 2 1]"
        "toy_meta ''a'' 2 1" "[toy_meta ''b'' 1 1]"]
    by (simp add: insert_commute)
qed

definition toy_orphan :: Block where
  "toy_orphan = toy_block\<lparr>blk_Hash := ''o''\<rparr>"

theorem orphan_buffer_refines_set_witness:
  "\<exists>f' bs. takeBufferedChildrenLocked (bufferLocked NewForkChoice toy_orphan) [] = (f', bs)
     \<and> set bs = {toy_orphan} \<and> buffered f' = {}"
proof -
  let ?f = "bufferLocked NewForkChoice toy_orphan"
  have "Decide (Some NewForkChoice) toy_orphan False False = (Some ?f, ForkDecisionBuffer)"
    by (simp add: Decide_def toy_orphan_def toy_block_def zero_Block_def)
  then have reach: "fc_step\<^sup>*\<^sup>* NewForkChoice ?f" by (blast intro: fc_step.arrive r_into_rtranclp)
  obtain f' bs where take: "takeBufferedChildrenLocked ?f [] = (f', bs)" by force
  have "buffered ?f = {toy_orphan}"
    using buffer_inv(2) [OF fc_inv_new(1), of toy_orphan] fc_inv_new(2) by simp
  moreover have "parent_of toy_orphan = []"
    by (simp add: toy_orphan_def toy_block_def zero_Block_def zero_BlockHeader_def)
  ultimately show ?thesis using orphan_buffer_refines_set [OF reach take] take by auto
qed

theorem child_preferred_over_parent_witness:
  "\<exists>pb. prepareBlock toy_env zero_Block (Some toy_escrow) toy_block [] = Inr pb
     \<and> isPreferredTip (toy_meta ''c'' (5 + pb_Work pb) 1) (toy_meta ''p'' 5 0)"
proof -
  obtain pb where pb: "prepareBlock toy_env zero_Block (Some toy_escrow) toy_block [] = Inr pb"
    using toy_prepared by blast
  then have "hdr_Number (blk_Header (pb_Block pb)) = 1"
    by (auto elim!: prepareBlock_Inr simp: zero_Block_def zero_BlockHeader_def)
  then show ?thesis
    using child_preferred_over_parent [OF pb, of "toy_meta ''p'' 5 0" "toy_meta ''c'' (5 + pb_Work pb) 1"] pb
    by (simp add: toy_meta_def zero_BlockMeta_def CumulativeWorkBig_def zero_Block_def zero_BlockHeader_def)
qed

end
