(* ===== verification/Storage.thy ===== *)
theory Storage
  imports Network Fork_Choice
begin

text \<open>
  The chain store and the blockchain object of \<open>src/core/blockchain.go\<close>: genesis, mining and
  importing a block, switching the canonical chain, reading back.

  The key-value database is a record of maps, one per key prefix of the code: the prefixes are distinct and
  a key is its prefix followed by a hash or by the number in fixed width, so no two maps share a key. A
  value is kept decoded: what \<open>encodeStoredJSON\<close> (JSON, compressed when long) wrote is what
  \<open>decodeStoredJSON\<close> reads. A database transaction either commits all its writes or, when its
  function returns an error, none, so an operation returns a new store or an error. The loops that
  follow parent hashes end only if the hashes are not cyclic: they are partial functions, \<open>None\<close>
  meaning that the loop runs for ever.
\<close>

section \<open>Store\<close>

record Store =
  st_numbers :: "(u64, Block) fmap"
  st_blocks :: "(string, Block) fmap"
  st_metas :: "(string, BlockMeta) fmap"
  st_txs :: "(string, Transaction) fmap"
  st_states :: "(string, StateSnapshot) fmap"
  st_network :: "NetworkConfig option"
  st_latestHash :: "string option"
  st_latestNumber :: "u64 option"
  st_legacy :: "StateSnapshot res"

text \<open>
  \<open>st_legacy\<close> is what the keys of an older layout, one per account, task and document, read as; no operation
  of the code writes such a key.
\<close>

definition empty_store :: Store where
  "empty_store = \<lparr>st_numbers = fmempty, st_blocks = fmempty, st_metas = fmempty, st_txs = fmempty, st_states = fmempty,
     st_network = None, st_latestHash = None, st_latestNumber = None, st_legacy = Inr NewStateSnapshot\<rparr>"

record Blockchain =
  bc_db :: Store
  bc_state :: StateSnapshot
  bc_latest :: Block
  bc_latestMeta :: BlockMeta
  bc_network :: NetworkConfig

definition loadBlockMetaTxn :: "Store \<Rightarrow> string \<Rightarrow> BlockMeta res" where
  "loadBlockMetaTxn st hash = (case fmlookup (st_metas st) hash of None \<Rightarrow> Inl ErrBlockNotFound | Some m \<Rightarrow> Inr m)"

definition loadBlockTxn :: "Store \<Rightarrow> string \<Rightarrow> Block res" where
  "loadBlockTxn st hash = (case fmlookup (st_blocks st) hash of None \<Rightarrow> Inl ErrBlockNotFound | Some b \<Rightarrow> Inr b)"

definition loadStateSnapshotTxn :: "Store \<Rightarrow> string \<Rightarrow> StateSnapshot res" where
  "loadStateSnapshotTxn st hash = (case fmlookup (st_states st) hash of None \<Rightarrow> Inl ErrBlockNotFound | Some s \<Rightarrow> Inr s)"

definition storeBlockMetaTxn :: "BlockMeta \<Rightarrow> Store \<Rightarrow> Store" where
  "storeBlockMetaTxn meta st = st\<lparr>st_metas := fmupd (meta_Hash meta) meta (st_metas st)\<rparr>"

definition persistStateSnapshot :: "string \<Rightarrow> StateSnapshot \<Rightarrow> Store \<Rightarrow> Store" where
  "persistStateSnapshot blockHash state st = st\<lparr>st_states := fmupd blockHash state (st_states st)\<rparr>"

definition persistBlockArtifacts :: "StateSnapshot \<Rightarrow> Block \<Rightarrow> BlockMeta \<Rightarrow> Store \<Rightarrow> Store" where
  "persistBlockArtifacts state block meta st =
     persistStateSnapshot (blk_Hash block) state
       (st\<lparr>st_blocks := fmupd (blk_Hash block) block (st_blocks st),
           st_metas := fmupd (blk_Hash block) meta (st_metas st),
           st_txs := fold (\<lambda>tx m. fmupd (tx_Hash tx) tx m) (body_Transactions (blk_Body block)) (st_txs st)\<rparr>)"

definition persistNetworkConfig :: "env \<Rightarrow> NetworkConfig \<Rightarrow> Store \<Rightarrow> Store res" where
  "persistNetworkConfig E config st =
     (case NormalizeNetworkConfig E config of
        Inl e \<Rightarrow> Inl e
      | Inr normalized \<Rightarrow> Inr (st\<lparr>st_network := Some normalized\<rparr>))"

section \<open>Switching the canonical chain\<close>

text \<open>The three loops of \<open>reorgPaths\<close>.\<close>

partial_function (option) old_ancestors :: "Store \<Rightarrow> string \<Rightarrow> string list \<Rightarrow> string list res option" where
  "old_ancestors st current seen =
     (if current = [] then Some (Inr seen)
      else
        (case loadBlockMetaTxn st current of
           Inl e \<Rightarrow> Some (Inl e)
         | Inr meta \<Rightarrow> old_ancestors st (meta_ParentHash meta) (seen @ [current])))"

partial_function (option) new_path ::
    "Store \<Rightarrow> string list \<Rightarrow> string \<Rightarrow> BlockMeta list \<Rightarrow> (string \<times> BlockMeta list) res option" where
  "new_path st ancestors current path =
     (if current = [] then Some (Inr ([], path))
      else
        (case loadBlockMetaTxn st current of
           Inl e \<Rightarrow> Some (Inl e)
         | Inr meta \<Rightarrow>
             if current \<in> set ancestors then Some (Inr (current, path))
             else new_path st ancestors (meta_ParentHash meta) (path @ [meta])))"

partial_function (option) old_path :: "Store \<Rightarrow> string \<Rightarrow> string \<Rightarrow> BlockMeta list \<Rightarrow> BlockMeta list res option" where
  "old_path st common current path =
     (if current = [] \<or> current = common then Some (Inr path)
      else
        (case loadBlockMetaTxn st current of
           Inl e \<Rightarrow> Some (Inl e)
         | Inr meta \<Rightarrow> old_path st common (meta_ParentHash meta) (path @ [meta])))"

text \<open>Sequencing of results that may also not come.\<close>

definition andThen :: "'a res option \<Rightarrow> ('a \<Rightarrow> 'b res option) \<Rightarrow> 'b res option" where
  "andThen r f = (case r of None \<Rightarrow> None | Some (Inl e) \<Rightarrow> Some (Inl e) | Some (Inr x) \<Rightarrow> f x)"

definition reorgPaths :: "Store \<Rightarrow> string \<Rightarrow> string \<Rightarrow> (BlockMeta list \<times> BlockMeta list) res option" where
  "reorgPaths st oldTipHash newTipHash =
     (if TrimSpace newTipHash = [] then Some (Inl ErrInvalidBlock)
      else if TrimSpace oldTipHash = [] then
        Some (case loadBlockMetaTxn st newTipHash of Inl e \<Rightarrow> Inl e | Inr newTip \<Rightarrow> Inr ([], [newTip]))
      else
        andThen (old_ancestors st (TrimSpace oldTipHash) []) (\<lambda>ancestors.
        andThen (new_path st ancestors (TrimSpace newTipHash) []) (\<lambda>(common, newPath).
          if common = [] then Some (Inl ErrInvalidBlock)
          else andThen (old_path st common (TrimSpace oldTipHash) []) (\<lambda>oldPath. Some (Inr (oldPath, newPath))))))"

definition retire :: "BlockMeta \<Rightarrow> Store \<Rightarrow> Store" where
  "retire meta st =
     (let st1 = storeBlockMetaTxn (meta\<lparr>meta_Canonical := False\<rparr>) st
      in st1\<lparr>st_numbers := fmdrop (meta_Number meta) (st_numbers st1)\<rparr>)"

definition adopt :: "Store \<Rightarrow> BlockMeta \<Rightarrow> Store res" where
  "adopt st meta =
     (let st1 = storeBlockMetaTxn (meta\<lparr>meta_Canonical := True\<rparr>) st in
      case loadBlockTxn st1 (meta_Hash meta) of
        Inl e \<Rightarrow> Inl e
      | Inr block \<Rightarrow> Inr (st1\<lparr>st_numbers := fmupd (meta_Number meta) block (st_numbers st1)\<rparr>))"

fun adopt_all :: "Store \<Rightarrow> BlockMeta list \<Rightarrow> Store res" where
  "adopt_all st [] = Inr st"
| "adopt_all st (m # ms) = (case adopt st m of Inl e \<Rightarrow> Inl e | Inr st' \<Rightarrow> adopt_all st' ms)"

definition rewriteCanonicalTip :: "string \<Rightarrow> string \<Rightarrow> Store \<Rightarrow> Store res option" where
  "rewriteCanonicalTip oldTipHash newTipHash st =
     (if TrimSpace newTipHash = [] then Some (Inl ErrInvalidBlock)
      else andThen (reorgPaths st oldTipHash newTipHash) (\<lambda>(oldPath, newPath).
        Some (adopt_all (fold retire oldPath st) (rev newPath))))"

section \<open>Writing a block\<close>

definition set_tip :: "Block \<Rightarrow> Store \<Rightarrow> Store" where
  "set_tip block st = st\<lparr>st_latestHash := Some (blk_Hash block), st_latestNumber := Some (hdr_Number (blk_Header block))\<rparr>"

definition persistCanonicalTipLocked ::
    "env \<Rightarrow> Blockchain \<Rightarrow> StateSnapshot \<Rightarrow> Block \<Rightarrow> BlockMeta \<Rightarrow> Blockchain res option" where
  "persistCanonicalTipLocked E bc state block meta =
     andThen (rewriteCanonicalTip (meta_Hash (bc_latestMeta bc)) (meta_Hash meta)
                (persistBlockArtifacts state block meta (bc_db bc))) (\<lambda>st1.
       Some (case persistNetworkConfig E (bc_network bc) st1 of
               Inl e \<Rightarrow> Inl e
             | Inr st2 \<Rightarrow>
                 Inr (bc\<lparr>bc_db := set_tip block st2, bc_state := state, bc_latest := block, bc_latestMeta := meta\<rparr>)))"

definition persistStateOnlyLocked :: "env \<Rightarrow> Blockchain \<Rightarrow> Blockchain res" where
  "persistStateOnlyLocked E bc =
     (case persistNetworkConfig E (bc_network bc) (bc_db bc) of
        Inl e \<Rightarrow> Inl e
      | Inr st \<Rightarrow>
          if TrimSpace (blk_Hash (bc_latest bc)) = [] then Inr (bc\<lparr>bc_db := st\<rparr>)
          else Inr (bc\<lparr>bc_db := persistStateSnapshot (blk_Hash (bc_latest bc)) (bc_state bc) (set_tip (bc_latest bc) st)\<rparr>))"

definition storeImportedBlockLocked ::
    "env \<Rightarrow> Blockchain \<Rightarrow> StateSnapshot \<Rightarrow> Block \<Rightarrow> BlockMeta \<Rightarrow> bool \<Rightarrow> Blockchain res option" where
  "storeImportedBlockLocked E bc state block meta canonical =
     (let st0 = persistBlockArtifacts state block meta (bc_db bc) in
      if \<not> canonical then Some (Inr (bc\<lparr>bc_db := st0\<rparr>))
      else
        andThen (rewriteCanonicalTip (meta_Hash (bc_latestMeta bc)) (meta_Hash meta) st0) (\<lambda>st1.
          Some (case persistNetworkConfig E (bc_network bc) st1 of
                  Inl e \<Rightarrow> Inl e
                | Inr st2 \<Rightarrow>
                    Inr (bc\<lparr>bc_db := set_tip block st2, bc_state := state, bc_latest := block,
                            bc_latestMeta := meta\<rparr>))))"

section \<open>Reading\<close>

definition getBlockByHashLocked :: "Blockchain \<Rightarrow> string \<Rightarrow> Block res" where
  "getBlockByHashLocked bc hash =
     (if TrimSpace hash = [] then Inl ErrBlockNotFound
      else if hash = blk_Hash (bc_latest bc) then Inr (bc_latest bc)
      else loadBlockTxn (bc_db bc) hash)"

definition getBlockMetaLocked :: "Blockchain \<Rightarrow> string \<Rightarrow> BlockMeta res" where
  "getBlockMetaLocked bc hash =
     (if TrimSpace hash = [] then Inl ErrBlockNotFound
      else if hash = meta_Hash (bc_latestMeta bc) then Inr (bc_latestMeta bc)
      else loadBlockMetaTxn (bc_db bc) hash)"

definition getStateSnapshotLocked :: "Blockchain \<Rightarrow> string \<Rightarrow> StateSnapshot res" where
  "getStateSnapshotLocked bc hash =
     (if TrimSpace hash = [] then Inl ErrBlockNotFound
      else if hash = blk_Hash (bc_latest bc) then Inr (bc_state bc)
      else loadStateSnapshotTxn (bc_db bc) hash)"

definition hasBlockMetaLocked :: "Blockchain \<Rightarrow> string \<Rightarrow> bool" where
  "hasBlockMetaLocked bc hash =
     (if TrimSpace hash = [] then False
      else if hash = meta_Hash (bc_latestMeta bc) then True
      else (case loadBlockMetaTxn (bc_db bc) hash of Inl _ \<Rightarrow> False | Inr _ \<Rightarrow> True))"

definition GetBlockByNumber :: "Blockchain \<Rightarrow> u64 \<Rightarrow> Block res" where
  "GetBlockByNumber bc number =
     (if number = hdr_Number (blk_Header (bc_latest bc)) then Inr (bc_latest bc)
      else (case fmlookup (st_numbers (bc_db bc)) number of None \<Rightarrow> Inl ErrBlockNotFound | Some b \<Rightarrow> Inr b))"

definition GetBlockByHash :: "Blockchain \<Rightarrow> string \<Rightarrow> Block res" where
  "GetBlockByHash bc hash =
     (if hash = blk_Hash (bc_latest bc) then Inr (bc_latest bc) else loadBlockTxn (bc_db bc) hash)"

definition HasBlockHash :: "Blockchain \<Rightarrow> string \<Rightarrow> bool" where
  "HasBlockHash bc hash =
     (if TrimSpace hash = [] then False else (case GetBlockByHash bc hash of Inl _ \<Rightarrow> False | Inr _ \<Rightarrow> True))"

definition ParentState :: "Blockchain \<Rightarrow> Block \<Rightarrow> StateSnapshot res" where
  "ParentState bc block = getStateSnapshotLocked bc (hdr_ParentHash (blk_Header block))"

section \<open>Mining and importing\<close>

definition MineBlock ::
    "env \<Rightarrow> Blockchain \<Rightarrow> string \<Rightarrow> Transaction list \<Rightarrow> CrawlProof list \<Rightarrow> (Blockchain \<times> Block) res option" where
  "MineBlock E bc miner transactions proofs =
     (let parent = bc_latest bc;
          block = zero_Block\<lparr>blk_Header := zero_BlockHeader\<lparr>hdr_Number := hdr_Number (blk_Header parent) + 1,
                                hdr_ParentHash := blk_Hash parent, hdr_Timestamp := now E, hdr_Miner := miner\<rparr>,
                            blk_Body := \<lparr>body_Transactions = transactions, body_CrawlProofs = proofs\<rparr>\<rparr>
      in (case prepareBlock E parent (Some (bc_state bc)) block (net_ArchitectAddress (bc_network bc)) of
            Inl e \<Rightarrow> Some (Inl e)
          | Inr prepared \<Rightarrow>
              let meta = \<lparr>meta_Hash = blk_Hash (pb_Block prepared),
                          meta_ParentHash = hdr_ParentHash (blk_Header (pb_Block prepared)),
                          meta_Number = hdr_Number (blk_Header (pb_Block prepared)),
                          meta_Work = show_int (pb_Work prepared),
                          meta_CumulativeWork = show_int (CumulativeWorkBig (bc_latestMeta bc) + pb_Work prepared),
                          meta_Canonical = True\<rparr>
              in andThen (persistCanonicalTipLocked E bc (pb_State prepared) (pb_Block prepared) meta)
                   (\<lambda>bc'. Some (Inr (bc', pb_Block prepared)))))"

definition ImportBlock :: "env \<Rightarrow> Blockchain \<Rightarrow> Block \<Rightarrow> Blockchain res option" where
  "ImportBlock E bc block =
     (if blk_Hash block = [] then Some (Inl ErrInvalidBlock)
      else if hasBlockMetaLocked bc (blk_Hash block) then Some (Inr bc)
      else
        (case getBlockByHashLocked bc (hdr_ParentHash (blk_Header block)) of
           Inl e \<Rightarrow> Some (Inl e)
         | Inr parent \<Rightarrow>
        (case getBlockMetaLocked bc (hdr_ParentHash (blk_Header block)) of
           Inl e \<Rightarrow> Some (Inl e)
         | Inr parentMeta \<Rightarrow>
        (case getStateSnapshotLocked bc (hdr_ParentHash (blk_Header block)) of
           Inl e \<Rightarrow> Some (Inl e)
         | Inr parentState \<Rightarrow>
        (case prepareBlock E parent (Some parentState) block (net_ArchitectAddress (bc_network bc)) of
           Inl e \<Rightarrow> Some (Inl e)
         | Inr prepared \<Rightarrow>
             let meta0 = \<lparr>meta_Hash = blk_Hash (pb_Block prepared),
                          meta_ParentHash = hdr_ParentHash (blk_Header (pb_Block prepared)),
                          meta_Number = hdr_Number (blk_Header (pb_Block prepared)),
                          meta_Work = show_int (pb_Work prepared),
                          meta_CumulativeWork = show_int (CumulativeWorkBig parentMeta + pb_Work prepared),
                          meta_Canonical = False\<rparr>;
                 better = isPreferredTip meta0 (bc_latestMeta bc)
             in storeImportedBlockLocked E bc (pb_State prepared) (pb_Block prepared)
                  (meta0\<lparr>meta_Canonical := better\<rparr>) better)))))"

section \<open>Opening\<close>

definition syntheticLatestMeta :: "Block \<Rightarrow> BlockMeta" where
  "syntheticLatestMeta block =
     \<lparr>meta_Hash = blk_Hash block, meta_ParentHash = hdr_ParentHash (blk_Header block),
      meta_Number = hdr_Number (blk_Header block), meta_Work = ''0'',
      meta_CumulativeWork = show_int (if 0 < hdr_Number (blk_Header block) then uint (hdr_Number (blk_Header block)) else 0),
      meta_Canonical = True\<rparr>"

definition meta_or_synthetic :: "Store \<Rightarrow> Block \<Rightarrow> string \<Rightarrow> BlockMeta" where
  "meta_or_synthetic st latest hash =
     (case loadBlockMetaTxn st hash of Inl _ \<Rightarrow> syntheticLatestMeta latest | Inr m \<Rightarrow> m)"

text \<open>\<open>loadLocked\<close>: the network, then the tip with its snapshot, or else the older layout.\<close>

definition load_network :: "env \<Rightarrow> Blockchain \<Rightarrow> Blockchain res" where
  "load_network E bc =
     (case st_network (bc_db bc) of
        None \<Rightarrow> Inr bc
      | Some cfg \<Rightarrow>
          (case NormalizeNetworkConfig E cfg of Inl e \<Rightarrow> Inl e | Inr normalized \<Rightarrow> Inr (bc\<lparr>bc_network := normalized\<rparr>)))"

definition load_tip :: "Blockchain \<Rightarrow> Blockchain option" where
  "load_tip bc =
     (let latestHash = (case st_latestHash (bc_db bc) of None \<Rightarrow> [] | Some h \<Rightarrow> TrimSpace h) in
      if latestHash = [] then None
      else
        (case loadBlockTxn (bc_db bc) latestHash of
           Inl _ \<Rightarrow> None
         | Inr latest \<Rightarrow>
             (case loadStateSnapshotTxn (bc_db bc) latestHash of
                Inl _ \<Rightarrow> None
              | Inr latestState \<Rightarrow>
                  Some (bc\<lparr>bc_latest := latest, bc_latestMeta := meta_or_synthetic (bc_db bc) latest latestHash,
                           bc_state := latestState\<rparr>))))"

definition load_legacy :: "Blockchain \<Rightarrow> Blockchain res" where
  "load_legacy bc =
     (case st_legacy (bc_db bc) of
        Inl e \<Rightarrow> Inl e
      | Inr state \<Rightarrow>
          (case st_latestNumber (bc_db bc) of
             None \<Rightarrow> Inr (bc\<lparr>bc_state := state\<rparr>)
           | Some n \<Rightarrow>
               (case fmlookup (st_numbers (bc_db bc)) n of
                  None \<Rightarrow> Inl (ErrText ''Key not found'')
                | Some latest \<Rightarrow>
                    Inr (bc\<lparr>bc_state := state, bc_latest := latest,
                            bc_latestMeta := meta_or_synthetic (bc_db bc) latest (blk_Hash latest)\<rparr>))))"

definition loadLocked :: "env \<Rightarrow> Blockchain \<Rightarrow> Blockchain res" where
  "loadLocked E bc =
     (case load_network E (bc\<lparr>bc_state := NewStateSnapshot\<rparr>) of
        Inl e \<Rightarrow> Inl e
      | Inr bc1 \<Rightarrow> (case load_tip bc1 of Some bc2 \<Rightarrow> Inr bc2 | None \<Rightarrow> load_legacy bc1))"

text \<open>The genesis block over the configured balances, the entries of a map; a nil amount is zero.\<close>

definition genesis_state :: "StateSnapshot \<Rightarrow> (string \<times> int option) list \<Rightarrow> StateSnapshot" where
  "genesis_state state balances =
     state\<lparr>Balances := fold (\<lambda>(a, v) m. fmupd a (cloneBigInt v) m) balances (Balances state)\<rparr>"

definition genesis_block :: "env \<Rightarrow> string \<Rightarrow> StateSnapshot \<Rightarrow> Block" where
  "genesis_block E miner state =
     (let b = zero_Block\<lparr>blk_Header := zero_BlockHeader\<lparr>hdr_Timestamp := unix_time GenesisTimestampUnix,
                hdr_Miner := miner, hdr_TxRoot := merkleRoot E [], hdr_CrawlRoot := merkleRoot E [],
                hdr_StateRoot := computeStateRoot E state\<rparr>\<rparr>
      in b\<lparr>blk_Hash := computeBlockHash E b\<rparr>)"

definition ArchitectAddress :: "Blockchain \<Rightarrow> string" where
  "ArchitectAddress bc = normalizedArchitectAddress (net_ArchitectAddress (bc_network bc))"

definition start_genesis :: "env \<Rightarrow> NetworkConfig \<Rightarrow> (string \<times> int option) list \<Rightarrow> Blockchain \<Rightarrow> Blockchain res option" where
  "start_genesis E network balances chain0 =
     (let net = (if TrimSpace (net_GenesisAddress network) = []
                 then network\<lparr>net_GenesisAddress := inferGenesisAddress balances (net_ArchitectAddress network)\<rparr>
                 else network);
          state = genesis_state (bc_state chain0) balances;
          chain = chain0\<lparr>bc_network := net, bc_state := state\<rparr>;
          genesis = genesis_block E (ArchitectAddress chain) state;
          meta = \<lparr>meta_Hash = blk_Hash genesis, meta_ParentHash = [], meta_Number = 0, meta_Work = ''0'',
                  meta_CumulativeWork = ''0'', meta_Canonical = True\<rparr>
      in persistCanonicalTipLocked E chain state genesis meta)"

text \<open>\<open>OpenBlockchain\<close> on the content of the database directory.\<close>

definition OpenBlockchain :: "env \<Rightarrow> Store \<Rightarrow> NetworkConfig \<Rightarrow> (string \<times> int option) list \<Rightarrow> Blockchain res option" where
  "OpenBlockchain E db config balances =
     (case NormalizeNetworkConfig E config of
        Inl e \<Rightarrow> Some (Inl e)
      | Inr network \<Rightarrow>
          (case loadLocked E \<lparr>bc_db = db, bc_state = NewStateSnapshot, bc_latest = zero_Block, bc_latestMeta = zero_BlockMeta,
                              bc_network = network\<rparr> of
             Inl e \<Rightarrow> Some (Inl e)
           | Inr chain \<Rightarrow>
               if blk_Hash (bc_latest chain) = [] then start_genesis E network balances chain
               else
                 Some (case reconcileNetworkConfig E (bc_network chain) network (bc_latest chain) of
                         Inl e \<Rightarrow> Inl e
                       | Inr (resolved, changed) \<Rightarrow>
                           (let chain' = chain\<lparr>bc_network := resolved\<rparr>
                            in if changed then persistStateOnlyLocked E chain' else Inr chain'))))"

end
