(* ===== verification/Canonical_Chain.thy ===== *)
theory Canonical_Chain
  imports Storage
begin

text \<open>
  What the chain store guarantees. The blocks known to a node form a tree under one genesis block; the
  blocks marked canonical, and the blocks found by number, are exactly the path from the genesis to
  the tip, whatever blocks were mined or imported in whatever order; the tip is the preferred
  block of the tree; and the loops that follow parents always end.
\<close>

section \<open>The tree of blocks\<close>

text \<open>A meta without its canonical flag, which is all that switching chains changes.\<close>

definition strip :: "BlockMeta \<Rightarrow> BlockMeta" where
  "strip m = m\<lparr>meta_Canonical := False\<rparr>"

lemma strip_simps [simp]:
  "meta_Hash (strip m) = meta_Hash m" "meta_ParentHash (strip m) = meta_ParentHash m"
  "meta_Number (strip m) = meta_Number m" "strip (strip m) = strip m"
  "strip (m\<lparr>meta_Canonical := b\<rparr>) = strip m" "isPreferredTip (strip m) x = isPreferredTip m x"
  "isPreferredTip x (strip m) = isPreferredTip x m"
  by (simp_all add: strip_def isPreferredTip_def CumulativeWorkBig_def)

lemma strip_eqD: "strip a = strip b \<Longrightarrow> meta_Canonical a = meta_Canonical b \<Longrightarrow> a = b"
  by (cases a, cases b) (simp add: strip_def)

type_synonym tree = "string \<Rightarrow> BlockMeta option"

definition tree_of :: "Store \<Rightarrow> tree" where
  "tree_of st h = map_option strip (fmlookup (st_metas st) h)"

definition canon :: "Store \<Rightarrow> string \<Rightarrow> bool" where
  "canon st h \<longleftrightarrow> (\<exists>m. fmlookup (st_metas st) h = Some m \<and> meta_Canonical m)"

text \<open>Known blocks have distinct hashes, and each but the genesis has a known parent one below it.\<close>

definition node_ok :: "string \<Rightarrow> tree \<Rightarrow> string \<Rightarrow> BlockMeta \<Rightarrow> bool" where
  "node_ok g T h m \<longleftrightarrow> meta_Hash m = h \<and> h \<noteq> [] \<and> TrimSpace h = h
     \<and> (if meta_ParentHash m = [] then h = g \<and> meta_Number m = 0
        else (\<exists>pm. T (meta_ParentHash m) = Some pm \<and> unat (meta_Number m) = Suc (unat (meta_Number pm))))"

definition tree_ok :: "string \<Rightarrow> tree \<Rightarrow> bool" where
  "tree_ok g T \<longleftrightarrow> (\<forall>h m. T h = Some m \<longrightarrow> node_ok g T h m)"

definition bodies_ok :: "Store \<Rightarrow> bool" where
  "bodies_ok st \<longleftrightarrow> (\<forall>h m. tree_of st h = Some m \<longrightarrow> (\<exists>b s. fmlookup (st_blocks st) h = Some b \<and> fmlookup (st_states st) h = Some s
     \<and> blk_Hash b = h \<and> hdr_Number (blk_Header b) = meta_Number m \<and> hdr_ParentHash (blk_Header b) = meta_ParentHash m))"

lemma tree_okD:
  assumes "tree_ok g T" and "T h = Some m"
  shows "meta_Hash m = h" "h \<noteq> []" "TrimSpace h = h"
    "meta_ParentHash m = [] \<Longrightarrow> h = g \<and> meta_Number m = 0"
    "meta_ParentHash m \<noteq> [] \<Longrightarrow> \<exists>pm. T (meta_ParentHash m) = Some pm \<and> unat (meta_Number m) = Suc (unat (meta_Number pm))"
  using assms unfolding tree_ok_def node_ok_def by (metis (full_types))+

section \<open>Paths to the genesis\<close>

inductive path :: "tree \<Rightarrow> string \<Rightarrow> BlockMeta list \<Rightarrow> bool" for T where
  path_end: "path T [] []"
| path_step: "h \<noteq> [] \<Longrightarrow> T h = Some m \<Longrightarrow> path T (meta_ParentHash m) ms \<Longrightarrow> path T h (m # ms)"

inductive_cases path_ConsE: "path T h (m # ms)"

lemma path_empty [simp]: "path T [] ms \<longleftrightarrow> ms = []"
  by (auto elim: path.cases intro: path_end)

lemma path_Nil [simp]: "path T h [] \<longleftrightarrow> h = []"
  by (auto elim: path.cases)

lemma path_unique: "path T h ms \<Longrightarrow> path T h ms' \<Longrightarrow> ms = ms'"
proof (induction arbitrary: ms' rule: path.induct)
  case (path_step h m ms)
  obtain m' ks where ms': "ms' = m' # ks" using path_step by (cases ms') auto
  with path_step.prems have "T h = Some m'" "path T (meta_ParentHash m') ks" by (auto elim: path_ConsE)
  with path_step show ?case by (simp add: ms')
qed simp

lemma path_exists:
  assumes ok: "tree_ok g T" and "T h = Some m"
  shows "\<exists>ms. path T h (m # ms)"
  using assms(2)
proof (induction "unat (meta_Number m)" arbitrary: h m rule: less_induct)
  case less
  note d = tree_okD [OF ok less.prems]
  show ?case
  proof (cases "meta_ParentHash m = []")
    case True
    then show ?thesis using path_step [of h T m "[]"] path_end d(2) less.prems by auto
  next
    case False
    then obtain pm where pm: "T (meta_ParentHash m) = Some pm" "unat (meta_Number m) = Suc (unat (meta_Number pm))"
      using d(5) by blast
    then obtain ms where "path T (meta_ParentHash m) (pm # ms)" using less.hyps [of pm] by auto
    then show ?thesis using path_step [of h T m, OF d(2) less.prems] by blast
  qed
qed

lemma path_mem: "path T h ms \<Longrightarrow> tree_ok g T \<Longrightarrow> m \<in> set ms \<Longrightarrow> T (meta_Hash m) = Some m"
  by (induction rule: path.induct) (auto dest: tree_okD(1))

lemma path_number:
  "path T h ms \<Longrightarrow> tree_ok g T \<Longrightarrow> T h = Some x \<Longrightarrow> m \<in> set ms \<Longrightarrow> unat (meta_Number m) \<le> unat (meta_Number x)"
proof (induction arbitrary: x rule: path.induct)
  case (path_step h y ms)
  then have x: "x = y" by simp
  show ?case
  proof (cases "m = y")
    case False
    then have m: "m \<in> set ms" using path_step.prems by simp
    then have "meta_ParentHash y \<noteq> []" using path_step.hyps(3) by auto
    then obtain pm where "T (meta_ParentHash y) = Some pm" "unat (meta_Number y) = Suc (unat (meta_Number pm))"
      using tree_okD(5) [OF path_step.prems(1) path_step.hyps(2)] by blast
    then show ?thesis using path_step.IH [OF path_step.prems(1) _ m] x by fastforce
  qed (simp add: x)
qed simp

lemma path_sorted:
  "path T h ms \<Longrightarrow> tree_ok g T \<Longrightarrow> sorted_wrt (\<lambda>a b. unat (meta_Number b) < unat (meta_Number a)) ms"
proof (induction rule: path.induct)
  case (path_step h m ms)
  have "unat (meta_Number b) < unat (meta_Number m)" if b: "b \<in> set ms" for b
  proof -
    have "meta_ParentHash m \<noteq> []" using b path_step.hyps(3) by auto
    then obtain pm where "T (meta_ParentHash m) = Some pm" "unat (meta_Number m) = Suc (unat (meta_Number pm))"
      using tree_okD(5) [OF path_step.prems path_step.hyps(2)] by blast
    then show ?thesis using path_number [OF path_step.hyps(3) path_step.prems _ b] by fastforce
  qed
  with path_step show ?case by simp
qed simp

lemma sorted_numbers_inj:
  "sorted_wrt (\<lambda>a b. unat (meta_Number b) < unat (meta_Number a)) ms \<Longrightarrow>
   a \<in> set ms \<Longrightarrow> b \<in> set ms \<Longrightarrow> meta_Number a = meta_Number b \<Longrightarrow> a = b"
  by (induction ms) auto

lemma path_distinct: "path T h ms \<Longrightarrow> tree_ok g T \<Longrightarrow> distinct (map meta_Hash ms)"
proof (induction rule: path.induct)
  case (path_step h m ms)
  have "meta_Hash b \<noteq> meta_Hash m" if "b \<in> set ms" for b
  proof
    assume "meta_Hash b = meta_Hash m"
    moreover have "path T h (m # ms)" using path_step.hyps by (rule path.path_step)
    ultimately have "b = m"
      using path_mem [OF _ path_step.prems, of h "m # ms"] that by (metis list.set_intros option.inject)
    then show False using path_sorted [OF \<open>path T h (m # ms)\<close> path_step.prems] that by auto
  qed
  then have "meta_Hash m \<notin> meta_Hash ` set ms" by force
  with path_step show ?case by simp
qed simp

lemma path_suffix: "path T h (xs @ m # ys) \<Longrightarrow> tree_ok g T \<Longrightarrow> path T (meta_Hash m) (m # ys)"
proof (induction xs arbitrary: h)
  case Nil
  then show ?case by (auto elim!: path_ConsE dest: tree_okD(1) intro: path_step)
next
  case (Cons x xs)
  then show ?case by (auto elim: path_ConsE)
qed

lemma path_last: "path T h ms \<Longrightarrow> tree_ok g T \<Longrightarrow> ms \<noteq> [] \<Longrightarrow> meta_Hash (last ms) = g"
proof (induction rule: path.induct)
  case (path_step h m ms)
  show ?case
  proof (cases "ms = []")
    case True
    then have "meta_ParentHash m = []" using path_step.hyps(3) by simp
    then show ?thesis using tree_okD [OF path_step.prems(1) path_step.hyps(2)] True by simp
  qed (use path_step in simp)
qed simp

section \<open>The loops of a reorganisation\<close>

abbreviation metas :: "Store \<Rightarrow> tree" where
  "metas st \<equiv> fmlookup (st_metas st)"

lemma tree_of_Some: "tree_of st h = Some m \<longleftrightarrow> (\<exists>x. metas st h = Some x \<and> m = strip x)"
  by (auto simp: tree_of_def)

lemma node_ok_strip: "node_ok g (tree_of st) h (strip m) \<longleftrightarrow> node_ok g (metas st) h m"
  by (auto simp: node_ok_def tree_of_Some)

lemma tree_ok_strip: "tree_ok g (tree_of st) \<longleftrightarrow> tree_ok g (metas st)"
  unfolding tree_ok_def tree_of_Some using node_ok_strip by blast

lemma path_strip: "path (metas st) h ms \<Longrightarrow> path (tree_of st) h (map strip ms)"
proof (induction rule: path.induct)
  case (path_step h m ms)
  then have "tree_of st h = Some (strip m)" by (simp add: tree_of_Some)
  with path_step show ?case using path.path_step [of h "tree_of st" "strip m" "map strip ms"] by simp
qed simp

lemma loadMeta_Some: "metas st h = Some m \<Longrightarrow> loadBlockMetaTxn st h = Inr m"
  by (simp add: loadBlockMetaTxn_def)

lemma old_ancestors_path:
  "path (metas st) h ms \<Longrightarrow> tree_ok g (metas st) \<Longrightarrow>
   old_ancestors st h seen = Some (Inr (seen @ map meta_Hash ms))"
proof (induction arbitrary: seen rule: path.induct)
  case path_end
  then show ?case by (subst old_ancestors.simps) simp
next
  case (path_step h m ms)
  then show ?case
    by (subst old_ancestors.simps) (simp add: loadMeta_Some tree_okD(1))
qed

lemma new_path_path:
  "path (metas st) h ms \<Longrightarrow> tree_ok g (metas st) \<Longrightarrow>
   new_path st anc h acc = Some (Inr
     (case dropWhile (\<lambda>m. meta_Hash m \<notin> set anc) ms of [] \<Rightarrow> [] | m # _ \<Rightarrow> meta_Hash m,
      acc @ takeWhile (\<lambda>m. meta_Hash m \<notin> set anc) ms))"
proof (induction arbitrary: acc rule: path.induct)
  case path_end
  then show ?case by (subst new_path.simps) simp
next
  case (path_step h m ms)
  then show ?case
    by (subst new_path.simps) (simp add: loadMeta_Some tree_okD(1))
qed

lemma old_path_path:
  "path (metas st) h ms \<Longrightarrow> tree_ok g (metas st) \<Longrightarrow>
   old_path st c h acc = Some (Inr (acc @ takeWhile (\<lambda>m. meta_Hash m \<noteq> c) ms))"
proof (induction arbitrary: acc rule: path.induct)
  case path_end
  then show ?case by (subst old_path.simps) simp
next
  case (path_step h m ms)
  then show ?case
    by (subst old_path.simps) (auto simp: loadMeta_Some tree_okD(1))
qed

text \<open>The two paths of a reorganisation: what leaves and what joins, above a common rest.\<close>

lemma reorgPaths_split:
  assumes ok: "tree_ok g (metas st)" and old: "path (metas st) h0 os" "metas st h0 \<noteq> None"
    and new: "path (metas st) h1 ns" "metas st h1 \<noteq> None"
  obtains away join rest where "reorgPaths st h0 h1 = Some (Inr (away, join))" "os = away @ rest" "ns = join @ rest"
    "set (map meta_Hash join) \<inter> set (map meta_Hash os) = {}" "rest \<noteq> []"
proof -
  have trim: "TrimSpace h0 = h0" "TrimSpace h1 = h1" "h0 \<noteq> []" "h1 \<noteq> []"
    using old(2) new(2) tree_okD [OF ok] by auto
  let ?anc = "map meta_Hash os"
  define join where "join = takeWhile (\<lambda>m. meta_Hash m \<notin> set ?anc) ns"
  have "os \<noteq> []" "ns \<noteq> []" using old(1) new(1) trim by auto
  then have "meta_Hash (last ns) \<in> set ?anc"
    using path_last [OF old(1) ok] path_last [OF new(1) ok] by (metis last_in_set list.set_map image_eqI)
  then obtain c ys where drop: "dropWhile (\<lambda>m. meta_Hash m \<notin> set ?anc) ns = c # ys"
    using \<open>ns \<noteq> []\<close> by (cases "dropWhile (\<lambda>m. meta_Hash m \<notin> set ?anc) ns") (auto simp: dropWhile_eq_Nil_conv)
  then have ns: "ns = join @ c # ys" unfolding join_def by (metis takeWhile_dropWhile_id)
  have c: "meta_Hash c \<in> set ?anc" using drop by (auto simp: dropWhile_eq_Cons_conv)
  have cmem: "metas st (meta_Hash c) = Some c" by (rule path_mem [OF new(1) ok]) (simp add: ns)
  then have "c \<in> set os"
    using c path_mem [OF old(1) ok] by fastforce
  then obtain away zs where os: "os = away @ c # zs" and "c \<notin> set away" by (meson split_list_first)
  have "path (metas st) (meta_Hash c) (c # zs)" "path (metas st) (meta_Hash c) (c # ys)"
    using path_suffix [OF _ ok] old(1) new(1) by (auto simp: os ns)
  then have zs: "zs = ys" using path_unique by blast
  have "meta_Hash m \<noteq> meta_Hash c" if "m \<in> set away" for m
    using path_distinct [OF old(1) ok] that by (metis (no_types, lifting) os distinct_map image_eqI list.set_map
        map_append append_Cons distinct_append disjoint_iff list.set_intros(1))
  then have take: "takeWhile (\<lambda>m. meta_Hash m \<noteq> meta_Hash c) os = away" by (simp add: os takeWhile_tail takeWhile_eq_all_conv)
  have nonempty: "meta_Hash c \<noteq> []" using tree_okD(2) [OF ok cmem] by simp
  have "reorgPaths st h0 h1 = Some (Inr (away, join))"
    using trim nonempty
    by (simp del: set_map add: reorgPaths_def andThen_def old_ancestors_path [OF old(1) ok] new_path_path [OF new(1) ok] drop
        old_path_path [OF old(1) ok] take join_def)
  moreover have "set (map meta_Hash join) \<inter> set ?anc = {}"
    unfolding join_def by (auto dest: set_takeWhileD)
  ultimately show ?thesis using that [of away join "c # ys"] os ns zs by blast
qed

section \<open>Effect of retiring and adopting\<close>

lemma retire_effect:
  assumes "metas st (meta_Hash m) = Some m'" "strip m' = strip m"
  shows "tree_of (retire m st) = tree_of st" "canon (retire m st) h \<longleftrightarrow> canon st h \<and> h \<noteq> meta_Hash m"
    "fmlookup (st_numbers (retire m st)) n = (if n = meta_Number m then None else fmlookup (st_numbers st) n)"
    "st_blocks (retire m st) = st_blocks st" "st_states (retire m st) = st_states st"
  using assms by (auto simp: retire_def storeBlockMetaTxn_def Let_def tree_of_def canon_def fun_eq_iff)

lemma adopt_effect:
  assumes "metas st (meta_Hash m) = Some m'" "strip m' = strip m" "fmlookup (st_blocks st) (meta_Hash m) = Some b"
  obtains st' where "adopt st m = Inr st'" "tree_of st' = tree_of st" "\<And>h. canon st' h \<longleftrightarrow> canon st h \<or> h = meta_Hash m"
    "\<And>n. fmlookup (st_numbers st') n = (if n = meta_Number m then Some b else fmlookup (st_numbers st) n)"
    "st_blocks st' = st_blocks st" "st_states st' = st_states st"
  using assms
  by (auto simp: adopt_def storeBlockMetaTxn_def loadBlockTxn_def Let_def tree_of_def canon_def fun_eq_iff)

lemma tree_of_meta: "tree_of st (meta_Hash m) = Some (strip m) \<longleftrightarrow> (\<exists>m'. metas st (meta_Hash m) = Some m' \<and> strip m' = strip m)"
  by (auto simp: tree_of_def)

lemma retire_all:
  assumes "\<And>m. m \<in> set ms \<Longrightarrow> tree_of st (meta_Hash m) = Some (strip m)"
  shows "tree_of (fold retire ms st) = tree_of st
    \<and> (\<forall>h. canon (fold retire ms st) h \<longleftrightarrow> canon st h \<and> h \<notin> meta_Hash ` set ms)
    \<and> (\<forall>n. fmlookup (st_numbers (fold retire ms st)) n = (if n \<in> meta_Number ` set ms then None else fmlookup (st_numbers st) n))
    \<and> st_blocks (fold retire ms st) = st_blocks st \<and> st_states (fold retire ms st) = st_states st"
  using assms
proof (induction ms arbitrary: st)
  case (Cons m ms)
  obtain m' where "metas st (meta_Hash m) = Some m'" "strip m' = strip m" using Cons.prems [of m] by (auto simp: tree_of_meta)
  note eff = retire_effect [OF this]
  show ?case using Cons.IH [of "retire m st"] Cons.prems by (auto simp: eff)
qed simp

lemma adopt_all_effect:
  assumes "\<And>m. m \<in> set ms \<Longrightarrow> tree_of st (meta_Hash m) = Some (strip m)"
    and "\<And>m. m \<in> set ms \<Longrightarrow> fmlookup (st_blocks st) (meta_Hash m) \<noteq> None" and "distinct (map meta_Number ms)"
  shows "\<exists>st'. adopt_all st ms = Inr st' \<and> tree_of st' = tree_of st
    \<and> (\<forall>h. canon st' h \<longleftrightarrow> canon st h \<or> h \<in> meta_Hash ` set ms)
    \<and> (\<forall>m\<in>set ms. fmlookup (st_numbers st') (meta_Number m) = fmlookup (st_blocks st) (meta_Hash m))
    \<and> (\<forall>n. n \<notin> meta_Number ` set ms \<longrightarrow> fmlookup (st_numbers st') n = fmlookup (st_numbers st) n)
    \<and> st_blocks st' = st_blocks st \<and> st_states st' = st_states st"
  using assms
proof (induction ms arbitrary: st)
  case (Cons m ms)
  obtain m' where m': "metas st (meta_Hash m) = Some m'" "strip m' = strip m" using Cons.prems(1) [of m] by (auto simp: tree_of_meta)
  obtain b where b: "fmlookup (st_blocks st) (meta_Hash m) = Some b" using Cons.prems(2) [of m] by auto
  from m' b obtain st1 where st1: "adopt st m = Inr st1" "tree_of st1 = tree_of st"
    "\<And>h. canon st1 h \<longleftrightarrow> canon st h \<or> h = meta_Hash m"
    "\<And>n. fmlookup (st_numbers st1) n = (if n = meta_Number m then Some b else fmlookup (st_numbers st) n)"
    "st_blocks st1 = st_blocks st" "st_states st1 = st_states st"
    by (rule adopt_effect) blast
  have "\<exists>st'. adopt_all st1 ms = Inr st' \<and> tree_of st' = tree_of st1
    \<and> (\<forall>h. canon st' h \<longleftrightarrow> canon st1 h \<or> h \<in> meta_Hash ` set ms)
    \<and> (\<forall>m\<in>set ms. fmlookup (st_numbers st') (meta_Number m) = fmlookup (st_blocks st1) (meta_Hash m))
    \<and> (\<forall>n. n \<notin> meta_Number ` set ms \<longrightarrow> fmlookup (st_numbers st') n = fmlookup (st_numbers st1) n)
    \<and> st_blocks st' = st_blocks st1 \<and> st_states st' = st_states st1"
    using Cons.prems by (intro Cons.IH) (simp_all add: st1)
  then obtain st' where st': "adopt_all st1 ms = Inr st'" "tree_of st' = tree_of st1"
    "\<forall>h. canon st' h \<longleftrightarrow> canon st1 h \<or> h \<in> meta_Hash ` set ms"
    "\<forall>m\<in>set ms. fmlookup (st_numbers st') (meta_Number m) = fmlookup (st_blocks st1) (meta_Hash m)"
    "\<forall>n. n \<notin> meta_Number ` set ms \<longrightarrow> fmlookup (st_numbers st') n = fmlookup (st_numbers st1) n"
    "st_blocks st' = st_blocks st1" "st_states st' = st_states st1" by blast
  show ?case
    by (rule exI [of _ st']) (use st' st1 Cons.prems(3) b in auto)
qed simp

section \<open>Switching to another tip\<close>

text \<open>The marks and the numbers describe exactly the given path.\<close>

definition canonical_is :: "Store \<Rightarrow> BlockMeta list \<Rightarrow> bool" where
  "canonical_is st ms \<longleftrightarrow> (\<forall>h. canon st h \<longleftrightarrow> h \<in> meta_Hash ` set ms)
     \<and> (\<forall>m\<in>set ms. fmlookup (st_numbers st) (meta_Number m) = fmlookup (st_blocks st) (meta_Hash m))
     \<and> (\<forall>n. n \<notin> meta_Number ` set ms \<longrightarrow> fmlookup (st_numbers st) n = None)"

lemma canonical_is_strip: "canonical_is st (map strip ms) \<longleftrightarrow> canonical_is st ms"
  by (simp add: canonical_is_def image_image)

lemma path_metas:
  assumes "path (tree_of st) h ms" "tree_ok g (tree_of st)"
  obtains ks where "path (metas st) h ks" "ms = map strip ks"
proof (cases "h = []")
  case True
  then show ?thesis using assms that [of "[]"] by simp
next
  case False
  then obtain m xs where "ms = m # xs" using assms(1) by (cases ms) auto
  then obtain x where "metas st h = Some x" using assms(1) by (auto elim!: path_ConsE simp: tree_of_Some)
  then obtain ks where "path (metas st) h ks" using path_exists assms(2) tree_ok_strip by blast
  then show ?thesis using path_strip path_unique assms(1) that by blast
qed

lemma path_numbers_distinct:
  assumes "path T h ms" "tree_ok g T"
  shows "distinct (map meta_Number ms)"
proof -
  have "sorted_wrt (\<lambda>a b. unat (meta_Number b) < unat (meta_Number a)) xs \<Longrightarrow> distinct (map meta_Number xs)" for xs
    by (induction xs) auto
  then show ?thesis using path_sorted [OF assms] by blast
qed

lemma path_known: "path T h ms \<Longrightarrow> h \<noteq> [] \<Longrightarrow> T h \<noteq> None"
  by (auto elim: path.cases)

lemma path_head_mem: "path T h ms \<Longrightarrow> tree_ok g T \<Longrightarrow> h \<noteq> [] \<Longrightarrow> h \<in> meta_Hash ` set ms"
  by (erule path.cases) (auto dest: tree_okD(1))

lemma rewrite_switch:
  assumes ok: "tree_ok g (tree_of st)" and bodies: "bodies_ok st"
    and old: "path (tree_of st) h0 os" "h0 \<noteq> []" and new: "path (tree_of st) h1 ns" "h1 \<noteq> []"
    and flags: "\<And>h. canon st h \<Longrightarrow> h \<in> meta_Hash ` set os \<or> h = h1" "\<And>h. h \<in> meta_Hash ` set os \<Longrightarrow> canon st h"
    and nums: "\<And>m. m \<in> set os \<Longrightarrow> fmlookup (st_numbers st) (meta_Number m) = fmlookup (st_blocks st) (meta_Hash m)"
      "\<And>n. n \<notin> meta_Number ` set os \<Longrightarrow> fmlookup (st_numbers st) n = None"
  obtains st' where "rewriteCanonicalTip h0 h1 st = Some (Inr st')" "tree_of st' = tree_of st"
    "st_blocks st' = st_blocks st" "st_states st' = st_states st" "canonical_is st' ns"
proof -
  have ok': "tree_ok g (metas st)" using ok tree_ok_strip by blast
  obtain oks where oks: "path (metas st) h0 oks" "os = map strip oks" by (rule path_metas [OF old(1) ok])
  obtain nks where nks: "path (metas st) h1 nks" "ns = map strip nks" by (rule path_metas [OF new(1) ok])
  note known = path_known [OF oks(1) old(2)] path_known [OF nks(1) new(2)]
  obtain away join rest where paths: "reorgPaths st h0 h1 = Some (Inr (away, join))" "oks = away @ rest" "nks = join @ rest"
    "set (map meta_Hash join) \<inter> set (map meta_Hash oks) = {}" "rest \<noteq> []"
    by (rule reorgPaths_split [OF ok' oks(1) known(1) nks(1) known(2)])
  have mem: "tree_of st (meta_Hash m) = Some (strip m)" if "m \<in> set oks \<union> set nks" for m
    using that path_mem [OF oks(1) ok'] path_mem [OF nks(1) ok'] by (auto simp: tree_of_Some)
  have trim: "TrimSpace h1 \<noteq> []" using tree_okD [OF ok'] known(2) by fastforce
  define st1 where "st1 = fold retire away st"
  have st1: "tree_of st1 = tree_of st" "\<And>h. canon st1 h \<longleftrightarrow> canon st h \<and> h \<notin> meta_Hash ` set away"
    "\<And>n. fmlookup (st_numbers st1) n = (if n \<in> meta_Number ` set away then None else fmlookup (st_numbers st) n)"
    "st_blocks st1 = st_blocks st" "st_states st1 = st_states st"
    using retire_all [of away st] mem paths(2) by (simp_all add: st1_def)
  have dist: "distinct (map meta_Number oks)" "distinct (map meta_Number nks)"
    using path_numbers_distinct [OF _ ok'] oks(1) nks(1) by blast+
  have stored: "fmlookup (st_blocks st) (meta_Hash m) \<noteq> None" if "m \<in> set nks" for m
    using that mem bodies unfolding bodies_ok_def by fastforce
  obtain st' where st': "adopt_all st1 (rev join) = Inr st'" "tree_of st' = tree_of st"
    "\<And>h. canon st' h \<longleftrightarrow> canon st1 h \<or> h \<in> meta_Hash ` set join"
    "\<And>m. m \<in> set join \<Longrightarrow> fmlookup (st_numbers st') (meta_Number m) = fmlookup (st_blocks st) (meta_Hash m)"
    "\<And>n. n \<notin> meta_Number ` set join \<Longrightarrow> fmlookup (st_numbers st') n = fmlookup (st_numbers st1) n"
    "st_blocks st' = st_blocks st" "st_states st' = st_states st"
    using adopt_all_effect [of "rev join" st1] mem stored dist(2) paths(3) st1 by (auto simp: rev_map [symmetric])
  have h1: "h1 \<in> meta_Hash ` set nks" by (rule path_head_mem [OF nks(1) ok' new(2)])
  have os: "meta_Hash ` set os = meta_Hash ` set away \<union> meta_Hash ` set rest"
    by (simp add: oks(2) paths(2) image_image image_Un)
  have ns: "meta_Hash ` set nks = meta_Hash ` set join \<union> meta_Hash ` set rest" by (simp add: paths(3) image_Un)
  have "meta_Hash ` set away \<inter> meta_Hash ` set rest = {}"
    using path_distinct [OF oks(1) ok'] by (simp add: paths(2))
  then have flags': "canon st' h \<longleftrightarrow> h \<in> meta_Hash ` set nks" for h
    using st'(3) [of h] st1(2) [of h] flags [of h] h1 unfolding os ns by blast
  have "fmlookup (st_numbers st') (meta_Number m) = fmlookup (st_blocks st') (meta_Hash m)" if m: "m \<in> set nks" for m
  proof (cases "m \<in> set join")
    case False
    then have "m \<in> set rest" using m paths(3) by simp
    then have "meta_Number m \<notin> meta_Number ` set join" "meta_Number m \<notin> meta_Number ` set away" "strip m \<in> set os"
      using dist by (auto simp: oks(2) paths(2,3))
    then show ?thesis using st'(5,6) st1(3) nums(1) [of "strip m"] by simp
  qed (use st'(4,6) in simp)
  moreover have "fmlookup (st_numbers st') n = None" if "n \<notin> meta_Number ` set nks" for n
    using that st'(5) [of n] st1(3) [of n] nums(2) [of n] by (auto simp: oks(2) paths(2,3) image_Un image_image)
  ultimately have "canonical_is st' nks" using flags' by (simp add: canonical_is_def)
  moreover have "rewriteCanonicalTip h0 h1 st = Some (Inr st')"
    using trim paths(1) st'(1) by (simp add: rewriteCanonicalTip_def andThen_def st1_def)
  ultimately show ?thesis using that st' nks(2) canonical_is_strip by blast
qed

section \<open>Adding a block\<close>

lemma node_ok_mono: "node_ok g T h m \<Longrightarrow> T \<subseteq>\<^sub>m T' \<Longrightarrow> node_ok g T' h m"
  unfolding node_ok_def map_le_def by (metis domI)

lemma path_mono: "path T h ms \<Longrightarrow> T \<subseteq>\<^sub>m T' \<Longrightarrow> path T' h ms"
proof (induction rule: path.induct)
  case (path_step h m ms)
  then have "T' h = Some m" by (metis domI map_le_def)
  with path_step show ?case by (blast intro: path.path_step)
qed simp

lemma persistBlockArtifacts_simps [simp]:
  "st_metas (persistBlockArtifacts s b m st) = fmupd (blk_Hash b) m (st_metas st)"
  "st_blocks (persistBlockArtifacts s b m st) = fmupd (blk_Hash b) b (st_blocks st)"
  "st_states (persistBlockArtifacts s b m st) = fmupd (blk_Hash b) s (st_states st)"
  "st_numbers (persistBlockArtifacts s b m st) = st_numbers st"
  "st_latestHash (persistBlockArtifacts s b m st) = st_latestHash st"
  "st_latestNumber (persistBlockArtifacts s b m st) = st_latestNumber st"
  by (simp_all add: persistBlockArtifacts_def persistStateSnapshot_def)

text \<open>A block and its meta agree.\<close>

definition meta_matches :: "BlockMeta \<Rightarrow> Block \<Rightarrow> bool" where
  "meta_matches m b \<longleftrightarrow> meta_Hash m = blk_Hash b \<and> meta_Number m = hdr_Number (blk_Header b)
     \<and> meta_ParentHash m = hdr_ParentHash (blk_Header b)"

lemma add_block:
  assumes ok: "tree_ok g (tree_of st)" and bodies: "bodies_ok st" and fresh: "tree_of st (blk_Hash b) = None"
    and node: "node_ok g (tree_of st) (blk_Hash b) m" and match: "meta_matches m b"
  shows "tree_of st \<subseteq>\<^sub>m tree_of (persistBlockArtifacts s b m st)" "tree_ok g (tree_of (persistBlockArtifacts s b m st))"
    "bodies_ok (persistBlockArtifacts s b m st)"
    "tree_of (persistBlockArtifacts s b m st) = (tree_of st)(blk_Hash b \<mapsto> strip m)"
    "canon (persistBlockArtifacts s b m st) h \<longleftrightarrow> canon st h \<or> h = blk_Hash b \<and> meta_Canonical m"
proof -
  show tree: "tree_of (persistBlockArtifacts s b m st) = (tree_of st)(blk_Hash b \<mapsto> strip m)"
    by (simp add: tree_of_def fun_eq_iff)
  show le: "tree_of st \<subseteq>\<^sub>m tree_of (persistBlockArtifacts s b m st)"
    unfolding tree using fresh by (auto simp: map_le_def)
  have "node_ok g (tree_of st) (blk_Hash b) (strip m)" using node by (simp add: node_ok_def)
  then show "tree_ok g (tree_of (persistBlockArtifacts s b m st))"
    using ok node_ok_mono [OF _ le] unfolding tree_ok_def tree by (auto split: if_splits)
  show "bodies_ok (persistBlockArtifacts s b m st)"
    using bodies match unfolding bodies_ok_def tree meta_matches_def by (auto split: if_splits)
  have "\<not> canon st (blk_Hash b)" using fresh by (auto simp: canon_def tree_of_def)
  then show "canon (persistBlockArtifacts s b m st) h \<longleftrightarrow> canon st h \<or> h = blk_Hash b \<and> meta_Canonical m"
    by (auto simp: canon_def)
qed

section \<open>The invariant\<close>

definition chain_inv :: "string \<Rightarrow> Blockchain \<Rightarrow> bool" where
  "chain_inv g bc \<longleftrightarrow> tree_ok g (tree_of (bc_db bc)) \<and> bodies_ok (bc_db bc) \<and> meta_matches (bc_latestMeta bc) (bc_latest bc)
     \<and> metas (bc_db bc) (blk_Hash (bc_latest bc)) = Some (bc_latestMeta bc)
     \<and> fmlookup (st_blocks (bc_db bc)) (blk_Hash (bc_latest bc)) = Some (bc_latest bc)
     \<and> fmlookup (st_states (bc_db bc)) (blk_Hash (bc_latest bc)) = Some (bc_state bc)
     \<and> st_latestHash (bc_db bc) = Some (blk_Hash (bc_latest bc))
     \<and> (\<exists>ms. path (tree_of (bc_db bc)) (blk_Hash (bc_latest bc)) ms \<and> canonical_is (bc_db bc) ms)
     \<and> (\<forall>h m. tree_of (bc_db bc) h = Some m \<longrightarrow> \<not> isPreferredTip m (bc_latestMeta bc))"

lemma persistNetworkConfig_frame:
  assumes "persistNetworkConfig E net st = Inr st'"
  shows "tree_of st' = tree_of st" "canonical_is st' = canonical_is st" "bodies_ok st' = bodies_ok st"
    "st_metas st' = st_metas st" "st_blocks st' = st_blocks st" "st_states st' = st_states st" 
proof -
  obtain x where st': "st' = st\<lparr>st_network := Some x\<rparr>"
    using assms by (auto simp: persistNetworkConfig_def split: sum.splits)
  show tree: "tree_of st' = tree_of st" by (simp add: st' tree_of_def fun_eq_iff)
  show "canonical_is st' = canonical_is st" by (simp add: st' canonical_is_def canon_def fun_eq_iff)
  show "bodies_ok st' = bodies_ok st" "st_metas st' = st_metas st" "st_blocks st' = st_blocks st" "st_states st' = st_states st"
    by (simp_all add: bodies_ok_def tree) (simp_all add: st')
qed

lemma set_tip_frame [simp]:
  "tree_of (set_tip b st) = tree_of st" "canonical_is (set_tip b st) = canonical_is st" "bodies_ok (set_tip b st) = bodies_ok st"
  "st_metas (set_tip b st) = st_metas st" "st_blocks (set_tip b st) = st_blocks st" "st_states (set_tip b st) = st_states st"
  "st_latestHash (set_tip b st) = Some (blk_Hash b)"
  by (simp_all add: set_tip_def tree_of_def canonical_is_def canon_def bodies_ok_def fun_eq_iff)

lemma bodies_ok_same:
  "tree_of st' = tree_of st \<Longrightarrow> st_blocks st' = st_blocks st \<Longrightarrow> st_states st' = st_states st \<Longrightarrow> bodies_ok st' = bodies_ok st"
  by (simp add: bodies_ok_def)

text \<open>Making a new block the tip, as mining and importing do.\<close>

lemma extend_tip:
  assumes inv: "chain_inv g bc" and fresh: "tree_of (bc_db bc) (blk_Hash b) = None"
    and node: "node_ok g (tree_of (bc_db bc)) (blk_Hash b) m" and match: "meta_matches m b" and flag: "meta_Canonical m"
    and best: "isPreferredTip m (bc_latestMeta bc)"
  shows "\<exists>st1. rewriteCanonicalTip (meta_Hash (bc_latestMeta bc)) (meta_Hash m) (persistBlockArtifacts s b m (bc_db bc)) = Some (Inr st1)
    \<and> (\<forall>st2. persistNetworkConfig E (bc_network bc) st1 = Inr st2 \<longrightarrow>
         chain_inv g (bc\<lparr>bc_db := set_tip b st2, bc_state := s, bc_latest := b, bc_latestMeta := m\<rparr>)
         \<and> tree_of st2 = (tree_of (bc_db bc))(blk_Hash b \<mapsto> strip m))"
proof -
  let ?st0 = "persistBlockArtifacts s b m (bc_db bc)"
  have ok: "tree_ok g (tree_of (bc_db bc))" and bodies: "bodies_ok (bc_db bc)"
    and m0: "meta_Hash (bc_latestMeta bc) = blk_Hash (bc_latest bc)" "metas (bc_db bc) (blk_Hash (bc_latest bc)) = Some (bc_latestMeta bc)"
    and unbeaten: "\<And>h x. tree_of (bc_db bc) h = Some x \<Longrightarrow> \<not> isPreferredTip x (bc_latestMeta bc)"
    using inv by (auto simp: chain_inv_def meta_matches_def)
  obtain os where os: "path (tree_of (bc_db bc)) (blk_Hash (bc_latest bc)) os" "canonical_is (bc_db bc) os"
    using inv by (auto simp: chain_inv_def)
  note add = add_block [OF ok bodies fresh node match, of s]
  have old: "path (tree_of ?st0) (blk_Hash (bc_latest bc)) os" by (rule path_mono [OF os(1) add(1)])
  have new: "tree_of ?st0 (blk_Hash b) = Some (strip m)" by (simp add: add(4))
  then obtain ks where ns: "path (tree_of ?st0) (blk_Hash b) (strip m # ks)" using path_exists [OF add(2)] by blast
  have ne: "blk_Hash (bc_latest bc) \<noteq> []" "blk_Hash b \<noteq> []"
    using tree_okD(2) [OF ok, of "blk_Hash (bc_latest bc)"] m0(2) node by (auto simp: tree_of_Some node_ok_def)
  have mh: "meta_Hash m = blk_Hash b" using match by (simp add: meta_matches_def)
  have blocks: "fmlookup (st_blocks ?st0) (meta_Hash x) = fmlookup (st_blocks (bc_db bc)) (meta_Hash x)" if "x \<in> set os" for x
    using path_mem [OF os(1) ok that] fresh by auto
  obtain st1 where st1: "rewriteCanonicalTip (blk_Hash (bc_latest bc)) (blk_Hash b) ?st0 = Some (Inr st1)" "tree_of st1 = tree_of ?st0"
    "st_blocks st1 = st_blocks ?st0" "st_states st1 = st_states ?st0" "canonical_is st1 (strip m # ks)"
  proof (rule rewrite_switch [OF add(2,3) old ne(1) ns ne(2)])
    show "h \<in> meta_Hash ` set os \<or> h = blk_Hash b" if "canon ?st0 h" for h
      using that os(2) unfolding add(5) canonical_is_def by blast
    show "canon ?st0 h" if "h \<in> meta_Hash ` set os" for h
      using that os(2) unfolding add(5) canonical_is_def by blast
    show "fmlookup (st_numbers ?st0) (meta_Number x) = fmlookup (st_blocks ?st0) (meta_Hash x)" if "x \<in> set os" for x
      using that os(2) blocks [OF that] unfolding canonical_is_def by simp
    show "fmlookup (st_numbers ?st0) n = None" if "n \<notin> meta_Number ` set os" for n
      using that os(2) unfolding canonical_is_def by simp
  qed
  have "canon st1 (blk_Hash b)" using st1(5) mh by (simp add: canonical_is_def)
  moreover have "\<exists>x. metas st1 (blk_Hash b) = Some x \<and> strip x = strip m"
    using new unfolding st1(2) [symmetric] tree_of_Some by auto
  ultimately have meta1: "metas st1 (blk_Hash b) = Some m"
    using flag strip_eqD by (auto simp: canon_def)
  have unbeaten1: "\<not> isPreferredTip x m" if "tree_of st1 h = Some x" for h x
  proof (cases "h = blk_Hash b")
    case True
    then have "x = strip m" using that st1(2) new by simp
    then show ?thesis using tip.better_irrefl [of m] by simp
  next
    case False
    then have "\<not> isPreferredTip x (bc_latestMeta bc)" using that st1(2) add(4) unbeaten by simp
    then show ?thesis using best tip.better_trans by blast
  qed
  have "chain_inv g (bc\<lparr>bc_db := set_tip b st2, bc_state := s, bc_latest := b, bc_latestMeta := m\<rparr>)"
    if net: "persistNetworkConfig E (bc_network bc) st1 = Inr st2" for st2
    using persistNetworkConfig_frame [OF net] st1 add(2,3) match meta1 unbeaten1 ns bodies_ok_same [OF st1(2-4)]
    unfolding chain_inv_def by auto
  then show ?thesis using st1(1,2) add(4) m0(1) mh persistNetworkConfig_frame(1) by fastforce
qed

section \<open>Mining and importing keep the invariant\<close>

lemma hex_encode_visible: "c \<in> set (hex_encode bs) \<Longrightarrow> visible c"
proof -
  assume "c \<in> set (hex_encode bs)"
  then obtain b where "c = hex_digit (byte b div 16) \<or> c = hex_digit (byte b mod 16)"
    by (auto simp: hex_encode_def)
  moreover have "byte b div 16 < 16" using byte_less [of b] by (simp add: less_mult_imp_div_less)
  ultimately obtain n where "hex_value c = Some n" using hex_value_digit by fastforce
  then show "visible c" by (auto simp: hex_value_def visible_def Let_def split: if_splits)
qed

lemma block_hash_shape:
  assumes "sha256_len E"
  shows "computeBlockHash E b \<noteq> []" "TrimSpace (computeBlockHash E b) = computeBlockHash E b"
proof -
  show "computeBlockHash E b \<noteq> []"
    using assms length_hex_encode [of "sha256 E (json_marshal E (header_json (blk_Header b)))"]
    unfolding computeBlockHash_def sha256_len_def by (metis list.size(3) mult_eq_0_iff zero_neq_numeral)
  show "TrimSpace (computeBlockHash E b) = computeBlockHash E b"
    unfolding computeBlockHash_def by (intro TrimSpace_visible) (metis hex_encode_visible hd_in_set last_in_set)
qed

text \<open>The meta a prepared block gets.\<close>

definition prepared_meta :: "preparedBlock \<Rightarrow> BlockMeta \<Rightarrow> bool \<Rightarrow> BlockMeta" where
  "prepared_meta pb parentMeta canonical =
     \<lparr>meta_Hash = blk_Hash (pb_Block pb), meta_ParentHash = hdr_ParentHash (blk_Header (pb_Block pb)),
      meta_Number = hdr_Number (blk_Header (pb_Block pb)), meta_Work = show_int (pb_Work pb),
      meta_CumulativeWork = show_int (CumulativeWorkBig parentMeta + pb_Work pb), meta_Canonical = canonical\<rparr>"

lemma prepared_meta_simps [simp]:
  "meta_Hash (prepared_meta pb pm c) = blk_Hash (pb_Block pb)" "meta_Canonical (prepared_meta pb pm c) = c"
  "(prepared_meta pb pm c)\<lparr>meta_Canonical := d\<rparr> = prepared_meta pb pm d" "meta_matches (prepared_meta pb pm c) (pb_Block pb)"
  "isPreferredTip (prepared_meta pb pm True) x = isPreferredTip (prepared_meta pb pm False) x"
  by (simp_all add: prepared_meta_def meta_matches_def isPreferredTip_def CumulativeWorkBig_def)

lemma prepared_fields:
  assumes "prepareBlock E parent (Some st) block arch = Inr pb"
  shows "hdr_Number (blk_Header (pb_Block pb)) = hdr_Number (blk_Header parent) + 1"
    "hdr_ParentHash (blk_Header (pb_Block pb)) = blk_Hash parent" "hdr_Number (blk_Header block) = hdr_Number (blk_Header parent) + 1"
    "hdr_ParentHash (blk_Header block) = blk_Hash parent" "blk_Hash block \<noteq> [] \<Longrightarrow> blk_Hash (pb_Block pb) = blk_Hash block"
    "blk_Hash (pb_Block pb) = computeBlockHash E (pb_Block pb)"
  using assms by (auto elim!: prepareBlock_Inr)

lemma prepared_node:
  assumes prep: "prepareBlock E parent (Some st) block arch = Inr pb" and "sha256_len E"
    and parent: "T (blk_Hash parent) = Some pm" "meta_Number pm = hdr_Number (blk_Header parent)" "blk_Hash parent \<noteq> []"
    and wrap: "hdr_Number (blk_Header (pb_Block pb)) \<noteq> 0"
  shows "node_ok g T (blk_Hash (pb_Block pb)) (prepared_meta pb x c)"
proof -
  note pb = prepared_fields [OF prep]
  have "unat (1 + meta_Number pm) = Suc (unat (meta_Number pm))"
    using wrap parent(2) pb(1) by (intro unatSuc) (simp add: add.commute)
  then show ?thesis
    using parent block_hash_shape [OF assms(2), of "pb_Block pb"] pb(1,2,6)
    by (simp add: node_ok_def prepared_meta_def add.commute)
qed

lemma latest_facts:
  assumes "chain_inv g bc"
  shows "blk_Hash (bc_latest bc) \<noteq> []" "tree_of (bc_db bc) (blk_Hash (bc_latest bc)) = Some (strip (bc_latestMeta bc))"
    "meta_Number (bc_latestMeta bc) = hdr_Number (blk_Header (bc_latest bc))"
    "meta_Hash (bc_latestMeta bc) = blk_Hash (bc_latest bc)" "TrimSpace (blk_Hash (bc_latest bc)) = blk_Hash (bc_latest bc)"
proof -
  show t: "tree_of (bc_db bc) (blk_Hash (bc_latest bc)) = Some (strip (bc_latestMeta bc))"
    using assms by (simp add: chain_inv_def tree_of_def)
  have "tree_ok g (tree_of (bc_db bc))" using assms by (simp add: chain_inv_def)
  from tree_okD [OF this t]
  show "blk_Hash (bc_latest bc) \<noteq> []" "TrimSpace (blk_Hash (bc_latest bc)) = blk_Hash (bc_latest bc)" by simp_all
  show "meta_Number (bc_latestMeta bc) = hdr_Number (blk_Header (bc_latest bc))"
    "meta_Hash (bc_latestMeta bc) = blk_Hash (bc_latest bc)"
    using assms by (simp_all add: chain_inv_def meta_matches_def)
qed

text \<open>Reading by hash sees the store, whatever the in-memory shortcuts.\<close>

lemma reads_through:
  assumes "chain_inv g bc" and "TrimSpace h \<noteq> []"
  shows "getBlockByHashLocked bc h = loadBlockTxn (bc_db bc) h" "getBlockMetaLocked bc h = loadBlockMetaTxn (bc_db bc) h"
    "getStateSnapshotLocked bc h = loadStateSnapshotTxn (bc_db bc) h"
    "hasBlockMetaLocked bc h \<longleftrightarrow> tree_of (bc_db bc) h \<noteq> None"
  using assms latest_facts [OF assms(1)]
  by (auto simp: getBlockByHashLocked_def getBlockMetaLocked_def getStateSnapshotLocked_def hasBlockMetaLocked_def
      chain_inv_def loadBlockTxn_def loadBlockMetaTxn_def loadStateSnapshotTxn_def tree_of_def split: option.splits)

text \<open>The block mining starts from.\<close>

definition mining_block :: "env \<Rightarrow> Blockchain \<Rightarrow> string \<Rightarrow> Transaction list \<Rightarrow> CrawlProof list \<Rightarrow> Block" where
  "mining_block E bc miner txs proofs =
     zero_Block\<lparr>blk_Header := zero_BlockHeader\<lparr>hdr_Number := hdr_Number (blk_Header (bc_latest bc)) + 1,
       hdr_ParentHash := blk_Hash (bc_latest bc), hdr_Timestamp := now E, hdr_Miner := miner\<rparr>,
       blk_Body := \<lparr>body_Transactions = txs, body_CrawlProofs = proofs\<rparr>\<rparr>"

lemma MineBlock_unfold: "MineBlock E bc miner txs proofs =
  (case prepareBlock E (bc_latest bc) (Some (bc_state bc)) (mining_block E bc miner txs proofs) (net_ArchitectAddress (bc_network bc)) of
     Inl e \<Rightarrow> Some (Inl e)
   | Inr pb \<Rightarrow> andThen (persistCanonicalTipLocked E bc (pb_State pb) (pb_Block pb) (prepared_meta pb (bc_latestMeta bc) True))
       (\<lambda>bc'. Some (Inr (bc', pb_Block pb))))"
  unfolding MineBlock_def Let_def mining_block_def prepared_meta_def by (rule refl)

lemma MineBlock_step:
  assumes inv: "chain_inv g bc" and sha: "sha256_len E" and room: "hdr_Number (blk_Header (bc_latest bc)) \<noteq> - 1"
    and fresh: "\<And>pb. prepareBlock E (bc_latest bc) (Some (bc_state bc)) (mining_block E bc miner txs proofs)
       (net_ArchitectAddress (bc_network bc)) = Inr pb \<Longrightarrow> tree_of (bc_db bc) (blk_Hash (pb_Block pb)) = None"
  shows "\<exists>r. MineBlock E bc miner txs proofs = Some r \<and> (\<forall>bc' b. r = Inr (bc', b) \<longrightarrow>
     chain_inv g bc' \<and> bc_latest bc' = b \<and> hdr_ParentHash (blk_Header b) = blk_Hash (bc_latest bc))
     \<and> (\<forall>pb x. prepareBlock E (bc_latest bc) (Some (bc_state bc)) (mining_block E bc miner txs proofs)
             (net_ArchitectAddress (bc_network bc)) = Inr pb \<longrightarrow> NormalizeNetworkConfig E (bc_network bc) = Inr x \<longrightarrow>
          (\<exists>bc'. r = Inr (bc', pb_Block pb)))"
proof -
  let ?prep = "prepareBlock E (bc_latest bc) (Some (bc_state bc)) (mining_block E bc miner txs proofs) (net_ArchitectAddress (bc_network bc))"
  note unfold = MineBlock_unfold [of E bc miner txs proofs]
  show ?thesis
  proof (cases ?prep)
    case (Inr pb)
    let ?m = "prepared_meta pb (bc_latestMeta bc) True"
    note pb = prepared_fields [OF Inr]
    have "hdr_Number (blk_Header (pb_Block pb)) \<noteq> 0"
      using room unfolding pb(1) by (metis add_eq_0_iff add.commute)
    then have node: "node_ok g (tree_of (bc_db bc)) (blk_Hash (pb_Block pb)) ?m"
      using prepared_node [where T = "tree_of (bc_db bc)", OF Inr sha latest_facts(2) [OF inv]] latest_facts [OF inv] by simp
    have pref: "isPreferredTip ?m (bc_latestMeta bc)"
      using prepared_child_preferred [OF Inr, of "bc_latestMeta bc" ?m] latest_facts [OF inv] room
      by (simp add: prepared_meta_def)
    obtain stA where stA: "rewriteCanonicalTip (meta_Hash (bc_latestMeta bc)) (meta_Hash ?m)
        (persistBlockArtifacts (pb_State pb) (pb_Block pb) ?m (bc_db bc)) = Some (Inr stA)"
      and inv': "\<And>st2. persistNetworkConfig E (bc_network bc) stA = Inr st2 \<Longrightarrow>
         chain_inv g (bc\<lparr>bc_db := set_tip (pb_Block pb) st2, bc_state := pb_State pb, bc_latest := pb_Block pb, bc_latestMeta := ?m\<rparr>)"
      using extend_tip [OF inv fresh [OF Inr] node, of "pb_State pb" E] pref by auto
    note par = pb(2)
    show ?thesis
      unfolding unfold Inr
      by (cases "persistNetworkConfig E (bc_network bc) stA")
        (use stA inv' par in \<open>auto simp: persistCanonicalTipLocked_def andThen_def persistNetworkConfig_def split: sum.splits\<close>)
  qed (simp add: unfold)
qed

lemma hasBlockMeta_tree: "chain_inv g bc \<Longrightarrow> hasBlockMetaLocked bc h \<Longrightarrow> tree_of (bc_db bc) h \<noteq> None"
  using reads_through(4) [of g bc h] by (cases "TrimSpace h = []") (auto simp: hasBlockMetaLocked_def)

lemma store_side_block:
  assumes inv: "chain_inv g bc" and fresh: "tree_of (bc_db bc) (blk_Hash b) = None"
    and node: "node_ok g (tree_of (bc_db bc)) (blk_Hash b) m" and match: "meta_matches m b" and flag: "\<not> meta_Canonical m"
    and worse: "\<not> isPreferredTip m (bc_latestMeta bc)"
  shows "chain_inv g (bc\<lparr>bc_db := persistBlockArtifacts s b m (bc_db bc)\<rparr>)"
proof -
  have ok: "tree_ok g (tree_of (bc_db bc))" and bodies: "bodies_ok (bc_db bc)" using inv by (simp_all add: chain_inv_def)
  note add = add_block [OF ok bodies fresh node match, of s]
  obtain os where os: "path (tree_of (bc_db bc)) (blk_Hash (bc_latest bc)) os" "canonical_is (bc_db bc) os"
    using inv by (auto simp: chain_inv_def)
  have other: "blk_Hash (bc_latest bc) \<noteq> blk_Hash b" using latest_facts(2) [OF inv] fresh by auto
  have blocks: "meta_Hash x \<noteq> blk_Hash b" if "x \<in> set os" for x
    using path_mem [OF os(1) ok that] fresh by auto
  then have "canonical_is (persistBlockArtifacts s b m (bc_db bc)) os"
    using os(2) flag unfolding canonical_is_def add(5) by fastforce
  moreover have "\<not> isPreferredTip x (bc_latestMeta bc)" if "tree_of (persistBlockArtifacts s b m (bc_db bc)) h = Some x" for h x
    using that worse inv by (auto simp: add(4) chain_inv_def split: if_splits)
  ultimately show ?thesis
    using inv add(2,3) path_mono [OF os(1) add(1)] other unfolding chain_inv_def by auto
qed

lemma ImportBlock_cases:
  obtains (rejected) e where "ImportBlock E bc block = Some (Inl e)"
  | (known) "hasBlockMetaLocked bc (blk_Hash block)" "ImportBlock E bc block = Some (Inr bc)"
  | (added) parent pm st pb better where "\<not> hasBlockMetaLocked bc (blk_Hash block)" "blk_Hash block \<noteq> []"
      "getBlockByHashLocked bc (hdr_ParentHash (blk_Header block)) = Inr parent"
      "getBlockMetaLocked bc (hdr_ParentHash (blk_Header block)) = Inr pm"
      "prepareBlock E parent (Some st) block (net_ArchitectAddress (bc_network bc)) = Inr pb"
      "better = isPreferredTip (prepared_meta pb pm False) (bc_latestMeta bc)"
      "ImportBlock E bc block = storeImportedBlockLocked E bc (pb_State pb) (pb_Block pb) (prepared_meta pb pm better) better"
      "getStateSnapshotLocked bc (hdr_ParentHash (blk_Header block)) = Inr st"
proof -
  define h where "h = hdr_ParentHash (blk_Header block)"
  let ?prep = "\<lambda>parent st. prepareBlock E parent (Some st) block (net_ArchitectAddress (bc_network bc))"
  have unfold: "ImportBlock E bc block =
     (if blk_Hash block = [] then Some (Inl ErrInvalidBlock)
      else if hasBlockMetaLocked bc (blk_Hash block) then Some (Inr bc)
      else (case getBlockByHashLocked bc h of Inl e \<Rightarrow> Some (Inl e) | Inr parent \<Rightarrow>
        (case getBlockMetaLocked bc h of Inl e \<Rightarrow> Some (Inl e) | Inr pm \<Rightarrow>
        (case getStateSnapshotLocked bc h of Inl e \<Rightarrow> Some (Inl e) | Inr st \<Rightarrow>
        (case ?prep parent st of Inl e \<Rightarrow> Some (Inl e) | Inr pb \<Rightarrow>
           let better = isPreferredTip (prepared_meta pb pm False) (bc_latestMeta bc)
           in storeImportedBlockLocked E bc (pb_State pb) (pb_Block pb) (prepared_meta pb pm better) better)))))"
    unfolding ImportBlock_def Let_def h_def prepared_meta_def by (simp cong: sum.case_cong if_cong)
  show ?thesis
  proof (cases "blk_Hash block = [] \<or> hasBlockMetaLocked bc (blk_Hash block)")
    case True
    then show ?thesis using rejected known by (cases "blk_Hash block = []") (simp_all add: unfold)
  next
    case new: False
    show ?thesis
    proof (cases "getBlockByHashLocked bc h")
      case parent: (Inr parent)
      show ?thesis
      proof (cases "getBlockMetaLocked bc h")
        case pm: (Inr pm)
        show ?thesis
        proof (cases "getStateSnapshotLocked bc h")
          case st: (Inr st)
          show ?thesis
          proof (cases "?prep parent st")
            case (Inr pb)
            then show ?thesis using added [OF _ _ _ _ Inr refl] new parent pm st by (simp add: unfold Let_def h_def)
          qed (use rejected new parent pm st in \<open>simp add: unfold\<close>)
        qed (use rejected new parent pm in \<open>simp add: unfold\<close>)
      qed (use rejected new parent in \<open>simp add: unfold\<close>)
    qed (use rejected new in \<open>simp add: unfold\<close>)
  qed
qed

lemma ImportBlock_step:
  assumes inv: "chain_inv g bc" and sha: "sha256_len E" and room: "hdr_Number (blk_Header block) \<noteq> 0"
  shows "\<exists>r. ImportBlock E bc block = Some r \<and> (\<forall>bc'. r = Inr bc' \<longrightarrow>
     chain_inv g bc' \<and> dom (tree_of (bc_db bc')) = insert (blk_Hash block) (dom (tree_of (bc_db bc))))"
proof (cases rule: ImportBlock_cases [of E bc block, case_names rejected known added])
  case (added parent pm st pb better)
  let ?m = "prepared_meta pb pm better"
  note pb = prepared_fields [OF added(5)]
  have hash: "blk_Hash (pb_Block pb) = blk_Hash block" using pb(5) added(2) by simp
  have ph: "TrimSpace (hdr_ParentHash (blk_Header block)) \<noteq> []"
    using added(3) by (auto simp: getBlockByHashLocked_def)
  have "loadBlockMetaTxn (bc_db bc) (blk_Hash parent) = Inr pm"
    using added(4) reads_through(2) [OF inv ph] pb(4) by simp
  then have px: "tree_of (bc_db bc) (blk_Hash parent) = Some (strip pm)"
    by (simp add: loadBlockMetaTxn_def tree_of_def split: option.splits)
  have "loadBlockTxn (bc_db bc) (blk_Hash parent) = Inr parent"
    using added(3) reads_through(1) [OF inv ph] pb(4) by simp
  then have "fmlookup (st_blocks (bc_db bc)) (blk_Hash parent) = Some parent"
    by (simp add: loadBlockTxn_def split: option.splits)
  then have pn: "meta_Number (strip pm) = hdr_Number (blk_Header parent)"
    using inv px unfolding chain_inv_def bodies_ok_def by fastforce
  have pne: "blk_Hash parent \<noteq> []" using inv px tree_okD(2) unfolding chain_inv_def by blast
  have node: "node_ok g (tree_of (bc_db bc)) (blk_Hash (pb_Block pb)) ?m"
    using prepared_node [where T = "tree_of (bc_db bc)", OF added(5) sha px pn pne] pb(1,3) room by simp
  have "TrimSpace (blk_Hash block) \<noteq> []" using node hash by (simp add: node_ok_def)
  then have fresh: "tree_of (bc_db bc) (blk_Hash (pb_Block pb)) = None"
    using added(1) reads_through(4) [OF inv] by (simp add: hash)
  show ?thesis
  proof (cases better)
    case True
    obtain stA where "rewriteCanonicalTip (meta_Hash (bc_latestMeta bc)) (meta_Hash ?m)
        (persistBlockArtifacts (pb_State pb) (pb_Block pb) ?m (bc_db bc)) = Some (Inr stA)"
      and "\<And>st2. persistNetworkConfig E (bc_network bc) stA = Inr st2 \<Longrightarrow>
         chain_inv g (bc\<lparr>bc_db := set_tip (pb_Block pb) st2, bc_state := pb_State pb, bc_latest := pb_Block pb, bc_latestMeta := ?m\<rparr>)
         \<and> tree_of st2 = (tree_of (bc_db bc))(blk_Hash (pb_Block pb) \<mapsto> strip ?m)"
      using extend_tip [OF inv fresh node, of "pb_State pb" E] True added(6) by auto
    then show ?thesis unfolding added(7)
      by (cases "persistNetworkConfig E (bc_network bc) stA")
        (use True hash in \<open>simp_all add: storeImportedBlockLocked_def Let_def andThen_def\<close>)
  next
    case False
    have "chain_inv g (bc\<lparr>bc_db := persistBlockArtifacts (pb_State pb) (pb_Block pb) ?m (bc_db bc)\<rparr>)"
      using store_side_block [OF inv fresh node] False added(6) by simp
    moreover have "dom (tree_of (persistBlockArtifacts (pb_State pb) (pb_Block pb) ?m (bc_db bc))) =
        insert (blk_Hash block) (dom (tree_of (bc_db bc)))"
      using hash by (auto simp: tree_of_def)
    ultimately show ?thesis unfolding added(7)
      using False by (simp add: storeImportedBlockLocked_def Let_def)
  qed
qed (use inv hasBlockMeta_tree [OF inv] in \<open>auto simp: dom_def\<close>)

section \<open>The genesis establishes the invariant\<close>

lemma open_new:
  assumes "NormalizeNetworkConfig E config = Inr network"
  shows "OpenBlockchain E empty_store config balances =
    start_genesis E network balances \<lparr>bc_db = empty_store, bc_state = NewStateSnapshot, bc_latest = zero_Block,
      bc_latestMeta = zero_BlockMeta, bc_network = network\<rparr>"
  using assms
  by (simp add: OpenBlockchain_def loadLocked_def load_network_def load_tip_def load_legacy_def empty_store_def zero_Block_def)

lemma open_new_inv:
  assumes "OpenBlockchain E empty_store config balances = Some (Inr bc)" and "sha256_len E"
  shows "chain_inv (blk_Hash (bc_latest bc)) bc"
proof -
  define state where "state = genesis_state NewStateSnapshot balances"
  obtain chain where chain: "bc_db chain = empty_store" "bc_latestMeta chain = zero_BlockMeta"
    and run: "let genesis = genesis_block E (ArchitectAddress chain) state in
      persistCanonicalTipLocked E chain state genesis \<lparr>meta_Hash = blk_Hash genesis, meta_ParentHash = [],
        meta_Number = 0, meta_Work = ''0'', meta_CumulativeWork = ''0'', meta_Canonical = True\<rparr> = Some (Inr bc)"
  proof (cases "NormalizeNetworkConfig E config")
    case (Inr network)
    let ?net = "if TrimSpace (net_GenesisAddress network) = []
      then network\<lparr>net_GenesisAddress := inferGenesisAddress balances (net_ArchitectAddress network)\<rparr> else network"
    show ?thesis
      using that [of "\<lparr>bc_db = empty_store, bc_state = state, bc_latest = zero_Block,
          bc_latestMeta = zero_BlockMeta, bc_network = ?net\<rparr>"] assms(1)
      unfolding open_new [OF Inr] start_genesis_def Let_def by (simp add: state_def)
  qed (use assms(1) in \<open>simp add: OpenBlockchain_def\<close>)
  define genesis where "genesis = genesis_block E (ArchitectAddress chain) (state)"
  define meta where "meta = \<lparr>meta_Hash = blk_Hash genesis, meta_ParentHash = [], meta_Number = 0, meta_Work = ''0'',
                      meta_CumulativeWork = ''0'', meta_Canonical = True\<rparr>"
  note meta = meta_def
  have genesis: "hdr_Number (blk_Header genesis) = 0" "hdr_ParentHash (blk_Header genesis) = []" "blk_Hash genesis = computeBlockHash E genesis"
    by (simp_all add: genesis_def genesis_block_def Let_def zero_Block_def zero_BlockHeader_def computeBlockHash_def)
  note run = run [unfolded Let_def, folded genesis_def, folded meta_def]
  let ?st0 = "persistBlockArtifacts (state) genesis meta empty_store"
  have hash: "blk_Hash genesis \<noteq> []" "TrimSpace (blk_Hash genesis) = blk_Hash genesis"
    unfolding genesis(3) by (rule block_hash_shape [OF assms(2)])+
  obtain st1 where st1: "adopt ?st0 meta = Inr st1" "tree_of st1 = tree_of ?st0" "\<And>h. canon st1 h \<longleftrightarrow> canon ?st0 h \<or> h = meta_Hash meta"
    "\<And>n. fmlookup (st_numbers st1) n = (if n = meta_Number meta then Some genesis else fmlookup (st_numbers ?st0) n)"
    "st_blocks st1 = st_blocks ?st0" "st_states st1 = st_states ?st0"
    by (rule adopt_effect [of ?st0 meta meta genesis]) (simp_all add: meta)
  have "rewriteCanonicalTip [] (blk_Hash genesis) ?st0 = Some (Inr st1)"
    using hash st1(1) by (simp add: rewriteCanonicalTip_def reorgPaths_def andThen_def loadBlockMetaTxn_def)
  then obtain st2 where net: "persistNetworkConfig E (bc_network chain) st1 = Inr st2"
    and bc: "bc = chain\<lparr>bc_db := set_tip genesis st2, bc_state := state, bc_latest := genesis, bc_latestMeta := meta\<rparr>"
    using run chain by (auto simp: persistCanonicalTipLocked_def andThen_def meta zero_BlockMeta_def split: sum.splits)
  have ok0: "tree_ok (blk_Hash genesis) (tree_of empty_store)" "bodies_ok empty_store" "tree_of empty_store (blk_Hash genesis) = None"
    by (simp_all add: tree_ok_def bodies_ok_def tree_of_def empty_store_def)
  have node: "node_ok (blk_Hash genesis) (tree_of empty_store) (blk_Hash genesis) meta" "meta_matches meta genesis"
    using hash genesis by (simp_all add: node_ok_def meta meta_matches_def)
  note add = add_block [OF ok0 node, of "state"]
  have tree: "tree_of ?st0 = [blk_Hash genesis \<mapsto> strip meta]"
    unfolding add(4) by (simp add: tree_of_def empty_store_def fun_eq_iff)
  have path: "path (tree_of ?st0) (blk_Hash genesis) [strip meta]"
    using hash by (auto intro!: path_step simp: tree) (simp add: meta)
  have can: "canonical_is st1 [strip meta]"
    using st1(3,4,5) by (auto simp: canonical_is_def add(5) meta canon_def empty_store_def)
  have "canon st1 (blk_Hash genesis)" using st1(3) by (simp add: meta)
  moreover have "\<exists>x. metas st1 (blk_Hash genesis) = Some x \<and> strip x = strip meta"
    using fun_cong [OF tree, of "blk_Hash genesis"] unfolding st1(2) [symmetric] tree_of_def by auto
  ultimately have meta1: "metas st1 (blk_Hash genesis) = Some meta"
    using strip_eqD [of _ meta] by (auto simp: canon_def meta)
  show ?thesis
    using persistNetworkConfig_frame [OF net] st1(2,5,6) add(2,3) node(2) meta1 path can bodies_ok_same [OF st1(2,5,6)] tip.better_irrefl
    unfolding chain_inv_def bc by (auto simp: tree split: if_splits)
qed

section \<open>Reading the canonical chain\<close>

lemma path_parent:
  "path T h ms \<Longrightarrow> tree_ok g T \<Longrightarrow> m \<in> set ms \<Longrightarrow> meta_ParentHash m \<noteq> [] \<Longrightarrow>
   \<exists>p\<in>set ms. meta_Hash p = meta_ParentHash m \<and> unat (meta_Number m) = Suc (unat (meta_Number p))"
proof (induction rule: path.induct)
  case (path_step h x ms)
  show ?case
  proof (cases "m = x")
    case True
    then obtain p where p: "T (meta_ParentHash m) = Some p" "unat (meta_Number m) = Suc (unat (meta_Number p))"
      using tree_okD(5) [OF path_step.prems(1)] path_step by blast
    have "p \<in> set ms" using path_step.hyps(3) p(1) path_step.prems(3) True by (auto elim: path.cases)
    then show ?thesis using p tree_okD(1) [OF path_step.prems(1)] by auto
  qed (use path_step in auto)
qed simp

lemma path_level:
  assumes "path T h ms" "tree_ok g T" "x \<in> set ms" "n \<le> unat (meta_Number x)"
  shows "\<exists>m\<in>set ms. unat (meta_Number m) = n"
  using assms(3,4)
proof (induction "unat (meta_Number x)" arbitrary: x)
  case 0
  then show ?case by auto
next
  case (Suc k)
  show ?case
  proof (cases "n = Suc k")
    case False
    have "T (meta_Hash x) = Some x" by (rule path_mem [OF assms(1,2) Suc.prems(1)])
    then have "meta_ParentHash x \<noteq> []" using tree_okD(4) [OF assms(2)] Suc.hyps(2) by fastforce
    then obtain p where "p \<in> set ms" "unat (meta_Number x) = Suc (unat (meta_Number p))"
      using path_parent [OF assms(1,2) Suc.prems(1)] by blast
    then show ?thesis using Suc False by auto
  qed (use Suc in auto)
qed

lemma number_reads:
  assumes inv: "chain_inv g bc" and p: "path (tree_of (bc_db bc)) (blk_Hash (bc_latest bc)) ms" "canonical_is (bc_db bc) ms"
  shows "GetBlockByNumber bc n = Inr b \<longleftrightarrow>
    (\<exists>m\<in>set ms. meta_Number m = n \<and> fmlookup (st_blocks (bc_db bc)) (meta_Hash m) = Some b)" (is "_ \<longleftrightarrow> ?R")
proof -
  have ok: "tree_ok g (tree_of (bc_db bc))" and latest: "fmlookup (st_blocks (bc_db bc)) (blk_Hash (bc_latest bc)) = Some (bc_latest bc)"
    using inv by (simp_all add: chain_inv_def)
  let ?tip = "strip (bc_latestMeta bc)"
  have tip: "?tip \<in> set ms"
    using p(1) latest_facts [OF inv] by (auto elim: path.cases)
  have uniq: "a = c" if "a \<in> set ms" "c \<in> set ms" "meta_Number a = meta_Number c" for a c
    using sorted_numbers_inj [OF path_sorted [OF p(1) ok]] that by blast
  have R: "?R \<longleftrightarrow> fmlookup (st_numbers (bc_db bc)) n = Some b"
  proof (cases "n \<in> meta_Number ` set ms")
    case True
    then obtain m where m: "m \<in> set ms" "meta_Number m = n" by blast
    then have "fmlookup (st_numbers (bc_db bc)) n = fmlookup (st_blocks (bc_db bc)) (meta_Hash m)"
      using p(2) by (auto simp: canonical_is_def)
    then show ?thesis using m uniq by metis
  next
    case False
    then show ?thesis using p(2) by (auto simp: canonical_is_def)
  qed
  show ?thesis
  proof (cases "n = hdr_Number (blk_Header (bc_latest bc))")
    case True
    then have "fmlookup (st_numbers (bc_db bc)) n = Some (bc_latest bc)"
      using p(2) tip latest latest_facts [OF inv] unfolding canonical_is_def by (metis strip_simps(1,3))
    then show ?thesis unfolding R using True by (simp add: GetBlockByNumber_def)
  next
    case False
    then show ?thesis unfolding R by (simp add: GetBlockByNumber_def split: option.splits)
  qed
qed

lemma block_at:
  assumes inv: "chain_inv g bc" and p: "path (tree_of (bc_db bc)) (blk_Hash (bc_latest bc)) ms" "m \<in> set ms"
  obtains b where "fmlookup (st_blocks (bc_db bc)) (meta_Hash m) = Some b" "blk_Hash b = meta_Hash m"
    "hdr_Number (blk_Header b) = meta_Number m" "hdr_ParentHash (blk_Header b) = meta_ParentHash m"
    "GetBlockByHash bc (blk_Hash b) = Inr b"
proof -
  have ok: "tree_ok g (tree_of (bc_db bc))" and bodies: "bodies_ok (bc_db bc)"
    and latest: "fmlookup (st_blocks (bc_db bc)) (blk_Hash (bc_latest bc)) = Some (bc_latest bc)"
    using inv by (simp_all add: chain_inv_def)
  obtain b where b: "fmlookup (st_blocks (bc_db bc)) (meta_Hash m) = Some b" "blk_Hash b = meta_Hash m"
    "hdr_Number (blk_Header b) = meta_Number m" "hdr_ParentHash (blk_Header b) = meta_ParentHash m"
    using bodies path_mem [OF p(1) ok p(2)] unfolding bodies_ok_def by blast
  have "GetBlockByHash bc (blk_Hash b) = Inr b"
    using b latest by (auto simp: GetBlockByHash_def loadBlockTxn_def)
  with b that show ?thesis by blast
qed

section \<open>Reachable chains\<close>

text \<open>
  A node's chain: it starts from a genesis and grows by mined and imported blocks. Numbers do not
  wrap around, and a mined block does not have the hash of a block that is already stored.
\<close>

inductive chain_step :: "env \<Rightarrow> Blockchain \<Rightarrow> Blockchain \<Rightarrow> bool" for E where
  mined: "MineBlock E bc miner txs proofs = Some (Inr (bc', b)) \<Longrightarrow> hdr_Number (blk_Header (bc_latest bc)) \<noteq> - 1 \<Longrightarrow>
     fmlookup (st_metas (bc_db bc)) (blk_Hash b) = None \<Longrightarrow> chain_step E bc bc'"
| imported: "ImportBlock E bc b = Some (Inr bc') \<Longrightarrow> hdr_Number (blk_Header b) \<noteq> 0 \<Longrightarrow> chain_step E bc bc'"

definition chain_reach :: "env \<Rightarrow> string \<Rightarrow> Blockchain \<Rightarrow> bool" where
  "chain_reach E g bc \<longleftrightarrow> (\<exists>config balances bc0. OpenBlockchain E empty_store config balances = Some (Inr bc0)
     \<and> blk_Hash (bc_latest bc0) = g \<and> (chain_step E)\<^sup>*\<^sup>* bc0 bc)"

lemma MineBlock_result:
  assumes "MineBlock E bc miner txs proofs = Some (Inr (bc', b))"
    and "prepareBlock E (bc_latest bc) (Some (bc_state bc)) (mining_block E bc miner txs proofs) (net_ArchitectAddress (bc_network bc)) = Inr pb"
  shows "b = pb_Block pb"
  using assms by (auto simp: MineBlock_unfold andThen_def split: option.splits sum.splits)

lemma chain_step_inv: "chain_step E bc bc' \<Longrightarrow> sha256_len E \<Longrightarrow> chain_inv g bc \<Longrightarrow> chain_inv g bc'"
proof (induction rule: chain_step.induct)
  case (mined bc miner txs proofs bc' b)
  have "tree_of (bc_db bc) (blk_Hash (pb_Block pb)) = None" if "prepareBlock E (bc_latest bc) (Some (bc_state bc))
      (mining_block E bc miner txs proofs) (net_ArchitectAddress (bc_network bc)) = Inr pb" for pb
    using MineBlock_result [OF mined(1) that] mined(3) by (simp add: tree_of_def)
  then show ?case using MineBlock_step [OF mined(5,4,2), where miner = miner and txs = txs and proofs = proofs] mined(1) by auto
next
  case (imported bc b bc')
  then show ?case using ImportBlock_step [OF imported(4,3,2)] by auto
qed

lemma chain_reach_inv:
  assumes "chain_reach E g bc" and "sha256_len E"
  shows "chain_inv g bc"
proof -
  obtain config balances bc0 where open0: "OpenBlockchain E empty_store config balances = Some (Inr bc0)" "blk_Hash (bc_latest bc0) = g"
    and steps: "(chain_step E)\<^sup>*\<^sup>* bc0 bc" using assms(1) by (auto simp: chain_reach_def)
  have "chain_inv g bc0" using open_new_inv [OF open0(1) assms(2)] open0(2) by simp
  with steps show ?thesis by (induction rule: rtranclp_induct) (auto intro: chain_step_inv assms(2))
qed

end
