(* ===== verification/Chain_Properties.thy ===== *)
theory Chain_Properties
  imports Canonical_Chain
begin

text \<open>
  The properties of a node's chain in every state it can reach from its genesis by mining and
  importing blocks, and a concrete chain that mines a block.
\<close>

section \<open>A concrete chain\<close>

text \<open>An environment whose hashes tell the genesis from the other blocks.\<close>

definition chain_env :: env where
  "chain_env = toy_env\<lparr>sha256 := \<lambda>x. take 32 (x @ replicate 32 (CHR ''s'')),
     json_marshal := \<lambda>j. (case j of JObj ((_, JUint n) # _) \<Rightarrow> if n = 0 then ''g'' else ''b'' | _ \<Rightarrow> ''j'')\<rparr>"

definition chain_config :: NetworkConfig where
  "chain_config = \<lparr>net_Name = [], net_ChainID = 7, net_GenesisAddress = [],
     net_ArchitectAddress = ''REPLACE_ME'', net_CirculatingSupply = [], net_Bootnodes = [], net_SystemContracts = []\<rparr>"

lemma chain_env_sha [simp]: "sha256_len chain_env"
  by (auto simp: sha256_len_def chain_env_def)

lemma chain_env_hash: "computeBlockHash chain_env b =
    hex_encode ((if hdr_Number (blk_Header b) = 0 then CHR ''g'' else CHR ''b'') # replicate 31 (CHR ''s''))"
  by (simp add: computeBlockHash_def header_json_def chain_env_def numeral_eq_Suc)

abbreviation chain_network :: NetworkConfig where
  "chain_network \<equiv> overlaid chain_env chain_config"

lemma chain_network_normal: "NormalizeNetworkConfig chain_env chain_config = Inr chain_network"
    "NormalizeNetworkConfig chain_env chain_network = Inr chain_network" "net_GenesisAddress chain_network = []"
proof -
  have t: "TrimSpace ''REPLACE_ME'' = ''REPLACE_ME''" by (rule TrimSpace_visible) (simp add: visible_def byte_def)
  then have n: "net_GenesisAddress chain_network = []" "net_ArchitectAddress chain_network = ''REPLACE_ME''"
    "net_ChainID chain_network \<noteq> 0"
    by (simp_all add: chain_config_def overlaid_def overlay_def DefaultNetworkConfig_def)
  then show "NormalizeNetworkConfig chain_env chain_config = Inr chain_network"
    using t by (simp add: NormalizeNetworkConfig_Inr validateProtocolAddress_def Contains_def)
  then show "NormalizeNetworkConfig chain_env chain_network = Inr chain_network" by (rule normalized_again)
  show "net_GenesisAddress chain_network = []" by (rule n(1))
qed

lemma chain_opens:
  obtains bc where "OpenBlockchain chain_env empty_store chain_config [] = Some (Inr bc)" "bc_network bc = chain_network"
    "hdr_Number (blk_Header (bc_latest bc)) = 0" "blk_Hash (bc_latest bc) = computeBlockHash chain_env (bc_latest bc)"
    "\<And>h. tree_of (bc_db bc) h \<noteq> None \<Longrightarrow> h = blk_Hash (bc_latest bc)"
proof -
  let ?chain = "\<lparr>bc_db = empty_store, bc_state = genesis_state NewStateSnapshot [], bc_latest = zero_Block, bc_latestMeta = zero_BlockMeta,
                 bc_network = chain_network\<rparr>"
  let ?g = "genesis_block chain_env (ArchitectAddress ?chain) (genesis_state NewStateSnapshot [])"
  let ?meta = "\<lparr>meta_Hash = blk_Hash ?g, meta_ParentHash = [], meta_Number = 0, meta_Work = ''0'',
                 meta_CumulativeWork = ''0'', meta_Canonical = True\<rparr>"
  have same: "chain_network\<lparr>net_GenesisAddress := []\<rparr> = chain_network" using chain_network_normal(3) by simp
  have run: "OpenBlockchain chain_env empty_store chain_config [] = persistCanonicalTipLocked chain_env ?chain (genesis_state NewStateSnapshot []) ?g ?meta"
    using chain_network_normal unfolding open_new [OF chain_network_normal(1)]
    by (simp add: start_genesis_def Let_def inferGenesisAddress_def same)
  have g: "blk_Hash ?g = computeBlockHash chain_env ?g" "hdr_Number (blk_Header ?g) = 0"
    by (simp_all add: genesis_block_def Let_def zero_Block_def zero_BlockHeader_def computeBlockHash_def)
  have h: "TrimSpace (blk_Hash ?g) = blk_Hash ?g" "blk_Hash ?g \<noteq> []"
    unfolding g(1) by (rule block_hash_shape [OF chain_env_sha])+
  have "\<exists>st. OpenBlockchain chain_env empty_store chain_config [] = Some (Inr (?chain\<lparr>bc_db := st, bc_latest := ?g, bc_latestMeta := ?meta\<rparr>))
      \<and> (\<forall>h. tree_of st h \<noteq> None \<longrightarrow> h = blk_Hash ?g)"
    unfolding run persistCanonicalTipLocked_def rewriteCanonicalTip_def reorgPaths_def
    using h chain_network_normal(2)
    by (simp add: andThen_def zero_BlockMeta_def loadBlockMetaTxn_def adopt_def storeBlockMetaTxn_def loadBlockTxn_def
        persistNetworkConfig_def tree_of_def set_tip_def empty_store_def)
  then show ?thesis using that g by fastforce
qed

lemma chain_mines:
  obtains g bc bc' b where "chain_reach chain_env g bc" "MineBlock chain_env bc ''m'' [] [] = Some (Inr (bc', b))"
    "chain_reach chain_env g bc'" "hdr_Number (blk_Header (bc_latest bc')) = 1" "hdr_Number (blk_Header (bc_latest bc)) = 0"
    "hdr_Number (blk_Header b) = 1" "fmlookup (st_metas (bc_db bc)) (blk_Hash b) = None"
    "OpenBlockchain chain_env empty_store chain_config [] = Some (Inr bc)" "(chain_step chain_env)\<^sup>*\<^sup>* bc bc'"
proof -
  obtain bc where bc: "OpenBlockchain chain_env empty_store chain_config [] = Some (Inr bc)" "bc_network bc = chain_network"
    "hdr_Number (blk_Header (bc_latest bc)) = 0" "blk_Hash (bc_latest bc) = computeBlockHash chain_env (bc_latest bc)"
    "\<And>h. tree_of (bc_db bc) h \<noteq> None \<Longrightarrow> h = blk_Hash (bc_latest bc)"
    using chain_opens by metis
  let ?g = "blk_Hash (bc_latest bc)"
  have reach: "chain_reach chain_env ?g bc" using bc(1) unfolding chain_reach_def by blast
  have inv: "chain_inv ?g bc" by (rule chain_reach_inv [OF reach chain_env_sha])
  obtain pb where pb: "prepareBlock chain_env (bc_latest bc) (Some (bc_state bc)) (mining_block chain_env bc ''m'' [] [])
      (net_ArchitectAddress (bc_network bc)) = Inr pb"
    by (auto simp: prepareBlock_def mining_block_def zero_Block_def computeBlockWork_def)
  have fresh: "tree_of (bc_db bc) (blk_Hash (pb_Block pb)) = None"
  proof (rule ccontr)
    assume "tree_of (bc_db bc) (blk_Hash (pb_Block pb)) \<noteq> None"
    then have "blk_Hash (pb_Block pb) = blk_Hash (bc_latest bc)" by (rule bc(5))
    then show False using bc(3,4) prepared_fields(1,6) [OF pb] by (simp add: chain_env_hash)
  qed
  obtain bc' where mine: "MineBlock chain_env bc ''m'' [] [] = Some (Inr (bc', pb_Block pb))" "bc_latest bc' = pb_Block pb"
    using MineBlock_step [OF inv chain_env_sha, of "''m''" "[]" "[]"] fresh pb chain_network_normal(2) bc(2,3) by auto
  have step: "chain_step chain_env bc bc'"
    using chain_step.mined [OF mine(1)] bc(3) fresh by (simp add: tree_of_def)
  then have "chain_reach chain_env ?g bc'" using bc(1) unfolding chain_reach_def by blast
  then show ?thesis using that [OF reach mine(1)] prepared_fields(1) [OF pb] mine(2) bc(1,3) fresh r_into_rtranclp [of "chain_step chain_env", OF step]
    by (simp add: tree_of_def)
qed

section \<open>Reading by number\<close>

lemma level_reads:
  assumes inv: "chain_inv g bc"
  shows "(\<exists>b. GetBlockByNumber bc n = Inr b) \<longleftrightarrow> n \<le> hdr_Number (blk_Header (bc_latest bc))"
proof -
  have ok: "tree_ok g (tree_of (bc_db bc))" using inv by (simp add: chain_inv_def)
  obtain ms where p: "path (tree_of (bc_db bc)) (blk_Hash (bc_latest bc)) ms" "canonical_is (bc_db bc) ms"
    using inv by (auto simp: chain_inv_def)
  note reads = number_reads [OF inv p]
  have tip: "strip (bc_latestMeta bc) \<in> set ms"
    using p(1) latest_facts [OF inv] by (auto elim: path.cases)
  have tipn: "meta_Number (strip (bc_latestMeta bc)) = hdr_Number (blk_Header (bc_latest bc))" using latest_facts [OF inv] by simp
  show ?thesis
  proof
    assume "\<exists>b. GetBlockByNumber bc n = Inr b"
    then obtain m where "m \<in> set ms" "meta_Number m = n" by (auto simp: reads)
    then show "n \<le> hdr_Number (blk_Header (bc_latest bc))"
      using path_number [OF p(1) ok latest_facts(2) [OF inv], of m] tipn by (simp add: word_le_nat_alt)
  next
    assume "n \<le> hdr_Number (blk_Header (bc_latest bc))"
    then obtain m where m: "m \<in> set ms" "unat (meta_Number m) = unat n"
      using path_level [OF p(1) ok tip, of "unat n"] tipn by (auto simp: word_le_nat_alt)
    obtain b where "fmlookup (st_blocks (bc_db bc)) (meta_Hash m) = Some b" by (rule block_at [OF inv p(1) m(1)])
    moreover have "meta_Number m = n" using m(2) by (simp add: word_unat_eq_iff)
    ultimately show "\<exists>b. GetBlockByNumber bc n = Inr b" using m(1) by (auto simp: reads)
  qed
qed

lemma link_reads:
  assumes inv: "chain_inv g bc" and get: "GetBlockByNumber bc n = Inr b"
  shows "hdr_Number (blk_Header b) = n" "GetBlockByHash bc (blk_Hash b) = Inr b"
    "if n = 0 then blk_Hash b = g else \<exists>p. GetBlockByNumber bc (n - 1) = Inr p \<and> blk_Hash p = hdr_ParentHash (blk_Header b)"
proof -
  have ok: "tree_ok g (tree_of (bc_db bc))" using inv by (simp add: chain_inv_def)
  obtain ms where p: "path (tree_of (bc_db bc)) (blk_Hash (bc_latest bc)) ms" "canonical_is (bc_db bc) ms"
    using inv by (auto simp: chain_inv_def)
  note reads = number_reads [OF inv p]
  obtain m where m: "m \<in> set ms" "meta_Number m = n" "fmlookup (st_blocks (bc_db bc)) (meta_Hash m) = Some b"
    using get by (auto simp: reads)
  have b: "blk_Hash b = meta_Hash m" "hdr_Number (blk_Header b) = n" "hdr_ParentHash (blk_Header b) = meta_ParentHash m"
    "GetBlockByHash bc (blk_Hash b) = Inr b"
    by (rule block_at [OF inv p(1) m(1)]; use m in simp)+
  then show "hdr_Number (blk_Header b) = n" "GetBlockByHash bc (blk_Hash b) = Inr b" by simp_all
  have node: "tree_of (bc_db bc) (meta_Hash m) = Some m" by (rule path_mem [OF p(1) ok m(1)])
  show "if n = 0 then blk_Hash b = g else \<exists>p. GetBlockByNumber bc (n - 1) = Inr p \<and> blk_Hash p = hdr_ParentHash (blk_Header b)"
  proof (cases "meta_ParentHash m = []")
    case True
    then show ?thesis using tree_okD(4) [OF ok node] m(2) b(1) by simp
  next
    case False
    then obtain pm where pm: "pm \<in> set ms" "meta_Hash pm = meta_ParentHash m" "unat n = Suc (unat (meta_Number pm))"
      using path_parent [OF p(1) ok m(1)] m(2) by auto
    have "unat (n - 1) = unat (meta_Number pm)" using pm(3) by (metis diff_Suc_1 unat_minus_one unat_0 nat.distinct(1))
    then have num: "meta_Number pm = n - 1" by (simp add: word_unat_eq_iff)
    obtain c where "fmlookup (st_blocks (bc_db bc)) (meta_Hash pm) = Some c" "blk_Hash c = meta_Hash pm"
      by (rule block_at [OF inv p(1) pm(1)])
    then have "GetBlockByNumber bc (n - 1) = Inr c \<and> blk_Hash c = hdr_ParentHash (blk_Header b)"
      using pm num b(3) by (auto simp: reads)
    moreover have "n \<noteq> 0" using pm(3) by auto
    ultimately show ?thesis by auto
  qed
qed

section \<open>The network of a reachable chain\<close>

lemma persist_network:
  "persistCanonicalTipLocked E bc s b m = Some (Inr bc') \<Longrightarrow>
   bc_network bc' = bc_network bc \<and> (\<exists>x. NormalizeNetworkConfig E (bc_network bc) = Inr x)"
  "storeImportedBlockLocked E bc s b m c = Some (Inr bc') \<Longrightarrow> bc_network bc' = bc_network bc"
  by (auto simp: persistCanonicalTipLocked_def storeImportedBlockLocked_def andThen_def persistNetworkConfig_def Let_def
      split: option.splits sum.splits if_splits)

lemma chain_step_network: "chain_step E bc bc' \<Longrightarrow> bc_network bc' = bc_network bc"
proof (induction rule: chain_step.induct)
  case (mined bc miner txs proofs bc' b)
  then show ?case
    by (auto simp: MineBlock_unfold andThen_def split: option.splits sum.splits dest: persist_network(1))
next
  case (imported bc b bc')
  then show ?case by (cases rule: ImportBlock_cases [of E bc b]) (auto dest: persist_network(2))
qed

lemma chain_reach_network:
  assumes "chain_reach E g bc"
  shows "\<exists>x. NormalizeNetworkConfig E (bc_network bc) = Inr x"
proof -
  obtain config balances bc0 where open0: "OpenBlockchain E empty_store config balances = Some (Inr bc0)"
    and steps: "(chain_step E)\<^sup>*\<^sup>* bc0 bc" using assms by (auto simp: chain_reach_def)
  have "\<exists>x. NormalizeNetworkConfig E (bc_network bc0) = Inr x"
  proof (cases "NormalizeNetworkConfig E config")
    case (Inr network)
    then show ?thesis using open0 persist_network(1) unfolding open_new [OF Inr] start_genesis_def Let_def by fastforce
  qed (use open0 in \<open>simp add: OpenBlockchain_def\<close>)
  with steps show ?thesis by (induction rule: rtranclp_induct) (simp_all add: chain_step_network)
qed

lemma chain_reach_step: "chain_reach E g bc \<Longrightarrow> chain_step E bc bc' \<Longrightarrow> chain_reach E g bc'"
  unfolding chain_reach_def by (blast intro: rtranclp.rtrancl_into_rtrancl)

lemma stored_found:
  assumes inv: "chain_inv g bc" and known: "tree_of (bc_db bc) h \<noteq> None"
  shows "HasBlockHash bc h"
proof -
  obtain m where m: "tree_of (bc_db bc) h = Some m" using known by blast
  have ok: "tree_ok g (tree_of (bc_db bc))" and bodies: "bodies_ok (bc_db bc)" using inv by (simp_all add: chain_inv_def)
  have "TrimSpace h \<noteq> []" "\<exists>b. fmlookup (st_blocks (bc_db bc)) h = Some b"
    using tree_okD(2,3) [OF ok m] bodies m unfolding bodies_ok_def by fastforce+
  then show ?thesis by (auto simp: HasBlockHash_def GetBlockByHash_def loadBlockTxn_def)
qed

section \<open>Properties\<close>

text \<open>
  C5: in every state a node can reach, the blocks found by number are one chain: there is a block for every number up
  to the tip's and for no other, the block found under a number carries that number and is also found by its hash, the tip
  is found under its own number, block 0 is the genesis block the node started from, and the parent
  of every other block is the block one number below, whatever mix of mining, imports and reorganisations came before.
\<close>

theorem numbered_blocks_form_chain:
  assumes "chain_reach E g bc" and "sha256_len E"
  shows "GetBlockByNumber bc (hdr_Number (blk_Header (bc_latest bc))) = Inr (bc_latest bc)
    \<and> (\<forall>n. (\<exists>b. GetBlockByNumber bc n = Inr b) \<longleftrightarrow> n \<le> hdr_Number (blk_Header (bc_latest bc)))
    \<and> (\<forall>n b. GetBlockByNumber bc n = Inr b \<longrightarrow> hdr_Number (blk_Header b) = n \<and> GetBlockByHash bc (blk_Hash b) = Inr b
         \<and> (if n = 0 then blk_Hash b = g
            else \<exists>p. GetBlockByNumber bc (n - 1) = Inr p \<and> blk_Hash p = hdr_ParentHash (blk_Header b)))"
proof -
  note inv = chain_reach_inv [OF assms]
  have "GetBlockByNumber bc (hdr_Number (blk_Header (bc_latest bc))) = Inr (bc_latest bc)" by (simp add: GetBlockByNumber_def)
  with level_reads [OF inv] link_reads [OF inv] show ?thesis by blast
qed

theorem numbered_blocks_form_chain_witness:
  "\<exists>g bc b. hdr_Number (blk_Header (bc_latest bc)) = 1 \<and> GetBlockByNumber bc 0 = Inr b \<and> blk_Hash b = g
     \<and> hdr_ParentHash (blk_Header (bc_latest bc)) = g"
proof -
  obtain g bc bc' b where "chain_reach chain_env g bc'" and one: "hdr_Number (blk_Header (bc_latest bc')) = 1" by (rule chain_mines)
  note chain = numbered_blocks_form_chain [OF this(1) chain_env_sha]
  then have tip: "GetBlockByNumber bc' 1 = Inr (bc_latest bc')" and
    all: "\<And>n b. GetBlockByNumber bc' n = Inr b \<Longrightarrow> if n = 0 then blk_Hash b = g
       else \<exists>p. GetBlockByNumber bc' (n - 1) = Inr p \<and> blk_Hash p = hdr_ParentHash (blk_Header b)"
    using one by simp_all
  then obtain p where "GetBlockByNumber bc' 0 = Inr p" "blk_Hash p = hdr_ParentHash (blk_Header (bc_latest bc'))"
    using all [OF tip] by auto
  then show ?thesis using all [of 0 p] one by auto
qed

text \<open>
  C6: in every state a node can reach, its tip is stored, no other stored block is preferred to it, and exactly the blocks
  on the path from the tip to the genesis are marked canonical.
\<close>

theorem tip_is_best_known:
  assumes "chain_reach E g bc" and "sha256_len E"
  shows "fmlookup (st_metas (bc_db bc)) (blk_Hash (bc_latest bc)) = Some (bc_latestMeta bc)
    \<and> (\<forall>h m. fmlookup (st_metas (bc_db bc)) h = Some m \<longrightarrow> meta_Hash m = h \<and> \<not> isPreferredTip m (bc_latestMeta bc)
         \<and> (h \<noteq> blk_Hash (bc_latest bc) \<longrightarrow> isPreferredTip (bc_latestMeta bc) m)
         \<and> (meta_Canonical m \<longleftrightarrow> (\<exists>b. GetBlockByNumber bc (meta_Number m) = Inr b \<and> blk_Hash b = h)))"
proof -
  note inv = chain_reach_inv [OF assms]
  have ok: "tree_ok g (tree_of (bc_db bc))" and tip: "fmlookup (st_metas (bc_db bc)) (blk_Hash (bc_latest bc)) = Some (bc_latestMeta bc)"
    using inv by (simp_all add: chain_inv_def)
  obtain ms where p: "path (tree_of (bc_db bc)) (blk_Hash (bc_latest bc)) ms" "canonical_is (bc_db bc) ms"
    using inv by (auto simp: chain_inv_def)
  have "meta_Hash m = h \<and> \<not> isPreferredTip m (bc_latestMeta bc) \<and> (h \<noteq> blk_Hash (bc_latest bc) \<longrightarrow> isPreferredTip (bc_latestMeta bc) m)
      \<and> (meta_Canonical m \<longleftrightarrow> (\<exists>b. GetBlockByNumber bc (meta_Number m) = Inr b \<and> blk_Hash b = h))"
    if m: "fmlookup (st_metas (bc_db bc)) h = Some m" for h m
  proof -
    have node: "tree_of (bc_db bc) h = Some (strip m)" using m by (simp add: tree_of_def)
    then have hash: "meta_Hash m = h" using tree_okD(1) [OF ok] by fastforce
    have unbeaten: "\<not> isPreferredTip m (bc_latestMeta bc)" using inv node unfolding chain_inv_def by fastforce
    have "meta_Canonical m \<longleftrightarrow> canon (bc_db bc) h" using m by (simp add: canon_def)
    also have "\<dots> \<longleftrightarrow> h \<in> meta_Hash ` set ms" using p(2) by (simp add: canonical_is_def)
    also have "\<dots> \<longleftrightarrow> (\<exists>b. GetBlockByNumber bc (meta_Number m) = Inr b \<and> blk_Hash b = h)"
    proof
      assume "h \<in> meta_Hash ` set ms"
      then obtain x where x: "x \<in> set ms" "meta_Hash x = h" by blast
      then have "x = strip m" using path_mem [OF p(1) ok x(1)] node by simp
      with x show "\<exists>b. GetBlockByNumber bc (meta_Number m) = Inr b \<and> blk_Hash b = h"
        using block_at [OF inv p(1) x(1)] unfolding number_reads [OF inv p] by (metis strip_simps(3))
    next
      assume "\<exists>b. GetBlockByNumber bc (meta_Number m) = Inr b \<and> blk_Hash b = h"
      then obtain b x where "x \<in> set ms" "fmlookup (st_blocks (bc_db bc)) (meta_Hash x) = Some b" "blk_Hash b = h"
        unfolding number_reads [OF inv p] by blast
      then show "h \<in> meta_Hash ` set ms" using block_at [OF inv p(1)] by (metis image_eqI option.inject)
    qed
    finally show ?thesis
      using hash unbeaten tip.better_total [of m "bc_latestMeta bc"] latest_facts(4) [OF inv] by auto
  qed
  with tip show ?thesis by blast
qed

theorem tip_is_best_known_witness:
  "\<exists>g (bc :: Blockchain) m. g \<noteq> blk_Hash (bc_latest bc) \<and> fmlookup (st_metas (bc_db bc)) g = Some m \<and> isPreferredTip (bc_latestMeta bc) m"
proof -
  obtain g bc bc' b where reach: "chain_reach chain_env g bc'" and one: "hdr_Number (blk_Header (bc_latest bc')) = 1"
    by (rule chain_mines)
  note inv = chain_reach_inv [OF reach chain_env_sha]
  obtain b where b: "GetBlockByNumber bc' 0 = Inr b" using level_reads [OF inv, of 0] by auto
  then have "blk_Hash b = g" "GetBlockByHash bc' (blk_Hash b) = Inr b" "hdr_Number (blk_Header b) = 0"
    using link_reads [OF inv b] by simp_all
  obtain ms where p: "path (tree_of (bc_db bc')) (blk_Hash (bc_latest bc')) ms" "canonical_is (bc_db bc') ms"
    using inv by (auto simp: chain_inv_def)
  obtain x where x: "x \<in> set ms" "meta_Number x = 0" "fmlookup (st_blocks (bc_db bc')) (meta_Hash x) = Some b"
    using b unfolding number_reads [OF inv p] by blast
  have ok: "tree_ok g (tree_of (bc_db bc'))" using inv by (simp add: chain_inv_def)
  have node: "tree_of (bc_db bc') (meta_Hash x) = Some x" by (rule path_mem [OF p(1) ok x(1)])
  then obtain m where m: "fmlookup (st_metas (bc_db bc')) (meta_Hash x) = Some m" by (auto simp: tree_of_Some)
  have "meta_Hash x \<noteq> blk_Hash (bc_latest bc')"
    using node x(2) latest_facts [OF inv] one by auto
  then show ?thesis using conjunct2 [OF tip_is_best_known [OF reach chain_env_sha], rule_format, OF m] m by metis
qed

text \<open>
  C7: mining and importing always return in every reachable state: the loops that follow parent hashes
  come to an end. Mining gives the new block exactly when it can be prepared on the tip; importing
  gives back a chain that stores the block, whatever branch it is on, or an error.
\<close>

theorem chain_operations_return:
  assumes "chain_reach E g bc" and "sha256_len E" and "hdr_Number (blk_Header (bc_latest bc)) \<noteq> - 1"
    and "\<And>pb. prepareBlock E (bc_latest bc) (Some (bc_state bc)) (mining_block E bc miner txs proofs)
           (net_ArchitectAddress (bc_network bc)) = Inr pb \<Longrightarrow> fmlookup (st_metas (bc_db bc)) (blk_Hash (pb_Block pb)) = None"
    and "hdr_Number (blk_Header block) \<noteq> 0"
  shows "(\<exists>r. MineBlock E bc miner txs proofs = Some r \<and> (\<forall>bc' b. r = Inr (bc', b) \<longrightarrow> bc_latest bc' = b \<and> chain_reach E g bc')
       \<and> (\<forall>pb. prepareBlock E (bc_latest bc) (Some (bc_state bc)) (mining_block E bc miner txs proofs)
             (net_ArchitectAddress (bc_network bc)) = Inr pb \<longrightarrow> (\<exists>bc'. r = Inr (bc', pb_Block pb))))
    \<and> (\<exists>r. ImportBlock E bc block = Some r \<and> (\<forall>bc'. r = Inr bc' \<longrightarrow> HasBlockHash bc' (blk_Hash block) \<and> chain_reach E g bc'))"
proof -
  note inv = chain_reach_inv [OF assms(1,2)]
  have fresh: "tree_of (bc_db bc) (blk_Hash (pb_Block pb)) = None" if "prepareBlock E (bc_latest bc) (Some (bc_state bc))
      (mining_block E bc miner txs proofs) (net_ArchitectAddress (bc_network bc)) = Inr pb" for pb
    using assms(4) [OF that] by (simp add: tree_of_def)
  have "\<exists>r. MineBlock E bc miner txs proofs = Some r \<and> (\<forall>bc' b. r = Inr (bc', b) \<longrightarrow>
     chain_inv g bc' \<and> bc_latest bc' = b \<and> hdr_ParentHash (blk_Header b) = blk_Hash (bc_latest bc))
     \<and> (\<forall>pb x. prepareBlock E (bc_latest bc) (Some (bc_state bc)) (mining_block E bc miner txs proofs)
             (net_ArchitectAddress (bc_network bc)) = Inr pb \<longrightarrow> NormalizeNetworkConfig E (bc_network bc) = Inr x \<longrightarrow>
          (\<exists>bc'. r = Inr (bc', pb_Block pb)))"
    by (rule MineBlock_step [OF inv assms(2,3)]) (rule fresh)
  then obtain r where r: "MineBlock E bc miner txs proofs = Some r" "\<And>bc' b. r = Inr (bc', b) \<Longrightarrow> bc_latest bc' = b"
    "\<And>pb x. prepareBlock E (bc_latest bc) (Some (bc_state bc)) (mining_block E bc miner txs proofs)
       (net_ArchitectAddress (bc_network bc)) = Inr pb \<Longrightarrow> NormalizeNetworkConfig E (bc_network bc) = Inr x \<Longrightarrow>
       \<exists>bc'. r = Inr (bc', pb_Block pb)"
    by (elim exE conjE) simp
  have mined: "chain_reach E g bc'" if res: "r = Inr (bc', b)" for bc' b
  proof -
    obtain pb where "prepareBlock E (bc_latest bc) (Some (bc_state bc)) (mining_block E bc miner txs proofs)
        (net_ArchitectAddress (bc_network bc)) = Inr pb" using r(1) res by (auto simp: MineBlock_unfold split: sum.splits)
    then have "fmlookup (st_metas (bc_db bc)) (blk_Hash b) = None"
      using assms(4) MineBlock_result [OF r(1) [unfolded res]] by simp
    then show ?thesis using chain_reach_step [OF assms(1)] chain_step.mined r(1) res assms(3) by blast
  qed
  obtain q where q: "ImportBlock E bc block = Some q"
    "\<And>bc'. q = Inr bc' \<Longrightarrow> chain_inv g bc' \<and> dom (tree_of (bc_db bc')) = insert (blk_Hash block) (dom (tree_of (bc_db bc)))"
    using ImportBlock_step [OF inv assms(2,5)] by blast
  have imported: "HasBlockHash bc' (blk_Hash block) \<and> chain_reach E g bc'" if res: "q = Inr bc'" for bc'
    using q(2) [OF res] stored_found [of g bc' "blk_Hash block"] chain_reach_step [OF assms(1) chain_step.imported [OF q(1) [unfolded res] assms(5)]] by auto
  obtain x where net: "NormalizeNetworkConfig E (bc_network bc) = Inr x" using chain_reach_network [OF assms(1)] by blast
  show ?thesis
    by (intro conjI exI [of _ r] exI [of _ q] allI impI)
      (simp_all add: r(1,2) q(1) mined imported r(3) [OF _ net])
qed

theorem chain_operations_return_witness:
  "\<exists>g bc bc' b. MineBlock chain_env bc ''m'' [] [] = Some (Inr (bc', b)) \<and> chain_reach chain_env g bc'
     \<and> ImportBlock chain_env bc (b\<lparr>blk_Hash := []\<rparr>) \<noteq> None"
proof -
  obtain g bc bc' b where reach: "chain_reach chain_env g bc" and mine: "MineBlock chain_env bc ''m'' [] [] = Some (Inr (bc', b))"
    and fresh: "fmlookup (st_metas (bc_db bc)) (blk_Hash b) = None" and n: "hdr_Number (blk_Header (bc_latest bc)) = 0"
    "hdr_Number (blk_Header b) = 1"
    by (rule chain_mines)
  have "fmlookup (st_metas (bc_db bc)) (blk_Hash (pb_Block pb)) = None" if "prepareBlock chain_env (bc_latest bc) (Some (bc_state bc))
      (mining_block chain_env bc ''m'' [] []) (net_ArchitectAddress (bc_network bc)) = Inr pb" for pb
    using MineBlock_result [OF mine that] fresh by simp
  then have returns: "(\<exists>r. MineBlock chain_env bc ''m'' [] [] = Some r
        \<and> (\<forall>bc' b. r = Inr (bc', b) \<longrightarrow> bc_latest bc' = b \<and> chain_reach chain_env g bc') \<and> P r)
      \<and> (\<exists>r. ImportBlock chain_env bc (b\<lparr>blk_Hash := []\<rparr>) = Some r \<and> Q r)" if "P = (\<lambda>_. True)" "Q = (\<lambda>_. True)" for P Q
    using chain_operations_return [OF reach chain_env_sha, of "''m''" "[]" "[]" "b\<lparr>blk_Hash := []\<rparr>"] n that by auto
  then have "chain_reach chain_env g bc'" "ImportBlock chain_env bc (b\<lparr>blk_Hash := []\<rparr>) \<noteq> None"
    using returns [OF refl refl] mine by auto
  with mine show ?thesis by blast
qed

section \<open>Reopening\<close>

text \<open>The network of a chain started from a configuration: that configuration, with a genesis address filled in.\<close>

definition net_of :: "env \<Rightarrow> NetworkConfig \<Rightarrow> NetworkConfig \<Rightarrow> bool" where
  "net_of E requested net \<longleftrightarrow> NormalizeNetworkConfig E net = Inr net
     \<and> (\<exists>g. net = requested\<lparr>net_GenesisAddress := g\<rparr> \<and> (net_GenesisAddress requested \<noteq> [] \<longrightarrow> g = net_GenesisAddress requested))"

lemma infer_trimmed: "TrimSpace (inferGenesisAddress balances arch) = inferGenesisAddress balances arch"
proof -
  have "pred_option (\<lambda>x. TrimSpace (fst x) = fst x) (fold (infer_step arch) balances None)"
    by (rule fold_invariant [where Q = "\<lambda>_. True"]) (auto simp: infer_step_def Let_def split: option.splits)
  then show ?thesis by (auto simp: inferGenesisAddress_def split: option.splits)
qed

lemma net_of_start:
  assumes norm: "NormalizeNetworkConfig E config = Inr network" and g: "TrimSpace g = g"
    and ok: "NormalizeNetworkConfig E (network\<lparr>net_GenesisAddress := g\<rparr>) = Inr x"
    and keep: "net_GenesisAddress network \<noteq> [] \<longrightarrow> g = net_GenesisAddress network"
  shows "x = network\<lparr>net_GenesisAddress := g\<rparr>" "net_of E network (network\<lparr>net_GenesisAddress := g\<rparr>)"
proof -
  have fixed: "overlaid E network = network" using norm by (auto simp: NormalizeNetworkConfig_Inr)
  have "overlay [] g = g" using g by (simp add: overlay_def)
  then have "overlaid E (network\<lparr>net_GenesisAddress := g\<rparr>) = (overlaid E network)\<lparr>net_GenesisAddress := g\<rparr>"
    by (simp add: overlaid_def DefaultNetworkConfig_def)
  then show x: "x = network\<lparr>net_GenesisAddress := g\<rparr>"
    using ok unfolding NormalizeNetworkConfig_Inr fixed by (elim conjE) (simp only:)
  show "net_of E network (network\<lparr>net_GenesisAddress := g\<rparr>)"
    unfolding net_of_def using ok keep x by blast
qed

lemma reconcile_same:
  assumes norm: "NormalizeNetworkConfig E config = Inr network" and net: "net_of E network net"
  shows "reconcileNetworkConfig E net network latest = Inr (net, False)"
proof -
  obtain g where g: "net = network\<lparr>net_GenesisAddress := g\<rparr>" "net_GenesisAddress network \<noteq> [] \<longrightarrow> g = net_GenesisAddress network"
    and fixed: "NormalizeNetworkConfig E net = Inr net"
    using net by (auto simp: net_of_def)
  have t: "net_Name net \<noteq> []" "TrimSpace (net_Name net) = net_Name net"
    "TrimSpace (net_GenesisAddress network) = net_GenesisAddress network"
    using overlaid_texts [of net E net] overlaid_texts [of network E config] fixed norm
    unfolding NormalizeNetworkConfig_Inr by simp_all
  have eta: "\<lparr>net_Name = net_Name net, net_ChainID = net_ChainID net, net_GenesisAddress = net_GenesisAddress net,
      net_ArchitectAddress = net_ArchitectAddress net, net_CirculatingSupply = net_CirculatingSupply net,
      net_Bootnodes = net_Bootnodes net, net_SystemContracts = net_SystemContracts net\<rparr> = net" by simp
  have "check_match E net network = Inr ()"
    using g t(3) by (cases "net_GenesisAddress network = []") (simp_all add: check_match_def ensureNetworkValueMatchWithFallback_def ensureNetworkValueMatch_def
        ensureNetworkUintMatchWithFallback_def ensureNetworkUintMatch_def Let_def)
  moreover have "fill_text (net_GenesisAddress net) (net_GenesisAddress network) = (net_GenesisAddress net, False)"
    using g t(3) by (cases "net_GenesisAddress network = []") (auto simp: fill_text_def)
  moreover have "\<not> blank_config net" using t by (simp add: blank_config_def)
  moreover have "fill_text (net_Name net) (net_Name network) = (net_Name net, False)"
    "fill_text (net_ArchitectAddress net) (net_ArchitectAddress network) = (net_ArchitectAddress net, False)"
    "fill_text (net_CirculatingSupply net) (net_CirculatingSupply network) = (net_CirculatingSupply net, False)"
    "fill_list (net_Bootnodes net) (net_Bootnodes network) = (net_Bootnodes net, False)"
    "fill_list (net_SystemContracts net) (net_SystemContracts network) = (net_SystemContracts net, False)"
    by (auto simp: g(1) fill_text_def fill_list_def)
  moreover have "net_ChainID net \<noteq> 0" using fixed by (simp add: NormalizeNetworkConfig_Inr)
  ultimately show ?thesis using fixed by (simp add: reconcileNetworkConfig_def eta)
qed

definition stored_net :: "env \<Rightarrow> NetworkConfig \<Rightarrow> Blockchain \<Rightarrow> bool" where
  "stored_net E requested bc \<longleftrightarrow> net_of E requested (bc_network bc) \<and> st_network (bc_db bc) = Some (bc_network bc)"

lemma persist_stored_net:
  "persistCanonicalTipLocked E bc s b m = Some (Inr bc') \<Longrightarrow> NormalizeNetworkConfig E (bc_network bc) = Inr x \<Longrightarrow>
   st_network (bc_db bc') = Some x"
  "storeImportedBlockLocked E bc s b m c = Some (Inr bc') \<Longrightarrow> NormalizeNetworkConfig E (bc_network bc) = Inr x \<Longrightarrow>
   st_network (bc_db bc') = (if c then Some x else st_network (bc_db bc))"
  by (auto simp: persistCanonicalTipLocked_def storeImportedBlockLocked_def andThen_def persistNetworkConfig_def Let_def
      set_tip_def persistBlockArtifacts_def persistStateSnapshot_def split: option.splits sum.splits if_splits)

lemma stored_net_step: "chain_step E bc bc' \<Longrightarrow> stored_net E requested bc \<Longrightarrow> stored_net E requested bc'"
proof (frule chain_step_network, induction rule: chain_step.induct)
  case (mined bc miner txs proofs bc' b)
  then have "st_network (bc_db bc') = Some (bc_network bc)"
    by (auto simp: MineBlock_unfold andThen_def stored_net_def net_of_def split: option.splits sum.splits dest: persist_stored_net(1))
  with mined show ?case by (simp add: stored_net_def)
next
  case (imported bc b bc')
  then have norm: "NormalizeNetworkConfig E (bc_network bc) = Inr (bc_network bc)" by (simp add: stored_net_def net_of_def)
  have "st_network (bc_db bc') = Some (bc_network bc)"
    by (cases rule: ImportBlock_cases [of E bc b]) (use imported norm persist_stored_net(2) in \<open>auto simp: stored_net_def split: if_splits\<close>)
  with imported show ?case by (simp add: stored_net_def)
qed

lemma stored_net_run: "(chain_step E)\<^sup>*\<^sup>* bc0 bc \<Longrightarrow> stored_net E requested bc0 \<Longrightarrow> stored_net E requested bc"
  by (induction rule: rtranclp_induct) (auto intro: stored_net_step)

lemma stored_net_start:
  assumes "OpenBlockchain E empty_store config balances = Some (Inr bc)" and norm: "NormalizeNetworkConfig E config = Inr network"
  shows "stored_net E network bc"
proof -
  define g where "g = (if TrimSpace (net_GenesisAddress network) = [] then inferGenesisAddress balances (net_ArchitectAddress network)
    else net_GenesisAddress network)"
  let ?net = "network\<lparr>net_GenesisAddress := g\<rparr>"
  have trimmed: "TrimSpace (net_GenesisAddress network) = net_GenesisAddress network"
    using overlaid_texts(7) norm by (auto simp: NormalizeNetworkConfig_Inr)
  have g: "TrimSpace g = g" "net_GenesisAddress network \<noteq> [] \<longrightarrow> g = net_GenesisAddress network"
    using trimmed infer_trimmed by (auto simp: g_def)
  have "(if TrimSpace (net_GenesisAddress network) = []
      then network\<lparr>net_GenesisAddress := inferGenesisAddress balances (net_ArchitectAddress network)\<rparr> else network) = ?net"
    by (simp add: g_def)
  then obtain chain state b m where "persistCanonicalTipLocked E chain state b m = Some (Inr bc)" "bc_network chain = ?net"
    using assms(1) unfolding open_new [OF norm] start_genesis_def Let_def by fastforce
  note run = persist_network(1) [OF this(1)] persist_stored_net(1) [OF this(1)] this(2)
  then obtain x where x: "NormalizeNetworkConfig E ?net = Inr x" by auto
  note net_of_start [OF norm g(1) x g(2)]
  then show ?thesis using run x by (simp add: stored_net_def)
qed



end
