(* ===== verification/Validation.thy ===== *)
theory Validation
  imports Storage Consensus
begin

text \<open>
  Validation and import of blocks from other nodes (\<open>src/core/block_validation.go\<close>).

  The random generators are seeded from the block, so that every node draws the same sample: what a
  generator of \<open>math/rand\<close> makes of its seed is a parameter, a shuffle of the validators and a
  permutation of the proof indexes. Timeouts and logging are left out: a timeout is one of the
  errors a crawl can return.
\<close>

section \<open>Validator\<close>

definition ValidationModeStrict :: string where "ValidationModeStrict = ''strict''"
definition ValidationModeSampled :: string where "ValidationModeSampled = ''sampled''"
definition ValidationModeOpportunistic :: string where "ValidationModeOpportunistic = ''opportunistic''"
definition DefaultValidationMode :: string where "DefaultValidationMode = ValidationModeStrict"
definition DefaultValidationSampleSize :: int where "DefaultValidationSampleSize = 4"

lemmas validation_modes = ValidationModeStrict_def ValidationModeSampled_def ValidationModeOpportunistic_def DefaultValidationMode_def

record BlockImportValidator =
  biv_Validators :: "ValidatorNode option list"
  biv_PriorityRegistry :: "registry option"
  biv_ArchitectAddress :: string
  biv_Mode :: string
  biv_SampleSize :: int

record Rand =
  rnd_Shuffle :: "u64 \<Rightarrow> ValidatorNode list \<Rightarrow> ValidatorNode list"
  rnd_Perm :: "u64 \<Rightarrow> nat \<Rightarrow> nat list"

definition NewLocalBlockImportValidator :: "env \<Rightarrow> crawler option \<Rightarrow> registry option \<Rightarrow> string \<Rightarrow> BlockImportValidator" where
  "NewLocalBlockImportValidator E crawl r architectAddress =
     \<lparr>biv_Validators = map (\<lambda>i. Some (Validator E (''validator-'' @ show_nat i) crawl r)) [1, 2, 3],
      biv_PriorityRegistry = r, biv_ArchitectAddress = normalizedArchitectAddress architectAddress,
      biv_Mode = DefaultValidationMode, biv_SampleSize = DefaultValidationSampleSize\<rparr>"

definition NormalizeValidationMode :: "env \<Rightarrow> string \<Rightarrow> string" where
  "NormalizeValidationMode E v =
     (let mode = ToLower E (TrimSpace v) in
      if mode = ValidationModeStrict then ValidationModeStrict
      else if mode = ValidationModeSampled then ValidationModeSampled
      else if mode = ValidationModeOpportunistic then ValidationModeOpportunistic
      else DefaultValidationMode)"

definition fullValidationIndexes :: "Rand \<Rightarrow> BlockImportValidator \<Rightarrow> Block \<Rightarrow> nat list" where
  "fullValidationIndexes R v block =
     (let proofCount = length (body_CrawlProofs (blk_Body block));
          mode = (if biv_Mode v = [] then DefaultValidationMode else biv_Mode v)
      in if proofCount = 0 then []
         else if mode = ValidationModeStrict then [0..<proofCount]
         else if mode = ValidationModeOpportunistic then []
         else if mode = ValidationModeSampled then
           (let sampleSize = (if biv_SampleSize v \<le> 0 then DefaultValidationSampleSize else biv_SampleSize v)
            in if int proofCount \<le> sampleSize then [0..<proofCount]
               else take (nat sampleSize)
                      (rnd_Perm R (hdr_Number (blk_Header block) + of_nat (length (blk_Hash block)) * 97) proofCount))
         else [0..<proofCount])"

definition crawlTaskFromRecord :: "env \<Rightarrow> SearchTaskRecord \<Rightarrow> CrawlTask res" where
  "crawlTaskFromRecord E record =
     (case SetString (TrimSpace (task_BaseBounty record)) of
        None \<Rightarrow> Inl ErrInvalidTransaction
      | Some baseBounty \<Rightarrow>
          (case NewCrawlTask E (task_Query record) [task_URL record] (Some baseBounty) (task_Difficulty record)
                  (task_DataVolumeBytes record) 0 of
             Inl e \<Rightarrow> Inl e
           | Inr task \<Rightarrow>
               Inr (task\<lparr>ct_ID := task_ID record, ct_CreatedAt := task_CreatedAt record,
                         ct_TotalBounty := SetString (task_GrossBounty record),
                         ct_ArchitectFee := SetString (task_ArchitectFee record),
                         ct_MinerReward := SetString (task_MinerReward record),
                         ct_Difficulty := task_Difficulty record, ct_AdjustedDifficulty := task_Difficulty record\<rparr>)))"

definition validateImportedProof :: "env \<Rightarrow> SearchTaskRecord \<Rightarrow> TaskAdjustment \<Rightarrow> CrawlProof \<Rightarrow> unit res" where
  "validateImportedProof E taskRecord adjustment proof =
     (if TrimSpace (pr_TaskTxHash proof) \<noteq> TrimSpace (task_TxHash taskRecord) then Inl ErrInvalidBlock
      else if TrimSpace (pr_Query proof) \<noteq> TrimSpace (task_Query taskRecord) then Inl ErrInvalidBlock
      else if TrimSpace (pr_URL proof) \<noteq> TrimSpace (task_URL taskRecord) then Inl ErrInvalidBlock
      else if TrimSpace (pr_GrossBounty proof) \<noteq> TrimSpace (task_GrossBounty taskRecord) then Inl ErrInvalidBlock
      else if TrimSpace (pr_ArchitectFee proof) \<noteq> TrimSpace (task_ArchitectFee taskRecord) then Inl ErrInvalidBlock
      else if TrimSpace (pr_MinerReward proof) \<noteq> TrimSpace (task_MinerReward taskRecord) then Inl ErrInvalidBlock
      else if show_int (adj_AdjustedBounty adjustment) \<noteq> TrimSpace (task_GrossBounty taskRecord) then Inl ErrInvalidBlock
      else if show_int (adj_ArchitectFee adjustment) \<noteq> TrimSpace (task_ArchitectFee taskRecord) then Inl ErrInvalidBlock
      else if show_int (adj_NetMinerReward adjustment) \<noteq> TrimSpace (task_MinerReward taskRecord) then Inl ErrInvalidBlock
      else if TrimSpace (pr_ProofHash proof) \<noteq> computeCrawlProofHash E proof then Inl ErrInvalidBlock
      else Inr ())"

text \<open>The mining result that a proof in a block stands for.\<close>

definition claimed_result :: "SearchTaskRecord \<Rightarrow> TaskAdjustment \<Rightarrow> CrawlProof \<Rightarrow> MiningResult" where
  "claimed_result taskRecord adjustment proof =
     \<lparr>mr_TaskID = pr_TaskID proof, mr_MinerID = pr_Miner proof, mr_URL = pr_URL proof, mr_Page = pr_Page proof,
      mr_ProofHash = pr_ProofHash proof, mr_AppliedMultiplierBPS = adj_MultiplierBPS adjustment,
      mr_AppliedPrioritySectors = adj_PrioritySectors adjustment,
      mr_AdjustedDifficulty = adj_AdjustedDifficulty adjustment,
      mr_AdjustedBounty = Some (cloneBigInt (SetString (task_GrossBounty taskRecord))),
      mr_ArchitectFee = Some (cloneBigInt (SetString (task_ArchitectFee taskRecord))),
      mr_MinerReward = Some (cloneBigInt (SetString (task_MinerReward taskRecord))), mr_CompletedAt = pr_CreatedAt proof\<rparr>"

definition validate_proof ::
    "env \<Rightarrow> Rand \<Rightarrow> BlockImportValidator \<Rightarrow> Block \<Rightarrow> StateSnapshot \<Rightarrow> nat \<Rightarrow> CrawlProof \<Rightarrow> StateSnapshot res" where
  "validate_proof E R v block snapshot index proof =
     (case fmlookup (PendingTasks snapshot) (pr_TaskID proof) of
        None \<Rightarrow> Inl ErrTaskNotFound
      | Some taskRecord \<Rightarrow>
     (case crawlTaskFromRecord E taskRecord of
        Inl e \<Rightarrow> Inl e
      | Inr task \<Rightarrow>
     (case Registry_Apply E (biv_PriorityRegistry v) task (pr_URL proof) of
        Inl e \<Rightarrow> Inl e
      | Inr adjustment \<Rightarrow>
     (case validateImportedProof E taskRecord adjustment proof of
        Inl e \<Rightarrow> Inl e
      | Inr _ \<Rightarrow>
     (case (if index \<in> set (fullValidationIndexes R v block)
            then (case VerifyMiningResult task (claimed_result taskRecord adjustment proof) (biv_Validators v)
                         (rnd_Shuffle R (hdr_Number (blk_Header block) + of_nat (length (pr_TaskID proof)))) of
                    Inl e \<Rightarrow> Inl e
                  | Inr result \<Rightarrow> if vr_Approved result then Inr () else Inl ErrInvalidBlock)
            else Inr ()) of
        Inl e \<Rightarrow> Inl e
      | Inr _ \<Rightarrow>
     (case ApplyCrawlProof E snapshot proof (blk_Hash block) of Inl e \<Rightarrow> Inl e | Inr (next, _) \<Rightarrow> Inr next))))))"

fun validate_proofs ::
    "env \<Rightarrow> Rand \<Rightarrow> BlockImportValidator \<Rightarrow> Block \<Rightarrow> StateSnapshot \<Rightarrow> nat \<Rightarrow> CrawlProof list \<Rightarrow> unit res" where
  "validate_proofs E R v block snapshot index [] = Inr ()"
| "validate_proofs E R v block snapshot index (p # ps) =
     (case validate_proof E R v block snapshot index p of
        Inl e \<Rightarrow> Inl e
      | Inr next \<Rightarrow> validate_proofs E R v block next (Suc index) ps)"

text \<open>A nil validator is \<open>None\<close>.\<close>

definition ValidateBlock :: "env \<Rightarrow> Rand \<Rightarrow> BlockImportValidator option \<Rightarrow> StateSnapshot \<Rightarrow> Block \<Rightarrow> unit res" where
  "ValidateBlock E R validator preState block =
     (case validator of
        None \<Rightarrow> Inr ()
      | Some v \<Rightarrow>
          if biv_Validators v = [] \<or> body_CrawlProofs (blk_Body block) = [] then Inr ()
          else
            (case run_steps (apply_tx E (biv_ArchitectAddress v)) preState (body_Transactions (blk_Body block)) of
               Inl e \<Rightarrow> Inl e
             | Inr (snapshot, _) \<Rightarrow> validate_proofs E R v block snapshot 0 (body_CrawlProofs (blk_Body block))))"

section \<open>Importing\<close>

text \<open>
  The queue of \<open>ImportRemoteBlock\<close>: the block, then the orphans that waited for it. The error, if
  any, ends the loop; the chain and the buffer keep what was done before.
\<close>

datatype import_step = Continue Blockchain "ForkChoice option" "Block list" | Stop Blockchain "ForkChoice option" err

definition import_candidate ::
    "env \<Rightarrow> Rand \<Rightarrow> BlockImportValidator option \<Rightarrow> Blockchain \<Rightarrow> ForkChoice option \<Rightarrow> Block \<Rightarrow> Block list \<Rightarrow> import_step option" where
  "import_candidate E R validator chain f candidate queue =
     (case (case validator of
              None \<Rightarrow> Inr ()
            | Some v \<Rightarrow>
                (case ParentState chain candidate of
                   Inl e \<Rightarrow> Inl e
                 | Inr parentState \<Rightarrow> ValidateBlock E R (Some v) parentState candidate)) of
        Inl e \<Rightarrow> Some (Stop chain f e)
      | Inr _ \<Rightarrow>
          (case ImportBlock E chain candidate of
             None \<Rightarrow> None
           | Some (Inl e) \<Rightarrow> Some (if e = ErrBlockNotFound then Continue chain f queue else Stop chain f e)
           | Some (Inr chain') \<Rightarrow>
               (let (f', released) = CanonicalImported f candidate in Some (Continue chain' f' (released @ queue)))))"

definition import_one ::
    "env \<Rightarrow> Rand \<Rightarrow> BlockImportValidator option \<Rightarrow> Blockchain \<Rightarrow> ForkChoice option \<Rightarrow> Block \<Rightarrow> Block list \<Rightarrow> import_step option" where
  "import_one E R validator chain f candidate queue =
     (let hasBlock = HasBlockHash chain (blk_Hash candidate);
          hasParent = (hdr_Number (blk_Header candidate) = 0 \<or> HasBlockHash chain (hdr_ParentHash (blk_Header candidate)));
          (f', decision) = Decide f candidate hasBlock hasParent
      in (case decision of
            ForkDecisionIgnore \<Rightarrow> Some (Continue chain f' queue)
          | ForkDecisionBuffer \<Rightarrow> Some (Continue chain f' queue)
          | ForkDecisionReject \<Rightarrow> Some (Stop chain f' ErrForkNotPreferred)
          | ForkDecisionImport \<Rightarrow> import_candidate E R validator chain f' candidate queue))"

partial_function (option) import_queue ::
    "env \<Rightarrow> Rand \<Rightarrow> BlockImportValidator option \<Rightarrow> Blockchain \<Rightarrow> ForkChoice option \<Rightarrow> Block list
     \<Rightarrow> (Blockchain \<times> ForkChoice option \<times> unit res) option" where
  "import_queue E R validator chain f queue =
     (case queue of
        [] \<Rightarrow> Some (chain, f, Inr ())
      | candidate # rest \<Rightarrow>
          (case import_one E R validator chain f candidate rest of
             None \<Rightarrow> None
           | Some (Stop chain' f' e) \<Rightarrow> Some (chain', f', Inl e)
           | Some (Continue chain' f' queue') \<Rightarrow> import_queue E R validator chain' f' queue'))"

definition ImportRemoteBlock ::
    "env \<Rightarrow> Rand \<Rightarrow> BlockImportValidator option \<Rightarrow> Blockchain option \<Rightarrow> ForkChoice option \<Rightarrow> Block
     \<Rightarrow> (Blockchain option \<times> ForkChoice option \<times> unit res) option" where
  "ImportRemoteBlock E R validator chain f block =
     (case chain of
        None \<Rightarrow> Some (None, f, Inl ErrInvalidBlock)
      | Some c \<Rightarrow>
          (case import_queue E R validator c f [block] of
             None \<Rightarrow> None
           | Some (c', f', r) \<Rightarrow> Some (Some c', f', r)))"

end
