(* ===== verification/Remote_Import.thy ===== *)
theory Remote_Import
  imports Validation Chain_Properties Useful_Work
begin

text \<open>
  What importing a block from another node guarantees: the loop over the block and its waiting
  descendants ends, keeps the chain invariant, and never leaves a block waiting whose parent is known.
\<close>

section \<open>Known blocks\<close>

lemma has_stored:
  assumes "chain_inv g bc"
  shows "HasBlockHash bc h \<longleftrightarrow> TrimSpace h \<noteq> [] \<and> h |\<in>| fmdom (st_blocks (bc_db bc))"
proof -
  have "fmlookup (st_blocks (bc_db bc)) (blk_Hash (bc_latest bc)) = Some (bc_latest bc)" using assms by (simp add: chain_inv_def)
  then show ?thesis
    by (auto simp: HasBlockHash_def GetBlockByHash_def loadBlockTxn_def fmdom_notD fmdomI split: option.splits)
qed

lemma adopt_all_blocks: "adopt_all st ms = Inr st' \<Longrightarrow> st_blocks st' = st_blocks st"
proof (induction ms arbitrary: st)
  case (Cons m ms)
  then obtain st1 where "adopt st m = Inr st1" "adopt_all st1 ms = Inr st'" by (auto split: sum.splits)
  with Cons.IH show ?case by (auto simp: adopt_def storeBlockMetaTxn_def Let_def split: sum.splits)
qed simp

lemma retire_all_blocks: "st_blocks (fold retire ms st) = st_blocks st"
  by (induction ms arbitrary: st) (simp_all add: retire_def storeBlockMetaTxn_def Let_def)

lemma rewrite_blocks: "rewriteCanonicalTip h0 h1 st = Some (Inr st') \<Longrightarrow> st_blocks st' = st_blocks st"
  by (auto simp: rewriteCanonicalTip_def andThen_def retire_all_blocks dest!: adopt_all_blocks split: if_splits option.splits sum.splits)

lemma store_import_blocks:
  "storeImportedBlockLocked E bc s b m c = Some (Inr bc') \<Longrightarrow> st_blocks (bc_db bc') = fmupd (blk_Hash b) b (st_blocks (bc_db bc))"
  by (auto simp: storeImportedBlockLocked_def Let_def andThen_def set_tip_def
      dest!: rewrite_blocks persistNetworkConfig_frame(5) split: if_splits option.splits sum.splits)

lemma import_effect:
  assumes reach: "chain_reach E g bc" and sha: "sha256_len E" and num: "hdr_Number (blk_Header b) \<noteq> 0"
    and import: "ImportBlock E bc b = Some (Inr bc')"
  shows "chain_reach E g bc'" "HasBlockHash bc' h \<longleftrightarrow> HasBlockHash bc h \<or> h = blk_Hash b"
proof -
  show reach': "chain_reach E g bc'" by (rule chain_reach_step [OF reach chain_step.imported [OF import num]])
  note inv = chain_reach_inv [OF reach sha] and inv' = chain_reach_inv [OF reach' sha]
  have "blk_Hash b \<in> dom (tree_of (bc_db bc'))" using ImportBlock_step [OF inv sha num] import by auto
  then have new: "HasBlockHash bc' (blk_Hash b)" by (intro stored_found [OF inv']) auto
  have "bc' = bc \<or> (\<exists>c. blk_Hash c = blk_Hash b \<and> st_blocks (bc_db bc') = fmupd (blk_Hash c) c (st_blocks (bc_db bc)))"
  proof (cases rule: ImportBlock_cases [of E bc b, case_names rejected known added])
    case (added parent pm st pb better)
    then show ?thesis using import store_import_blocks prepared_fields(5) [OF added(5)] by fastforce
  qed (use import in auto)
  then show "HasBlockHash bc' h \<longleftrightarrow> HasBlockHash bc h \<or> h = blk_Hash b"
    using new unfolding has_stored [OF inv] has_stored [OF inv'] by auto
qed

section \<open>One block of the queue\<close>

definition waits :: "Blockchain \<Rightarrow> ForkChoice option \<Rightarrow> bool" where
  "waits bc f \<longleftrightarrow> (\<forall>fc. f = Some fc \<longrightarrow> fc_inv fc \<and>
     (\<forall>b\<in>buffered fc. hdr_Number (blk_Header b) \<noteq> 0 \<and> \<not> HasBlockHash bc (parent_of b)))"

definition ready :: "Blockchain \<Rightarrow> Block list \<Rightarrow> bool" where
  "ready bc q \<longleftrightarrow> (\<forall>b\<in>set q. hdr_Number (blk_Header b) \<noteq> 0 \<and> HasBlockHash bc (parent_of b))"

definition waiting :: "ForkChoice option \<Rightarrow> nat" where
  "waiting f = (case f of None \<Rightarrow> 0 | Some fc \<Rightarrow> card (buffered fc))"

lemma finite_buffered: "finite (buffered fc)"
proof (rule finite_subset)
  show "buffered fc \<subseteq> fset (fmran (bufferedByHash fc))" by (auto simp: buffered_def intro: fmranI)
qed simp

lemma release:
  assumes w: "waits bc f" and rel: "CanonicalImported f c = (f', bs)"
    and known: "\<And>h. HasBlockHash bc' h \<longleftrightarrow> HasBlockHash bc h \<or> h = blk_Hash c"
  shows "waits bc' f'" "ready bc' bs" "length bs + waiting f' = waiting f"
proof -
  have "waits bc' f' \<and> ready bc' bs \<and> length bs + waiting f' = waiting f"
  proof (cases f)
    case None
    then show ?thesis using rel by (simp add: CanonicalImported_def waits_def ready_def waiting_def)
  next
    case (Some fc)
    then obtain fc' where take: "takeBufferedChildrenLocked fc (blk_Hash c) = (fc', bs)" and f': "f' = Some fc'"
      using rel by (auto simp: CanonicalImported_def split: prod.splits)
    have inv: "fc_inv fc" and orphans: "\<And>b. b \<in> buffered fc \<Longrightarrow> hdr_Number (blk_Header b) \<noteq> 0 \<and> \<not> HasBlockHash bc (parent_of b)"
      using w Some by (auto simp: waits_def)
    note t = take_spec [OF inv take]
    have "length bs = card {b \<in> buffered fc. parent_of b = blk_Hash c}" using t(3,4) by (metis distinct_card)
    moreover have "card (buffered fc) = card {b \<in> buffered fc. parent_of b = blk_Hash c} + card {b \<in> buffered fc. parent_of b \<noteq> blk_Hash c}"
      using finite_buffered [of fc] by (subst card_Un_disjoint [symmetric]) (auto intro: arg_cong [where f = card])
    ultimately have "length bs + waiting f' = waiting f" by (simp add: Some f' waiting_def t(2))
    moreover have "waits bc' f'" using t(1) orphans by (auto simp: waits_def f' t(2) known)
    moreover have "ready bc' bs" using orphans by (auto simp: ready_def t(3) known)
    ultimately show ?thesis by blast
  qed
  then show "waits bc' f'" "ready bc' bs" "length bs + waiting f' = waiting f" by simp_all
qed

text \<open>What holds between two rounds of the loop.\<close>

definition queue_ok :: "env \<Rightarrow> string \<Rightarrow> Blockchain \<Rightarrow> ForkChoice option \<Rightarrow> Block list \<Rightarrow> bool" where
  "queue_ok E g bc f q \<longleftrightarrow> chain_reach E g bc \<and> waits bc f \<and> ready bc q"

definition step_ok :: "env \<Rightarrow> string \<Rightarrow> nat option \<Rightarrow> import_step \<Rightarrow> bool" where
  "step_ok E g bound s = (case s of
      Stop bc f e \<Rightarrow> queue_ok E g bc f []
    | Continue bc f q \<Rightarrow> queue_ok E g bc f q \<and> (\<forall>n. bound = Some n \<longrightarrow> length q + waiting f \<le> n))"

lemma step_ok_simps [simp]:
  "step_ok E g bound (Stop bc f e) \<longleftrightarrow> queue_ok E g bc f []"
  "step_ok E g bound (Continue bc f q) \<longleftrightarrow> queue_ok E g bc f q \<and> (\<forall>n. bound = Some n \<longrightarrow> length q + waiting f \<le> n)"
  by (simp_all add: step_ok_def)

lemma step_ok_weaken: "step_ok E g (Some n) s \<Longrightarrow> step_ok E g (if P then Some n else None) s"
  by (cases s) auto

lemma import_candidate_step:
  assumes ok: "queue_ok E g bc f q" and sha: "sha256_len E" and num: "hdr_Number (blk_Header c) \<noteq> 0"
  shows "\<exists>s. import_candidate E R v bc f c q = Some s \<and> step_ok E g (Some (length q + waiting f)) s"
proof -
  have reach: "chain_reach E g bc" and w: "waits bc f" and r: "ready bc q" using ok by (simp_all add: queue_ok_def)
  let ?check = "case v of None \<Rightarrow> Inr () | Some w \<Rightarrow> (case ParentState bc c of Inl e \<Rightarrow> Inl e
    | Inr parentState \<Rightarrow> ValidateBlock E R (Some w) parentState c)"
  have stop: "queue_ok E g bc f []" using ok by (simp add: queue_ok_def ready_def)
  obtain res where res: "ImportBlock E bc c = Some res"
    using ImportBlock_step [OF chain_reach_inv [OF reach sha] sha num] by blast
  show ?thesis
  proof (cases "\<exists>bc'. ?check = Inr () \<and> res = Inr bc'")
    case True
    then obtain bc' where check: "?check = Inr ()" and import: "ImportBlock E bc c = Some (Inr bc')" using res by blast
    note eff = import_effect [OF reach sha num import]
    obtain f' bs where rel: "CanonicalImported f c = (f', bs)" by fastforce
    note released = release [OF w rel eff(2)]
    have "ready bc' q" using r eff(2) by (auto simp: ready_def)
    then have "queue_ok E g bc' f' (bs @ q)" using eff(1) released by (auto simp: queue_ok_def ready_def)
    then show ?thesis using check import rel released(3) by (simp add: import_candidate_def)
  next
    case False
    then consider e where "?check = Inl e" | e where "?check = Inr ()" "res = Inl e"
      by (cases ?check; cases res) auto
    then show ?thesis
      by cases (use ok stop res in \<open>simp_all add: import_candidate_def\<close>)
  qed
qed

lemma import_one_step:
  assumes ok: "queue_ok E g bc f q" and sha: "sha256_len E" and num: "hdr_Number (blk_Header c) \<noteq> 0"
  shows "\<exists>s. import_one E R v bc f c q = Some s
    \<and> step_ok E g (if HasBlockHash bc (parent_of c) then Some (length q + waiting f) else None) s"
proof -
  obtain f' d where dec: "Decide f c (HasBlockHash bc (blk_Hash c)) (HasBlockHash bc (parent_of c)) = (f', d)" by fastforce
  have one: "import_one E R v bc f c q = (case d of ForkDecisionIgnore \<Rightarrow> Some (Continue bc f' q)
      | ForkDecisionBuffer \<Rightarrow> Some (Continue bc f' q) | ForkDecisionReject \<Rightarrow> Some (Stop bc f' ErrForkNotPreferred)
      | ForkDecisionImport \<Rightarrow> import_candidate E R v bc f' c q)"
    using dec num by (simp add: import_one_def Let_def)
  have shape: "f' = f \<and> d \<noteq> ForkDecisionReject \<and> (d = ForkDecisionBuffer \<longrightarrow> \<not> HasBlockHash bc (parent_of c))
    \<or> (\<exists>fc. f = Some fc \<and> f' = Some (bufferLocked fc c) \<and> d = ForkDecisionBuffer \<and> \<not> HasBlockHash bc (parent_of c))"
    using dec by (auto simp: Decide_def split: option.splits if_splits)
  show ?thesis
  proof (cases "f' = f")
    case True
    show ?thesis
    proof (cases "d = ForkDecisionImport")
      case imp: True
      then show ?thesis
        using import_candidate_step [OF ok sha num, of R v] step_ok_weaken unfolding one True by fastforce
    qed (use shape ok True in \<open>cases d; simp add: one\<close>)
  next
    case False
    then obtain fc where fc: "f = Some fc" "f' = Some (bufferLocked fc c)" "d = ForkDecisionBuffer" "\<not> HasBlockHash bc (parent_of c)"
      using shape by blast
    have "fc_inv fc" using ok fc(1) by (simp add: queue_ok_def waits_def)
    note buf = buffer_inv [OF this, of c]
    have "waits bc f'" using ok buf fc num by (auto simp: queue_ok_def waits_def)
    then show ?thesis using ok fc unfolding one by (simp add: queue_ok_def)
  qed
qed

lemma import_queue_run:
  assumes "queue_ok E g bc f q" and sha: "sha256_len E"
  shows "\<exists>bc' f' r. import_queue E R v bc f q = Some (bc', f', r) \<and> queue_ok E g bc' f' []"
  using assms(1)
proof (induction "length q + waiting f" arbitrary: bc f q rule: less_induct)
  case less
  show ?case
  proof (cases q)
    case Nil
    then show ?thesis using less.prems by (subst import_queue.simps) simp
  next
    case (Cons c rest)
    have ok: "queue_ok E g bc f rest" and c: "hdr_Number (blk_Header c) \<noteq> 0" "HasBlockHash bc (parent_of c)"
      using less.prems Cons by (simp_all add: queue_ok_def ready_def)
    obtain s where s: "import_one E R v bc f c rest = Some s" and next_ok: "step_ok E g (Some (length rest + waiting f)) s"
      using import_one_step [OF ok sha c(1), of R v] c(2) by auto
    show ?thesis
    proof (cases s)
      case (Continue bc' f' q')
      then show ?thesis using less.hyps [of q' f' bc'] next_ok s Cons by (subst import_queue.simps) simp
    next
      case (Stop bc' f' e)
      then show ?thesis using next_ok s Cons by (subst import_queue.simps) simp
    qed
  qed
qed

lemma import_remote_run:
  assumes "chain_reach E g bc" "waits bc f" and sha: "sha256_len E" and num: "hdr_Number (blk_Header b) \<noteq> 0"
  shows "\<exists>bc' f' r. ImportRemoteBlock E R v (Some bc) f b = Some (Some bc', f', r) \<and> chain_reach E g bc' \<and> waits bc' f'"
proof -
  have ok: "queue_ok E g bc f []" using assms by (simp add: queue_ok_def ready_def)
  obtain s bound where s: "import_one E R v bc f b [] = Some s" and next_ok: "step_ok E g bound s"
    using import_one_step [OF ok sha num, of R v] by blast
  have "\<exists>bc' f' r. import_queue E R v bc f [b] = Some (bc', f', r) \<and> queue_ok E g bc' f' []"
  proof (cases s)
    case (Continue bc' f' q')
    then show ?thesis using import_queue_run [of E g bc' f' q'] next_ok s sha by (subst import_queue.simps) simp
  next
    case (Stop bc' f' e)
    then show ?thesis using next_ok s by (subst import_queue.simps) simp
  qed
  then show ?thesis by (auto simp: ImportRemoteBlock_def queue_ok_def)
qed

section \<open>A node that mines and imports\<close>

text \<open>
  The chain and the buffer of a node: blocks arrive from others, and the node mines. No block waits for
  the block that is being mined.
\<close>

inductive node_step :: "env \<Rightarrow> Rand \<Rightarrow> BlockImportValidator option \<Rightarrow> Blockchain \<times> ForkChoice option \<Rightarrow>
    Blockchain \<times> ForkChoice option \<Rightarrow> bool" for E R v where
  remote: "ImportRemoteBlock E R v (Some bc) f b = Some (Some bc', f', r) \<Longrightarrow> hdr_Number (blk_Header b) \<noteq> 0 \<Longrightarrow>
    node_step E R v (bc, f) (bc', f')"
| own: "MineBlock E bc miner txs proofs = Some (Inr (bc', b)) \<Longrightarrow> hdr_Number (blk_Header (bc_latest bc)) \<noteq> - 1 \<Longrightarrow>
    fmlookup (st_metas (bc_db bc)) (blk_Hash b) = None \<Longrightarrow>
    (\<And>fc c. f = Some fc \<Longrightarrow> c \<in> buffered fc \<Longrightarrow> parent_of c \<noteq> blk_Hash b) \<Longrightarrow> node_step E R v (bc, f) (bc', f)"

lemma mine_blocks:
  assumes "MineBlock E bc miner txs proofs = Some (Inr (bc', b))"
  shows "st_blocks (bc_db bc') = fmupd (blk_Hash b) b (st_blocks (bc_db bc))"
  using assms
  by (auto simp: MineBlock_unfold andThen_def persistCanonicalTipLocked_def set_tip_def
      dest!: rewrite_blocks persistNetworkConfig_frame(5) split: option.splits sum.splits)

lemma node_step_ok:
  assumes "node_step E R v s s'" and "chain_reach E g (fst s)" "waits (fst s) (snd s)" and sha: "sha256_len E"
  shows "chain_reach E g (fst s') \<and> waits (fst s') (snd s')"
  using assms(1-3)
proof (induction rule: node_step.induct)
  case (remote bc f b bc' f' r)
  then show ?case using import_remote_run [OF _ _ sha, of g bc f b R v] by fastforce
next
  case (own bc miner txs proofs bc' b f)
  have reach': "chain_reach E g bc'"
    using chain_reach_step [of E g bc] chain_step.mined [OF own(1,2,3)] own by simp
  have "HasBlockHash bc' h \<Longrightarrow> HasBlockHash bc h \<or> h = blk_Hash b" for h
    using has_stored [OF chain_reach_inv [OF reach' sha]] has_stored [OF chain_reach_inv [OF _ sha], of g bc] own
    by (auto simp: mine_blocks [OF own(1)])
  then show ?case using own reach' by (fastforce simp: waits_def)
qed

section \<open>Properties\<close>


definition identity_rand :: Rand where
  "identity_rand = \<lparr>rnd_Shuffle = \<lambda>_ xs. xs, rnd_Perm = \<lambda>_ n. [0..<n]\<rparr>"


section \<open>What validation accepts\<close>

lemma Registry_Apply_split:
  "Registry_Apply E r task u = Inr a \<Longrightarrow> adj_AdjustedBounty a = adj_ArchitectFee a + adj_NetMinerReward a"
  by (auto simp: Registry_Apply_def Let_def split: sum.splits if_splits)

text \<open>What has been checked of one proof of a block.\<close>

definition proof_checked :: "env \<Rightarrow> Rand \<Rightarrow> BlockImportValidator \<Rightarrow> Block \<Rightarrow> nat \<Rightarrow> CrawlProof \<Rightarrow> bool" where
  "proof_checked E R v block i p \<longleftrightarrow> (\<exists>record task a. crawlTaskFromRecord E record = Inr task
     \<and> Registry_Apply E (biv_PriorityRegistry v) task (pr_URL p) = Inr a
     \<and> TrimSpace (pr_URL p) = TrimSpace (task_URL record) \<and> TrimSpace (pr_Query p) = TrimSpace (task_Query record)
     \<and> SetString (TrimSpace (pr_GrossBounty p)) = Some (adj_AdjustedBounty a)
     \<and> SetString (TrimSpace (pr_ArchitectFee p)) = Some (adj_ArchitectFee a)
     \<and> SetString (TrimSpace (pr_MinerReward p)) = Some (adj_NetMinerReward a)
     \<and> adj_AdjustedBounty a = adj_ArchitectFee a + adj_NetMinerReward a
     \<and> TrimSpace (pr_ProofHash p) = computeCrawlProofHash E p
     \<and> (i \<in> set (fullValidationIndexes R v block) \<longrightarrow>
          2 \<le> length (filter (supports task (claimed_result record a p))
                (take 3 (rnd_Shuffle R (hdr_Number (blk_Header block) + of_nat (length (pr_TaskID p)))
                  (eligible (claimed_result record a p) (biv_Validators v)))))))"

lemma validate_proof_checked:
  assumes "validate_proof E R v block st i p = Inr st'"
  shows "proof_checked E R v block i p"
proof -
  obtain rec task a where run: "crawlTaskFromRecord E rec = Inr task"
    "Registry_Apply E (biv_PriorityRegistry v) task (pr_URL p) = Inr a" "validateImportedProof E rec a p = Inr ()"
    and full: "i \<in> set (fullValidationIndexes R v block) \<Longrightarrow> \<exists>result. VerifyMiningResult task (claimed_result rec a p) (biv_Validators v)
      (rnd_Shuffle R (hdr_Number (blk_Header block) + of_nat (length (pr_TaskID p)))) = Inr result \<and> vr_Approved result"
    using assms unfolding validate_proof_def by (auto split: option.splits sum.splits if_splits)
  have "i \<in> set (fullValidationIndexes R v block) \<longrightarrow> 2 \<le> length (filter (supports task (claimed_result rec a p))
      (take 3 (rnd_Shuffle R (hdr_Number (blk_Header block) + of_nat (length (pr_TaskID p)))
        (eligible (claimed_result rec a p) (biv_Validators v)))))"
    using full approval_counts [OF _ refl] by blast
  moreover have "SetString (TrimSpace (pr_GrossBounty p)) = Some (adj_AdjustedBounty a)"
    "SetString (TrimSpace (pr_ArchitectFee p)) = Some (adj_ArchitectFee a)"
    "SetString (TrimSpace (pr_MinerReward p)) = Some (adj_NetMinerReward a)"
    "TrimSpace (pr_URL p) = TrimSpace (task_URL rec)" "TrimSpace (pr_Query p) = TrimSpace (task_Query rec)"
    "TrimSpace (pr_ProofHash p) = computeCrawlProofHash E p"
    using run(3) by (auto simp: validateImportedProof_def split: if_splits)
       (metis SetString_show_int)+
  ultimately show ?thesis
    unfolding proof_checked_def using run(1,2) Registry_Apply_split by blast
qed

lemma validate_proofs_checked:
  "validate_proofs E R v block st k ps = Inr () \<Longrightarrow> i < length ps \<Longrightarrow> proof_checked E R v block (k + i) (ps ! i)"
proof (induction ps arbitrary: st k i)
  case (Cons p ps)
  then obtain st' where "validate_proof E R v block st k p = Inr st'" "validate_proofs E R v block st' (Suc k) ps = Inr ()"
    by (auto split: sum.splits)
  then show ?case using Cons.IH [of st' "Suc k" "i - 1"] Cons.prems(2) validate_proof_checked by (cases i) auto
qed simp

lemma sample_size:
  assumes "\<And>seed n. mset (rnd_Perm R seed n) = mset [0..<n]"
  shows "distinct (fullValidationIndexes R v block)"
    "set (fullValidationIndexes R v block) \<subseteq> {..<length (body_CrawlProofs (blk_Body block))}"
    "biv_Mode v = ValidationModeSampled \<Longrightarrow> 0 < biv_SampleSize v \<Longrightarrow> length (fullValidationIndexes R v block) =
       min (nat (biv_SampleSize v)) (length (body_CrawlProofs (blk_Body block)))"
    "biv_Mode v \<noteq> ValidationModeSampled \<Longrightarrow> biv_Mode v \<noteq> ValidationModeOpportunistic \<Longrightarrow>
       fullValidationIndexes R v block = [0..<length (body_CrawlProofs (blk_Body block))]"
proof -
  have perm: "distinct (rnd_Perm R seed n)" "set (rnd_Perm R seed n) = {..<n}" "length (rnd_Perm R seed n) = n" for seed n
  proof -
    show "distinct (rnd_Perm R seed n)" using assms [of seed n] by (metis distinct_upt mset_eq_imp_distinct_iff)
    have "set (rnd_Perm R seed n) = set [0..<n]" using assms [of seed n] by (metis set_mset_mset)
    then show "set (rnd_Perm R seed n) = {..<n}" by (simp add: lessThan_atLeast0)
    show "length (rnd_Perm R seed n) = n" using assms [of seed n] by (metis length_upt size_mset diff_zero)
  qed
  show "distinct (fullValidationIndexes R v block)" using perm by (simp add: fullValidationIndexes_def Let_def)
  show "set (fullValidationIndexes R v block) \<subseteq> {..<length (body_CrawlProofs (blk_Body block))}"
    using perm(2) by (auto simp: fullValidationIndexes_def Let_def split: if_splits dest: in_set_takeD)
  show "length (fullValidationIndexes R v block) = min (nat (biv_SampleSize v)) (length (body_CrawlProofs (blk_Body block)))"
    if "biv_Mode v = ValidationModeSampled" "0 < biv_SampleSize v"
    using that perm(3) by (auto simp: fullValidationIndexes_def Let_def validation_modes)
  show "fullValidationIndexes R v block = [0..<length (body_CrawlProofs (blk_Body block))]"
    if "biv_Mode v \<noteq> ValidationModeSampled" "biv_Mode v \<noteq> ValidationModeOpportunistic"
    using that by (auto simp: fullValidationIndexes_def Let_def validation_modes)
qed


lemma TrimSpace_hex [simp]: "TrimSpace (hex_encode bs) = hex_encode bs"
  by (intro TrimSpace_visible) (metis hex_encode_visible hd_in_set last_in_set)

definition checked_proof :: CrawlProof where
  "checked_proof = toy_normal\<lparr>pr_Query := ''q''\<rparr>"

definition checked_state :: StateSnapshot where
  "checked_state = toy_escrow\<lparr>PendingTasks := fmupd ''t'' (toy_task\<lparr>task_Query := ''q''\<rparr>) fmempty\<rparr>"

definition checked_block :: Block where
  "checked_block = toy_block\<lparr>blk_Body := \<lparr>body_Transactions = [], body_CrawlProofs = [checked_proof]\<rparr>\<rparr>"

definition checked_validator :: BlockImportValidator where
  "checked_validator = NewLocalBlockImportValidator toy_env (Some (\<lambda>t u. Inr (pr_Page toy_proof))) None []"

lemma checked_task: "\<exists>task. crawlTaskFromRecord toy_env (toy_task\<lparr>task_Query := ''q''\<rparr>) = Inr task \<and> ct_BaseBounty task = Some 100
    \<and> baseDifficulty task = 0 \<and> ct_DataVolumeBytes task = 0"
proof -
  have "TrimSpace ''100'' = ''100''" "TrimSpace ''q'' = ''q''" by (rule TrimSpace_visible, simp add: visible_def byte_def)+
  moreover have "SetString ''100'' = Some 100" by code_simp
  ultimately show ?thesis
    by (simp add: crawlTaskFromRecord_def toy_task_def NewCrawlTask_def normalizeSeedURLs_def toy_url QuoteBounty_def cloneBigInt_def
        Let_def baseDifficulty_def)
qed

lemma checked_quote:
  assumes "ct_BaseBounty task = Some 100" "baseDifficulty task = 0" "ct_DataVolumeBytes task = 0"
  shows "\<exists>a. Registry_Apply toy_env None task ''u'' = Inr a \<and> adj_AdjustedBounty a = 100 \<and> adj_ArchitectFee a = 3 \<and> adj_NetMinerReward a = 97"
  using assms
  by (simp add: Registry_Apply_def toy_url quoteBaseTaskBounty_def QuoteBounty_def cloneBigInt_def Snapshot_def Let_def ArchitectFee_def)

lemma checked_settles: "\<exists>st q. ApplyCrawlProof toy_env checked_state checked_proof h = Inr (st, q)"
proof -
  have q: "TrimSpace ''q'' = ''q''" by (rule TrimSpace_visible, simp add: visible_def byte_def)
  have page: "normalize_page (pr_Page checked_proof) = pr_Page checked_proof"
    by (simp add: normalize_page_def checked_proof_def toy_normal_def toy_proof_def truncateUTF8Bytes_def truncateOutboundLinks_def)
  have "TrimSpace (pr_TaskID checked_proof) = ''t''" "TrimSpace (pr_URL checked_proof) = pr_URL checked_proof" "pr_TaskID checked_proof = ''t''"
    "TrimSpace (pr_Miner checked_proof) = pr_Miner checked_proof" "TrimSpace (pr_TaskTxHash checked_proof) = pr_TaskTxHash checked_proof"
    "TrimSpace (pr_Query checked_proof) = pr_Query checked_proof" "pr_ProofHash checked_proof = computeCrawlProofHash toy_env checked_proof"
    "TrimSpace (pr_ProofHash checked_proof) = pr_ProofHash checked_proof"
    "pr_URL checked_proof \<noteq> []" "pr_Miner checked_proof \<noteq> []" "pr_CreatedAt checked_proof = 1"
    using q normalizeCrawlProof_Inr(10) [OF toy_normalized]
    by (simp_all add: checked_proof_def toy_normal_def toy_proof_def computeCrawlProofHash_def)
  with page have "normalizeCrawlProof toy_env checked_proof = Inr checked_proof"
    by (simp add: normalizeCrawlProof_def Let_def computeCrawlProofHash_def)
  then show ?thesis
    by (simp add: ApplyCrawlProof_def)
      (simp add: checked_proof_def toy_normal_def toy_proof_def checked_state_def toy_task_def big_differs_def toy_escrow_def)
qed

lemma checked_approved:
  assumes task: "Registry_Apply toy_env None task ''u'' = Inr a"
    and a: "adj_AdjustedBounty a = 100" "adj_ArchitectFee a = 3" "adj_NetMinerReward a = 97"
  shows "\<exists>result. VerifyMiningResult task (claimed_result (toy_task\<lparr>task_Query := ''q''\<rparr>) a checked_proof)
    (biv_Validators checked_validator) (\<lambda>xs. xs) = Inr result \<and> vr_Approved result"
proof -
  let ?mined = "claimed_result (toy_task\<lparr>task_Query := ''q''\<rparr>) a checked_proof"
  define V where "V = (\<lambda>i. Validator toy_env (''validator-'' @ show_nat i) (Some (\<lambda>t u. Inr (pr_Page toy_proof))) None)"
  have url: "mr_URL ?mined = ''u''" by (simp add: claimed_result_def checked_proof_def toy_normal_def toy_proof_def)
  have "sameStringSet xs xs" for xs by (simp add: sameStringSet_def list_all_iff)
  then have "governanceMatches ?mined a"
    using a by (simp add: governanceMatches_def claimed_result_def toy_task_def cloneBigInt_def)
  moreover have "HammingDistance x x \<le> 3" for x by (simp add: HammingDistance_def)
  ultimately have all: "supports task ?mined (V i)" for i
    using task by (simp add: supports_def V_def Validator_def url applyGovernanceToTask_def toy_url)
      (simp add: claimed_result_def checked_proof_def toy_normal_def)
  have "''validator-'' @ x \<noteq> ''m''" for x by simp
  then have pool: "eligible ?mined (biv_Validators checked_validator) = map V [1, 2, 3]"
    by (simp add: eligible_def checked_validator_def NewLocalBlockImportValidator_def List.map_filter_def V_def Validator_def
        claimed_result_def checked_proof_def toy_normal_def toy_proof_def)
  have "\<exists>result. VerifyMiningResult task ?mined (biv_Validators checked_validator) (\<lambda>xs. xs) = Inr result"
    by (simp add: VerifyMiningResult_def sampleValidators_eligible pool ValidatorSampleSize_def Let_def)
  then obtain result where result: "VerifyMiningResult task ?mined (biv_Validators checked_validator) (\<lambda>xs. xs) = Inr result" by blast
  then show ?thesis using approval_counts [OF result refl] all by (simp add: pool)
qed

lemma checked_valid: "ValidateBlock toy_env identity_rand (Some checked_validator) checked_state checked_block = Inr ()"
proof -
  let ?rec = "toy_task\<lparr>task_Query := ''q''\<rparr>"
  obtain task where task: "crawlTaskFromRecord toy_env ?rec = Inr task" "ct_BaseBounty task = Some 100" "baseDifficulty task = 0"
    "ct_DataVolumeBytes task = 0" using checked_task by blast
  obtain a where a: "Registry_Apply toy_env None task ''u'' = Inr a" "adj_AdjustedBounty a = 100" "adj_ArchitectFee a = 3"
    "adj_NetMinerReward a = 97" using checked_quote [OF task(2-4)] by blast
  obtain result where result: "VerifyMiningResult task (claimed_result ?rec a checked_proof) (biv_Validators checked_validator) (\<lambda>xs. xs) = Inr result"
    "vr_Approved result" using checked_approved [OF a] by blast
  obtain st q where settled: "ApplyCrawlProof toy_env checked_state checked_proof (blk_Hash checked_block) = Inr (st, q)"
    using checked_settles by blast
  have valid: "validateImportedProof toy_env ?rec a checked_proof = Inr ()"
    using a by (simp add: validateImportedProof_def checked_proof_def toy_normal_def toy_proof_def toy_task_def computeCrawlProofHash_def)
  have "fmlookup (PendingTasks checked_state) (pr_TaskID checked_proof) = Some ?rec" "pr_URL checked_proof = ''u''"
    "biv_PriorityRegistry checked_validator = None" "biv_Validators checked_validator \<noteq> []"
    by (simp_all add: checked_state_def checked_proof_def toy_normal_def toy_proof_def checked_validator_def NewLocalBlockImportValidator_def)
  then show ?thesis
    using task(1) a(1) valid result settled
    by (simp add: ValidateBlock_def validate_proof_def) (simp add: checked_block_def validate_proof_def identity_rand_def)
qed


end
