(* ===== verification/Partition.thy ===== *)
theory Partition
  imports Mempool Settlement
begin

text \<open>
  How nodes that mine together share the search tasks (\<open>src/core/mining_partition.go\<close>): a hash of the task
  picks one worker from the sorted list of the workers a node knows. The list of peers is what the
  function \<open>workers\<close> returns at the time of the call.
\<close>

section \<open>Work items\<close>

datatype miningTaskSource = miningTaskSourceMempool | miningTaskSourceFrontier

record miningSearchTask =
  mst_source :: miningTaskSource
  mst_envelope :: SearchTaskEnvelope
  mst_record :: SearchTaskRecord

fun firstNonEmptyString :: "string list \<Rightarrow> string" where
  "firstNonEmptyString [] = []"
| "firstNonEmptyString (v # vs) = (if TrimSpace v \<noteq> [] then v else firstNonEmptyString vs)"

record MiningStatus =
  ms_MinerAddress :: string
  ms_PartitionEnabled :: bool
  ms_PartitionLocalWorker :: string
  ms_PartitionWorkerCount :: nat
  ms_PartitionWorkers :: "string list"
  ms_LastEvaluatedSearchTasks :: nat
  ms_LastOwnedSearchTasks :: nat
  ms_LastSkippedSearchTasks :: nat
  ms_LastOwnedMempoolTasks :: nat
  ms_LastOwnedFrontierTasks :: nat
  ms_UpdatedAt :: time

definition zero_MiningStatus :: MiningStatus where
  "zero_MiningStatus =
     \<lparr>ms_MinerAddress = [], ms_PartitionEnabled = False, ms_PartitionLocalWorker = [], ms_PartitionWorkerCount = 0,
      ms_PartitionWorkers = [], ms_LastEvaluatedSearchTasks = 0, ms_LastOwnedSearchTasks = 0, ms_LastSkippedSearchTasks = 0,
      ms_LastOwnedMempoolTasks = 0, ms_LastOwnedFrontierTasks = 0, ms_UpdatedAt = 0\<rparr>"

section \<open>Owners\<close>

record PeerTaskPartitioner =
  pt_localWorkerID :: string
  pt_workers :: "string list"
  pt_last :: MiningStatus

definition NewPeerTaskPartitioner :: "string \<Rightarrow> string list option \<Rightarrow> PeerTaskPartitioner option" where
  "NewPeerTaskPartitioner localWorkerID workers =
     (case workers of
        None \<Rightarrow> None
      | Some ws \<Rightarrow>
          if TrimSpace localWorkerID = [] then None
          else Some \<lparr>pt_localWorkerID = TrimSpace localWorkerID, pt_workers = ws, pt_last = zero_MiningStatus\<rparr>)"

fun append_workers :: "string list \<Rightarrow> string list \<Rightarrow> string list" where
  "append_workers out [] = out"
| "append_workers out (v # vs) =
     (let cleaned = TrimSpace v in
      if cleaned = [] \<or> cleaned \<in> set out then append_workers out vs
      else append_workers (out @ [cleaned]) vs)"

definition workerIDs :: "PeerTaskPartitioner \<Rightarrow> string list" where
  "workerIDs p = sort (append_workers [] (pt_localWorkerID p # pt_workers p))"

definition partitionTaskKey :: "miningSearchTask \<Rightarrow> string" where
  "partitionTaskKey item =
     (if mst_source item = miningTaskSourceMempool
      then firstNonEmptyString [tx_Hash (env_Transaction (mst_envelope item)), task_TxHash (mst_record item),
             task_ID (mst_record item), task_URL (mst_record item)]
      else firstNonEmptyString [task_ID (mst_record item), task_TxHash (mst_record item), task_URL (mst_record item)])"

definition partitionOwnerForTask :: "env \<Rightarrow> string list \<Rightarrow> miningSearchTask \<Rightarrow> string" where
  "partitionOwnerForTask E workers item =
     (if workers = [] then []
      else
        (let sum = sha256 E (partitionTaskKey item);
             slot = (of_nat (big_SetBytes (take 8 sum)) :: u64) mod of_nat (length workers)
         in workers ! unat slot))"

definition status_after :: "string list \<Rightarrow> string \<Rightarrow> miningSearchTask list \<Rightarrow> miningSearchTask list \<Rightarrow> MiningStatus \<Rightarrow> MiningStatus" where
  "status_after workers localWorker owned skipped status =
     status\<lparr>ms_PartitionLocalWorker := localWorker, ms_PartitionWorkerCount := length workers, ms_PartitionWorkers := workers,
            ms_LastOwnedSearchTasks := length owned, ms_LastSkippedSearchTasks := length skipped,
            ms_LastOwnedMempoolTasks := length (filter (\<lambda>i. mst_source i = miningTaskSourceMempool) owned),
            ms_LastOwnedFrontierTasks := length (filter (\<lambda>i. mst_source i = miningTaskSourceFrontier) owned)\<rparr>"

text \<open>A nil partitioner is \<open>None\<close>; the result carries the partitioner with its last status.\<close>

definition FilterWorkItems ::
    "env \<Rightarrow> PeerTaskPartitioner option \<Rightarrow> miningSearchTask list
     \<Rightarrow> PeerTaskPartitioner option \<times> miningSearchTask list \<times> miningSearchTask list \<times> MiningStatus" where
  "FilterWorkItems E p workItems =
     (let status = zero_MiningStatus\<lparr>ms_PartitionEnabled := (p \<noteq> None), ms_LastEvaluatedSearchTasks := length workItems,
                     ms_LastOwnedSearchTasks := length workItems, ms_UpdatedAt := now E\<rparr>
      in (case p of
            None \<Rightarrow> (None, workItems, [], status)
          | Some pt \<Rightarrow>
              let workers = workerIDs pt in
              if workers = [] then
                (Some pt, workItems, [],
                 status\<lparr>ms_PartitionLocalWorker := pt_localWorkerID pt, ms_PartitionWorkerCount := 0,
                        ms_PartitionWorkers := [], ms_PartitionEnabled := False\<rparr>)
              else
                (let mine = (\<lambda>item. partitionOwnerForTask E workers item = pt_localWorkerID pt);
                     owned = filter mine workItems;
                     skipped = filter (\<lambda>item. \<not> mine item) workItems;
                     result = status_after workers (pt_localWorkerID pt) owned skipped status
                 in (Some (pt\<lparr>pt_last := result\<rparr>), owned, skipped, result))))"

definition Partitioner_Snapshot :: "PeerTaskPartitioner option \<Rightarrow> MiningStatus" where
  "Partitioner_Snapshot p = (case p of None \<Rightarrow> zero_MiningStatus | Some pt \<Rightarrow> pt_last pt)"

section \<open>Every task has one owner\<close>

lemma append_workers_spec:
  "distinct out \<Longrightarrow> distinct (append_workers out vs) \<and> set (append_workers out vs) = set out \<union> ({TrimSpace v | v. v \<in> set vs} - {[]})"
proof (induction vs arbitrary: out)
  case (Cons v vs)
  then show ?case by (auto simp: Let_def)
qed simp

lemma workerIDs_spec: "distinct (workerIDs p)"
  "set (workerIDs p) = {TrimSpace v | v. v = pt_localWorkerID p \<or> v \<in> set (pt_workers p)} - {[]}"
  using append_workers_spec [of "[]" "pt_localWorkerID p # pt_workers p"] by (auto simp: workerIDs_def)

lemma owner_mem:
  assumes "workers \<noteq> []" and "length workers < 2 ^ 64"
  shows "partitionOwnerForTask E workers item \<in> set workers"
proof -
  let ?x = "of_nat (big_SetBytes (take 8 (sha256 E (partitionTaskKey item)))) :: u64"
  have u: "unat (of_nat (length workers) :: u64) = length workers" using assms(2) by (simp add: unat_of_nat take_bit_nat_eq_self)
  have "unat (?x mod of_nat (length workers)) < length workers"
    using assms(1) by (simp add: unat_mod_distrib u)
  then show ?thesis using assms(1) by (simp add: partitionOwnerForTask_def Let_def)
qed

text \<open>
  C25: among nodes that know the same set of workers, each task is mined by exactly one of them: the worker lists
  agree whatever order, repetition or white space the peers are reported with, and of a partition the owned and
  skipped tasks of the local node are a split of its tasks.
\<close>

theorem partition_one_owner:
  assumes "ps \<noteq> []" and "distinct (map pt_localWorkerID ps)"
    and "\<And>p. p \<in> set ps \<Longrightarrow> TrimSpace (pt_localWorkerID p) = pt_localWorkerID p \<and> pt_localWorkerID p \<noteq> []"
    and "\<And>p. p \<in> set ps \<Longrightarrow>
       {TrimSpace w | w. w \<in> set (pt_workers p)} - {pt_localWorkerID p, []} = pt_localWorkerID ` set ps - {pt_localWorkerID p}"
    and "length ps < 2 ^ 64" and "item \<in> set items"
  shows "(\<exists>!p. p \<in> set ps \<and> item \<in> set (fst (snd (FilterWorkItems E (Some p) items))))
    \<and> (\<forall>p \<in> set ps. \<forall>st owned skipped result. FilterWorkItems E (Some p) items = (st, owned, skipped, result) \<longrightarrow>
         mset owned + mset skipped = mset items \<and> ms_LastOwnedSearchTasks result = length owned)"
proof -
  let ?ids = "pt_localWorkerID ` set ps"
  have ids: "set (workerIDs p) = ?ids" if p: "p \<in> set ps" for p
  proof -
    have "set (workerIDs p) = insert (pt_localWorkerID p) ({TrimSpace w | w. w \<in> set (pt_workers p)} - {pt_localWorkerID p, []})"
      unfolding workerIDs_spec(2) using assms(3) [OF p] by (auto intro: exI [of _ "pt_localWorkerID p"])
    then show ?thesis using assms(4) [OF p] p by auto
  qed
  define W where "W = workerIDs (hd ps)"
  have same: "workerIDs p = W" if "p \<in> set ps" for p
    using that ids assms(1) workerIDs_spec(1) unfolding W_def
    by (intro sorted_distinct_set_unique) (auto simp: workerIDs_def)
  have W: "set W = ?ids" "distinct W" "W \<noteq> []"
    using ids [of "hd ps"] assms(1) workerIDs_spec(1) by (auto simp: W_def)
  have "length W \<le> length ps" using W(1,2) by (metis card_length distinct_card image_set length_map)
  then have mem: "partitionOwnerForTask E W item \<in> ?ids" using owner_mem [OF W(3)] W(1) assms(5) by simp
  have run: "FilterWorkItems E (Some p) items = (st, owned, skipped, result) \<Longrightarrow>
      owned = filter (\<lambda>i. partitionOwnerForTask E W i = pt_localWorkerID p) items
      \<and> skipped = filter (\<lambda>i. partitionOwnerForTask E W i \<noteq> pt_localWorkerID p) items
      \<and> ms_LastOwnedSearchTasks result = length owned" if "p \<in> set ps" for p st owned skipped result
    using same [OF that] W(3) by (auto simp: FilterWorkItems_def Let_def status_after_def)
  have "item \<in> set (fst (snd (FilterWorkItems E (Some p) items))) \<longleftrightarrow> partitionOwnerForTask E W item = pt_localWorkerID p"
    if "p \<in> set ps" for p
    using run [OF that] assms(6) by (cases "FilterWorkItems E (Some p) items") auto
  moreover have "\<exists>!p. p \<in> set ps \<and> partitionOwnerForTask E W item = pt_localWorkerID p"
    using mem assms(2) by (auto simp: distinct_map inj_on_def)
  ultimately have "\<exists>!p. p \<in> set ps \<and> item \<in> set (fst (snd (FilterWorkItems E (Some p) items)))" by metis
  moreover have "mset owned + mset skipped = mset items \<and> ms_LastOwnedSearchTasks result = length owned"
    if "p \<in> set ps" "FilterWorkItems E (Some p) items = (st, owned, skipped, result)" for p st owned skipped result
    using run [OF that] by simp
  ultimately show ?thesis by blast
qed

definition toy_work :: miningSearchTask where
  "toy_work = \<lparr>mst_source = miningTaskSourceFrontier,
     mst_envelope = \<lparr>env_Transaction = toy_tx [] 0 [],
       env_Request = \<lparr>req_Query = [], req_URL = [], req_BaseBounty = [], req_Difficulty = 0, req_DataVolumeBytes = 0\<rparr>,
       env_Task = \<lparr>ct_ID = [], ct_Query = [], ct_SeedURLs = [], ct_BaseDifficulty = 0, ct_Difficulty = 0, ct_AdjustedDifficulty = 0,
         ct_DataVolumeBytes = 0, ct_BaseBounty = None, ct_TotalBounty = None, ct_ArchitectFee = None, ct_MinerReward = None,
         ct_GovernanceMultiplierBPS = 0, ct_PrioritySectors = [], ct_CreatedAt = 0, ct_ExpiresAt = 0\<rparr>\<rparr>, mst_record = toy_task\<rparr>"

definition toy_worker :: "string \<Rightarrow> string \<Rightarrow> PeerTaskPartitioner" where
  "toy_worker a b = \<lparr>pt_localWorkerID = a, pt_workers = [b], pt_last = zero_MiningStatus\<rparr>"

theorem partition_one_owner_witness:
  "\<exists>!p. p \<in> {toy_worker ''t'' ''u'', toy_worker ''u'' ''t''} \<and> toy_work \<in> set (fst (snd (FilterWorkItems toy_env (Some p) [toy_work])))"
proof -
  let ?ps = "[toy_worker ''t'' ''u'', toy_worker ''u'' ''t'']"
  have "?ps \<noteq> []" "distinct (map pt_localWorkerID ?ps)" "length ?ps < 2 ^ 64" "toy_work \<in> set [toy_work]"
    by (simp_all add: toy_worker_def)
  moreover have "TrimSpace (pt_localWorkerID p) = pt_localWorkerID p \<and> pt_localWorkerID p \<noteq> []" if "p \<in> set ?ps" for p
    using that by (auto simp: toy_worker_def)
  moreover have "{TrimSpace w | w. w \<in> set (pt_workers p)} - {pt_localWorkerID p, []} = pt_localWorkerID ` set ?ps - {pt_localWorkerID p}"
    if "p \<in> set ?ps" for p using that by (auto simp: toy_worker_def)
  ultimately show ?thesis using partition_one_owner [of ?ps toy_work "[toy_work]" toy_env] by simp
qed

end
