(* ===== verification/Engine.thy ===== *)
theory Engine
  imports Partition Validation
begin

text \<open>
  The engine of a node (\<open>src/core/engine.go\<close>): submission of transactions and search tasks against the pending
  state of their sender, and one round of mining. Submissions run under one mutex, one at a time, and so
  does a mining round. Logging and the publication of accepted transactions are output only. The
  lanes of a round are crawled by several goroutines: each writes its own slots of the outcomes.
\<close>

section \<open>Data\<close>

record SearchTaskFailure =
  fail_Count :: int
  fail_LastError :: string
  fail_LastOccurred :: time

record QuarantinedSearchTask =
  qt_Transaction :: Transaction
  qt_Request :: SearchTaskRequest
  qt_TotalBounty :: string
  qt_AdjustedDifficulty :: u64
  qt_PrioritySectors :: "string list"
  qt_CreatedAt :: time
  qt_FailureCount :: int
  qt_FailureReason :: string
  qt_Terminal :: bool
  qt_QuarantinedAt :: time

record Engine =
  eng_Blockchain :: "Blockchain option"
  eng_TxPool :: TxPool
  eng_TaskPool :: TaskPool
  eng_Miner :: Miner
  eng_MinerAddress :: string
  eng_MiningInterval :: int
  eng_MempoolTaskBatch :: int
  eng_FrontierTaskBatch :: int
  eng_Partitioner :: "PeerTaskPartitioner option"
  eng_inFlight :: bool
  eng_inFlightTransfers :: "Transaction list"
  eng_inFlightTasks :: "SearchTaskEnvelope list"
  eng_taskFailures :: "(string, SearchTaskFailure) fmap"
  eng_quarantinedTasks :: "QuarantinedSearchTask list"
  eng_lastMiningStatus :: MiningStatus

text \<open>Durations are in nanoseconds.\<close>

definition Second :: int where "Second = 10 ^ 9"
definition DefaultMiningInterval :: int where "DefaultMiningInterval = 15 * Second"
definition DefaultTaskFailureLimit :: int where "DefaultTaskFailureLimit = 3"
definition DefaultQuarantineLimit :: nat where "DefaultQuarantineLimit = 256"
definition DefaultMempoolTaskBatch :: int where "DefaultMempoolTaskBatch = 8"
definition DefaultFrontierTaskBatch :: int where "DefaultFrontierTaskBatch = 8"

definition NewEngine :: "Blockchain option \<Rightarrow> Miner \<Rightarrow> string \<Rightarrow> Engine" where
  "NewEngine blockchain m minerAddress =
     \<lparr>eng_Blockchain = blockchain, eng_TxPool = NewTxPool, eng_TaskPool = NewTaskPool, eng_Miner = m,
      eng_MinerAddress = minerAddress, eng_MiningInterval = DefaultMiningInterval, eng_MempoolTaskBatch = DefaultMempoolTaskBatch,
      eng_FrontierTaskBatch = DefaultFrontierTaskBatch, eng_Partitioner = None, eng_inFlight = False, eng_inFlightTransfers = [],
      eng_inFlightTasks = [], eng_taskFailures = fmempty, eng_quarantinedTasks = [],
      eng_lastMiningStatus = zero_MiningStatus\<rparr>"

section \<open>Pending state of a sender\<close>

text \<open>The first loop: repeated entries are dropped, a second transaction for a nonce is an error.\<close>

fun dedupe_pending :: "(string, string) fmap \<Rightarrow> Transaction list \<Rightarrow> Transaction list res" where
  "dedupe_pending m [] = Inr []"
| "dedupe_pending m (tx # txs) =
     (let key = senderNonceKey (tx_From tx) (tx_Nonce tx) in
      case fmlookup m key of
        Some existingHash \<Rightarrow> if existingHash = tx_Hash tx then dedupe_pending m txs else Inl ErrPendingNonceConflict
      | None \<Rightarrow>
          (case dedupe_pending (fmupd key (tx_Hash tx) m) txs of Inl e \<Rightarrow> Inl e | Inr rest \<Rightarrow> Inr (tx # rest)))"

fun same_neighbour_nonce :: "Transaction list \<Rightarrow> bool" where
  "same_neighbour_nonce (a # b # rest) \<longleftrightarrow> tx_Nonce a = tx_Nonce b \<or> same_neighbour_nonce (b # rest)"
| "same_neighbour_nonce _ \<longleftrightarrow> False"

definition mergeSenderPendingTransactions :: "Transaction list \<Rightarrow> SearchTaskEnvelope list \<Rightarrow> Transaction list res" where
  "mergeSenderPendingTransactions transfers tasks =
     (case dedupe_pending fmempty (transfers @ map env_Transaction tasks) of
        Inl e \<Rightarrow> Inl e
      | Inr deduped \<Rightarrow>
          (let merged = sort_key (queue_order (\<lambda>tx. tx)) deduped
           in if same_neighbour_nonce merged then Inl ErrPendingNonceConflict else Inr merged))"

definition inFlightWorkForSender :: "Engine \<Rightarrow> string \<Rightarrow> Transaction list \<times> SearchTaskEnvelope list" where
  "inFlightWorkForSender e sender =
     (filter (\<lambda>tx. tx_From tx = sender) (eng_inFlightTransfers e),
      map (\<lambda>t. t\<lparr>env_Task := cloneCrawlTask (env_Task t)\<rparr>)
        (filter (\<lambda>t. tx_From (env_Transaction t) = sender) (eng_inFlightTasks e)))"

definition pendingStateForSender :: "env \<Rightarrow> Engine \<Rightarrow> string \<Rightarrow> StateSnapshot res" where
  "pendingStateForSender E e sender =
     (case eng_Blockchain e of
        None \<Rightarrow> Inl ErrInvalidBlock
      | Some bc \<Rightarrow>
          (let (inFlightTransfers, inFlightTasks) = inFlightWorkForSender e sender in
           case mergeSenderPendingTransactions
                  (TxPool_PendingForSender (eng_TxPool e) sender @ inFlightTransfers)
                  (TaskPool_PendingForSender (eng_TaskPool e) sender @ inFlightTasks) of
             Inl er \<Rightarrow> Inl er
           | Inr pending \<Rightarrow>
               (case run_steps (apply_tx E (ArchitectAddress bc)) (bc_state bc) pending of
                  Inl er \<Rightarrow> Inl er
                | Inr (snapshot, _) \<Rightarrow> Inr snapshot)))"

definition validatePendingTransaction :: "env \<Rightarrow> Engine \<Rightarrow> Transaction \<Rightarrow> unit res" where
  "validatePendingTransaction E e tx =
     (case pendingStateForSender E e (tx_From tx) of
        Inl er \<Rightarrow> Inl er
      | Inr snapshot \<Rightarrow>
          (case apply_tx E (ArchitectAddress (the (eng_Blockchain e))) snapshot tx of Inl er \<Rightarrow> Inl er | Inr _ \<Rightarrow> Inr ()))"

definition PendingNonce :: "env \<Rightarrow> Engine \<Rightarrow> string \<Rightarrow> u64 res" where
  "PendingNonce E e address =
     (case eng_Blockchain e of
        None \<Rightarrow> Inl ErrInvalidBlock
      | Some bc \<Rightarrow>
          (case pendingStateForSender E e address of
             Inl er \<Rightarrow> Inl er
           | Inr snapshot \<Rightarrow> Inr (fm_get (Nonces snapshot) 0 address)))"

section \<open>Submission\<close>

definition submitTransaction :: "env \<Rightarrow> Engine \<Rightarrow> Transaction \<Rightarrow> Engine \<times> string res" where
  "submitTransaction E e tx =
     (if eng_Blockchain e = None then (e, Inl ErrInvalidBlock)
      else
        (let normalized = normalizeTransaction E tx in
         case validatePendingTransaction E e normalized of
           Inl er \<Rightarrow> (e, Inl er)
         | Inr _ \<Rightarrow>
             (case TxPool_Add (eng_TxPool e) normalized of
                (pool, Inl er) \<Rightarrow> (e\<lparr>eng_TxPool := pool\<rparr>, Inl er)
              | (pool, Inr _) \<Rightarrow> (e\<lparr>eng_TxPool := pool\<rparr>, Inr (tx_Hash normalized)))))"

definition request_json :: "SearchTaskRequest \<Rightarrow> json" where
  "request_json r = JObj
     [(''query'', JStr (req_Query r)), (''url'', JStr (req_URL r)), (''baseBounty'', JStr (req_BaseBounty r)),
      (''difficulty'', JUint (req_Difficulty r)), (''dataVolumeBytes'', JUint (req_DataVolumeBytes r))]"

definition BuildSearchTaskEnvelope ::
    "env \<Rightarrow> Transaction \<Rightarrow> SearchTaskRequest \<Rightarrow> registry option \<Rightarrow> SearchTaskEnvelope res" where
  "BuildSearchTaskEnvelope E tx request r =
     (let normalized = normalizeTransaction E (tx\<lparr>tx_Data := json_marshal E (request_json request)\<rparr>) in
      if tx_Type normalized \<noteq> TxTypeSearchTask then Inl ErrInvalidTransaction
      else
        (case ValidateSignature E normalized of
           Inl e \<Rightarrow> Inl e
         | Inr _ \<Rightarrow>
        (case ValueBig normalized of
           Inl e \<Rightarrow> Inl e
         | Inr v \<Rightarrow>
        (case SetString (TrimSpace (req_BaseBounty request)) of
           None \<Rightarrow> Inl ErrInvalidTransaction
         | Some baseBounty \<Rightarrow>
             if baseBounty < 0 then Inl ErrInvalidTransaction
             else
               (case NewCrawlTask E (req_Query request) [req_URL request] (Some baseBounty) (req_Difficulty request)
                       (req_DataVolumeBytes request) 0 of
                  Inl e \<Rightarrow> Inl e
                | Inr task \<Rightarrow>
                    (case Registry_Apply E r task (req_URL request) of
                       Inl e \<Rightarrow> Inl e
                     | Inr adjustment \<Rightarrow>
                         if adj_AdjustedBounty adjustment \<noteq> v then Inl ErrInvalidTransaction
                         else
                           Inr \<lparr>env_Transaction = normalized, env_Request = request,
                                env_Task = task\<lparr>ct_ID := tx_Hash normalized, ct_TotalBounty := Some v,
                                  ct_ArchitectFee := Some (adj_ArchitectFee adjustment),
                                  ct_MinerReward := Some (adj_NetMinerReward adjustment),
                                  ct_Difficulty := adj_AdjustedDifficulty adjustment,
                                  ct_AdjustedDifficulty := adj_AdjustedDifficulty adjustment,
                                  ct_GovernanceMultiplierBPS := adj_MultiplierBPS adjustment,
                                  ct_PrioritySectors := adj_PrioritySectors adjustment\<rparr>\<rparr>))))))"

definition submitSearchTask :: "env \<Rightarrow> Engine \<Rightarrow> Transaction \<Rightarrow> SearchTaskRequest \<Rightarrow> Engine \<times> SearchTaskEnvelope res" where
  "submitSearchTask E e tx request =
     (if eng_Blockchain e = None then (e, Inl ErrInvalidBlock)
      else
        (case BuildSearchTaskEnvelope E tx request (miner_PriorityRegistry (eng_Miner e)) of
           Inl er \<Rightarrow> (e, Inl er)
         | Inr envelope \<Rightarrow>
             (case validatePendingTransaction E e (env_Transaction envelope) of
                Inl er \<Rightarrow> (e, Inl er)
              | Inr _ \<Rightarrow>
                  (case TaskPool_Add (eng_TaskPool e) envelope of
                     (pool, Inl er) \<Rightarrow> (e\<lparr>eng_TaskPool := pool\<rparr>, Inl er)
                   | (pool, Inr _) \<Rightarrow> (e\<lparr>eng_TaskPool := pool\<rparr>, Inr envelope)))))"

section \<open>Work items of a round\<close>

definition searchTaskRecordFromEnvelope :: "SearchTaskEnvelope \<Rightarrow> SearchTaskRecord" where
  "searchTaskRecordFromEnvelope envelope =
     (let tx = env_Transaction envelope; request = env_Request envelope; task = env_Task envelope;
          fee0 = cloneBigInt (ct_ArchitectFee task);
          reward0 = cloneBigInt (ct_MinerReward task);
          v = (case ValueBig tx of Inl _ \<Rightarrow> 0 | Inr x \<Rightarrow> x);
          (architectFee, minerReward) =
            (if fee0 = 0 \<or> reward0 = 0 then (ArchitectFee (Some v), v - ArchitectFee (Some v)) else (fee0, reward0))
      in \<lparr>task_ID = firstNonEmptyString [ct_ID task, tx_Hash tx], task_TxHash = tx_Hash tx, task_Submitter = tx_From tx,
          task_Query = req_Query request, task_URL = req_URL request, task_BaseBounty = req_BaseBounty request,
          task_GrossBounty = tx_Value tx, task_ArchitectFee = show_int architectFee, task_MinerReward = show_int minerReward,
          task_Difficulty = ct_AdjustedDifficulty task, task_DataVolumeBytes = req_DataVolumeBytes request,
          task_CreatedAt = ct_CreatedAt task, task_Autonomous = False, task_ParentTaskID = [], task_Depth = 0,
          task_Completed = False, task_CompletedAt = 0, task_ProofHash = [], task_MinedBy = []\<rparr>)"

definition searchTaskEnvelopeFromRecord :: "env \<Rightarrow> SearchTaskRecord \<Rightarrow> SearchTaskEnvelope res" where
  "searchTaskEnvelopeFromRecord E record =
     (case crawlTaskFromRecord E record of
        Inl e \<Rightarrow> Inl e
      | Inr task \<Rightarrow>
          Inr \<lparr>env_Transaction =
                 \<lparr>tx_Hash = firstNonEmptyString [task_ID record, task_TxHash record], tx_Type = TxTypeSearchTask,
                  tx_From = task_Submitter record, tx_To = [], tx_Value = task_GrossBounty record, tx_Nonce = 0,
                  tx_Timestamp = task_CreatedAt record, tx_Data = [], tx_PublicKey = [], tx_Signature = []\<rparr>,
               env_Request =
                 \<lparr>req_Query = task_Query record, req_URL = task_URL record, req_BaseBounty = task_BaseBounty record,
                  req_Difficulty = task_Difficulty record, req_DataVolumeBytes = task_DataVolumeBytes record\<rparr>,
               env_Task = task\<rparr>)"

definition wrapMempoolSearchTasks :: "SearchTaskEnvelope list \<Rightarrow> miningSearchTask list" where
  "wrapMempoolSearchTasks items =
     map (\<lambda>item. \<lparr>mst_source = miningTaskSourceMempool, mst_envelope = item,
                   mst_record = searchTaskRecordFromEnvelope item\<rparr>) items"

definition searchTaskRecordGrossBounty :: "SearchTaskRecord \<Rightarrow> int" where
  "searchTaskRecordGrossBounty record =
     (case SetString (TrimSpace (task_GrossBounty record)) of None \<Rightarrow> 0 | Some v \<Rightarrow> v)"

text \<open>The order is total: the identifiers are the keys of a map.\<close>

definition sortPendingSearchTaskRecords :: "SearchTaskRecord list \<Rightarrow> SearchTaskRecord list" where
  "sortPendingSearchTaskRecords records =
     sort_key (\<lambda>r. (- searchTaskRecordGrossBounty r, task_Depth r, task_CreatedAt r, task_ID r)) records"

definition PendingSearchTaskRecords :: "Blockchain \<Rightarrow> int \<Rightarrow> SearchTaskRecord list" where
  "PendingSearchTaskRecords bc limit =
     (let records = sortPendingSearchTaskRecords
            (filter (\<lambda>t. \<not> task_Completed t) (map snd (fm_entries (PendingTasks (bc_state bc)))))
      in if 0 < limit \<and> limit < int (length records) then take (nat limit) records else records)"

definition PendingSearchTaskSummary :: "Blockchain \<Rightarrow> int \<times> int" where
  "PendingSearchTaskSummary bc =
     (let open_tasks = filter (\<lambda>t. \<not> task_Completed t) (map snd (fm_entries (PendingTasks (bc_state bc))))
      in (int (length open_tasks), int (length (filter task_Autonomous open_tasks))))"

definition quarantinedTaskIDs :: "Engine \<Rightarrow> string set" where
  "quarantinedTaskIDs e =
     set (filter (\<lambda>h. h \<noteq> []) (map (\<lambda>q. TrimSpace (tx_Hash (qt_Transaction q))) (eng_quarantinedTasks e)))"

fun frontier_loop :: "env \<Rightarrow> string set \<Rightarrow> nat \<Rightarrow> SearchTaskRecord list \<Rightarrow> miningSearchTask list" where
  "frontier_loop E quarantined limit [] = []"
| "frontier_loop E quarantined limit (r # rs) =
     (if task_ID r \<in> quarantined then frontier_loop E quarantined limit rs
      else
        (case searchTaskEnvelopeFromRecord E r of
           Inl _ \<Rightarrow> frontier_loop E quarantined limit rs
         | Inr envelope \<Rightarrow>
             \<lparr>mst_source = miningTaskSourceFrontier, mst_envelope = envelope, mst_record = r\<rparr>
             # (if limit \<le> 1 then [] else frontier_loop E quarantined (limit - 1) rs)))"

definition frontierMiningTasks :: "env \<Rightarrow> Engine \<Rightarrow> int \<Rightarrow> miningSearchTask list" where
  "frontierMiningTasks E e limit =
     (case eng_Blockchain e of
        None \<Rightarrow> []
      | Some bc \<Rightarrow>
          if limit \<le> 0 then []
          else frontier_loop E (quarantinedTaskIDs e) (nat limit) (PendingSearchTaskRecords bc 0))"

section \<open>Crawling the work items\<close>

record miningSearchTaskOutcome =
  out_workItem :: miningSearchTask
  out_result :: "MiningResult option"
  out_err :: "err option"
  out_blockedSender :: bool
  out_blockedReason :: string

definition miningLaneKey :: "miningSearchTask \<Rightarrow> string" where
  "miningLaneKey item =
     (if mst_source item = miningTaskSourceMempool
      then ''mempool:'' @ TrimSpace (tx_From (env_Transaction (mst_envelope item)))
      else ''frontier:'' @ firstNonEmptyString
             [task_ID (mst_record item), tx_Hash (env_Transaction (mst_envelope item)), task_URL (mst_record item)])"

text \<open>The lanes in order of first appearance, each item with its index.\<close>

definition mining_lanes :: "miningSearchTask list \<Rightarrow> (nat \<times> miningSearchTask) list list" where
  "mining_lanes items =
     map snd (fold (\<lambda>(i, item) lanes. queue_push (miningLaneKey item) (i, item) lanes) (enumerate 0 items) [])"

definition blocked_text :: "miningSearchTask \<Rightarrow> string" where
  "blocked_text item = ''blocked by failed sender nonce '' @ FormatUint (tx_Nonce (env_Transaction (mst_envelope item)))"

text \<open>One lane: after the first failure of a pool task the rest of the lane is not crawled.\<close>

fun run_lane :: "(CrawlTask \<Rightarrow> MiningResult res) \<Rightarrow> string option \<Rightarrow> (nat \<times> miningSearchTask) list
    \<Rightarrow> (nat \<times> miningSearchTaskOutcome) list" where
  "run_lane mine blocked [] = []"
| "run_lane mine (Some reason) ((i, item) # lane) =
     (i, \<lparr>out_workItem = item, out_result = None, out_err = None, out_blockedSender = True, out_blockedReason = reason\<rparr>)
     # run_lane mine (Some reason) lane"
| "run_lane mine None ((i, item) # lane) =
     (case mine (env_Task (mst_envelope item)) of
        Inr result \<Rightarrow>
          (i, \<lparr>out_workItem = item, out_result = Some result, out_err = None, out_blockedSender = False, out_blockedReason = []\<rparr>)
          # run_lane mine None lane
      | Inl er \<Rightarrow>
          (i, \<lparr>out_workItem = item, out_result = None, out_err = Some er, out_blockedSender = False, out_blockedReason = []\<rparr>)
          # run_lane mine (if mst_source item = miningTaskSourceMempool then Some (blocked_text item) else None) lane)"

text \<open>The slots of the outcomes are written lane by lane, in the order in which the lanes are worked on.\<close>

definition write_slots :: "(nat \<times> miningSearchTaskOutcome) list \<Rightarrow> miningSearchTaskOutcome option list \<Rightarrow> miningSearchTaskOutcome option list" where
  "write_slots results slots = fold (\<lambda>(i, outcome) s. s[i := Some outcome]) results slots"

definition run_lanes :: "(CrawlTask \<Rightarrow> MiningResult res) \<Rightarrow> nat \<Rightarrow> (nat \<times> miningSearchTask) list list \<Rightarrow> miningSearchTaskOutcome option list" where
  "run_lanes mine n lanes = fold (\<lambda>lane. write_slots (run_lane mine None lane)) lanes (replicate n None)"

definition mineSearchTasks :: "(CrawlTask \<Rightarrow> MiningResult res) \<Rightarrow> miningSearchTask list \<Rightarrow> miningSearchTaskOutcome list" where
  "mineSearchTasks mine items =
     (if items = [] then [] else map the (run_lanes mine (length items) (mining_lanes items)))"

section \<open>Failures and quarantine\<close>

text \<open>The text of an error (\<open>Error()\<close>).\<close>

primrec err_Error :: "err \<Rightarrow> string" where
  "err_Error ErrBlockNotFound = ''core: block not found''"
| "err_Error ErrCrawlProofNotFound = ''core: crawl proof not found''"
| "err_Error ErrInsufficientBalance = ''core: insufficient balance''"
| "err_Error ErrInvalidBlock = ''core: invalid block''"
| "err_Error ErrInvalidSignature = ''core: invalid transaction signature''"
| "err_Error ErrInvalidTransaction = ''core: invalid transaction''"
| "err_Error ErrInvalidTransactionFee = ''core: architect fee mismatch''"
| "err_Error ErrInvalidNonce = ''core: invalid nonce''"
| "err_Error ErrTaskNotFound = ''core: task not found''"
| "err_Error ErrTaskSettled = ''core: task already settled''"
| "err_Error ErrTransactionNotFound = ''core: transaction not found''"
| "err_Error ErrUnsupportedUserContractRuntime = ''core: unsupported user contract runtime''"
| "err_Error ErrInvalidUserContractCall = ''core: invalid user contract call''"
| "err_Error ErrUnsupportedNativeContract = ''core: unsupported native contract''"
| "err_Error ErrNativeCallNotPayable = ''core: native contract does not accept value''"
| "err_Error ErrInvalidUNSCall = ''core: invalid UNS contract call''"
| "err_Error ErrAliasResolverRequired = ''types: alias resolver is required''"
| "err_Error ErrEmptyPublicKey = ''types: public key is required''"
| "err_Error ErrInvalidAddress = ''types: invalid UFI address''"
| "err_Error ErrInvalidChecksum = ''types: invalid UFI checksum''"
| "err_Error ErrEmptyQuery = ''consensus: crawl query is required''"
| "err_Error ErrInsufficientValidators = ''consensus: at least three validators are required''"
| "err_Error ErrInvalidBounty = ''consensus: base bounty must be non-negative''"
| "err_Error ErrInvalidPriorityRule = ''consensus: priority rule is invalid''"
| "err_Error ErrInvalidURL = ''consensus: crawl target must be an absolute URL''"
| "err_Error ErrNilCrawler = ''consensus: crawler is required''"
| "err_Error ErrNilGovernanceSource = ''consensus: governance event source is required''"
| "err_Error ErrNilPriorityRegistry = ''consensus: priority registry is required''"
| "err_Error ErrNoIndexableResult = ''consensus: miner could not index any candidate URL''"
| "err_Error ErrNoSeedURLs = ''consensus: at least one candidate URL is required''"
| "err_Error ErrAlreadyMining = ''core: mining already in progress''"
| "err_Error ErrPoolFull = ''core: mempool is full''"
| "err_Error ErrSenderQueueFull = ''core: sender pending limit reached''"
| "err_Error ErrReplacementUnderpriced = ''core: replacement transaction underpriced''"
| "err_Error ErrPendingNonceConflict = ''core: pending nonce conflict''"
| "err_Error ErrForkNotPreferred = ''core: fork not preferred by fork choice''"
| "err_Error ErrInvalidVoteChoice = ''governance: invalid vote choice''"
| "err_Error (ErrText s) = s"
| "err_Error (ErrLib s) = s"
| "err_Error GoPanic = []"

definition terminal_texts :: "string list" where
  "terminal_texts =
     [''crawl returned http 400'', ''crawl returned http 401'', ''crawl returned http 403'', ''crawl returned http 404'',
      ''crawl returned http 410'', ''crawl returned http 451'', ''already visited'']"

text \<open>A nil error is \<open>None\<close>.\<close>

definition classifySearchTaskFailure :: "env \<Rightarrow> err option \<Rightarrow> bool \<times> string" where
  "classifySearchTaskFailure E er =
     (case er of
        None \<Rightarrow> (False, [])
      | Some e \<Rightarrow>
          (let reason = TrimSpace (err_Error e) in
           if reason = [] then (False, ''unknown crawl failure'')
           else (list_ex (Contains (ToLower E reason)) terminal_texts, reason)))"

definition recordTaskFailure :: "env \<Rightarrow> Engine \<Rightarrow> string \<Rightarrow> string \<Rightarrow> Engine \<times> SearchTaskFailure" where
  "recordTaskFailure E e hash reason =
     (let failure = \<lparr>fail_Count = (case fmlookup (eng_taskFailures e) hash of None \<Rightarrow> 0 | Some f \<Rightarrow> fail_Count f) + 1,
                     fail_LastError = reason, fail_LastOccurred = now E\<rparr>
      in (e\<lparr>eng_taskFailures := fmupd hash failure (eng_taskFailures e)\<rparr>, failure))"

definition clearTaskFailure :: "Engine \<Rightarrow> string \<Rightarrow> Engine" where
  "clearTaskFailure e hash = e\<lparr>eng_taskFailures := fmdrop hash (eng_taskFailures e)\<rparr>"

definition quarantine_entry :: "env \<Rightarrow> SearchTaskEnvelope \<Rightarrow> int \<Rightarrow> string \<Rightarrow> bool \<Rightarrow> QuarantinedSearchTask" where
  "quarantine_entry E task failureCount failureReason terminal =
     \<lparr>qt_Transaction = env_Transaction task, qt_Request = env_Request task, qt_TotalBounty = tx_Value (env_Transaction task),
      qt_AdjustedDifficulty = ct_AdjustedDifficulty (env_Task task), qt_PrioritySectors = ct_PrioritySectors (env_Task task),
      qt_CreatedAt = ct_CreatedAt (env_Task task), qt_FailureCount = failureCount, qt_FailureReason = failureReason,
      qt_Terminal = terminal, qt_QuarantinedAt = now E\<rparr>"

text \<open>The newest \<open>DefaultQuarantineLimit\<close> entries are kept.\<close>

definition recordQuarantinedTask :: "env \<Rightarrow> Engine \<Rightarrow> SearchTaskEnvelope \<Rightarrow> int \<Rightarrow> string \<Rightarrow> bool \<Rightarrow> Engine" where
  "recordQuarantinedTask E e task failureCount failureReason terminal =
     (let all_tasks = eng_quarantinedTasks e @ [quarantine_entry E task failureCount failureReason terminal]
      in e\<lparr>eng_quarantinedTasks := drop (length all_tasks - DefaultQuarantineLimit) all_tasks\<rparr>)"

definition QuarantinedSearchTasks :: "Engine option \<Rightarrow> string \<Rightarrow> int \<Rightarrow> QuarantinedSearchTask list" where
  "QuarantinedSearchTasks engine sender limit =
     (case engine of
        None \<Rightarrow> []
      | Some e \<Rightarrow>
          (let cleaned = TrimSpace sender;
               items = filter (\<lambda>q. cleaned = [] \<or> tx_From (qt_Transaction q) = cleaned) (rev (eng_quarantinedTasks e))
           in if 0 < limit then take (nat limit) items else items))"

definition setInFlightWork :: "Engine \<Rightarrow> Transaction list \<Rightarrow> SearchTaskEnvelope list \<Rightarrow> Engine" where
  "setInFlightWork e transactions tasks =
     e\<lparr>eng_inFlightTransfers := copy_limited transactions 0, eng_inFlightTasks := limitSearchTaskEnvelopes tasks 0\<rparr>"

definition clearInFlightWork :: "Engine \<Rightarrow> Engine" where
  "clearInFlightWork e = e\<lparr>eng_inFlightTransfers := [], eng_inFlightTasks := []\<rparr>"

definition filterTransactionsBySenderNonceCutoff ::
    "Transaction list \<Rightarrow> (string, u64) fmap \<Rightarrow> Transaction list \<times> Transaction list" where
  "filterTransactionsBySenderNonceCutoff transactions cutoffs =
     (let cut = (\<lambda>tx. case fmlookup cutoffs (tx_From tx) of None \<Rightarrow> False | Some c \<Rightarrow> c \<le> tx_Nonce tx)
      in (filter (\<lambda>tx. \<not> cut tx) transactions, filter cut transactions))"

section \<open>One round of mining\<close>

record harvest =
  hv_proofs :: "CrawlProof list"
  hv_taskTransactions :: "Transaction list"
  hv_mined :: "SearchTaskEnvelope list"
  hv_failed :: "SearchTaskEnvelope list"
  hv_cutoffs :: "(string, u64) fmap"
  hv_reasons :: "(string, string) fmap"
  hv_counts :: "(string, int) fmap"

definition empty_harvest :: harvest where
  "empty_harvest = \<lparr>hv_proofs = [], hv_taskTransactions = [], hv_mined = [], hv_failed = [], hv_cutoffs = fmempty,
     hv_reasons = fmempty, hv_counts = fmempty\<rparr>"

definition blocked_reason :: "u64 \<Rightarrow> string \<Rightarrow> string" where
  "blocked_reason cutoff reason = ''blocked by quarantined nonce '' @ FormatUint cutoff @ '': '' @ reason"

definition harvest_blocked :: "env \<Rightarrow> Engine \<Rightarrow> harvest \<Rightarrow> miningSearchTask \<Rightarrow> Engine \<times> harvest" where
  "harvest_blocked E e h item =
     (let envelope = mst_envelope item; sender = tx_From (env_Transaction envelope) in
      if mst_source item \<noteq> miningTaskSourceMempool then (e, h)
      else
        (case fmlookup (hv_cutoffs h) sender of
           Some cutoff \<Rightarrow>
             if cutoff \<le> tx_Nonce (env_Transaction envelope)
             then (recordQuarantinedTask E e envelope (fm_get (hv_counts h) 0 sender)
                     (blocked_reason cutoff (fm_get (hv_reasons h) [] sender)) True, h)
             else (e, h\<lparr>hv_failed := hv_failed h @ [envelope]\<rparr>)
         | None \<Rightarrow> (e, h\<lparr>hv_failed := hv_failed h @ [envelope]\<rparr>)))"

definition harvest_failure :: "env \<Rightarrow> Engine \<Rightarrow> harvest \<Rightarrow> miningSearchTask \<Rightarrow> err \<Rightarrow> Engine \<times> harvest" where
  "harvest_failure E e h item er =
     (let envelope = mst_envelope item; tx = env_Transaction envelope;
          (terminal, reason0) = classifySearchTaskFailure E (Some er);
          (e1, failure) = recordTaskFailure E e (tx_Hash tx) reason0
      in if terminal \<or> DefaultTaskFailureLimit \<le> fail_Count failure then
           (let reason = (if terminal then reason0
                          else ''max retries reached after '' @ show_int (fail_Count failure) @ '' failures: '' @ reason0);
                e2 = clearTaskFailure (recordQuarantinedTask E e1 envelope (fail_Count failure) reason terminal) (tx_Hash tx)
            in if mst_source item = miningTaskSourceMempool
                  \<and> (case fmlookup (hv_cutoffs h) (tx_From tx) of None \<Rightarrow> True | Some cutoff \<Rightarrow> tx_Nonce tx < cutoff)
               then (e2, h\<lparr>hv_cutoffs := fmupd (tx_From tx) (tx_Nonce tx) (hv_cutoffs h),
                           hv_reasons := fmupd (tx_From tx) reason (hv_reasons h),
                           hv_counts := fmupd (tx_From tx) (fail_Count failure) (hv_counts h)\<rparr>)
               else (e2, h))
         else if mst_source item = miningTaskSourceMempool
         then (e1, h\<lparr>hv_failed := hv_failed h @ [envelope]\<rparr>)
         else (e1, h))"

definition mined_proof :: "Engine \<Rightarrow> miningSearchTask \<Rightarrow> MiningResult \<Rightarrow> CrawlProof" where
  "mined_proof e item result =
     (let record = mst_record item;
          v = (case SetString (TrimSpace (task_GrossBounty record)) of None \<Rightarrow> 0 | Some x \<Rightarrow> x);
          fee = (case SetString (TrimSpace (task_ArchitectFee record)) of None \<Rightarrow> ArchitectFee (Some v) | Some x \<Rightarrow> x);
          reward = (case SetString (TrimSpace (task_MinerReward record)) of None \<Rightarrow> v - fee | Some x \<Rightarrow> x)
      in \<lparr>pr_TaskID = task_ID record, pr_TaskTxHash = firstNonEmptyString [task_TxHash record, task_ID record],
          pr_Query = task_Query record, pr_URL = mr_URL result, pr_Miner = eng_MinerAddress e, pr_Page = mr_Page result,
          pr_ProofHash = mr_ProofHash result, pr_GrossBounty = show_int v, pr_ArchitectFee = show_int fee,
          pr_MinerReward = show_int reward, pr_CreatedAt = mr_CompletedAt result\<rparr>)"

definition harvest_success :: "Engine \<Rightarrow> harvest \<Rightarrow> miningSearchTask \<Rightarrow> MiningResult \<Rightarrow> Engine \<times> harvest" where
  "harvest_success e h item result =
     (let e1 = clearTaskFailure e (tx_Hash (env_Transaction (mst_envelope item)));
          h1 = h\<lparr>hv_proofs := hv_proofs h @ [mined_proof e item result]\<rparr>
      in if mst_source item = miningTaskSourceMempool
         then (e1, h1\<lparr>hv_taskTransactions := hv_taskTransactions h @ [env_Transaction (mst_envelope item)],
                      hv_mined := hv_mined h @ [mst_envelope item]\<rparr>)
         else (e1, h1))"

definition harvest_one :: "env \<Rightarrow> Engine \<times> harvest \<Rightarrow> miningSearchTaskOutcome \<Rightarrow> Engine \<times> harvest" where
  "harvest_one E s outcome =
     (case s of (e, h) \<Rightarrow>
        if out_blockedSender outcome then harvest_blocked E e h (out_workItem outcome)
        else
          (case out_err outcome of
             Some er \<Rightarrow> harvest_failure E e h (out_workItem outcome) er
           | None \<Rightarrow> harvest_success e h (out_workItem outcome) (the (out_result outcome))))"

text \<open>
  Removing what waits behind a quarantined nonce, sender by sender. The code walks a map; the order of the
  senders shows only in the order of the quarantine entries, here the order of the keys.
\<close>

definition purge_sender :: "env \<Rightarrow> harvest \<Rightarrow> string \<times> u64 \<Rightarrow> Engine \<Rightarrow> Engine" where
  "purge_sender E h entry e =
     (case entry of (sender, cutoff) \<Rightarrow>
        let (tasks, removedTasks) = TaskPool_RemoveSenderFromNonce (eng_TaskPool e) sender cutoff;
            e1 = fold (\<lambda>removed e. recordQuarantinedTask E e removed (fm_get (hv_counts h) 0 sender)
                         (blocked_reason cutoff (fm_get (hv_reasons h) [] sender)) True)
                   removedTasks (e\<lparr>eng_TaskPool := tasks\<rparr>);
            (transfers, _) = TxPool_RemoveSenderFromNonce (eng_TxPool e1) sender cutoff
        in e1\<lparr>eng_TxPool := transfers\<rparr>)"

definition partition_round ::
    "env \<Rightarrow> Engine \<Rightarrow> SearchTaskEnvelope list \<Rightarrow> miningSearchTask list \<Rightarrow> Engine \<times> miningSearchTask list \<times> SearchTaskEnvelope list" where
  "partition_round E e taskEnvelopes frontierTasks =
     (let items = wrapMempoolSearchTasks taskEnvelopes @ frontierTasks in
      case eng_Partitioner e of
        None \<Rightarrow>
          (e\<lparr>eng_lastMiningStatus := zero_MiningStatus\<lparr>ms_MinerAddress := eng_MinerAddress e,
               ms_LastEvaluatedSearchTasks := length items, ms_LastOwnedSearchTasks := length items,
               ms_LastOwnedMempoolTasks := length taskEnvelopes, ms_LastOwnedFrontierTasks := length frontierTasks,
               ms_UpdatedAt := now E\<rparr>\<rparr>,
           items, taskEnvelopes)
      | Some p \<Rightarrow>
          (case FilterWorkItems E (Some p) items of (p', owned, skipped, status) \<Rightarrow>
             let from_pool = (\<lambda>xs. map mst_envelope (filter (\<lambda>i. mst_source i = miningTaskSourceMempool) xs));
                 pool = (if from_pool skipped = [] then eng_TaskPool e else TaskPool_Requeue (eng_TaskPool e) (from_pool skipped))
             in (e\<lparr>eng_Partitioner := p', eng_TaskPool := pool,
                   eng_lastMiningStatus := status\<lparr>ms_MinerAddress := eng_MinerAddress e\<rparr>\<rparr>,
                 owned, from_pool owned)))"

text \<open>The end of a round, from the harvest on: quarantined nonces, failed tasks, the block.\<close>

definition purge_cutoffs :: "env \<Rightarrow> harvest \<Rightarrow> Engine \<Rightarrow> Engine" where
  "purge_cutoffs E h e = (if hv_cutoffs h = fmempty then e else fold (purge_sender E h) (fm_entries (hv_cutoffs h)) e)"

definition kept_transactions :: "harvest \<Rightarrow> Transaction list \<Rightarrow> Transaction list" where
  "kept_transactions h transactions =
     (if hv_cutoffs h = fmempty then transactions else fst (filterTransactionsBySenderNonceCutoff transactions (hv_cutoffs h)))"

definition requeue_failed :: "harvest \<Rightarrow> Engine \<Rightarrow> Engine" where
  "requeue_failed h e = (if hv_failed h = [] then e else e\<lparr>eng_TaskPool := TaskPool_Requeue (eng_TaskPool e) (hv_failed h)\<rparr>)"

definition mine_harvest ::
    "env \<Rightarrow> Engine \<Rightarrow> Blockchain \<Rightarrow> Transaction list \<Rightarrow> harvest \<Rightarrow> (Engine \<times> Block res) option" where
  "mine_harvest E e bc transactions h =
     (let e1 = setInFlightWork e transactions (hv_mined h);
          blockTransactions = transactions @ hv_taskTransactions h
      in if blockTransactions = [] \<and> hv_proofs h = [] then Some (clearInFlightWork e1, Inr zero_Block)
         else
           (case MineBlock E bc (eng_MinerAddress e1) blockTransactions (hv_proofs h) of
              None \<Rightarrow> None
            | Some (Inl er) \<Rightarrow>
                Some (clearInFlightWork (e1\<lparr>eng_TxPool := TxPool_Requeue (eng_TxPool e1) transactions,
                                            eng_TaskPool := TaskPool_Requeue (eng_TaskPool e1) (hv_mined h)\<rparr>), Inl er)
            | Some (Inr (bc', block)) \<Rightarrow> Some (clearInFlightWork (e1\<lparr>eng_Blockchain := Some bc'\<rparr>), Inr block)))"

definition finish_round ::
    "env \<Rightarrow> Engine \<Rightarrow> Blockchain \<Rightarrow> Transaction list \<Rightarrow> harvest \<Rightarrow> (Engine \<times> Block res) option" where
  "finish_round E e bc transactions h =
     mine_harvest E (requeue_failed h (purge_cutoffs E h e)) bc (kept_transactions h transactions) h"

definition MineOnce :: "env \<Rightarrow> Engine \<Rightarrow> (Engine \<times> Block res) option" where
  "MineOnce E e =
     (case eng_Blockchain e of
        None \<Rightarrow> Some (e, Inl ErrInvalidBlock)
      | Some bc \<Rightarrow>
          let (txPool, transactions) = TxPool_Drain (eng_TxPool e) 256;
              mempoolBatch = (if eng_MempoolTaskBatch e \<le> 0 then DefaultMempoolTaskBatch else eng_MempoolTaskBatch e);
              frontierBatch = (if eng_FrontierTaskBatch e \<le> 0 then DefaultFrontierTaskBatch else eng_FrontierTaskBatch e)
          in (case TaskPool_DrainHighestValue (eng_TaskPool e) mempoolBatch of
                (taskPool, Inl er) \<Rightarrow> Some (e\<lparr>eng_TxPool := txPool, eng_TaskPool := taskPool\<rparr>, Inl er)
              | (taskPool, Inr taskEnvelopes) \<Rightarrow>
                  let e1 = e\<lparr>eng_TxPool := txPool, eng_TaskPool := taskPool\<rparr>;
                      (e2, workItems, ownedTasks) = partition_round E e1 taskEnvelopes (frontierMiningTasks E e1 frontierBatch)
                  in if transactions = [] \<and> workItems = [] then Some (e2, Inr zero_Block)
                     else
                       (let e3 = setInFlightWork e2 transactions ownedTasks;
                            (e4, h) = fold (\<lambda>outcome s. harvest_one E s outcome) (mineSearchTasks (Mine E (eng_Miner e3)) workItems)
                                        (e3, empty_harvest)
                        in finish_round E e4 bc transactions h)))"

text \<open>
  One tick: a round that is still running makes the tick do nothing. The second component is the block
  handed to \<open>PublishBlock\<close>.
\<close>

definition StartMining :: "Engine \<Rightarrow> Engine" where
  "StartMining e = (if eng_MiningInterval e \<le> 0 then e\<lparr>eng_MiningInterval := DefaultMiningInterval\<rparr> else e)"

definition tryMine :: "env \<Rightarrow> Engine \<Rightarrow> (Engine \<times> Block option) option" where
  "tryMine E e =
     (if eng_inFlight e then Some (e, None)
      else
        (case MineOnce E (e\<lparr>eng_inFlight := True\<rparr>) of
           None \<Rightarrow> None
         | Some (e', Inl _) \<Rightarrow> Some (e'\<lparr>eng_inFlight := False\<rparr>, None)
         | Some (e', Inr block) \<Rightarrow>
             Some (e'\<lparr>eng_inFlight := False\<rparr>, if blk_Hash block = [] then None else Some block)))"

section \<open>Reports\<close>

record MempoolStatus =
  mp_PendingTransfers :: int
  mp_PendingSearchTasks :: int
  mp_PendingFrontierTasks :: int
  mp_QuarantinedSearchTasks :: int
  mp_TransferCapacity :: int
  mp_SearchTaskCapacity :: int
  mp_SenderPendingLimit :: int
  mp_MiningIntervalSec :: int
  mp_MiningInFlight :: bool
  mp_MinerAddress :: string
  mp_PartitionEnabled :: bool
  mp_PartitionWorkerCount :: nat
  mp_LastEvaluatedTasks :: nat
  mp_LastOwnedTasks :: nat
  mp_LastSkippedTasks :: nat

definition Engine_MempoolStatus :: "Engine \<Rightarrow> MempoolStatus" where
  "Engine_MempoolStatus e =
     (let (txPending, txCapacity, senderLimit) = pool_Status (eng_TxPool e);
          (taskPending, taskCapacity, taskSenderLimit) = pool_Status (eng_TaskPool e);
          status = eng_lastMiningStatus e
      in \<lparr>mp_PendingTransfers = txPending, mp_PendingSearchTasks = taskPending,
          mp_PendingFrontierTasks = (case eng_Blockchain e of None \<Rightarrow> 0 | Some bc \<Rightarrow> snd (PendingSearchTaskSummary bc)),
          mp_QuarantinedSearchTasks = int (length (eng_quarantinedTasks e)), mp_TransferCapacity = txCapacity,
          mp_SearchTaskCapacity = taskCapacity,
          mp_SenderPendingLimit = (if senderLimit < taskSenderLimit then taskSenderLimit else senderLimit),
          mp_MiningIntervalSec = eng_MiningInterval e sdiv Second, mp_MiningInFlight = eng_inFlight e,
          mp_MinerAddress = eng_MinerAddress e, mp_PartitionEnabled = ms_PartitionEnabled status,
          mp_PartitionWorkerCount = ms_PartitionWorkerCount status,
          mp_LastEvaluatedTasks = ms_LastEvaluatedSearchTasks status, mp_LastOwnedTasks = ms_LastOwnedSearchTasks status,
          mp_LastSkippedTasks = ms_LastSkippedSearchTasks status\<rparr>)"

definition Engine_MiningStatus :: "Engine option \<Rightarrow> MiningStatus" where
  "Engine_MiningStatus engine =
     (case engine of
        None \<Rightarrow> zero_MiningStatus
      | Some e \<Rightarrow>
          (if ms_MinerAddress (eng_lastMiningStatus e) = []
           then (eng_lastMiningStatus e)\<lparr>ms_MinerAddress := eng_MinerAddress e\<rparr> else eng_lastMiningStatus e))"

definition PendingTransactions :: "Engine option \<Rightarrow> string \<Rightarrow> int \<Rightarrow> Transaction list" where
  "PendingTransactions engine sender limit =
     (case engine of
        None \<Rightarrow> []
      | Some e \<Rightarrow>
          (if TrimSpace sender = [] then pool_Snapshot (eng_TxPool e) limit
           else copy_limited (TxPool_PendingForSender (eng_TxPool e) (TrimSpace sender)) limit))"

record PendingSearchTask =
  pst_Transaction :: Transaction
  pst_Request :: SearchTaskRequest
  pst_TotalBounty :: string
  pst_AdjustedDifficulty :: u64
  pst_PrioritySectors :: "string list"
  pst_CreatedAt :: time

definition pending_search_task :: "SearchTaskEnvelope \<Rightarrow> PendingSearchTask" where
  "pending_search_task envelope =
     \<lparr>pst_Transaction = env_Transaction envelope, pst_Request = env_Request envelope,
      pst_TotalBounty = tx_Value (env_Transaction envelope),
      pst_AdjustedDifficulty = ct_AdjustedDifficulty (env_Task envelope),
      pst_PrioritySectors = ct_PrioritySectors (env_Task envelope), pst_CreatedAt = ct_CreatedAt (env_Task envelope)\<rparr>"

definition PendingSearchTasks :: "Engine option \<Rightarrow> string \<Rightarrow> int \<Rightarrow> PendingSearchTask list" where
  "PendingSearchTasks engine sender limit =
     (case engine of
        None \<Rightarrow> []
      | Some e \<Rightarrow>
          map pending_search_task
            (if TrimSpace sender = [] then TaskPool_Snapshot (eng_TaskPool e) limit
             else limitSearchTaskEnvelopes (TaskPool_PendingForSender (eng_TaskPool e) (TrimSpace sender)) limit))"

end
