(* ===== verification/Engine_Lanes.thy ===== *)
theory Engine_Lanes
  imports Engine Mempool_Laws
begin

text \<open>
  The lanes of a mining round: the workers write their outcomes in any order, and what is written is what
  crawling the items one after the other would give.
\<close>

section \<open>Lanes\<close>

text \<open>
  The reference: item \<open>i\<close> is crawled unless an earlier pool task of its lane failed, and then it carries
  the first such failure.
\<close>

definition task_fails :: "(CrawlTask \<Rightarrow> MiningResult res) \<Rightarrow> miningSearchTask \<Rightarrow> bool" where
  "task_fails mine item \<longleftrightarrow> mst_source item = miningTaskSourceMempool \<and> isl (mine (env_Task (mst_envelope item)))"

definition fails_in_lane :: "(CrawlTask \<Rightarrow> MiningResult res) \<Rightarrow> string \<Rightarrow> miningSearchTask \<Rightarrow> bool" where
  "fails_in_lane mine key item \<longleftrightarrow> miningLaneKey item = key \<and> task_fails mine item"

definition crawl_outcome :: "(CrawlTask \<Rightarrow> MiningResult res) \<Rightarrow> miningSearchTask \<Rightarrow> miningSearchTaskOutcome" where
  "crawl_outcome mine item =
     (case mine (env_Task (mst_envelope item)) of
        Inr result \<Rightarrow> \<lparr>out_workItem = item, out_result = Some result, out_err = None, out_blockedSender = False, out_blockedReason = []\<rparr>
      | Inl er \<Rightarrow> \<lparr>out_workItem = item, out_result = None, out_err = Some er, out_blockedSender = False, out_blockedReason = []\<rparr>)"

definition blocked_outcome :: "miningSearchTask \<Rightarrow> string \<Rightarrow> miningSearchTaskOutcome" where
  "blocked_outcome item reason =
     \<lparr>out_workItem = item, out_result = None, out_err = None, out_blockedSender = True, out_blockedReason = reason\<rparr>"

definition sequential_outcome :: "(CrawlTask \<Rightarrow> MiningResult res) \<Rightarrow> miningSearchTask list \<Rightarrow> nat \<Rightarrow> miningSearchTaskOutcome" where
  "sequential_outcome mine items i =
     (case find (fails_in_lane mine (miningLaneKey (items ! i))) (take i items) of
        None \<Rightarrow> crawl_outcome mine (items ! i)
      | Some item \<Rightarrow> blocked_outcome (items ! i) (blocked_text item))"

lemma run_lane_None:
  "run_lane mine None ((i, item) # lane) =
     (i, crawl_outcome mine item)
     # run_lane mine (if task_fails mine item then Some (blocked_text item) else None) lane"
  by (simp add: crawl_outcome_def task_fails_def split: sum.splits)

lemma run_lane_Some: "run_lane mine (Some reason) lane = map (\<lambda>(i, item). (i, blocked_outcome item reason)) lane"
  by (induction lane) (auto simp: blocked_outcome_def)

text \<open>The lane of a key, from the items at the indexes that carry it.\<close>

definition lane_of :: "miningSearchTask list \<Rightarrow> string \<Rightarrow> nat list" where
  "lane_of items k = filter (\<lambda>i. miningLaneKey (items ! i) = k) [0..<length items]"

lemma lane_split:
  assumes "lane_of items k = is @ i # js"
  shows "filter (\<lambda>x. miningLaneKey x = k) (take i items) = map (\<lambda>j. items ! j) is"
    and "i < length items" and "miningLaneKey (items ! i) = k"
proof -
  let ?P = "\<lambda>j. miningLaneKey (items ! j) = k"
  have "i \<in> set (lane_of items k)" using assms by simp
  then show i: "i < length items" and Pi: "?P i" by (auto simp: lane_of_def)
  have "[0..<length items] = [0..<i] @ i # [Suc i..<length items]"
    using upt_add_eq_append [of 0 i "length items - i"] upt_conv_Cons [OF i] i by simp
  then have split: "lane_of items k = filter ?P [0..<i] @ i # filter ?P [Suc i..<length items]"
    using Pi by (simp add: lane_of_def)
  have "distinct (lane_of items k)" by (simp add: lane_of_def)
  then have "i \<notin> set is" "i \<notin> set js" using assms by auto
  then have "is = filter ?P [0..<i]" using assms split by (metis append_Cons_eq_iff)
  moreover have "take i items = map (\<lambda>j. items ! j) [0..<i]" using i by (intro nth_equalityI) simp_all
  ultimately show "filter (\<lambda>x. miningLaneKey x = k) (take i items) = map (\<lambda>j. items ! j) is"
    by (simp add: filter_map comp_def)
qed

lemma find_in_lane:
  "find (fails_in_lane mine k) xs = find (task_fails mine) (filter (\<lambda>x. miningLaneKey x = k) xs)"
  by (induction xs) (auto simp: fails_in_lane_def)

lemma find_snoc: "find P (xs @ [x]) = (case find P xs of None \<Rightarrow> if P x then Some x else None | Some y \<Rightarrow> Some y)"
  by (induction xs) auto

lemma run_lane_suffix:
  assumes "lane_of items k = is @ js"
  shows "run_lane mine (map_option blocked_text (find (task_fails mine) (map (\<lambda>j. items ! j) is))) (map (\<lambda>j. (j, items ! j)) js)
    = map (\<lambda>j. (j, sequential_outcome mine items j)) js"
  using assms
proof (induction js arbitrary: "is")
  case (Cons i js)
  let ?found = "find (task_fails mine) (map (\<lambda>j. items ! j) is)"
  note lane = lane_split [OF Cons.prems]
  have found: "find (fails_in_lane mine (miningLaneKey (items ! i))) (take i items) = ?found"
    by (simp only: find_in_lane lane)
  have "run_lane mine (map_option blocked_text (find (task_fails mine) (map (\<lambda>j. items ! j) (is @ [i])))) (map (\<lambda>j. (j, items ! j)) js)
    = map (\<lambda>j. (j, sequential_outcome mine items j)) js" using Cons.prems by (intro Cons.IH) simp
  then show ?case
    by (cases ?found; cases "task_fails mine (items ! i)")
      (simp_all add: find_snoc run_lane_None run_lane_Some sequential_outcome_def [of mine items i] found del: run_lane.simps(3))
qed simp

lemma run_lane_sequential:
  "run_lane mine None (map (\<lambda>j. (j, items ! j)) (lane_of items k)) = map (\<lambda>j. (j, sequential_outcome mine items j)) (lane_of items k)"
  using run_lane_suffix [of items k "[]"] by simp

text \<open>The lanes of a round, through the queues of the pools: a lane is the queue of a key.\<close>

definition laned :: "nat \<times> miningSearchTask \<Rightarrow> Transaction" where
  "laned job = (env_Transaction (mst_envelope (snd job)))\<lparr>tx_From := miningLaneKey (snd job)\<rparr>"

lemma laned_From [simp]: "tx_From (laned job) = miningLaneKey (snd job)"
  by (simp add: laned_def)

lemma mining_lanes_spec:
  obtains ks where "distinct ks" "set ks = miningLaneKey ` set items"
    and "mining_lanes items = map (\<lambda>k. map (\<lambda>j. (j, items ! j)) (lane_of items k)) ks"
proof -
  define qs where "qs = fold (\<lambda>(i, item) lanes. queue_push (miningLaneKey item) (i, item) lanes) (enumerate 0 items) []"
  have "qs = fold (\<lambda>x qs. queue_push (tx_From (laned x)) x qs) (enumerate 0 items) []"
    unfolding qs_def by (rule fold_cong) auto
  then have g: "grouped laned (enumerate 0 items) qs" by (simp only: grouped_fold)
  have enum: "enumerate 0 items = map (\<lambda>j. (j, items ! j)) [0..<length items]"
    by (intro nth_equalityI) (simp_all add: nth_enumerate_eq)
  have queue: "snd q = map (\<lambda>j. (j, items ! j)) (lane_of items (fst q))" if "q \<in> set qs" for q
  proof -
    have "\<forall>(s, q) \<in> set qs. q = from_sender laned s (enumerate 0 items)" using g unfolding grouped_def by (elim conjE)
    then have "snd q = from_sender laned (fst q) (enumerate 0 items)" using bspec [OF _ that] by (simp add: split_beta)
    then show ?thesis by (simp only: enum from_sender_def filter_map comp_def laned_From snd_conv lane_of_def)
  qed
  show ?thesis
  proof (rule that [of "map fst qs"])
    show "distinct (map fst qs)" using g by (simp add: grouped_def)
    have "set (map fst qs) = (\<lambda>x. miningLaneKey (snd x)) ` set (enumerate 0 items)" using g by (simp only: grouped_def laned_From)
    also have "\<dots> = miningLaneKey ` set (map snd (enumerate 0 items))" by (simp only: image_image set_map)
    finally show "set (map fst qs) = miningLaneKey ` set items" by simp
    show "mining_lanes items = map (\<lambda>k. map (\<lambda>j. (j, items ! j)) (lane_of items k)) (map fst qs)"
      using queue by (simp add: mining_lanes_def qs_def [symmetric])
  qed
qed

text \<open>All that the workers write.\<close>

definition lane_writes :: "(CrawlTask \<Rightarrow> MiningResult res) \<Rightarrow> miningSearchTask list \<Rightarrow> (nat \<times> miningSearchTaskOutcome) list" where
  "lane_writes mine items = concat (map (run_lane mine None) (mining_lanes items))"

lemma lane_writes_mset:
  "mset (lane_writes mine items) = mset (map (\<lambda>j. (j, sequential_outcome mine items j)) [0..<length items])"
proof -
  obtain ks where ks: "distinct ks" "set ks = miningLaneKey ` set items"
    "mining_lanes items = map (\<lambda>k. map (\<lambda>j. (j, items ! j)) (lane_of items k)) ks" by (rule mining_lanes_spec)
  have "distinct (concat (map (lane_of items) ks))"
    using ks(1) by (induction ks) (auto simp: lane_of_def)
  moreover have "set (concat (map (lane_of items) ks)) = set [0..<length items]"
    using ks(2) by (auto simp: lane_of_def) (metis nth_mem)
  ultimately have "mset (concat (map (lane_of items) ks)) = mset [0..<length items]"
    by (metis distinct_upt set_eq_iff_mset_eq_distinct)
  moreover have "lane_writes mine items = map (\<lambda>j. (j, sequential_outcome mine items j)) (concat (map (lane_of items) ks))"
    by (simp add: lane_writes_def ks(3) comp_def run_lane_sequential map_concat)
  ultimately show ?thesis by (simp only: mset_map)
qed

lemma write_slots_length [simp]: "length (write_slots ws slots) = length slots"
  by (induction ws arbitrary: slots) (auto simp: write_slots_def)

lemma write_slots_nth:
  "distinct (map fst ws) \<Longrightarrow> i < length slots \<Longrightarrow>
   write_slots ws slots ! i = (case map_of ws i of None \<Rightarrow> slots ! i | Some out \<Rightarrow> Some out)"
proof (induction ws arbitrary: slots)
  case (Cons w ws)
  obtain j out where w: "w = (j, out)" by (cases w)
  have "write_slots (w # ws) slots = write_slots ws (slots[j := Some out])" by (simp add: write_slots_def w)
  then have "write_slots (w # ws) slots ! i = (case map_of ws i of None \<Rightarrow> slots[j := Some out] ! i | Some out \<Rightarrow> Some out)"
    using Cons by simp
  moreover have "map_of ws j = None" using Cons.prems(1) by (simp add: w map_of_eq_None_iff)
  ultimately show ?case using Cons.prems(2) by (cases "i = j") (simp_all add: w split: option.split)
qed (simp add: write_slots_def)

lemma write_slots_any_order:
  assumes "mset ws = mset (lane_writes mine items)"
  shows "write_slots ws (replicate (length items) None) = map (\<lambda>j. Some (sequential_outcome mine items j)) [0..<length items]"
proof (rule nth_equalityI)
  let ?all = "map (\<lambda>j. (j, sequential_outcome mine items j)) [0..<length items]"
  have ms: "mset ws = mset ?all" using assms lane_writes_mset by metis
  have "mset (map fst ws) = mset (map fst ?all)" using ms by (simp only: mset_map)
  also have "map fst ?all = [0..<length items]" by (simp add: comp_def)
  finally have d: "distinct (map fst ws)" by (metis distinct_upt mset_eq_imp_distinct_iff)
  have "set ws = set ?all" using ms by (metis set_mset_mset)
  then have "(i, sequential_outcome mine items i) \<in> set ws" if "i < length items" for i using that by simp
  then have "map_of ws i = Some (sequential_outcome mine items i)" if "i < length items" for i
    using that by (simp add: map_of_is_SomeI [OF d])
  then show "write_slots ws (replicate (length items) None) ! i = map (\<lambda>j. Some (sequential_outcome mine items j)) [0..<length items] ! i"
    if "i < length (write_slots ws (replicate (length items) None))" for i
    using that by (simp add: write_slots_nth [OF d])
qed simp

lemma run_lanes_writes: "run_lanes mine n lanes = write_slots (concat (map (run_lane mine None) lanes)) (replicate n None)"
proof -
  have "fold (\<lambda>lane. write_slots (run_lane mine None lane)) lanes slots = write_slots (concat (map (run_lane mine None) lanes)) slots" for slots
    by (induction lanes arbitrary: slots) (simp_all add: write_slots_def)
  then show ?thesis by (simp add: run_lanes_def)
qed

lemma mineSearchTasks_sequential: "mineSearchTasks mine items = map (sequential_outcome mine items) [0..<length items]"
  using write_slots_any_order [OF refl, of mine items]
  by (simp add: mineSearchTasks_def run_lanes_writes lane_writes_def [symmetric] comp_def)

text \<open>
  C22: The outcomes of a mining round do not depend on scheduling: whatever the order in which the
  workers of the lanes write their slots, the outcomes are those of one pass over the items, in which an item is
  crawled unless an earlier pool task of its sender failed in this round and is then blocked by the first such failure.
\<close>

theorem mining_schedule_independent:
  assumes "mset ws = mset (concat (map (run_lane mine None) (mining_lanes items)))"
  shows "map the (write_slots ws (replicate (length items) None)) = mineSearchTasks mine items
    \<and> mineSearchTasks mine items = map (sequential_outcome mine items) [0..<length items]"
  using write_slots_any_order [of ws mine items] assms
  by (simp add: mineSearchTasks_sequential lane_writes_def comp_def)

theorem mining_schedule_independent_witness:
  "let work = [toy_work\<lparr>mst_source := miningTaskSourceMempool\<rparr>, toy_work\<lparr>mst_source := miningTaskSourceMempool\<rparr>];
       mine = (\<lambda>_. Inl ErrNoIndexableResult)
   in map out_blockedSender (map the (write_slots (rev (concat (map (run_lane mine None) (mining_lanes work)))) (replicate 2 None)))
      = [False, True]"
proof -
  let ?w = "toy_work\<lparr>mst_source := miningTaskSourceMempool\<rparr>" and ?mine = "\<lambda>_ :: CrawlTask. Inl ErrNoIndexableResult :: MiningResult res"
  let ?ws = "rev (concat (map (run_lane ?mine None) (mining_lanes [?w, ?w])))"
  have "mset ?ws = mset (concat (map (run_lane ?mine None) (mining_lanes [?w, ?w])))" by simp
  from mining_schedule_independent [OF this]
  have "map the (write_slots ?ws (replicate 2 None)) = map (sequential_outcome ?mine [?w, ?w]) [0..<2]" by (simp add: numeral_2_eq_2)
  moreover have "map out_blockedSender (map (sequential_outcome ?mine [?w, ?w]) [0..<2]) = [False, True]"
    by (simp add: numeral_2_eq_2 sequential_outcome_def fails_in_lane_def task_fails_def crawl_outcome_def blocked_outcome_def)
  ultimately show ?thesis by (simp only: Let_def)
qed

end
