(* ===== verification/Engine_Laws.thy ===== *)
theory Engine_Laws
  imports Engine_Lanes Useful_Work
begin

text \<open>
  Submissions: an accepted transaction or search task extends the pending work of its sender by
  exactly the next nonce.
\<close>

section \<open>Pending work of a sender\<close>

text \<open>Everything that counts for the pending state of a sender, in the order in which it is collected.\<close>

definition sender_work :: "Engine \<Rightarrow> string \<Rightarrow> Transaction list" where
  "sender_work e s =
     TxPool_PendingForSender (eng_TxPool e) s @ fst (inFlightWorkForSender e s)
     @ map env_Transaction (TaskPool_PendingForSender (eng_TaskPool e) s @ snd (inFlightWorkForSender e s))"

lemma sender_work_From: "tx \<in> set (sender_work e s) \<Longrightarrow> tx_From tx = s"
  by (auto simp: sender_work_def TxPool_PendingForSender_def TaskPool_PendingForSender_def pool_PendingForSender_def
      inFlightWorkForSender_def)

lemma pendingState_iff:
  assumes "eng_Blockchain e = Some bc"
  shows "pendingStateForSender E e s = Inr snap \<longleftrightarrow>
    (\<exists>r ys. dedupe_pending fmempty (sender_work e s) = Inr r
       \<and> \<not> same_neighbour_nonce (sort_key (queue_order (\<lambda>tx. tx)) r)
       \<and> run_steps (apply_tx E (ArchitectAddress bc)) (bc_state bc) (sort_key (queue_order (\<lambda>tx. tx)) r) = Inr (snap, ys))"
  using assms
  by (auto simp: pendingStateForSender_def mergeSenderPendingTransactions_def sender_work_def split_beta Let_def
      split: sum.splits if_splits)

subsection \<open>Repeated entries\<close>

lemma dedupe_other_key:
  "k \<notin> item_key (\<lambda>tx. tx) ` set xs \<Longrightarrow> dedupe_pending (fmupd k h m) xs = dedupe_pending m xs"
proof (induction xs arbitrary: m)
  case (Cons x xs)
  let ?k = "senderNonceKey (tx_From x) (tx_Nonce x)"
  have other: "?k \<noteq> k" and rest: "k \<notin> item_key (\<lambda>tx. tx) ` set xs" using Cons.prems by (auto simp: item_key_def)
  then have "fmupd ?k (tx_Hash x) (fmupd k h m) = fmupd k h (fmupd ?k (tx_Hash x) m)" by (intro fmap_ext) auto
  then show ?case using other by (simp add: Let_def Cons.IH [OF rest] split: option.split)
qed simp

lemma dedupe_insert:
  assumes "dedupe_pending m (xs @ ys) = Inr r" and "item_key (\<lambda>tx. tx) x \<notin> item_key (\<lambda>tx. tx) ` set (xs @ ys)"
    and "fmlookup m (item_key (\<lambda>tx. tx) x) = None"
  shows "\<exists>r1 r2. r = r1 @ r2 \<and> dedupe_pending m (xs @ x # ys) = Inr (r1 @ x # r2)"
  using assms
proof (induction xs arbitrary: m r)
  case Nil
  have "dedupe_pending (fmupd (item_key (\<lambda>tx. tx) x) (tx_Hash x) m) ys = dedupe_pending m ys"
    using Nil(2) by (intro dedupe_other_key) simp
  then have "dedupe_pending m (x # ys) = Inr (x # r)" using Nil(1,3) by (simp add: item_key_def)
  then show ?case by (intro exI [of _ "[]"] exI [of _ r]) (simp del: dedupe_pending.simps)
next
  case (Cons y xs)
  let ?k = "senderNonceKey (tx_From y) (tx_Nonce y)"
  show ?case
  proof (cases "fmlookup m ?k")
    case None
    then obtain r' where r': "dedupe_pending (fmupd ?k (tx_Hash y) m) (xs @ ys) = Inr r'" "r = y # r'"
      using Cons.prems(1) by (auto split: sum.splits)
    have "fmlookup (fmupd ?k (tx_Hash y) m) (item_key (\<lambda>tx. tx) x) = None"
      using Cons.prems(2,3) by (auto simp: item_key_def)
    then obtain r1 r2 where "r' = r1 @ r2" "dedupe_pending (fmupd ?k (tx_Hash y) m) (xs @ x # ys) = Inr (r1 @ x # r2)"
      using Cons.IH [OF r'(1)] Cons.prems(2) by auto
    with None r'(2) show ?thesis by (intro exI [of _ "y # r1"] exI [of _ r2]) simp
  next
    case (Some h)
    then have "h = tx_Hash y" "dedupe_pending m (xs @ ys) = Inr r" using Cons.prems(1) by (auto split: if_splits)
    with Cons.IH [of m r] Cons.prems(2,3) Some show ?thesis by simp
  qed
qed

lemma dedupe_keys:
  "dedupe_pending m xs = Inr r \<Longrightarrow> set r \<subseteq> set xs \<and>
   (\<forall>x \<in> set xs. fmlookup m (item_key (\<lambda>tx. tx) x) \<noteq> None \<or> item_key (\<lambda>tx. tx) x \<in> item_key (\<lambda>tx. tx) ` set r)"
proof (induction xs arbitrary: m r)
  case (Cons x xs)
  let ?k = "senderNonceKey (tx_From x) (tx_Nonce x)"
  show ?case
  proof (cases "fmlookup m ?k")
    case None
    then obtain r' where r': "dedupe_pending (fmupd ?k (tx_Hash x) m) xs = Inr r'" "r = x # r'"
      using Cons.prems by (auto split: sum.splits)
    with Cons.IH [OF r'(1)] show ?thesis by (auto simp: item_key_def split: if_splits)
  next
    case (Some h)
    then have "dedupe_pending m xs = Inr r" using Cons.prems by (auto split: if_splits)
    with Cons.IH Some show ?thesis by (auto simp: item_key_def)
  qed
qed simp

subsection \<open>Nonces in a run\<close>

lemma run_nonces:
  assumes "run_steps (apply_tx E architect) st xs = Inr (st', ys)" and "\<And>x. x \<in> set xs \<Longrightarrow> TrimSpace (tx_From x) = s"
  shows "map tx_Nonce xs = map (\<lambda>m. fm_get (Nonces st) 0 s + of_nat m) [0..<length xs]
    \<and> fm_get (Nonces st') 0 s = fm_get (Nonces st) 0 s + of_nat (length xs)"
  using assms
proof (induction xs arbitrary: st ys)
  case (Cons x xs)
  from Cons.prems(1) obtain st1 y ys' where step: "apply_tx E architect st x = Inr (st1, y)"
    and rest: "run_steps (apply_tx E architect) st1 xs = Inr (st', ys')" by (rule run_steps_ConsE)
  have nonce: "tx_Nonce x = fm_get (Nonces st) 0 s" "fm_get (Nonces st1) 0 s = fm_get (Nonces st) 0 s + 1"
    using step Cons.prems(2) [of x] by (auto elim!: apply_tx_books simp: fm_get_def)
  note IH = Cons.IH [OF rest Cons.prems(2)]
  have "[0..<length (x # xs)] = 0 # map Suc [0..<length xs]" by (simp add: upt_conv_Cons map_Suc_upt del: upt_Suc)
  then have "map (\<lambda>m. fm_get (Nonces st) 0 s + of_nat m) [0..<length (x # xs)]
      = fm_get (Nonces st) 0 s # map (\<lambda>m. fm_get (Nonces st1) 0 s + of_nat m) [0..<length xs]"
    by (simp add: nonce(2) algebra_simps)
  with IH nonce show ?case by (simp add: algebra_simps)
qed simp

lemma run_steps_append:
  "run_steps f s (xs @ ys) =
     (case run_steps f s xs of
        Inl e \<Rightarrow> Inl e
      | Inr (s', zs) \<Rightarrow> (case run_steps f s' ys of Inl e \<Rightarrow> Inl e | Inr (s'', ws) \<Rightarrow> Inr (s'', zs @ ws)))"
  by (induction xs arbitrary: s) (auto split: sum.splits prod.splits)

lemma distinct_no_neighbour: "distinct (map tx_Nonce xs) \<Longrightarrow> \<not> same_neighbour_nonce xs"
  by (induction xs rule: same_neighbour_nonce.induct) auto

lemma of_nat_u64_less:
  assumes "unat (a :: u64) + n < 2 ^ 64" and "m < n"
  shows "a + of_nat m < a + of_nat n"
proof -
  have "unat (a + of_nat k) = unat a + k" if "k \<le> n" for k
    using assms(1) that by (simp add: unat_word_ariths unat_of_nat)
  with assms(2) show ?thesis by (simp add: word_less_nat_alt)
qed

text \<open>One more accepted item at the end of the pending work of a sender.\<close>

lemma accepted_extends:
  assumes bc: "eng_Blockchain e = Some bc" "eng_Blockchain e' = Some bc"
    and ok: "validatePendingTransaction E e x = Inr ()" and s: "tx_From x = s" "TrimSpace s = s"
    and work: "sender_work e s = us @ vs" "sender_work e' s = us @ x # vs"
    and room: "unat (fm_get (Nonces (bc_state bc)) 0 s) + length (sender_work e s) < 2 ^ 64"
  shows "PendingNonce E e s = Inr (tx_Nonce x) \<and> tx_Nonce x \<notin> tx_Nonce ` set (sender_work e s)
    \<and> PendingNonce E e' s = Inr (tx_Nonce x + 1)"
proof -
  let ?o = "queue_order (\<lambda>tx. tx)" and ?apply = "apply_tx E (ArchitectAddress bc)"
  define n where "n = fm_get (Nonces (bc_state bc)) 0 s"
  obtain snap snap' a where pend: "pendingStateForSender E e s = Inr snap" and step: "?apply snap x = Inr (snap', a)"
    using ok s bc(1) by (auto simp: validatePendingTransaction_def split: sum.splits)
  then obtain r ys where r: "dedupe_pending fmempty (sender_work e s) = Inr r"
    and run: "run_steps ?apply (bc_state bc) (sort_key ?o r) = Inr (snap, ys)"
    unfolding pendingState_iff [OF bc(1)] by blast
  note keys = dedupe_keys [OF r]
  have from_s: "tx_From y = s" if "y \<in> set r" for y using that keys sender_work_From by blast
  then have nonces: "map tx_Nonce (sort_key ?o r) = map (\<lambda>m. n + of_nat m) [0..<length r]"
    "fm_get (Nonces snap) 0 s = n + of_nat (length r)"
    using run_nonces [OF run, of s] s(2) by (auto simp: n_def)
  have x_nonce: "tx_Nonce x = n + of_nat (length r)" "fm_get (Nonces snap') 0 s = tx_Nonce x + 1"
    using step s nonces(2) by (auto elim!: apply_tx_books simp: fm_get_def)
  have "length r \<le> length (sender_work e s)"
  proof -
    have "dedupe_pending m xs = Inr zs \<Longrightarrow> length zs \<le> length xs" for m xs zs
      by (induction m xs arbitrary: zs rule: dedupe_pending.induct)
        (auto simp: Let_def split: option.splits if_splits sum.splits intro: le_SucI)
    then show ?thesis using r .
  qed
  then have less: "tx_Nonce y < tx_Nonce x" if "y \<in> set r" for y
  proof -
    have "tx_Nonce y \<in> set (map tx_Nonce (sort_key ?o r))" using that by simp
    then obtain m where "m < length r" "tx_Nonce y = n + of_nat m" unfolding nonces(1) by auto
    with of_nat_u64_less [of n "length r" m] room \<open>length r \<le> _\<close> show ?thesis by (simp add: x_nonce(1) n_def)
  qed
  have fresh: "tx_Nonce x \<notin> tx_Nonce ` set (sender_work e s)"
    using keys less by (fastforce simp: item_key_def)
  have key: "item_key (\<lambda>tx. tx) x \<notin> item_key (\<lambda>tx. tx) ` set (us @ vs)" using fresh work(1) by (auto simp: item_key_def)
  obtain r1 r2 where parts: "r = r1 @ r2" "dedupe_pending fmempty (sender_work e' s) = Inr (r1 @ x # r2)"
    using dedupe_insert [OF r [unfolded work(1)] key] work(2) by auto
  have "inj_on (\<lambda>m. n + of_nat m) {0..<length r}"
  proof (rule linorder_inj_onI)
    show "n + of_nat m \<noteq> n + of_nat m'" if "m < m'" "m' \<in> {0..<length r}" for m m'
      using of_nat_u64_less [OF _ that(1), of n] that room \<open>length r \<le> _\<close> by (auto simp: n_def)
  qed auto
  then have "distinct (map tx_Nonce (sort_key ?o r))" unfolding nonces(1) by (simp add: distinct_map)
  then have distinct: "distinct (map tx_Nonce (sort_key ?o r @ [x]))" using less by fastforce
  have sorted: "sort_key ?o (r1 @ x # r2) = sort_key ?o r @ [x]"
  proof (rule sort_key_inj_key_eq)
    show "mset (r1 @ x # r2) = mset (sort_key ?o r @ [x])" by (simp add: parts(1))
    have "inj_on tx_Nonce (set (sort_key ?o r @ [x]))" using distinct by (simp only: distinct_map)
    then show "inj_on ?o (set (r1 @ x # r2))" by (auto simp: inj_on_def queue_order_def parts(1))
    show "sorted (map ?o (sort_key ?o r @ [x]))"
      using less by (auto simp: sorted_append queue_order_def less_eq_prod_def less_imp_le)
  qed
  have "run_steps ?apply (bc_state bc) (sort_key ?o (r1 @ x # r2)) = Inr (snap', ys @ [a])"
    by (simp add: sorted run_steps_append run step)
  then have "pendingStateForSender E e' s = Inr snap'"
    unfolding pendingState_iff [OF bc(2)] using parts(2) distinct_no_neighbour [OF distinct] by (auto simp: sorted)
  then show ?thesis using pend bc nonces(2) x_nonce fresh by (simp add: PendingNonce_def)
qed

section \<open>Submissions\<close>

text \<open>Two pending items stand for one another when they have the same hash; only the same sender and nonce may share one.\<close>

definition hash_identifies :: "Transaction \<Rightarrow> Transaction list \<Rightarrow> bool" where
  "hash_identifies x xs \<longleftrightarrow> (\<forall>y \<in> set xs. tx_Hash y = tx_Hash x \<longrightarrow> tx_From y = tx_From x \<and> tx_Nonce y = tx_Nonce x)"

lemma add_new_nonce:
  assumes inv: "pool_inv txof p" and add: "pool_Add txof p x = (p', Inr ())"
    and hash: "hash_identifies (txof x) (map txof (pool_pending p))"
    and fresh: "tx_Nonce (txof x) \<notin> (\<lambda>y. tx_Nonce (txof y)) ` set (pool_PendingForSender txof p (tx_From (txof x)))"
  shows "p' = append_item txof p x"
proof -
  have slot: "\<not> (tx_From (txof y) = tx_From (txof x) \<and> tx_Nonce (txof y) = tx_Nonce (txof x))" if "y \<in> set (pool_pending p)" for y
    using fresh that by (force simp: pool_PendingForSender_def image_iff)
  show ?thesis
    using inv
  proof (cases rule: pool_Add_cases [of txof p x, case_names known taken fresh])
    case known
    then show ?thesis using slot hash by (fastforce simp: hash_identifies_def item_hash_def)
  next
    case (taken i)
    then show ?thesis using slot [of "pool_pending p ! i"] by (simp add: item_key_same)
  next
    case fresh
    then show ?thesis using add by (auto simp: add_new_def split: if_splits)
  qed
qed

lemma accepted_transfer:
  assumes "eng_Blockchain e = Some bc" and "pool_inv (\<lambda>tx. tx) (eng_TxPool e)"
    and "unat (fm_get (Nonces (bc_state bc)) 0 (TrimSpace (tx_From tx))) + length (sender_work e (TrimSpace (tx_From tx))) < 2 ^ 64"
    and run: "submitTransaction E e tx = (e', Inr h)" and hash: "hash_identifies (normalizeTransaction E tx) (pool_pending (eng_TxPool e))"
  shows "pool_pending (eng_TxPool e') = pool_pending (eng_TxPool e) @ [normalizeTransaction E tx]
    \<and> PendingNonce E e (TrimSpace (tx_From tx)) = Inr (tx_Nonce tx)
    \<and> PendingNonce E e' (TrimSpace (tx_From tx)) = Inr (tx_Nonce tx + 1)"
proof -
  let ?s = "TrimSpace (tx_From tx)" and ?x = "normalizeTransaction E tx"
  let ?T = "TxPool_PendingForSender (eng_TxPool e) ?s" and ?K = "TaskPool_PendingForSender (eng_TaskPool e) ?s"
  obtain ft fk where flight: "inFlightWorkForSender e ?s = (ft, fk)" by fastforce
  have work: "sender_work e ?s = ?T @ ft @ map env_Transaction ?K @ map env_Transaction fk" by (simp add: sender_work_def flight)
  obtain p where p: "validatePendingTransaction E e ?x = Inr ()" "TxPool_Add (eng_TxPool e) ?x = (p, Inr ())" "e' = e\<lparr>eng_TxPool := p\<rparr>"
    using run assms(1) by (auto simp: submitTransaction_def Let_def split: sum.splits prod.splits)
  define e2 where "e2 = e\<lparr>eng_TxPool := append_item (\<lambda>tx. tx) (eng_TxPool e) ?x\<rparr>"
  have bc2: "eng_Blockchain e2 = Some bc" using assms(1) by (simp add: e2_def)
  have from_x: "tx_From ?x = ?s" by simp
  have "sender_work e2 ?s = ?T @ ?x # (ft @ map env_Transaction ?K @ map env_Transaction fk)"
    using flight by (simp add: sender_work_def e2_def TxPool_PendingForSender_def pool_PendingForSender_def append_item_def inFlightWorkForSender_def)
  from accepted_extends [OF assms(1) bc2 p(1) from_x TrimSpace_idem work this assms(3)]
  have ok: "PendingNonce E e ?s = Inr (tx_Nonce ?x)" "tx_Nonce ?x \<notin> tx_Nonce ` set (sender_work e ?s)"
    "PendingNonce E e2 ?s = Inr (tx_Nonce ?x + 1)" by simp_all
  have "p = append_item (\<lambda>tx. tx) (eng_TxPool e) ?x"
    using p(2) hash ok(2) by (intro add_new_nonce [OF assms(2)]) (simp_all add: TxPool_Add_def work TxPool_PendingForSender_def image_Un)
  then show ?thesis using ok p(3) by (simp add: e2_def append_item_def)
qed

lemma accepted_task:
  assumes "eng_Blockchain e = Some bc" and "pool_inv env_Transaction (eng_TaskPool e)"
    and "unat (fm_get (Nonces (bc_state bc)) 0 (TrimSpace (tx_From tx))) + length (sender_work e (TrimSpace (tx_From tx))) < 2 ^ 64"
    and run: "submitSearchTask E e tx request = (e', Inr envelope)"
    and hash: "hash_identifies (env_Transaction envelope) (map env_Transaction (pool_pending (eng_TaskPool e)))"
  shows "pool_pending (eng_TaskPool e') = pool_pending (eng_TaskPool e) @ [envelope]
    \<and> PendingNonce E e (TrimSpace (tx_From tx)) = Inr (tx_Nonce tx)
    \<and> PendingNonce E e' (TrimSpace (tx_From tx)) = Inr (tx_Nonce tx + 1)"
proof -
  let ?s = "TrimSpace (tx_From tx)"
  let ?T = "TxPool_PendingForSender (eng_TxPool e) ?s" and ?K = "TaskPool_PendingForSender (eng_TaskPool e) ?s"
  obtain ft fk where flight: "inFlightWorkForSender e ?s = (ft, fk)" by fastforce
  have work: "sender_work e ?s = ?T @ ft @ map env_Transaction ?K @ map env_Transaction fk" by (simp add: sender_work_def flight)
  obtain p where p: "BuildSearchTaskEnvelope E tx request (miner_PriorityRegistry (eng_Miner e)) = Inr envelope"
    "validatePendingTransaction E e (env_Transaction envelope) = Inr ()"
    "TaskPool_Add (eng_TaskPool e) envelope = (p, Inr ())" "e' = e\<lparr>eng_TaskPool := p\<rparr>"
    using run assms(1) by (auto simp: submitSearchTask_def split: sum.splits prod.splits)
  have x: "tx_From (env_Transaction envelope) = ?s" "tx_Nonce (env_Transaction envelope) = tx_Nonce tx"
    using p(1) by (auto simp: BuildSearchTaskEnvelope_def Let_def split: if_splits sum.splits option.splits)
  define e2 where "e2 = e\<lparr>eng_TaskPool := append_item env_Transaction (eng_TaskPool e) envelope\<rparr>"
  have bc2: "eng_Blockchain e2 = Some bc" using assms(1) by (simp add: e2_def)
  have "sender_work e2 ?s = (?T @ ft @ map env_Transaction ?K) @ env_Transaction envelope # map env_Transaction fk"
    using flight x by (simp add: sender_work_def e2_def TaskPool_PendingForSender_def pool_PendingForSender_def append_item_def inFlightWorkForSender_def)
  from accepted_extends [OF assms(1) bc2 p(2) x(1) TrimSpace_idem _ this assms(3)] work
  have ok: "PendingNonce E e ?s = Inr (tx_Nonce tx)" "tx_Nonce tx \<notin> tx_Nonce ` set (sender_work e ?s)"
    "PendingNonce E e2 ?s = Inr (tx_Nonce tx + 1)" by (simp_all add: x)
  have "p = append_item env_Transaction (eng_TaskPool e) envelope"
    using p(3) hash ok(2)
    by (intro add_new_nonce [OF assms(2)]) (simp_all add: TaskPool_Add_def work TaskPool_PendingForSender_def image_Un image_image x)
  then show ?thesis using ok p(4) by (simp add: e2_def append_item_def)
qed

text \<open>
  C17: An accepted submission extends the pending work of its sender. Its nonce is the pending
  nonce the engine reports, it is appended to its pool and replaces nothing, and the reported pending nonce is
  then the next one. So a pending item is never replaced through a submission.
\<close>

theorem submission_extends_pending:
  assumes "eng_Blockchain e = Some bc" and "pool_inv (\<lambda>tx. tx) (eng_TxPool e)" and "pool_inv env_Transaction (eng_TaskPool e)"
    and "unat (fm_get (Nonces (bc_state bc)) 0 (TrimSpace (tx_From tx))) + length (sender_work e (TrimSpace (tx_From tx))) < 2 ^ 64"
  shows "(\<forall>e' h. submitTransaction E e tx = (e', Inr h) \<and> hash_identifies (normalizeTransaction E tx) (pool_pending (eng_TxPool e)) \<longrightarrow>
      pool_pending (eng_TxPool e') = pool_pending (eng_TxPool e) @ [normalizeTransaction E tx]
      \<and> PendingNonce E e (TrimSpace (tx_From tx)) = Inr (tx_Nonce tx)
      \<and> PendingNonce E e' (TrimSpace (tx_From tx)) = Inr (tx_Nonce tx + 1))
    \<and> (\<forall>e' envelope. submitSearchTask E e tx request = (e', Inr envelope)
        \<and> hash_identifies (env_Transaction envelope) (map env_Transaction (pool_pending (eng_TaskPool e))) \<longrightarrow>
      pool_pending (eng_TaskPool e') = pool_pending (eng_TaskPool e) @ [envelope]
      \<and> PendingNonce E e (TrimSpace (tx_From tx)) = Inr (tx_Nonce tx)
      \<and> PendingNonce E e' (TrimSpace (tx_From tx)) = Inr (tx_Nonce tx + 1))"
  using accepted_transfer [OF assms(1,2,4)] accepted_task [OF assms(1,3,4)] by blast

text \<open>An engine over a funded account.\<close>

definition toy_chain :: Blockchain where
  "toy_chain = \<lparr>bc_db = empty_store, bc_state = toy_state, bc_latest = zero_Block, bc_latestMeta = zero_BlockMeta,
     bc_network = DefaultNetworkConfig toy_env\<rparr>"

definition toy_engine :: Engine where
  "toy_engine = NewEngine (Some toy_chain) toy_miner ''m''"

lemma toy_engine_simps [simp]:
  "eng_Blockchain toy_engine = Some toy_chain" "eng_TxPool toy_engine = NewTxPool" "eng_TaskPool toy_engine = NewTaskPool"
  "bc_state toy_chain = toy_state" "sender_work toy_engine s = []"
  by (simp_all add: toy_engine_def NewEngine_def toy_chain_def sender_work_def NewTxPool_def NewTaskPool_def
      TxPool_PendingForSender_def TaskPool_PendingForSender_def pool_PendingForSender_def inFlightWorkForSender_def)

lemma toy_tx_normal: "normalizeTransaction E (normalizeTransaction E (toy_tx ty v d)) = normalizeTransaction E (toy_tx ty v d)"
  by (simp add: normalizeTransaction_def Let_def computeTransactionHash_def signing_fields_def)

lemma toy_transfer_normal:
  assumes "0 < v" and "v \<le> 5000"
  shows "\<exists>st a. apply_tx toy_env architect toy_state (normalizeTransaction toy_env (toy_tx TxTypeTransfer v [])) = Inr (st, a)"
proof -
  have "\<not> IsNativeContractAddress toy_env GenesisArchitectAddress"
    by (simp add: IsNative_iff, simp add: GenesisArchitectAddress_def
        SearchPrecompileAddress_def UNSRegistryAddress_def)
  moreover have "fmlookup (Contracts toy_state) k = None" for k
    by (simp add: toy_state_def NewStateSnapshot_def)
  ultimately show ?thesis
    using toy_checked [of TxTypeTransfer v "[]"] assms
    by (simp add: apply_tx_def ApplyTransactionWithArchitect_def Let_def apply_transfer_def toy_tx_normal)
qed

lemma toy_submitted: "\<exists>e' h. submitTransaction toy_env toy_engine (toy_tx TxTypeTransfer 1000 []) = (e', Inr h)"
proof -
  let ?x = "normalizeTransaction toy_env (toy_tx TxTypeTransfer 1000 [])"
  have pend: "pendingStateForSender toy_env toy_engine s = Inr toy_state" for s
    by (subst pendingState_iff [of _ toy_chain]) simp_all
  obtain st a where "apply_tx toy_env (ArchitectAddress toy_chain) toy_state ?x = Inr (st, a)" using toy_transfer_normal by fastforce
  then have "validatePendingTransaction toy_env toy_engine ?x = Inr ()"
    by (simp add: validatePendingTransaction_def pend del: normalizeTransaction_simps)
  moreover have "\<exists>p. TxPool_Add (eng_TxPool toy_engine) ?x = (p, Inr ())"
    by (simp add: TxPool_Add_def pool_Add_def NewTxPool_def add_new_def pool_full_def sender_full_def
        DefaultTxPoolLimit_def DefaultSenderPendingLimit_def)
  ultimately show ?thesis by (auto simp: submitTransaction_def Let_def)
qed

theorem submission_extends_pending_witness:
  "\<exists>e' h. submitTransaction toy_env toy_engine (toy_tx TxTypeTransfer 1000 []) = (e', Inr h)
     \<and> pool_pending (eng_TxPool e') = [normalizeTransaction toy_env (toy_tx TxTypeTransfer 1000 [])]
     \<and> PendingNonce toy_env e' (Address_String toy_env toy_address) = Inr 1"
proof -
  obtain e' h where run: "submitTransaction toy_env toy_engine (toy_tx TxTypeTransfer 1000 []) = (e', Inr h)"
    using toy_submitted by blast
  have room: "unat (fm_get (Nonces (bc_state toy_chain)) 0 s) + length (sender_work toy_engine s) < 2 ^ 64" for s
    by (simp add: toy_state_def NewStateSnapshot_def fm_get_def)
  have "pool_inv (\<lambda>tx. tx) (eng_TxPool toy_engine)" "pool_inv env_Transaction (eng_TaskPool toy_engine)"
    using new_pools_inv by simp_all
  from submission_extends_pending [OF toy_engine_simps(1) this room, where E = toy_env and tx = "toy_tx TxTypeTransfer 1000 []"] run show ?thesis
    by (auto simp: NewTxPool_def hash_identifies_def Address_String_visible)
qed

end
