(* ===== verification/Engine_Rounds.thy ===== *)
theory Engine_Rounds
  imports Engine_Laws
begin

text \<open>
  Rounds of mining: what a round leaves alone, the size of the quarantine, and the rounds that
  cannot produce a block because the block lists all transfers before all search tasks.
\<close>

section \<open>What the outcomes of a round change\<close>

named_theorems engine_frame

lemma quarantine_frame [engine_frame]:
  "eng_Blockchain (recordQuarantinedTask E e t n r b) = eng_Blockchain e" "eng_TxPool (recordQuarantinedTask E e t n r b) = eng_TxPool e"
  "eng_TaskPool (recordQuarantinedTask E e t n r b) = eng_TaskPool e" "eng_Miner (recordQuarantinedTask E e t n r b) = eng_Miner e"
  by (simp_all add: recordQuarantinedTask_def Let_def)

lemma failure_frame [engine_frame]:
  "eng_Blockchain (fst (recordTaskFailure E e h r)) = eng_Blockchain e" "eng_TxPool (fst (recordTaskFailure E e h r)) = eng_TxPool e"
  "eng_TaskPool (fst (recordTaskFailure E e h r)) = eng_TaskPool e" "eng_Miner (fst (recordTaskFailure E e h r)) = eng_Miner e"
  "eng_Blockchain (clearTaskFailure e h) = eng_Blockchain e" "eng_TxPool (clearTaskFailure e h) = eng_TxPool e"
  "eng_TaskPool (clearTaskFailure e h) = eng_TaskPool e" "eng_Miner (clearTaskFailure e h) = eng_Miner e"
  by (simp_all add: recordTaskFailure_def clearTaskFailure_def Let_def)

lemma flight_frame [engine_frame]:
  "eng_Blockchain (setInFlightWork e ts ks) = eng_Blockchain e" "eng_TxPool (setInFlightWork e ts ks) = eng_TxPool e"
  "eng_TaskPool (setInFlightWork e ts ks) = eng_TaskPool e" "eng_Miner (setInFlightWork e ts ks) = eng_Miner e"
  "eng_Blockchain (clearInFlightWork e) = eng_Blockchain e" "eng_TxPool (clearInFlightWork e) = eng_TxPool e"
  "eng_TaskPool (clearInFlightWork e) = eng_TaskPool e" "eng_Miner (clearInFlightWork e) = eng_Miner e"
  by (simp_all add: setInFlightWork_def clearInFlightWork_def)

text \<open>The parts of the engine that the outcomes of a round leave alone.\<close>

definition same_core :: "Engine \<Rightarrow> Engine \<Rightarrow> bool" where
  "same_core e e' \<longleftrightarrow> eng_Blockchain e' = eng_Blockchain e \<and> eng_TxPool e' = eng_TxPool e \<and> eng_TaskPool e' = eng_TaskPool e
     \<and> eng_Miner e' = eng_Miner e"

lemma harvest_one_core: "same_core e (fst (harvest_one E (e, h) out))"
  by (simp add: harvest_one_def harvest_blocked_def harvest_failure_def harvest_success_def same_core_def Let_def split_beta
      engine_frame split: if_split option.split)

lemma same_core_trans: "same_core a b \<Longrightarrow> same_core b c \<Longrightarrow> same_core a c"
  by (simp add: same_core_def)

lemma harvest_core: "same_core (fst s) (fst (fold (\<lambda>out s. harvest_one E s out) outs s))"
proof (induction outs arbitrary: s)
  case (Cons out outs)
  have "same_core (fst s) (fst (harvest_one E s out))" using harvest_one_core [of "fst s" E "snd s"] by simp
  from same_core_trans [OF this Cons.IH] show ?case by simp
qed (simp add: same_core_def)

text \<open>When no pool task fails, nothing is blocked, put back or cut off, and what was mined comes from the pool.\<close>

definition quiet :: "harvest \<Rightarrow> bool" where
  "quiet h \<longleftrightarrow> hv_cutoffs h = fmempty \<and> hv_failed h = []"

definition pool_item :: "SearchTaskEnvelope set \<Rightarrow> miningSearchTask \<Rightarrow> bool" where
  "pool_item T item \<longleftrightarrow> mst_source item = miningTaskSourceMempool \<longrightarrow> mst_envelope item \<in> T"

lemma harvest_quiet_step:
  assumes "quiet h" and "set (hv_mined h) \<subseteq> T" and "pool_item T (out_workItem out)" and "\<not> out_blockedSender out"
    and "out_err out = None \<or> mst_source (out_workItem out) \<noteq> miningTaskSourceMempool"
  shows "quiet (snd (harvest_one E (e, h) out)) \<and> set (hv_mined (snd (harvest_one E (e, h) out))) \<subseteq> T"
  using assms
  by (auto simp: harvest_one_def harvest_failure_def harvest_success_def Let_def split_beta quiet_def pool_item_def
      split: if_splits option.splits)

lemma harvest_quiet:
  assumes "quiet (snd s)" and "set (hv_mined (snd s)) \<subseteq> T"
    and "\<And>out. out \<in> set outs \<Longrightarrow> pool_item T (out_workItem out) \<and> \<not> out_blockedSender out
      \<and> (out_err out = None \<or> mst_source (out_workItem out) \<noteq> miningTaskSourceMempool)"
  shows "quiet (snd (fold (\<lambda>out s. harvest_one E s out) outs s))
    \<and> set (hv_mined (snd (fold (\<lambda>out s. harvest_one E s out) outs s))) \<subseteq> T"
  using assms
proof (induction outs arbitrary: s)
  case (Cons out outs)
  have "quiet (snd (harvest_one E s out)) \<and> set (hv_mined (snd (harvest_one E s out))) \<subseteq> T"
    using harvest_quiet_step [of "snd s" T out E "fst s"] Cons.prems by simp
  with Cons show ?case by simp
qed simp

lemma outcomes_without_failure:
  assumes "\<And>item. item \<in> set items \<Longrightarrow> mst_source item = miningTaskSourceMempool \<Longrightarrow> \<exists>r. mine (env_Task (mst_envelope item)) = Inr r"
    and "out \<in> set (mineSearchTasks mine items)"
  shows "out_workItem out \<in> set items \<and> \<not> out_blockedSender out
    \<and> (out_err out = None \<or> mst_source (out_workItem out) \<noteq> miningTaskSourceMempool)"
proof -
  obtain i where i: "i < length items" "out = sequential_outcome mine items i"
    using assms(2) by (auto simp: mineSearchTasks_sequential)
  have "\<not> fails_in_lane mine k x" if "x \<in> set items" for k x
    using assms(1) [OF that] by (auto simp: fails_in_lane_def task_fails_def)
  then have "find (fails_in_lane mine k) (take i items) = None" for k
    by (auto simp: find_None_iff dest: in_set_takeD)
  then have "out = crawl_outcome mine (items ! i)" using i(2) by (simp add: sequential_outcome_def)
  then show ?thesis
    using assms(1) [OF nth_mem [OF i(1)]] nth_mem [OF i(1)] by (auto simp: crawl_outcome_def split: sum.splits)
qed

lemma quiet_round:
  assumes "\<And>item. item \<in> set items \<Longrightarrow> pool_item T item" and "\<And>t. t \<in> T \<Longrightarrow> \<exists>r. mine (env_Task t) = Inr r"
  obtains e' h where "fold (\<lambda>out s. harvest_one E s out) (mineSearchTasks mine items) (e, empty_harvest) = (e', h)"
    and "same_core e e'" and "quiet h" and "set (hv_mined h) \<subseteq> T"
proof -
  let ?outs = "mineSearchTasks mine items"
  obtain e' h where F: "fold (\<lambda>out s. harvest_one E s out) ?outs (e, empty_harvest) = (e', h)" by (metis surj_pair)
  have crawled: "\<exists>r. mine (env_Task (mst_envelope item)) = Inr r" if "item \<in> set items" "mst_source item = miningTaskSourceMempool" for item
    using assms(1) [OF that(1)] assms(2) that(2) by (auto simp: pool_item_def)
  have "pool_item T (out_workItem out) \<and> \<not> out_blockedSender out
      \<and> (out_err out = None \<or> mst_source (out_workItem out) \<noteq> miningTaskSourceMempool)" if "out \<in> set ?outs" for out
    using outcomes_without_failure [where mine = mine and items = items, OF crawled that] assms(1) by blast
  from harvest_quiet [of "(e, empty_harvest)" T ?outs E, OF _ _ this] F
  have "quiet h" "set (hv_mined h) \<subseteq> T" by (simp_all add: quiet_def empty_harvest_def)
  moreover have "same_core e e'" using harvest_core [of "(e, empty_harvest)" E ?outs] F by simp
  ultimately show ?thesis using that F by blast
qed

section \<open>Rounds that cannot mine\<close>

text \<open>A transfer waits for a nonce that no pending transfer of its sender brings.\<close>

definition waits_for_nonce :: "StateSnapshot \<Rightarrow> Transaction list \<Rightarrow> Transaction \<Rightarrow> bool" where
  "waits_for_nonce st transfers x \<longleftrightarrow> x \<in> set transfers \<and>
     (\<forall>y \<in> set transfers. TrimSpace (tx_From y) = TrimSpace (tx_From x) \<longrightarrow> tx_Nonce y \<noteq> nonce_of st (TrimSpace (tx_From x)))"

lemma waiting_run_fails:
  "waits_for_nonce st xs x \<Longrightarrow> \<exists>er. run_steps (apply_tx E architect) st xs = Inl er"
proof (induction xs arbitrary: st)
  case (Cons y xs)
  let ?s = "TrimSpace (tx_From x)"
  show ?case
  proof (cases "apply_tx E architect st y")
    case (Inr p)
    obtain st' a where step: "apply_tx E architect st y = Inr (st', a)" using Inr by (cases p) simp
    then have nonce: "tx_Nonce y = nonce_of st (TrimSpace (tx_From y))" "Nonces st' = fmupd (TrimSpace (tx_From y)) (tx_Nonce y + 1) (Nonces st)"
      by (auto elim!: apply_tx_books)
    then have other: "TrimSpace (tx_From y) \<noteq> ?s" using Cons.prems by (auto simp: waits_for_nonce_def)
    then have "nonce_of st' ?s = nonce_of st ?s" using nonce(2) by (simp add: fm_get_def)
    then have "waits_for_nonce st' xs x" using Cons.prems other by (auto simp: waits_for_nonce_def)
    from Cons.IH [OF this] step show ?thesis by auto
  qed simp
qed (simp add: waits_for_nonce_def)

lemma waiting_block_fails:
  assumes "waits_for_nonce (bc_state bc) xs x"
  shows "\<exists>er. MineBlock E bc miner (xs @ ys) proofs = Some (Inl er)"
proof -
  obtain er where "run_steps (apply_tx E (net_ArchitectAddress (bc_network bc))) (bc_state bc) xs = Inl er"
    using waiting_run_fails [OF assms] by blast
  then show ?thesis by (simp add: MineBlock_def prepareBlock_def Let_def run_steps_append)
qed

lemma finish_round_fails:
  assumes "quiet h" and "waits_for_nonce (bc_state bc) transactions x"
  shows "\<exists>er e'. finish_round E e bc transactions h = Some (e', Inl er) \<and> eng_Blockchain e' = eng_Blockchain e \<and> eng_Miner e' = eng_Miner e
    \<and> eng_TxPool e' = TxPool_Requeue (eng_TxPool e) transactions \<and> eng_TaskPool e' = TaskPool_Requeue (eng_TaskPool e) (hv_mined h)"
proof -
  have "transactions \<noteq> []" using assms(2) by (auto simp: waits_for_nonce_def)
  moreover obtain er where
    "MineBlock E bc (eng_MinerAddress (setInFlightWork e transactions (hv_mined h))) (transactions @ hv_taskTransactions h) (hv_proofs h) = Some (Inl er)"
    using waiting_block_fails [OF assms(2)] by blast
  ultimately show ?thesis using assms(1) by (simp add: finish_round_def mine_harvest_def purge_cutoffs_def requeue_failed_def kept_transactions_def quiet_def Let_def engine_frame)
qed

text \<open>The work items of a round: pool items come from the pool, and what is not owned goes back to it.\<close>

lemma partition_round_spec:
  assumes "partition_round E e tasks (frontierMiningTasks E e' n) = (e2, items, owned)" and "set tasks \<subseteq> T"
    and "set (pool_pending (eng_TaskPool e)) \<subseteq> T" and "pool_inv env_Transaction (eng_TaskPool e)"
  shows "eng_Blockchain e2 = eng_Blockchain e \<and> eng_TxPool e2 = eng_TxPool e \<and> eng_Miner e2 = eng_Miner e
    \<and> set (pool_pending (eng_TaskPool e2)) \<subseteq> T \<and> pool_inv env_Transaction (eng_TaskPool e2)
    \<and> (\<forall>item \<in> set items. pool_item T item)"
proof -
  let ?items = "wrapMempoolSearchTasks tasks @ frontierMiningTasks E e' n"
  have frontier: "mst_source item = miningTaskSourceFrontier" if "item \<in> set (frontier_loop E q k rs)" for item q k rs
    using that by (induction E q k rs rule: frontier_loop.induct) (auto split: if_splits sum.splits)
  have all: "pool_item T item" if "item \<in> set ?items" for item
    using that assms(2) frontier
    by (auto simp: pool_item_def wrapMempoolSearchTasks_def frontierMiningTasks_def split: option.splits if_splits)
  show ?thesis
  proof (cases "eng_Partitioner e")
    case None
    then show ?thesis using assms all by (auto simp: partition_round_def Let_def)
  next
    case (Some p)
    obtain p' own skip status where F: "FilterWorkItems E (Some p) ?items = (p', own, skip, status)" by (metis prod_cases4)
    then have sub: "set own \<subseteq> set ?items" "set skip \<subseteq> set ?items" by (auto simp: FilterWorkItems_def Let_def split: if_splits)
    let ?ret = "map mst_envelope (filter (\<lambda>i. mst_source i = miningTaskSourceMempool) skip)"
    define pool where "pool = (if ?ret = [] then eng_TaskPool e else TaskPool_Requeue (eng_TaskPool e) ?ret)"
    have "set ?ret \<subseteq> T" using sub(2) all by (auto simp: pool_item_def)
    then have "set (pool_pending pool) \<subseteq> T" "pool_inv env_Transaction pool"
      using task_pool.requeue_mem [of "eng_TaskPool e" ?ret] task_pool.requeue_inv assms(3,4) unfolding pool_def by (simp_all, blast)
    moreover have "e2 = e\<lparr>eng_Partitioner := p', eng_TaskPool := pool, eng_lastMiningStatus := status\<lparr>ms_MinerAddress := eng_MinerAddress e\<rparr>\<rparr>"
      "items = own" using assms(1) by (simp_all add: partition_round_def Let_def Some F pool_def)
    ultimately show ?thesis using all sub(1) by auto
  qed
qed

text \<open>The state in which the rounds stall: all transfers fit into one round and one of them waits for a nonce.\<close>

definition stalled :: "env \<Rightarrow> Blockchain \<Rightarrow> Engine \<Rightarrow> bool" where
  "stalled E bc e \<longleftrightarrow> eng_Blockchain e = Some bc
     \<and> pool_inv (\<lambda>tx. tx) (eng_TxPool e) \<and> pool_inv env_Transaction (eng_TaskPool e)
     \<and> length (pool_pending (eng_TxPool e)) \<le> 256
     \<and> (\<exists>x. waits_for_nonce (bc_state bc) (pool_pending (eng_TxPool e)) x)
     \<and> (\<forall>t \<in> set (pool_pending (eng_TaskPool e)). (\<exists>v. ValueBig (env_Transaction t) = Inr v)
          \<and> (\<exists>r. Mine E (eng_Miner e) (env_Task t) = Inr r))"

lemma waits_mset: "mset xs = mset ys \<Longrightarrow> waits_for_nonce st xs x = waits_for_nonce st ys x"
  using mset_eq_setD [of xs ys] by (simp add: waits_for_nonce_def)

lemma stalled_round:
  assumes st: "stalled E bc e"
  obtains e' er where "MineOnce E e = Some (e', Inl er)" "stalled E bc e'" "mset (pool_pending (eng_TxPool e')) = mset (pool_pending (eng_TxPool e))"
proof -
  let ?xs = "pool_pending (eng_TxPool e)" and ?T = "set (pool_pending (eng_TaskPool e))"
  let ?b = "if eng_MempoolTaskBatch e \<le> 0 then DefaultMempoolTaskBatch else eng_MempoolTaskBatch e"
  let ?f = "if eng_FrontierTaskBatch e \<le> 0 then DefaultFrontierTaskBatch else eng_FrontierTaskBatch e"
  note st' = st [unfolded stalled_def]
  obtain x where x: "waits_for_nonce (bc_state bc) ?xs x" using st' by blast
  define Q where "Q = fst (TxPool_Drain (eng_TxPool e) 256)"
  have drain: "TxPool_Drain (eng_TxPool e) 256 = (Q, ?xs)" and Q: "pool_pending Q = []" "pool_limit Q = pool_limit (eng_TxPool e)"
    "pool_senderLimit Q = pool_senderLimit (eng_TxPool e)"
    using st' by (auto simp: Q_def TxPool_Drain_def pool_Drain_def Let_def effective_limit_def)
  have invQ: "pool_inv (\<lambda>tx. tx) Q" using pool_Drain_inv [of _ "eng_TxPool e" 256] st' by (simp add: Q_def TxPool_Drain_def)
  have "priced env_Transaction (pool_pending (eng_TaskPool e))" using st' by (intro pricedI_ValueBig) blast
  then obtain tasks K where K: "TaskPool_DrainHighestValue (eng_TaskPool e) ?b = (K, Inr tasks)"
    "mset (pool_pending (eng_TaskPool e)) = mset tasks + mset (pool_pending K)"
    using drain_highest_ex [of env_Transaction "eng_TaskPool e" ?b] st' unfolding TaskPool_DrainHighestValue_def by blast
  have KT: "set tasks \<subseteq> ?T" "set (pool_pending K) \<subseteq> ?T" using arg_cong [OF K(2), of set_mset] by simp_all
  have invK: "pool_inv env_Transaction K" using task_pool.drain_inv [of "eng_TaskPool e" ?b] st' K(1) by simp
  define e1 where "e1 = e\<lparr>eng_TxPool := Q, eng_TaskPool := K\<rparr>"
  obtain e2 items owned where P: "partition_round E e1 tasks (frontierMiningTasks E e1 ?f) = (e2, items, owned)" by (metis prod_cases3)
  have e2: "eng_Blockchain e2 = Some bc" "eng_TxPool e2 = Q" "eng_Miner e2 = eng_Miner e" "set (pool_pending (eng_TaskPool e2)) \<subseteq> ?T"
    "pool_inv env_Transaction (eng_TaskPool e2)" and items: "\<And>item. item \<in> set items \<Longrightarrow> pool_item ?T item"
    using partition_round_spec [OF P KT(1)] KT(2) invK st' by (auto simp: e1_def)
  define e3 where "e3 = setInFlightWork e2 ?xs owned"
  have e3: "eng_Miner e3 = eng_Miner e" "eng_TxPool e3 = Q" "eng_TaskPool e3 = eng_TaskPool e2" "eng_Blockchain e3 = Some bc"
    using e2 by (simp_all add: e3_def engine_frame)
  have "\<exists>r. Mine E (eng_Miner e3) (env_Task t) = Inr r" if "t \<in> ?T" for t using st' that by (simp add: e3)
  then obtain e4 h where F: "fold (\<lambda>out s. harvest_one E s out) (mineSearchTasks (Mine E (eng_Miner e3)) items) (e3, empty_harvest) = (e4, h)"
    and core: "same_core e3 e4" and h: "quiet h" "set (hv_mined h) \<subseteq> ?T"
    using quiet_round [where T = ?T] items by blast
  obtain er e' where fin: "finish_round E e4 bc ?xs h = Some (e', Inl er)" "eng_Blockchain e' = eng_Blockchain e4" "eng_Miner e' = eng_Miner e4"
    "eng_TxPool e' = TxPool_Requeue (eng_TxPool e4) ?xs" "eng_TaskPool e' = TaskPool_Requeue (eng_TaskPool e4) (hv_mined h)"
    using finish_round_fails [OF h(1) x] by blast
  have pools: "eng_TxPool e' = TxPool_Requeue Q ?xs" "eng_TaskPool e' = TaskPool_Requeue (eng_TaskPool e2) (hv_mined h)"
    "eng_Blockchain e' = Some bc" "eng_Miner e' = eng_Miner e" using fin(2-5) core e3 by (simp_all add: same_core_def)
  have restored: "mset (pool_pending (eng_TxPool e')) = mset ?xs"
    unfolding pools TxPool_Requeue_def using st' Q by (intro requeue_restores [OF _ invQ]) simp_all
  have "set (pool_pending (eng_TaskPool e')) \<subseteq> ?T"
    unfolding pools using task_pool.requeue_mem [of "eng_TaskPool e2" "hv_mined h"] h(2) e2(4) by blast
  then have "stalled E bc e'"
    using st' x restored mset_eq_length [OF restored] waits_mset [OF restored] tx_pool.requeue_inv [OF invQ] task_pool.requeue_inv [OF e2(5)]
    unfolding stalled_def by (auto simp: pools)
  moreover have "MineOnce E e = Some (e', Inl er)"
  proof -
    have "?xs \<noteq> []" using x by (auto simp: waits_for_nonce_def)
    then show ?thesis
      using st' fin(1) by (simp add: MineOnce_def drain K(1) Let_def e1_def [symmetric] P e3_def [symmetric] F)
  qed
  ultimately show ?thesis using that restored by blast
qed

text \<open>Rounds one after the other.\<close>

fun mine_rounds :: "env \<Rightarrow> nat \<Rightarrow> Engine \<Rightarrow> Engine option" where
  "mine_rounds E 0 e = Some e"
| "mine_rounds E (Suc n) e = (case MineOnce E e of None \<Rightarrow> None | Some (e', _) \<Rightarrow> mine_rounds E n e')"


definition stalled_task :: SearchTaskEnvelope where
  "stalled_task = (toy_item ''a'' 3)\<lparr>env_Transaction := toy_tx TxTypeSearchTask 100 [], env_Task := toy_crawl_task\<rparr>"

definition stalled_engine :: Engine where
  "stalled_engine = toy_engine\<lparr>eng_TxPool := fst (TxPool_Add NewTxPool ((toy_tx TxTypeTransfer 5 [])\<lparr>tx_Nonce := 1\<rparr>)),
     eng_TaskPool := fst (TaskPool_Add NewTaskPool stalled_task)\<rparr>"

lemma stalled_pools:
  "pool_pending (eng_TxPool stalled_engine) = [(toy_tx TxTypeTransfer 5 [])\<lparr>tx_Nonce := 1\<rparr>]"
  "pool_pending (eng_TaskPool stalled_engine) = [stalled_task]"
  by (simp_all add: stalled_engine_def TxPool_Add_def TaskPool_Add_def pool_Add_def NewTxPool_def NewTaskPool_def add_new_def
      pool_full_def sender_full_def append_item_def DefaultTxPoolLimit_def DefaultTaskPoolLimit_def DefaultSenderPendingLimit_def)


section \<open>Invariant of the engine\<close>

text \<open>
  Both pools are in good order, the quarantine is bounded, and a failure count that is remembered is below the limit
  of attempts: a task is crawled again at most twice after a failure.
\<close>

definition work_ok :: "Engine \<Rightarrow> bool" where
  "work_ok e \<longleftrightarrow> pool_inv (\<lambda>tx. tx) (eng_TxPool e) \<and> pool_inv env_Transaction (eng_TaskPool e)
     \<and> length (eng_quarantinedTasks e) \<le> DefaultQuarantineLimit
     \<and> (\<forall>h f. fmlookup (eng_taskFailures e) h = Some f \<longrightarrow> 1 \<le> fail_Count f \<and> fail_Count f < DefaultTaskFailureLimit)"

lemma work_ok_quarantine: "work_ok e \<Longrightarrow> work_ok (recordQuarantinedTask E e t n r b)"
  by (auto simp: work_ok_def recordQuarantinedTask_def Let_def)

lemma work_ok_clear: "work_ok e \<Longrightarrow> work_ok (clearTaskFailure e h)"
  by (auto simp: work_ok_def clearTaskFailure_def split: if_splits)

lemma work_ok_flight [simp]: "work_ok (setInFlightWork e ts ks) = work_ok e" "work_ok (clearInFlightWork e) = work_ok e"
  by (simp_all add: work_ok_def setInFlightWork_def clearInFlightWork_def)

lemma work_ok_upd:
  assumes "work_ok e" and "pool_inv (\<lambda>tx. tx) p" and "pool_inv env_Transaction k"
  shows "work_ok (e\<lparr>eng_TxPool := p\<rparr>)" "work_ok (e\<lparr>eng_TaskPool := k\<rparr>)" "work_ok (e\<lparr>eng_TxPool := p, eng_TaskPool := k\<rparr>)"
  using assms by (simp_all add: work_ok_def)

lemma work_ok_pools: "work_ok e \<Longrightarrow> pool_inv (\<lambda>tx. tx) (eng_TxPool e)" "work_ok e \<Longrightarrow> pool_inv env_Transaction (eng_TaskPool e)"
  by (simp_all add: work_ok_def)

lemma work_ok_failure:
  assumes "work_ok e" and "recordTaskFailure E e h r = (e1, failure)"
  shows "fail_Count failure < DefaultTaskFailureLimit \<Longrightarrow> work_ok e1"
    and "work_ok (clearTaskFailure (recordQuarantinedTask E e1 t n r' b) h)"
proof -
  have e1: "e1 = e\<lparr>eng_taskFailures := fmupd h failure (eng_taskFailures e)\<rparr>" "1 \<le> fail_Count failure"
    using assms by (fastforce simp: recordTaskFailure_def Let_def work_ok_def split: option.splits)+
  then show "fail_Count failure < DefaultTaskFailureLimit \<Longrightarrow> work_ok e1" using assms(1) by (simp add: work_ok_def)
  show "work_ok (clearTaskFailure (recordQuarantinedTask E e1 t n r' b) h)"
    using assms(1) by (auto simp: e1(1) work_ok_def recordQuarantinedTask_def clearTaskFailure_def Let_def split: if_splits)
qed

lemma work_ok_harvest_one: "work_ok e \<Longrightarrow> work_ok (fst (harvest_one E (e, h) out))"
proof -
  assume ok: "work_ok e"
  have "work_ok (fst (harvest_failure E e h item er))" for item er
  proof -
    obtain t r where c: "classifySearchTaskFailure E (Some er) = (t, r)" by fastforce
    obtain e1 f where f: "recordTaskFailure E e (tx_Hash (env_Transaction (mst_envelope item))) r = (e1, f)" by fastforce
    show ?thesis
      using work_ok_failure [OF ok f] by (simp add: harvest_failure_def Let_def c f split: if_split option.split)
  qed
  then show ?thesis
    using ok by (simp add: harvest_one_def harvest_blocked_def harvest_success_def Let_def work_ok_quarantine work_ok_clear
        split: option.split if_split)
qed

lemma work_ok_harvest: "work_ok (fst s) \<Longrightarrow> work_ok (fst (fold (\<lambda>out s. harvest_one E s out) outs s))"
proof (induction outs arbitrary: s)
  case (Cons out outs)
  then show ?case using work_ok_harvest_one [of "fst s" E "snd s"] by simp
qed simp

lemma work_ok_purge: "work_ok e \<Longrightarrow> work_ok (purge_sender E h entry e)"
proof -
  assume ok: "work_ok e"
  obtain sender cutoff where entry: "entry = (sender, cutoff)" by (cases entry)
  obtain tasks gone where T: "TaskPool_RemoveSenderFromNonce (eng_TaskPool e) sender cutoff = (tasks, gone)" by fastforce
  let ?q = "\<lambda>t e. recordQuarantinedTask E e t (fm_get (hv_counts h) 0 sender) (blocked_reason cutoff (fm_get (hv_reasons h) [] sender)) True"
  define e1 where "e1 = fold ?q gone (e\<lparr>eng_TaskPool := tasks\<rparr>)"
  have "pool_inv env_Transaction tasks" using task_pool.evict_inv [OF work_ok_pools(2) [OF ok], of sender cutoff] T by simp
  then have "work_ok (e\<lparr>eng_TaskPool := tasks\<rparr>)" using ok by (simp add: work_ok_def)
  moreover have "work_ok a \<Longrightarrow> work_ok (fold ?q gone a)" for a
    by (induction gone arbitrary: a) (simp_all add: work_ok_quarantine)
  ultimately have e1: "work_ok e1" by (simp add: e1_def)
  have "purge_sender E h entry e = e1\<lparr>eng_TxPool := fst (TxPool_RemoveSenderFromNonce (eng_TxPool e1) sender cutoff)\<rparr>"
    by (simp add: purge_sender_def entry T e1_def split_beta Let_def)
  then show ?thesis
    using e1 tx_pool.evict_inv [OF work_ok_pools(1) [OF e1], of sender cutoff] by (simp add: work_ok_def)
qed

lemma work_ok_partition:
  "work_ok e \<Longrightarrow> work_ok (fst (partition_round E e tasks frontier))"
  by (auto simp: partition_round_def Let_def work_ok_def task_pool.requeue_inv split: option.split prod.split)

definition idle :: "Engine \<Rightarrow> bool" where
  "idle e \<longleftrightarrow> eng_inFlightTransfers e = [] \<and> eng_inFlightTasks e = []"

lemma idle_clear [simp]: "idle (clearInFlightWork e)"
  by (simp add: idle_def clearInFlightWork_def)

lemma purge_ok: "eng_Blockchain (purge_cutoffs E h e) = eng_Blockchain e" "work_ok e \<Longrightarrow> work_ok (purge_cutoffs E h e)"
proof -
  have rec: "eng_Blockchain (fold (\<lambda>t e. recordQuarantinedTask E e t n r True) ks a) = eng_Blockchain a" for n r ks a
    by (induction ks arbitrary: a) (simp_all add: engine_frame)
  have one: "eng_Blockchain (purge_sender E h x a) = eng_Blockchain a" for x a
    by (simp add: purge_sender_def Let_def split_beta rec)
  have "eng_Blockchain (fold (purge_sender E h) es a) = eng_Blockchain a" for es a
    by (induction es arbitrary: a) (simp_all add: one)
  then show "eng_Blockchain (purge_cutoffs E h e) = eng_Blockchain e" by (simp add: purge_cutoffs_def)
  have "work_ok a \<Longrightarrow> work_ok (fold (purge_sender E h) es a)" for es a
    by (induction es arbitrary: a) (simp_all add: work_ok_purge)
  then show "work_ok e \<Longrightarrow> work_ok (purge_cutoffs E h e)" by (simp add: purge_cutoffs_def)
qed

lemma requeue_failed_ok: "eng_Blockchain (requeue_failed h e) = eng_Blockchain e" "work_ok e \<Longrightarrow> work_ok (requeue_failed h e)"
  using task_pool.requeue_inv by (auto simp: requeue_failed_def work_ok_def)

text \<open>A round leaves the chain alone or returns the block by which it extends it.\<close>

definition chain_moves :: "env \<Rightarrow> Blockchain \<Rightarrow> Engine \<Rightarrow> Block res \<Rightarrow> bool" where
  "chain_moves E bc e' r \<longleftrightarrow> eng_Blockchain e' = Some bc
     \<or> (\<exists>miner txs proofs bc' b. MineBlock E bc miner txs proofs = Some (Inr (bc', b)) \<and> eng_Blockchain e' = Some bc' \<and> r = Inr b)"

lemma mine_harvest_ok:
  assumes "work_ok e" and "eng_Blockchain e = Some bc" and "mine_harvest E e bc txs h = Some (e', r)"
  shows "work_ok e' \<and> idle e' \<and> chain_moves E bc e' r"
proof -
  let ?e1 = "setInFlightWork e txs (hv_mined h)"
  have requeued: "work_ok (?e1\<lparr>eng_TxPool := TxPool_Requeue (eng_TxPool ?e1) txs, eng_TaskPool := TaskPool_Requeue (eng_TaskPool ?e1) ks\<rparr>)" for ks
    using assms(1) tx_pool.requeue_inv task_pool.requeue_inv by (auto simp: work_ok_def setInFlightWork_def)
  have moved: "work_ok (?e1\<lparr>eng_Blockchain := b\<rparr>)" for b using assms(1) by (simp add: work_ok_def setInFlightWork_def)
  show ?thesis
    using assms requeued moved
    by (auto simp: mine_harvest_def Let_def chain_moves_def engine_frame split: if_splits option.splits sum.splits prod.splits)
qed

lemma MineOnce_ok:
  assumes "work_ok e" and "idle e" and "eng_Blockchain e = Some bc" and "MineOnce E e = Some (e', r)"
  shows "work_ok e' \<and> idle e' \<and> chain_moves E bc e' r"
proof -
  let ?b = "if eng_MempoolTaskBatch e \<le> 0 then DefaultMempoolTaskBatch else eng_MempoolTaskBatch e"
  let ?f = "if eng_FrontierTaskBatch e \<le> 0 then DefaultFrontierTaskBatch else eng_FrontierTaskBatch e"
  obtain Q txs where Q: "TxPool_Drain (eng_TxPool e) 256 = (Q, txs)" by fastforce
  obtain K ts where K: "TaskPool_DrainHighestValue (eng_TaskPool e) ?b = (K, ts)" by fastforce
  define e1 where "e1 = e\<lparr>eng_TxPool := Q, eng_TaskPool := K\<rparr>"
  have "pool_inv (\<lambda>tx. tx) Q" using pool_Drain_inv [of "\<lambda>tx. tx" "eng_TxPool e" 256] Q assms(1) by (simp add: TxPool_Drain_def work_ok_def)
  moreover have "pool_inv env_Transaction K" using task_pool.drain_inv [of "eng_TaskPool e" ?b] K assms(1) by (simp add: work_ok_def)
  ultimately have e1: "work_ok e1" "idle e1" "eng_Blockchain e1 = Some bc" using assms by (simp_all add: e1_def work_ok_def idle_def)
  show ?thesis
  proof (cases ts)
    case (Inl er)
    then show ?thesis using assms(3,4) e1 by (auto simp: MineOnce_def Q K e1_def [symmetric] Let_def chain_moves_def)
  next
    case (Inr tasks)
    obtain e2 items owned where P: "partition_round E e1 tasks (frontierMiningTasks E e1 ?f) = (e2, items, owned)" by (metis prod_cases3)
    have e2: "work_ok e2" "idle e2" "eng_Blockchain e2 = Some bc"
      using work_ok_partition [OF e1(1), of E tasks "frontierMiningTasks E e1 ?f"] P e1(2,3)
      by (auto simp: partition_round_def Let_def idle_def split: option.splits prod.splits)
    define e3 where "e3 = setInFlightWork e2 txs owned"
    obtain e4 h where F: "fold (\<lambda>out s. harvest_one E s out) (mineSearchTasks (Mine E (eng_Miner e3)) items) (e3, empty_harvest) = (e4, h)"
      by (metis surj_pair)
    have "work_ok e3" "eng_Blockchain e3 = Some bc" using e2 by (simp_all add: e3_def engine_frame)
    then have e4: "work_ok e4" "eng_Blockchain e4 = Some bc"
      using work_ok_harvest [of "(e3, empty_harvest)" E "mineSearchTasks (Mine E (eng_Miner e3)) items"]
        harvest_core [of "(e3, empty_harvest)" E "mineSearchTasks (Mine E (eng_Miner e3)) items"] F by (simp_all add: same_core_def)
    have "MineOnce E e = (if txs = [] \<and> items = [] then Some (e2, Inr zero_Block) else finish_round E e4 bc txs h)"
      using assms(3) by (simp add: MineOnce_def Q K Inr Let_def e1_def [symmetric] P e3_def [symmetric] F)
    with assms(4) mine_harvest_ok [OF _ _ , of "requeue_failed h (purge_cutoffs E h e4)" bc E] e2 e4 show ?thesis
      by (auto simp: finish_round_def purge_ok requeue_failed_ok chain_moves_def split: if_splits)
  qed
qed

text \<open>The operations of the engine, and the imports that replace its chain from outside.\<close>

inductive engine_step :: "env \<Rightarrow> Engine \<Rightarrow> Engine \<Rightarrow> bool" for E where
  transfer: "submitTransaction E e tx = (e', r) \<Longrightarrow> engine_step E e e'"
| task: "submitSearchTask E e tx request = (e', res) \<Longrightarrow> engine_step E e e'"
| tick: "tryMine E e = Some (e', b) \<Longrightarrow> engine_step E e e'"
| received: "eng_Blockchain e = Some bc \<Longrightarrow> engine_step E e (e\<lparr>eng_Blockchain := Some bc'\<rparr>)"

definition engine_ok :: "Engine \<Rightarrow> bool" where
  "engine_ok e \<longleftrightarrow> work_ok e \<and> idle e \<and> \<not> eng_inFlight e \<and> eng_Blockchain e \<noteq> None"

lemma engine_step_ok: "engine_step E e e' \<Longrightarrow> engine_ok e \<Longrightarrow> engine_ok e'"
proof (induction rule: engine_step.induct)
  case (transfer e tx e' r)
  obtain p where "e' = e\<lparr>eng_TxPool := p\<rparr>" "p = eng_TxPool e \<or> p = fst (TxPool_Add (eng_TxPool e) (normalizeTransaction E tx))"
    using transfer(1) by (cases e) (auto simp: submitTransaction_def Let_def split: if_splits sum.splits prod.splits)
  then show ?case using transfer(2) tx_pool.add_inv by (auto simp: engine_ok_def work_ok_def idle_def)
next
  case (task e tx request e' res)
  consider "e' = e" | t where "e' = e\<lparr>eng_TaskPool := fst (TaskPool_Add (eng_TaskPool e) t)\<rparr>"
  proof -
    let ?t = "projr (BuildSearchTaskEnvelope E tx request (miner_PriorityRegistry (eng_Miner e)))"
    obtain p s where add: "TaskPool_Add (eng_TaskPool e) ?t = (p, s)" by fastforce
    have "e' = e \<or> e' = e\<lparr>eng_TaskPool := p\<rparr>"
      using task(1) add by (auto simp: submitSearchTask_def split: if_splits sum.splits prod.splits)
    then show ?thesis using add that(1) that(2) [of ?t] by auto
  qed
  then show ?case using task(2) task_pool.add_inv by cases (auto simp: engine_ok_def work_ok_def idle_def)
next
  case (tick e e' b)
  let ?e = "e\<lparr>eng_inFlight := True\<rparr>"
  obtain bc where bc: "eng_Blockchain e = Some bc" and ok: "work_ok ?e" "idle ?e" "\<not> eng_inFlight e"
    using tick(2) by (auto simp: engine_ok_def work_ok_def idle_def)
  obtain e1 r where run: "MineOnce E ?e = Some (e1, r)" "e' = e1\<lparr>eng_inFlight := False\<rparr>"
    using tick(1) ok(3) by (auto simp: tryMine_def split: option.splits sum.splits)
  have "work_ok e1 \<and> idle e1 \<and> chain_moves E bc e1 r" using MineOnce_ok [OF ok(1,2) _ run(1)] bc by simp
  then show ?case by (auto simp: run(2) engine_ok_def work_ok_def idle_def chain_moves_def)
next
  case (received e bc bc')
  then show ?case by (auto simp: engine_ok_def work_ok_def idle_def)
qed

text \<open>
  C18: In every state an engine reaches by submissions, mining ticks and imported chains, both pools are in good order,
  at most 256 tasks are quarantined, every remembered failure count is at least one and below three, no round is
  marked as running and nothing is left in flight.
\<close>

theorem engine_run_sound:
  assumes "(engine_step E)\<^sup>*\<^sup>* (NewEngine (Some bc) m address) e"
  shows "pool_inv (\<lambda>tx. tx) (eng_TxPool e) \<and> pool_inv env_Transaction (eng_TaskPool e)
    \<and> length (eng_quarantinedTasks e) \<le> DefaultQuarantineLimit
    \<and> (\<forall>h f. fmlookup (eng_taskFailures e) h = Some f \<longrightarrow> 1 \<le> fail_Count f \<and> fail_Count f < DefaultTaskFailureLimit)
    \<and> \<not> eng_inFlight e \<and> eng_inFlightTransfers e = [] \<and> eng_inFlightTasks e = []"
proof -
  have "engine_ok (NewEngine (Some bc) m address)"
    using new_pools_inv by (simp add: engine_ok_def work_ok_def idle_def NewEngine_def)
  with assms have "engine_ok e" by (induction rule: rtranclp_induct) (simp_all add: engine_step_ok)
  then show ?thesis by (simp add: engine_ok_def work_ok_def idle_def)
qed

theorem engine_run_sound_witness:
  "\<exists>e' h. submitTransaction toy_env toy_engine (toy_tx TxTypeTransfer 1000 []) = (e', Inr h)
     \<and> pool_inv (\<lambda>tx. tx) (eng_TxPool e') \<and> eng_inFlightTransfers e' = []"
proof -
  obtain e' h where run: "submitTransaction toy_env toy_engine (toy_tx TxTypeTransfer 1000 []) = (e', Inr h)"
    using toy_submitted by blast
  then have "(engine_step toy_env)\<^sup>*\<^sup>* (NewEngine (Some toy_chain) toy_miner ''m'') e'"
    unfolding toy_engine_def by (intro r_into_rtranclp engine_step.transfer)
  from engine_run_sound [OF this] run show ?thesis by blast
qed

end
