(* ===== verification/Reputation.thy ===== *)
theory Reputation
  imports Engine
begin

text \<open>
  Peers that misbehave: the reputation book of \<open>src/core/peer_reputation.go\<close> and the window limiter of
  \<open>src/core/p2p.go\<close>. Both run under their own mutex, one operation at a time. A peer is the text
  form of its identifier (libp2p's \<open>String\<close>, which is injective and empty only for the empty one). \<open>int\<close> is 64 bits wide and wraps around; a duration is saturated the way \<open>Sub\<close> does it.
\<close>

section \<open>Machine integers and durations\<close>

definition int64 :: "int \<Rightarrow> int" where
  "int64 n = (n + 2 ^ 63) mod 2 ^ 64 - 2 ^ 63"

definition time_Sub :: "time \<Rightarrow> time \<Rightarrow> int" where
  "time_Sub a b = max (- (2 ^ 63)) (min (2 ^ 63 - 1) (a - b))"

lemma int64_id: "- (2 ^ 63) \<le> n \<Longrightarrow> n < 2 ^ 63 \<Longrightarrow> int64 n = n"
  by (simp add: int64_def)

lemma int64_range: "- (2 ^ 63) \<le> int64 n \<and> int64 n < 2 ^ 63"
  using pos_mod_bound [of "2 ^ 64" "n + 2 ^ 63"] by (simp add: int64_def)

lemma time_Sub_ge: "w \<le> 2 ^ 63 - 1 \<Longrightarrow> - (2 ^ 63) < w \<Longrightarrow> w \<le> time_Sub a b \<longleftrightarrow> w \<le> a - b"
  by (auto simp: time_Sub_def)

section \<open>The reputation book\<close>

definition Minute :: int where "Minute = 60 * Second"
definition DefaultPeerScore :: int where "DefaultPeerScore = 100"
definition MinPeerScore :: int where "MinPeerScore = 0"
definition MaxPeerScore :: int where "MaxPeerScore = 100"
definition LowPeerScoreThreshold :: int where "LowPeerScoreThreshold = 50"
definition BannedPeerScoreThreshold :: int where "BannedPeerScoreThreshold = 20"
definition DefaultPeerBanDuration :: int where "DefaultPeerBanDuration = 15 * Minute"
definition DefaultPeerRecoveryWindow :: int where "DefaultPeerRecoveryWindow = 5 * Minute"
definition DefaultPeerRecoveryStep :: int where "DefaultPeerRecoveryStep = 5"

record PeerReputationStatus =
  rs_PeerID :: string
  rs_Score :: int
  rs_Connected :: bool
  rs_Banned :: bool
  rs_BannedUntil :: time
  rs_Successes :: u64
  rs_Penalties :: u64
  rs_LastReason :: string
  rs_LastUpdated :: time

record PeerReputationSummary =
  sum_ConnectedPeers :: int
  sum_TrackedPeers :: int
  sum_LowReputationPeers :: int
  sum_BannedPeers :: int

record peerReputationEntry =
  pe_score :: int
  pe_bannedUntil :: time
  pe_successes :: u64
  pe_penalties :: u64
  pe_lastReason :: string
  pe_lastUpdated :: time

record PeerReputationBook =
  rb_entries :: "(string, peerReputationEntry) fmap"
  rb_banDuration :: int
  rb_recoveryWindow :: int
  rb_recoveryStep :: int

definition NewPeerReputationBook :: PeerReputationBook where
  "NewPeerReputationBook = \<lparr>rb_entries = fmempty, rb_banDuration = DefaultPeerBanDuration,
     rb_recoveryWindow = DefaultPeerRecoveryWindow, rb_recoveryStep = DefaultPeerRecoveryStep\<rparr>"

text \<open>
  The clock of the book is its \<open>now\<close> function; each operation takes the time it reads there (\<open>clock\<close>). An entry
  is changed in place in the code; here it is stored back.
\<close>

definition entryLocked :: "PeerReputationBook \<Rightarrow> time \<Rightarrow> string \<Rightarrow> peerReputationEntry" where
  "entryLocked b clock pid =
     (case fmlookup (rb_entries b) pid of
        Some entry \<Rightarrow> entry
      | None \<Rightarrow> \<lparr>pe_score = DefaultPeerScore, pe_bannedUntil = 0, pe_successes = 0, pe_penalties = 0, pe_lastReason = [],
                 pe_lastUpdated = clock\<rparr>)"

definition store_entry :: "PeerReputationBook \<Rightarrow> string \<Rightarrow> peerReputationEntry \<Rightarrow> PeerReputationBook" where
  "store_entry b pid entry = b\<lparr>rb_entries := fmupd pid entry (rb_entries b)\<rparr>"

definition recoverLocked :: "PeerReputationBook \<Rightarrow> peerReputationEntry \<Rightarrow> time \<Rightarrow> peerReputationEntry" where
  "recoverLocked b entry n =
     (if pe_lastUpdated entry = 0 then entry\<lparr>pe_lastUpdated := n\<rparr>
      else if rb_recoveryWindow b \<le> 0 \<or> rb_recoveryStep b \<le> 0 \<or> n < pe_lastUpdated entry then entry
      else
        (let elapsed = time_Sub n (pe_lastUpdated entry) in
         if elapsed < rb_recoveryWindow b then entry
         else
           (let steps = elapsed div rb_recoveryWindow b;
                score0 = int64 (pe_score entry + int64 (steps * rb_recoveryStep b));
                score = (if MaxPeerScore < score0 then MaxPeerScore else score0);
                bannedUntil = (if BannedPeerScoreThreshold < score \<and> pe_bannedUntil entry \<noteq> 0 \<and> pe_bannedUntil entry < n
                               then 0 else pe_bannedUntil entry)
            in entry\<lparr>pe_score := score, pe_bannedUntil := bannedUntil, pe_lastUpdated := n\<rparr>)))"

definition isBanned :: "peerReputationEntry \<Rightarrow> time \<Rightarrow> bool" where
  "isBanned e n \<longleftrightarrow> pe_bannedUntil e \<noteq> 0 \<and> n < pe_bannedUntil e"

definition snapshotPeerStatus :: "string \<Rightarrow> peerReputationEntry option \<Rightarrow> bool \<Rightarrow> time \<Rightarrow> PeerReputationStatus" where
  "snapshotPeerStatus pid entry conn n =
     (case entry of
        None \<Rightarrow>
          \<lparr>rs_PeerID = pid, rs_Score = DefaultPeerScore, rs_Connected = conn, rs_Banned = False, rs_BannedUntil = 0,
           rs_Successes = 0, rs_Penalties = 0, rs_LastReason = [], rs_LastUpdated = n\<rparr>
      | Some e \<Rightarrow>
          \<lparr>rs_PeerID = pid, rs_Score = pe_score e, rs_Connected = conn, rs_Banned = isBanned e n,
           rs_BannedUntil = (if isBanned e n then pe_bannedUntil e else 0), rs_Successes = pe_successes e,
           rs_Penalties = pe_penalties e, rs_LastReason = pe_lastReason e, rs_LastUpdated = pe_lastUpdated e\<rparr>)"

definition at_least_one :: "int \<Rightarrow> int" where
  "at_least_one delta = (if delta \<le> 0 then 1 else delta)"

definition rewarded :: "time \<Rightarrow> int \<Rightarrow> string \<Rightarrow> peerReputationEntry \<Rightarrow> peerReputationEntry" where
  "rewarded clock delta reason entry =
     (let score = int64 (pe_score entry + at_least_one delta) in
      entry\<lparr>pe_score := (if MaxPeerScore < score then MaxPeerScore else score),
            pe_successes := pe_successes entry + 1, pe_lastReason := reason, pe_lastUpdated := clock\<rparr>)"

definition Reward :: "PeerReputationBook \<Rightarrow> time \<Rightarrow> string \<Rightarrow> int \<Rightarrow> string \<Rightarrow> PeerReputationBook \<times> PeerReputationStatus" where
  "Reward b clock pid delta reason =
     (let entry = rewarded clock delta reason (recoverLocked b (entryLocked b clock pid) clock)
      in (store_entry b pid entry, snapshotPeerStatus pid (Some entry) False clock))"

definition penalized :: "int \<Rightarrow> time \<Rightarrow> int \<Rightarrow> string \<Rightarrow> peerReputationEntry \<Rightarrow> peerReputationEntry" where
  "penalized banDuration clock delta reason entry =
     (let score0 = int64 (pe_score entry - at_least_one delta);
          score = (if score0 < MinPeerScore then MinPeerScore else score0)
      in entry\<lparr>pe_score := score, pe_penalties := pe_penalties entry + 1, pe_lastReason := reason, pe_lastUpdated := clock,
               pe_bannedUntil := (if score \<le> BannedPeerScoreThreshold then clock + banDuration else pe_bannedUntil entry)\<rparr>)"

definition Penalize :: "PeerReputationBook \<Rightarrow> time \<Rightarrow> string \<Rightarrow> int \<Rightarrow> string \<Rightarrow> PeerReputationBook \<times> PeerReputationStatus" where
  "Penalize b clock pid delta reason =
     (let entry = penalized (rb_banDuration b) clock delta reason (recoverLocked b (entryLocked b clock pid) clock)
      in (store_entry b pid entry, snapshotPeerStatus pid (Some entry) False clock))"

text \<open>The remaining operations on a nil book are their first lines. \<open>Allowed\<close> is given the time at which it asks.\<close>

definition Allowed :: "PeerReputationBook \<Rightarrow> time \<Rightarrow> string \<Rightarrow> time \<Rightarrow> PeerReputationBook \<times> bool" where
  "Allowed b clock pid n =
     (if pid = [] then (b, False)
      else (let entry = recoverLocked b (entryLocked b clock pid) n in (store_entry b pid entry, \<not> isBanned entry n)))"

definition scaledLimit :: "int \<Rightarrow> int \<Rightarrow> int" where
  "scaledLimit base percent =
     (if base \<le> 0 then 0
      else if percent \<le> 0 then 1
      else (let scaled = int64 (int64 (base * percent) + 99) sdiv 100 in if scaled < 1 then 1 else scaled))"

definition AdaptiveLimit :: "PeerReputationBook \<Rightarrow> time \<Rightarrow> string \<Rightarrow> int \<Rightarrow> PeerReputationBook \<times> int" where
  "AdaptiveLimit b clock pid base =
     (if base \<le> 0 \<or> pid = [] then (b, base)
      else
        (let entry = recoverLocked b (entryLocked b clock pid) clock in
         (store_entry b pid entry,
          if isBanned entry clock then 0
          else if 80 \<le> pe_score entry then base
          else if 60 \<le> pe_score entry then scaledLimit base 75
          else if 40 \<le> pe_score entry then scaledLimit base 50
          else scaledLimit base 25)))"

definition Score :: "PeerReputationBook \<Rightarrow> time \<Rightarrow> string \<Rightarrow> PeerReputationBook \<times> int" where
  "Score b clock pid =
     (if pid = [] then (b, DefaultPeerScore)
      else (let entry = recoverLocked b (entryLocked b clock pid) clock in (store_entry b pid entry, pe_score entry)))"

text \<open>The order is total: the identifiers are the keys of a map.\<close>

definition Reputation_Snapshot :: "PeerReputationBook \<Rightarrow> time \<Rightarrow> string set \<Rightarrow> PeerReputationBook \<times> PeerReputationStatus list" where
  "Reputation_Snapshot b clock conn =
     (let entries = map (\<lambda>(pid, entry). (pid, recoverLocked b entry clock)) (fm_entries (rb_entries b)) in
      (b\<lparr>rb_entries := fmmap (\<lambda>entry. recoverLocked b entry clock) (rb_entries b)\<rparr>,
       sort_key (\<lambda>s. (- rs_Score s, rs_PeerID s))
         (map (\<lambda>(pid, entry). snapshotPeerStatus pid (Some entry) (pid \<in> conn) clock) entries)))"

definition Summary :: "PeerReputationBook \<Rightarrow> time \<Rightarrow> string set \<Rightarrow> PeerReputationBook \<times> PeerReputationSummary" where
  "Summary b clock conn =
     (case Reputation_Snapshot b clock conn of (b', snapshot) \<Rightarrow>
        (b', \<lparr>sum_ConnectedPeers = int (length (filter rs_Connected snapshot)), sum_TrackedPeers = int (length snapshot),
              sum_LowReputationPeers = int (length (filter (\<lambda>s. rs_Score s < LowPeerScoreThreshold) snapshot)),
              sum_BannedPeers = int (length (filter rs_Banned snapshot))\<rparr>))"

section \<open>The window limiter\<close>

record peerWindow =
  pw_start :: time
  pw_count :: int

record peerWindowLimiter =
  wl_limit :: int
  wl_window :: int
  wl_entries :: "(string, peerWindow) fmap"

definition newPeerWindowLimiter :: "int \<Rightarrow> int \<Rightarrow> peerWindowLimiter" where
  "newPeerWindowLimiter limit window = \<lparr>wl_limit = limit, wl_window = window, wl_entries = fmempty\<rparr>"

definition pruneLocked :: "peerWindowLimiter \<Rightarrow> time \<Rightarrow> peerWindowLimiter" where
  "pruneLocked l n = l\<lparr>wl_entries := fmfilter (\<lambda>pid. case fmlookup (wl_entries l) pid of
       None \<Rightarrow> True | Some entry \<Rightarrow> \<not> wl_window l \<le> time_Sub n (pw_start entry)) (wl_entries l)\<rparr>"

definition AllowWithLimit :: "peerWindowLimiter \<Rightarrow> string \<Rightarrow> time \<Rightarrow> int \<Rightarrow> peerWindowLimiter \<times> bool" where
  "AllowWithLimit l pid n limit =
     (if wl_window l \<le> 0 then (l, True)
      else if pid = [] then (l, False)
      else
        (let effectiveLimit = (if 0 < limit \<and> (wl_limit l \<le> 0 \<or> limit < wl_limit l) then limit else wl_limit l) in
         if effectiveLimit \<le> 0 then (l, True)
         else
           (case fmlookup (wl_entries l) pid of
              None \<Rightarrow> (pruneLocked (l\<lparr>wl_entries := fmupd pid \<lparr>pw_start = n, pw_count = 1\<rparr> (wl_entries l)\<rparr>) n, True)
            | Some entry \<Rightarrow>
                if wl_window l \<le> time_Sub n (pw_start entry)
                then (pruneLocked (l\<lparr>wl_entries := fmupd pid \<lparr>pw_start = n, pw_count = 1\<rparr> (wl_entries l)\<rparr>) n, True)
                else if effectiveLimit \<le> pw_count entry then (l, False)
                else (l\<lparr>wl_entries := fmupd pid (entry\<lparr>pw_count := int64 (pw_count entry + 1)\<rparr>) (wl_entries l)\<rparr>, True))))"

definition Allow :: "peerWindowLimiter \<Rightarrow> string \<Rightarrow> time \<Rightarrow> peerWindowLimiter \<times> bool" where
  "Allow l pid n = AllowWithLimit l pid n 0"

end
