(* ===== verification/Reputation_Laws.thy ===== *)
theory Reputation_Laws
  imports Reputation
begin

text \<open>
  What the reputation book and the window limiter promise: scores stay in their range, a ban lasts as long
  as it says, and a peer gets at most two limits in any period as long as a window.
\<close>

section \<open>Runs of the book\<close>

datatype reputation_op = Rewarded time string int string | Penalized time string int string
  | Asked time string time | Limited time string int | Scored time string | Listed time "string set"

definition reputation_step :: "reputation_op \<Rightarrow> PeerReputationBook \<Rightarrow> PeerReputationBook" where
  "reputation_step op b = (case op of
     Rewarded t p d r \<Rightarrow> fst (Reward b t p d r) | Penalized t p d r \<Rightarrow> fst (Penalize b t p d r)
   | Asked t p n \<Rightarrow> fst (Allowed b t p n) | Limited t p base \<Rightarrow> fst (AdaptiveLimit b t p base)
   | Scored t p \<Rightarrow> fst (Score b t p) | Listed t conn \<Rightarrow> fst (Summary b t conn))"

primrec op_delta :: "reputation_op \<Rightarrow> int" where
  "op_delta (Rewarded t p d r) = d" | "op_delta (Penalized t p d r) = d" | "op_delta (Asked t p n) = 0"
| "op_delta (Limited t p base) = 0" | "op_delta (Scored t p) = 0" | "op_delta (Listed t conn) = 0"

primrec op_times :: "reputation_op \<Rightarrow> time set" where
  "op_times (Rewarded t p d r) = {t}" | "op_times (Penalized t p d r) = {t}" | "op_times (Asked t p n) = {t, n}"
| "op_times (Limited t p base) = {t}" | "op_times (Scored t p) = {t}" | "op_times (Listed t conn) = {t}"

definition fresh_entry :: "time \<Rightarrow> peerReputationEntry" where
  "fresh_entry t = entryLocked NewPeerReputationBook t []"

lemma entryLocked_cases: "entryLocked b t p = (case fmlookup (rb_entries b) p of Some e \<Rightarrow> e | None \<Rightarrow> fresh_entry t)"
  by (simp add: entryLocked_def fresh_entry_def NewPeerReputationBook_def split: option.split)

lemma reputation_params [simp]:
  "rb_banDuration (reputation_step op b) = rb_banDuration b" "rb_recoveryWindow (reputation_step op b) = rb_recoveryWindow b"
  "rb_recoveryStep (reputation_step op b) = rb_recoveryStep b"
  by (cases op; simp add: reputation_step_def Reward_def Penalize_def Allowed_def AdaptiveLimit_def Score_def Summary_def
      Reputation_Snapshot_def store_entry_def Let_def)+

text \<open>One rule for what every operation keeps of the entries.\<close>

lemma reputation_step_entries:
  assumes old: "\<And>p e. fmlookup (rb_entries b) p = Some e \<Longrightarrow> P p e"
    and fresh: "\<And>p t. fmlookup (rb_entries b) p = None \<Longrightarrow> t \<in> op_times op \<Longrightarrow> P p (fresh_entry t)"
    and recovered: "\<And>p e n. P p e \<Longrightarrow> n \<in> op_times op \<Longrightarrow> P p (recoverLocked b e n)"
    and reward: "\<And>t p d r e. op = Rewarded t p d r \<Longrightarrow> P p e \<Longrightarrow> P p (rewarded t d r e)"
    and penalty: "\<And>t p d r e. op = Penalized t p d r \<Longrightarrow> P p e \<Longrightarrow> P p (penalized (rb_banDuration b) t d r e)"
    and new: "fmlookup (rb_entries (reputation_step op b)) q = Some e"
  shows "P q e"
proof -
  have entry: "P p (entryLocked b t p)" if "t \<in> op_times op" for p t
    using old fresh that by (auto simp: entryLocked_cases split: option.split)
  consider "fmlookup (rb_entries b) q = Some e"
    | t n where "t \<in> op_times op" "n \<in> op_times op" "e = recoverLocked b (entryLocked b t q) n"
    | t d r where "op = Rewarded t q d r" "e = rewarded t d r (recoverLocked b (entryLocked b t q) t)"
    | t d r where "op = Penalized t q d r" "e = penalized (rb_banDuration b) t d r (recoverLocked b (entryLocked b t q) t)"
    | t e0 where "t \<in> op_times op" "fmlookup (rb_entries b) q = Some e0" "e = recoverLocked b e0 t"
    using new
    by (cases op)
      (auto simp: reputation_step_def Reward_def Penalize_def Allowed_def AdaptiveLimit_def Score_def Summary_def
        Reputation_Snapshot_def store_entry_def Let_def split: if_splits)
  then show ?thesis
  proof cases
    case (3 t d r)
    then show ?thesis using reward [OF 3(1)] recovered [OF entry] by simp
  next
    case (4 t d r)
    then show ?thesis using penalty [OF 4(1)] recovered [OF entry] by simp
  qed (use old recovered entry in auto)
qed

lemma reputation_step_dom: "fmlookup (rb_entries b) p \<noteq> None \<Longrightarrow> fmlookup (rb_entries (reputation_step op b)) p \<noteq> None"
  by (cases op) (auto simp: reputation_step_def Reward_def Penalize_def Allowed_def AdaptiveLimit_def Score_def Summary_def
      Reputation_Snapshot_def store_entry_def Let_def)

section \<open>Scores stay in range\<close>

definition score_ok :: "peerReputationEntry \<Rightarrow> bool" where
  "score_ok e \<longleftrightarrow> MinPeerScore \<le> pe_score e \<and> pe_score e \<le> MaxPeerScore"

lemmas score_defs = MinPeerScore_def MaxPeerScore_def DefaultPeerScore_def BannedPeerScoreThreshold_def

lemma fresh_ok: "score_ok (fresh_entry t)"
  by (simp add: score_ok_def fresh_entry_def entryLocked_def NewPeerReputationBook_def score_defs)

lemma recovered_ok:
  assumes "score_ok e" and "rb_recoveryWindow b = DefaultPeerRecoveryWindow" "rb_recoveryStep b = DefaultPeerRecoveryStep"
  shows "score_ok (recoverLocked b e n)"
proof -
  let ?el = "time_Sub n (pe_lastUpdated e)" and ?w = "DefaultPeerRecoveryWindow"
  have w: "?w = 300000000000" by (simp add: DefaultPeerRecoveryWindow_def Minute_def Second_def)
  have "?el div ?w \<le> (2 ^ 63 - 1) div ?w" unfolding w by (rule zdiv_mono1) (simp_all add: time_Sub_def)
  then have hi: "?el div ?w \<le> 30744573" by (simp add: w)
  show ?thesis
  proof (cases "?w \<le> ?el")
    case True
    then have lo: "0 \<le> ?el div ?w" by (simp add: w)
    have "int64 (pe_score e + int64 (?el div ?w * 5)) = pe_score e + ?el div ?w * 5"
      using hi lo assms(1) by (simp add: int64_id score_ok_def score_defs)
    with assms lo show ?thesis
      by (simp add: recoverLocked_def Let_def DefaultPeerRecoveryStep_def score_ok_def score_defs)
  next
    case False
    with assms show ?thesis by (simp add: recoverLocked_def score_ok_def)
  qed
qed

lemma rewarded_ok: "score_ok e \<Longrightarrow> d \<le> 2 ^ 62 \<Longrightarrow> score_ok (rewarded t d r e)"
  by (auto simp: rewarded_def score_ok_def Let_def score_defs at_least_one_def int64_id)

lemma penalized_ok: "score_ok e \<Longrightarrow> d \<le> 2 ^ 62 \<Longrightarrow> score_ok (penalized k t d r e)"
  by (auto simp: penalized_def score_ok_def Let_def score_defs at_least_one_def int64_id)

definition book_ok :: "PeerReputationBook \<Rightarrow> bool" where
  "book_ok b \<longleftrightarrow> rb_banDuration b = DefaultPeerBanDuration \<and> rb_recoveryWindow b = DefaultPeerRecoveryWindow
     \<and> rb_recoveryStep b = DefaultPeerRecoveryStep \<and> (\<forall>p e. fmlookup (rb_entries b) p = Some e \<longrightarrow> score_ok e)"

lemma book_ok_step: "book_ok b \<Longrightarrow> op_delta op \<le> 2 ^ 62 \<Longrightarrow> book_ok (reputation_step op b)"
proof -
  assume ok: "book_ok b" and d: "op_delta op \<le> 2 ^ 62"
  have "score_ok e" if "fmlookup (rb_entries (reputation_step op b)) p = Some e" for p e
    using that ok d by (rule_tac reputation_step_entries [where P = "\<lambda>_. score_ok"])
      (auto simp: book_ok_def fresh_ok recovered_ok rewarded_ok penalized_ok)
  with ok show ?thesis by (simp add: book_ok_def)
qed

lemma book_ok_run: "book_ok b \<Longrightarrow> \<forall>op \<in> set ops. op_delta op \<le> 2 ^ 62 \<Longrightarrow> book_ok (fold reputation_step ops b)"
  by (induction ops arbitrary: b) (simp_all add: book_ok_step)

lemma book_ok_new: "book_ok NewPeerReputationBook"
  by (simp add: book_ok_def NewPeerReputationBook_def)

lemma scaledLimit_bounds:
  assumes "0 < base" "base \<le> 2 ^ 56" "0 < p" "p \<le> 100"
  shows "1 \<le> scaledLimit base p \<and> scaledLimit base p \<le> base"
proof -
  have m: "0 < base * p" "base * p \<le> base * 100" using assms by (simp_all add: mult_left_mono)
  then have "int64 (int64 (base * p) + 99) = base * p + 99" using assms(2) by (simp add: int64_id)
  moreover have "(base * p + 99) sdiv 100 = (base * p + 99) div 100" using m(1) by (simp add: signed_divide_int_def sgn_if)
  moreover have "(base * p + 99) div 100 \<le> base" using m by simp
  ultimately show ?thesis using assms(1,3) by (simp add: scaledLimit_def Let_def)
qed

lemma entry_score_ok: "book_ok b \<Longrightarrow> score_ok (recoverLocked b (entryLocked b t p) n)"
  by (auto simp: entryLocked_cases book_ok_def fresh_ok intro!: recovered_ok split: option.split)



section \<open>Bans\<close>

text \<open>The entry of a peer that is banned until \<open>u\<close> at least, and exactly until \<open>u\<close> when it is not penalised again.\<close>

definition penalizes :: "string \<Rightarrow> reputation_op \<Rightarrow> bool" where
  "penalizes p op \<longleftrightarrow> (\<exists>t d r. op = Penalized t p d r)"

lemma ban_step:
  assumes "fmlookup (rb_entries b) p = Some e" and "u \<le> pe_bannedUntil e" and "0 < u"
    and "\<forall>t \<in> op_times op. u \<le> t + rb_banDuration b \<and> t \<le> u"
  shows "\<exists>e'. fmlookup (rb_entries (reputation_step op b)) p = Some e' \<and> u \<le> pe_bannedUntil e'
    \<and> (\<not> penalizes p op \<longrightarrow> pe_bannedUntil e' = pe_bannedUntil e)"
proof -
  let ?P = "\<lambda>q x. q = p \<longrightarrow> u \<le> pe_bannedUntil x \<and> (\<not> penalizes p op \<longrightarrow> pe_bannedUntil x = pe_bannedUntil e)"
  have recovered: "pe_bannedUntil (recoverLocked b x n) = pe_bannedUntil x" if "u \<le> pe_bannedUntil x" "n \<le> u" for x n
    using that by (auto simp: recoverLocked_def Let_def)
  obtain e' where e': "fmlookup (rb_entries (reputation_step op b)) p = Some e'"
    using reputation_step_dom [of b p op] assms(1) by auto
  have "?P p e'"
  proof (rule reputation_step_entries [where P = ?P and op = op and b = b, OF _ _ _ _ _ e'])
    show "?P q (recoverLocked b x n)" if "?P q x" "n \<in> op_times op" for q x n using that recovered assms(4) by auto
    show "?P q (penalized (rb_banDuration b) t d r x)" if "op = Penalized t q d r" "?P q x" for t q d r x
      using that assms(4) by (auto simp: penalized_def penalizes_def Let_def)
  qed (use assms(1,2) in \<open>auto simp: rewarded_def Let_def\<close>)
  with e' show ?thesis by blast
qed

lemma ban_run:
  assumes "fmlookup (rb_entries b) p = Some e" and "u \<le> pe_bannedUntil e" and "0 < u"
    and "\<forall>op \<in> set ops. \<forall>t \<in> op_times op. u \<le> t + rb_banDuration b \<and> t \<le> u"
  shows "\<exists>e'. fmlookup (rb_entries (fold reputation_step ops b)) p = Some e' \<and> u \<le> pe_bannedUntil e'
    \<and> ((\<forall>op \<in> set ops. \<not> penalizes p op) \<longrightarrow> pe_bannedUntil e' = pe_bannedUntil e)"
  using assms
proof (induction ops arbitrary: b e)
  case (Cons op ops)
  obtain e1 where e1: "fmlookup (rb_entries (reputation_step op b)) p = Some e1" "u \<le> pe_bannedUntil e1"
    "\<not> penalizes p op \<Longrightarrow> pe_bannedUntil e1 = pe_bannedUntil e"
    using ban_step [OF Cons.prems(1-3), of op] Cons.prems(4) by auto
  from Cons.IH [OF e1(1,2) Cons.prems(3)] Cons.prems(4) e1(3) show ?case by fastforce
qed auto

lemma recovered_banned: "isBanned (recoverLocked b e n) n \<longleftrightarrow> isBanned e n"
  by (auto simp: isBanned_def recoverLocked_def Let_def)

text \<open>
  C32: A penalty that takes a peer down to the threshold bans it for the ban duration and no reward, no recovery and no
  other operation lifts the ban before its end: until then the peer is refused and its limit is 0. When it
  is not penalised again it is admitted from the end of the ban on.
\<close>

theorem ban_lasts:
  assumes "Penalize b t p d r = (b1, status)" and "rs_Score status \<le> BannedPeerScoreThreshold" and "p \<noteq> []"
    and "0 \<le> t" and "0 < rb_banDuration b"
    and "\<forall>op \<in> set later. \<forall>s \<in> op_times op. t \<le> s \<and> s \<le> t + rb_banDuration b"
    and "b2 = fold reputation_step later b1"
  shows "(\<forall>s n base. n < t + rb_banDuration b \<longrightarrow> \<not> snd (Allowed b2 s p n) \<and> (0 < base \<longrightarrow> snd (AdaptiveLimit b2 n p base) = 0))
    \<and> (\<forall>s n. t + rb_banDuration b \<le> n \<and> (\<forall>op \<in> set later. \<not> penalizes p op) \<longrightarrow> snd (Allowed b2 s p n))"
proof -
  let ?u = "t + rb_banDuration b" and ?e = "penalized (rb_banDuration b) t d r (recoverLocked b (entryLocked b t p) t)"
  have b1: "fmlookup (rb_entries b1) p = Some ?e" "rb_banDuration b1 = rb_banDuration b" and score: "pe_score ?e \<le> BannedPeerScoreThreshold"
    using assms(1,2) by (auto simp: Penalize_def Let_def store_entry_def snapshotPeerStatus_def)
  have until: "pe_bannedUntil ?e = ?u" using score by (simp add: penalized_def Let_def split: if_splits)
  obtain e' where e': "fmlookup (rb_entries b2) p = Some e'" "?u \<le> pe_bannedUntil e'"
    "(\<forall>op \<in> set later. \<not> penalizes p op) \<Longrightarrow> pe_bannedUntil e' = ?u"
    using ban_run [OF b1(1), of ?u later] until assms(4-7) b1(2) by auto
  then have "isBanned (recoverLocked b2 (entryLocked b2 s p) n) n \<longleftrightarrow> n < pe_bannedUntil e'" for s n
    using assms(4,5) by (simp add: recovered_banned entryLocked_cases) (auto simp: isBanned_def)
  with e' assms(3) show ?thesis by (auto simp: Allowed_def AdaptiveLimit_def Let_def)
qed

theorem ban_lasts_witness:
  "let b1 = fst (Penalize NewPeerReputationBook 100 ''p'' 90 []); b2 = fold reputation_step [Rewarded 200 ''p'' 95 []] b1
   in \<not> snd (Allowed b2 300 ''p'' 300) \<and> snd (Allowed b2 0 ''p'' (100 + DefaultPeerBanDuration))"
proof -
  obtain b1 status where run: "Penalize NewPeerReputationBook 100 ''p'' 90 [] = (b1, status)" by fastforce
  have "rs_Score (snd (Penalize NewPeerReputationBook 100 ''p'' 90 [])) \<le> BannedPeerScoreThreshold" by code_simp
  then have low: "rs_Score status \<le> BannedPeerScoreThreshold" by (simp add: run)
  have dur: "rb_banDuration NewPeerReputationBook = DefaultPeerBanDuration" "DefaultPeerBanDuration = 900000000000"
    by (simp_all add: NewPeerReputationBook_def DefaultPeerBanDuration_def Minute_def Second_def)
  from ban_lasts [OF run low _ _ _ _ refl, of "[Rewarded 200 ''p'' 95 []]"] show ?thesis
    by (simp add: run dur Let_def penalizes_def)
qed

section \<open>The limiter\<close>

fun run_limiter :: "peerWindowLimiter \<Rightarrow> (string \<times> time \<times> int) list \<Rightarrow> bool list" where
  "run_limiter l [] = []"
| "run_limiter l ((p, n, limit) # calls) =
     (case AllowWithLimit l p n limit of (l', ok) \<Rightarrow> ok # run_limiter l' calls)"

definition granted :: "string \<Rightarrow> peerWindowLimiter \<Rightarrow> (string \<times> time \<times> int) list \<Rightarrow> nat" where
  "granted p l calls = length (filter (\<lambda>(c, ok). fst c = p \<and> ok) (zip calls (run_limiter l calls)))"

text \<open>What a peer can still get in the period that starts at \<open>t\<close>.\<close>

definition credit :: "time \<Rightarrow> string \<Rightarrow> peerWindowLimiter \<Rightarrow> nat" where
  "credit t p l = (case fmlookup (wl_entries l) p of
       None \<Rightarrow> nat (wl_limit l)
     | Some w \<Rightarrow> nat (wl_limit l - pw_count w) + (if pw_start w < t then nat (wl_limit l) else 0))"

definition limiter_ok :: "int \<Rightarrow> int \<Rightarrow> peerWindowLimiter \<Rightarrow> bool" where
  "limiter_ok L w l \<longleftrightarrow> wl_limit l = L \<and> wl_window l = w \<and> (\<forall>p e. fmlookup (wl_entries l) p = Some e \<longrightarrow> 1 \<le> pw_count e \<and> pw_count e \<le> L)"

lemma prune_lookup:
  "fmlookup (wl_entries (pruneLocked l n)) p = (case fmlookup (wl_entries l) p of
       None \<Rightarrow> None | Some e \<Rightarrow> if wl_window l \<le> time_Sub n (pw_start e) then None else Some e)"
  by (auto simp: pruneLocked_def split: option.split)

lemma limiter_step:
  assumes ok: "limiter_ok L w l" and L: "0 < L" "L < 2 ^ 63" and w: "0 < w" "w < 2 ^ 63" and n: "t \<le> n" "n < t + w"
    and step: "AllowWithLimit l q n limit = (l', r)"
  shows "limiter_ok L w l' \<and> credit t p l' + (if q = p \<and> r then 1 else 0) \<le> credit t p l"
proof -
  define eff where "eff = (if 0 < limit \<and> limit < L then limit else L)"
  have eff: "0 < eff" "eff \<le> L" using L by (auto simp: eff_def)
  have sub: "w \<le> time_Sub n s \<longleftrightarrow> w \<le> n - s" for s using w by (simp add: time_Sub_ge)
  have par: "wl_limit l = L" "wl_window l = w" "wl_limit (pruneLocked m n) = wl_limit m" "wl_window (pruneLocked m n) = wl_window m" for m
    using ok by (simp_all add: limiter_ok_def pruneLocked_def)
  have counts: "1 \<le> pw_count e \<and> pw_count e \<le> L" if "fmlookup (wl_entries l) s = Some e" for s e
    using ok that by (auto simp: limiter_ok_def)
  define opened where "opened = pruneLocked (l\<lparr>wl_entries := fmupd q \<lparr>pw_start = n, pw_count = 1\<rparr> (wl_entries l)\<rparr>) n"
  have opened: "fmlookup (wl_entries opened) s = (if s = q then Some \<lparr>pw_start = n, pw_count = 1\<rparr>
      else case fmlookup (wl_entries l) s of None \<Rightarrow> None | Some e \<Rightarrow> if w \<le> n - pw_start e then None else Some e)" for s
    using w by (simp add: opened_def prune_lookup par sub split: option.split)
  consider "l' = l" "\<not> r"
    | "r" "l' = opened" "\<And>e. fmlookup (wl_entries l) q = Some e \<Longrightarrow> w \<le> n - pw_start e"
    | e where "r" "fmlookup (wl_entries l) q = Some e" "pw_count e < eff"
        "l' = l\<lparr>wl_entries := fmupd q (e\<lparr>pw_count := pw_count e + 1\<rparr>) (wl_entries l)\<rparr>"
  proof -
    have "int64 (pw_count e + 1) = pw_count e + 1" if "fmlookup (wl_entries l) q = Some e" "pw_count e < eff" for e
      using counts [OF that(1)] that(2) eff L by (intro int64_id) simp_all
    moreover have e: "(if 0 < limit \<and> (L \<le> 0 \<or> limit < L) then limit else L) = eff" using L by (simp add: eff_def)
    have "AllowWithLimit l q n limit =
      (if q = [] then (l, False)
       else (case fmlookup (wl_entries l) q of
          None \<Rightarrow> (opened, True)
        | Some e \<Rightarrow>
            if w \<le> n - pw_start e then (opened, True)
            else if eff \<le> pw_count e then (l, False)
            else (l\<lparr>wl_entries := fmupd q (e\<lparr>pw_count := int64 (pw_count e + 1)\<rparr>) (wl_entries l)\<rparr>, True)))"
      using w eff unfolding AllowWithLimit_def par e Let_def sub opened_def [symmetric] by simp
    ultimately show ?thesis using step that by (auto split: option.splits if_splits)
  qed
  then show ?thesis
  proof cases
    case 1
    then show ?thesis using ok by simp
  next
    case 2
    have "limiter_ok L w l'" using L counts by (auto simp: 2 limiter_ok_def opened par opened_def [THEN arg_cong [where f = wl_limit]]
          opened_def [THEN arg_cong [where f = wl_window]] split: if_splits option.splits)
    moreover have "credit t p l' + (if q = p then 1 else 0) \<le> credit t p l"
      using n L w 2(3) by (auto simp: 2 credit_def opened par opened_def [THEN arg_cong [where f = wl_limit]] split: option.splits)
    ultimately show ?thesis by (cases r) simp_all
  next
    case (3 e)
    have "limiter_ok L w l'" using ok counts [OF 3(2)] 3(3) eff by (auto simp: 3(4) limiter_ok_def)
    moreover have "credit t p l' + (if q = p then 1 else 0) \<le> credit t p l"
      using 3(2,3) counts [OF 3(2)] eff by (auto simp: 3(4) credit_def par split: option.splits)
    ultimately show ?thesis by (cases r) simp_all
  qed
qed

lemma granted_credit:
  assumes "limiter_ok L w l" and "0 < L" "L < 2 ^ 63" and "0 < w" "w < 2 ^ 63" and "\<forall>(q, n, limit) \<in> set calls. t \<le> n \<and> n < t + w"
  shows "granted p l calls \<le> credit t p l"
  using assms(1,6)
proof (induction calls arbitrary: l)
  case (Cons c calls)
  obtain q n limit where c: "c = (q, n, limit)" by (cases c)
  obtain l' r where step: "AllowWithLimit l q n limit = (l', r)" by fastforce
  have n: "t \<le> n" "n < t + w" using Cons.prems(2) c by auto
  note one = limiter_step [OF Cons.prems(1) assms(2-5) n step, of p]
  then have "granted p l' calls \<le> credit t p l'" using Cons by simp
  moreover have "granted p l (c # calls) = (if q = p \<and> r then 1 else 0) + granted p l' calls"
    by (simp add: granted_def c step)
  ultimately show ?case using one by simp
qed (simp add: granted_def)

text \<open>
  However its messages are spread, a peer gets at most twice the limit in any period as long as
  the window: the windows of the limiter are fixed, so a peer can use up one at its end and the next at its start.
\<close>

theorem limiter_bounds_any_period:
  assumes "0 < L" "L < 2 ^ 63" "0 < w" "w < 2 ^ 63"
    and "\<forall>(q, n, limit) \<in> set calls. t \<le> n \<and> n < t + w"
  shows "granted p (fold (\<lambda>(q, n, limit) l. fst (AllowWithLimit l q n limit)) before (newPeerWindowLimiter L w)) calls \<le> 2 * nat L"
proof -
  let ?run = "\<lambda>cs l. fold (\<lambda>(q, n, limit) l. fst (AllowWithLimit l q n limit)) cs l"
  have keep: "limiter_ok L w (?run cs l)" if "limiter_ok L w l" for cs l
    using that
  proof (induction cs arbitrary: l)
    case (Cons c cs)
    obtain q n limit where c: "c = (q, n, limit)" by (cases c)
    have "limiter_ok L w (fst (AllowWithLimit l q n limit))"
      using limiter_step [OF Cons.prems assms(1-4), of n n q limit] assms(3) by (cases "AllowWithLimit l q n limit") simp
    then show ?case using Cons.IH by (simp add: c)
  qed simp
  have "limiter_ok L w (newPeerWindowLimiter L w)" by (simp add: limiter_ok_def newPeerWindowLimiter_def)
  note ok = keep [OF this, of before]
  have "credit t p m \<le> 2 * nat L" if "limiter_ok L w m" for m
  proof (cases "fmlookup (wl_entries m) p")
    case (Some e)
    with that have "1 \<le> pw_count e" by (auto simp: limiter_ok_def)
    then have "nat (L - pw_count e) \<le> nat L" by (intro nat_mono) simp
    with that Some show ?thesis by (simp add: credit_def limiter_ok_def)
  qed (use that in \<open>simp add: credit_def limiter_ok_def\<close>)
  from this [OF ok] granted_credit [OF ok assms(1-5), of p] show ?thesis by simp
qed

theorem limiter_bounds_any_period_witness:
  "granted ''p'' (fold (\<lambda>(q, n, limit) l. fst (AllowWithLimit l q n limit)) [(''p'', 1, 0)] (newPeerWindowLimiter 2 10))
     [(''p'', 9, 0), (''p'', 11, 0), (''p'', 12, 0), (''p'', 13, 0)] \<le> 4"
  using limiter_bounds_any_period [of 2 10 "[(''p'', 9, 0), (''p'', 11, 0), (''p'', 12, 0), (''p'', 13, 0)]" 9 "''p''" "[(''p'', 1, 0)]"]
  by simp

end
