(* ===== verification/Peer_Sync.thy ===== *)
theory Peer_Sync
  imports Reputation
begin

text \<open>
  The node between its peers (\<open>src/core/p2p.go\<close>): what it does with a gossiped block or transaction, how it
  serves a request for blocks and how it catches up from a peer. The streams, topics and encodings are libp2p and
  \<open>encoding/json\<close>: a message is its sender, its size and the result of decoding it, an answer of a peer is a
  function of the number of the request. The clock is read once per message.
\<close>

section \<open>Data\<close>

definition MaxGossipBlockBytes :: int where "MaxGossipBlockBytes = 4 * 2 ^ 20"
definition MaxGossipTransactionBytes :: int where "MaxGossipTransactionBytes = 2 ^ 20"
definition MaxChainSyncBatchSize :: int where "MaxChainSyncBatchSize = 64"
definition MaxChainSyncResponseBytes :: int where "MaxChainSyncResponseBytes = 6 * 2 ^ 20"
definition DefaultPeerBlockLimit :: int where "DefaultPeerBlockLimit = 48"
definition DefaultPeerTransactionLimit :: int where "DefaultPeerTransactionLimit = 96"
definition DefaultPeerSyncLimit :: int where "DefaultPeerSyncLimit = 24"
definition DefaultPeerLimitWindow :: int where "DefaultPeerLimitWindow = Minute"
definition DefaultSyncBatchSize :: int where "DefaultSyncBatchSize = 32"

record ChainSyncProvider =
  csp_LatestBlock :: Block
  csp_GetBlockByNumber :: "u64 \<Rightarrow> Block res"

record chainSyncRequest =
  csq_StartNumber :: u64
  csq_Limit :: int

record chainSyncResponse =
  csr_LatestNumber :: u64
  csr_Blocks :: "Block list"
  csr_Error :: string

record 'a message =
  msg_ReceivedFrom :: string
  msg_Size :: int
  msg_Decoded :: "'a res"

text \<open>\<open>p2_closed\<close> logs the peers whose connections were closed.\<close>

record P2PNode =
  p2_self :: string
  p2_chainProvider :: "ChainSyncProvider option"
  p2_blockLimiter :: "peerWindowLimiter option"
  p2_txLimiter :: "peerWindowLimiter option"
  p2_syncLimiter :: "peerWindowLimiter option"
  p2_reputation :: "PeerReputationBook option"
  p2_closed :: "string list"

definition NewP2PNode :: "string \<Rightarrow> ChainSyncProvider option \<Rightarrow> P2PNode" where
  "NewP2PNode self provider =
     \<lparr>p2_self = self, p2_chainProvider = provider,
      p2_blockLimiter = Some (newPeerWindowLimiter DefaultPeerBlockLimit DefaultPeerLimitWindow),
      p2_txLimiter = Some (newPeerWindowLimiter DefaultPeerTransactionLimit DefaultPeerLimitWindow),
      p2_syncLimiter = Some (newPeerWindowLimiter DefaultPeerSyncLimit DefaultPeerLimitWindow),
      p2_reputation = Some NewPeerReputationBook, p2_closed = []\<rparr>"

section \<open>Reputation of the sender\<close>

definition disconnectPeer :: "string \<Rightarrow> P2PNode \<Rightarrow> P2PNode" where
  "disconnectPeer pid p = (if pid = [] then p else p\<lparr>p2_closed := p2_closed p @ [pid]\<rparr>)"

definition penalizePeer :: "time \<Rightarrow> string \<Rightarrow> int \<Rightarrow> string \<Rightarrow> P2PNode \<Rightarrow> P2PNode" where
  "penalizePeer n pid delta reason p =
     (case p2_reputation p of
        None \<Rightarrow> p
      | Some book \<Rightarrow>
          if pid = [] then p
          else (case Penalize book n pid delta reason of (book', status) \<Rightarrow>
            let p' = p\<lparr>p2_reputation := Some book'\<rparr> in if rs_Banned status then disconnectPeer pid p' else p'))"

definition rewardPeer :: "time \<Rightarrow> string \<Rightarrow> int \<Rightarrow> string \<Rightarrow> P2PNode \<Rightarrow> P2PNode" where
  "rewardPeer n pid delta reason p =
     (case p2_reputation p of
        None \<Rightarrow> p
      | Some book \<Rightarrow> if pid = [] then p else p\<lparr>p2_reputation := Some (fst (Reward book n pid delta reason))\<rparr>)"

text \<open>\<open>p.reputation != nil && !p.reputation.Allowed(...)\<close>, and the limit that applies to the peer.\<close>

definition refuses :: "time \<Rightarrow> string \<Rightarrow> P2PNode \<Rightarrow> P2PNode \<times> bool" where
  "refuses n pid p =
     (case p2_reputation p of
        None \<Rightarrow> (p, False)
      | Some book \<Rightarrow> (case Allowed book n pid n of (book', ok) \<Rightarrow> (p\<lparr>p2_reputation := Some book'\<rparr>, \<not> ok)))"

definition peer_limit :: "time \<Rightarrow> string \<Rightarrow> int \<Rightarrow> P2PNode \<Rightarrow> P2PNode \<times> int" where
  "peer_limit n pid base p =
     (case p2_reputation p of
        None \<Rightarrow> (p, base)
      | Some book \<Rightarrow> (case AdaptiveLimit book n pid base of (book', limit) \<Rightarrow> (p\<lparr>p2_reputation := Some book'\<rparr>, limit)))"

definition window_allows :: "peerWindowLimiter option \<Rightarrow> string \<Rightarrow> time \<Rightarrow> int \<Rightarrow> peerWindowLimiter option \<times> bool" where
  "window_allows l pid n limit =
     (case l of None \<Rightarrow> (None, True) | Some w \<Rightarrow> (case AllowWithLimit w pid n limit of (w', ok) \<Rightarrow> (Some w', ok)))"

section \<open>Gossip\<close>

text \<open>
  One message of \<open>consumeBlocks\<close>. The handler \<open>onBlock\<close> works on a state of its own (\<open>'s\<close>) and
  returns its error; a nil handler is \<open>None\<close>.
\<close>

definition consume_block ::
    "time \<Rightarrow> ('s \<Rightarrow> Block \<Rightarrow> 's \<times> err option) option \<Rightarrow> Block message \<Rightarrow> P2PNode \<times> 's \<Rightarrow> P2PNode \<times> 's" where
  "consume_block n onBlock m s0 =
     (case s0 of (p, s) \<Rightarrow>
        let sender = msg_ReceivedFrom m in
        if sender = p2_self p then (p, s)
        else
          (case refuses n sender p of (p1, refused) \<Rightarrow>
             if refused then (disconnectPeer sender p1, s)
             else if MaxGossipBlockBytes < msg_Size m then (penalizePeer n sender 20 ''oversized block gossip'' p1, s)
             else
               (case peer_limit n sender DefaultPeerBlockLimit p1 of (p2, limit) \<Rightarrow>
                  if limit = 0 then (disconnectPeer sender p2, s)
                  else
                    (case window_allows (p2_blockLimiter p2) sender n limit of (w, ok) \<Rightarrow>
                       let p3 = p2\<lparr>p2_blockLimiter := w\<rparr> in
                       if \<not> ok then (penalizePeer n sender 4 ''block gossip rate limit exceeded'' p3, s)
                       else
                         (case msg_Decoded m of
                            Inl _ \<Rightarrow> (penalizePeer n sender 25 ''invalid block gossip payload'' p3, s)
                          | Inr block \<Rightarrow>
                              (case (case onBlock of None \<Rightarrow> (s, None) | Some f \<Rightarrow> f s block) of
                                 (s', Some er) \<Rightarrow>
                                   (penalizePeer n sender (if er = ErrForkNotPreferred then 10 else 30) (err_Error er) p3, s')
                               | (s', None) \<Rightarrow> (rewardPeer n sender 2 ''accepted block gossip'' p3, s')))))))"

definition consume_transaction ::
    "time \<Rightarrow> ('s \<Rightarrow> Transaction \<Rightarrow> 's \<times> err option) option \<Rightarrow> Transaction message \<Rightarrow> P2PNode \<times> 's \<Rightarrow> P2PNode \<times> 's" where
  "consume_transaction n onTransaction m s0 =
     (case s0 of (p, s) \<Rightarrow>
        let sender = msg_ReceivedFrom m in
        if sender = p2_self p then (p, s)
        else
          (case refuses n sender p of (p1, refused) \<Rightarrow>
             if refused then (disconnectPeer sender p1, s)
             else if MaxGossipTransactionBytes < msg_Size m then (penalizePeer n sender 10 ''oversized transaction gossip'' p1, s)
             else
               (case peer_limit n sender DefaultPeerTransactionLimit p1 of (p2, limit) \<Rightarrow>
                  if limit = 0 then (disconnectPeer sender p2, s)
                  else
                    (case window_allows (p2_txLimiter p2) sender n limit of (w, ok) \<Rightarrow>
                       let p3 = p2\<lparr>p2_txLimiter := w\<rparr> in
                       if \<not> ok then (penalizePeer n sender 2 ''transaction gossip rate limit exceeded'' p3, s)
                       else
                         (case msg_Decoded m of
                            Inl _ \<Rightarrow> (penalizePeer n sender 15 ''invalid transaction gossip payload'' p3, s)
                          | Inr tx \<Rightarrow>
                              (case (case onTransaction of None \<Rightarrow> (s, None) | Some f \<Rightarrow> f s tx) of
                                 (s', Some er) \<Rightarrow> (p3, s')
                               | (s', None) \<Rightarrow> (rewardPeer n sender 1 ''accepted transaction gossip'' p3, s')))))))"

section \<open>Serving blocks\<close>

definition maxPayloadBytes :: int where
  "maxPayloadBytes = MaxChainSyncResponseBytes - 2048"

text \<open>
  The loop over the block numbers; its second argument is the length of the JSON text of a block, the fourth how
  many blocks the answer may still take. The result is the blocks, the error of the answer and the reason for a penalty.
\<close>

fun serve_loop :: "(u64 \<Rightarrow> Block res) \<Rightarrow> (Block \<Rightarrow> int res) \<Rightarrow> u64 \<Rightarrow> nat \<Rightarrow> u64 \<Rightarrow> Block list \<Rightarrow> int
    \<Rightarrow> Block list \<times> string \<times> string option" where
  "serve_loop get json_len latest 0 number blocks estimated = (blocks, [], None)"
| "serve_loop get json_len latest (Suc k) number blocks estimated =
     (if \<not> number \<le> latest then (blocks, [], None)
      else
        (case get number of
           Inl e \<Rightarrow> (blocks, err_Error e, Some (err_Error e))
         | Inr block \<Rightarrow>
             (case json_len block of
                Inl e \<Rightarrow> (blocks, err_Error e, Some (err_Error e))
              | Inr len \<Rightarrow>
                  if blocks \<noteq> [] \<and> maxPayloadBytes < estimated + len + 1 then (blocks, [], None)
                  else if blocks = [] \<and> maxPayloadBytes < len then (blocks, ''block exceeds chain sync payload limit'', None)
                  else serve_loop get json_len latest k (number + 1) (blocks @ [block]) (estimated + len + 1))))"

definition serve_limit :: "int \<Rightarrow> int \<Rightarrow> int" where
  "serve_limit syncLimit requested =
     (let limit = (if requested \<le> 0 then DefaultSyncBatchSize else requested);
          maxLimit = (if syncLimit < MaxChainSyncBatchSize then syncLimit else MaxChainSyncBatchSize)
      in if maxLimit < limit then maxLimit else limit)"

definition serve_request :: "(Block \<Rightarrow> int res) \<Rightarrow> ChainSyncProvider \<Rightarrow> int \<Rightarrow> chainSyncRequest \<Rightarrow> chainSyncResponse \<times> string option" where
  "serve_request json_len provider syncLimit request =
     (let latest = hdr_Number (blk_Header (csp_LatestBlock provider)) in
      if latest < csq_StartNumber request then (\<lparr>csr_LatestNumber = latest, csr_Blocks = [], csr_Error = []\<rparr>, None)
      else
        (case serve_loop (csp_GetBlockByNumber provider) json_len latest (nat (serve_limit syncLimit (csq_Limit request)))
                (csq_StartNumber request) [] 0 of
           (blocks, er, penalty) \<Rightarrow> (\<lparr>csr_LatestNumber = latest, csr_Blocks = blocks, csr_Error = er\<rparr>, penalty)))"

definition sync_error :: "string \<Rightarrow> chainSyncResponse" where
  "sync_error er = \<lparr>csr_LatestNumber = 0, csr_Blocks = [], csr_Error = er\<rparr>"

definition handleChainSync ::
    "time \<Rightarrow> (Block \<Rightarrow> int res) \<Rightarrow> string \<Rightarrow> chainSyncRequest res \<Rightarrow> P2PNode \<Rightarrow> P2PNode \<times> chainSyncResponse" where
  "handleChainSync n json_len remotePeer decoded p =
     (case p2_chainProvider p of
        None \<Rightarrow> (p, sync_error ''chain sync unavailable'')
      | Some provider \<Rightarrow>
          (case refuses n remotePeer p of (p1, refused) \<Rightarrow>
             if refused then (disconnectPeer remotePeer p1, sync_error ''peer temporarily banned'')
             else
               (case peer_limit n remotePeer DefaultPeerSyncLimit p1 of (p2, syncLimit) \<Rightarrow>
                  if syncLimit = 0 then (disconnectPeer remotePeer p2, sync_error ''peer temporarily banned'')
                  else
                    (case window_allows (p2_syncLimiter p2) remotePeer n syncLimit of (w, ok) \<Rightarrow>
                       let p3 = p2\<lparr>p2_syncLimiter := w\<rparr> in
                       if \<not> ok then (penalizePeer n remotePeer 4 ''chain sync rate limit exceeded'' p3, sync_error ''rate limited'')
                       else
                         (case decoded of
                            Inl e \<Rightarrow> (penalizePeer n remotePeer 10 ''invalid chain sync request'' p3, sync_error (err_Error e))
                          | Inr request \<Rightarrow>
                              (if hdr_Number (blk_Header (csp_LatestBlock provider)) < csq_StartNumber request
                               then (p3, fst (serve_request json_len provider syncLimit request))
                               else
                                 (case serve_request json_len provider syncLimit request of (response, penalty) \<Rightarrow>
                                    let p4 = (case penalty of None \<Rightarrow> p3 | Some reason \<Rightarrow> penalizePeer n remotePeer 6 reason p3) in
                                    (if csr_Error response = [] then rewardPeer n remotePeer 1 ''served chain sync request'' p4 else p4,
                                     response))))))))"

section \<open>Catching up\<close>

fun contiguous :: "u64 \<Rightarrow> Block list \<Rightarrow> bool" where
  "contiguous number [] \<longleftrightarrow> True"
| "contiguous number (b # bs) \<longleftrightarrow> hdr_Number (blk_Header b) = number \<and> contiguous (number + 1) bs"

definition validateSyncResponse :: "u64 \<Rightarrow> chainSyncResponse \<Rightarrow> unit res" where
  "validateSyncResponse expectedStart response =
     (if MaxChainSyncBatchSize < int (length (csr_Blocks response)) then Inl (ErrText ''chain sync response exceeded batch limit'')
      else if \<not> contiguous expectedStart (csr_Blocks response)
      then Inl (ErrText ''chain sync response block numbers are not contiguous'') else Inr ())"

definition request_limit :: "int \<Rightarrow> int" where
  "request_limit limit =
     (let l = (if limit \<le> 0 then DefaultSyncBatchSize else limit) in
      if MaxChainSyncBatchSize < l then MaxChainSyncBatchSize else l)"

definition minInt :: "int \<Rightarrow> int \<Rightarrow> int" where
  "minInt left right = (if left < right then left else right)"

text \<open>The blocks of one answer: the height, the number of imported blocks and the state of the importer.\<close>

fun import_answer :: "('s \<Rightarrow> Block \<Rightarrow> 's \<times> err option) \<Rightarrow> Block list \<Rightarrow> u64 \<Rightarrow> int \<Rightarrow> 's \<Rightarrow> u64 \<times> int \<times> 's \<times> err option" where
  "import_answer importBlock [] height imported s = (height, imported, s, None)"
| "import_answer importBlock (b # bs) height imported s =
     (case importBlock s b of
        (s', Some er) \<Rightarrow> (height, imported, s', Some er)
      | (s', None) \<Rightarrow> import_answer importBlock bs (hdr_Number (blk_Header b)) (imported + 1) s')"

text \<open>
  \<open>syncFromPeer\<close> after its first line. \<open>ask k start limit\<close> is the answer to request \<open>k\<close>; \<open>next\<close> is \<open>height + 1\<close>
  at the head of the loop. A peer can keep the loop going, so the result is \<open>None\<close> when it does not return.
\<close>

partial_function (option) sync_loop ::
    "time \<Rightarrow> (nat \<Rightarrow> u64 \<Rightarrow> int \<Rightarrow> chainSyncResponse res) \<Rightarrow> ('s \<Rightarrow> Block \<Rightarrow> 's \<times> err option) \<Rightarrow> string \<Rightarrow> nat \<Rightarrow> u64 \<Rightarrow> u64 \<Rightarrow> int
     \<Rightarrow> P2PNode \<Rightarrow> 's \<Rightarrow> (P2PNode \<times> 's \<times> u64 \<times> int \<times> err option) option" where
  "sync_loop n ask importBlock peerID k nxt height imported p s =
     (case ask k nxt (request_limit DefaultSyncBatchSize) of
        Inl er \<Rightarrow> Some (penalizePeer n peerID 8 (err_Error er) p, s, height, imported, Some er)
      | Inr response \<Rightarrow>
          if csr_Error response \<noteq> [] then
            Some (penalizePeer n peerID 6 (csr_Error response) p, s, height, imported, Some (ErrText (csr_Error response)))
          else if csr_LatestNumber response < nxt \<or> csr_Blocks response = [] then
            Some (rewardPeer n peerID 1 ''chain sync completed'' p, s, height, imported, None)
          else
            (case validateSyncResponse nxt response of
               Inl er \<Rightarrow> Some (penalizePeer n peerID 20 (err_Error er) p, s, height, imported, Some er)
             | Inr _ \<Rightarrow>
                 (case import_answer importBlock (csr_Blocks response) height imported s of
                    (height', imported', s', Some er) \<Rightarrow>
                      Some (penalizePeer n peerID 12 (err_Error er) p, s', height', imported', Some er)
                  | (height', imported', s', None) \<Rightarrow>
                      if csr_LatestNumber response < height' + 1 then
                        Some (rewardPeer n peerID (minInt 4 imported') ''chain sync imported blocks'' p, s', height', imported', None)
                      else sync_loop n ask importBlock peerID (Suc k) (height' + 1) height' imported' p s')))"

definition syncFromPeer ::
    "time \<Rightarrow> (nat \<Rightarrow> u64 \<Rightarrow> int \<Rightarrow> chainSyncResponse res) \<Rightarrow> ('s \<Rightarrow> Block \<Rightarrow> 's \<times> err option) \<Rightarrow> string \<Rightarrow> u64
     \<Rightarrow> P2PNode \<Rightarrow> 's \<Rightarrow> (P2PNode \<times> 's \<times> u64 \<times> int \<times> err option) option" where
  "syncFromPeer n ask importBlock peerID localHeight p s =
     (case refuses n peerID p of (p1, refused) \<Rightarrow>
        if refused then Some (p1, s, localHeight, 0, Some (ErrText ''peer temporarily banned''))
        else sync_loop n ask importBlock peerID 0 (localHeight + 1) localHeight 0 p1 s)"

text \<open>The peers in the order of their scores; one peer is not compared with anything.\<close>

definition sync_order :: "time \<Rightarrow> string list \<Rightarrow> P2PNode \<Rightarrow> P2PNode \<times> string list" where
  "sync_order n peers p =
     (case p2_reputation p of
        None \<Rightarrow> (p, sort peers)
      | Some book \<Rightarrow>
          if length peers < 2 then (p, peers)
          else (p\<lparr>p2_reputation := Some (fold (\<lambda>pid b. fst (Score b n pid)) peers book)\<rparr>,
                sort_key (\<lambda>pid. (- snd (Score book n pid), pid)) peers))"

fun sync_peers ::
    "time \<Rightarrow> (string \<Rightarrow> nat \<Rightarrow> u64 \<Rightarrow> int \<Rightarrow> chainSyncResponse res) \<Rightarrow> ('s \<Rightarrow> Block \<Rightarrow> 's \<times> err option) \<Rightarrow> string list
     \<Rightarrow> err option \<Rightarrow> u64 \<Rightarrow> P2PNode \<Rightarrow> 's \<Rightarrow> (P2PNode \<times> 's \<times> u64 \<times> err option) option" where
  "sync_peers n ask importBlock [] lastErr height p s = Some (p, s, height, lastErr)"
| "sync_peers n ask importBlock (pid # peers) lastErr height p s =
     (case syncFromPeer n (ask pid) importBlock pid height p s of
        None \<Rightarrow> None
      | Some (p', s', height', _, er) \<Rightarrow>
          sync_peers n ask importBlock peers (case er of None \<Rightarrow> lastErr | Some e \<Rightarrow> Some e) height' p' s')"

definition SyncChain ::
    "time \<Rightarrow> (string \<Rightarrow> nat \<Rightarrow> u64 \<Rightarrow> int \<Rightarrow> chainSyncResponse res) \<Rightarrow> ('s \<Rightarrow> Block \<Rightarrow> 's \<times> err option) \<Rightarrow> string list
     \<Rightarrow> u64 \<Rightarrow> P2PNode \<Rightarrow> 's \<Rightarrow> (P2PNode \<times> 's \<times> u64 \<times> err option) option" where
  "SyncChain n ask importBlock peers localHeight p s =
     (case sync_order n peers p of (p1, ordered) \<Rightarrow> sync_peers n ask importBlock ordered None localHeight p1 s)"

definition PeerStatuses :: "time \<Rightarrow> string set \<Rightarrow> P2PNode \<Rightarrow> P2PNode \<times> PeerReputationStatus list" where
  "PeerStatuses n conn p =
     (case p2_reputation p of
        None \<Rightarrow> (p, [])
      | Some book \<Rightarrow> (case Reputation_Snapshot book n conn of (book', l) \<Rightarrow> (p\<lparr>p2_reputation := Some book'\<rparr>, l)))"

definition PeerSummary :: "time \<Rightarrow> string set \<Rightarrow> P2PNode \<Rightarrow> P2PNode \<times> PeerReputationSummary" where
  "PeerSummary n conn p =
     (case p2_reputation p of
        None \<Rightarrow> (p, \<lparr>sum_ConnectedPeers = 0, sum_TrackedPeers = 0, sum_LowReputationPeers = 0, sum_BannedPeers = 0\<rparr>)
      | Some book \<Rightarrow> (case Summary book n conn of (book', x) \<Rightarrow> (p\<lparr>p2_reputation := Some book'\<rparr>, x)))"

end
