(* ===== verification/Peer_Sync_Laws.thy ===== *)
theory Peer_Sync_Laws
  imports Peer_Sync Chain_Properties
begin

text \<open>
  Catching up from a peer that serves a chain: the blocks arrive in order, without a gap, and the loop returns
  at the peer's height.
\<close>

section \<open>One answer\<close>

text \<open>The blocks of a chain with the numbers from \<open>a\<close> to below \<open>b\<close>.\<close>

definition blocks_between :: "(u64 \<Rightarrow> Block) \<Rightarrow> nat \<Rightarrow> nat \<Rightarrow> Block list" where
  "blocks_between B a b = map (\<lambda>i. B (of_nat i)) [a..<b]"

lemma blocks_between_Cons: "a < b \<Longrightarrow> blocks_between B a b = B (of_nat a) # blocks_between B (Suc a) b"
  by (simp add: blocks_between_def upt_conv_Cons)

lemma blocks_between_append: "a \<le> b \<Longrightarrow> b \<le> c \<Longrightarrow> blocks_between B a b @ blocks_between B b c = blocks_between B a c"
  using upt_add_eq_append [of a b "c - b"] by (simp add: blocks_between_def flip: map_append)

lemma of_nat_u64_le: "a < 2 ^ 64 \<Longrightarrow> b < 2 ^ 64 \<Longrightarrow> (of_nat a :: u64) \<le> of_nat b \<longleftrightarrow> a \<le> b"
  by (simp add: word_le_nat_alt unat_of_nat)

lemma of_nat_u64_lt: "a < 2 ^ 64 \<Longrightarrow> b < 2 ^ 64 \<Longrightarrow> (of_nat a :: u64) < of_nat b \<longleftrightarrow> a < b"
  by (simp add: word_less_nat_alt unat_of_nat)

text \<open>What is asked of a source of blocks: every number up to \<open>hi\<close> has its block, and each fits into an answer.\<close>

definition serves :: "(u64 \<Rightarrow> Block res) \<Rightarrow> (u64 \<Rightarrow> Block) \<Rightarrow> (Block \<Rightarrow> int res) \<Rightarrow> nat \<Rightarrow> bool" where
  "serves get B json_len hi \<longleftrightarrow> hi + 1 < 2 ^ 64 \<and> (\<forall>i \<le> hi. get (of_nat i) = Inr (B (of_nat i))
     \<and> hdr_Number (blk_Header (B (of_nat i))) = of_nat i \<and> (\<exists>z. json_len (B (of_nat i)) = Inr z \<and> z \<le> maxPayloadBytes))"

lemma servesD:
  assumes "serves get B json_len hi"
  shows "hi + 1 < 2 ^ 64" "i \<le> hi \<Longrightarrow> get (of_nat i) = Inr (B (of_nat i))"
    "i \<le> hi \<Longrightarrow> hdr_Number (blk_Header (B (of_nat i))) = of_nat i"
    "i \<le> hi \<Longrightarrow> \<exists>z. json_len (B (of_nat i)) = Inr z \<and> z \<le> maxPayloadBytes"
  using assms by (simp_all add: serves_def)

lemma serve_loop_span:
  assumes src: "serves get B json_len hi" and "a \<le> hi + 1"
  shows "\<exists>c. a \<le> c \<and> c \<le> hi + 1 \<and> c \<le> a + k \<and> (blocks = [] \<and> 0 < k \<and> a \<le> hi \<longrightarrow> a < c)
    \<and> serve_loop get json_len (of_nat hi) k (of_nat a) blocks est = (blocks @ blocks_between B a c, [], None)"
  using assms(2)
proof (induction k arbitrary: a blocks est)
  case 0
  then show ?case by (intro exI [of _ a]) (simp add: blocks_between_def)
next
  case (Suc k)
  show ?case
  proof (cases "a \<le> hi")
    case False
    then have "\<not> (of_nat a :: u64) \<le> of_nat hi" using Suc.prems servesD(1) [OF src] by (simp add: of_nat_u64_le)
    with False Suc.prems show ?thesis by (intro exI [of _ a]) (simp add: blocks_between_def)
  next
    case True
    then have le: "(of_nat a :: u64) \<le> of_nat hi" using servesD(1) [OF src] by (simp add: of_nat_u64_le)
    obtain z where z: "json_len (B (of_nat a)) = Inr z" "z \<le> maxPayloadBytes" using servesD(4) [OF src True] by blast
    show ?thesis
    proof (cases "blocks \<noteq> [] \<and> maxPayloadBytes < est + z + 1")
      case True
      then show ?thesis using le servesD(2) [OF src \<open>a \<le> hi\<close>] z Suc.prems by (intro exI [of _ a]) (simp add: blocks_between_def)
    next
      case False
      obtain c where c: "a + 1 \<le> c" "c \<le> hi + 1" "c \<le> a + 1 + k"
        "serve_loop get json_len (of_nat hi) k (of_nat (a + 1)) (blocks @ [B (of_nat a)]) (est + z + 1)
          = ((blocks @ [B (of_nat a)]) @ blocks_between B (a + 1) c, [], None)"
        using Suc.IH [of "a + 1" "blocks @ [B (of_nat a)]" "est + z + 1"] True by auto
      have "serve_loop get json_len (of_nat hi) (Suc k) (of_nat a) blocks est
        = serve_loop get json_len (of_nat hi) k (of_nat (a + 1)) (blocks @ [B (of_nat a)]) (est + z + 1)"
        using False le servesD(2) [OF src True] z by (auto simp: add.commute)
      also have "\<dots> = (blocks @ blocks_between B a c, [], None)" using c by (simp add: blocks_between_Cons)
      finally show ?thesis using c by (intro exI [of _ c]) simp
    qed
  qed
qed

lemma contiguous_span:
  assumes src: "serves get B json_len hi" and "a \<le> b" and "b \<le> hi + 1"
  shows "contiguous (of_nat a) (blocks_between B a b)"
  using assms(2,3)
proof (induction "b - a" arbitrary: a)
  case (Suc n)
  then have "contiguous (of_nat (Suc a)) (blocks_between B (Suc a) b)" by (intro Suc.hyps(1)) auto
  moreover have "a < b" using Suc.hyps(2) by simp
  ultimately show ?case using servesD(3) [OF src, of a] Suc.prems by (simp add: blocks_between_Cons add.commute)
qed (simp add: blocks_between_def)

section \<open>The importer\<close>

text \<open>All blocks of a list are accepted one after the other, and the state after them.\<close>

fun accepts :: "('s \<Rightarrow> Block \<Rightarrow> 's \<times> err option) \<Rightarrow> 's \<Rightarrow> Block list \<Rightarrow> bool" where
  "accepts importBlock s [] \<longleftrightarrow> True"
| "accepts importBlock s (b # bs) \<longleftrightarrow> snd (importBlock s b) = None \<and> accepts importBlock (fst (importBlock s b)) bs"

abbreviation imported_state :: "('s \<Rightarrow> Block \<Rightarrow> 's \<times> err option) \<Rightarrow> Block list \<Rightarrow> 's \<Rightarrow> 's" where
  "imported_state importBlock bs s \<equiv> fold (\<lambda>b s. fst (importBlock s b)) bs s"

lemma accepts_append: "accepts f s (xs @ ys) \<longleftrightarrow> accepts f s xs \<and> accepts f (imported_state f xs s) ys"
  by (induction xs arbitrary: s) auto

lemma import_accepted:
  "accepts f s bs \<Longrightarrow> import_answer f bs height imported s
     = (if bs = [] then height else hdr_Number (blk_Header (last bs)), imported + int (length bs), imported_state f bs s, None)"
proof (induction bs arbitrary: s height imported)
  case (Cons b bs)
  then show ?case by (cases "f s b") auto
qed simp

lemma last_span:
  "serves get B json_len hi \<Longrightarrow> a < b \<Longrightarrow> b \<le> hi + 1 \<Longrightarrow> hdr_Number (blk_Header (last (blocks_between B a b))) = of_nat (b - 1)"
  using servesD(3) [of get B json_len hi "b - 1"] by (simp add: blocks_between_def last_map)

lemma sync_loop_catches_up:
  assumes src: "serves get B json_len hi"
    and ask: "\<And>k start limit. ask k start limit =
      Inr (fst (serve_request json_len provider cap \<lparr>csq_StartNumber = start, csq_Limit = limit\<rparr>))"
    and provider: "csp_GetBlockByNumber provider = get" "hdr_Number (blk_Header (csp_LatestBlock provider)) = of_nat hi" and cap: "1 \<le> cap"
    and "a \<le> hi + 1" and "0 < a" and "accepts f s (blocks_between B a (hi + 1))"
  shows "\<exists>p'. sync_loop n ask f peer k (of_nat a) (of_nat (a - 1)) imported p s
    = Some (p', imported_state f (blocks_between B a (hi + 1)) s, of_nat hi, imported + int (hi + 1 - a), None)"
  using assms(6-8)
proof (induction "hi + 1 - a" arbitrary: a k imported s rule: less_induct)
  case less
  note hi = servesD(1) [OF src]
  let ?l = "nat (serve_limit cap (request_limit DefaultSyncBatchSize))"
  have lim: "0 < ?l" "?l \<le> 64" using cap
    by (auto simp: serve_limit_def request_limit_def DefaultSyncBatchSize_def MaxChainSyncBatchSize_def)
  show ?case
  proof (cases "a \<le> hi")
    case False
    then have a: "a = hi + 1" using less.prems(1) by simp
    have "(of_nat hi :: u64) < of_nat a" unfolding a using hi by (subst of_nat_u64_lt) simp_all
    then have "ask k (of_nat a) (request_limit DefaultSyncBatchSize) = Inr \<lparr>csr_LatestNumber = of_nat hi, csr_Blocks = [], csr_Error = []\<rparr>"
      by (simp add: ask serve_request_def provider Let_def)
    with a show ?thesis by (subst sync_loop.simps) (simp add: blocks_between_def)
  next
    case True
    obtain c where c: "a < c" "c \<le> hi + 1" "c \<le> a + ?l"
      "serve_loop get json_len (of_nat hi) ?l (of_nat a) [] 0 = (blocks_between B a c, [], None)"
      using serve_loop_span [OF src, of a ?l "[]" 0] True lim(1) by auto
    have ans: "ask k (of_nat a) (request_limit DefaultSyncBatchSize)
        = Inr \<lparr>csr_LatestNumber = of_nat hi, csr_Blocks = blocks_between B a c, csr_Error = []\<rparr>"
      using True hi c(4) by (simp add: ask serve_request_def provider Let_def of_nat_u64_lt)
    have len: "length (blocks_between B a c) = c - a" "blocks_between B a c \<noteq> []" using c(1) by (simp_all add: blocks_between_def)
    have valid: "validateSyncResponse (of_nat a) \<lparr>csr_LatestNumber = of_nat hi, csr_Blocks = blocks_between B a c, csr_Error = []\<rparr> = Inr ()"
      using contiguous_span [OF src, of a c] c lim(2) len by (simp add: validateSyncResponse_def MaxChainSyncBatchSize_def)
    have parts: "blocks_between B a (hi + 1) = blocks_between B a c @ blocks_between B c (hi + 1)" using c by (simp add: blocks_between_append)
    have acc: "accepts f s (blocks_between B a c)" "accepts f (imported_state f (blocks_between B a c) s) (blocks_between B c (hi + 1))"
      using less.prems(3) unfolding parts accepts_append by simp_all
    have imp: "import_answer f (blocks_between B a c) (of_nat (a - 1)) imported s
        = (of_nat (c - 1), imported + int (c - a), imported_state f (blocks_between B a c) s, None)"
      using import_accepted [OF acc(1)] len last_span [OF src c(1,2)] by simp
    have next_c: "of_nat (c - 1) + 1 = (of_nat c :: u64)" using c(1) by (cases c) (simp_all add: add.commute)
    have not_less: "\<not> (of_nat hi :: u64) < of_nat a" using True hi by (simp add: of_nat_u64_lt)
    have step: "sync_loop n ask f peer k (of_nat a) (of_nat (a - 1)) imported p s =
      (if of_nat hi < (of_nat c :: u64)
       then Some (rewardPeer n peer (minInt 4 (imported + int (c - a))) ''chain sync imported blocks'' p,
                  imported_state f (blocks_between B a c) s, of_nat (c - 1), imported + int (c - a), None)
       else sync_loop n ask f peer (Suc k) (of_nat c) (of_nat (c - 1)) (imported + int (c - a)) p (imported_state f (blocks_between B a c) s))"
      by (subst sync_loop.simps) (simp add: ans valid imp [simplified] not_less len(2) next_c [simplified])
    show ?thesis
    proof (cases "c = hi + 1")
      case True
      have "(of_nat hi :: u64) < of_nat c" unfolding True using hi by (subst of_nat_u64_lt) simp_all
      then show ?thesis unfolding step by (simp add: True)
    next
      case False
      have "\<exists>p'. sync_loop n ask f peer (Suc k) (of_nat c) (of_nat (c - 1)) (imported + int (c - a)) p (imported_state f (blocks_between B a c) s)
        = Some (p', imported_state f (blocks_between B c (hi + 1)) (imported_state f (blocks_between B a c) s), of_nat hi,
            imported + int (c - a) + int (hi + 1 - c), None)"
        using c less.prems acc(2) by (intro less.hyps) auto
      moreover have "\<not> (of_nat hi :: u64) < of_nat c" using c False hi by (simp add: of_nat_u64_lt)
      moreover have "int (c - a) + int (hi + 1 - c) = int (hi + 1 - a)" using c by simp
      ultimately show ?thesis unfolding step parts by (simp add: add.assoc)
    qed
  qed
qed

section \<open>Catching up with a chain\<close>

text \<open>What a node that holds a chain answers, with a limit of \<open>cap\<close> blocks for the peer that asks.\<close>

definition chain_answers :: "(Block \<Rightarrow> int res) \<Rightarrow> Blockchain \<Rightarrow> int \<Rightarrow> nat \<Rightarrow> u64 \<Rightarrow> int \<Rightarrow> chainSyncResponse res" where
  "chain_answers json_len bc cap k start limit =
     Inr (fst (serve_request json_len \<lparr>csp_LatestBlock = bc_latest bc, csp_GetBlockByNumber = GetBlockByNumber bc\<rparr> cap
       \<lparr>csq_StartNumber = start, csq_Limit = limit\<rparr>))"

text \<open>The blocks of a chain above a height, in order.\<close>

definition chain_above :: "Blockchain \<Rightarrow> u64 \<Rightarrow> Block list" where
  "chain_above bc height = blocks_between (\<lambda>n. projr (GetBlockByNumber bc n)) (unat height + 1)
     (unat (hdr_Number (blk_Header (bc_latest bc))) + 1)"

lemma chain_serves:
  assumes inv: "chain_inv g bc" and "hdr_Number (blk_Header (bc_latest bc)) \<noteq> - 1"
    and fits: "\<And>n b. GetBlockByNumber bc n = Inr b \<Longrightarrow> \<exists>z. json_len b = Inr z \<and> z \<le> maxPayloadBytes"
  shows "serves (GetBlockByNumber bc) (\<lambda>n. projr (GetBlockByNumber bc n)) json_len (unat (hdr_Number (blk_Header (bc_latest bc))))"
proof -
  let ?t = "hdr_Number (blk_Header (bc_latest bc))"
  have "?t < - 1" using assms(2) by (simp add: less_le)
  then have hi: "unat ?t + 1 < 2 ^ 64" by (simp add: word_less_nat_alt unsigned_minus_1_eq_mask mask_eq_exp_minus_1)
  have "GetBlockByNumber bc (of_nat i) = Inr (projr (GetBlockByNumber bc (of_nat i)))" if "i \<le> unat ?t" for i
  proof -
    have "(of_nat i :: u64) \<le> ?t" using that hi by (simp add: word_le_nat_alt unat_of_nat)
    then obtain b where "GetBlockByNumber bc (of_nat i) = Inr b" using level_reads [OF inv, of "of_nat i"] by blast
    then show ?thesis by simp
  qed
  with hi fits link_reads(1) [OF inv] show ?thesis unfolding serves_def by blast
qed



end
