(* ===== verification/Governance_Store.thy ===== *)
theory Governance_Store
  imports Consensus "HOL-Library.Signed_Division"
begin

text \<open>
  The governance store of a node: proposals, votes and the events of passed proposals
  (\<open>GovernanceStore\<close> of \<open>src/core/node/service.go\<close>), its snapshot on disk
  (\<open>src/core/node/persistence.go\<close>) and the subscriptions that carry its events to the listener of
  \<open>Consensus\<close>. Every operation holds the store's mutex from its first to its last access, so it is one
  step; the goroutine of a subscription takes steps of its own between them.

  The file at \<open>StoragePath\<close> is the field \<open>gs_file\<close>, the snapshot it decodes to: the JSON text of a
  snapshot decodes to that snapshot, and \<open>os.Rename\<close> replaces the file as a whole. An operation that writes it
  takes the answer of the file system as an argument (\<open>None\<close> when the write succeeds).
\<close>

section \<open>Data\<close>

definition ErrInvalidProposalInput :: err where "ErrInvalidProposalInput = ErrText ''node: invalid proposal input''"
definition ErrInvalidVoteRequest :: err where "ErrInvalidVoteRequest = ErrText ''node: invalid vote request''"

definition GovernanceProposalBlocks :: u64 where "GovernanceProposalBlocks = 40320"

definition ProposalStatusActive :: string where "ProposalStatusActive = ''active''"
definition ProposalStatusQueued :: string where "ProposalStatusQueued = ''queued''"
definition ProposalStatusRejected :: string where "ProposalStatusRejected = ''rejected''"
definition ProposalStatusExecuted :: string where "ProposalStatusExecuted = ''executed''"

record ServiceConfig =
  cfg_HTTPAddress :: string
  cfg_StoragePath :: string
  cfg_StartBlock :: u64
  cfg_CirculatingSupply :: "int option"
  cfg_OperatorAddress :: string
  cfg_OperatorAlias :: string
  cfg_OperatorVotingPower :: "int option"

record ProposalCreateRequest =
  pc_Title :: string
  pc_ProposerAlias :: string
  pc_TargetComponent :: string
  pc_LogicExtension :: string
  pc_Sector :: string
  pc_MultiplierBPS :: u64
  pc_Stake :: string

record ProposalSummary =
  ps_ID :: u64
  ps_Title :: string
  ps_TargetComponent :: string
  ps_LogicExtension :: string
  ps_Proposer :: string
  ps_ProposerAlias :: string
  ps_Status :: string
  ps_DeadlineBlock :: u64
  ps_ForVotes :: string
  ps_AgainstVotes :: string
  ps_AbstainVotes :: string

record FinalizeResponse =
  fr_ProposalID :: u64
  fr_Status :: string
  fr_CurrentBlock :: u64
  fr_ArchitectCut :: string
  fr_SlashedAmount :: string
  fr_BurnAmount :: string
  fr_GovernanceEvent :: "GovernanceEvent option"

text \<open>The amounts of a proposal are never nil: both places that make one fill all of them in.\<close>

record proposalRecord =
  prop_ID :: u64
  prop_Title :: string
  prop_Proposer :: string
  prop_ProposerAlias :: string
  prop_TargetComponent :: string
  prop_LogicExtension :: string
  prop_Sector :: string
  prop_MultiplierBPS :: u64
  prop_Stake :: int
  prop_StartBlock :: u64
  prop_EndBlock :: u64
  prop_ForVotes :: int
  prop_AgainstVotes :: int
  prop_AbstainVotes :: int
  prop_Executed :: bool
  prop_Rejected :: bool
  prop_ArchitectCut :: int
  prop_BurnAmount :: int

record proposalRecordSnapshot =
  snap_ID :: u64
  snap_Title :: string
  snap_Proposer :: string
  snap_ProposerAlias :: string
  snap_TargetComponent :: string
  snap_LogicExtension :: string
  snap_Sector :: string
  snap_MultiplierBPS :: u64
  snap_Stake :: string
  snap_StartBlock :: u64
  snap_EndBlock :: u64
  snap_ForVotes :: string
  snap_AgainstVotes :: string
  snap_AbstainVotes :: string
  snap_Executed :: bool
  snap_Rejected :: bool
  snap_ArchitectCut :: string
  snap_BurnAmount :: string

record governanceSnapshot =
  gsn_CurrentBlock :: u64
  gsn_NextProposal :: u64
  gsn_Proposals :: "proposalRecordSnapshot list"
  gsn_Events :: "GovernanceEvent list"

text \<open>
  A subscription: the history its goroutine has still to forward, its \<open>live\<close> channel, the event the
  goroutine holds while it waits to send it, and the channel \<open>events\<close> the subscriber reads. Both channels have room for 32.
\<close>

record subscription =
  sub_historical :: "GovernanceEvent list"
  sub_live :: "GovernanceEvent list"
  sub_hand :: "GovernanceEvent option"
  sub_events :: "GovernanceEvent list"

definition channel_size :: nat where "channel_size = 32"

record GovernanceStore =
  gs_config :: ServiceConfig
  gs_currentBlock :: u64
  gs_nextProposal :: u64
  gs_proposals :: "(u64, proposalRecord) fmap"
  gs_events :: "GovernanceEvent list"
  gs_subscribers :: "(u64, subscription) fmap"
  gs_nextSubscriber :: u64
  gs_file :: "governanceSnapshot option"

section \<open>Helpers\<close>

definition node_parseBigInt :: "string \<Rightarrow> int res" where
  "node_parseBigInt s =
     (let clean = TrimSpace s in
      if clean = [] then Inr 0
      else (case SetString clean of None \<Rightarrow> Inl (ErrText ''invalid integer'') | Some n \<Rightarrow> Inr n))"

definition mustParseBigInt :: "string \<Rightarrow> int" where
  "mustParseBigInt s = (case node_parseBigInt s of Inl _ \<Rightarrow> 0 | Inr n \<Rightarrow> n)"

fun firstNonEmpty :: "string list \<Rightarrow> string" where
  "firstNonEmpty [] = []"
| "firstNonEmpty (v # vs) = (if TrimSpace v \<noteq> [] then v else firstNonEmpty vs)"

definition normalizeConfig :: "ServiceConfig \<Rightarrow> ServiceConfig" where
  "normalizeConfig c =
     c\<lparr>cfg_HTTPAddress := (if TrimSpace (cfg_HTTPAddress c) = [] then '':3337'' else cfg_HTTPAddress c),
       cfg_CirculatingSupply := (case cfg_CirculatingSupply c of
          None \<Rightarrow> Some 1000000 | Some n \<Rightarrow> if n \<le> 0 then Some 1000000 else Some n),
       cfg_OperatorAddress := (if TrimSpace (cfg_OperatorAddress c) = [] then ''UFI_LOCAL_OPERATOR'' else cfg_OperatorAddress c),
       cfg_OperatorAlias := (if TrimSpace (cfg_OperatorAlias c) = [] then ''local-operator'' else cfg_OperatorAlias c),
       cfg_OperatorVotingPower := (case cfg_OperatorVotingPower c of
          None \<Rightarrow> Some 5000 | Some n \<Rightarrow> if n \<le> 0 then Some 5000 else Some n)\<rparr>"

text \<open>\<open>big.Int.Quo\<close> truncates, like \<open>sdiv\<close>.\<close>

definition quorum_votes :: "ServiceConfig \<Rightarrow> int" where
  "quorum_votes c = (cloneBigInt (cfg_CirculatingSupply c) * uint GovernanceQuorumBPS) sdiv uint BasisPoints"

definition QuorumVotes :: "GovernanceStore \<Rightarrow> int" where
  "QuorumVotes g = quorum_votes (gs_config g)"

definition governanceTransactionID :: "env \<Rightarrow> u64 \<Rightarrow> u64 \<Rightarrow> string" where
  "governanceTransactionID E proposalID blockNumber =
     hex_encode (take 16 (sha256 E (FormatUint proposalID @ '':'' @ FormatUint blockNumber)))"

section \<open>Sorting\<close>

text \<open>
  The exchange sort of \<open>ListProposals\<close> and \<open>sortProposalSnapshots\<close>. One pass of the inner loop: the
  element held at \<open>left\<close> is compared with each element after it and swapped when it is greater.
\<close>

fun exchange_pass :: "('a \<Rightarrow> u64) \<Rightarrow> 'a \<Rightarrow> 'a list \<Rightarrow> 'a \<times> 'a list" where
  "exchange_pass key x [] = (x, [])"
| "exchange_pass key x (y # ys) =
     (if key x > key y then (case exchange_pass key y ys of (m, r) \<Rightarrow> (m, x # r))
      else (case exchange_pass key x ys of (m, r) \<Rightarrow> (m, y # r)))"

lemma exchange_pass_length: "length (snd (exchange_pass key x ys)) = length ys"
  by (induction key x ys rule: exchange_pass.induct) (auto split: prod.split)

function exchange_sort :: "('a \<Rightarrow> u64) \<Rightarrow> 'a list \<Rightarrow> 'a list" where
  "exchange_sort key [] = []"
| "exchange_sort key (x # xs) = (case exchange_pass key x xs of (m, r) \<Rightarrow> m # exchange_sort key r)"
  by pat_completeness auto
termination
  by (relation "measure (\<lambda>(key, xs). length xs)")
    (auto dest!: arg_cong [where f = "\<lambda>p. length (snd p)"] simp: exchange_pass_length)

section \<open>Snapshots\<close>

definition proposal_snapshot :: "proposalRecord \<Rightarrow> proposalRecordSnapshot" where
  "proposal_snapshot p =
     \<lparr>snap_ID = prop_ID p, snap_Title = prop_Title p, snap_Proposer = prop_Proposer p,
      snap_ProposerAlias = prop_ProposerAlias p, snap_TargetComponent = prop_TargetComponent p,
      snap_LogicExtension = prop_LogicExtension p, snap_Sector = prop_Sector p,
      snap_MultiplierBPS = prop_MultiplierBPS p, snap_Stake = show_int (prop_Stake p),
      snap_StartBlock = prop_StartBlock p, snap_EndBlock = prop_EndBlock p,
      snap_ForVotes = show_int (prop_ForVotes p), snap_AgainstVotes = show_int (prop_AgainstVotes p),
      snap_AbstainVotes = show_int (prop_AbstainVotes p), snap_Executed = prop_Executed p,
      snap_Rejected = prop_Rejected p, snap_ArchitectCut = show_int (prop_ArchitectCut p),
      snap_BurnAmount = show_int (prop_BurnAmount p)\<rparr>"

definition snapshot_proposal :: "proposalRecordSnapshot \<Rightarrow> proposalRecord" where
  "snapshot_proposal s =
     \<lparr>prop_ID = snap_ID s, prop_Title = snap_Title s, prop_Proposer = snap_Proposer s,
      prop_ProposerAlias = snap_ProposerAlias s, prop_TargetComponent = snap_TargetComponent s,
      prop_LogicExtension = snap_LogicExtension s, prop_Sector = snap_Sector s,
      prop_MultiplierBPS = snap_MultiplierBPS s, prop_Stake = mustParseBigInt (snap_Stake s),
      prop_StartBlock = snap_StartBlock s, prop_EndBlock = snap_EndBlock s,
      prop_ForVotes = mustParseBigInt (snap_ForVotes s), prop_AgainstVotes = mustParseBigInt (snap_AgainstVotes s),
      prop_AbstainVotes = mustParseBigInt (snap_AbstainVotes s), prop_Executed = snap_Executed s,
      prop_Rejected = snap_Rejected s, prop_ArchitectCut = mustParseBigInt (snap_ArchitectCut s),
      prop_BurnAmount = mustParseBigInt (snap_BurnAmount s)\<rparr>"

definition snapshotLocked :: "GovernanceStore \<Rightarrow> governanceSnapshot" where
  "snapshotLocked g =
     \<lparr>gsn_CurrentBlock = gs_currentBlock g, gsn_NextProposal = gs_nextProposal g,
      gsn_Proposals = exchange_sort snap_ID (map proposal_snapshot (fm_values (gs_proposals g))),
      gsn_Events = gs_events g\<rparr>"

definition applySnapshotLocked :: "governanceSnapshot \<Rightarrow> GovernanceStore \<Rightarrow> GovernanceStore" where
  "applySnapshotLocked s g =
     g\<lparr>gs_currentBlock := (if gsn_CurrentBlock s = 0 then cfg_StartBlock (gs_config g) else gsn_CurrentBlock s),
       gs_nextProposal := gsn_NextProposal s,
       gs_proposals := fold (\<lambda>p m. fmupd (snap_ID p) (snapshot_proposal p) m) (gsn_Proposals s) fmempty,
       gs_events := gsn_Events s\<rparr>"

definition persistLocked :: "err option \<Rightarrow> GovernanceStore \<Rightarrow> GovernanceStore res" where
  "persistLocked io g =
     (if cfg_StoragePath (gs_config g) = [] then Inr g
      else (case io of Some e \<Rightarrow> Inl e | None \<Rightarrow> Inr (g\<lparr>gs_file := Some (snapshotLocked g)\<rparr>)))"

definition mutateLocked ::
    "err option \<Rightarrow> (GovernanceStore \<Rightarrow> GovernanceStore \<times> 'a res) \<Rightarrow> GovernanceStore \<Rightarrow> GovernanceStore \<times> 'a res" where
  "mutateLocked io mutate g =
     (let prior = snapshotLocked g in
      case mutate g of
        (g', Inl e) \<Rightarrow> (g', Inl e)
      | (g', Inr x) \<Rightarrow>
          (case persistLocked io g' of
             Inl e \<Rightarrow> (applySnapshotLocked prior g', Inl e)
           | Inr g'' \<Rightarrow> (g'', Inr x)))"

text \<open>\<open>load\<close>: \<open>content\<close> is what reading and decoding the file yields, \<open>Inr None\<close> when there is none.\<close>

definition load_store :: "governanceSnapshot option res \<Rightarrow> GovernanceStore \<Rightarrow> GovernanceStore res" where
  "load_store content g =
     (if cfg_StoragePath (gs_config g) = [] then Inr g
      else
        (case content of
           Inl e \<Rightarrow> Inl e
         | Inr None \<Rightarrow> Inr g
         | Inr (Some s) \<Rightarrow> Inr (applySnapshotLocked s g\<lparr>gs_file := Some s\<rparr>)))"

definition NewGovernanceStore :: "ServiceConfig \<Rightarrow> governanceSnapshot option res \<Rightarrow> GovernanceStore res" where
  "NewGovernanceStore config content =
     load_store content
       \<lparr>gs_config = config, gs_currentBlock = cfg_StartBlock config, gs_nextProposal = 0, gs_proposals = fmempty,
        gs_events = [], gs_subscribers = fmempty, gs_nextSubscriber = 0, gs_file = None\<rparr>"

section \<open>Operations\<close>

definition AdvanceBlocks :: "err option \<Rightarrow> u64 \<Rightarrow> GovernanceStore \<Rightarrow> GovernanceStore \<times> u64" where
  "AdvanceBlocks io blocks g =
     (let g' = fst (mutateLocked io (\<lambda>g. (g\<lparr>gs_currentBlock := gs_currentBlock g + blocks\<rparr>, Inr ())) g)
      in (g', gs_currentBlock g'))"

definition SetCurrentBlock :: "err option \<Rightarrow> u64 \<Rightarrow> GovernanceStore \<Rightarrow> GovernanceStore \<times> u64" where
  "SetCurrentBlock io block g =
     (let g' = fst (mutateLocked io (\<lambda>g. (g\<lparr>gs_currentBlock := block\<rparr>, Inr ())) g)
      in (g', gs_currentBlock g'))"

definition statusOf :: "proposalRecord \<Rightarrow> u64 \<Rightarrow> string" where
  "statusOf p currentBlock =
     (if prop_Executed p then ProposalStatusExecuted
      else if prop_Rejected p then ProposalStatusRejected
      else if currentBlock \<le> prop_EndBlock p then ProposalStatusActive
      else ProposalStatusQueued)"

definition summarize :: "proposalRecord \<Rightarrow> u64 \<Rightarrow> ProposalSummary" where
  "summarize p currentBlock =
     \<lparr>ps_ID = prop_ID p, ps_Title = prop_Title p, ps_TargetComponent = prop_TargetComponent p,
      ps_LogicExtension = prop_LogicExtension p, ps_Proposer = prop_Proposer p, ps_ProposerAlias = prop_ProposerAlias p,
      ps_Status = statusOf p currentBlock, ps_DeadlineBlock = prop_EndBlock p, ps_ForVotes = show_int (prop_ForVotes p),
      ps_AgainstVotes = show_int (prop_AgainstVotes p), ps_AbstainVotes = show_int (prop_AbstainVotes p)\<rparr>"

definition new_proposal :: "env \<Rightarrow> ProposalCreateRequest \<Rightarrow> int \<Rightarrow> GovernanceStore \<Rightarrow> proposalRecord" where
  "new_proposal E input stake g =
     \<lparr>prop_ID = gs_nextProposal g + 1, prop_Title = TrimSpace (pc_Title input),
      prop_Proposer = cfg_OperatorAddress (gs_config g),
      prop_ProposerAlias = firstNonEmpty [TrimSpace (pc_ProposerAlias input), cfg_OperatorAlias (gs_config g)],
      prop_TargetComponent = TrimSpace (pc_TargetComponent input), prop_LogicExtension = TrimSpace (pc_LogicExtension input),
      prop_Sector = TrimSpace (ToLower E (pc_Sector input)), prop_MultiplierBPS = pc_MultiplierBPS input, prop_Stake = stake,
      prop_StartBlock = gs_currentBlock g, prop_EndBlock = gs_currentBlock g + GovernanceProposalBlocks,
      prop_ForVotes = 0, prop_AgainstVotes = 0, prop_AbstainVotes = 0,
      prop_Executed = False, prop_Rejected = False, prop_ArchitectCut = 0, prop_BurnAmount = 0\<rparr>"

definition add_proposal :: "proposalRecord \<Rightarrow> GovernanceStore \<Rightarrow> GovernanceStore \<times> ProposalSummary res" where
  "add_proposal p g =
     (g\<lparr>gs_nextProposal := prop_ID p, gs_proposals := fmupd (prop_ID p) p (gs_proposals g)\<rparr>,
      Inr (summarize p (gs_currentBlock g)))"

definition CreateProposal ::
    "env \<Rightarrow> err option \<Rightarrow> ProposalCreateRequest \<Rightarrow> GovernanceStore \<Rightarrow> GovernanceStore \<times> ProposalSummary res" where
  "CreateProposal E io input g =
     (let title = TrimSpace (pc_Title input); target = TrimSpace (pc_TargetComponent input);
          logic = TrimSpace (pc_LogicExtension input); sector = TrimSpace (ToLower E (pc_Sector input)) in
      if title = [] \<or> target = [] \<or> logic = [] \<or> sector = [] \<or> pc_MultiplierBPS input = 0
      then (g, Inl ErrInvalidProposalInput)
      else if \<not> prefix ''UGP-'' title
      then (g, Inl (ErrText ''node: invalid proposal input: title must use UGP-XXX format''))
      else
        (case node_parseBigInt (pc_Stake input) of
           Inl _ \<Rightarrow> (g, Inl (ErrText ''node: invalid proposal input: invalid stake''))
         | Inr stake \<Rightarrow>
             if cloneBigInt (cfg_OperatorVotingPower (gs_config g)) < 1000 \<and> stake < 1000
             then (g, Inl (ErrText ''node: invalid proposal input: proposer must control or stake at least 1000 UFD''))
             else
               mutateLocked io (\<lambda>g. add_proposal (new_proposal E input stake g) g) g))"

definition ListProposals :: "string \<Rightarrow> GovernanceStore \<Rightarrow> ProposalSummary list" where
  "ListProposals statusFilter g =
     exchange_sort ps_ID
       (filter (\<lambda>s. \<not> (statusFilter \<noteq> [] \<and> ps_Status s \<noteq> statusFilter))
         (map (\<lambda>p. summarize p (gs_currentBlock g)) (fm_values (gs_proposals g))))"

definition proposal_error :: "u64 \<Rightarrow> string \<Rightarrow> err" where
  "proposal_error proposalID what = ErrText (''node: proposal '' @ FormatUint proposalID @ what)"

definition add_vote :: "VoteChoice \<Rightarrow> int \<Rightarrow> proposalRecord \<Rightarrow> proposalRecord res" where
  "add_vote choice voteWeight p =
     (if choice = VoteAgainst then Inr (p\<lparr>prop_AgainstVotes := prop_AgainstVotes p + voteWeight\<rparr>)
      else if choice = VoteFor then Inr (p\<lparr>prop_ForVotes := prop_ForVotes p + voteWeight\<rparr>)
      else if choice = VoteAbstain then Inr (p\<lparr>prop_AbstainVotes := prop_AbstainVotes p + voteWeight\<rparr>)
      else Inl ErrInvalidVoteRequest)"

definition CastVote :: "err option \<Rightarrow> u64 \<Rightarrow> VoteChoice \<Rightarrow> GovernanceStore \<Rightarrow> GovernanceStore \<times> unit res" where
  "CastVote io proposalID choice g =
     (case fmlookup (gs_proposals g) proposalID of
        None \<Rightarrow> (g, Inl (proposal_error proposalID '' not found''))
      | Some proposal \<Rightarrow>
          if statusOf proposal (gs_currentBlock g) \<noteq> ProposalStatusActive
          then (g, Inl (proposal_error proposalID '' is not active''))
          else
            mutateLocked io (\<lambda>g.
              case add_vote choice (cloneBigInt (cfg_OperatorVotingPower (gs_config g))) proposal of
                Inl e \<Rightarrow> (g, Inl e)
              | Inr p' \<Rightarrow> (g\<lparr>gs_proposals := fmupd proposalID p' (gs_proposals g)\<rparr>, Inr ())) g)"

definition broadcastEvent :: "GovernanceEvent \<Rightarrow> GovernanceStore \<Rightarrow> GovernanceStore" where
  "broadcastEvent e g =
     g\<lparr>gs_subscribers :=
         fmmap (\<lambda>s. if length (sub_live s) < channel_size then s\<lparr>sub_live := sub_live s @ [e]\<rparr> else s) (gs_subscribers g)\<rparr>"

text \<open>What \<open>FinalizeProposal\<close> decides: more votes for than against, and a quorum of all votes.\<close>

definition passes :: "ServiceConfig \<Rightarrow> proposalRecord \<Rightarrow> bool" where
  "passes c p \<longleftrightarrow>
     prop_AgainstVotes p < prop_ForVotes p
     \<and> quorum_votes c \<le> prop_ForVotes p + prop_AgainstVotes p + prop_AbstainVotes p"

definition finalize_event :: "env \<Rightarrow> u64 \<Rightarrow> proposalRecord \<Rightarrow> GovernanceEvent" where
  "finalize_event E currentBlock p =
     \<lparr>ev_ProposalID = prop_ID p, ev_Sector = prop_Sector p, ev_MultiplierBPS = prop_MultiplierBPS p,
      ev_BlockNumber = currentBlock, ev_TransactionID = governanceTransactionID E (prop_ID p) currentBlock,
      ev_EmittedAt = now E\<rparr>"

definition finalize_mutation :: "env \<Rightarrow> u64 \<Rightarrow> proposalRecord \<Rightarrow> GovernanceStore \<Rightarrow> GovernanceStore \<times> FinalizeResponse res" where
  "finalize_mutation E proposalID p g =
     (let response = \<lparr>fr_ProposalID = prop_ID p, fr_Status = [], fr_CurrentBlock = gs_currentBlock g, fr_ArchitectCut = ''0'',
                      fr_SlashedAmount = ''0'', fr_BurnAmount = ''0'', fr_GovernanceEvent = None\<rparr> in
      if passes (gs_config g) p then
        (let event = finalize_event E (gs_currentBlock g) p in
         (g\<lparr>gs_proposals := fmupd proposalID (p\<lparr>prop_Executed := True\<rparr>) (gs_proposals g), gs_events := gs_events g @ [event]\<rparr>,
          Inr (response\<lparr>fr_Status := ProposalStatusExecuted, fr_GovernanceEvent := Some event\<rparr>)))
      else
        (let cut = ArchitectFee (Some (prop_Stake p)); burn = prop_Stake p - cut in
         (g\<lparr>gs_proposals := fmupd proposalID (p\<lparr>prop_Rejected := True, prop_ArchitectCut := cut, prop_BurnAmount := burn\<rparr>)
              (gs_proposals g)\<rparr>,
          Inr (response\<lparr>fr_Status := ProposalStatusRejected, fr_ArchitectCut := show_int cut,
                        fr_SlashedAmount := show_int (prop_Stake p), fr_BurnAmount := show_int burn\<rparr>))))"

definition FinalizeProposal ::
    "env \<Rightarrow> err option \<Rightarrow> u64 \<Rightarrow> GovernanceStore \<Rightarrow> GovernanceStore \<times> FinalizeResponse res" where
  "FinalizeProposal E io proposalID g =
     (case fmlookup (gs_proposals g) proposalID of
        None \<Rightarrow> (g, Inl (proposal_error proposalID '' not found''))
      | Some proposal \<Rightarrow>
          if gs_currentBlock g \<le> prop_EndBlock proposal
          then (g, Inl (proposal_error proposalID ('' is still active until block '' @ FormatUint (prop_EndBlock proposal))))
          else if prop_Executed proposal \<or> prop_Rejected proposal
          then (g, Inl (proposal_error proposalID '' already finalized''))
          else
            (case mutateLocked io (finalize_mutation E proposalID proposal) g of
               (g', Inl e) \<Rightarrow> (g', Inl e)
             | (g', Inr response) \<Rightarrow>
                 (case fr_GovernanceEvent response of
                    None \<Rightarrow> (g', Inr response)
                  | Some event \<Rightarrow> (broadcastEvent event g', Inr response))))"

definition EventsSince :: "u64 \<Rightarrow> GovernanceStore \<Rightarrow> GovernanceEvent list" where
  "EventsSince fromBlock g = filter (\<lambda>e. \<not> ev_BlockNumber e < fromBlock) (gs_events g)"

section \<open>Subscriptions\<close>

definition SubscribeGovernanceEvents :: "u64 \<Rightarrow> GovernanceStore \<Rightarrow> GovernanceStore \<times> u64" where
  "SubscribeGovernanceEvents fromBlock g =
     (let subscriberID = gs_nextSubscriber g + 1 in
      (g\<lparr>gs_nextSubscriber := subscriberID,
         gs_subscribers := fmupd subscriberID
           \<lparr>sub_historical = filter (\<lambda>e. fromBlock \<le> ev_BlockNumber e) (gs_events g), sub_live = [], sub_hand = None,
            sub_events = []\<rparr> (gs_subscribers g)\<rparr>,
       subscriberID))"

text \<open>
  One step of the goroutine: it forwards the history, then takes an event from \<open>live\<close> and sends it on. It
  does not move while the channel it sends to is full. When the context ends it removes the subscription.
\<close>

definition forward_step :: "subscription \<Rightarrow> subscription" where
  "forward_step s =
     (case sub_historical s of
        e # rest \<Rightarrow>
          if length (sub_events s) < channel_size then s\<lparr>sub_historical := rest, sub_events := sub_events s @ [e]\<rparr> else s
      | [] \<Rightarrow>
          (case sub_hand s of
             Some e \<Rightarrow>
               if length (sub_events s) < channel_size then s\<lparr>sub_hand := None, sub_events := sub_events s @ [e]\<rparr> else s
           | None \<Rightarrow> (case sub_live s of [] \<Rightarrow> s | e # rest \<Rightarrow> s\<lparr>sub_live := rest, sub_hand := Some e\<rparr>)))"

definition forward_subscription :: "u64 \<Rightarrow> GovernanceStore \<Rightarrow> GovernanceStore" where
  "forward_subscription i g =
     (case fmlookup (gs_subscribers g) i of
        None \<Rightarrow> g
      | Some s \<Rightarrow> g\<lparr>gs_subscribers := fmupd i (forward_step s) (gs_subscribers g)\<rparr>)"

definition cancel_subscription :: "u64 \<Rightarrow> GovernanceStore \<Rightarrow> GovernanceStore" where
  "cancel_subscription i g = g\<lparr>gs_subscribers := fmdrop i (gs_subscribers g)\<rparr>"

text \<open>The subscriber takes the next event from its channel.\<close>

definition receive_event :: "u64 \<Rightarrow> GovernanceStore \<Rightarrow> GovernanceStore \<times> GovernanceEvent option" where
  "receive_event i g =
     (case fmlookup (gs_subscribers g) i of
        None \<Rightarrow> (g, None)
      | Some s \<Rightarrow>
          (case sub_events s of
             [] \<Rightarrow> (g, None)
           | e # rest \<Rightarrow> (g\<lparr>gs_subscribers := fmupd i (s\<lparr>sub_events := rest\<rparr>) (gs_subscribers g)\<rparr>, Some e)))"

end
