(* ===== verification/Governance_Laws.thy ===== *)
theory Governance_Laws
  imports Governance_Store Useful_Work
begin

text \<open>
  What the governance store guarantees: its sort is a sort, a failed operation leaves no trace, a restart finds what was there,
  a proposal is decided once and by its votes, and a subscriber that keeps up receives every event.
\<close>

section \<open>The exchange sort\<close>

lemma exchange_pass_spec:
  "exchange_pass key x ys = (m, r) \<Longrightarrow>
     mset (m # r) = mset (x # ys) \<and> key m \<le> key x \<and> (\<forall>y \<in> set ys. key m \<le> key y)"
proof (induction key x ys arbitrary: m r rule: exchange_pass.induct)
  case (2 key x y ys)
  show ?case
  proof (cases "key y < key x")
    case True
    then obtain r' where "exchange_pass key y ys = (m, r')" "r = x # r'" using 2(3) by (auto split: prod.splits)
    with 2(1) [OF True this(1)] True show ?thesis by (auto intro: order_trans)
  next
    case False
    then obtain r' where "exchange_pass key x ys = (m, r')" "r = y # r'" using 2(3) by (auto split: prod.splits)
    with 2(2) [OF False this(1)] False show ?thesis by (auto intro: order_trans)
  qed
qed simp

lemma exchange_sort_spec: "mset (exchange_sort key xs) = mset xs \<and> sorted (map key (exchange_sort key xs))"
proof (induction key xs rule: exchange_sort.induct)
  case (2 key x xs)
  obtain m r where p: "exchange_pass key x xs = (m, r)" by fastforce
  note spec = exchange_pass_spec [OF p] and IH = 2 [OF p [symmetric]]
  have "\<forall>y \<in> set r. key m \<le> key y"
  proof
    fix y assume "y \<in> set r"
    then have "y \<in># mset (x # xs)" using spec by (metis set_mset_mset insertCI list.simps(15) union_iff)
    then show "key m \<le> key y" using spec by auto
  qed
  moreover have "set (exchange_sort key r) = set r" using IH by (metis set_mset_mset)
  ultimately show ?case using spec IH by (simp add: p)
qed simp

lemma exchange_sort_unique:
  assumes "distinct (map key xs)" and "sorted (map key ys)" and "mset xs = mset ys"
  shows "exchange_sort key xs = ys"
proof (rule map_sorted_distinct_set_unique)
  note spec = exchange_sort_spec [of key xs]
  have sets: "set (exchange_sort key xs) = set xs" "set ys = set xs" using spec assms(3) by (metis set_mset_mset)+
  show "inj_on key (set (exchange_sort key xs) \<union> set ys)" using assms(1) by (simp add: sets distinct_map)
  show "sorted (map key (exchange_sort key xs))" "sorted (map key ys)" using spec assms(2) by simp_all
  have "mset (map key (exchange_sort key xs)) = mset (map key xs)" "mset (map key ys) = mset (map key xs)"
    using spec assms(3) by simp_all
  then show "distinct (map key (exchange_sort key xs))" "distinct (map key ys)" using assms(1) mset_eq_imp_distinct_iff by blast+
  show "set (exchange_sort key xs) = set ys" by (simp add: sets)
qed

section \<open>Snapshots\<close>

lemma show_int_nonempty [simp]: "show_int i \<noteq> []"
  by (simp add: show_int_def)

lemma mustParseBigInt_show_int [simp]: "mustParseBigInt (show_int i) = i"
  by (simp add: mustParseBigInt_def node_parseBigInt_def)

lemma snapshot_proposal_inverse [simp]: "snapshot_proposal (proposal_snapshot p) = p"
  by (simp add: snapshot_proposal_def proposal_snapshot_def)

text \<open>Every proposal is stored under its own number.\<close>

definition keyed :: "GovernanceStore \<Rightarrow> bool" where
  "keyed g \<longleftrightarrow> (\<forall>k p. fmlookup (gs_proposals g) k = Some p \<longrightarrow> prop_ID p = k)"

lemma keyed_values:
  assumes "keyed g"
  shows "map prop_ID (fm_values (gs_proposals g)) = sorted_list_of_fset (fmdom (gs_proposals g))"
proof -
  have "(prop_ID \<circ> snd) e = fst e" if "e \<in> set (fm_entries (gs_proposals g))" for e
    using that assms fm_entries_iff [of "fst e" "snd e"] by (simp add: keyed_def)
  then have "map (prop_ID \<circ> snd) (fm_entries (gs_proposals g)) = map fst (fm_entries (gs_proposals g))"
    by (intro map_cong) simp_all
  then show ?thesis by (simp add: fm_values_def fm_entries_fst)
qed

lemma keyed_sorted:
  assumes "keyed g" and "key \<circ> f = prop_ID"
  shows "sorted (map key (map f (fm_values (gs_proposals g)))) \<and> distinct (map key (map f (fm_values (gs_proposals g))))"
  using keyed_values [OF assms(1)] by (simp add: assms(2) sorted_list_of_fset.rep_eq)

lemma snap_ID_snapshot: "snap_ID \<circ> proposal_snapshot = prop_ID"
  by (simp add: fun_eq_iff proposal_snapshot_def)

lemma keyed_snapshots:
  "keyed g \<Longrightarrow> gsn_Proposals (snapshotLocked g) = map proposal_snapshot (fm_values (gs_proposals g))"
  using keyed_sorted [of g, OF _ snap_ID_snapshot] exchange_sort_unique
  by (fastforce simp: snapshotLocked_def)

lemma fold_upd_in:
  "distinct (map key xs) \<Longrightarrow> x \<in> set xs \<Longrightarrow> fmlookup (fold (\<lambda>p m. fmupd (key p) (f p) m) xs m) (key x) = Some (f x)"
proof (induction xs arbitrary: m)
  case (Cons y ys)
  have other: "k \<notin> key ` set ys \<Longrightarrow> fmlookup (fold (\<lambda>p m. fmupd (key p) (f p) m) ys m) k = fmlookup m k" for k m
    by (induction ys arbitrary: m) auto
  with Cons show ?case by auto
qed simp

lemma fold_upd_out: "k \<notin> key ` set xs \<Longrightarrow> fmlookup (fold (\<lambda>p m. fmupd (key p) (f p) m) xs m) k = fmlookup m k"
  by (induction xs arbitrary: m) auto

lemma keyed_restored:
  assumes "keyed g"
  shows "fold (\<lambda>p m. fmupd (snap_ID p) (snapshot_proposal p) m) (gsn_Proposals (snapshotLocked g)) fmempty = gs_proposals g"
    (is "?m = _")
proof (rule fmap_ext)
  fix k
  let ?xs = "map proposal_snapshot (fm_values (gs_proposals g))"
  have dist: "distinct (map snap_ID ?xs)" using keyed_sorted [OF assms snap_ID_snapshot] by simp
  show "fmlookup ?m k = fmlookup (gs_proposals g) k"
  proof (cases "fmlookup (gs_proposals g) k")
    case None
    then have "k \<notin> snap_ID ` set ?xs" using assms by (auto simp: fm_values_iff keyed_def proposal_snapshot_def)
    then show ?thesis by (simp add: keyed_snapshots [OF assms] fold_upd_out None del: set_map)
  next
    case (Some p)
    then have "proposal_snapshot p \<in> set ?xs" using fm_values_iff [of p "gs_proposals g"] by auto
    moreover have "snap_ID (proposal_snapshot p) = k" using Some assms by (simp add: proposal_snapshot_def keyed_def)
    ultimately show ?thesis
      using fold_upd_in [OF dist, of "proposal_snapshot p" snapshot_proposal fmempty] Some
      by (simp add: keyed_snapshots [OF assms])
  qed
qed

text \<open>The block a store continues from when it is restored.\<close>

definition resumed_block :: "GovernanceStore \<Rightarrow> u64" where
  "resumed_block g = (if gs_currentBlock g = 0 then cfg_StartBlock (gs_config g) else gs_currentBlock g)"

lemma restored:
  "keyed g \<Longrightarrow> gs_config h = gs_config g \<Longrightarrow>
     applySnapshotLocked (snapshotLocked g) h
       = h\<lparr>gs_currentBlock := resumed_block g, gs_nextProposal := gs_nextProposal g, gs_proposals := gs_proposals g,
           gs_events := gs_events g\<rparr>"
  using keyed_restored [of g] by (simp add: applySnapshotLocked_def resumed_block_def) (simp add: snapshotLocked_def)

text \<open>
  A mutation either succeeds, and what it wrote is on disk when there is a disk, or it fails, and nothing but a block number of
  zero has changed.
\<close>

definition saved :: "GovernanceStore \<Rightarrow> GovernanceStore" where
  "saved g = (if cfg_StoragePath (gs_config g) = [] then g else g\<lparr>gs_file := Some (snapshotLocked g)\<rparr>)"

definition undone :: "GovernanceStore \<Rightarrow> GovernanceStore \<Rightarrow> bool" where
  "undone g g' \<longleftrightarrow> g' = g \<or> g' = g\<lparr>gs_currentBlock := resumed_block g\<rparr>"

lemma mutate_cases:
  assumes run: "mutateLocked io m g = (g', r)" and "keyed g" and m: "m g = (g1, r1)"
    and frame: "g1 = g\<lparr>gs_currentBlock := gs_currentBlock g1, gs_nextProposal := gs_nextProposal g1,
                      gs_proposals := gs_proposals g1, gs_events := gs_events g1\<rparr>"
    and clean: "\<And>e. r1 = Inl e \<Longrightarrow> g1 = g"
  obtains (Failed) e where "r = Inl e" "undone g g'" | (Done) x where "r = Inr x" "r1 = Inr x" "g' = saved g1"
proof (cases r1)
  case (Inl e)
  then show ?thesis using run m clean by (intro Failed [of e]) (simp_all add: mutateLocked_def undone_def)
next
  case (Inr x)
  have config: "gs_config g1 = gs_config g" by (subst frame) simp
  show ?thesis
  proof (cases "persistLocked io g1")
    case (Inl e)
    have "applySnapshotLocked (snapshotLocked g) g1 = g\<lparr>gs_currentBlock := resumed_block g\<rparr>"
      unfolding restored [OF assms(2) config] by (subst frame) simp
    with Inl \<open>r1 = Inr x\<close> run m show ?thesis by (intro Failed [of e]) (simp_all add: mutateLocked_def undone_def)
  next
    case (Inr g2)
    with \<open>r1 = Inr x\<close> run m show ?thesis
      by (intro Done [of x]) (simp_all add: mutateLocked_def persistLocked_def saved_def split: if_splits option.splits)
  qed
qed

section \<open>Runs of a store\<close>

datatype gov_op =
    Propose ProposalCreateRequest | Vote u64 VoteChoice | Finalize u64 | Advance u64 | SetBlock u64
  | Subscribe u64 | Forward u64 | Receive u64 | Cancel u64 | Restart

text \<open>A restart builds a new store from the configuration and the file.\<close>

definition restarted :: "GovernanceStore \<Rightarrow> GovernanceStore" where
  "restarted g = projr (NewGovernanceStore (gs_config g) (Inr (gs_file g)))"

definition gov_step :: "env \<Rightarrow> err option \<times> gov_op \<Rightarrow> GovernanceStore \<Rightarrow> GovernanceStore" where
  "gov_step E a g =
     (case a of (io, op) \<Rightarrow>
        (case op of
           Propose input \<Rightarrow> fst (CreateProposal E io input g)
         | Vote k choice \<Rightarrow> fst (CastVote io k choice g)
         | Finalize k \<Rightarrow> fst (FinalizeProposal E io k g)
         | Advance n \<Rightarrow> fst (AdvanceBlocks io n g)
         | SetBlock n \<Rightarrow> fst (SetCurrentBlock io n g)
         | Subscribe from \<Rightarrow> fst (SubscribeGovernanceEvents from g)
         | Forward i \<Rightarrow> forward_subscription i g
         | Receive i \<Rightarrow> fst (receive_event i g)
         | Cancel i \<Rightarrow> cancel_subscription i g
         | Restart \<Rightarrow> restarted g))"

text \<open>
  Every proposal is decided at most once and by its votes, a rejected one is split into the architect's cut and what is burned,
  and there is exactly one event for each proposal that passed.
\<close>

definition proposal_ok :: "env \<Rightarrow> ServiceConfig \<Rightarrow> proposalRecord \<Rightarrow> bool" where
  "proposal_ok E c p \<longleftrightarrow>
     prop_Sector p \<noteq> [] \<and> (\<exists>s. prop_Sector p = TrimSpace (ToLower E s)) \<and> prop_MultiplierBPS p \<noteq> 0
     \<and> \<not> (prop_Executed p \<and> prop_Rejected p)
     \<and> (prop_Executed p \<longrightarrow> passes c p)
     \<and> (prop_Rejected p \<longrightarrow> \<not> passes c p \<and> prop_ArchitectCut p = ArchitectFee (Some (prop_Stake p))
          \<and> prop_ArchitectCut p + prop_BurnAmount p = prop_Stake p)
     \<and> (\<exists>f a b. prop_ForVotes p = int f * cloneBigInt (cfg_OperatorVotingPower c)
          \<and> prop_AgainstVotes p = int a * cloneBigInt (cfg_OperatorVotingPower c)
          \<and> prop_AbstainVotes p = int b * cloneBigInt (cfg_OperatorVotingPower c))"

definition event_ok :: "GovernanceStore \<Rightarrow> GovernanceEvent \<Rightarrow> bool" where
  "event_ok g e \<longleftrightarrow>
     (\<exists>p. fmlookup (gs_proposals g) (ev_ProposalID e) = Some p \<and> prop_Executed p \<and> ev_Sector e = prop_Sector p
        \<and> ev_MultiplierBPS e = prop_MultiplierBPS p \<and> prop_EndBlock p < ev_BlockNumber e)"

definition gov_inv :: "env \<Rightarrow> GovernanceStore \<Rightarrow> bool" where
  "gov_inv E g \<longleftrightarrow>
     (\<forall>k p. fmlookup (gs_proposals g) k = Some p \<longrightarrow>
        prop_ID p = k \<and> 0 < unat k \<and> unat k \<le> unat (gs_nextProposal g) \<and> proposal_ok E (gs_config g) p
        \<and> (prop_Executed p \<longrightarrow> (\<exists>e \<in> set (gs_events g). ev_ProposalID e = k)))
     \<and> (\<forall>e \<in> set (gs_events g). event_ok g e) \<and> distinct (map ev_ProposalID (gs_events g))"

text \<open>What a restart would bring back is what is there.\<close>

definition durable :: "GovernanceStore \<Rightarrow> bool" where
  "durable g \<longleftrightarrow>
     (cfg_StoragePath (gs_config g) = [] \<longrightarrow> gs_file g = None)
     \<and> (cfg_StoragePath (gs_config g) \<noteq> [] \<longrightarrow>
          (case gs_file g of
             None \<Rightarrow> gs_proposals g = fmempty \<and> gs_events g = [] \<and> gs_nextProposal g = 0
               \<and> gs_currentBlock g = cfg_StartBlock (gs_config g)
           | Some s \<Rightarrow> gsn_NextProposal s = gs_nextProposal g \<and> gsn_Proposals s = gsn_Proposals (snapshotLocked g)
               \<and> gsn_Events s = gs_events g
               \<and> (if gsn_CurrentBlock s = 0 then cfg_StartBlock (gs_config g) else gsn_CurrentBlock s) = resumed_block g))"

lemma gov_inv_keyed: "gov_inv E g \<Longrightarrow> keyed g"
  by (auto simp: gov_inv_def keyed_def)

lemma gov_inv_frame:
  "gov_inv E h \<Longrightarrow> gs_proposals g = gs_proposals h \<Longrightarrow> gs_events g = gs_events h \<Longrightarrow> gs_nextProposal g = gs_nextProposal h
     \<Longrightarrow> gs_config g = gs_config h \<Longrightarrow> gov_inv E g"
  by (simp add: gov_inv_def event_ok_def)

lemma durable_frame:
  "durable h \<Longrightarrow> gs_proposals g = gs_proposals h \<Longrightarrow> gs_events g = gs_events h \<Longrightarrow> gs_nextProposal g = gs_nextProposal h
     \<Longrightarrow> gs_config g = gs_config h \<Longrightarrow> gs_file g = gs_file h
     \<Longrightarrow> gs_currentBlock g = gs_currentBlock h \<or> gs_currentBlock g = resumed_block h \<Longrightarrow> durable g"
  by (auto simp: durable_def resumed_block_def snapshotLocked_def split: option.splits if_splits)

lemma saved_simps [simp]:
  "gs_proposals (saved g) = gs_proposals g" "gs_events (saved g) = gs_events g" "gs_nextProposal (saved g) = gs_nextProposal g"
  "gs_config (saved g) = gs_config g" "gs_currentBlock (saved g) = gs_currentBlock g" "gs_subscribers (saved g) = gs_subscribers g"
  "gs_nextSubscriber (saved g) = gs_nextSubscriber g"
  by (simp_all add: saved_def)

lemma durable_saved: "durable g \<Longrightarrow> gs_config h = gs_config g \<Longrightarrow> gs_file h = gs_file g \<Longrightarrow> durable (saved h)"
  by (auto simp: durable_def saved_def resumed_block_def snapshotLocked_def)

lemma undone_simps:
  assumes "undone g g'"
  shows "gs_proposals g' = gs_proposals g" "gs_events g' = gs_events g" "gs_nextProposal g' = gs_nextProposal g"
    "gs_config g' = gs_config g" "gs_subscribers g' = gs_subscribers g" "gs_file g' = gs_file g"
    "gs_currentBlock g' = gs_currentBlock g \<or> gs_currentBlock g' = resumed_block g"
  using assms by (auto simp: undone_def)

lemma undone_same [simp]: "undone g g"
  by (simp add: undone_def)

lemma undone_inv: "undone g g' \<Longrightarrow> gov_inv E g \<and> durable g \<Longrightarrow> gov_inv E g' \<and> durable g'"
  using gov_inv_frame [of E g g'] durable_frame [of g g'] undone_simps [of g g'] by auto

text \<open>What each operation does to the proposals and the events.\<close>

lemma create_cases:
  assumes "CreateProposal E io input g = (g', r)" and "keyed g"
  obtains (Failed) e where "r = Inl e" "undone g g'"
  | (Done) p stake where "p = new_proposal E input stake g" "prop_Sector p \<noteq> []" "prop_MultiplierBPS p \<noteq> 0" "r = Inr (summarize p (gs_currentBlock g))"
      "g' = saved (g\<lparr>gs_nextProposal := prop_ID p, gs_proposals := fmupd (prop_ID p) p (gs_proposals g)\<rparr>)"
proof (cases "\<exists>e. r = Inl e \<and> g' = g")
  case True
  then show ?thesis using Failed by auto
next
  case False
  obtain stake where run: "mutateLocked io (\<lambda>g. add_proposal (new_proposal E input stake g) g) g = (g', r)"
    and ok: "TrimSpace (ToLower E (pc_Sector input)) \<noteq> []" "pc_MultiplierBPS input \<noteq> 0"
    using False assms(1) by (auto simp: CreateProposal_def Let_def split: if_splits sum.splits)
  show ?thesis
    by (rule mutate_cases [OF run assms(2) surjective_pairing])
      (use ok in \<open>auto simp: add_proposal_def new_proposal_def intro: Failed Done\<close>)
qed

lemma vote_cases:
  assumes "CastVote io k choice g = (g', r)" and "keyed g"
  obtains (Failed) e where "r = Inl e" "undone g g'"
  | (Done) p p' where "r = Inr ()" "fmlookup (gs_proposals g) k = Some p" "statusOf p (gs_currentBlock g) = ProposalStatusActive"
      "add_vote choice (cloneBigInt (cfg_OperatorVotingPower (gs_config g))) p = Inr p'"
      "g' = saved (g\<lparr>gs_proposals := fmupd k p' (gs_proposals g)\<rparr>)"
proof (cases "fmlookup (gs_proposals g) k")
  case None
  then show ?thesis using assms(1) by (intro Failed) (auto simp: CastVote_def)
next
  case (Some p)
  let ?v = "add_vote choice (cloneBigInt (cfg_OperatorVotingPower (gs_config g))) p"
  show ?thesis
  proof (cases "statusOf p (gs_currentBlock g) = ProposalStatusActive")
    case False
    then show ?thesis using assms(1) Some by (intro Failed) (auto simp: CastVote_def)
  next
    case True
    define f where "f = (\<lambda>g :: GovernanceStore. case add_vote choice (cloneBigInt (cfg_OperatorVotingPower (gs_config g))) p of
        Inl e \<Rightarrow> (g, Inl e) | Inr p' \<Rightarrow> (g\<lparr>gs_proposals := fmupd k p' (gs_proposals g)\<rparr>, Inr () :: unit res))"
    have run: "mutateLocked io f g = (g', r)" using assms(1) Some True by (simp add: CastVote_def f_def)
    obtain g1 r1 where fg: "f g = (g1, r1)" by fastforce
    show ?thesis
      by (rule mutate_cases [OF run assms(2) fg])
        (use fg Some True in \<open>auto simp: f_def split: sum.splits intro: Failed Done\<close>)
  qed
qed

lemma finalize_cases:
  assumes "FinalizeProposal E io k g = (g', r)" and "keyed g"
  obtains (Failed) e where "r = Inl e" "undone g g'"
  | (Passed) p x where "r = Inr x" "fmlookup (gs_proposals g) k = Some p" "prop_EndBlock p < gs_currentBlock g"
      "\<not> prop_Executed p" "\<not> prop_Rejected p" "passes (gs_config g) p"
      "g' = broadcastEvent (finalize_event E (gs_currentBlock g) p)
              (saved (g\<lparr>gs_proposals := fmupd k (p\<lparr>prop_Executed := True\<rparr>) (gs_proposals g),
                        gs_events := gs_events g @ [finalize_event E (gs_currentBlock g) p]\<rparr>))"
      "fr_Status x = ProposalStatusExecuted"
  | (Turned_down) p x where "r = Inr x" "fmlookup (gs_proposals g) k = Some p" "prop_EndBlock p < gs_currentBlock g"
      "\<not> prop_Executed p" "\<not> prop_Rejected p" "\<not> passes (gs_config g) p"
      "g' = saved (g\<lparr>gs_proposals := fmupd k (p\<lparr>prop_Rejected := True, prop_ArchitectCut := ArchitectFee (Some (prop_Stake p)),
              prop_BurnAmount := prop_Stake p - ArchitectFee (Some (prop_Stake p))\<rparr>) (gs_proposals g)\<rparr>)"
      "fr_Status x = ProposalStatusRejected"
proof (cases "\<exists>e. r = Inl e \<and> g' = g")
  case True
  then show ?thesis using Failed by auto
next
  case False
  obtain p where p: "fmlookup (gs_proposals g) k = Some p" "prop_EndBlock p < gs_currentBlock g" "\<not> prop_Executed p" "\<not> prop_Rejected p"
    using False assms(1) by (auto simp: FinalizeProposal_def split: option.splits if_splits)
  obtain h r0 where run: "mutateLocked io (finalize_mutation E k p) g = (h, r0)" by fastforce
  obtain g1 r1 where fg: "finalize_mutation E k p g = (g1, r1)" by fastforce
  have out: "(case r0 of Inl e \<Rightarrow> (h, Inl e)
      | Inr x \<Rightarrow> (case fr_GovernanceEvent x of None \<Rightarrow> (h, Inr x) | Some e \<Rightarrow> (broadcastEvent e h, Inr x))) = (g', r)"
    using assms(1) p run by (auto simp: FinalizeProposal_def linorder_not_le [symmetric] split: sum.splits option.splits)
  show ?thesis
  proof (rule mutate_cases [OF run assms(2) fg])
    fix e assume "r0 = Inl e" "undone g h"
    then show ?thesis using out Failed by auto
  next
    fix x assume x: "r0 = Inr x" "r1 = Inr x" "h = saved g1"
    show ?thesis
    proof (cases "passes (gs_config g) p")
      case True
      with fg x out show ?thesis by (intro Passed [OF _ p True]) (auto simp: finalize_mutation_def Let_def)
    next
      case False
      with fg x out show ?thesis by (intro Turned_down [OF _ p False]) (auto simp: finalize_mutation_def Let_def)
    qed
  qed (use fg in \<open>auto simp: finalize_mutation_def Let_def split: if_splits\<close>)
qed

lemma restarted_durable:
  assumes "keyed g" and "durable g" and "cfg_StoragePath (gs_config g) \<noteq> []"
  shows "restarted g = g\<lparr>gs_currentBlock := resumed_block g, gs_subscribers := fmempty, gs_nextSubscriber := 0\<rparr>"
  using assms keyed_restored [of g]
  by (auto simp: restarted_def NewGovernanceStore_def load_store_def durable_def applySnapshotLocked_def resumed_block_def
      split: option.splits if_splits intro!: GovernanceStore.equality)

lemma inv_update:
  assumes "gov_inv E g" and "fmlookup (gs_proposals g) k = Some p" and "proposal_ok E (gs_config g) p'"
    and "prop_ID p' = prop_ID p" "prop_Sector p' = prop_Sector p" "prop_MultiplierBPS p' = prop_MultiplierBPS p"
      "prop_EndBlock p' = prop_EndBlock p" "prop_Executed p' = prop_Executed p"
  shows "gov_inv E (g\<lparr>gs_proposals := fmupd k p' (gs_proposals g)\<rparr>)"
  using assms unfolding gov_inv_def event_ok_def by (auto split: if_splits)

lemma inv_create:
  assumes "gov_inv E g" and "unat (gs_nextProposal g) + 1 < 2 ^ 64" and p: "p = new_proposal E input stake g"
    and ok: "prop_Sector p \<noteq> []" "prop_MultiplierBPS p \<noteq> 0"
  shows "gov_inv E (g\<lparr>gs_nextProposal := prop_ID p, gs_proposals := fmupd (prop_ID p) p (gs_proposals g)\<rparr>)"
proof -
  have k: "unat (prop_ID p) = unat (gs_nextProposal g) + 1"
    using assms(2) by (simp add: p new_proposal_def unat_word_ariths)
  then have "fmlookup (gs_proposals g) (prop_ID p) = None"
    using assms(1) unfolding gov_inv_def by (metis Suc_eq_plus1 not_None_eq not_less_eq_eq le_refl)
  moreover have ok: "proposal_ok E (gs_config g) p" "\<not> prop_Executed p"
    using ok by (auto simp: p new_proposal_def proposal_ok_def intro: exI [of _ 0])
  ultimately have "event_ok (g\<lparr>gs_nextProposal := prop_ID p, gs_proposals := fmupd (prop_ID p) p (gs_proposals g)\<rparr>) e"
    if "e \<in> set (gs_events g)" for e
    using assms(1) that unfolding gov_inv_def event_ok_def by (auto dest!: bspec)
  moreover have "0 < unat q \<and> unat q \<le> unat (prop_ID p)" if "fmlookup (gs_proposals g) q = Some r" for q r
    using assms(1) k that unfolding gov_inv_def by (metis Suc_eq_plus1 le_SucI)
  ultimately show ?thesis
    using assms(1) k ok unfolding gov_inv_def by auto
qed

lemma inv_pass:
  assumes "gov_inv E g" and "fmlookup (gs_proposals g) k = Some p" and "\<not> prop_Executed p" "\<not> prop_Rejected p"
    and "passes (gs_config g) p" "prop_EndBlock p < gs_currentBlock g"
  shows "gov_inv E (g\<lparr>gs_proposals := fmupd k (p\<lparr>prop_Executed := True\<rparr>) (gs_proposals g),
                     gs_events := gs_events g @ [finalize_event E (gs_currentBlock g) p]\<rparr>)"
proof -
  have ok: "proposal_ok E (gs_config g) p" "prop_ID p = k" using assms(1,2) by (auto simp: gov_inv_def)
  then have "proposal_ok E (gs_config g) (p\<lparr>prop_Executed := True\<rparr>)" using assms(4,5) by (simp add: proposal_ok_def passes_def)
  moreover have "k \<notin> ev_ProposalID ` set (gs_events g)"
    using assms(1-3) unfolding gov_inv_def event_ok_def by (metis imageE option.inject)
  ultimately show ?thesis
    using assms ok unfolding gov_inv_def event_ok_def by (auto simp: finalize_event_def)
qed

lemma add_vote_kept:
  "add_vote choice w p = Inr p' \<Longrightarrow>
     prop_ID p' = prop_ID p \<and> prop_Sector p' = prop_Sector p \<and> prop_MultiplierBPS p' = prop_MultiplierBPS p
     \<and> prop_EndBlock p' = prop_EndBlock p \<and> prop_Executed p' = prop_Executed p \<and> prop_Rejected p' = prop_Rejected p"
  by (auto simp: add_vote_def split: if_splits)

lemma add_vote_ok:
  assumes "add_vote choice (cloneBigInt (cfg_OperatorVotingPower c)) p = Inr p'" "proposal_ok E c p" "\<not> prop_Executed p" "\<not> prop_Rejected p"
  shows "proposal_ok E c p'"
proof -
  let ?w = "cloneBigInt (cfg_OperatorVotingPower c)"
  have more: "\<exists>m. int n * ?w + ?w = int m * ?w" for n
    by (rule exI [of _ "Suc n"]) (simp add: algebra_simps)
  from assms show ?thesis
    by (auto simp: add_vote_def proposal_ok_def more split: if_splits)
qed

text \<open>What a step keeps, and how far it moves the counter of proposals.\<close>

definition sound :: "env \<Rightarrow> GovernanceStore \<Rightarrow> bool" where
  "sound E g \<longleftrightarrow> gov_inv E g \<and> durable g"

definition advances :: "GovernanceStore \<Rightarrow> GovernanceStore \<Rightarrow> bool" where
  "advances g g' \<longleftrightarrow> gs_config g' = gs_config g \<and> unat (gs_nextProposal g') \<le> unat (gs_nextProposal g) + 1"

lemma sound_keyed: "sound E g \<Longrightarrow> keyed g"
  using gov_inv_keyed by (auto simp: sound_def)

lemma undone_sound: "undone g g' \<Longrightarrow> sound E g \<Longrightarrow> sound E g' \<and> advances g g'"
  using undone_inv [of g g' E] undone_simps [of g g'] by (simp add: sound_def advances_def)

lemma saved_sound:
  "gov_inv E h \<Longrightarrow> sound E g \<Longrightarrow> gs_config h = gs_config g \<Longrightarrow> gs_file h = gs_file g
     \<Longrightarrow> unat (gs_nextProposal h) \<le> unat (gs_nextProposal g) + 1 \<Longrightarrow> sound E (saved h) \<and> advances g (saved h)"
  using gov_inv_frame [of E h "saved h"] durable_saved [of g h] by (simp add: sound_def advances_def)

lemma subscriptions_sound:
  "sound E g \<Longrightarrow> sound E (gs_subscribers_update f g) \<and> advances g (gs_subscribers_update f g)"
  "sound E g \<Longrightarrow> sound E (gs_nextSubscriber_update f' g) \<and> advances g (gs_nextSubscriber_update f' g)"
  using gov_inv_frame [of E g "gs_subscribers_update f g"] durable_frame [of g "gs_subscribers_update f g"]
    gov_inv_frame [of E g "gs_nextSubscriber_update f' g"] durable_frame [of g "gs_nextSubscriber_update f' g"]
  by (simp_all add: sound_def advances_def)

lemma restart_sound:
  assumes "sound E g"
  shows "sound E (restarted g) \<and> advances g (restarted g)"
proof (cases "cfg_StoragePath (gs_config g) = []")
  case True
  then show ?thesis
    by (simp add: restarted_def NewGovernanceStore_def load_store_def sound_def gov_inv_def durable_def advances_def)
next
  case False
  then have "restarted g = g\<lparr>gs_currentBlock := resumed_block g, gs_subscribers := fmempty, gs_nextSubscriber := 0\<rparr>"
    using assms restarted_durable [OF sound_keyed [OF assms]] by (simp add: sound_def)
  then show ?thesis
    using assms gov_inv_frame [of E g "restarted g"] durable_frame [of g "restarted g"] by (simp add: sound_def advances_def)
qed

lemma block_sound:
  assumes "sound E g" "mutateLocked io (\<lambda>g. (g\<lparr>gs_currentBlock := f g\<rparr>, Inr ())) g = (g', r)"
  shows "sound E g' \<and> advances g g'"
proof (rule mutate_cases [OF assms(2) sound_keyed [OF assms(1)] refl])
  assume "g' = saved (g\<lparr>gs_currentBlock := f g\<rparr>)"
  then show ?thesis
    using assms(1) gov_inv_frame [of E g "g\<lparr>gs_currentBlock := f g\<rparr>"] saved_sound [of E "g\<lparr>gs_currentBlock := f g\<rparr>" g] by (simp add: sound_def)
qed (auto dest: undone_sound [OF _ assms(1)])

lemma step_sound:
  assumes "sound E g" and "unat (gs_nextProposal g) + 1 < 2 ^ 64"
  shows "sound E (gov_step E (io, op) g) \<and> advances g (gov_step E (io, op) g)"
proof (cases op)
  case (Propose input)
  obtain g' r where run: "CreateProposal E io input g = (g', r)" by fastforce
  show ?thesis
  proof (rule create_cases [OF run sound_keyed [OF assms(1)]])
    fix p stake assume p: "p = new_proposal E input stake g" and ok: "prop_Sector p \<noteq> []" "prop_MultiplierBPS p \<noteq> 0"
      and g': "g' = saved (g\<lparr>gs_nextProposal := prop_ID p, gs_proposals := fmupd (prop_ID p) p (gs_proposals g)\<rparr>)"
    have "unat (prop_ID p) \<le> unat (gs_nextProposal g) + 1" using assms(2) by (simp add: p new_proposal_def unat_word_ariths)
    then show ?thesis
      using inv_create [OF _ assms(2) p ok] assms(1) run g' Propose saved_sound [OF _ assms(1)] by (simp add: gov_step_def sound_def)
  qed (use run Propose undone_sound [OF _ assms(1)] in \<open>simp add: gov_step_def\<close>)
next
  case (Vote k choice)
  obtain g' r where run: "CastVote io k choice g = (g', r)" by fastforce
  show ?thesis
  proof (rule vote_cases [OF run sound_keyed [OF assms(1)]])
    fix p p' assume p: "fmlookup (gs_proposals g) k = Some p" "statusOf p (gs_currentBlock g) = ProposalStatusActive"
      "add_vote choice (cloneBigInt (cfg_OperatorVotingPower (gs_config g))) p = Inr p'"
      and g': "g' = saved (g\<lparr>gs_proposals := fmupd k p' (gs_proposals g)\<rparr>)"
    have undecided: "\<not> prop_Executed p" "\<not> prop_Rejected p"
      using p(2) by (auto simp: statusOf_def ProposalStatusActive_def ProposalStatusExecuted_def ProposalStatusRejected_def split: if_splits)
    have "proposal_ok E (gs_config g) p" using assms(1) p(1) by (auto simp: sound_def gov_inv_def)
    then have "gov_inv E (g\<lparr>gs_proposals := fmupd k p' (gs_proposals g)\<rparr>)"
      using assms(1) inv_update [OF _ p(1) add_vote_ok [OF p(3) _ undecided]] add_vote_kept [OF p(3)] by (simp add: sound_def)
    then show ?thesis using run g' Vote saved_sound [OF _ assms(1)] by (simp add: gov_step_def)
  qed (use run Vote undone_sound [OF _ assms(1)] in \<open>simp add: gov_step_def\<close>)
next
  case (Finalize k)
  obtain g' r where run: "FinalizeProposal E io k g = (g', r)" by fastforce
  have inv: "gov_inv E g" using assms(1) by (simp add: sound_def)
  show ?thesis
  proof (rule finalize_cases [OF run sound_keyed [OF assms(1)]])
    fix p assume p: "fmlookup (gs_proposals g) k = Some p" "prop_EndBlock p < gs_currentBlock g"
      "\<not> prop_Executed p" "\<not> prop_Rejected p" "passes (gs_config g) p"
      and g': "g' = broadcastEvent (finalize_event E (gs_currentBlock g) p)
        (saved (g\<lparr>gs_proposals := fmupd k (p\<lparr>prop_Executed := True\<rparr>) (gs_proposals g),
          gs_events := gs_events g @ [finalize_event E (gs_currentBlock g) p]\<rparr>))" (is "_ = broadcastEvent ?e (saved ?h)")
    have *: "sound E (saved ?h) \<and> advances g (saved ?h)"
      using inv_pass [OF inv p(1,3,4,5,2)] saved_sound [OF _ assms(1)] by simp
    then have "sound E g' \<and> advances (saved ?h) g'" unfolding g' broadcastEvent_def by (intro subscriptions_sound) simp
    with * show ?thesis using run Finalize by (simp add: gov_step_def advances_def g' broadcastEvent_def)
  next
    fix p assume p: "fmlookup (gs_proposals g) k = Some p" "\<not> prop_Executed p" "\<not> passes (gs_config g) p"
      and g': "g' = saved (g\<lparr>gs_proposals := fmupd k (p\<lparr>prop_Rejected := True, prop_ArchitectCut := ArchitectFee (Some (prop_Stake p)),
        prop_BurnAmount := prop_Stake p - ArchitectFee (Some (prop_Stake p))\<rparr>) (gs_proposals g)\<rparr>)" (is "_ = saved (g\<lparr>gs_proposals := fmupd k ?p _\<rparr>)")
    have "proposal_ok E (gs_config g) p" using inv p(1) by (auto simp: gov_inv_def)
    then have "proposal_ok E (gs_config g) ?p" using p(2,3) by (simp add: proposal_ok_def passes_def)
    then have "gov_inv E (g\<lparr>gs_proposals := fmupd k ?p (gs_proposals g)\<rparr>)" by (intro inv_update [OF inv p(1)]) simp_all
    then show ?thesis using run g' Finalize saved_sound [OF _ assms(1)] by (simp add: gov_step_def)
  qed (use run Finalize undone_sound [OF _ assms(1)] in \<open>simp add: gov_step_def\<close>)
next
  case (Advance n)
  then show ?thesis
    using block_sound [OF assms(1), of io "\<lambda>g. gs_currentBlock g + n"]
    by (cases "mutateLocked io (\<lambda>g. (g\<lparr>gs_currentBlock := gs_currentBlock g + n\<rparr>, Inr ())) g :: GovernanceStore \<times> unit res")
      (simp add: gov_step_def AdvanceBlocks_def Let_def)
next
  case (SetBlock n)
  then show ?thesis
    using block_sound [OF assms(1), of io "\<lambda>_. n"]
    by (cases "mutateLocked io (\<lambda>g. (g\<lparr>gs_currentBlock := n\<rparr>, Inr ())) g :: GovernanceStore \<times> unit res")
      (simp add: gov_step_def SetCurrentBlock_def Let_def)
next
  case (Subscribe b)
  then show ?thesis
    using subscriptions_sound(1) subscriptions_sound(2) [OF assms(1)]
    by (simp add: gov_step_def SubscribeGovernanceEvents_def Let_def advances_def)
next
  case Restart
  then show ?thesis using restart_sound [OF assms(1)] by (simp add: gov_step_def)
qed (use assms(1) subscriptions_sound in \<open>auto simp: gov_step_def forward_subscription_def receive_event_def cancel_subscription_def advances_def
  split: option.splits list.splits\<close>)

section \<open>Reachable stores\<close>

lemma gov_steps_sound:
  assumes "sound E g" and "unat (gs_nextProposal g) + length acts < 2 ^ 64"
  shows "sound E (fold (gov_step E) acts g) \<and> gs_config (fold (gov_step E) acts g) = gs_config g
    \<and> unat (gs_nextProposal (fold (gov_step E) acts g)) \<le> unat (gs_nextProposal g) + length acts"
  using assms
proof (induction acts arbitrary: g)
  case (Cons a acts)
  obtain io op where a: "a = (io, op)" by fastforce
  have "sound E (gov_step E a g) \<and> advances g (gov_step E a g)" unfolding a using Cons.prems by (intro step_sound) simp_all
  with Cons.IH [of "gov_step E a g"] Cons.prems show ?case by (simp add: advances_def)
qed simp

text \<open>The stores a service can reach: it normalises its configuration and starts with an empty directory.\<close>

definition gov_run :: "env \<Rightarrow> ServiceConfig \<Rightarrow> (err option \<times> gov_op) list \<Rightarrow> GovernanceStore" where
  "gov_run E c acts = fold (gov_step E) acts (projr (NewGovernanceStore (normalizeConfig c) (Inr None)))"

lemma new_store_sound: "NewGovernanceStore c (Inr None) = Inr g \<Longrightarrow> sound E g \<and> gs_config g = c \<and> gs_nextProposal g = 0"
  by (cases "cfg_StoragePath c = []") (auto simp: NewGovernanceStore_def load_store_def sound_def gov_inv_def durable_def)

lemma gov_run_sound:
  assumes "length acts < 2 ^ 64"
  shows "sound E (gov_run E c acts)" and "gs_config (gov_run E c acts) = normalizeConfig c"
    and "unat (gs_nextProposal (gov_run E c acts)) \<le> length acts"
proof -
  obtain g0 where g0: "NewGovernanceStore (normalizeConfig c) (Inr None) = Inr g0"
    by (auto simp: NewGovernanceStore_def load_store_def)
  note new_store_sound [OF g0]
  moreover from this have "unat (gs_nextProposal g0) + length acts < 2 ^ 64" using assms by simp
  ultimately show "sound E (gov_run E c acts)" "gs_config (gov_run E c acts) = normalizeConfig c"
    "unat (gs_nextProposal (gov_run E c acts)) \<le> length acts"
    using gov_steps_sound [of E g0 acts] by (simp_all add: gov_run_def g0)
qed

lemma length_filter_key: "distinct (map f xs) \<Longrightarrow> length (filter (\<lambda>x. f x = k) xs) = (if k \<in> f ` set xs then 1 else 0)"
  by (induction xs) auto

lemma new_store_total: "\<exists>g. NewGovernanceStore c (Inr f) = Inr g"
  by (cases f) (simp_all add: NewGovernanceStore_def load_store_def)

lemma events_once:
  assumes "gov_inv E g" and "fmlookup (gs_proposals g) k = Some p"
  shows "length (filter (\<lambda>e. ev_ProposalID e = k) (gs_events g)) = (if prop_Executed p then 1 else 0)"
proof -
  have "prop_Executed p \<longleftrightarrow> k \<in> ev_ProposalID ` set (gs_events g)"
  proof
    assume "prop_Executed p"
    then show "k \<in> ev_ProposalID ` set (gs_events g)" using assms unfolding gov_inv_def by (metis imageI)
  next
    assume "k \<in> ev_ProposalID ` set (gs_events g)"
    then obtain e where "ev_ProposalID e = k" "event_ok g e" using assms(1) by (auto simp: gov_inv_def)
    then show "prop_Executed p" using assms(2) by (auto simp: event_ok_def)
  qed
  then show ?thesis using assms(1) by (simp add: gov_inv_def length_filter_key)
qed


lemma failure_undone:
  "keyed g \<Longrightarrow> CreateProposal E io input g = (h, Inl e) \<Longrightarrow> undone g h"
  "keyed g \<Longrightarrow> CastVote io k choice g = (h, Inl e) \<Longrightarrow> undone g h"
  "keyed g \<Longrightarrow> FinalizeProposal E io k g = (h, Inl e) \<Longrightarrow> undone g h"
  by (erule (1) create_cases vote_cases finalize_cases; simp)+

text \<open>
  C29: A store with a file survives a restart: the store a new process builds from the file has
  the same proposals, events and counter, and the same block unless the block is 0, in which case
  it starts from the configured one. An operation that reports an error, a failed write included, has changed none of them.
\<close>

theorem store_survives_restart:
  assumes "length acts < 2 ^ 64" and "g = gov_run E c acts" and "cfg_StoragePath c \<noteq> []"
  shows "(\<exists>g'. NewGovernanceStore (gs_config g) (Inr (gs_file g)) = Inr g' \<and> gs_proposals g' = gs_proposals g
         \<and> gs_events g' = gs_events g \<and> gs_nextProposal g' = gs_nextProposal g
         \<and> gs_currentBlock g' = (if gs_currentBlock g = 0 then cfg_StartBlock c else gs_currentBlock g))
    \<and> (\<forall>io input k choice g' e.
         CreateProposal E io input g = (g', Inl e) \<or> CastVote io k choice g = (g', Inl e) \<or> FinalizeProposal E io k g = (g', Inl e) \<longrightarrow>
         gs_proposals g' = gs_proposals g \<and> gs_events g' = gs_events g \<and> gs_nextProposal g' = gs_nextProposal g
         \<and> gs_file g' = gs_file g \<and> gs_currentBlock g' = (if gs_currentBlock g = 0 then gs_currentBlock g' else gs_currentBlock g))"
proof -
  note s = gov_run_sound [OF assms(1), of E c, folded assms(2)]
  have path: "cfg_StoragePath (gs_config g) \<noteq> []" and start: "cfg_StartBlock (gs_config g) = cfg_StartBlock c"
    using s(2) assms(3) by (simp_all add: normalizeConfig_def)
  obtain g' where g': "NewGovernanceStore (gs_config g) (Inr (gs_file g)) = Inr g'" using new_store_total by blast
  have "restarted g = g'" by (simp add: restarted_def g')
  then have 1: "g' = g\<lparr>gs_currentBlock := resumed_block g, gs_subscribers := fmempty, gs_nextSubscriber := 0\<rparr>"
    using restarted_durable [OF sound_keyed [OF s(1)] _ path] s(1) by (simp add: sound_def)
  have "gs_proposals h = gs_proposals g \<and> gs_events h = gs_events g \<and> gs_nextProposal h = gs_nextProposal g
      \<and> gs_file h = gs_file g \<and> gs_currentBlock h = (if gs_currentBlock g = 0 then gs_currentBlock h else gs_currentBlock g)"
    if "undone g h" for h
    using undone_simps [OF that] by (auto simp: resumed_block_def)
  then have 2: "\<forall>io input k choice h e.
      CreateProposal E io input g = (h, Inl e) \<or> CastVote io k choice g = (h, Inl e) \<or> FinalizeProposal E io k g = (h, Inl e) \<longrightarrow>
      gs_proposals h = gs_proposals g \<and> gs_events h = gs_events g \<and> gs_nextProposal h = gs_nextProposal g
      \<and> gs_file h = gs_file g \<and> gs_currentBlock h = (if gs_currentBlock g = 0 then gs_currentBlock h else gs_currentBlock g)"
    using failure_undone [OF sound_keyed [OF s(1)]] by blast
  show ?thesis
    by (rule conjI [OF _ 2], rule exI [of _ g']) (simp add: g' 1 start resumed_block_def)
qed

section \<open>Decisions\<close>

definition decided :: "proposalRecord \<Rightarrow> bool" where
  "decided p \<longleftrightarrow> prop_Executed p \<or> prop_Rejected p"

lemma active_undecided: "statusOf p b = ProposalStatusActive \<longleftrightarrow> \<not> decided p \<and> b \<le> prop_EndBlock p"
  by (auto simp: decided_def statusOf_def ProposalStatusActive_def ProposalStatusExecuted_def ProposalStatusRejected_def
      ProposalStatusQueued_def)

lemma block_kept:
  assumes "keyed g"
  shows "gs_proposals (fst (mutateLocked io (\<lambda>g. (g\<lparr>gs_currentBlock := f g\<rparr>, Inr () :: unit res)) g)) = gs_proposals g"
proof -
  obtain g' r where run: "mutateLocked io (\<lambda>g. (g\<lparr>gs_currentBlock := f g\<rparr>, Inr ())) g = (g', r :: unit res)" by fastforce
  show ?thesis unfolding run fst_conv
  proof (rule mutate_cases [OF run assms refl])
    assume "undone g g'"
    then show "gs_proposals g' = gs_proposals g" by (rule undone_simps(1))
  next
    assume "g' = saved (g\<lparr>gs_currentBlock := f g\<rparr>)"
    then show "gs_proposals g' = gs_proposals g" by simp
  qed simp_all
qed

lemma step_decided:
  assumes "sound E g" and "unat (gs_nextProposal g) + 1 < 2 ^ 64" and "cfg_StoragePath (gs_config g) \<noteq> []"
    and p: "fmlookup (gs_proposals g) k = Some p" "decided p"
  shows "fmlookup (gs_proposals (gov_step E (io, op) g)) k = Some p"
proof (cases op)
  case (Propose input)
  obtain g' r where run: "CreateProposal E io input g = (g', r)" by fastforce
  have "unat k \<le> unat (gs_nextProposal g)" using assms(1) p(1) by (auto simp: sound_def gov_inv_def)
  moreover have "unat (gs_nextProposal g + 1) = unat (gs_nextProposal g) + 1" using assms(2) by (simp add: unat_word_ariths)
  ultimately have "prop_ID (new_proposal E input stake g) \<noteq> k" for stake by (auto simp: new_proposal_def)
  with run show ?thesis
    by (cases rule: create_cases [OF run sound_keyed [OF assms(1)]])
      (auto simp: Propose gov_step_def p(1) dest: undone_simps(1))
next
  case (Vote j choice)
  obtain g' r where run: "CastVote io j choice g = (g', r)" by fastforce
  then show ?thesis
    by (cases rule: vote_cases [OF run sound_keyed [OF assms(1)]])
      (use p in \<open>auto simp: Vote gov_step_def active_undecided dest: undone_simps(1)\<close>)
next
  case (Finalize j)
  obtain g' r where run: "FinalizeProposal E io j g = (g', r)" by fastforce
  then show ?thesis
    by (cases rule: finalize_cases [OF run sound_keyed [OF assms(1)]])
      (use p in \<open>auto simp: Finalize gov_step_def decided_def broadcastEvent_def dest: undone_simps(1)\<close>)
next
  case (Advance n)
  then show ?thesis using block_kept [OF sound_keyed [OF assms(1)]] p(1) by (simp add: gov_step_def AdvanceBlocks_def Let_def)
next
  case (SetBlock n)
  then show ?thesis using block_kept [OF sound_keyed [OF assms(1)]] p(1) by (simp add: gov_step_def SetCurrentBlock_def Let_def)
next
  case Restart
  then show ?thesis
    using restarted_durable [OF sound_keyed [OF assms(1)] _ assms(3)] assms(1) p(1) by (simp add: gov_step_def sound_def)
qed (simp_all add: p(1) gov_step_def SubscribeGovernanceEvents_def Let_def forward_subscription_def receive_event_def
    cancel_subscription_def split: option.split list.split)

text \<open>
  C30: A decision is final: no later operation, failure or restart changes a proposal that was
  executed or rejected, and voting on it or finalising it again is refused.
\<close>

theorem decision_final:
  assumes "length (acts @ later) < 2 ^ 64" and "cfg_StoragePath c \<noteq> []"
    and "fmlookup (gs_proposals (gov_run E c acts)) k = Some p" and "prop_Executed p \<or> prop_Rejected p"
    and "g = gov_run E c (acts @ later)"
  shows "fmlookup (gs_proposals g) k = Some p
    \<and> (\<exists>e. CastVote io k choice g = (g, Inl e)) \<and> (\<exists>e. FinalizeProposal E io k g = (g, Inl e))"
proof -
  let ?g = "gov_run E c acts"
  have len: "length acts < 2 ^ 64" using assms(1) by simp
  note s = gov_run_sound [OF len, of E c]
  have "fmlookup (gs_proposals (fold (gov_step E) later h)) k = Some p"
    if "sound E h" "unat (gs_nextProposal h) + length later < 2 ^ 64" "gs_config h = normalizeConfig c"
      "fmlookup (gs_proposals h) k = Some p" for h
    using that
  proof (induction later arbitrary: h)
    case (Cons a later)
    obtain io op where a: "a = (io, op)" by fastforce
    have "sound E (gov_step E a h) \<and> advances h (gov_step E a h)" unfolding a using Cons.prems by (intro step_sound) simp_all
    moreover have "fmlookup (gs_proposals (gov_step E a h)) k = Some p"
      unfolding a using Cons.prems assms(2,4) by (intro step_decided) (simp_all add: decided_def normalizeConfig_def)
    ultimately show ?case using Cons.IH [of "gov_step E a h"] Cons.prems by (simp add: advances_def)
  qed simp
  from this [of ?g] have "fmlookup (gs_proposals g) k = Some p"
    using s assms(1,3,5) by (simp add: gov_run_def)
  then show ?thesis
    using assms(4) by (auto simp: CastVote_def FinalizeProposal_def active_undecided decided_def)
qed

lemma mutate_saves: "m g = (g1, Inr x) \<Longrightarrow> mutateLocked None m g = (saved g1, Inr x)"
  by (simp add: mutateLocked_def persistLocked_def saved_def)

lemma vote_for_counts:
  assumes "fmlookup (gs_proposals g) k = Some p" "statusOf p (gs_currentBlock g) = ProposalStatusActive"
  shows "fst (CastVote None k VoteFor g)
    = saved (g\<lparr>gs_proposals := fmupd k (p\<lparr>prop_ForVotes := prop_ForVotes p + cloneBigInt (cfg_OperatorVotingPower (gs_config g))\<rparr>)
        (gs_proposals g)\<rparr>)"
  using assms by (simp add: CastVote_def add_vote_def VoteAgainst_def VoteFor_def mutate_saves)

lemma votes_add_up:
  assumes "fmlookup (gs_proposals g) k = Some p" "statusOf p (gs_currentBlock g) = ProposalStatusActive"
    and "w = cloneBigInt (cfg_OperatorVotingPower (gs_config g))"
  shows "\<exists>h. ((\<lambda>h. fst (CastVote None k VoteFor h)) ^^ n) g = h \<and> gs_config h = gs_config g \<and> gs_currentBlock h = gs_currentBlock g
    \<and> fmlookup (gs_proposals h) k = Some (p\<lparr>prop_ForVotes := prop_ForVotes p + int n * w\<rparr>)"
proof (induction n)
  case (Suc n)
  then obtain h where h: "((\<lambda>h. fst (CastVote None k VoteFor h)) ^^ n) g = h" "gs_config h = gs_config g"
    "gs_currentBlock h = gs_currentBlock g" "fmlookup (gs_proposals h) k = Some (p\<lparr>prop_ForVotes := prop_ForVotes p + int n * w\<rparr>)" by blast
  have "statusOf (p\<lparr>prop_ForVotes := prop_ForVotes p + int n * w\<rparr>) (gs_currentBlock h) = ProposalStatusActive"
    using assms(2) h(3) by (simp add: active_undecided decided_def)
  from vote_for_counts [OF h(4) this] h show ?case by (simp add: assms(3) algebra_simps)
qed (use assms in simp)

lemma finalize_decides:
  assumes "fmlookup (gs_proposals g) k = Some p" "\<not> decided p" "prop_EndBlock p < gs_currentBlock g"
  shows "\<exists>x. snd (FinalizeProposal E None k g) = Inr x
    \<and> fr_Status x = (if passes (gs_config g) p then ProposalStatusExecuted else ProposalStatusRejected)"
proof -
  obtain g1 x where m: "finalize_mutation E k p g = (g1, Inr x)"
    and x: "fr_Status x = (if passes (gs_config g) p then ProposalStatusExecuted else ProposalStatusRejected)"
    by (cases "passes (gs_config g) p") (simp_all add: finalize_mutation_def Let_def)
  have "mutateLocked None (finalize_mutation E k p) g = (saved g1, Inr x)" by (rule mutate_saves, rule m)
  with x show ?thesis
    using assms by (auto simp: FinalizeProposal_def decided_def linorder_not_le [symmetric] split: option.splits)
qed

text \<open>
  The operator decides alone: nothing records who has voted, so \<open>n\<close> votes of the one operator count \<open>n\<close>
  times its voting power. Whatever was voted against a proposal before, some number of repeated votes executes it.
\<close>

theorem operator_decides_alone:
  assumes "length acts < 2 ^ 64" and "g = gov_run E c acts" and "fmlookup (gs_proposals g) k = Some p"
    and "statusOf p (gs_currentBlock g) = ProposalStatusActive" and "prop_EndBlock p < b"
    and "w = cloneBigInt (cfg_OperatorVotingPower (gs_config g))"
    and "voted = (\<lambda>n. ((\<lambda>h. fst (CastVote None k VoteFor h)) ^^ n) g)"
    and "result = (\<lambda>n. snd (FinalizeProposal E None k (fst (SetCurrentBlock None b (voted n)))))"
  shows "(\<forall>n. \<exists>x. result n = Inr x \<and>
           (fr_Status x = ProposalStatusExecuted \<longleftrightarrow>
              prop_AgainstVotes p < prop_ForVotes p + int n * w
              \<and> QuorumVotes g \<le> prop_ForVotes p + int n * w + prop_AgainstVotes p + prop_AbstainVotes p))
    \<and> (\<exists>n x. result n = Inr x \<and> fr_Status x = ProposalStatusExecuted)"
proof -
  have one: "\<exists>x. result n = Inr x \<and> (fr_Status x = ProposalStatusExecuted \<longleftrightarrow>
      prop_AgainstVotes p < prop_ForVotes p + int n * w
      \<and> QuorumVotes g \<le> prop_ForVotes p + int n * w + prop_AgainstVotes p + prop_AbstainVotes p)" for n
  proof -
    let ?p = "p\<lparr>prop_ForVotes := prop_ForVotes p + int n * w\<rparr>"
    obtain h where h: "voted n = h" "gs_config h = gs_config g" "fmlookup (gs_proposals h) k = Some ?p"
      using votes_add_up [OF assms(3,4,6), of n] assms(7) by auto
    define h' where "h' = fst (SetCurrentBlock None b h)"
    have h': "gs_config h' = gs_config g" "gs_currentBlock h' = b" "fmlookup (gs_proposals h') k = Some ?p"
      using h(2,3) by (simp_all add: h'_def SetCurrentBlock_def Let_def mutate_saves)
    have "\<not> decided ?p" using assms(4) active_undecided [of p "gs_currentBlock g"] by (simp add: decided_def)
    from finalize_decides [OF h'(3) this, of E] h' h(1) assms(5,8) show ?thesis
      by (auto simp: passes_def QuorumVotes_def h'_def ProposalStatusExecuted_def ProposalStatusRejected_def split: if_splits)
  qed
  have "1 \<le> w"
    using gov_run_sound(2) [OF assms(1), of E c] assms(2,6) by (auto simp: normalizeConfig_def cloneBigInt_def split: option.split)
  define n where "n = nat (\<bar>prop_AgainstVotes p\<bar> + \<bar>prop_ForVotes p\<bar> + \<bar>prop_AbstainVotes p\<bar> + \<bar>QuorumVotes g\<bar> + 1)"
  have "int n \<le> int n * w" using mult_left_mono [OF \<open>1 \<le> w\<close>, of "int n"] by simp
  moreover have "\<bar>prop_AgainstVotes p\<bar> + \<bar>prop_ForVotes p\<bar> + \<bar>prop_AbstainVotes p\<bar> + \<bar>QuorumVotes g\<bar> + 1 = int n"
    by (simp add: n_def)
  ultimately have "prop_AgainstVotes p < prop_ForVotes p + int n * w"
    "QuorumVotes g \<le> prop_ForVotes p + int n * w + prop_AgainstVotes p + prop_AbstainVotes p"
    by linarith+
  with one [of n] one show ?thesis by blast
qed

section \<open>A concrete store\<close>

definition gov_env :: env where
  "gov_env = toy_env\<lparr>uni_to_lower := map lower_char\<rparr>"

lemma gov_env_lower: "ToLower gov_env s = map lower_char s"
  by (simp add: ToLower_def gov_env_def)

definition toy_config :: ServiceConfig where
  "toy_config = \<lparr>cfg_HTTPAddress = [], cfg_StoragePath = ''g'', cfg_StartBlock = 1, cfg_CirculatingSupply = Some 10000,
     cfg_OperatorAddress = [], cfg_OperatorAlias = [], cfg_OperatorVotingPower = Some 5000\<rparr>"

definition toy_request :: ProposalCreateRequest where
  "toy_request = \<lparr>pc_Title = ''UGP-1'', pc_ProposerAlias = [], pc_TargetComponent = ''p'', pc_LogicExtension = ''l'',
     pc_Sector = ''.Edu'', pc_MultiplierBPS = 15000, pc_Stake = ''7''\<rparr>"

definition toy_decision :: "(err option \<times> gov_op) list" where
  "toy_decision = [(None, Propose toy_request), (None, Vote 1 VoteFor), (None, SetBlock 50000), (None, Finalize 1)]"

text \<open>Steps whose writes succeed, for symbolic evaluation.\<close>

lemma propose_step:
  assumes "TrimSpace (pc_Title r) = pc_Title r" "prefix ''UGP-'' (pc_Title r)" "TrimSpace (pc_TargetComponent r) \<noteq> []"
    "TrimSpace (pc_LogicExtension r) \<noteq> []" "TrimSpace (ToLower E (pc_Sector r)) \<noteq> []" "pc_MultiplierBPS r \<noteq> 0"
    "node_parseBigInt (pc_Stake r) = Inr stake" "1000 \<le> cloneBigInt (cfg_OperatorVotingPower (gs_config g))"
  shows "gov_step E (None, Propose r) g = saved (fst (add_proposal (new_proposal E r stake g) g))"
proof -
  have "add_proposal (new_proposal E r stake g) g
      = (fst (add_proposal (new_proposal E r stake g) g), Inr (summarize (new_proposal E r stake g) (gs_currentBlock g)))"
    by (simp add: add_proposal_def)
  from mutate_saves [where m = "\<lambda>g. add_proposal (new_proposal E r stake g) g", OF this]
  show ?thesis using assms by (auto simp: gov_step_def CreateProposal_def Let_def)
qed

lemma set_block_step: "gov_step E (None, SetBlock n) g = saved (g\<lparr>gs_currentBlock := n\<rparr>)"
  by (simp add: gov_step_def SetCurrentBlock_def Let_def mutate_saves)

lemma vote_step:
  assumes "fmlookup (gs_proposals g) k = Some p" "statusOf p (gs_currentBlock g) = ProposalStatusActive"
    "add_vote choice (cloneBigInt (cfg_OperatorVotingPower (gs_config g))) p = Inr p'"
  shows "gov_step E (None, Vote k choice) g = saved (g\<lparr>gs_proposals := fmupd k p' (gs_proposals g)\<rparr>)"
  using assms by (simp add: gov_step_def CastVote_def mutate_saves)

lemma finalize_pass_step:
  assumes "fmlookup (gs_proposals g) k = Some p" "\<not> decided p" "prop_EndBlock p < gs_currentBlock g" "passes (gs_config g) p"
  shows "gov_step E (None, Finalize k) g = broadcastEvent (finalize_event E (gs_currentBlock g) p)
    (saved (g\<lparr>gs_proposals := fmupd k (p\<lparr>prop_Executed := True\<rparr>) (gs_proposals g),
              gs_events := gs_events g @ [finalize_event E (gs_currentBlock g) p]\<rparr>))"
proof -
  let ?x = "\<lparr>fr_ProposalID = prop_ID p, fr_Status = ProposalStatusExecuted, fr_CurrentBlock = gs_currentBlock g, fr_ArchitectCut = ''0'',
    fr_SlashedAmount = ''0'', fr_BurnAmount = ''0'', fr_GovernanceEvent = Some (finalize_event E (gs_currentBlock g) p)\<rparr>"
  let ?g = "g\<lparr>gs_proposals := fmupd k (p\<lparr>prop_Executed := True\<rparr>) (gs_proposals g),
    gs_events := gs_events g @ [finalize_event E (gs_currentBlock g) p]\<rparr>"
  have "finalize_mutation E k p g = (?g, Inr ?x)" using assms(4) by (simp add: finalize_mutation_def Let_def)
  then have "mutateLocked None (finalize_mutation E k p) g = (saved ?g, Inr ?x)" by (rule mutate_saves)
  with assms show ?thesis by (simp add: gov_step_def FinalizeProposal_def decided_def)
qed

lemma toy_trims:
  "TrimSpace ''UGP-1'' = ''UGP-1''" "TrimSpace ''p'' = ''p''" "TrimSpace ''l'' = ''l''" "TrimSpace ''.edu'' = ''.edu''"
  "TrimSpace ''7'' = ''7''" "TrimSpace ''local-operator'' = ''local-operator''"
  by (simp_all add: TrimSpace_visible visible_def byte_def)

lemma toy_request_valid:
  "TrimSpace (ToLower gov_env ''.Edu'') = ''.edu''" "node_parseBigInt ''7'' = Inr 7"
proof -
  have "char_of (101 :: nat) = CHR ''e''" by code_simp
  then have "ToLower gov_env ''.Edu'' = ''.edu''" by (simp add: gov_env_lower lower_char_def byte_def)
  then show "TrimSpace (ToLower gov_env ''.Edu'') = ''.edu''" by (simp add: toy_trims)
  have "SetString ''7'' = Some 7" by code_simp
  then show "node_parseBigInt ''7'' = Inr 7" by (simp add: node_parseBigInt_def toy_trims)
qed

definition toy_proposal :: proposalRecord where
  "toy_proposal = \<lparr>prop_ID = 1, prop_Title = ''UGP-1'', prop_Proposer = ''UFI_LOCAL_OPERATOR'', prop_ProposerAlias = ''local-operator'',
     prop_TargetComponent = ''p'', prop_LogicExtension = ''l'', prop_Sector = ''.edu'', prop_MultiplierBPS = 15000, prop_Stake = 7,
     prop_StartBlock = 1, prop_EndBlock = 40321, prop_ForVotes = 0, prop_AgainstVotes = 0, prop_AbstainVotes = 0,
     prop_Executed = False, prop_Rejected = False, prop_ArchitectCut = 0, prop_BurnAmount = 0\<rparr>"

lemma toy_config_normal:
  "cfg_OperatorAddress (normalizeConfig toy_config) = ''UFI_LOCAL_OPERATOR''"
  "cfg_OperatorAlias (normalizeConfig toy_config) = ''local-operator''"
  "cfg_StoragePath (normalizeConfig toy_config) = ''g''" "cfg_StartBlock (normalizeConfig toy_config) = 1"
  "cloneBigInt (cfg_OperatorVotingPower (normalizeConfig toy_config)) = 5000" "quorum_votes (normalizeConfig toy_config) = 1000"
  by (simp_all add: toy_config_def normalizeConfig_def cloneBigInt_def quorum_votes_def GovernanceQuorumBPS_def BasisPoints_def)

lemma toy_propose:
  assumes "gs_config g = normalizeConfig toy_config" "gs_nextProposal g = 0" "gs_currentBlock g = 1"
  shows "gov_step gov_env (None, Propose toy_request) g
    = saved (g\<lparr>gs_nextProposal := 1, gs_proposals := fmupd 1 toy_proposal (gs_proposals g)\<rparr>)"
proof -
  have "new_proposal gov_env toy_request 7 g = toy_proposal"
    using assms by (simp add: new_proposal_def toy_proposal_def toy_request_def toy_request_valid toy_config_normal
        toy_trims GovernanceProposalBlocks_def)
  moreover have "gov_step gov_env (None, Propose toy_request) g = saved (fst (add_proposal (new_proposal gov_env toy_request 7 g) g))"
    using assms(1) by (intro propose_step)
      (simp_all add: toy_request_def toy_request_valid toy_config_normal toy_trims)
  ultimately show ?thesis by (simp add: add_proposal_def toy_proposal_def)
qed

lemma toy_active: "\<not> decided toy_proposal" "prop_EndBlock toy_proposal = 40321" "prop_AgainstVotes toy_proposal = 0"
  by (simp_all add: toy_proposal_def decided_def)

definition toy_store :: GovernanceStore where
  "toy_store = projr (NewGovernanceStore (normalizeConfig toy_config) (Inr None))"

lemma toy_store:
  "gs_config toy_store = normalizeConfig toy_config" "gs_nextProposal toy_store = 0" "gs_currentBlock toy_store = 1"
  "gs_proposals toy_store = fmempty" "gs_events toy_store = []" "gs_subscribers toy_store = fmempty" "gs_nextSubscriber toy_store = 0"
  by (simp_all add: toy_store_def NewGovernanceStore_def load_store_def toy_config_normal)

definition toy_passed :: "GovernanceStore \<Rightarrow> GovernanceStore" where
  "toy_passed g =
     (let p = toy_proposal\<lparr>prop_ForVotes := 5000\<rparr>; e = finalize_event gov_env 50000 p;
          g1 = saved (g\<lparr>gs_nextProposal := 1, gs_proposals := fmupd 1 toy_proposal (gs_proposals g)\<rparr>);
          g2 = saved (g1\<lparr>gs_proposals := fmupd 1 p (gs_proposals g1)\<rparr>);
          g3 = saved (g2\<lparr>gs_currentBlock := 50000\<rparr>)
      in broadcastEvent e (saved (g3\<lparr>gs_proposals := fmupd 1 (p\<lparr>prop_Executed := True\<rparr>) (gs_proposals g3), gs_events := gs_events g3 @ [e]\<rparr>)))"

lemma toy_steps:
  assumes "gs_config g = normalizeConfig toy_config" "gs_nextProposal g = 0" "gs_currentBlock g = 1"
  shows "fold (gov_step gov_env) toy_decision g = toy_passed g"
    and "fmlookup (gs_proposals (fold (gov_step gov_env) [(None, Propose toy_request), (None, Vote 1 VoteAgainst)] g)) 1
      = Some (toy_proposal\<lparr>prop_AgainstVotes := 5000\<rparr>)"
    and "gs_currentBlock (fold (gov_step gov_env) [(None, Propose toy_request), (None, Vote 1 VoteAgainst)] g) = 1"
proof -
  have w: "cloneBigInt (cfg_OperatorVotingPower (gs_config g)) = 5000" "cfg_StoragePath (gs_config g) \<noteq> []"
    using assms(1) by (simp_all add: toy_config_normal)
  have p: "passes (gs_config g) (toy_proposal\<lparr>prop_ForVotes := 5000\<rparr>)"
    using assms(1) by (simp add: passes_def toy_config_normal) (simp add: toy_proposal_def)
  have v: "add_vote VoteFor 5000 toy_proposal = Inr (toy_proposal\<lparr>prop_ForVotes := 5000\<rparr>)"
    "add_vote VoteAgainst 5000 toy_proposal = Inr (toy_proposal\<lparr>prop_AgainstVotes := 5000\<rparr>)"
    by (simp_all add: add_vote_def VoteFor_def VoteAgainst_def toy_proposal_def)
  have active: "statusOf toy_proposal 1 = ProposalStatusActive" using toy_active by (simp add: active_undecided)
  let ?g1 = "saved (g\<lparr>gs_nextProposal := 1, gs_proposals := fmupd 1 toy_proposal (gs_proposals g)\<rparr>)"
  have vote: "gov_step gov_env (None, Vote 1 choice) ?g1 = saved (?g1\<lparr>gs_proposals := fmupd 1 p' (gs_proposals ?g1)\<rparr>)"
    if "add_vote choice 5000 toy_proposal = Inr p'" for choice p'
    using that assms w active by (intro vote_step) simp_all
  let ?p = "toy_proposal\<lparr>prop_ForVotes := 5000\<rparr>"
  have undecided: "\<not> decided ?p" "prop_EndBlock ?p < 50000" using toy_active by (simp_all add: decided_def)
  let ?g3 = "saved (saved (?g1\<lparr>gs_proposals := fmupd 1 ?p (gs_proposals ?g1)\<rparr>)\<lparr>gs_currentBlock := 50000\<rparr>)"
  have "gov_step gov_env (None, Finalize 1) ?g3 = broadcastEvent (finalize_event gov_env 50000 ?p)
    (saved (?g3\<lparr>gs_proposals := fmupd 1 (?p\<lparr>prop_Executed := True\<rparr>) (gs_proposals ?g3),
       gs_events := gs_events ?g3 @ [finalize_event gov_env 50000 ?p]\<rparr>))"
    using finalize_pass_step [of ?g3 1 ?p gov_env] undecided p by simp
  then show "fold (gov_step gov_env) toy_decision g = toy_passed g"
    by (simp add: toy_decision_def toy_passed_def Let_def toy_propose [OF assms] vote [OF v(1)] set_block_step)
  show "fmlookup (gs_proposals (fold (gov_step gov_env) [(None, Propose toy_request), (None, Vote 1 VoteAgainst)] g)) 1
      = Some (toy_proposal\<lparr>prop_AgainstVotes := 5000\<rparr>)"
    "gs_currentBlock (fold (gov_step gov_env) [(None, Propose toy_request), (None, Vote 1 VoteAgainst)] g) = 1"
    by (simp_all add: toy_propose [OF assms] vote [OF v(2)] assms(3))
qed

lemma toy_executed:
  "\<exists>p. fmlookup (gs_proposals (gov_run gov_env toy_config toy_decision)) 1 = Some p \<and> prop_Executed p"
  "gs_currentBlock (gov_run gov_env toy_config toy_decision) = 50000"
  "\<exists>p. fmlookup (gs_proposals (gov_run gov_env toy_config [(None, Propose toy_request), (None, Vote 1 VoteAgainst)])) 1 = Some p
     \<and> statusOf p 1 = ProposalStatusActive \<and> prop_EndBlock p = 40321"
  "gs_currentBlock (gov_run gov_env toy_config [(None, Propose toy_request), (None, Vote 1 VoteAgainst)]) = 1"
  using toy_steps [OF toy_store(1-3)] toy_active
  by (simp_all add: gov_run_def toy_store_def [symmetric] toy_passed_def Let_def broadcastEvent_def active_undecided decided_def)

lemma toy_length: "length toy_decision = 4"
  by (simp add: toy_decision_def)


theorem store_survives_restart_witness:
  "\<exists>g'. NewGovernanceStore (gs_config (gov_run gov_env toy_config toy_decision)) (Inr (gs_file (gov_run gov_env toy_config toy_decision)))
       = Inr g' \<and> gs_currentBlock g' = 50000"
proof -
  have "cfg_StoragePath toy_config \<noteq> []" by (simp add: toy_config_def)
  from store_survives_restart [OF _ refl this, of toy_decision gov_env] show ?thesis
    using toy_executed(2) by (auto simp: toy_length)
qed

theorem decision_final_witness:
  "\<exists>p. prop_Executed p
     \<and> fmlookup (gs_proposals (gov_run gov_env toy_config (toy_decision @ [(None, Restart), (None, Vote 1 VoteAgainst)]))) 1 = Some p"
proof -
  obtain p where p: "fmlookup (gs_proposals (gov_run gov_env toy_config toy_decision)) 1 = Some p" "prop_Executed p"
    using toy_executed(1) by auto
  from decision_final [OF _ _ p(1) _ refl, of "[(None, Restart), (None, Vote 1 VoteAgainst)]"] p(2) show ?thesis
    by (simp add: toy_length toy_config_def)
qed

theorem operator_decides_alone_witness:
  "\<exists>n x. snd (FinalizeProposal gov_env None 1 (fst (SetCurrentBlock None 50000
       (((\<lambda>h. fst (CastVote None 1 VoteFor h)) ^^ n) (gov_run gov_env toy_config [(None, Propose toy_request), (None, Vote 1 VoteAgainst)])))))
     = Inr x \<and> fr_Status x = ProposalStatusExecuted"
proof -
  let ?g = "gov_run gov_env toy_config [(None, Propose toy_request), (None, Vote 1 VoteAgainst)]"
  obtain p where p: "fmlookup (gs_proposals ?g) 1 = Some p" "statusOf p 1 = ProposalStatusActive" "prop_EndBlock p = 40321"
    using toy_executed(3) by auto
  then have "statusOf p (gs_currentBlock ?g) = ProposalStatusActive" "prop_EndBlock p < 50000" by (simp_all add: toy_executed(4))
  from operator_decides_alone [OF _ refl p(1) this refl refl refl] show ?thesis by simp
qed

end
