(* ===== verification/Governance_Events.thy ===== *)
theory Governance_Events
  imports Governance_Laws
begin

text \<open>
  From a decision to the priority rules: what a subscription of the governance store delivers to the listener, in any
  interleaving of the store's operations with the steps of the goroutine that forwards the events.
\<close>

section \<open>What is still to be delivered\<close>

definition in_transit :: "subscription \<Rightarrow> GovernanceEvent list" where
  "in_transit s = sub_events s @ sub_historical s @ (case sub_hand s of None \<Rightarrow> [] | Some e \<Rightarrow> [e]) @ sub_live s"

definition sub_ok :: "subscription \<Rightarrow> bool" where
  "sub_ok s \<longleftrightarrow> (sub_historical s \<noteq> [] \<longrightarrow> sub_hand s = None)"

lemma forward_step_transit [simp]: "sub_ok s \<Longrightarrow> in_transit (forward_step s) = in_transit s"
  by (auto simp: forward_step_def in_transit_def sub_ok_def split: list.split option.split)

lemma forward_step_ok [simp]: "sub_ok s \<Longrightarrow> sub_ok (forward_step s)"
  by (auto simp: forward_step_def sub_ok_def split: list.split option.split)

definition pushed :: "GovernanceEvent \<Rightarrow> subscription \<Rightarrow> subscription" where
  "pushed e s = (if length (sub_live s) < channel_size then s\<lparr>sub_live := sub_live s @ [e]\<rparr> else s)"

lemma broadcast_pushes: "fmlookup (gs_subscribers (broadcastEvent e g)) i = map_option (pushed e) (fmlookup (gs_subscribers g) i)"
  by (simp add: broadcastEvent_def pushed_def [abs_def])

lemma pushed_ok: "sub_ok s \<Longrightarrow> sub_ok (pushed e s)"
  by (simp add: pushed_def sub_ok_def)

lemma pushed_transit: "length (in_transit s) < channel_size \<Longrightarrow> in_transit (pushed e s) = in_transit s @ [e]"
  by (simp add: pushed_def in_transit_def split: option.splits)

section \<open>Watching one subscription\<close>

text \<open>The state of a store beside the events the subscriber \<open>i\<close> has taken from its channel, oldest first.\<close>

definition watch_step ::
    "env \<Rightarrow> u64 \<Rightarrow> err option \<times> gov_op \<Rightarrow> GovernanceStore \<times> GovernanceEvent list \<Rightarrow> GovernanceStore \<times> GovernanceEvent list" where
  "watch_step E i a w =
     (case w of (g, got) \<Rightarrow>
        (gov_step E a g,
         if snd a = Receive i then got @ (case snd (receive_event i g) of None \<Rightarrow> [] | Some e \<Rightarrow> [e]) else got))"

definition watched :: "u64 \<Rightarrow> GovernanceStore \<Rightarrow> subscription" where
  "watched i g = the (fmlookup (gs_subscribers g) i)"

text \<open>The log of a subscription: \<open>past\<close> is the history it started with, \<open>n\<close> the number of events before it.\<close>

definition delivers :: "u64 \<Rightarrow> GovernanceEvent list \<Rightarrow> nat \<Rightarrow> GovernanceStore \<times> GovernanceEvent list \<Rightarrow> bool" where
  "delivers i past n w \<longleftrightarrow>
     (case w of (g, got) \<Rightarrow>
        (\<exists>s. fmlookup (gs_subscribers g) i = Some s \<and> sub_ok s \<and> got @ in_transit s = past @ drop n (gs_events g))
        \<and> unat i \<le> unat (gs_nextSubscriber g) \<and> n \<le> length (gs_events g))"

definition quiet :: "GovernanceStore \<Rightarrow> GovernanceStore \<Rightarrow> bool" where
  "quiet g g' \<longleftrightarrow> gs_subscribers g' = gs_subscribers g \<and> gs_events g' = gs_events g \<and> gs_nextSubscriber g' = gs_nextSubscriber g"

lemma undone_quiet: "undone g g' \<Longrightarrow> quiet g g'"
  by (auto simp: undone_def quiet_def)

lemma block_quiet:
  assumes "keyed g"
  shows "quiet g (fst (mutateLocked io (\<lambda>g. (g\<lparr>gs_currentBlock := f g\<rparr>, Inr () :: unit res)) g))"
proof -
  obtain g' r where run: "mutateLocked io (\<lambda>g. (g\<lparr>gs_currentBlock := f g\<rparr>, Inr ())) g = (g', r :: unit res)" by fastforce
  show ?thesis unfolding run fst_conv
  proof (rule mutate_cases [OF run assms refl])
    assume "g' = saved (g\<lparr>gs_currentBlock := f g\<rparr>)"
    then show "quiet g g'" by (simp add: quiet_def)
  qed (simp_all add: undone_quiet)
qed

lemma quiet_steps:
  assumes "keyed g" and "case op of Propose _ \<Rightarrow> True | Vote _ _ \<Rightarrow> True | Advance _ \<Rightarrow> True | SetBlock _ \<Rightarrow> True | _ \<Rightarrow> False"
  shows "quiet g (gov_step E (io, op) g)"
proof (cases op)
  case (Propose input)
  obtain g' r where run: "CreateProposal E io input g = (g', r)" by fastforce
  then show ?thesis
    by (cases rule: create_cases [OF run assms(1)]) (auto simp: Propose gov_step_def quiet_def dest: undone_quiet)
next
  case (Vote j choice)
  obtain g' r where run: "CastVote io j choice g = (g', r)" by fastforce
  then show ?thesis
    by (cases rule: vote_cases [OF run assms(1)]) (auto simp: Vote gov_step_def quiet_def dest: undone_quiet)
qed (use assms block_quiet in \<open>simp_all add: gov_step_def AdvanceBlocks_def SetCurrentBlock_def Let_def\<close>)

lemma finalize_step:
  assumes "keyed g"
  shows "quiet g (gov_step E (io, Finalize k) g)
    \<or> (\<exists>e. gs_events (gov_step E (io, Finalize k) g) = gs_events g @ [e]
         \<and> gs_nextSubscriber (gov_step E (io, Finalize k) g) = gs_nextSubscriber g
         \<and> (\<forall>i. fmlookup (gs_subscribers (gov_step E (io, Finalize k) g)) i = map_option (pushed e) (fmlookup (gs_subscribers g) i)))"
proof -
  obtain g' r where run: "FinalizeProposal E io k g = (g', r)" by fastforce
  then show ?thesis
    by (cases rule: finalize_cases [OF run assms])
      (auto simp: gov_step_def quiet_def broadcast_pushes dest: undone_quiet, auto simp: broadcastEvent_def)
qed

text \<open>A step that leaves the subscription in place extends its log by what it emits.\<close>

lemma watch_delivers:
  assumes "sound E (fst w)" and "delivers i past n w"
    and "op \<noteq> Restart" "op \<noteq> Cancel i" and "length (in_transit (watched i (fst w))) < channel_size"
    and "unat (gs_nextSubscriber (fst w)) + 1 < 2 ^ 64"
  shows "delivers i past n (watch_step E i (io, op) w)
    \<and> unat (gs_nextSubscriber (fst (watch_step E i (io, op) w))) \<le> unat (gs_nextSubscriber (fst w)) + 1"
proof -
  obtain g got where w: "w = (g, got)" by fastforce
  note k = sound_keyed [OF assms(1), unfolded w fst_conv]
  have calm: "delivers i past n (g', got)" if "quiet g g'" for g' using that assms(2) by (simp add: delivers_def quiet_def w)
  obtain s where s: "fmlookup (gs_subscribers g) i = Some s" "sub_ok s" "got @ in_transit s = past @ drop n (gs_events g)"
    "unat i \<le> unat (gs_nextSubscriber g)" "n \<le> length (gs_events g)" using assms(2) by (auto simp: delivers_def w)
  show ?thesis
  proof (cases op)
    case (Subscribe b)
    have "unat (gs_nextSubscriber g + 1) = unat (gs_nextSubscriber g) + 1" using assms(6) by (simp add: w unat_word_ariths)
    moreover from this have "gs_nextSubscriber g + 1 \<noteq> i" using s(4) by auto
    ultimately show ?thesis
      using s by (simp add: Subscribe w watch_step_def gov_step_def SubscribeGovernanceEvents_def Let_def delivers_def)
  next
    case (Forward j)
    show ?thesis
      using s by (auto simp: Forward w watch_step_def gov_step_def forward_subscription_def delivers_def split: option.split)
  next
    case (Receive j)
    have "in_transit (s\<lparr>sub_events := r\<rparr>) = tl (in_transit s)" if "sub_events s = e # r" for e r
      using that by (simp add: in_transit_def)
    with s show ?thesis
      by (auto simp: Receive w watch_step_def gov_step_def receive_event_def delivers_def sub_ok_def in_transit_def
          split: option.split list.split)
  next
    case (Cancel j)
    then show ?thesis using s assms(4) by (auto simp: w watch_step_def gov_step_def cancel_subscription_def delivers_def)
  next
    case (Finalize j)
    have room: "length (in_transit s) < channel_size" using assms(5) s(1) by (simp add: w watched_def)
    from finalize_step [OF k, of E io j] show ?thesis
    proof (elim disjE exE conjE)
      fix e assume e: "gs_events (gov_step E (io, Finalize j) g) = gs_events g @ [e]"
        "gs_nextSubscriber (gov_step E (io, Finalize j) g) = gs_nextSubscriber g"
        "\<forall>i. fmlookup (gs_subscribers (gov_step E (io, Finalize j) g)) i = map_option (pushed e) (fmlookup (gs_subscribers g) i)"
      then show ?thesis
        using s by (simp add: Finalize w watch_step_def delivers_def pushed_ok pushed_transit [OF room])
    qed (use calm in \<open>auto simp: Finalize w watch_step_def quiet_def\<close>)
  qed (use quiet_steps [of g op E io] k calm assms(3) in \<open>auto simp: w watch_step_def quiet_def\<close>)
qed

lemma watch_run:
  assumes "sound E (fst w)" and "delivers i past n w" and "\<forall>a \<in> set later. snd a \<noteq> Restart \<and> snd a \<noteq> Cancel i"
    and "\<forall>k < length later. length (in_transit (watched i (fst (fold (watch_step E i) (take k later) w)))) < channel_size"
    and "unat (gs_nextSubscriber (fst w)) + length later < 2 ^ 64" and "unat (gs_nextProposal (fst w)) + length later < 2 ^ 64"
  shows "sound E (fst (fold (watch_step E i) later w)) \<and> delivers i past n (fold (watch_step E i) later w)"
  using assms
proof (induction later arbitrary: w)
  case (Cons a later)
  obtain io op where a: "a = (io, op)" by fastforce
  have fst: "fst (watch_step E i a w) = gov_step E a (fst w)" by (simp add: watch_step_def split_beta)
  have "sound E (gov_step E a (fst w)) \<and> advances (fst w) (gov_step E a (fst w))"
    unfolding a using Cons.prems by (intro step_sound) simp_all
  moreover have "delivers i past n (watch_step E i a w)
      \<and> unat (gs_nextSubscriber (fst (watch_step E i a w))) \<le> unat (gs_nextSubscriber (fst w)) + 1"
    unfolding a using Cons.prems(4) [rule_format, of 0] Cons.prems a by (intro watch_delivers) simp_all
  moreover have "length (in_transit (watched i (fst (fold (watch_step E i) (take k later) (watch_step E i a w))))) < channel_size"
    if "k < length later" for k using Cons.prems(4) [rule_format, of "Suc k"] that by simp
  ultimately show ?case
    using Cons.IH [of "watch_step E i a w"] Cons.prems by (simp add: fst advances_def)
qed simp

section \<open>Receiving everything\<close>

lemma forward_fills: "sub_ok s \<Longrightarrow> in_transit s \<noteq> [] \<Longrightarrow> sub_events (forward_step (forward_step s)) \<noteq> []"
  by (auto simp: forward_step_def in_transit_def sub_ok_def channel_size_def split: list.splits option.splits)

lemma receive_round:
  assumes "fmlookup (gs_subscribers g) i = Some s" "sub_ok s" "in_transit s \<noteq> []"
  shows "\<exists>g' s'. fold (watch_step E i) [(None, Forward i), (None, Forward i), (None, Receive i)] (g, got) = (g', got @ [hd (in_transit s)])
    \<and> fmlookup (gs_subscribers g') i = Some s' \<and> sub_ok s' \<and> in_transit s' = tl (in_transit s) \<and> gs_events g' = gs_events g"
proof -
  let ?t = "forward_step (forward_step s)"
  obtain e r where er: "sub_events ?t = e # r" using forward_fills [OF assms(2,3)] by (cases "sub_events ?t") auto
  have t: "in_transit ?t = in_transit s" "sub_ok ?t" using assms(2) by simp_all
  moreover have "in_transit ?t = e # in_transit (?t\<lparr>sub_events := r\<rparr>)" "sub_ok ?t \<Longrightarrow> sub_ok (?t\<lparr>sub_events := r\<rparr>)"
    using er by (simp_all add: in_transit_def sub_ok_def)
  ultimately have "in_transit s = e # in_transit (?t\<lparr>sub_events := r\<rparr>)" "sub_ok (?t\<lparr>sub_events := r\<rparr>)" by simp_all
  then show ?thesis
    using er assms(1) by (simp add: watch_step_def gov_step_def forward_subscription_def receive_event_def)
qed

lemma receive_all:
  assumes "fmlookup (gs_subscribers g) i = Some s" "sub_ok s"
  shows "\<exists>acts g'. set acts \<subseteq> {(None, Forward i), (None, Receive i)} \<and> fold (watch_step E i) acts (g, got) = (g', got @ in_transit s)"
  using assms
proof (induction "in_transit s" arbitrary: g got s)
  case Nil
  then show ?case by (intro exI [of _ "[]"]) simp
next
  case (Cons e es)
  let ?r = "[(None, Forward i), (None, Forward i), (None, Receive i)]"
  obtain g' s' where r: "fold (watch_step E i) ?r (g, got) = (g', got @ [e])"
    "fmlookup (gs_subscribers g') i = Some s'" "sub_ok s'" "in_transit s' = es"
    using receive_round [of g i s E got] Cons.prems Cons.hyps(2) by (metis list.distinct(1) list.sel(1,3))
  from Cons.hyps(1) [OF r(4) [symmetric] r(2,3), of "got @ [e]"]
  obtain acts g'' where "set acts \<subseteq> {(None, Forward i), (None, Receive i)}"
    "fold (watch_step E i) acts (g', got @ [e]) = (g'', got @ [e] @ in_transit s')" by auto
  moreover have "got @ [e] @ in_transit s' = got @ in_transit s" using r(4) Cons.hyps(2) by simp
  ultimately show ?case using r(1) by (intro exI [of _ "?r @ acts"] exI [of _ g'']) auto
qed

section \<open>The rules that follow\<close>

text \<open>A sector as the store keeps it, and events the registry accepts.\<close>

definition lower_stable :: "env \<Rightarrow> bool" where
  "lower_stable E \<longleftrightarrow> (\<forall>s. TrimSpace (ToLower E (TrimSpace (ToLower E s))) = TrimSpace (ToLower E s))"

definition acceptable :: "env \<Rightarrow> GovernanceEvent \<Rightarrow> bool" where
  "acceptable E e \<longleftrightarrow> ev_Sector e \<noteq> [] \<and> TrimSpace (ToLower E (ev_Sector e)) = ev_Sector e \<and> ev_MultiplierBPS e \<noteq> 0"

lemma sound_acceptable:
  assumes "sound E g" "lower_stable E" "e \<in> set (gs_events g)"
  shows "acceptable E e"
proof -
  have "event_ok g e" using assms by (simp add: sound_def gov_inv_def)
  then obtain p where p: "fmlookup (gs_proposals g) (ev_ProposalID e) = Some p" "ev_Sector e = prop_Sector p"
    "ev_MultiplierBPS e = prop_MultiplierBPS p" by (auto simp: event_ok_def)
  then have "proposal_ok E (gs_config g) p" using assms(1) by (auto simp: sound_def gov_inv_def)
  then obtain t where "prop_Sector p \<noteq> []" "prop_Sector p = TrimSpace (ToLower E t)" "prop_MultiplierBPS p \<noteq> 0"
    by (auto simp: proposal_ok_def)
  then show ?thesis using p assms(2) by (simp add: acceptable_def lower_stable_def)
qed

definition follows :: "GovernanceEvent \<Rightarrow> PriorityRule \<Rightarrow> bool" where
  "follows e rule \<longleftrightarrow> rule_MultiplierBPS rule = ev_MultiplierBPS e \<and> rule_SourceProposalID rule = ev_ProposalID e"

lemma listener_accepts:
  assumes "acceptable E e" "li_events l"
  shows "\<exists>l' rule. listener_step E l (EventRecv e) = Waiting l' \<and> li_events l' \<and> li_Registry l' = fmupd (ev_Sector e) rule (li_Registry l)
    \<and> follows e rule"
proof -
  let ?r = "ToPriorityRule E e" and ?s = "ev_Sector e"
  define u where "u = ?r\<lparr>rule_Sector := ?s, rule_ActivatedAt := (if rule_ActivatedAt ?r = 0 then now E else rule_ActivatedAt ?r)\<rparr>"
  have "UpsertRule E (Some (li_Registry l)) ?r = Inr (fmupd ?s u (li_Registry l))"
    using assms(1) by (simp add: u_def UpsertRule_def ToPriorityRule_def acceptable_def normalizeMultiplier_def Let_def)
  moreover have "follows e u" using assms(1) by (simp add: u_def follows_def ToPriorityRule_def normalizeMultiplier_def acceptable_def)
  ultimately show ?thesis using assms(2) by (auto simp: listener_step_def)
qed

lemma listener_follows:
  assumes "\<forall>e \<in> set es. acceptable E e" "li_events l"
  shows "\<exists>l'. listener_loop E l (map EventRecv es) = Waiting l' \<and> li_events l'
    \<and> (\<forall>e xs ys. es = xs @ e # ys \<and> ev_Sector e \<notin> ev_Sector ` set ys \<longrightarrow>
         (\<exists>rule. fmlookup (li_Registry l') (ev_Sector e) = Some rule \<and> follows e rule))
    \<and> (\<forall>t. t \<notin> ev_Sector ` set es \<longrightarrow> fmlookup (li_Registry l') t = fmlookup (li_Registry l) t)"
  using assms
proof (induction es arbitrary: l)
  case Nil
  then show ?case by (subst listener_loop.simps) simp
next
  case (Cons e es)
  obtain l1 rule where l1: "listener_step E l (EventRecv e) = Waiting l1" "li_events l1"
    "li_Registry l1 = fmupd (ev_Sector e) rule (li_Registry l)" "follows e rule"
    using listener_accepts [of E e l] Cons.prems by auto
  obtain l' where l': "listener_loop E l1 (map EventRecv es) = Waiting l'" "li_events l'"
    "\<forall>e xs ys. es = xs @ e # ys \<and> ev_Sector e \<notin> ev_Sector ` set ys \<longrightarrow>
       (\<exists>rule. fmlookup (li_Registry l') (ev_Sector e) = Some rule \<and> follows e rule)"
    "\<forall>t. t \<notin> ev_Sector ` set es \<longrightarrow> fmlookup (li_Registry l') t = fmlookup (li_Registry l1) t"
    using Cons.IH [OF _ l1(2)] Cons.prems by auto
  have "listener_loop E l (map EventRecv (e # es)) = Waiting l'"
    using Cons.prems(2) l1(1) l'(1) by (subst listener_loop.simps) simp
  moreover have "\<exists>rule. fmlookup (li_Registry l') (ev_Sector d) = Some rule \<and> follows d rule"
    if "e # es = xs @ d # ys" "ev_Sector d \<notin> ev_Sector ` set ys" for d xs ys
  proof (cases xs)
    case Nil
    then show ?thesis using that l'(4) l1(3,4) by auto
  next
    case (Cons x list)
    then have "es = list @ d # ys" using that(1) by simp
    with l'(3) that(2) show ?thesis by blast
  qed
  ultimately show ?case using l'(2,4) l1(3) by auto
qed

text \<open>
  C26: A subscriber that keeps up hears of every decision, once and in order. In any interleaving of store operations, goroutine
  steps and receptions, as long as fewer than 32 events are in transit (the room of a channel; beyond it an event is dropped),
  what was received is a prefix of the history followed by the events since the subscription; forwarding and
  receiving alone complete it; and the listener that gets these events stays alive and holds, for every sector, the multiplier of the last of them.
\<close>

theorem events_reach_listener:
  assumes "length acts + length later + 1 < 2 ^ 64" and "g = gov_run E c acts" and "SubscribeGovernanceEvents b g = (g0, i)"
    and "unat (gs_nextSubscriber g) + length later + 1 < 2 ^ 64"
    and "\<forall>a \<in> set later. snd a \<noteq> Restart \<and> snd a \<noteq> Cancel i"
    and "\<forall>k < length later. length (in_transit (watched i (fst (fold (watch_step E i) (take k later) (g0, []))))) < channel_size"
    and "fold (watch_step E i) later (g0, []) = (g1, got)"
    and "lower_stable E" and "li_events l"
  shows "prefix got (EventsSince b g @ drop (length (gs_events g)) (gs_events g1))
    \<and> (\<exists>acts'. set acts' \<subseteq> {(None, Forward i), (None, Receive i)}
         \<and> snd (fold (watch_step E i) acts' (g1, got)) = EventsSince b g @ drop (length (gs_events g)) (gs_events g1))
    \<and> (\<exists>l'. listener_loop E l (map EventRecv got) = Waiting l'
         \<and> (\<forall>e xs ys. got = xs @ e # ys \<and> ev_Sector e \<notin> ev_Sector ` set ys \<longrightarrow>
              (\<exists>rule. fmlookup (li_Registry l') (ev_Sector e) = Some rule \<and> rule_MultiplierBPS rule = ev_MultiplierBPS e
                 \<and> rule_SourceProposalID rule = ev_ProposalID e)))"
proof -
  let ?past = "EventsSince b g" and ?n = "length (gs_events g)"
  have len: "length acts < 2 ^ 64" using assms(1) by simp
  note s = gov_run_sound [OF len, of E c, folded assms(2)]
  have i: "i = gs_nextSubscriber g + 1" and g0: "gs_events g0 = gs_events g" "gs_nextProposal g0 = gs_nextProposal g"
    "gs_nextSubscriber g0 = i" and sub: "fmlookup (gs_subscribers g0) i = Some \<lparr>sub_historical = ?past, sub_live = [], sub_hand = None, sub_events = []\<rparr>"
    using assms(3) by (auto simp: SubscribeGovernanceEvents_def Let_def EventsSince_def linorder_not_less)
  have ui: "unat i = unat (gs_nextSubscriber g) + 1" using assms(4) by (simp add: i unat_word_ariths)
  have "sound E g0" using subscriptions_sound(1) subscriptions_sound(2) [OF s(1)] assms(3)
    by (auto simp: SubscribeGovernanceEvents_def Let_def)
  moreover have "delivers i ?past ?n (g0, [])" using g0 sub by (simp add: delivers_def sub_ok_def in_transit_def)
  ultimately have run: "sound E g1" "delivers i ?past ?n (g1, got)"
    using watch_run [of E "(g0, [])" i ?past ?n later] assms(1,4,5,6,7) s(3) g0 ui by simp_all
  then obtain t where t: "fmlookup (gs_subscribers g1) i = Some t" "sub_ok t" "got @ in_transit t = ?past @ drop ?n (gs_events g1)"
    by (auto simp: delivers_def)
  have "set got \<subseteq> set (gs_events g) \<union> set (gs_events g1)"
    using arg_cong [OF t(3), of set] set_drop_subset [of ?n "gs_events g1"] by (auto simp: EventsSince_def)
  then have "\<forall>e \<in> set got. acceptable E e" using sound_acceptable [OF _ assms(8)] s(1) run(1) by blast
  from listener_follows [OF this assms(9)]
  have "\<exists>l'. listener_loop E l (map EventRecv got) = Waiting l'
      \<and> (\<forall>e xs ys. got = xs @ e # ys \<and> ev_Sector e \<notin> ev_Sector ` set ys \<longrightarrow>
           (\<exists>rule. fmlookup (li_Registry l') (ev_Sector e) = Some rule \<and> rule_MultiplierBPS rule = ev_MultiplierBPS e
              \<and> rule_SourceProposalID rule = ev_ProposalID e))"
    unfolding follows_def by blast
  moreover have "prefix got (?past @ drop ?n (gs_events g1))" by (simp flip: t(3))
  moreover obtain acts' g2 where "set acts' \<subseteq> {(None, Forward i), (None, Receive i)}" "fold (watch_step E i) acts' (g1, got) = (g2, got @ in_transit t)"
    using receive_all [OF t(1,2), of E got] by blast
  then have "\<exists>acts'. set acts' \<subseteq> {(None, Forward i), (None, Receive i)}
      \<and> snd (fold (watch_step E i) acts' (g1, got)) = ?past @ drop ?n (gs_events g1)" using t(3) by auto
  ultimately show ?thesis by blast
qed

section \<open>A concrete subscriber\<close>

definition toy_later :: "(err option \<times> gov_op) list" where
  "toy_later = toy_decision @ [(None, Forward 1), (None, Forward 1), (None, Receive 1)]"

definition toy_subscribed :: GovernanceStore where
  "toy_subscribed = fst (SubscribeGovernanceEvents 0 (gov_run gov_env toy_config []))"

definition toy_sub :: subscription where
  "toy_sub = \<lparr>sub_historical = [], sub_live = [], sub_hand = None, sub_events = []\<rparr>"

lemma toy_subscribed:
  "SubscribeGovernanceEvents 0 (gov_run gov_env toy_config []) = (toy_subscribed, 1)"
  "gs_nextSubscriber (gov_run gov_env toy_config []) = 0" "gs_events (gov_run gov_env toy_config []) = []"
  "gs_config toy_subscribed = normalizeConfig toy_config" "gs_nextProposal toy_subscribed = 0" "gs_currentBlock toy_subscribed = 1"
  "gs_subscribers toy_subscribed = fmupd 1 toy_sub fmempty" "gs_events toy_subscribed = []"
  using toy_store
  by (simp_all add: toy_subscribed_def SubscribeGovernanceEvents_def gov_run_def toy_store_def [symmetric] Let_def toy_sub_def)

lemma watch_step_fst: "fst (watch_step E i a w) = gov_step E a (fst w)"
  by (simp add: watch_step_def split_beta)

lemma fold_watch_fst: "fst (fold (watch_step E i) acts w) = fold (gov_step E) acts (fst w)"
  by (induction acts arbitrary: w) (simp_all add: watch_step_fst)

lemma fold_watch_quiet:
  "\<forall>a \<in> set acts. snd a \<noteq> Receive i \<Longrightarrow> fold (watch_step E i) acts (g, got) = (fold (gov_step E) acts g, got)"
  by (induction acts arbitrary: g) (simp_all add: watch_step_def)

text \<open>The event of the decision, and the subscription at each point of the run.\<close>

definition toy_announced :: GovernanceEvent where
  "toy_announced = finalize_event gov_env 50000 (toy_proposal\<lparr>prop_ForVotes := 5000\<rparr>)"

lemma toy_announced: "ev_Sector toy_announced = ''.edu''" "ev_MultiplierBPS toy_announced = 15000"
  by (simp_all add: toy_announced_def finalize_event_def toy_proposal_def)

lemma toy_before:
  assumes "k \<le> 3"
  shows "gs_subscribers (fold (gov_step gov_env) (take k toy_decision) toy_subscribed) = gs_subscribers toy_subscribed"
proof -
  have s: "sound gov_env toy_subscribed"
    using gov_run_sound(1) [of "[]" gov_env toy_config] subscriptions_sound(1) subscriptions_sound(2)
    by (auto simp: toy_subscribed_def SubscribeGovernanceEvents_def Let_def)
  let ?q = "\<lambda>op. case op of Propose _ \<Rightarrow> True | Vote _ _ \<Rightarrow> True | Advance _ \<Rightarrow> True | SetBlock _ \<Rightarrow> True | _ \<Rightarrow> False"
  have "gs_subscribers (fold (gov_step gov_env) acts g) = gs_subscribers g"
    if "sound gov_env g" "unat (gs_nextProposal g) + length acts < 2 ^ 64" "\<forall>a \<in> set acts. ?q (snd a)" for acts g
    using that
  proof (induction acts arbitrary: g)
    case (Cons a acts)
    obtain io op where a: "a = (io, op)" by fastforce
    have "sound gov_env (gov_step gov_env a g) \<and> advances g (gov_step gov_env a g)"
      unfolding a using Cons.prems by (intro step_sound) simp_all
    moreover have "quiet g (gov_step gov_env a g)"
      unfolding a using Cons.prems sound_keyed by (intro quiet_steps) (auto simp: a)
    ultimately show ?case using Cons by (simp add: advances_def quiet_def)
  qed simp
  moreover have "\<forall>a \<in> set (take k toy_decision). ?q (snd a)"
    using set_take_subset_set_take [OF assms, of toy_decision] by (auto simp: toy_decision_def)
  ultimately show ?thesis using s assms by (simp add: toy_subscribed)
qed

lemma toy_after:
  "fold (gov_step gov_env) toy_decision toy_subscribed = toy_passed toy_subscribed"
  "fmlookup (gs_subscribers (toy_passed toy_subscribed)) 1 = Some (toy_sub\<lparr>sub_live := [toy_announced]\<rparr>)"
  using toy_steps(1) [OF toy_subscribed(4-6)]
  by (simp_all add: toy_passed_def Let_def broadcast_pushes toy_subscribed pushed_def channel_size_def toy_announced_def)
    (simp_all add: toy_sub_def)

lemma toy_room:
  assumes "k < 7"
  shows "length (in_transit (watched 1 (fst (fold (watch_step gov_env 1) (take k toy_later) (toy_subscribed, []))))) < channel_size"
proof -
  let ?s = "toy_sub\<lparr>sub_live := [toy_announced]\<rparr>"
  have ok: "sub_ok ?s" "in_transit ?s = [toy_announced]" by (simp_all add: sub_ok_def toy_sub_def in_transit_def)
  consider "k \<le> 3" | "k = 4" | "k = 5" | "k = 6" using assms by linarith
  then show ?thesis
  proof cases
    case 1
    then have "take k toy_later = take k toy_decision" by (simp add: toy_later_def toy_length)
    then show ?thesis using toy_before [OF 1]
      by (simp add: fold_watch_fst watched_def toy_subscribed) (simp add: toy_sub_def in_transit_def channel_size_def)
  qed (use ok toy_after in \<open>simp_all add: toy_later_def toy_length fold_watch_fst watch_step_fst watched_def channel_size_def
      gov_step_def [of gov_env "(None, Forward 1)"] forward_subscription_def\<close>)
qed

lemma toy_received: "snd (fold (watch_step gov_env 1) toy_later (toy_subscribed, [])) = [toy_announced]"
proof -
  let ?s = "toy_sub\<lparr>sub_live := [toy_announced]\<rparr>"
  have ok: "sub_ok ?s" "in_transit ?s = [toy_announced]" by (simp_all add: sub_ok_def toy_sub_def in_transit_def)
  have "fold (watch_step gov_env 1) toy_decision (toy_subscribed, []) = (toy_passed toy_subscribed, [])"
    using toy_after(1) by (subst fold_watch_quiet) (auto simp: toy_decision_def)
  with receive_round [OF toy_after(2) ok(1), of gov_env "[]"] ok(2) show ?thesis by (auto simp: toy_later_def)
qed

lemma sublist_TrimSpace: "sublist (TrimSpace s) s"
proof -
  have "sublist (trim_front ws t) t" for ws t using suffix_trim_front suffix_imp_sublist by blast
  then have "sublist (rev (trim_front (map rev white_space) (rev (trim_front white_space s)))) (trim_front white_space s)"
    by (metis sublist_rev rev_rev_ident)
  then show ?thesis unfolding TrimSpace_def by (meson suffix_trim_front suffix_imp_sublist sublist_order.order_trans)
qed

lemma toy_lower_stable: "lower_stable gov_env"
  unfolding lower_stable_def
proof
  fix s
  have "set (TrimSpace (map lower_char s)) \<subseteq> set (map lower_char s)" by (rule set_mono_sublist [OF sublist_TrimSpace])
  moreover have "lower_char (lower_char c) = lower_char c" for c by (simp add: lower_char_def)
  ultimately have "map lower_char (TrimSpace (map lower_char s)) = TrimSpace (map lower_char s)" by (intro map_idI) auto
  then show "TrimSpace (ToLower gov_env (TrimSpace (ToLower gov_env s))) = TrimSpace (ToLower gov_env s)" by (simp add: gov_env_lower)
qed

theorem events_reach_listener_witness:
  "\<exists>l' rule. listener_loop gov_env toy_listener (map EventRecv (snd (fold (watch_step gov_env 1) toy_later (toy_subscribed, [])))) = Waiting l'
     \<and> fmlookup (li_Registry l') ''.edu'' = Some rule \<and> rule_MultiplierBPS rule = 15000"
proof -
  obtain g1 got where run: "fold (watch_step gov_env 1) toy_later (toy_subscribed, []) = (g1, got)" by fastforce
  then have got: "got = [toy_announced]" using toy_received by simp
  have len: "length toy_later = 7" by (simp add: toy_later_def toy_length)
  have ops: "\<forall>a \<in> set toy_later. snd a \<noteq> Restart \<and> snd a \<noteq> Cancel 1" by (auto simp: toy_later_def toy_decision_def)
  have "li_events toy_listener" by (simp add: toy_listener_def)
  from events_reach_listener [OF _ refl toy_subscribed(1) _ ops _ run toy_lower_stable this] obtain l' where
    l': "listener_loop gov_env toy_listener (map EventRecv got) = Waiting l'"
      "\<forall>e xs ys. got = xs @ e # ys \<and> ev_Sector e \<notin> ev_Sector ` set ys \<longrightarrow>
         (\<exists>rule. fmlookup (li_Registry l') (ev_Sector e) = Some rule \<and> rule_MultiplierBPS rule = ev_MultiplierBPS e
            \<and> rule_SourceProposalID rule = ev_ProposalID e)"
    using toy_room by (auto simp: len toy_subscribed)
  from l'(2) [rule_format, of "[]" toy_announced "[]"] l'(1) show ?thesis by (auto simp: got run toy_announced)
qed

end
