(* ===== verification/Governance_Service.thy ===== *)
theory Governance_Service
  imports Governance_Events Engine
begin

text \<open>
  The HTTP service around the governance store (\<open>src/core/node/service.go\<close>): a service holds the store and the priority
  registry its listener fills. A handler takes the method of the request and its decoded body or query, and returns the
  status code and the value that \<open>writeJSON\<close> encodes; \<open>Inl\<close> stands for a body that does not decode.
\<close>

record Service =
  sv_config :: ServiceConfig
  sv_governance :: GovernanceStore
  sv_priorityRegistry :: registry
  sv_listenerFrom :: u64

record VoteRequest =
  vq_ProposalID :: u64
  vq_Choice :: VoteChoice

record QuoteRequest =
  qr_Query :: string
  qr_URL :: string
  qr_BaseBounty :: string
  qr_Difficulty :: u64
  qr_DataVolumeBytes :: u64

record QuoteResponse =
  qs_Query :: string
  qs_URL :: string
  qs_MultiplierBPS :: u64
  qs_AdjustedDifficulty :: u64
  qs_AdjustedBounty :: string
  qs_ArchitectFee :: string
  qs_MinerReward :: string
  qs_PrioritySectors :: "string list"

record HealthResponse =
  hr_Status :: string
  hr_CurrentBlock :: u64
  hr_Operator :: string
  hr_OperatorAlias :: string
  hr_PriorityRules :: "PriorityRule list"

datatype reply =
    ReplyError string
  | ReplyHealth HealthResponse
  | ReplyChainStatus u64 string string
  | ReplyAdvance u64 u64
  | ReplyProposals "ProposalSummary list"
  | ReplyCreated ProposalSummary
  | ReplyVote u64 VoteChoice
  | ReplyFinalized FinalizeResponse
  | ReplyEvents "GovernanceEvent list"
  | ReplyRules "PriorityRule list"
  | ReplyQuote QuoteResponse

type_synonym http = "nat \<times> reply"

definition method_not_allowed :: http where
  "method_not_allowed = (405, ReplyError ''method not allowed'')"

definition bad_request :: "string \<Rightarrow> http" where
  "bad_request message = (400, ReplyError message)"

definition NewService :: "ServiceConfig \<Rightarrow> governanceSnapshot option res \<Rightarrow> Service res" where
  "NewService config content =
     (let normalized = normalizeConfig config in
      case NewGovernanceStore normalized content of
        Inl e \<Rightarrow> Inl e
      | Inr governance \<Rightarrow>
          Inr \<lparr>sv_config = normalized, sv_governance = governance, sv_priorityRegistry = NewPriorityRegistry,
               sv_listenerFrom = cfg_StartBlock normalized\<rparr>)"

definition handleHealth :: "string \<Rightarrow> Service \<Rightarrow> http" where
  "handleHealth method s =
     (if method \<noteq> ''GET'' then method_not_allowed
      else (200, ReplyHealth \<lparr>hr_Status = ''ok'', hr_CurrentBlock = gs_currentBlock (sv_governance s),
        hr_Operator = cfg_OperatorAddress (sv_config s), hr_OperatorAlias = cfg_OperatorAlias (sv_config s),
        hr_PriorityRules = Snapshot (Some (sv_priorityRegistry s))\<rparr>))"

definition handleChainStatus :: "string \<Rightarrow> Service \<Rightarrow> http" where
  "handleChainStatus method s =
     (if method \<noteq> ''GET'' then method_not_allowed
      else (200, ReplyChainStatus (gs_currentBlock (sv_governance s))
        (show_int (cloneBigInt (cfg_CirculatingSupply (sv_config s)))) (show_int (QuorumVotes (sv_governance s)))))"

definition handleAdvanceBlocks :: "err option \<Rightarrow> string \<Rightarrow> u64 res \<Rightarrow> Service \<Rightarrow> Service \<times> http" where
  "handleAdvanceBlocks io method body s =
     (if method \<noteq> ''POST'' then (s, method_not_allowed)
      else
        (case body of
           Inl _ \<Rightarrow> (s, bad_request ''invalid JSON payload'')
         | Inr requested \<Rightarrow>
             let blocks = (if requested = 0 then 1 else requested) in
             (case AdvanceBlocks io blocks (sv_governance s) of
                (g', currentBlock) \<Rightarrow> (s\<lparr>sv_governance := g'\<rparr>, (202, ReplyAdvance currentBlock blocks)))))"

definition handleGovernanceProposals ::
    "env \<Rightarrow> err option \<Rightarrow> string \<Rightarrow> string \<Rightarrow> ProposalCreateRequest res \<Rightarrow> Service \<Rightarrow> Service \<times> http" where
  "handleGovernanceProposals E io method status body s =
     (if method = ''GET'' then (s, (200, ReplyProposals (ListProposals status (sv_governance s))))
      else if method = ''POST'' then
        (case body of
           Inl _ \<Rightarrow> (s, bad_request ''invalid JSON payload'')
         | Inr payload \<Rightarrow>
             (case CreateProposal E io payload (sv_governance s) of
                (g', Inl e) \<Rightarrow> (s\<lparr>sv_governance := g'\<rparr>, bad_request (err_Error e))
              | (g', Inr proposal) \<Rightarrow> (s\<lparr>sv_governance := g'\<rparr>, (201, ReplyCreated proposal))))
      else (s, method_not_allowed))"

definition handleVote :: "env \<Rightarrow> err option \<Rightarrow> string \<Rightarrow> VoteRequest res \<Rightarrow> Service \<Rightarrow> Service \<times> http" where
  "handleVote E io method body s =
     (if method \<noteq> ''POST'' then (s, method_not_allowed)
      else
        (case body of
           Inl _ \<Rightarrow> (s, bad_request ''invalid JSON payload'')
         | Inr payload \<Rightarrow>
             (case ParseVoteChoice E (FormatUint (ucast (vq_Choice payload))) of
                Inl _ \<Rightarrow> (s, bad_request (err_Error ErrInvalidVoteRequest))
              | Inr _ \<Rightarrow>
                  (case CastVote io (vq_ProposalID payload) (vq_Choice payload) (sv_governance s) of
                     (g', Inl e) \<Rightarrow> (s\<lparr>sv_governance := g'\<rparr>, bad_request (err_Error e))
                   | (g', Inr _) \<Rightarrow> (s\<lparr>sv_governance := g'\<rparr>, (202, ReplyVote (vq_ProposalID payload) (vq_Choice payload)))))))"

definition handleFinalize :: "env \<Rightarrow> err option \<Rightarrow> string \<Rightarrow> u64 res \<Rightarrow> Service \<Rightarrow> Service \<times> http" where
  "handleFinalize E io method body s =
     (if method \<noteq> ''POST'' then (s, method_not_allowed)
      else
        (case body of
           Inl _ \<Rightarrow> (s, bad_request ''invalid JSON payload'')
         | Inr proposalID \<Rightarrow>
             (case FinalizeProposal E io proposalID (sv_governance s) of
                (g', Inl e) \<Rightarrow> (s\<lparr>sv_governance := g'\<rparr>, bad_request (err_Error e))
              | (g', Inr response) \<Rightarrow> (s\<lparr>sv_governance := g'\<rparr>, (200, ReplyFinalized response)))))"

definition handleEvents :: "string \<Rightarrow> string \<Rightarrow> Service \<Rightarrow> http" where
  "handleEvents method fromBlock s =
     (if method \<noteq> ''GET'' then method_not_allowed
      else
        (let raw = TrimSpace fromBlock in
         if raw = [] then (200, ReplyEvents (EventsSince 0 (sv_governance s)))
         else
           (case ParseUint raw of
              Inl _ \<Rightarrow> bad_request ''fromBlock must be an unsigned integer''
            | Inr value' \<Rightarrow> (200, ReplyEvents (EventsSince value' (sv_governance s))))))"

definition handleRules :: "string \<Rightarrow> Service \<Rightarrow> http" where
  "handleRules method s =
     (if method \<noteq> ''GET'' then method_not_allowed else (200, ReplyRules (Snapshot (Some (sv_priorityRegistry s)))))"

definition handleQuote :: "env \<Rightarrow> string \<Rightarrow> QuoteRequest res \<Rightarrow> Service \<Rightarrow> http" where
  "handleQuote E method body s =
     (if method \<noteq> ''POST'' then method_not_allowed
      else
        (case body of
           Inl _ \<Rightarrow> bad_request ''invalid JSON payload''
         | Inr payload \<Rightarrow>
             (case node_parseBigInt (qr_BaseBounty payload) of
                Inl _ \<Rightarrow> bad_request ''baseBounty must be a base-10 integer''
              | Inr baseBounty \<Rightarrow>
                  (case NewCrawlTask E (qr_Query payload) [qr_URL payload] (Some baseBounty) (qr_Difficulty payload)
                          (qr_DataVolumeBytes payload) 0 of
                     Inl e \<Rightarrow> bad_request (err_Error e)
                   | Inr task \<Rightarrow>
                       (case Registry_Apply E (Some (sv_priorityRegistry s)) task (qr_URL payload) of
                          Inl e \<Rightarrow> bad_request (err_Error e)
                        | Inr adj \<Rightarrow>
                            (200, ReplyQuote
                              \<lparr>qs_Query = qr_Query payload, qs_URL = qr_URL payload, qs_MultiplierBPS = adj_MultiplierBPS adj,
                               qs_AdjustedDifficulty = adj_AdjustedDifficulty adj,
                               qs_AdjustedBounty = show_int (adj_AdjustedBounty adj), qs_ArchitectFee = show_int (adj_ArchitectFee adj),
                               qs_MinerReward = show_int (adj_NetMinerReward adj), qs_PrioritySectors = adj_PrioritySectors adj\<rparr>))))))"

section \<open>What a client sees\<close>

text \<open>The requests that change the store, as one operation of a service.\<close>

datatype request =
    PostAdvance "u64 res" | PostProposal "ProposalCreateRequest res" | PostVote "VoteRequest res" | PostFinalize "u64 res"

definition serve :: "env \<Rightarrow> err option \<Rightarrow> request \<Rightarrow> Service \<Rightarrow> Service \<times> http" where
  "serve E io r s =
     (case r of
        PostAdvance b \<Rightarrow> handleAdvanceBlocks io ''POST'' b s
      | PostProposal b \<Rightarrow> handleGovernanceProposals E io ''POST'' [] b s
      | PostVote b \<Rightarrow> handleVote E io ''POST'' b s
      | PostFinalize b \<Rightarrow> handleFinalize E io ''POST'' b s)"

text \<open>A request that is answered with an error has left the proposals, the events and the file as they were.\<close>

lemma error_reply_undone:
  assumes "keyed (sv_governance s)" and "serve E io r s = (s', status, reply)" and "400 \<le> status"
  shows "undone (sv_governance s) (sv_governance s')"
  using assms failure_undone [OF assms(1)]
  by (cases r)
    (auto simp: serve_def handleAdvanceBlocks_def handleGovernanceProposals_def handleVote_def handleFinalize_def bad_request_def
      method_not_allowed_def Let_def split: sum.splits prod.splits)

lemma vote_choice_checked:
  assumes "serve E io (PostVote (Inr v)) s = (s', 202, reply)"
  shows "vq_Choice v \<in> {VoteAgainst, VoteFor, VoteAbstain}"
  using assms
  by (auto simp: serve_def handleVote_def bad_request_def CastVote_def mutateLocked_def add_vote_def split: sum.splits prod.splits option.splits if_splits)

end
