(* ===== verification/State_Codec.thy ===== *)
theory State_Codec
  imports Storage
begin

text \<open>
  The database of \<open>src/core/blockchain.go\<close> as bytes: the keys, the values as
  \<open>encodeStoredJSON\<close> writes them (JSON, compressed when long), the snapshot of a state, and the older layout
  with a key per account, task and document. \<open>Storage\<close> keeps one decoded map per key prefix; the relation
  \<open>holds\<close> says that a byte database is such a store, the reading operations agree under it and the writing
  operations keep it.

  JSON and gzip are libraries: the record \<open>formats\<close> holds them. A \<open>fmt\<close> is what \<open>json.Marshal\<close> and
  \<open>json.Unmarshal\<close> do on one type. What the laws need of them is stated about the values that are stored
  (\<open>storable\<close>): they are rendered, the rendering reads back, and it does not begin with the two bytes that mark a
  gzip stream, which holds of every JSON text; and that gzip gives back what it compressed and begins with
  the mark (\<open>gzip_ok\<close>).
\<close>

section \<open>Values\<close>

record 'a fmt =
  marshal :: "'a \<Rightarrow> bytes option"
  unmarshal :: "bytes \<Rightarrow> 'a option"

text \<open>\<open>json.Marshal\<close> and \<open>json.Unmarshal\<close> with their error.\<close>

definition json_Marshal :: "'a fmt \<Rightarrow> 'a \<Rightarrow> bytes res" where
  "json_Marshal F v = (case marshal F v of None \<Rightarrow> Inl (ErrLib ''json'') | Some p \<Rightarrow> Inr p)"

definition json_Unmarshal :: "'a fmt \<Rightarrow> bytes \<Rightarrow> 'a res" where
  "json_Unmarshal F p = (case unmarshal F p of None \<Rightarrow> Inl (ErrLib ''json'') | Some v \<Rightarrow> Inr v)"

record stateSnapshotDisk =
  disk_Balances :: "(string, string) fmap"
  disk_Nonces :: "(string, u64) fmap"
  disk_PendingTasks :: "(string, SearchTaskRecord) fmap"
  disk_SearchIndex :: "(string, SearchRecord) fmap"
  disk_MentionCounts :: "(string, u64) fmap"
  disk_Names :: "(string, NameRecord) fmap"
  disk_Contracts :: "(string, ContractRecord) fmap"
  disk_ContractData :: "(string, string) fmap"

record formats =
  gzip :: "bytes \<Rightarrow> bytes"
  gunzip :: "bytes \<Rightarrow> bytes option"
  fmt_block :: "Block fmt"
  fmt_meta :: "BlockMeta fmt"
  fmt_tx :: "Transaction fmt"
  fmt_network :: "NetworkConfig fmt"
  fmt_disk :: "stateSnapshotDisk fmt"
  fmt_doc :: "SearchRecord fmt"
  fmt_task :: "SearchTaskRecord fmt"
  fmt_name :: "NameRecord fmt"

definition storageCompressionThreshold :: nat where
  "storageCompressionThreshold = 4096"

definition compressForStorage :: "formats \<Rightarrow> bytes \<Rightarrow> bytes" where
  "compressForStorage C payload =
     (if length payload < storageCompressionThreshold then payload
      else if length payload \<le> length (gzip C payload) then payload
      else gzip C payload)"

fun has_magic :: "bytes \<Rightarrow> bool" where
  "has_magic (a # b # _) = (byte a = 31 \<and> byte b = 139)"
| "has_magic _ = False"

definition decompressStoredPayload :: "formats \<Rightarrow> bytes \<Rightarrow> bytes res" where
  "decompressStoredPayload C payload =
     (if \<not> has_magic payload then Inr payload
      else (case gunzip C payload of None \<Rightarrow> Inl (ErrLib ''gzip'') | Some p \<Rightarrow> Inr p))"

definition encodeStoredJSON :: "formats \<Rightarrow> 'a fmt \<Rightarrow> 'a \<Rightarrow> bytes res" where
  "encodeStoredJSON C F v =
     (case json_Marshal F v of Inl e \<Rightarrow> Inl e | Inr payload \<Rightarrow> Inr (compressForStorage C payload))"

definition decodeStoredJSON :: "formats \<Rightarrow> 'a fmt \<Rightarrow> bytes \<Rightarrow> 'a res" where
  "decodeStoredJSON C F payload =
     (case decompressStoredPayload C payload of Inl e \<Rightarrow> Inl e | Inr decoded \<Rightarrow> json_Unmarshal F decoded)"

text \<open>The loop over the balances of a snapshot read back; the other maps are copied.\<close>

fun parse_balances :: "(string \<times> string) list \<Rightarrow> (string, int) fmap \<Rightarrow> (string, int) fmap res" where
  "parse_balances [] m = Inr m"
| "parse_balances ((address, amount) # rest) m =
     (case SetString amount of
        None \<Rightarrow> Inl ErrInvalidBlock
      | Some v \<Rightarrow> parse_balances rest (fmupd address v m))"

definition snapshot_disk :: "StateSnapshot \<Rightarrow> stateSnapshotDisk" where
  "snapshot_disk state =
     \<lparr>disk_Balances = fmmap show_int (Balances state), disk_Nonces = Nonces state,
      disk_PendingTasks = PendingTasks state, disk_SearchIndex = SearchIndex state,
      disk_MentionCounts = MentionCounts state, disk_Names = Names state, disk_Contracts = Contracts state,
      disk_ContractData = ContractData state\<rparr>"

definition marshalStateSnapshot :: "formats \<Rightarrow> StateSnapshot \<Rightarrow> bytes res" where
  "marshalStateSnapshot C state = json_Marshal (fmt_disk C) (snapshot_disk state)"

definition unmarshalStateSnapshot :: "formats \<Rightarrow> bytes \<Rightarrow> StateSnapshot res" where
  "unmarshalStateSnapshot C data =
     (case decompressStoredPayload C data of
        Inl e \<Rightarrow> Inl e
      | Inr decoded \<Rightarrow>
          (case json_Unmarshal (fmt_disk C) decoded of
             Inl e \<Rightarrow> Inl e
           | Inr disk \<Rightarrow>
               (case parse_balances (fm_entries (disk_Balances disk)) fmempty of
                  Inl e \<Rightarrow> Inl e
                | Inr balances \<Rightarrow>
                    Inr \<lparr>Balances = balances, Nonces = disk_Nonces disk, PendingTasks = disk_PendingTasks disk,
                         SearchIndex = disk_SearchIndex disk, MentionCounts = disk_MentionCounts disk,
                         Names = disk_Names disk, Contracts = disk_Contracts disk,
                         ContractData = disk_ContractData disk\<rparr>)))"

section \<open>Round trip of a value\<close>

definition gzip_ok :: "formats \<Rightarrow> bool" where
  "gzip_ok C \<longleftrightarrow> (\<forall>p. gunzip C (gzip C p) = Some p \<and> has_magic (gzip C p))"

definition storable :: "formats \<Rightarrow> 'a fmt \<Rightarrow> 'a \<Rightarrow> bool" where
  "storable C F v =
     (case marshal F v of None \<Rightarrow> False | Some p \<Rightarrow> unmarshal F p = Some v \<and> \<not> has_magic p)"

lemma storableD:
  assumes "storable C F v"
  obtains p where "marshal F v = Some p" "unmarshal F p = Some v" "\<not> has_magic p"
  using assms by (auto simp: storable_def split: option.splits)

lemma decompress_compress:
  "gzip_ok C \<Longrightarrow> \<not> has_magic p \<Longrightarrow> decompressStoredPayload C (compressForStorage C p) = Inr p"
  by (simp add: decompressStoredPayload_def compressForStorage_def gzip_ok_def)

lemma compressForStorage_length: "length (compressForStorage C p) \<le> length p"
  by (simp add: compressForStorage_def)

lemma stored_round_trip:
  assumes "gzip_ok C" "storable C F v"
  shows "\<exists>p. encodeStoredJSON C F v = Inr p \<and> decodeStoredJSON C F p = Inr v"
  using assms(2)
  by (rule storableD)
    (simp add: encodeStoredJSON_def decodeStoredJSON_def json_Marshal_def json_Unmarshal_def
      decompress_compress assms(1))

interpretation stored: codec "encodeStoredJSON C F"
    "\<lambda>r. case r of Inl e \<Rightarrow> Inl e | Inr p \<Rightarrow> decodeStoredJSON C F p" Inr "\<lambda>v. gzip_ok C \<and> storable C F v"
  for C :: formats and F :: "'a fmt"
  by unfold_locales (use stored_round_trip in fastforce)+

lemma parse_balances_show:
  "parse_balances (map (\<lambda>(a, v). (a, show_int v)) xs) m = Inr (fold (\<lambda>(a, v) m. fmupd a v m) xs m)"
  by (induction xs arbitrary: m) auto

lemma fold_fmupd_lookup:
  "distinct (map fst xs) \<Longrightarrow>
   fmlookup (fold (\<lambda>(a, v) m. fmupd a v m) xs m) k = (case map_of xs k of None \<Rightarrow> fmlookup m k | Some v \<Rightarrow> Some v)"
proof (induction xs arbitrary: m)
  case (Cons x xs)
  obtain a v where x: "x = (a, v)" by (cases x)
  from Cons.prems x have "map_of xs a = None" by (simp add: map_of_eq_None_iff)
  then show ?case using Cons x by (auto split: option.splits)
qed simp

lemma fold_fm_entries: "fold (\<lambda>(a, v) m. fmupd a v m) (fm_entries m) fmempty = m"
  by (rule fmap_ext) (simp add: fold_fmupd_lookup distinct_fm_entries_fst map_of_fm_entries split: option.splits)

lemma fm_entries_fmmap: "fm_entries (fmmap f m) = map (\<lambda>(k, v). (k, f v)) (fm_entries m)"
proof -
  have "k |\<in>| fmdom m \<Longrightarrow> the (fmlookup (fmmap f m) k) = f (the (fmlookup m k))" for k
    by (auto simp: fmlookup_dom_iff)
  then show ?thesis
    by (auto simp: fm_entries_def sorted_list_of_fset_simps)
qed

lemma snapshot_stored:
  assumes "gzip_ok C" "storable C (fmt_disk C) (snapshot_disk state)"
  shows "\<exists>p. marshalStateSnapshot C state = Inr p \<and>
           unmarshalStateSnapshot C (compressForStorage C p) = Inr state"
  using assms(2)
  by (rule storableD)
    (simp add: marshalStateSnapshot_def unmarshalStateSnapshot_def json_Marshal_def json_Unmarshal_def
      decompress_compress assms(1) snapshot_disk_def fm_entries_fmmap parse_balances_show fold_fm_entries)



text \<open>A concrete instance: states with one balance, written as the text of the amount after a brace.\<close>

definition one_balance :: "int \<Rightarrow> StateSnapshot" where
  "one_balance v = NewStateSnapshot\<lparr>Balances := fmupd ''a'' v fmempty\<rparr>"

definition toy_disk :: "stateSnapshotDisk fmt" where
  "toy_disk =
     \<lparr>marshal = (\<lambda>d. map_option (\<lambda>t. CHR ''{'' # t) (fmlookup (disk_Balances d) ''a'')),
      unmarshal = (\<lambda>p. Some \<lparr>disk_Balances = fmupd ''a'' (tl p) fmempty, disk_Nonces = fmempty,
         disk_PendingTasks = fmempty, disk_SearchIndex = fmempty, disk_MentionCounts = fmempty, disk_Names = fmempty,
         disk_Contracts = fmempty, disk_ContractData = fmempty\<rparr>)\<rparr>"

definition no_fmt :: "'a fmt" where
  "no_fmt = \<lparr>marshal = (\<lambda>_. None), unmarshal = (\<lambda>_. None)\<rparr>"

definition toy_formats :: formats where
  "toy_formats =
     \<lparr>gzip = (\<lambda>p. char_of (31::nat) # char_of (139::nat) # p), gunzip = (\<lambda>p. Some (drop 2 p)), fmt_block = no_fmt,
      fmt_meta = no_fmt, fmt_tx = no_fmt, fmt_network = no_fmt, fmt_disk = toy_disk, fmt_doc = no_fmt,
      fmt_task = no_fmt, fmt_name = no_fmt\<rparr>"

lemma toy_gzip_ok: "gzip_ok toy_formats"
  by (simp add: gzip_ok_def toy_formats_def)

lemma no_magic_brace: "\<not> has_magic (CHR ''{'' # t)"
  by (cases t) (simp_all add: byte_def)


section \<open>Keys\<close>

type_synonym kv = "(string, bytes) fmap"

definition blockNumberKey :: "u64 \<Rightarrow> string" where
  "blockNumberKey number =
     ''blocks/number/'' @ replicate (20 - length (show_nat (unat number))) CHR ''0'' @ show_nat (unat number)"

definition blockHashKey :: "string \<Rightarrow> string" where
  "blockHashKey hash = ''blocks/hash/'' @ hash"

definition blockMetaKey :: "string \<Rightarrow> string" where
  "blockMetaKey hash = ''blocks/meta/'' @ hash"

definition txKey :: "string \<Rightarrow> string" where
  "txKey hash = ''tx/'' @ hash"

definition stateSnapshotKey :: "string \<Rightarrow> string" where
  "stateSnapshotKey hash = ''state/history/'' @ hash"

definition metaNetworkConfigKey :: string where
  "metaNetworkConfigKey = ''meta/network_config''"

definition metaLatestHashKey :: string where
  "metaLatestHashKey = ''meta/latest_hash''"

definition metaLatestBlockKey :: string where
  "metaLatestBlockKey = ''meta/latest_number''"

lemma digits_value_zeros: "digits_value (replicate n CHR ''0'' @ s) = digits_value s"
  by (induction n) (simp_all add: digits_value_def byte_def)

lemma blockNumberKey_inject [simp]: "blockNumberKey m = blockNumberKey n \<longleftrightarrow> m = n"
proof
  assume "blockNumberKey m = blockNumberKey n"
  then have "digits_value (replicate (20 - length (show_nat (unat m))) CHR ''0'' @ show_nat (unat m))
      = digits_value (replicate (20 - length (show_nat (unat n))) CHR ''0'' @ show_nat (unat n))"
    by (simp add: blockNumberKey_def)
  then show "m = n" by (simp add: digits_value_zeros word_unat_eq_iff)
qed simp

lemma key_inject [simp]:
  "blockHashKey g = blockHashKey h \<longleftrightarrow> g = h"
  "blockMetaKey g = blockMetaKey h \<longleftrightarrow> g = h"
  "txKey g = txKey h \<longleftrightarrow> g = h"
  "stateSnapshotKey g = stateSnapshotKey h \<longleftrightarrow> g = h"
  by (simp_all add: blockHashKey_def blockMetaKey_def txKey_def stateSnapshotKey_def)

lemmas key_defs = blockNumberKey_def blockHashKey_def blockMetaKey_def txKey_def stateSnapshotKey_def
  metaNetworkConfigKey_def metaLatestHashKey_def metaLatestBlockKey_def

text \<open>No two kinds of key meet.\<close>

lemma keys_apart [simp]:
  "blockNumberKey n \<noteq> blockHashKey h" "blockNumberKey n \<noteq> blockMetaKey h" "blockNumberKey n \<noteq> txKey h"
  "blockNumberKey n \<noteq> stateSnapshotKey h" "blockNumberKey n \<noteq> metaNetworkConfigKey"
  "blockNumberKey n \<noteq> metaLatestHashKey" "blockNumberKey n \<noteq> metaLatestBlockKey"
  "blockHashKey h \<noteq> blockMetaKey g" "blockHashKey h \<noteq> txKey g" "blockHashKey h \<noteq> stateSnapshotKey g"
  "blockHashKey h \<noteq> metaNetworkConfigKey" "blockHashKey h \<noteq> metaLatestHashKey" "blockHashKey h \<noteq> metaLatestBlockKey"
  "blockMetaKey h \<noteq> txKey g" "blockMetaKey h \<noteq> stateSnapshotKey g" "blockMetaKey h \<noteq> metaNetworkConfigKey"
  "blockMetaKey h \<noteq> metaLatestHashKey" "blockMetaKey h \<noteq> metaLatestBlockKey"
  "txKey h \<noteq> stateSnapshotKey g" "txKey h \<noteq> metaNetworkConfigKey" "txKey h \<noteq> metaLatestHashKey"
  "txKey h \<noteq> metaLatestBlockKey"
  "stateSnapshotKey h \<noteq> metaNetworkConfigKey" "stateSnapshotKey h \<noteq> metaLatestHashKey"
  "stateSnapshotKey h \<noteq> metaLatestBlockKey"
  "metaNetworkConfigKey \<noteq> metaLatestHashKey" "metaNetworkConfigKey \<noteq> metaLatestBlockKey"
  "metaLatestHashKey \<noteq> metaLatestBlockKey"
  by (simp_all add: key_defs)

lemmas keys_apart' [simp] = keys_apart [symmetric]

section \<open>Prefixes and the older layout\<close>

text \<open>
  An iterator of the database visits the keys of a prefix in byte order; \<open>fn\<close> stops it with an error.
\<close>

definition with_prefix :: "string \<Rightarrow> kv \<Rightarrow> (string \<times> bytes) list" where
  "with_prefix p db = filter (\<lambda>(k, v). prefix p k) (fm_entries db)"

definition clearPrefix :: "string \<Rightarrow> kv \<Rightarrow> kv" where
  "clearPrefix p db = fold (\<lambda>(k, v). fmdrop k) (with_prefix p db) db"

fun iterate :: "('s \<Rightarrow> string \<Rightarrow> bytes \<Rightarrow> 's res) \<Rightarrow> (string \<times> bytes) list \<Rightarrow> 's \<Rightarrow> 's res" where
  "iterate fn [] s = Inr s"
| "iterate fn ((k, v) # rest) s = (case fn s k v of Inl e \<Rightarrow> Inl e | Inr s' \<Rightarrow> iterate fn rest s')"

definition iteratePrefix :: "kv \<Rightarrow> string \<Rightarrow> ('s \<Rightarrow> string \<Rightarrow> bytes \<Rightarrow> 's res) \<Rightarrow> 's \<Rightarrow> 's res" where
  "iteratePrefix db p fn s = iterate fn (with_prefix p db) s"

definition hashKey :: "env \<Rightarrow> string \<Rightarrow> string" where
  "hashKey E input = hex_encode (sha256 E input)"

text \<open>The prefixes of the older layout.\<close>

definition balancePrefix :: string where
  "balancePrefix = ''state/balance/''"

definition noncePrefix :: string where
  "noncePrefix = ''state/nonce/''"

definition searchPrefix :: string where
  "searchPrefix = ''state/search/''"

definition mentionPrefix :: string where
  "mentionPrefix = ''state/mention/''"

definition taskPrefix :: string where
  "taskPrefix = ''state/task/''"

definition namePrefix :: string where
  "namePrefix = ''state/name/''"

lemmas prefix_defs = balancePrefix_def noncePrefix_def searchPrefix_def mentionPrefix_def taskPrefix_def namePrefix_def

lemma prefixes_apart [simp]:
  "\<not> prefix balancePrefix (noncePrefix @ k)" "\<not> prefix balancePrefix (searchPrefix @ k)" "\<not> prefix balancePrefix (mentionPrefix @ k)"
  "\<not> prefix balancePrefix (taskPrefix @ k)" "\<not> prefix balancePrefix (namePrefix @ k)" "\<not> prefix noncePrefix (balancePrefix @ k)"
  "\<not> prefix noncePrefix (searchPrefix @ k)" "\<not> prefix noncePrefix (mentionPrefix @ k)" "\<not> prefix noncePrefix (taskPrefix @ k)"
  "\<not> prefix noncePrefix (namePrefix @ k)" "\<not> prefix searchPrefix (balancePrefix @ k)" "\<not> prefix searchPrefix (noncePrefix @ k)"
  "\<not> prefix searchPrefix (mentionPrefix @ k)" "\<not> prefix searchPrefix (taskPrefix @ k)" "\<not> prefix searchPrefix (namePrefix @ k)"
  "\<not> prefix mentionPrefix (balancePrefix @ k)" "\<not> prefix mentionPrefix (noncePrefix @ k)" "\<not> prefix mentionPrefix (searchPrefix @ k)"
  "\<not> prefix mentionPrefix (taskPrefix @ k)" "\<not> prefix mentionPrefix (namePrefix @ k)" "\<not> prefix taskPrefix (balancePrefix @ k)"
  "\<not> prefix taskPrefix (noncePrefix @ k)" "\<not> prefix taskPrefix (searchPrefix @ k)" "\<not> prefix taskPrefix (mentionPrefix @ k)"
  "\<not> prefix taskPrefix (namePrefix @ k)" "\<not> prefix namePrefix (balancePrefix @ k)" "\<not> prefix namePrefix (noncePrefix @ k)"
  "\<not> prefix namePrefix (searchPrefix @ k)" "\<not> prefix namePrefix (mentionPrefix @ k)" "\<not> prefix namePrefix (taskPrefix @ k)"
  by (simp_all add: prefix_defs)

definition searchKey :: "env \<Rightarrow> string \<Rightarrow> string" where
  "searchKey E url = searchPrefix @ hashKey E url"

text \<open>\<open>persistState\<close>: six prefixes are cleared and written; contracts are not among them.\<close>

definition legacy_prefixes :: "string list" where
  "legacy_prefixes = [balancePrefix, noncePrefix, searchPrefix, mentionPrefix, taskPrefix, namePrefix]"

definition put_plain :: "string \<Rightarrow> ('v \<Rightarrow> bytes) \<Rightarrow> (string \<times> 'v) list \<Rightarrow> kv \<Rightarrow> kv" where
  "put_plain p show_v xs db = fold (\<lambda>(k, v) m. fmupd (p @ k) (show_v v) m) xs db"

fun put_json :: "formats \<Rightarrow> 'v fmt \<Rightarrow> (string \<Rightarrow> string) \<Rightarrow> (string \<times> 'v) list \<Rightarrow> kv \<Rightarrow> kv res" where
  "put_json C F key [] db = Inr db"
| "put_json C F key ((k, v) # rest) db =
     (case encodeStoredJSON C F v of
        Inl e \<Rightarrow> Inl e
      | Inr payload \<Rightarrow> put_json C F key rest (fmupd (key k) payload db))"

definition persistState :: "env \<Rightarrow> formats \<Rightarrow> StateSnapshot \<Rightarrow> kv \<Rightarrow> kv res" where
  "persistState E C state db =
     (let db0 = fold clearPrefix legacy_prefixes db;
          db1 = put_plain balancePrefix show_int (fm_entries (Balances state)) db0;
          db2 = put_plain noncePrefix FormatUint (fm_entries (Nonces state)) db1
      in case put_json C (fmt_doc C) (searchKey E) (fm_entries (SearchIndex state)) db2 of
           Inl e \<Rightarrow> Inl e
         | Inr db3 \<Rightarrow>
        (case put_json C (fmt_task C) ((@) taskPrefix) (fm_entries (PendingTasks state))
                (put_plain mentionPrefix FormatUint (fm_entries (MentionCounts state)) db3) of
           Inl e \<Rightarrow> Inl e
         | Inr db4 \<Rightarrow> put_json C (fmt_name C) ((@) namePrefix) (fm_entries (Names state)) db4))"

text \<open>What \<open>loadLocked\<close> reads from the older layout, one function per prefix.\<close>

definition read_balance :: "StateSnapshot \<Rightarrow> string \<Rightarrow> bytes \<Rightarrow> StateSnapshot res" where
  "read_balance st key v =
     (case SetString v of
        None \<Rightarrow> Inl ErrInvalidBlock
      | Some amount \<Rightarrow> Inr (st\<lparr>Balances := fmupd (TrimPrefix balancePrefix key) amount (Balances st)\<rparr>))"

definition read_nonce :: "StateSnapshot \<Rightarrow> string \<Rightarrow> bytes \<Rightarrow> StateSnapshot res" where
  "read_nonce st key v =
     (case ParseUint v of
        Inl e \<Rightarrow> Inl e
      | Inr nonce \<Rightarrow> Inr (st\<lparr>Nonces := fmupd (TrimPrefix noncePrefix key) nonce (Nonces st)\<rparr>))"

definition read_search :: "formats \<Rightarrow> StateSnapshot \<Rightarrow> string \<Rightarrow> bytes \<Rightarrow> StateSnapshot res" where
  "read_search C st key v =
     (case decodeStoredJSON C (fmt_doc C) v of
        Inl e \<Rightarrow> Inl e
      | Inr doc \<Rightarrow> Inr (st\<lparr>SearchIndex := fmupd (doc_URL doc) doc (SearchIndex st)\<rparr>))"

definition read_mention :: "StateSnapshot \<Rightarrow> string \<Rightarrow> bytes \<Rightarrow> StateSnapshot res" where
  "read_mention st key v =
     (case ParseUint v of
        Inl e \<Rightarrow> Inl e
      | Inr n \<Rightarrow> Inr (st\<lparr>MentionCounts := fmupd (TrimPrefix mentionPrefix key) n (MentionCounts st)\<rparr>))"

definition read_task :: "formats \<Rightarrow> StateSnapshot \<Rightarrow> string \<Rightarrow> bytes \<Rightarrow> StateSnapshot res" where
  "read_task C st key v =
     (case decodeStoredJSON C (fmt_task C) v of
        Inl e \<Rightarrow> Inl e
      | Inr task \<Rightarrow> Inr (st\<lparr>PendingTasks := fmupd (task_ID task) task (PendingTasks st)\<rparr>))"

definition read_name :: "formats \<Rightarrow> StateSnapshot \<Rightarrow> string \<Rightarrow> bytes \<Rightarrow> StateSnapshot res" where
  "read_name C st key v =
     (case decodeStoredJSON C (fmt_name C) v of
        Inl e \<Rightarrow> Inl e
      | Inr rec \<Rightarrow> Inr (st\<lparr>Names := fmupd (name_Name rec) rec (Names st)\<rparr>))"

definition legacy_readers :: "formats \<Rightarrow> (string \<times> (StateSnapshot \<Rightarrow> string \<Rightarrow> bytes \<Rightarrow> StateSnapshot res)) list" where
  "legacy_readers C =
     [(balancePrefix, read_balance), (noncePrefix, read_nonce), (searchPrefix, read_search C),
      (mentionPrefix, read_mention), (taskPrefix, read_task C), (namePrefix, read_name C)]"

fun read_layout ::
    "kv \<Rightarrow> (string \<times> (StateSnapshot \<Rightarrow> string \<Rightarrow> bytes \<Rightarrow> StateSnapshot res)) list \<Rightarrow> StateSnapshot \<Rightarrow> StateSnapshot res" where
  "read_layout db [] st = Inr st"
| "read_layout db ((p, fn) # rest) st =
     (case iteratePrefix db p fn st of Inl e \<Rightarrow> Inl e | Inr st' \<Rightarrow> read_layout db rest st')"

definition legacy_state :: "formats \<Rightarrow> kv \<Rightarrow> StateSnapshot res" where
  "legacy_state C db = read_layout db (legacy_readers C) NewStateSnapshot"


section \<open>Round trip of the older layout\<close>

text \<open>
  \<open>holds_map p key enc m db\<close>: below the prefix \<open>p\<close> the database holds exactly the entries of \<open>m\<close>, at
  \<open>key\<close> of their key and as \<open>enc\<close> of their value. \<open>put_all\<close> is what both ways of writing a map come to.
\<close>

definition holds_map :: "string \<Rightarrow> (string \<Rightarrow> string) \<Rightarrow> ('v \<Rightarrow> bytes) \<Rightarrow> (string, 'v) fmap \<Rightarrow> kv \<Rightarrow> bool" where
  "holds_map p key enc m db \<longleftrightarrow>
     (\<forall>k v. prefix p k \<longrightarrow>
        fmlookup db k = Some v \<longleftrightarrow> (\<exists>a x. fmlookup m a = Some x \<and> k = key a \<and> v = enc x))"

definition no_prefix :: "string \<Rightarrow> kv \<Rightarrow> bool" where
  "no_prefix p db \<longleftrightarrow> (\<forall>k. prefix p k \<longrightarrow> fmlookup db k = None)"

definition put_all :: "(string \<Rightarrow> string) \<Rightarrow> ('v \<Rightarrow> bytes) \<Rightarrow> (string \<times> 'v) list \<Rightarrow> kv \<Rightarrow> kv" where
  "put_all key enc xs db = fold (\<lambda>(k, v) m. fmupd k v m) (map (\<lambda>(k, v). (key k, enc v)) xs) db"

definition encoded :: "formats \<Rightarrow> 'v fmt \<Rightarrow> 'v \<Rightarrow> bytes" where
  "encoded C F v = (case encodeStoredJSON C F v of Inl _ \<Rightarrow> [] | Inr p \<Rightarrow> p)"

lemma put_plain_all: "put_plain p sh xs = put_all ((@) p) sh xs"
  by (simp add: put_plain_def put_all_def fold_map comp_def case_prod_unfold fun_eq_iff)

lemma put_json_all:
  "gzip_ok C \<Longrightarrow> list_all (\<lambda>(k, v). storable C F v) xs \<Longrightarrow>
   put_json C F key xs db = Inr (put_all key (encoded C F) xs db)"
proof (induction xs arbitrary: db)
  case (Cons x xs)
  obtain k v where x: "x = (k, v)" by (cases x)
  with Cons.prems obtain p where p: "encodeStoredJSON C F v = Inr p" using stored_round_trip by fastforce
  then show ?case using Cons by (simp add: x put_all_def encoded_def)
qed (simp add: put_all_def)

lemma decode_encoded: "gzip_ok C \<Longrightarrow> storable C F v \<Longrightarrow> decodeStoredJSON C F (encoded C F v) = Inr v"
  using stored_round_trip [of C F v] by (auto simp: encoded_def)

lemma put_all_holds:
  assumes inj: "inj_on key (fset (fmdom m))" and pre: "\<And>a. prefix p (key a)"
    and empty: "no_prefix p db"
  shows "holds_map p key enc m (put_all key enc (fm_entries m) db)"
proof -
  let ?ys = "map (\<lambda>(k, v). (key k, enc v)) (fm_entries m)"
  have keys: "map fst ?ys = map key (map fst (fm_entries m))" by (simp add: case_prod_unfold)
  have "set (map fst (fm_entries m)) = fset (fmdom m)"
    by (simp add: fm_entries_fst sorted_list_of_fset_simps)
  then have dist: "distinct (map fst ?ys)"
    unfolding keys using inj distinct_fm_entries_fst [of m] by (simp only: distinct_map simp_thms)
  show ?thesis
    unfolding holds_map_def
  proof (intro allI impI)
    fix k v assume "prefix p k"
    then have "fmlookup (put_all key enc (fm_entries m) db) k = map_of ?ys k"
      using empty by (simp add: no_prefix_def put_all_def fold_fmupd_lookup [OF dist] split: option.splits)
    moreover have "map_of ?ys k = Some v \<longleftrightarrow> (k, v) \<in> set ?ys" by (rule map_of_eq_Some_iff [OF dist])
    ultimately show "fmlookup (put_all key enc (fm_entries m) db) k = Some v \<longleftrightarrow>
        (\<exists>a x. fmlookup m a = Some x \<and> k = key a \<and> v = enc x)"
      by (force simp: fm_entries_iff)
  qed
qed

lemma put_all_frame: "(\<And>a. key a \<noteq> k) \<Longrightarrow> fmlookup (put_all key enc xs db) k = fmlookup db k"
  by (induction xs arbitrary: db) (auto simp: put_all_def)

lemma put_all_below: "\<forall>a. \<not> prefix p (key a) \<Longrightarrow> prefix p k \<Longrightarrow> fmlookup (put_all key enc xs db) k = fmlookup db k"
  by (rule put_all_frame) auto

lemma put_all_keeps [simp]:
  "\<forall>a. \<not> prefix p (key a) \<Longrightarrow> holds_map p key' enc' m (put_all key enc xs db) = holds_map p key' enc' m db"
  "\<forall>a. \<not> prefix p (key a) \<Longrightarrow> no_prefix p (put_all key enc xs db) = no_prefix p db"
  by (simp_all add: holds_map_def no_prefix_def put_all_below cong: imp_cong)

text \<open>Reading such a map back with a reader that restores one field of the state.\<close>

lemma iterate_field:
  assumes "\<And>a x s. (a, x) \<in> set ys \<Longrightarrow> fn s (key a) (enc x) = Inr (upd (fmupd a x) s)"
    and "\<And>f g s. upd f (upd g s) = upd (f \<circ> g) s" and "\<And>s. upd id s = s"
  shows "iterate fn (map (\<lambda>(a, x). (key a, enc x)) ys) s = Inr (upd (fold (\<lambda>(a, x) m. fmupd a x m) ys) s)"
  using assms(1)
proof (induction ys arbitrary: s)
  case (Cons y ys)
  then show ?case by (cases y) (simp add: assms(2) comp_def)
qed (simp add: assms(3) id_def [symmetric])

lemma read_field:
  assumes holds: "holds_map p key enc m db"
    and fn: "\<And>a x s. fmlookup m a = Some x \<Longrightarrow> fn s (key a) (enc x) = Inr (upd (fmupd a x) s)"
    and upd: "\<And>f g s. upd f (upd g s) = upd (f \<circ> g) s" "\<And>s. upd id s = s"
    and same: "\<And>f g. f fmempty = g fmempty \<Longrightarrow> upd f s = upd g s"
    and pre: "\<And>a. prefix p (key a)" and inj: "inj_on key (fset (fmdom m))"
  shows "iteratePrefix db p fn s = Inr (upd (\<lambda>_. m) s)"
proof -
  let ?xs = "with_prefix p db"
  let ?f = "\<lambda>(a, x). (key a, enc x)"
  let ?G = "{(a, x). fmlookup m a = Some x}"
  have set_xs: "set ?xs = ?f ` ?G"
  proof (rule set_eqI)
    fix kv :: "string \<times> bytes" obtain k v where kv: "kv = (k, v)" by (cases kv)
    have "kv \<in> set ?xs \<longleftrightarrow> prefix p k \<and> fmlookup db k = Some v"
      by (auto simp: kv with_prefix_def fm_entries_iff)
    also have "\<dots> \<longleftrightarrow> (\<exists>a x. fmlookup m a = Some x \<and> k = key a \<and> v = enc x)"
      using holds pre unfolding holds_map_def by metis
    also have "\<dots> \<longleftrightarrow> kv \<in> ?f ` ?G" by (auto simp: kv image_iff)
    finally show "kv \<in> set ?xs \<longleftrightarrow> kv \<in> ?f ` ?G" .
  qed
  then have "?xs \<in> map ?f ` lists ?G" by (auto simp: lists_image [symmetric])
  then obtain ys where ys: "?xs = map ?f ys" "set ys \<subseteq> ?G" by auto
  have "distinct (map fst ?xs)"
    by (simp add: with_prefix_def distinct_map_filter distinct_fm_entries_fst)
  then have dist: "distinct (map fst ys)"
    unfolding ys(1) by (auto simp: comp_def case_prod_unfold distinct_map inj_on_def)
  have "map_of ys a = fmlookup m a" for a
  proof (cases "fmlookup m a")
    case (Some x)
    then have "(key a, enc x) \<in> set ?xs" using set_xs by force
    then obtain b y where b: "(b, y) \<in> set ys" "key b = key a" by (auto simp: ys(1))
    then have "b = a" using ys(2) Some inj by (auto simp: inj_on_def fmlookup_dom_iff)
    with b ys(2) Some dist show ?thesis by (auto simp: map_of_eq_Some_iff)
  next
    case None
    then show ?thesis using ys(2) by (auto simp: map_of_eq_None_iff)
  qed
  then have all: "fold (\<lambda>(a, x) m. fmupd a x m) ys fmempty = m"
    by (intro fmap_ext) (simp add: fold_fmupd_lookup dist split: option.splits)
  have "iteratePrefix db p fn s = Inr (upd (fold (\<lambda>(a, x) m. fmupd a x m) ys) s)"
    unfolding iteratePrefix_def ys(1) 
    by (rule iterate_field [OF _ upd]) (use ys(2) in \<open>auto intro: fn\<close>)
  also have "upd (fold (\<lambda>(a, x) m. fmupd a x m) ys) s = upd (\<lambda>_. m) s"
    by (rule same) (simp add: all)
  finally show ?thesis .
qed


definition legacy_storable :: "env \<Rightarrow> formats \<Rightarrow> StateSnapshot \<Rightarrow> bool" where
  "legacy_storable E C state \<longleftrightarrow>
     gzip_ok C \<and> inj_on (hashKey E) (fset (fmdom (SearchIndex state)))
     \<and> (\<forall>url doc. fmlookup (SearchIndex state) url = Some doc \<longrightarrow> doc_URL doc = url \<and> storable C (fmt_doc C) doc)
     \<and> (\<forall>id task. fmlookup (PendingTasks state) id = Some task \<longrightarrow> task_ID task = id \<and> storable C (fmt_task C) task)
     \<and> (\<forall>n r. fmlookup (Names state) n = Some r \<longrightarrow> name_Name r = n \<and> storable C (fmt_name C) r)"

lemma clearPrefix_lookup: "fmlookup (clearPrefix p db) k = (if prefix p k then None else fmlookup db k)"
proof -
  have "fmlookup (fold (\<lambda>(k, v). fmdrop k) xs d) k = (if k \<in> fst ` set xs then None else fmlookup d k)" for xs d
    by (induction xs arbitrary: d) (auto simp: case_prod_unfold)
  note drop = this
  have "k \<in> fst ` set (with_prefix p db) \<longleftrightarrow> prefix p k \<and> fmlookup db k \<noteq> None"
    by (force simp: with_prefix_def image_iff fm_entries_iff)
  then show ?thesis unfolding clearPrefix_def drop by auto
qed

lemma legacy_prefix_member [simp]:
  "balancePrefix \<in> set legacy_prefixes" "noncePrefix \<in> set legacy_prefixes" "searchPrefix \<in> set legacy_prefixes"
  "mentionPrefix \<in> set legacy_prefixes" "taskPrefix \<in> set legacy_prefixes" "namePrefix \<in> set legacy_prefixes"
  by (simp_all add: legacy_prefixes_def)

lemma TrimPrefix_append [simp]: "TrimPrefix p (p @ s) = s"
  by (simp add: TrimPrefix_def)

lemma cleared: "p \<in> set legacy_prefixes \<Longrightarrow> no_prefix p (fold clearPrefix legacy_prefixes db)"
  by (auto simp: no_prefix_def legacy_prefixes_def clearPrefix_lookup)

lemma read_string_keys:
  assumes "holds_map p ((@) p) enc m db"
    and "\<And>a x s. fmlookup m a = Some x \<Longrightarrow> fn s (p @ a) (enc x) = Inr (upd (fmupd a x) s)"
    and "\<And>f g s. upd f (upd g s) = upd (f \<circ> g) s" "\<And>s. upd id s = s"
    and "\<And>f g. f fmempty = g fmempty \<Longrightarrow> upd f s = upd g s"
  shows "iteratePrefix db p fn s = Inr (upd (\<lambda>_. m) s)"
  by (rule read_field [OF assms]) (simp_all add: inj_on_def)

text \<open>
  A state written in the older layout reads back without its contracts, which that layout has no keys for, when every
  record carries the key it is stored under and no two indexed URLs have the same digest.
\<close>

theorem older_layout_round_trip:
  assumes "legacy_storable E C state"
  shows "\<exists>db'. persistState E C state db = Inr db' \<and>
           legacy_state C db' = Inr (state\<lparr>Contracts := fmempty, ContractData := fmempty\<rparr>)"
proof -
  let ?db0 = "fold clearPrefix legacy_prefixes db"
  note ok = assms [unfolded legacy_storable_def]
  let ?db1 = "put_all ((@) balancePrefix) show_int (fm_entries (Balances state)) ?db0"
  let ?db2 = "put_all ((@) noncePrefix) FormatUint (fm_entries (Nonces state)) ?db1"
  let ?db3 = "put_all (searchKey E) (encoded C (fmt_doc C)) (fm_entries (SearchIndex state)) ?db2"
  let ?db4 = "put_all ((@) mentionPrefix) FormatUint (fm_entries (MentionCounts state)) ?db3"
  let ?db5 = "put_all ((@) taskPrefix) (encoded C (fmt_task C)) (fm_entries (PendingTasks state)) ?db4"
  let ?db6 = "put_all ((@) namePrefix) (encoded C (fmt_name C)) (fm_entries (Names state)) ?db5"
  have "list_all (\<lambda>(k, v). storable C (fmt_doc C) v) (fm_entries (SearchIndex state))"
    "list_all (\<lambda>(k, v). storable C (fmt_task C) v) (fm_entries (PendingTasks state))"
    "list_all (\<lambda>(k, v). storable C (fmt_name C) v) (fm_entries (Names state))"
    using ok by (auto simp: list_all_iff fm_entries_iff)
  then have written: "persistState E C state db = Inr ?db6"
    using ok by (simp add: persistState_def Let_def put_plain_all put_json_all)
  have inj: "inj_on (searchKey E) (fset (fmdom (SearchIndex state)))"
    using ok by (simp add: inj_on_def searchKey_def)
  have cl: "no_prefix p ?db0" if "p \<in> set legacy_prefixes" for p using that by (rule cleared)
  have sk: "prefix p (searchKey E a) \<longleftrightarrow> prefix p (searchPrefix @ hashKey E a)" for p a by (simp add: searchKey_def)
  have h: "holds_map balancePrefix ((@) balancePrefix) show_int (Balances state) ?db6"
    "holds_map noncePrefix ((@) noncePrefix) FormatUint (Nonces state) ?db6"
    "holds_map searchPrefix (searchKey E) (encoded C (fmt_doc C)) (SearchIndex state) ?db6"
    "holds_map mentionPrefix ((@) mentionPrefix) FormatUint (MentionCounts state) ?db6"
    "holds_map taskPrefix ((@) taskPrefix) (encoded C (fmt_task C)) (PendingTasks state) ?db6"
    "holds_map namePrefix ((@) namePrefix) (encoded C (fmt_name C)) (Names state) ?db6"
    by (simp_all add: sk put_all_holds inj cl inj_on_def [of "(@) p" for p])
  have r1: "iteratePrefix ?db6 balancePrefix read_balance s = Inr (Balances_update (\<lambda>_. Balances state) s)"
    if "Balances s = fmempty" for s
    by (rule read_string_keys [OF h(1)]) (auto intro!: StateSnapshot.equality simp: read_balance_def that)
  have r2: "iteratePrefix ?db6 noncePrefix read_nonce s = Inr (Nonces_update (\<lambda>_. Nonces state) s)"
    if "Nonces s = fmempty" for s
    by (rule read_string_keys [OF h(2)]) (auto intro!: StateSnapshot.equality simp: read_nonce_def that)
  have r3: "iteratePrefix ?db6 searchPrefix (read_search C) s = Inr (SearchIndex_update (\<lambda>_. SearchIndex state) s)"
    if "SearchIndex s = fmempty" for s
    by (rule read_field [OF h(3)]) (use ok in \<open>auto intro!: StateSnapshot.equality simp: read_search_def that decode_encoded sk inj\<close>)
  have r4: "iteratePrefix ?db6 mentionPrefix read_mention s = Inr (MentionCounts_update (\<lambda>_. MentionCounts state) s)"
    if "MentionCounts s = fmempty" for s
    by (rule read_string_keys [OF h(4)]) (auto intro!: StateSnapshot.equality simp: read_mention_def that)
  have r5: "iteratePrefix ?db6 taskPrefix (read_task C) s = Inr (PendingTasks_update (\<lambda>_. PendingTasks state) s)"
    if "PendingTasks s = fmempty" for s
    by (rule read_string_keys [OF h(5)]) (use ok in \<open>auto intro!: StateSnapshot.equality simp: read_task_def that decode_encoded\<close>)
  have r6: "iteratePrefix ?db6 namePrefix (read_name C) s = Inr (Names_update (\<lambda>_. Names state) s)"
    if "Names s = fmempty" for s
    by (rule read_string_keys [OF h(6)]) (use ok in \<open>auto intro!: StateSnapshot.equality simp: read_name_def that decode_encoded\<close>)
  have "legacy_state C ?db6 = Inr (state\<lparr>Contracts := fmempty, ContractData := fmempty\<rparr>)"
    unfolding legacy_state_def legacy_readers_def NewStateSnapshot_def read_layout.simps
    by (simp add: r1 r2 r3 r4 r5 r6 del: fold.simps)
  then show ?thesis using written by blast
qed

end
