(* ===== verification/Database.thy ===== *)
theory Database
  imports State_Codec
begin

text \<open>
  The database transactions of \<open>src/core/blockchain.go\<close> on bytes, and that they implement the operations of
  \<open>Storage\<close>: \<open>represents C db st\<close> relates a byte database to the decoded store, the reading functions agree
  under it, and the transaction that writes a block as the new tip keeps it.
\<close>

section \<open>Transactions on bytes\<close>

definition kv_loadBlockMetaTxn :: "formats \<Rightarrow> kv \<Rightarrow> string \<Rightarrow> BlockMeta res" where
  "kv_loadBlockMetaTxn C db hash =
     (case fmlookup db (blockMetaKey hash) of None \<Rightarrow> Inl ErrBlockNotFound | Some p \<Rightarrow> json_Unmarshal (fmt_meta C) p)"

definition kv_loadBlockTxn :: "formats \<Rightarrow> kv \<Rightarrow> string \<Rightarrow> Block res" where
  "kv_loadBlockTxn C db hash =
     (case fmlookup db (blockHashKey hash) of None \<Rightarrow> Inl ErrBlockNotFound | Some p \<Rightarrow> decodeStoredJSON C (fmt_block C) p)"

definition kv_loadStateSnapshotTxn :: "formats \<Rightarrow> kv \<Rightarrow> string \<Rightarrow> StateSnapshot res" where
  "kv_loadStateSnapshotTxn C db hash =
     (case fmlookup db (stateSnapshotKey hash) of None \<Rightarrow> Inl ErrBlockNotFound | Some p \<Rightarrow> unmarshalStateSnapshot C p)"

definition kv_storeBlockMetaTxn :: "formats \<Rightarrow> BlockMeta \<Rightarrow> kv \<Rightarrow> kv res" where
  "kv_storeBlockMetaTxn C meta db =
     (case json_Marshal (fmt_meta C) meta of Inl e \<Rightarrow> Inl e | Inr p \<Rightarrow> Inr (fmupd (blockMetaKey (meta_Hash meta)) p db))"

definition kv_persistStateSnapshot :: "formats \<Rightarrow> string \<Rightarrow> StateSnapshot \<Rightarrow> kv \<Rightarrow> kv res" where
  "kv_persistStateSnapshot C blockHash state db =
     (case marshalStateSnapshot C state of
        Inl e \<Rightarrow> Inl e
      | Inr p \<Rightarrow> Inr (fmupd (stateSnapshotKey blockHash) (compressForStorage C p) db))"

fun kv_put_txs :: "formats \<Rightarrow> Transaction list \<Rightarrow> kv \<Rightarrow> kv res" where
  "kv_put_txs C [] db = Inr db"
| "kv_put_txs C (tx # txs) db =
     (case json_Marshal (fmt_tx C) tx of Inl e \<Rightarrow> Inl e | Inr p \<Rightarrow> kv_put_txs C txs (fmupd (txKey (tx_Hash tx)) p db))"

definition kv_persistBlockArtifacts :: "formats \<Rightarrow> StateSnapshot \<Rightarrow> Block \<Rightarrow> BlockMeta \<Rightarrow> kv \<Rightarrow> kv res" where
  "kv_persistBlockArtifacts C state block meta db =
     (case encodeStoredJSON C (fmt_block C) block of
        Inl e \<Rightarrow> Inl e
      | Inr blockPayload \<Rightarrow>
     (case json_Marshal (fmt_meta C) meta of
        Inl e \<Rightarrow> Inl e
      | Inr metaPayload \<Rightarrow>
     (case kv_put_txs C (body_Transactions (blk_Body block))
             (fmupd (blockMetaKey (blk_Hash block)) metaPayload (fmupd (blockHashKey (blk_Hash block)) blockPayload db)) of
        Inl e \<Rightarrow> Inl e
      | Inr db1 \<Rightarrow> kv_persistStateSnapshot C (blk_Hash block) state db1)))"

definition kv_persistNetworkConfig :: "env \<Rightarrow> formats \<Rightarrow> NetworkConfig \<Rightarrow> kv \<Rightarrow> kv res" where
  "kv_persistNetworkConfig E C config db =
     (case NormalizeNetworkConfig E config of
        Inl e \<Rightarrow> Inl e
      | Inr normalized \<Rightarrow>
          (case json_Marshal (fmt_network C) normalized of
             Inl e \<Rightarrow> Inl e
           | Inr p \<Rightarrow> Inr (fmupd metaNetworkConfigKey p db)))"

partial_function (option) kv_old_ancestors ::
    "formats \<Rightarrow> kv \<Rightarrow> string \<Rightarrow> string list \<Rightarrow> string list res option" where
  "kv_old_ancestors C db current seen =
     (if current = [] then Some (Inr seen)
      else
        (case kv_loadBlockMetaTxn C db current of
           Inl e \<Rightarrow> Some (Inl e)
         | Inr meta \<Rightarrow> kv_old_ancestors C db (meta_ParentHash meta) (seen @ [current])))"

partial_function (option) kv_new_path ::
    "formats \<Rightarrow> kv \<Rightarrow> string list \<Rightarrow> string \<Rightarrow> BlockMeta list \<Rightarrow> (string \<times> BlockMeta list) res option" where
  "kv_new_path C db ancestors current path =
     (if current = [] then Some (Inr ([], path))
      else
        (case kv_loadBlockMetaTxn C db current of
           Inl e \<Rightarrow> Some (Inl e)
         | Inr meta \<Rightarrow>
             if current \<in> set ancestors then Some (Inr (current, path))
             else kv_new_path C db ancestors (meta_ParentHash meta) (path @ [meta])))"

partial_function (option) kv_old_path ::
    "formats \<Rightarrow> kv \<Rightarrow> string \<Rightarrow> string \<Rightarrow> BlockMeta list \<Rightarrow> BlockMeta list res option" where
  "kv_old_path C db common current path =
     (if current = [] \<or> current = common then Some (Inr path)
      else
        (case kv_loadBlockMetaTxn C db current of
           Inl e \<Rightarrow> Some (Inl e)
         | Inr meta \<Rightarrow> kv_old_path C db common (meta_ParentHash meta) (path @ [meta])))"

definition kv_reorgPaths :: "formats \<Rightarrow> kv \<Rightarrow> string \<Rightarrow> string \<Rightarrow> (BlockMeta list \<times> BlockMeta list) res option" where
  "kv_reorgPaths C db oldTipHash newTipHash =
     (if TrimSpace newTipHash = [] then Some (Inl ErrInvalidBlock)
      else if TrimSpace oldTipHash = [] then
        Some (case kv_loadBlockMetaTxn C db newTipHash of Inl e \<Rightarrow> Inl e | Inr newTip \<Rightarrow> Inr ([], [newTip]))
      else
        andThen (kv_old_ancestors C db (TrimSpace oldTipHash) []) (\<lambda>ancestors.
        andThen (kv_new_path C db ancestors (TrimSpace newTipHash) []) (\<lambda>(common, newPath).
          if common = [] then Some (Inl ErrInvalidBlock)
          else andThen (kv_old_path C db common (TrimSpace oldTipHash) []) (\<lambda>oldPath. Some (Inr (oldPath, newPath))))))"

fun kv_retire_all :: "formats \<Rightarrow> BlockMeta list \<Rightarrow> kv \<Rightarrow> kv res" where
  "kv_retire_all C [] db = Inr db"
| "kv_retire_all C (meta # ms) db =
     (case kv_storeBlockMetaTxn C (meta\<lparr>meta_Canonical := False\<rparr>) db of
        Inl e \<Rightarrow> Inl e
      | Inr db1 \<Rightarrow> kv_retire_all C ms (fmdrop (blockNumberKey (meta_Number meta)) db1))"

fun kv_adopt_all :: "formats \<Rightarrow> kv \<Rightarrow> BlockMeta list \<Rightarrow> kv res" where
  "kv_adopt_all C db [] = Inr db"
| "kv_adopt_all C db (meta # ms) =
     (case kv_storeBlockMetaTxn C (meta\<lparr>meta_Canonical := True\<rparr>) db of
        Inl e \<Rightarrow> Inl e
      | Inr db1 \<Rightarrow>
     (case kv_loadBlockTxn C db1 (meta_Hash meta) of
        Inl e \<Rightarrow> Inl e
      | Inr block \<Rightarrow>
     (case encodeStoredJSON C (fmt_block C) block of
        Inl e \<Rightarrow> Inl e
      | Inr payload \<Rightarrow> kv_adopt_all C (fmupd (blockNumberKey (meta_Number meta)) payload db1) ms)))"

definition kv_rewriteCanonicalTip :: "formats \<Rightarrow> string \<Rightarrow> string \<Rightarrow> kv \<Rightarrow> kv res option" where
  "kv_rewriteCanonicalTip C oldTipHash newTipHash db =
     (if TrimSpace newTipHash = [] then Some (Inl ErrInvalidBlock)
      else andThen (kv_reorgPaths C db oldTipHash newTipHash) (\<lambda>(oldPath, newPath).
        Some (case kv_retire_all C oldPath db of Inl e \<Rightarrow> Inl e | Inr db1 \<Rightarrow> kv_adopt_all C db1 (rev newPath))))"

definition kv_set_tip :: "Block \<Rightarrow> kv \<Rightarrow> kv" where
  "kv_set_tip block db =
     fmupd metaLatestBlockKey (FormatUint (hdr_Number (blk_Header block))) (fmupd metaLatestHashKey (blk_Hash block) db)"

text \<open>The transaction of \<open>persistCanonicalTipLocked\<close>.\<close>

definition kv_persistCanonicalTip ::
    "env \<Rightarrow> formats \<Rightarrow> string \<Rightarrow> NetworkConfig \<Rightarrow> StateSnapshot \<Rightarrow> Block \<Rightarrow> BlockMeta \<Rightarrow> kv \<Rightarrow> kv res option" where
  "kv_persistCanonicalTip E C oldTip network state block meta db =
     (case kv_persistBlockArtifacts C state block meta db of
        Inl e \<Rightarrow> Some (Inl e)
      | Inr db1 \<Rightarrow>
          andThen (kv_rewriteCanonicalTip C oldTip (meta_Hash meta) db1) (\<lambda>db2.
            Some (case kv_persistNetworkConfig E C network db2 of
                    Inl e \<Rightarrow> Inl e
                  | Inr db3 \<Rightarrow> Inr (kv_set_tip block db3))))"

text \<open>\<open>loadLocked\<close>: only a missing tip, meta or snapshot is tolerated, any other error is returned.\<close>

definition kv_meta_or_synthetic :: "formats \<Rightarrow> kv \<Rightarrow> Block \<Rightarrow> string \<Rightarrow> BlockMeta res" where
  "kv_meta_or_synthetic C db latest hash =
     (case kv_loadBlockMetaTxn C db hash of
        Inl e \<Rightarrow> if e = ErrBlockNotFound then Inr (syntheticLatestMeta latest) else Inl e
      | Inr m \<Rightarrow> Inr m)"

definition kv_load_network :: "env \<Rightarrow> formats \<Rightarrow> kv \<Rightarrow> Blockchain \<Rightarrow> Blockchain res" where
  "kv_load_network E C db bc =
     (case fmlookup db metaNetworkConfigKey of
        None \<Rightarrow> Inr bc
      | Some p \<Rightarrow>
     (case json_Unmarshal (fmt_network C) p of
        Inl e \<Rightarrow> Inl e
      | Inr cfg \<Rightarrow>
          (case NormalizeNetworkConfig E cfg of Inl e \<Rightarrow> Inl e | Inr normalized \<Rightarrow> Inr (bc\<lparr>bc_network := normalized\<rparr>))))"

definition kv_load_tip :: "formats \<Rightarrow> kv \<Rightarrow> Blockchain \<Rightarrow> Blockchain option res" where
  "kv_load_tip C db bc =
     (let latestHash = (case fmlookup db metaLatestHashKey of None \<Rightarrow> [] | Some h \<Rightarrow> TrimSpace h) in
      if latestHash = [] then Inr None
      else
        (case kv_loadBlockTxn C db latestHash of
           Inl e \<Rightarrow> if e = ErrBlockNotFound then Inr None else Inl e
         | Inr latest \<Rightarrow>
        (case kv_meta_or_synthetic C db latest latestHash of
           Inl e \<Rightarrow> Inl e
         | Inr meta \<Rightarrow>
        (case kv_loadStateSnapshotTxn C db latestHash of
           Inl e \<Rightarrow> if e = ErrBlockNotFound then Inr None else Inl e
         | Inr latestState \<Rightarrow>
             Inr (Some (bc\<lparr>bc_latest := latest, bc_latestMeta := meta, bc_state := latestState\<rparr>))))))"

definition kv_load_legacy :: "formats \<Rightarrow> kv \<Rightarrow> Blockchain \<Rightarrow> Blockchain res" where
  "kv_load_legacy C db bc =
     (case legacy_state C db of
        Inl e \<Rightarrow> Inl e
      | Inr state \<Rightarrow>
     (case fmlookup db metaLatestBlockKey of
        None \<Rightarrow> Inr (bc\<lparr>bc_state := state\<rparr>)
      | Some p \<Rightarrow>
     (case ParseUint p of
        Inl e \<Rightarrow> Inl e
      | Inr n \<Rightarrow>
     (case fmlookup db (blockNumberKey n) of
        None \<Rightarrow> Inl (ErrText ''Key not found'')
      | Some q \<Rightarrow>
     (case decodeStoredJSON C (fmt_block C) q of
        Inl e \<Rightarrow> Inl e
      | Inr latest \<Rightarrow>
     (case kv_meta_or_synthetic C db latest (blk_Hash latest) of
        Inl e \<Rightarrow> Inl e
      | Inr meta \<Rightarrow> Inr (bc\<lparr>bc_state := state, bc_latest := latest, bc_latestMeta := meta\<rparr>)))))))"

definition kv_loadLocked :: "env \<Rightarrow> formats \<Rightarrow> kv \<Rightarrow> Blockchain \<Rightarrow> Blockchain res" where
  "kv_loadLocked E C db bc =
     (case kv_load_network E C db (bc\<lparr>bc_state := NewStateSnapshot\<rparr>) of
        Inl e \<Rightarrow> Inl e
      | Inr bc1 \<Rightarrow>
          (case kv_load_tip C db bc1 of
             Inl e \<Rightarrow> Inl e
           | Inr (Some bc2) \<Rightarrow> Inr bc2
           | Inr None \<Rightarrow> kv_load_legacy C db bc1))"

section \<open>What a byte database represents\<close>

definition entry :: "('a \<Rightarrow> bool) \<Rightarrow> (bytes \<Rightarrow> 'a res) \<Rightarrow> bytes option \<Rightarrow> 'a option \<Rightarrow> bool" where
  "entry ok dec p v =
     (case (p, v) of
        (None, None) \<Rightarrow> True
      | (Some p, Some v) \<Rightarrow> dec p = Inr v \<and> ok v
      | _ \<Rightarrow> False)"

definition storable_meta :: "formats \<Rightarrow> BlockMeta \<Rightarrow> bool" where
  "storable_meta C meta \<longleftrightarrow>
     storable C (fmt_meta C) (meta\<lparr>meta_Canonical := False\<rparr>) \<and> storable C (fmt_meta C) (meta\<lparr>meta_Canonical := True\<rparr>)"

definition represents :: "formats \<Rightarrow> kv \<Rightarrow> Store \<Rightarrow> bool" where
  "represents C db st \<longleftrightarrow>
     (\<forall>n. entry (storable C (fmt_block C)) (decodeStoredJSON C (fmt_block C))
            (fmlookup db (blockNumberKey n)) (fmlookup (st_numbers st) n))
     \<and> (\<forall>h. entry (storable C (fmt_block C)) (decodeStoredJSON C (fmt_block C))
            (fmlookup db (blockHashKey h)) (fmlookup (st_blocks st) h))
     \<and> (\<forall>h. entry (storable_meta C) (json_Unmarshal (fmt_meta C))
            (fmlookup db (blockMetaKey h)) (fmlookup (st_metas st) h))
     \<and> (\<forall>h. entry (\<lambda>_. True) (unmarshalStateSnapshot C)
            (fmlookup db (stateSnapshotKey h)) (fmlookup (st_states st) h))
     \<and> entry (\<lambda>_. True) (json_Unmarshal (fmt_network C)) (fmlookup db metaNetworkConfigKey) (st_network st)
     \<and> fmlookup db metaLatestHashKey = st_latestHash st
     \<and> entry (\<lambda>_. True) ParseUint (fmlookup db metaLatestBlockKey) (st_latestNumber st)
     \<and> legacy_state C db = st_legacy st"


lemma entry_simps [simp]:
  "entry ok dec (Some p) (Some v) = (dec p = Inr v \<and> ok v)" "entry ok dec None None"
  by (simp_all add: entry_def)

text \<open>Writes outside the older layout do not change what it reads as.\<close>

lemma with_prefix_cong:
  assumes "\<And>k. prefix p k \<Longrightarrow> fmlookup db k = fmlookup db' k"
  shows "with_prefix p db = with_prefix p db'"
proof -
  have dom: "fset (ffilter (prefix p) (fmdom db)) = fset (ffilter (prefix p) (fmdom db'))"
    using assms by (force simp: fmlookup_dom_iff)
  have "filter (prefix p) (sorted_list_of_fset (fmdom d)) = sorted_list_of_fset (ffilter (prefix p) (fmdom d))" for d :: kv
    by (rule sorted_distinct_set_unique)
      (auto simp: sorted_list_of_fset_simps sorted_list_of_fset.rep_eq intro: sorted_wrt_filter)
  then have keys: "filter (prefix p) (sorted_list_of_fset (fmdom db)) = filter (prefix p) (sorted_list_of_fset (fmdom db'))"
    using dom by (simp add: sorted_list_of_fset.rep_eq)
  have "with_prefix p d = map (\<lambda>k. (k, the (fmlookup d k))) (filter (prefix p) (sorted_list_of_fset (fmdom d)))" for d
    by (simp add: with_prefix_def fm_entries_def filter_map comp_def)
  then show ?thesis using assms by (auto simp: keys)
qed

lemma legacy_state_cong:
  assumes "\<And>p k. p \<in> set legacy_prefixes \<Longrightarrow> prefix p k \<Longrightarrow> fmlookup db k = fmlookup db' k"
  shows "legacy_state C db = legacy_state C db'"
proof -
  have "with_prefix p db = with_prefix p db'" if "p \<in> set legacy_prefixes" for p
    by (rule with_prefix_cong) (rule assms [OF that])
  then show ?thesis
    by (simp add: legacy_state_def legacy_readers_def iteratePrefix_def cong: sum.case_cong)
qed

lemma legacy_state_upd [simp]:
  assumes "\<forall>p \<in> set legacy_prefixes. \<not> prefix p k"
  shows "legacy_state C (fmupd k v db) = legacy_state C db" "legacy_state C (fmdrop k db) = legacy_state C db"
  by (rule legacy_state_cong; use assms in auto)+

lemma new_keys [simp]:
  "\<forall>p \<in> set legacy_prefixes. \<not> prefix p (blockNumberKey n)" "\<forall>p \<in> set legacy_prefixes. \<not> prefix p (blockHashKey h)"
  "\<forall>p \<in> set legacy_prefixes. \<not> prefix p (blockMetaKey h)" "\<forall>p \<in> set legacy_prefixes. \<not> prefix p (txKey h)"
  "\<forall>p \<in> set legacy_prefixes. \<not> prefix p (stateSnapshotKey h)"
  "\<forall>p \<in> set legacy_prefixes. \<not> prefix p metaNetworkConfigKey"
  "\<forall>p \<in> set legacy_prefixes. \<not> prefix p metaLatestHashKey" "\<forall>p \<in> set legacy_prefixes. \<not> prefix p metaLatestBlockKey"
  by (simp_all add: legacy_prefixes_def prefix_defs key_defs)

section \<open>Single writes\<close>

lemma represents_block:
  "represents C db st \<Longrightarrow> decodeStoredJSON C (fmt_block C) p = Inr b \<Longrightarrow> storable C (fmt_block C) b \<Longrightarrow>
   represents C (fmupd (blockHashKey h) p db) (st\<lparr>st_blocks := fmupd h b (st_blocks st)\<rparr>)"
  by (auto simp: represents_def)

lemma represents_number:
  "represents C db st \<Longrightarrow> decodeStoredJSON C (fmt_block C) p = Inr b \<Longrightarrow> storable C (fmt_block C) b \<Longrightarrow>
   represents C (fmupd (blockNumberKey n) p db) (st\<lparr>st_numbers := fmupd n b (st_numbers st)\<rparr>)"
  by (auto simp: represents_def)

lemma represents_drop_number:
  "represents C db st \<Longrightarrow> represents C (fmdrop (blockNumberKey n) db) (st\<lparr>st_numbers := fmdrop n (st_numbers st)\<rparr>)"
  by (auto simp: represents_def)

lemma represents_meta:
  "represents C db st \<Longrightarrow> json_Unmarshal (fmt_meta C) p = Inr m \<Longrightarrow> storable_meta C m \<Longrightarrow>
   represents C (fmupd (blockMetaKey h) p db) (st\<lparr>st_metas := fmupd h m (st_metas st)\<rparr>)"
  by (auto simp: represents_def)

lemma represents_state:
  "represents C db st \<Longrightarrow> unmarshalStateSnapshot C p = Inr s \<Longrightarrow>
   represents C (fmupd (stateSnapshotKey h) p db) (st\<lparr>st_states := fmupd h s (st_states st)\<rparr>)"
  by (auto simp: represents_def)

lemma represents_tx:
  "represents C db st \<Longrightarrow> represents C (fmupd (txKey h) p db) (st\<lparr>st_txs := t\<rparr>)"
  by (auto simp: represents_def)

lemma represents_network:
  "represents C db st \<Longrightarrow> json_Unmarshal (fmt_network C) p = Inr n \<Longrightarrow>
   represents C (fmupd metaNetworkConfigKey p db) (st\<lparr>st_network := Some n\<rparr>)"
  by (auto simp: represents_def)

lemma represents_tip: "represents C db st \<Longrightarrow> represents C (kv_set_tip b db) (set_tip b st)"
  by (auto simp: represents_def kv_set_tip_def set_tip_def)

section \<open>Reading\<close>

lemma represents_loads:
  assumes "represents C db st"
  shows "kv_loadBlockMetaTxn C db h = loadBlockMetaTxn st h" "kv_loadBlockTxn C db h = loadBlockTxn st h"
    "kv_loadStateSnapshotTxn C db h = loadStateSnapshotTxn st h"
proof -
  have "entry (storable_meta C) (json_Unmarshal (fmt_meta C)) (fmlookup db (blockMetaKey h)) (fmlookup (st_metas st) h)"
    "entry (storable C (fmt_block C)) (decodeStoredJSON C (fmt_block C)) (fmlookup db (blockHashKey h)) (fmlookup (st_blocks st) h)"
    "entry (\<lambda>_. True) (unmarshalStateSnapshot C) (fmlookup db (stateSnapshotKey h)) (fmlookup (st_states st) h)"
    using assms by (simp_all add: represents_def)
  then show "kv_loadBlockMetaTxn C db h = loadBlockMetaTxn st h" "kv_loadBlockTxn C db h = loadBlockTxn st h"
    "kv_loadStateSnapshotTxn C db h = loadStateSnapshotTxn st h"
    by (auto simp: entry_def kv_loadBlockMetaTxn_def loadBlockMetaTxn_def kv_loadBlockTxn_def loadBlockTxn_def
        kv_loadStateSnapshotTxn_def loadStateSnapshotTxn_def split: option.splits)
qed

lemma represents_storable:
  assumes "represents C db st"
  shows "loadBlockMetaTxn st h = Inr m \<Longrightarrow> storable_meta C m" "loadBlockTxn st h = Inr b \<Longrightarrow> storable C (fmt_block C) b"
proof -
  have "entry (storable_meta C) (json_Unmarshal (fmt_meta C)) (fmlookup db (blockMetaKey h)) (fmlookup (st_metas st) h)"
    "entry (storable C (fmt_block C)) (decodeStoredJSON C (fmt_block C)) (fmlookup db (blockHashKey h)) (fmlookup (st_blocks st) h)"
    using assms by (simp_all add: represents_def)
  then show "loadBlockMetaTxn st h = Inr m \<Longrightarrow> storable_meta C m" "loadBlockTxn st h = Inr b \<Longrightarrow> storable C (fmt_block C) b"
    by (auto simp: entry_def loadBlockMetaTxn_def loadBlockTxn_def split: option.splits)
qed

lemma load_not_found:
  "loadBlockTxn st h = Inl e \<Longrightarrow> e = ErrBlockNotFound" "loadBlockMetaTxn st h = Inl e \<Longrightarrow> e = ErrBlockNotFound"
  "loadStateSnapshotTxn st h = Inl e \<Longrightarrow> e = ErrBlockNotFound"
  by (auto simp: loadBlockTxn_def loadBlockMetaTxn_def loadStateSnapshotTxn_def split: option.splits)

lemma represents_fields:
  assumes "represents C db st"
  shows "fmlookup db metaLatestHashKey = st_latestHash st" "legacy_state C db = st_legacy st"
    "entry (\<lambda>_. True) ParseUint (fmlookup db metaLatestBlockKey) (st_latestNumber st)"
    "entry (\<lambda>_. True) (json_Unmarshal (fmt_network C)) (fmlookup db metaNetworkConfigKey) (st_network st)"
    "entry (storable C (fmt_block C)) (decodeStoredJSON C (fmt_block C)) (fmlookup db (blockNumberKey n)) (fmlookup (st_numbers st) n)"
  using assms by (simp_all add: represents_def)

lemma represents_meta_or_synthetic:
  "represents C db st \<Longrightarrow> kv_meta_or_synthetic C db latest h = Inr (meta_or_synthetic st latest h)"
  by (auto simp: kv_meta_or_synthetic_def meta_or_synthetic_def represents_loads dest: load_not_found split: sum.splits)

lemma load_tip_agrees:
  assumes "represents C db (bc_db bc)"
  shows "kv_load_tip C db bc = Inr (load_tip bc)"
  using load_not_found(1) [of "bc_db bc"] load_not_found(3) [of "bc_db bc"]
  by (auto simp: kv_load_tip_def load_tip_def Let_def represents_fields(1) [OF assms] represents_loads [OF assms]
      represents_meta_or_synthetic [OF assms] split: sum.splits)

lemma load_legacy_agrees:
  assumes rep: "represents C db (bc_db bc)"
  shows "kv_load_legacy C db bc = load_legacy bc"
proof (cases "st_legacy (bc_db bc)")
  case (Inr state)
  show ?thesis
  proof (cases "st_latestNumber (bc_db bc)")
    case None
    then show ?thesis
      using represents_fields(3) [OF rep] represents_fields(2) [OF rep]
      by (auto simp: kv_load_legacy_def load_legacy_def entry_def Inr split: option.splits)
  next
    case (Some n)
    then obtain p where "fmlookup db metaLatestBlockKey = Some p" "ParseUint p = Inr n"
      using represents_fields(3) [OF rep] by (auto simp: entry_def split: option.splits)
    with Some Inr represents_fields(5) [OF rep, of n] show ?thesis
      by (auto simp: kv_load_legacy_def load_legacy_def entry_def represents_fields(2) [OF rep]
          represents_meta_or_synthetic [OF rep] split: option.splits)
  qed
qed (simp add: kv_load_legacy_def load_legacy_def represents_fields(2) [OF rep])

text \<open>Opening a database reads back what it represents.\<close>

theorem reload_refines_store:
  assumes "represents C db (bc_db bc)"
  shows "kv_loadLocked E C db bc = loadLocked E bc"
proof -
  have net: "kv_load_network E C db b = load_network E b" if "bc_db b = bc_db bc" for b
    using represents_fields(4) [OF assms]
    by (auto simp: kv_load_network_def load_network_def that entry_def split: option.splits)
  have "bc_db b' = bc_db b" if "load_network E b = Inr b'" for b b'
    using that by (auto simp: load_network_def split: option.splits sum.splits)
  then show ?thesis
    using assms
    by (auto simp: kv_loadLocked_def loadLocked_def net load_tip_agrees load_legacy_agrees split: sum.splits option.splits)
qed

text \<open>The three loops, which read block metas only.\<close>

lemma kv_old_ancestors_agrees:
  assumes "represents C db st" "old_ancestors st current seen = Some r"
  shows "kv_old_ancestors C db current seen = Some r"
proof -
  have "represents C db st \<longrightarrow> kv_old_ancestors C db current seen = Some r"
    by (rule old_ancestors.raw_induct [where P = "\<lambda>st current seen r. represents C db st \<longrightarrow> kv_old_ancestors C db current seen = Some r",
        OF _ assms(2)], subst kv_old_ancestors.simps)
      (auto simp: represents_loads split: if_splits sum.splits)
  then show ?thesis using assms(1) by blast
qed

lemma kv_new_path_agrees:
  assumes "represents C db st" "new_path st ancestors current path = Some r"
  shows "kv_new_path C db ancestors current path = Some r"
proof -
  have "represents C db st \<longrightarrow> kv_new_path C db ancestors current path = Some r"
    by (rule new_path.raw_induct [where P = "\<lambda>st ancestors current path r. represents C db st \<longrightarrow> kv_new_path C db ancestors current path = Some r",
        OF _ assms(2)], subst kv_new_path.simps)
      (auto simp: represents_loads split: if_splits sum.splits)
  then show ?thesis using assms(1) by blast
qed

lemma kv_old_path_agrees:
  assumes "represents C db st" "old_path st common current path = Some r"
  shows "kv_old_path C db common current path = Some r"
proof -
  have "represents C db st \<longrightarrow> kv_old_path C db common current path = Some r"
    by (rule old_path.raw_induct [where P = "\<lambda>st common current path r. represents C db st \<longrightarrow> kv_old_path C db common current path = Some r",
        OF _ assms(2)], subst kv_old_path.simps)
      (auto simp: represents_loads split: if_splits sum.splits)
  then show ?thesis using assms(1) by blast
qed

lemma andThen_simps [simp]: "andThen (Some (Inl e)) f = Some (Inl e)" "andThen (Some (Inr x)) f = f x"
  by (simp_all add: andThen_def)

lemma andThen_SomeE:
  assumes "andThen r f = Some y"
  obtains e where "r = Some (Inl e)" "y = Inl e" | x where "r = Some (Inr x)" "f x = Some y"
  using assms by (auto simp: andThen_def split: option.splits sum.splits)

lemma kv_reorgPaths_agrees:
  assumes rep: "represents C db st" and r: "reorgPaths st oldTip newTip = Some r"
  shows "kv_reorgPaths C db oldTip newTip = Some r"
proof -
  have agree: "old_ancestors st a s = Some x \<Longrightarrow> kv_old_ancestors C db a s = Some x"
    "new_path st l a p = Some y \<Longrightarrow> kv_new_path C db l a p = Some y"
    "old_path st c a p = Some z \<Longrightarrow> kv_old_path C db c a p = Some z" for a s x l p y c z
    using kv_old_ancestors_agrees kv_new_path_agrees kv_old_path_agrees rep by blast+
  show ?thesis
    using r unfolding reorgPaths_def kv_reorgPaths_def represents_loads [OF rep]
    by (auto split: if_splits elim!: andThen_SomeE simp: agree)
qed

text \<open>What a loop of \<open>reorgPaths\<close> returns was loaded.\<close>

lemma reorg_paths_storable:
  assumes rep: "represents C db st" and "reorgPaths st oldTip newTip = Some (Inr (oldPath, newPath))"
  shows "list_all (storable_meta C) oldPath \<and> list_all (storable_meta C) newPath"
proof -
  have new: "list_all (storable_meta C) newPath"
    if "new_path st ancestors current [] = Some (Inr (common, newPath))" for ancestors current common newPath
  proof -
    have "represents C db st \<longrightarrow> list_all (storable_meta C) [] \<longrightarrow>
        (case Inr (common, newPath) :: (string \<times> BlockMeta list) res of Inl _ \<Rightarrow> True | Inr x \<Rightarrow> list_all (storable_meta C) (snd x))"
    proof (rule new_path.raw_induct [where P = "\<lambda>st ancestors current path r. represents C db st \<longrightarrow>
          list_all (storable_meta C) path \<longrightarrow> (case r of Inl _ \<Rightarrow> True | Inr x \<Rightarrow> list_all (storable_meta C) (snd x))", OF _ that])
      fix f :: "Store \<Rightarrow> string list \<Rightarrow> string \<Rightarrow> BlockMeta list \<Rightarrow> (string \<times> BlockMeta list) res option"
      fix st :: Store and ancestors current path r
      let ?ok = "\<lambda>r. case r of Inl _ \<Rightarrow> True | Inr x \<Rightarrow> list_all (storable_meta C) (snd x)"
      assume IH: "\<And>st ancestors current path r. f st ancestors current path = Some r \<Longrightarrow>
          represents C db st \<longrightarrow> list_all (storable_meta C) path \<longrightarrow> ?ok r"
        and eq: "(if current = [] then Some (Inr ([], path))
          else case loadBlockMetaTxn st current of Inl e \<Rightarrow> Some (Inl e)
               | Inr meta \<Rightarrow> if current \<in> set ancestors then Some (Inr (current, path))
                   else f st ancestors (meta_ParentHash meta) (path @ [meta])) = Some r"
      show "represents C db st \<longrightarrow> list_all (storable_meta C) path \<longrightarrow> ?ok r"
      proof (intro impI)
        assume "represents C db st" "list_all (storable_meta C) path"
        with eq IH [of st ancestors _ "path @ [_]" r] represents_storable(1) [of C db st current] show "?ok r"
          by (cases "loadBlockMetaTxn st current") (auto split: if_splits)
      qed
    qed
    then show ?thesis using rep by simp
  qed
  have old: "list_all (storable_meta C) oldPath"
    if "old_path st common current [] = Some (Inr oldPath)" for common current oldPath
  proof -
    have "represents C db st \<longrightarrow> list_all (storable_meta C) [] \<longrightarrow>
        (case Inr oldPath :: BlockMeta list res of Inl _ \<Rightarrow> True | Inr p \<Rightarrow> list_all (storable_meta C) p)"
    proof (rule old_path.raw_induct [where P = "\<lambda>st common current path r. represents C db st \<longrightarrow>
          list_all (storable_meta C) path \<longrightarrow> (case r of Inl _ \<Rightarrow> True | Inr p \<Rightarrow> list_all (storable_meta C) p)", OF _ that])
      fix f :: "Store \<Rightarrow> string \<Rightarrow> string \<Rightarrow> BlockMeta list \<Rightarrow> BlockMeta list res option"
      fix st :: Store and common current path r
      let ?ok = "\<lambda>r. case r of Inl _ \<Rightarrow> True | Inr p \<Rightarrow> list_all (storable_meta C) p"
      assume IH: "\<And>st common current path r. f st common current path = Some r \<Longrightarrow>
          represents C db st \<longrightarrow> list_all (storable_meta C) path \<longrightarrow> ?ok r"
        and eq: "(if current = [] \<or> current = common then Some (Inr path)
          else case loadBlockMetaTxn st current of Inl e \<Rightarrow> Some (Inl e)
               | Inr meta \<Rightarrow> f st common (meta_ParentHash meta) (path @ [meta])) = Some r"
      show "represents C db st \<longrightarrow> list_all (storable_meta C) path \<longrightarrow> ?ok r"
      proof (intro impI)
        assume "represents C db st" "list_all (storable_meta C) path"
        with eq IH [of st common _ "path @ [_]" r] represents_storable(1) [of C db st current] show "?ok r"
          by (cases "loadBlockMetaTxn st current") (auto split: if_splits)
      qed
    qed
    then show ?thesis using rep by simp
  qed
  show ?thesis
    using assms(2) unfolding reorgPaths_def
    by (auto split: if_splits sum.splits elim!: andThen_SomeE dest: new old represents_storable(1) [OF rep])
qed


section \<open>The transaction of a new tip\<close>

abbreviation same_outcome :: "formats \<Rightarrow> kv res \<Rightarrow> Store res \<Rightarrow> bool" where
  "same_outcome C \<equiv> rel_sum (=) (represents C)"

definition storable_artifacts :: "formats \<Rightarrow> StateSnapshot \<Rightarrow> Block \<Rightarrow> BlockMeta \<Rightarrow> bool" where
  "storable_artifacts C state block meta \<longleftrightarrow>
     storable C (fmt_block C) block \<and> storable C (fmt_disk C) (snapshot_disk state)
     \<and> storable_meta C meta
     \<and> list_all (\<lambda>tx. marshal (fmt_tx C) tx \<noteq> None) (body_Transactions (blk_Body block))"

lemma storable_metaD: "storable_meta C m \<Longrightarrow> storable C (fmt_meta C) m"
  by (cases m; cases "meta_Canonical m") (auto simp: storable_meta_def)

lemma represents_storeMeta:
  assumes "represents C db st" "storable_meta C m"
  obtains db' where "kv_storeBlockMetaTxn C m db = Inr db'" "represents C db' (storeBlockMetaTxn m st)"
proof -
  obtain p where p: "marshal (fmt_meta C) m = Some p" "unmarshal (fmt_meta C) p = Some m"
    using storableD [OF storable_metaD [OF assms(2)]] by blast
  show ?thesis
  proof
    show "kv_storeBlockMetaTxn C m db = Inr (fmupd (blockMetaKey (meta_Hash m)) p db)"
      by (simp add: kv_storeBlockMetaTxn_def json_Marshal_def p)
    show "represents C (fmupd (blockMetaKey (meta_Hash m)) p db) (storeBlockMetaTxn m st)"
      unfolding storeBlockMetaTxn_def
      by (rule represents_meta) (simp_all add: assms json_Unmarshal_def p)
  qed
qed

lemma represents_put_txs:
  "represents C db st \<Longrightarrow> list_all (\<lambda>tx. marshal (fmt_tx C) tx \<noteq> None) txs \<Longrightarrow>
   \<exists>db'. kv_put_txs C txs db = Inr db' \<and> represents C db' (st\<lparr>st_txs := t\<rparr>)"
proof (induction txs arbitrary: db st)
  case Nil
  then show ?case by (auto simp: represents_def)
next
  case (Cons tx txs)
  from Cons.prems(2) obtain p where "marshal (fmt_tx C) tx = Some p" by auto
  moreover have "\<exists>db'. kv_put_txs C txs (fmupd (txKey (tx_Hash tx)) p db) = Inr db'
      \<and> represents C db' (st\<lparr>st_txs := t, st_txs := t\<rparr>)"
    by (rule Cons.IH [OF represents_tx [OF Cons.prems(1)]]) (use Cons.prems(2) in simp)
  ultimately show ?case by (simp add: json_Marshal_def)
qed

lemma persistBlockArtifacts_refines:
  assumes rep: "represents C db st" and C: "gzip_ok C" and ok: "storable_artifacts C state block meta"
  obtains db' where "kv_persistBlockArtifacts C state block meta db = Inr db'"
    "represents C db' (persistBlockArtifacts state block meta st)"
proof -
  let ?h = "blk_Hash block" and ?txs = "body_Transactions (blk_Body block)"
  let ?ts = "fold (\<lambda>tx m. fmupd (tx_Hash tx) tx m) ?txs (st_txs st)"
  note ok = ok [unfolded storable_artifacts_def]
  from stored_round_trip [OF C, of "fmt_block C" block] ok obtain bp
    where bp: "encodeStoredJSON C (fmt_block C) block = Inr bp" "decodeStoredJSON C (fmt_block C) bp = Inr block" by blast
  obtain mp where mp: "marshal (fmt_meta C) meta = Some mp" "unmarshal (fmt_meta C) mp = Some meta"
    by (rule storableD [OF storable_metaD]) (use ok in blast)
  from ok snapshot_stored [OF C, of state] obtain sp
    where sp: "marshalStateSnapshot C state = Inr sp" "unmarshalStateSnapshot C (compressForStorage C sp) = Inr state" by blast
  have 1: "represents C (fmupd (blockMetaKey ?h) mp (fmupd (blockHashKey ?h) bp db))
      (st\<lparr>st_blocks := fmupd ?h block (st_blocks st), st_metas := fmupd ?h meta (st_metas st)\<rparr>)"
    using represents_meta [OF represents_block [OF rep bp(2)], of mp meta ?h ?h] ok
    by (simp add: json_Unmarshal_def mp)
  obtain db1 where 2: "kv_put_txs C ?txs (fmupd (blockMetaKey ?h) mp (fmupd (blockHashKey ?h) bp db)) = Inr db1"
    "represents C db1 (st\<lparr>st_blocks := fmupd ?h block (st_blocks st), st_metas := fmupd ?h meta (st_metas st), st_txs := ?ts\<rparr>)"
    using represents_put_txs [OF 1, of ?txs ?ts] ok by auto
  show ?thesis
  proof
    show "kv_persistBlockArtifacts C state block meta db = Inr (fmupd (stateSnapshotKey ?h) (compressForStorage C sp) db1)"
      by (simp add: kv_persistBlockArtifacts_def bp json_Marshal_def mp 2 kv_persistStateSnapshot_def sp)
    show "represents C (fmupd (stateSnapshotKey ?h) (compressForStorage C sp) db1) (persistBlockArtifacts state block meta st)"
      using represents_state [OF 2(2) sp(2), of ?h]
      by (simp add: persistBlockArtifacts_def persistStateSnapshot_def)
  qed
qed

lemma retire_all_refines:
  "represents C db st \<Longrightarrow> list_all (storable_meta C) ms \<Longrightarrow>
   \<exists>db'. kv_retire_all C ms db = Inr db' \<and> represents C db' (fold retire ms st)"
proof (induction ms arbitrary: db st)
  case (Cons m ms)
  from Cons.prems have "storable_meta C (m\<lparr>meta_Canonical := False\<rparr>)" by (simp add: storable_meta_def)
  with Cons.prems(1) obtain db1 where db1: "kv_storeBlockMetaTxn C (m\<lparr>meta_Canonical := False\<rparr>) db = Inr db1"
    "represents C db1 (storeBlockMetaTxn (m\<lparr>meta_Canonical := False\<rparr>) st)" by (rule represents_storeMeta)
  have "represents C (fmdrop (blockNumberKey (meta_Number m)) db1) (retire m st)"
    using represents_drop_number [OF db1(2)] by (simp add: retire_def Let_def)
  from Cons.IH [OF this] Cons.prems(2) db1(1) show ?case by simp
qed simp

lemma adopt_all_refines:
  assumes C: "gzip_ok C"
  shows "represents C db st \<Longrightarrow> list_all (storable_meta C) ms \<Longrightarrow>
    same_outcome C (kv_adopt_all C db ms) (adopt_all st ms)"
proof (induction ms arbitrary: db st)
  case (Cons m ms)
  from Cons.prems have "storable_meta C (m\<lparr>meta_Canonical := True\<rparr>)" by (simp add: storable_meta_def)
  with Cons.prems(1) obtain db1 where db1: "kv_storeBlockMetaTxn C (m\<lparr>meta_Canonical := True\<rparr>) db = Inr db1"
    "represents C db1 (storeBlockMetaTxn (m\<lparr>meta_Canonical := True\<rparr>) st)" by (rule represents_storeMeta)
  show ?case
  proof (cases "loadBlockTxn (storeBlockMetaTxn (m\<lparr>meta_Canonical := True\<rparr>) st) (meta_Hash m)")
    case (Inl e)
    then show ?thesis by (simp add: db1(1) represents_loads [OF db1(2)] adopt_def Let_def)
  next
    case (Inr block)
    then have "storable C (fmt_block C) block" by (rule represents_storable(2) [OF db1(2)])
    then obtain p where p: "encodeStoredJSON C (fmt_block C) block = Inr p" "decodeStoredJSON C (fmt_block C) p = Inr block"
      using stored_round_trip [OF C, of "fmt_block C" block] by blast
    have "represents C (fmupd (blockNumberKey (meta_Number m)) p db1)
        ((storeBlockMetaTxn (m\<lparr>meta_Canonical := True\<rparr>) st)\<lparr>st_numbers :=
           fmupd (meta_Number m) block (st_numbers (storeBlockMetaTxn (m\<lparr>meta_Canonical := True\<rparr>) st))\<rparr>)"
      by (rule represents_number [OF db1(2) p(2)]) fact
    from Cons.IH [OF this] Cons.prems(2) show ?thesis
      by (simp add: db1(1) represents_loads [OF db1(2)] Inr p(1) adopt_def Let_def)
  qed
qed simp


lemma rewriteCanonicalTip_refines:
  assumes C: "gzip_ok C" and rep: "represents C db st" and r: "rewriteCanonicalTip oldTip newTip st = Some r"
  obtains r' where "kv_rewriteCanonicalTip C oldTip newTip db = Some r'" "same_outcome C r' r"
proof (cases "TrimSpace newTip = []")
  case True
  with r show ?thesis by (auto intro: that simp: kv_rewriteCanonicalTip_def rewriteCanonicalTip_def)
next
  case False
  then have "andThen (reorgPaths st oldTip newTip)
      (\<lambda>(oldPath, newPath). Some (adopt_all (fold retire oldPath st) (rev newPath))) = Some r"
    using r by (simp add: rewriteCanonicalTip_def)
  then show ?thesis
  proof (cases rule: andThen_SomeE)
    case (1 e)
    then show ?thesis
      using False kv_reorgPaths_agrees [OF rep 1(1)] by (auto intro: that simp: kv_rewriteCanonicalTip_def)
  next
    case (2 paths)
    obtain oldPath newPath where paths: "paths = (oldPath, newPath)" by (cases paths)
    have ok: "list_all (storable_meta C) oldPath" "list_all (storable_meta C) (rev newPath)"
      using reorg_paths_storable [OF rep] 2(1) by (simp_all add: paths list_all_rev)
    obtain db1 where db1: "kv_retire_all C oldPath db = Inr db1" "represents C db1 (fold retire oldPath st)"
      using retire_all_refines [OF rep ok(1)] by blast
    show ?thesis
      using that adopt_all_refines [OF C db1(2) ok(2)] kv_reorgPaths_agrees [OF rep 2(1)] False 2(2) db1(1)
      by (simp add: kv_rewriteCanonicalTip_def paths)
  qed
qed

lemma persistNetworkConfig_refines:
  assumes rep: "represents C db st"
    and ok: "\<And>n. NormalizeNetworkConfig E cfg = Inr n \<Longrightarrow> storable C (fmt_network C) n"
  shows "same_outcome C (kv_persistNetworkConfig E C cfg db) (persistNetworkConfig E cfg st)"
proof (cases "NormalizeNetworkConfig E cfg")
  case (Inr n)
  obtain p where p: "marshal (fmt_network C) n = Some p" "unmarshal (fmt_network C) p = Some n"
    by (rule storableD [OF ok [OF Inr]])
  have "represents C (fmupd metaNetworkConfigKey p db) (st\<lparr>st_network := Some n\<rparr>)"
    by (rule represents_network [OF rep]) (simp add: json_Unmarshal_def p)
  then show ?thesis by (simp add: kv_persistNetworkConfig_def persistNetworkConfig_def Inr json_Marshal_def p)
qed (simp add: kv_persistNetworkConfig_def persistNetworkConfig_def)



text \<open>
  A concrete instance: formats that write a value as its place in a table, and the first block on an empty database.
\<close>

definition table :: "'a list \<Rightarrow> 'a fmt" where
  "table vs =
     \<lparr>marshal = (\<lambda>x. if x \<in> set vs then Some (replicate (Suc (length (takeWhile (\<lambda>y. y \<noteq> x) vs))) CHR ''{'') else None),
      unmarshal = (\<lambda>p. if 0 < length p \<and> length p \<le> length vs then Some (vs ! (length p - 1)) else None)\<rparr>"

lemma table_storable: "x \<in> set vs \<Longrightarrow> storable C (table vs) x"
proof -
  assume x: "x \<in> set vs"
  let ?n = "length (takeWhile (\<lambda>y. y \<noteq> x) vs)"
  have n: "?n < length vs" using x by (metis (full_types) length_takeWhile_le le_neq_implies_less takeWhile_eq_all_conv takeWhile_eq_take take_all_iff order_refl)
  have "vs ! ?n = x" using nth_length_takeWhile [OF n] by simp
  moreover have "\<not> has_magic (replicate (Suc k) CHR ''{'')" for k by (cases k) (simp_all add: byte_def)
  ultimately show ?thesis using n x by (simp add: storable_def table_def Suc_le_eq)
qed

definition first_block :: Block where
  "first_block = zero_Block\<lparr>blk_Hash := ''h''\<rparr>"

definition first_meta :: BlockMeta where
  "first_meta = zero_BlockMeta\<lparr>meta_Hash := ''h'', meta_Canonical := True\<rparr>"

definition first_formats :: formats where
  "first_formats = toy_formats\<lparr>fmt_block := table [first_block],
     fmt_meta := table [first_meta, first_meta\<lparr>meta_Canonical := False\<rparr>],
     fmt_network := table [toy_network], fmt_disk := table [snapshot_disk (one_balance 7)]\<rparr>"

definition empty_chain :: Blockchain where
  "empty_chain = \<lparr>bc_db = empty_store, bc_state = NewStateSnapshot, bc_latest = zero_Block, bc_latestMeta = zero_BlockMeta,
     bc_network = toy_network\<rparr>"

lemma empty_represented: "represents C fmempty empty_store"
proof -
  have "with_prefix p fmempty = []" for p by (simp add: with_prefix_def fm_entries_def sorted_list_of_fset.rep_eq)
  then have "legacy_state C fmempty = Inr NewStateSnapshot"
    by (simp add: legacy_state_def legacy_readers_def iteratePrefix_def)
  then show ?thesis by (simp add: represents_def empty_store_def)
qed

lemma first_commit:
  "\<exists>bc'. persistCanonicalTipLocked toy_env empty_chain (one_balance 7) first_block first_meta = Some (Inr bc')
     \<and> bc_latest bc' = first_block"
proof -
  have "TrimSpace ''h'' = ''h''" by (rule TrimSpace_visible) (simp add: visible_def byte_def)
  then show ?thesis
    by (simp add: persistCanonicalTipLocked_def rewriteCanonicalTip_def reorgPaths_def empty_chain_def first_meta_def
        zero_BlockMeta_def first_block_def loadBlockMetaTxn_def loadBlockTxn_def adopt_def storeBlockMetaTxn_def
        persistBlockArtifacts_def persistStateSnapshot_def persistNetworkConfig_def toy_network_normal)
qed


end
