(* ===== verification/Queries.thy ===== *)
theory Queries
  imports Chain_Properties
begin

text \<open>
  The read-only operations of the blockchain object (\<open>src/core/blockchain.go\<close>): the state at a block reference,
  balances and nonces, names, contracts and calls, the search index, recent blocks, a transaction or a
  crawl proof by its hash; and signing a transaction. A query that reads several blocks is modelled on one state of the
  chain.

  A map iterated in the code has no fixed order. Where the result is sorted the model iterates by key; where the order
  shows (\<open>ReverseResolve\<close>) it is an argument.
\<close>

section \<open>Block references\<close>

text \<open>\<open>strconv.ParseUint(s, 16, 64)\<close>.\<close>

fun hex_number :: "string \<Rightarrow> nat \<Rightarrow> nat option" where
  "hex_number [] acc = Some acc"
| "hex_number (c # cs) acc = (case hex_value c of None \<Rightarrow> None | Some d \<Rightarrow> hex_number cs (16 * acc + d))"

definition ParseHexUint :: "string \<Rightarrow> u64 res" where
  "ParseHexUint s =
     (if s = [] then Inl (ErrText ''invalid syntax'')
      else
        (case hex_number s 0 of
           None \<Rightarrow> Inl (ErrText ''invalid syntax'')
         | Some n \<Rightarrow> if n < 2 ^ 64 then Inr (of_nat n) else Inl (ErrText ''value out of range'')))"

definition parseBlockReference :: "env \<Rightarrow> string \<Rightarrow> u64 \<Rightarrow> u64 res" where
  "parseBlockReference E ref latest =
     (let cleaned = TrimSpace (ToLower E ref) in
      if cleaned = [] \<or> cleaned = ''latest'' then Inr latest
      else if prefix ''0x'' cleaned then ParseHexUint (TrimPrefix ''0x'' cleaned)
      else ParseUint cleaned)"

definition stateForBlockRef :: "env \<Rightarrow> Blockchain \<Rightarrow> string \<Rightarrow> StateSnapshot res" where
  "stateForBlockRef E bc blockRef =
     (let ref = TrimSpace (ToLower E blockRef) in
      if ref = [] \<or> ref = ''latest'' then Inr (bc_state bc)
      else
        (case parseBlockReference E ref (hdr_Number (blk_Header (bc_latest bc))) of
           Inl e \<Rightarrow> Inl e
         | Inr number \<Rightarrow>
             (case GetBlockByNumber bc number of
                Inl e \<Rightarrow> Inl e
              | Inr block \<Rightarrow> getStateSnapshotLocked bc (blk_Hash block))))"

section \<open>Accounts and names\<close>

definition PendingNonce_chain :: "Blockchain \<Rightarrow> string \<Rightarrow> u64" where
  "PendingNonce_chain bc address = fm_get (Nonces (bc_state bc)) 0 address"

definition NonceAt :: "env \<Rightarrow> Blockchain \<Rightarrow> string \<Rightarrow> string \<Rightarrow> u64 res" where
  "NonceAt E bc address blockRef =
     (case stateForBlockRef E bc blockRef of
        Inl e \<Rightarrow> Inl e
      | Inr state \<Rightarrow> Inr (fm_get (Nonces state) 0 (TrimSpace address)))"

definition GetBalance :: "Blockchain \<Rightarrow> string \<Rightarrow> int" where
  "GetBalance bc address = fm_get (Balances (bc_state bc)) 0 address"

definition MentionFrequency :: "env \<Rightarrow> Blockchain \<Rightarrow> string \<Rightarrow> u64" where
  "MentionFrequency E bc term = fm_get (MentionCounts (bc_state bc)) 0 (normalizeTerm E term)"

definition ResolveName :: "Blockchain \<Rightarrow> string \<Rightarrow> NameRecord option" where
  "ResolveName bc name = fmlookup (Names (bc_state bc)) (normalizeUNSName name)"

text \<open>\<open>order\<close> lists the name records in the order the iteration visits them.\<close>

definition ReverseResolve :: "NameRecord list \<Rightarrow> string \<Rightarrow> NameRecord option" where
  "ReverseResolve order address =
     (let target = TrimSpace address in
      if target = [] then None else find (\<lambda>r. name_Owner r = target) order)"

definition SeedBalance :: "env \<Rightarrow> Blockchain \<Rightarrow> string \<Rightarrow> int option \<Rightarrow> Blockchain \<times> unit res" where
  "SeedBalance E bc address amount =
     (case amount of
        None \<Rightarrow> (bc, Inl ErrInvalidTransaction)
      | Some v \<Rightarrow>
          if TrimSpace address = [] \<or> v < 0 then (bc, Inl ErrInvalidTransaction)
          else
            (let bc1 = bc\<lparr>bc_state := (bc_state bc)\<lparr>Balances := fmupd address v (Balances (bc_state bc))\<rparr>\<rparr> in
             case persistStateOnlyLocked E bc1 of Inl e \<Rightarrow> (bc1, Inl e) | Inr bc2 \<Rightarrow> (bc2, Inr ())))"

definition ValidateTransaction :: "env \<Rightarrow> Blockchain \<Rightarrow> Transaction \<Rightarrow> unit res" where
  "ValidateTransaction E bc tx =
     (case snd (ApplyTransactionWithArchitect E (bc_state bc) tx (net_ArchitectAddress (bc_network bc))) of
        Inl e \<Rightarrow> Inl e
      | Inr _ \<Rightarrow> Inr ())"

text \<open>\<open>Transaction.Sign\<close>: \<open>pub\<close> and \<open>sign\<close> are the public key and the signature of the private key.\<close>

definition Sign :: "env \<Rightarrow> bytes \<Rightarrow> (bytes \<Rightarrow> bytes) \<Rightarrow> Transaction \<Rightarrow> Transaction" where
  "Sign E pub sign tx =
     (let tx1 = (if tx_Timestamp tx = 0 then tx\<lparr>tx_Timestamp := now E\<rparr> else tx);
          tx2 = tx1\<lparr>tx_PublicKey := pub\<rparr>;
          tx3 = tx2\<lparr>tx_Signature := sign (signingPayload E tx2)\<rparr>
      in tx3\<lparr>tx_Hash := computeTransactionHash E tx3\<rparr>)"

section \<open>Contracts and calls\<close>

definition chain_CallNativeContract :: "env \<Rightarrow> Blockchain \<Rightarrow> string \<Rightarrow> bytes \<Rightarrow> bytes res" where
  "chain_CallNativeContract E bc to data = CallNativeContract E (Some (bc_state bc)) to data"

definition PrecompileMentionFrequency :: "env \<Rightarrow> Blockchain \<Rightarrow> string \<Rightarrow> bytes res" where
  "PrecompileMentionFrequency E bc term =
     (case EncodeMentionFrequencyCall E term of
        Inl e \<Rightarrow> Inl e
      | Inr input \<Rightarrow> chain_CallNativeContract E bc SearchPrecompileAddress input)"

definition CallContract :: "env \<Rightarrow> Blockchain \<Rightarrow> CallMessage \<Rightarrow> string \<Rightarrow> bytes res" where
  "CallContract E bc call blockRef =
     (case stateForBlockRef E bc blockRef of
        Inl e \<Rightarrow> Inl e
      | Inr state \<Rightarrow>
          if IsNativeContractAddress E (call_To call) then ExecuteReadOnlyCall E (Some state) call
          else
            (case fmlookup (Contracts state) (TrimSpace (call_To call)) of
               None \<Rightarrow> Inl ErrUnsupportedNativeContract
             | Some rec \<Rightarrow> ExecuteUserContractReadOnlyCall E state rec call))"

definition ContractAt :: "env \<Rightarrow> Blockchain \<Rightarrow> string \<Rightarrow> ContractRecord option" where
  "ContractAt E bc address =
     (let cleaned = TrimSpace address in
      case fmlookup (Contracts (bc_state bc)) cleaned of
        Some rec \<Rightarrow> Some rec
      | None \<Rightarrow>
          (case find (\<lambda>r. con_Address r = cleaned) (net_SystemContracts (bc_network bc)) of
             Some rec \<Rightarrow> Some rec
           | None \<Rightarrow> SystemContractAt E address))"

definition ContractCodeAt :: "env \<Rightarrow> Blockchain \<Rightarrow> string \<Rightarrow> string" where
  "ContractCodeAt E bc address = (case ContractAt E bc address of None \<Rightarrow> ''0x'' | Some rec \<Rightarrow> con_Code rec)"

definition ListContracts :: "env \<Rightarrow> Blockchain \<Rightarrow> ContractRecord list" where
  "ListContracts E bc =
     (let system = (if net_SystemContracts (bc_network bc) = [] then ListSystemContracts E
                    else net_SystemContracts (bc_network bc))
      in sort_key con_Address (system @ fm_values (Contracts (bc_state bc))))"

definition UNSRegistrationPrice :: "env \<Rightarrow> Blockchain \<Rightarrow> string \<Rightarrow> int res" where
  "UNSRegistrationPrice E bc name = UNSRegistrationPriceFromState E (Some (bc_state bc)) name"

section \<open>Search index\<close>

record SearchQueryResult =
  sq_Document :: "SearchRecord option"
  sq_MentionFrequency :: u64
  sq_MatchingURLs :: "string list"

definition GetSearchData :: "env \<Rightarrow> Blockchain \<Rightarrow> string \<Rightarrow> string \<Rightarrow> SearchQueryResult" where
  "GetSearchData E bc url term =
     (let normalizedTerm = normalizeTerm E term;
          index = SearchIndex (bc_state bc)
      in \<lparr>sq_Document = (if TrimSpace url = [] then None else fmlookup index (TrimSpace url)),
          sq_MentionFrequency = (if normalizedTerm = [] then 0 else fm_get (MentionCounts (bc_state bc)) 0 normalizedTerm),
          sq_MatchingURLs =
            (if normalizedTerm = [] then []
             else map fst (filter (\<lambda>(u, d). 0 < fm_get (doc_TermCounts d) 0 normalizedTerm) (fm_entries index)))\<rparr>)"

record SearchHit =
  hit_Document :: SearchRecord
  hit_TermCount :: u64
  hit_Score :: u64

record SearchResults =
  sr_Term :: string
  sr_URLFilter :: string
  sr_MentionFrequency :: u64
  sr_Total :: u64
  sr_Hits :: "SearchHit list"

definition normalizeSearchResultLimit :: "u64 \<Rightarrow> nat" where
  "normalizeSearchResultLimit limit = (if limit = 0 then 10 else if 50 < limit then 50 else unat limit)"

text \<open>The loop over the index: documents whose URL contains the filter and that count the term.\<close>

fun search_loop :: "env \<Rightarrow> string \<Rightarrow> string \<Rightarrow> (string \<times> SearchRecord) list \<Rightarrow> SearchHit list" where
  "search_loop E term urlFilter [] = []"
| "search_loop E term urlFilter ((url, d) # rest) =
     (if urlFilter \<noteq> [] \<and> \<not> Contains (ToLower E url) urlFilter then search_loop E term urlFilter rest
      else
        (let termCount = fm_get (doc_TermCounts d) 0 term in
         if termCount = 0 then search_loop E term urlFilter rest
         else \<lparr>hit_Document = d, hit_TermCount = termCount, hit_Score = termCount\<rparr> # search_loop E term urlFilter rest))"

text \<open>By score, then by date, both descending, then by URL: total on the documents of an index.\<close>

definition hit_rank :: "SearchHit \<Rightarrow> int \<times> int \<times> string" where
  "hit_rank h = (- uint (hit_Score h), - doc_IndexedAt (hit_Document h), doc_URL (hit_Document h))"

definition SearchIndex_query :: "env \<Rightarrow> Blockchain \<Rightarrow> string \<Rightarrow> string \<Rightarrow> u64 \<Rightarrow> SearchResults" where
  "SearchIndex_query E bc term urlFilter limit =
     (let normalizedTerm = normalizeTerm E term in
      if normalizedTerm = [] then
        \<lparr>sr_Term = TrimSpace term, sr_URLFilter = TrimSpace urlFilter, sr_MentionFrequency = 0, sr_Total = 0, sr_Hits = []\<rparr>
      else
        (let hits = sort_key hit_rank
               (search_loop E normalizedTerm (ToLower E (TrimSpace urlFilter)) (fm_entries (SearchIndex (bc_state bc))));
             maxItems = normalizeSearchResultLimit limit
         in \<lparr>sr_Term = TrimSpace term, sr_URLFilter = TrimSpace urlFilter,
             sr_MentionFrequency = fm_get (MentionCounts (bc_state bc)) 0 normalizedTerm,
             sr_Total = of_nat (length hits),
             sr_Hits = (if maxItems < length hits then take maxItems hits else hits)\<rparr>))"

section \<open>Blocks, transactions and proofs\<close>

record ActivityTransaction =
  at_BlockNumber :: u64
  at_BlockHash :: string
  at_Transaction :: Transaction

record ActivityProof =
  ap_BlockNumber :: u64
  ap_BlockHash :: string
  ap_Proof :: CrawlProof

record RecentActivity =
  ra_LatestBlock :: u64
  ra_Transactions :: "ActivityTransaction list"
  ra_Proofs :: "ActivityProof list"

record AddressActivity =
  aa_Address :: string
  aa_Alias :: string
  aa_Balance :: string
  aa_LatestNonce :: u64
  aa_Transactions :: "ActivityTransaction list"
  aa_Proofs :: "ActivityProof list"

definition normalizeActivityLimit :: "u64 \<Rightarrow> nat" where
  "normalizeActivityLimit limit = (if limit = 0 then 12 else if 64 < limit then 64 else unat limit)"

definition activity_tx :: "Block \<Rightarrow> Transaction \<Rightarrow> ActivityTransaction" where
  "activity_tx block tx =
     \<lparr>at_BlockNumber = hdr_Number (blk_Header block), at_BlockHash = blk_Hash block, at_Transaction = tx\<rparr>"

definition activity_proof :: "Block \<Rightarrow> CrawlProof \<Rightarrow> ActivityProof" where
  "activity_proof block p =
     \<lparr>ap_BlockNumber = hdr_Number (blk_Header block), ap_BlockHash = blk_Hash block, ap_Proof = p\<rparr>"

text \<open>
  The inner loops: the entries of a block from the last to the first (\<open>xs\<close> is reversed) while there is room and, in
  \<open>AddressActivity\<close>, only those that concern the address.
\<close>

fun collect :: "nat \<Rightarrow> ('a \<Rightarrow> bool) \<Rightarrow> ('a \<Rightarrow> 'b) \<Rightarrow> 'a list \<Rightarrow> 'b list \<Rightarrow> 'b list" where
  "collect maxItems p mk [] acc = acc"
| "collect maxItems p mk (x # xs) acc =
     (if maxItems \<le> length acc then acc
      else collect maxItems p mk xs (if p x then acc @ [mk x] else acc))"

fun recent_loop :: "Blockchain \<Rightarrow> nat \<Rightarrow> nat \<Rightarrow> RecentActivity \<Rightarrow> RecentActivity" where
  "recent_loop bc maxItems number result =
     (let result' =
            (case GetBlockByNumber bc (of_nat number) of
               Inl _ \<Rightarrow> result
             | Inr block \<Rightarrow>
                 result\<lparr>ra_Transactions := collect maxItems (\<lambda>_. True) (activity_tx block)
                            (rev (body_Transactions (blk_Body block))) (ra_Transactions result),
                        ra_Proofs := collect maxItems (\<lambda>_. True) (activity_proof block)
                            (rev (body_CrawlProofs (blk_Body block))) (ra_Proofs result)\<rparr>)
      in if maxItems \<le> length (ra_Transactions result') \<and> maxItems \<le> length (ra_Proofs result') then result'
         else if number = 0 then result'
         else recent_loop bc maxItems (number - 1) result')"

declare recent_loop.simps [simp del]

definition RecentActivity_query :: "Blockchain \<Rightarrow> u64 \<Rightarrow> RecentActivity" where
  "RecentActivity_query bc limit =
     (let latest = hdr_Number (blk_Header (bc_latest bc))
      in recent_loop bc (normalizeActivityLimit limit) (unat latest)
           \<lparr>ra_LatestBlock = latest, ra_Transactions = [], ra_Proofs = []\<rparr>)"

fun address_txs :: "Blockchain \<Rightarrow> nat \<Rightarrow> string \<Rightarrow> nat \<Rightarrow> ActivityTransaction list \<Rightarrow> ActivityTransaction list" where
  "address_txs bc maxItems address number acc =
     (let acc' =
            (case GetBlockByNumber bc (of_nat number) of
               Inl _ \<Rightarrow> acc
             | Inr block \<Rightarrow>
                 collect maxItems (\<lambda>tx. tx_From tx = address \<or> tx_To tx = address) (activity_tx block)
                   (rev (body_Transactions (blk_Body block))) acc)
      in if maxItems \<le> length acc' \<or> number = 0 then acc' else address_txs bc maxItems address (number - 1) acc')"

declare address_txs.simps [simp del]

fun address_proofs ::
    "Blockchain \<Rightarrow> nat \<Rightarrow> string \<Rightarrow> string list \<Rightarrow> nat \<Rightarrow> ActivityProof list \<Rightarrow> ActivityProof list" where
  "address_proofs bc maxItems address related number acc =
     (let acc' =
            (case GetBlockByNumber bc (of_nat number) of
               Inl _ \<Rightarrow> acc
             | Inr block \<Rightarrow>
                 collect maxItems (\<lambda>p. pr_Miner p = address \<or> pr_TaskTxHash p \<in> set related) (activity_proof block)
                   (rev (body_CrawlProofs (blk_Body block))) acc)
      in if maxItems \<le> length acc' \<or> number = 0 then acc' else address_proofs bc maxItems address related (number - 1) acc')"

declare address_proofs.simps [simp del]

text \<open>The tasks whose proofs are related are those among the transactions collected.\<close>

definition AddressActivity_query :: "Blockchain \<Rightarrow> NameRecord list \<Rightarrow> string \<Rightarrow> u64 \<Rightarrow> AddressActivity res" where
  "AddressActivity_query bc order address limit =
     (let cleaned = TrimSpace address in
      if cleaned = [] then Inl ErrInvalidTransaction
      else
        (let maxItems = normalizeActivityLimit limit;
             latest = unat (hdr_Number (blk_Header (bc_latest bc)));
             txs = address_txs bc maxItems cleaned latest [];
             related = map tx_Hash (filter (\<lambda>tx. tx_Type tx = TxTypeSearchTask) (map at_Transaction txs))
         in Inr \<lparr>aa_Address = cleaned,
                 aa_Alias = (case ReverseResolve order cleaned of None \<Rightarrow> [] | Some r \<Rightarrow> name_Name r),
                 aa_Balance = show_int (GetBalance bc cleaned), aa_LatestNonce = PendingNonce_chain bc cleaned,
                 aa_Transactions = txs, aa_Proofs = address_proofs bc maxItems cleaned related latest []\<rparr>))"

fun transaction_loop :: "Blockchain \<Rightarrow> string \<Rightarrow> nat \<Rightarrow> ActivityTransaction res" where
  "transaction_loop bc target number =
     (let rest = (if number = 0 then Inl ErrTransactionNotFound else transaction_loop bc target (number - 1)) in
      case GetBlockByNumber bc (of_nat number) of
        Inl _ \<Rightarrow> rest
      | Inr block \<Rightarrow>
          (case find (\<lambda>tx. tx_Hash tx = target) (body_Transactions (blk_Body block)) of
             Some tx \<Rightarrow> Inr (activity_tx block tx)
           | None \<Rightarrow> rest))"

declare transaction_loop.simps [simp del]

definition TransactionByHash :: "Blockchain \<Rightarrow> string \<Rightarrow> ActivityTransaction res" where
  "TransactionByHash bc hash =
     (let target = TrimSpace hash in
      if target = [] then Inl ErrTransactionNotFound
      else transaction_loop bc target (unat (hdr_Number (blk_Header (bc_latest bc)))))"

fun proof_loop :: "Blockchain \<Rightarrow> string \<Rightarrow> string \<Rightarrow> nat \<Rightarrow> ActivityProof res" where
  "proof_loop bc targetTx targetTask number =
     (let rest = (if number = 0 then Inl ErrCrawlProofNotFound else proof_loop bc targetTx targetTask (number - 1)) in
      case GetBlockByNumber bc (of_nat number) of
        Inl _ \<Rightarrow> rest
      | Inr block \<Rightarrow>
          (case find (\<lambda>p. targetTx \<noteq> [] \<and> pr_TaskTxHash p = targetTx \<or> targetTask \<noteq> [] \<and> pr_TaskID p = targetTask)
                  (body_CrawlProofs (blk_Body block)) of
             Some p \<Rightarrow> Inr (activity_proof block p)
           | None \<Rightarrow> rest))"

declare proof_loop.simps [simp del]

definition CrawlProofByTask :: "Blockchain \<Rightarrow> string \<Rightarrow> string \<Rightarrow> ActivityProof res" where
  "CrawlProofByTask bc taskTxHash taskID =
     (if TrimSpace taskTxHash = [] \<and> TrimSpace taskID = [] then Inl ErrCrawlProofNotFound
      else proof_loop bc (TrimSpace taskTxHash) (TrimSpace taskID) (unat (hdr_Number (blk_Header (bc_latest bc)))))"

end
