(* ===== verification/Chain_States.thy ===== *)
theory Chain_States
  imports Queries
begin

text \<open>
  The states a chain keeps, one per stored block. The locale \<open>block_invariant\<close> is the contract between block
  preparation and the store: a relation between a block and its state that \<open>prepareBlock\<close> carries from the parent to
  the child. Inside it the relation is shown for every stored block of every reachable chain. It is interpreted twice:
  the state root of the header is the root of the stored state, and the books of every stored state balance.
\<close>

definition snapshots :: "(Block \<Rightarrow> StateSnapshot \<Rightarrow> bool) \<Rightarrow> Store \<Rightarrow> bool" where
  "snapshots P st \<longleftrightarrow>
     (\<forall>h b. fmlookup (st_blocks st) h = Some b \<longrightarrow> (\<exists>s. fmlookup (st_states st) h = Some s \<and> P b s))"

lemma snapshots_same:
  "st_blocks st' = st_blocks st \<Longrightarrow> st_states st' = st_states st \<Longrightarrow> snapshots P st' = snapshots P st"
  by (simp add: snapshots_def)

lemma snapshots_after:
  "st_blocks st' = st_blocks (persistBlockArtifacts s b m st) \<Longrightarrow> st_states st' = st_states (persistBlockArtifacts s b m st) \<Longrightarrow>
   snapshots P st \<Longrightarrow> P b s \<Longrightarrow> snapshots P st'"
  by (auto simp: snapshots_def persistBlockArtifacts_def persistStateSnapshot_def)

lemma adopt_all_bodies: "adopt_all st ms = Inr st' \<Longrightarrow> st_blocks st' = st_blocks st \<and> st_states st' = st_states st"
proof (induction ms arbitrary: st)
  case (Cons m ms)
  then obtain st1 where st1: "adopt st m = Inr st1" "adopt_all st1 ms = Inr st'" by (auto split: sum.splits)
  then have "st_blocks st1 = st_blocks st \<and> st_states st1 = st_states st"
    by (auto simp: adopt_def Let_def storeBlockMetaTxn_def split: sum.splits)
  with Cons.IH [OF st1(2)] show ?case by simp
qed simp

lemma retire_bodies: "st_blocks (fold retire ms st) = st_blocks st \<and> st_states (fold retire ms st) = st_states st"
  by (induction ms arbitrary: st) (simp_all add: retire_def Let_def storeBlockMetaTxn_def)

lemma rewrite_bodies:
  assumes "rewriteCanonicalTip a b st = Some (Inr st')"
  shows "st_blocks st' = st_blocks st \<and> st_states st' = st_states st"
proof -
  obtain oldPath newPath where "adopt_all (fold retire oldPath st) (rev newPath) = Inr st'"
    using assms by (auto simp: rewriteCanonicalTip_def andThen_def split: if_splits option.splits sum.splits prod.splits)
  then show ?thesis using adopt_all_bodies retire_bodies by metis
qed

lemma network_bodies:
  "persistNetworkConfig E net st = Inr st' \<Longrightarrow> st_blocks st' = st_blocks st \<and> st_states st' = st_states st"
  using persistNetworkConfig_frame(5,6) by blast

lemma persistCanonicalTip_bodies:
  assumes "persistCanonicalTipLocked E bc s b m = Some (Inr bc')"
  shows "st_blocks (bc_db bc') = st_blocks (persistBlockArtifacts s b m (bc_db bc))
     \<and> st_states (bc_db bc') = st_states (persistBlockArtifacts s b m (bc_db bc)) \<and> bc_latest bc' = b \<and> bc_state bc' = s"
  using assms
  by (auto simp: persistCanonicalTipLocked_def andThen_def dest!: rewrite_bodies network_bodies
      split: option.splits sum.splits)

lemma storeImported_bodies:
  assumes "storeImportedBlockLocked E bc s b m c = Some (Inr bc')"
  shows "st_blocks (bc_db bc') = st_blocks (persistBlockArtifacts s b m (bc_db bc))
     \<and> st_states (bc_db bc') = st_states (persistBlockArtifacts s b m (bc_db bc))"
  using assms
  by (auto simp: storeImportedBlockLocked_def Let_def andThen_def dest!: rewrite_bodies network_bodies
      split: option.splits sum.splits if_splits)

locale block_invariant =
  fixes E :: env
    and P :: "Block \<Rightarrow> StateSnapshot \<Rightarrow> bool"
  assumes prepared: "P parent st \<Longrightarrow> prepareBlock E parent (Some st) block arch = Inr pb \<Longrightarrow> P (pb_Block pb) (pb_State pb)"
begin

lemma tip_state:
  assumes "chain_inv g bc" "snapshots P (bc_db bc)"
  shows "P (bc_latest bc) (bc_state bc)"
  using assms unfolding chain_inv_def snapshots_def by (metis option.inject)

lemma step_states:
  assumes "chain_step E bc bc'" "chain_inv g bc" "snapshots P (bc_db bc)"
  shows "snapshots P (bc_db bc')"
  using assms
proof (induction rule: chain_step.induct)
  case (mined bc miner txs proofs bc' b)
  then obtain pb where pb: "prepareBlock E (bc_latest bc) (Some (bc_state bc)) (mining_block E bc miner txs proofs)
      (net_ArchitectAddress (bc_network bc)) = Inr pb"
    and persist: "persistCanonicalTipLocked E bc (pb_State pb) (pb_Block pb) (prepared_meta pb (bc_latestMeta bc) True) = Some (Inr bc')"
    by (auto simp: MineBlock_unfold andThen_def split: option.splits sum.splits)
  have "P (pb_Block pb) (pb_State pb)" by (rule prepared [OF tip_state pb]) (use mined in auto)
  with mined(5) persistCanonicalTip_bodies [OF persist] show ?case by (blast intro: snapshots_after)
next
  case (imported bc b bc')
  show ?case
  proof (cases rule: ImportBlock_cases [of E bc b, case_names rejected known added])
    case (added parent pm st pb better)
    let ?h = "hdr_ParentHash (blk_Header b)"
    have vis: "TrimSpace ?h \<noteq> []" using added(3) by (auto simp: getBlockByHashLocked_def)
    have "fmlookup (st_blocks (bc_db bc)) ?h = Some parent" "fmlookup (st_states (bc_db bc)) ?h = Some st"
      using added(3,8) unfolding reads_through [OF imported(3) vis] loadBlockTxn_def loadStateSnapshotTxn_def
      by (auto split: option.splits)
    then have "P parent st" using imported(4) by (fastforce simp: snapshots_def)
    then have "P (pb_Block pb) (pb_State pb)" using added(5) by (rule prepared)
    moreover have "storeImportedBlockLocked E bc (pb_State pb) (pb_Block pb) (prepared_meta pb pm better) better = Some (Inr bc')"
      using imported(1) added(7) by simp
    note storeImported_bodies [OF this]
    ultimately show ?thesis using imported(4) by (blast intro: snapshots_after)
  qed (use imported in auto)
qed

lemma run_states:
  assumes "(chain_step E)\<^sup>*\<^sup>* bc0 bc" "sha256_len E" "chain_inv g bc0" "snapshots P (bc_db bc0)"
  shows "chain_inv g bc \<and> snapshots P (bc_db bc)"
  using assms(1)
proof (induction rule: rtranclp_induct)
  case (step bc bc')
  then show ?case using chain_step_inv [OF step(2) assms(2)] step_states [OF step(2)] by blast
qed (use assms in auto)

end

section \<open>The genesis\<close>

lemma genesis_opened:
  assumes "OpenBlockchain E empty_store config balances = Some (Inr bc)"
  shows "snapshots (\<lambda>b s. s = genesis_state NewStateSnapshot balances
      \<and> hdr_StateRoot (blk_Header b) = computeStateRoot E s) (bc_db bc)
    \<and> bc_state bc = genesis_state NewStateSnapshot balances"
proof (cases "NormalizeNetworkConfig E config")
  case (Inr network)
  let ?s = "genesis_state NewStateSnapshot balances"
  obtain chain m where chain: "bc_db chain = empty_store"
    and persist: "persistCanonicalTipLocked E chain ?s (genesis_block E (ArchitectAddress chain) ?s) m = Some (Inr bc)"
  proof -
    let ?net = "if TrimSpace (net_GenesisAddress network) = []
      then network\<lparr>net_GenesisAddress := inferGenesisAddress balances (net_ArchitectAddress network)\<rparr> else network"
    show ?thesis
      using that [of "\<lparr>bc_db = empty_store, bc_state = ?s, bc_latest = zero_Block, bc_latestMeta = zero_BlockMeta, bc_network = ?net\<rparr>"] assms
      unfolding open_new [OF Inr] start_genesis_def Let_def by simp
  qed
  have "hdr_StateRoot (blk_Header (genesis_block E (ArchitectAddress chain) ?s)) = computeStateRoot E ?s"
    by (simp add: genesis_block_def Let_def)
  moreover have "snapshots Q empty_store" for Q by (simp add: snapshots_def empty_store_def)
  ultimately show ?thesis using persistCanonicalTip_bodies [OF persist] chain by (auto intro: snapshots_after)
qed (use assms in \<open>simp add: OpenBlockchain_def\<close>)

lemma snapshots_mono: "snapshots P st \<Longrightarrow> (\<And>b s. P b s \<Longrightarrow> Q b s) \<Longrightarrow> snapshots Q st"
  unfolding snapshots_def by blast


section \<open>Two invariants of every stored state\<close>

lemma prepared_root:
  assumes "prepareBlock E parent (Some st) block arch = Inr pb"
  shows "hdr_StateRoot (blk_Header (pb_Block pb)) = computeStateRoot E (pb_State pb)"
  using assms
proof (rule prepareBlock_Inr)
  fix st1 applied st2 ps
  assume proofs: "run_steps (\<lambda>s p. ApplyCrawlProof E s p []) st1 (body_CrawlProofs (blk_Body block)) = Inr (st2, ps)"
    and pb: "pb_Block pb = expected_block E parent block (map app_Transaction applied) ps st2"
    "pb_State pb = fold (stamp_record (blk_Hash (pb_Block pb))) ps st2"
  have "computeStateRoot E (pb_State pb) = computeStateRoot E st2"
    unfolding pb(2) using proofs_indexed [OF proofs] by (intro state_root_stamps) auto
  then show ?thesis by (simp add: pb(1))
qed

interpretation roots: block_invariant E "\<lambda>b s. hdr_StateRoot (blk_Header b) = computeStateRoot E s" for E
  by unfold_locales (rule prepared_root)

interpretation books: block_invariant E "\<lambda>b s. ledger_inv s \<and> total_supply s \<le> limit" for E and limit
  by unfold_locales (use prepared_block_consistent in fastforce)

lemma genesis_balances:
  "list_all (\<lambda>(a, v). 0 \<le> cloneBigInt v) balances \<Longrightarrow> \<forall>a. 0 \<le> fm_get (Balances st) 0 a \<Longrightarrow>
   \<forall>a. 0 \<le> fm_get (Balances (genesis_state st balances)) 0 a"
proof -
  have "list_all (\<lambda>(a, v). 0 \<le> cloneBigInt v) balances \<Longrightarrow> \<forall>a. 0 \<le> fm_get m 0 a \<Longrightarrow>
      \<forall>a. 0 \<le> fm_get (fold (\<lambda>(a, v) m. fmupd a (cloneBigInt v) m) balances m) 0 a" for m
    by (induction balances arbitrary: m) auto
  then show "list_all (\<lambda>(a, v). 0 \<le> cloneBigInt v) balances \<Longrightarrow> \<forall>a. 0 \<le> fm_get (Balances st) 0 a \<Longrightarrow>
    \<forall>a. 0 \<le> fm_get (Balances (genesis_state st balances)) 0 a" by (simp add: genesis_state_def)
qed

lemma genesis_ledger_inv:
  assumes "list_all (\<lambda>(a, v). 0 \<le> cloneBigInt v) balances"
  shows "ledger_inv (genesis_state NewStateSnapshot balances)"
  using genesis_balances [OF assms, of NewStateSnapshot]
  by (simp add: ledger_inv_def obligations_def) (simp add: genesis_state_def NewStateSnapshot_def)



section \<open>Reading a state by its block number\<close>

lemma digits_plain:
  assumes "list_all is_digit s"
  shows "ToLower E s = s" "TrimSpace s = s"
proof -
  have "lower_char c = c" "byte c < 128" if "c \<in> set s" for c
    using assms that by (auto simp: list_all_iff is_digit_def lower_char_def)
  then show "ToLower E s = s" by (auto simp: ToLower_def is_ascii_def list_all_iff intro: map_idI)
  show "TrimSpace s = s" by (rule TrimSpace_visible) (use assms digit_visible in \<open>auto simp: list_all_iff\<close>)
qed

lemma FormatUint_nonempty: "FormatUint n \<noteq> []"
  by (simp add: FormatUint_def)

lemma parseBlockReference_number: "parseBlockReference E (FormatUint n) latest = Inr n"
proof -
  have d: "list_all is_digit (FormatUint n)" by (simp add: FormatUint_def show_nat_digits)
  have "FormatUint n \<noteq> ''latest''" "\<not> prefix ''0x'' (FormatUint n)"
    using d by (auto simp: is_digit_def byte_def prefix_def)
  then show ?thesis
    using digits_plain [OF d] by (simp add: parseBlockReference_def FormatUint_nonempty)
qed

lemma stateForBlockRef_number:
  "stateForBlockRef E bc (FormatUint n) =
     (case GetBlockByNumber bc n of Inl e \<Rightarrow> Inl e | Inr block \<Rightarrow> getStateSnapshotLocked bc (blk_Hash block))"
proof -
  have d: "list_all is_digit (FormatUint n)" by (simp add: FormatUint_def show_nat_digits)
  have "FormatUint n \<noteq> ''latest''" using d by (auto simp: is_digit_def byte_def)
  then show ?thesis
    using digits_plain [OF d] parseBlockReference_number [of E n] by (simp add: stateForBlockRef_def FormatUint_nonempty)
qed


lemma number_stored:
  assumes inv: "chain_inv g bc" and get: "GetBlockByNumber bc n = Inr b"
  shows "fmlookup (st_blocks (bc_db bc)) (blk_Hash b) = Some b \<and> TrimSpace (blk_Hash b) \<noteq> []"
proof -
  have ok: "tree_ok g (tree_of (bc_db bc))" using inv by (simp add: chain_inv_def)
  obtain ms where p: "path (tree_of (bc_db bc)) (blk_Hash (bc_latest bc)) ms" "canonical_is (bc_db bc) ms"
    using inv by (auto simp: chain_inv_def)
  obtain m where m: "m \<in> set ms" "fmlookup (st_blocks (bc_db bc)) (meta_Hash m) = Some b"
    using get by (auto simp: number_reads [OF inv p])
  have "blk_Hash b = meta_Hash m" by (rule block_at [OF inv p(1) m(1)]) (use m in simp)
  then show ?thesis using m(2) tree_okD(2,3) [OF ok path_mem [OF p(1) ok m(1)]] by auto
qed

text \<open>
  Every height of the chain can be queried: in every state a node can reach, a block reference from 0 up to the tip
  resolves to the state of the canonical block with that number, whose root is the one its header carries; the tip's
  number and \<open>latest\<close> resolve to the current state; a greater number is refused as not found.
\<close>

theorem state_at_every_height:
  assumes "OpenBlockchain E empty_store config balances = Some (Inr bc0)" and "(chain_step E)\<^sup>*\<^sup>* bc0 bc" and "sha256_len E"
  shows "(\<forall>n \<le> hdr_Number (blk_Header (bc_latest bc)).
      \<exists>b s. GetBlockByNumber bc n = Inr b \<and> hdr_Number (blk_Header b) = n \<and> stateForBlockRef E bc (FormatUint n) = Inr s
          \<and> computeStateRoot E s = hdr_StateRoot (blk_Header b))
    \<and> (\<forall>n > hdr_Number (blk_Header (bc_latest bc)). stateForBlockRef E bc (FormatUint n) = Inl ErrBlockNotFound)
    \<and> stateForBlockRef E bc (FormatUint (hdr_Number (blk_Header (bc_latest bc)))) = Inr (bc_state bc)
    \<and> stateForBlockRef E bc ''latest'' = Inr (bc_state bc)"
proof -
  have "snapshots (\<lambda>b s. hdr_StateRoot (blk_Header b) = computeStateRoot E s) (bc_db bc0)"
    using genesis_opened [OF assms(1)] by (auto intro: snapshots_mono)
  from roots.run_states [OF assms(2,3) open_new_inv [OF assms(1,3)] this]
  have inv: "chain_inv (blk_Hash (bc_latest bc0)) bc"
    and states: "snapshots (\<lambda>b s. hdr_StateRoot (blk_Header b) = computeStateRoot E s) (bc_db bc)" by blast+
  have tip: "stateForBlockRef E bc (FormatUint (hdr_Number (blk_Header (bc_latest bc)))) = Inr (bc_state bc)"
    using latest_facts(1,5) [OF inv] by (simp add: stateForBlockRef_number GetBlockByNumber_def getStateSnapshotLocked_def)
  have "TrimSpace ''latest'' = ''latest''" by (rule TrimSpace_visible) (simp add: visible_def byte_def)
  then have latest: "stateForBlockRef E bc ''latest'' = Inr (bc_state bc)"
    by (simp add: stateForBlockRef_def ToLower_def is_ascii_def lower_char_def byte_def)
  have "\<exists>b s. GetBlockByNumber bc n = Inr b \<and> hdr_Number (blk_Header b) = n \<and> stateForBlockRef E bc (FormatUint n) = Inr s
      \<and> computeStateRoot E s = hdr_StateRoot (blk_Header b)" if "n \<le> hdr_Number (blk_Header (bc_latest bc))" for n
  proof -
    have "\<exists>b. GetBlockByNumber bc n = Inr b" using that by (simp add: level_reads [OF inv])
    then obtain b where b: "GetBlockByNumber bc n = Inr b" ..
    note link = link_reads [OF inv b]
    note stored = number_stored [OF inv b, THEN conjunct1] number_stored [OF inv b, THEN conjunct2]
    then obtain s where s: "fmlookup (st_states (bc_db bc)) (blk_Hash b) = Some s" "hdr_StateRoot (blk_Header b) = computeStateRoot E s"
      using states by (auto simp: snapshots_def)
    have "stateForBlockRef E bc (FormatUint n) = Inr s"
      using b s(1) stored(2) by (simp add: stateForBlockRef_number reads_through(3) [OF inv stored(2)] loadStateSnapshotTxn_def)
    then show ?thesis using b s(2) link(1) by auto
  qed
  moreover have "stateForBlockRef E bc (FormatUint n) = Inl ErrBlockNotFound" if "hdr_Number (blk_Header (bc_latest bc)) < n" for n
  proof -
    have "\<nexists>b. GetBlockByNumber bc n = Inr b" using that by (simp add: level_reads [OF inv] not_le)
    moreover have "n \<noteq> hdr_Number (blk_Header (bc_latest bc))" using that by simp
    ultimately have "GetBlockByNumber bc n = Inl ErrBlockNotFound"
      by (simp add: GetBlockByNumber_def split: option.splits)
    then show ?thesis by (simp add: stateForBlockRef_number)
  qed
  ultimately show ?thesis using tip latest by blast
qed

theorem state_at_every_height_witness:
  "\<exists>bc b s. hdr_Number (blk_Header (bc_latest bc)) = 1 \<and> GetBlockByNumber bc 0 = Inr b
     \<and> stateForBlockRef chain_env bc (FormatUint 0) = Inr s \<and> computeStateRoot chain_env s = hdr_StateRoot (blk_Header b)"
proof -
  obtain bc bc' where open0: "OpenBlockchain chain_env empty_store chain_config [] = Some (Inr bc)"
    and one: "hdr_Number (blk_Header (bc_latest bc')) = 1" and run: "(chain_step chain_env)\<^sup>*\<^sup>* bc bc'" by (rule chain_mines)
  from state_at_every_height [OF open0 run chain_env_sha, THEN conjunct1, rule_format, of 0]
  obtain b s where "GetBlockByNumber bc' 0 = Inr b" "stateForBlockRef chain_env bc' (FormatUint 0) = Inr s"
    "computeStateRoot chain_env s = hdr_StateRoot (blk_Header b)" by auto
  with one show ?thesis by blast
qed

end
