(* ===== verification/Queries_Laws.thy ===== *)
theory Queries_Laws
  imports Chain_States
begin

text \<open>
  What the queries of \<open>Queries\<close> answer: a transaction is found exactly when a canonical block holds it; the recent
  activity is the newest part of the history; a search returns exactly the matching documents, best first; and what
  \<open>Sign\<close> signs is accepted by the validation of signatures.
\<close>

section \<open>Transactions by hash\<close>

definition holds_tx :: "string \<Rightarrow> Block \<Rightarrow> bool" where
  "holds_tx h block \<longleftrightarrow> h \<in> tx_Hash ` set (body_Transactions (blk_Body block))"

lemma find_tx:
  "find (\<lambda>tx. tx_Hash tx = h) txs = Some tx \<Longrightarrow> tx \<in> set txs \<and> tx_Hash tx = h"
  "find (\<lambda>tx. tx_Hash tx = h) txs = None \<longleftrightarrow> h \<notin> tx_Hash ` set txs"
  by (auto simp: find_Some_iff find_None_iff dest: nth_mem)

lemma transaction_loop_spec:
  "case transaction_loop bc h n of
     Inl e \<Rightarrow> e = ErrTransactionNotFound \<and> (\<forall>k \<le> n. \<forall>b. GetBlockByNumber bc (of_nat k) = Inr b \<longrightarrow> \<not> holds_tx h b)
   | Inr a \<Rightarrow> (\<exists>k \<le> n. \<exists>b. GetBlockByNumber bc (of_nat k) = Inr b \<and> a = activity_tx b (at_Transaction a)
       \<and> at_Transaction a \<in> set (body_Transactions (blk_Body b)) \<and> tx_Hash (at_Transaction a) = h
       \<and> (\<forall>j b. k < j \<longrightarrow> j \<le> n \<longrightarrow> GetBlockByNumber bc (of_nat j) = Inr b \<longrightarrow> \<not> holds_tx h b))"
proof (induction n)
  case 0
  then show ?case
    by (subst transaction_loop.simps)
      (auto simp: Let_def holds_tx_def activity_tx_def find_tx(2) dest: find_tx(1) split: sum.splits option.splits)
next
  case (Suc n)
  let ?here = "\<exists>b. GetBlockByNumber bc (of_nat (Suc n)) = Inr b \<and> holds_tx h b"
  have step: "transaction_loop bc h (Suc n) =
      (case GetBlockByNumber bc (of_nat (Suc n)) of
         Inl _ \<Rightarrow> transaction_loop bc h n
       | Inr block \<Rightarrow>
           (case find (\<lambda>tx. tx_Hash tx = h) (body_Transactions (blk_Body block)) of
              Some tx \<Rightarrow> Inr (activity_tx block tx)
            | None \<Rightarrow> transaction_loop bc h n))"
    by (subst transaction_loop.simps) (simp add: Let_def)
  show ?case
  proof (cases ?here)
    case True
    then obtain b where b: "GetBlockByNumber bc (of_nat (Suc n)) = Inr b" "holds_tx h b" by blast
    then obtain tx where tx: "find (\<lambda>tx. tx_Hash tx = h) (body_Transactions (blk_Body b)) = Some tx"
      using find_tx(2) [of h] by (cases "find (\<lambda>tx. tx_Hash tx = h) (body_Transactions (blk_Body b))") (auto simp: holds_tx_def)
    then show ?thesis unfolding step b(1) sum.case option.case tx
      using b(1) find_tx(1) [OF tx] by (auto simp: activity_tx_def intro!: exI [of _ "Suc n"])
  next
    case False
    then have same: "transaction_loop bc h (Suc n) = transaction_loop bc h n"
      unfolding step by (auto simp: holds_tx_def find_tx(2) split: sum.splits option.splits dest!: find_tx(1))
    show ?thesis
    proof (cases "transaction_loop bc h n")
      case (Inl e)
      then show ?thesis using Suc.IH False same by (auto simp: le_Suc_eq)
    next
      case (Inr a)
      then obtain k b where "k \<le> n" "GetBlockByNumber bc (of_nat k) = Inr b" "a = activity_tx b (at_Transaction a)"
          "at_Transaction a \<in> set (body_Transactions (blk_Body b))" "tx_Hash (at_Transaction a) = h"
          "\<forall>j b. k < j \<longrightarrow> j \<le> n \<longrightarrow> GetBlockByNumber bc (of_nat j) = Inr b \<longrightarrow> \<not> holds_tx h b"
        using Suc.IH by auto
      then show ?thesis using Inr same False by (auto simp: le_Suc_eq intro!: exI [of _ k])
    qed
  qed
qed

text \<open>
  C11: A transaction is found by its hash exactly when a block of the canonical chain holds it: in every state a node can
  reach the answer is the newest canonical block with such a transaction, with that block's number and hash, and the
  answer is "not found" only when the hash is blank or no canonical block holds it.
\<close>

theorem transaction_found_iff_canonical:
  assumes "chain_reach E g bc" and "sha256_len E"
  shows "case TransactionByHash bc hash of
      Inr a \<Rightarrow> tx_Hash (at_Transaction a) = TrimSpace hash
        \<and> (\<exists>b. GetBlockByNumber bc (at_BlockNumber a) = Inr b \<and> blk_Hash b = at_BlockHash a
             \<and> at_Transaction a \<in> set (body_Transactions (blk_Body b)))
        \<and> (\<forall>n b. at_BlockNumber a < n \<longrightarrow> GetBlockByNumber bc n = Inr b \<longrightarrow> \<not> holds_tx (TrimSpace hash) b)
    | Inl e \<Rightarrow> e = ErrTransactionNotFound
        \<and> (TrimSpace hash = [] \<or> (\<forall>n b. GetBlockByNumber bc n = Inr b \<longrightarrow> \<not> holds_tx (TrimSpace hash) b))"
proof (cases "TrimSpace hash = []")
  case False
  note inv = chain_reach_inv [OF assms]
  let ?h = "TrimSpace hash" and ?tip = "unat (hdr_Number (blk_Header (bc_latest bc)))"
  have upto: "unat n \<le> ?tip" if "GetBlockByNumber bc n = Inr b" for n b
    using level_reads [OF inv, of n] that by (auto simp: word_le_nat_alt)
  have query: "TransactionByHash bc hash = transaction_loop bc ?h ?tip" using False by (simp add: TransactionByHash_def)
  show ?thesis
  proof (cases "transaction_loop bc ?h ?tip")
    case (Inl e)
    have all: "\<not> holds_tx ?h b"
      if "\<forall>k \<le> ?tip. \<forall>b. GetBlockByNumber bc (of_nat k) = Inr b \<longrightarrow> \<not> holds_tx ?h b" "GetBlockByNumber bc n = Inr b" for n b
      using that(1) [rule_format, of "unat n" b] upto [OF that(2)] that(2) by simp
    from Inl show ?thesis
      using transaction_loop_spec [where bc = bc and h = ?h and n = ?tip] all unfolding query by auto
  next
    case (Inr a)
    then obtain k b where k: "k \<le> ?tip" "GetBlockByNumber bc (of_nat k) = Inr b" "a = activity_tx b (at_Transaction a)"
        "at_Transaction a \<in> set (body_Transactions (blk_Body b))" "tx_Hash (at_Transaction a) = ?h"
        "\<forall>j b. k < j \<longrightarrow> j \<le> ?tip \<longrightarrow> GetBlockByNumber bc (of_nat j) = Inr b \<longrightarrow> \<not> holds_tx ?h b"
      using transaction_loop_spec [where bc = bc and h = ?h and n = ?tip] by auto
    have number: "at_BlockNumber a = of_nat k" "at_BlockHash a = blk_Hash b"
      using k(3) link_reads(1) [OF inv k(2)] by (simp_all add: activity_tx_def) (metis ActivityTransaction.select_convs)+
    have "k < 2 ^ 64" using k(1) unsigned_less [of "hdr_Number (blk_Header (bc_latest bc))", where ?'a = nat] by simp
    then have kn: "unat (of_nat k :: u64) = k" by (simp add: unat_of_nat take_bit_nat_eq_self)
    have "\<not> holds_tx ?h c" if "at_BlockNumber a < n" "GetBlockByNumber bc n = Inr c" for n c
      using k(6) [rule_format, of "unat n" c] that upto [OF that(2)] by (simp add: number word_less_nat_alt kn)
    then show ?thesis unfolding query Inr using k number by auto
  qed
qed (simp add: TransactionByHash_def)


theorem transaction_found_iff_canonical_witness:
  "\<exists>bc. hdr_Number (blk_Header (bc_latest bc)) = 1 \<and> TrimSpace ''t'' = ''t''
     \<and> (case TransactionByHash bc ''t'' of
          Inl e \<Rightarrow> e = ErrTransactionNotFound \<and> (\<forall>n b. GetBlockByNumber bc n = Inr b \<longrightarrow> \<not> holds_tx ''t'' b)
        | Inr a \<Rightarrow> tx_Hash (at_Transaction a) = ''t'')"
proof -
  obtain g bc where reach: "chain_reach chain_env g bc" and one: "hdr_Number (blk_Header (bc_latest bc)) = 1" by (rule chain_mines)
  have "TrimSpace ''t'' = ''t''" by (rule TrimSpace_visible) (simp add: visible_def byte_def)
  with one transaction_found_iff_canonical [OF reach chain_env_sha, of "''t''"] show ?thesis
    by (cases "TransactionByHash bc ''t''") auto
qed

section \<open>Recent activity\<close>

text \<open>The history of a chain, newest first: the entries of the blocks by number, from the tip down.\<close>

definition history :: "Blockchain \<Rightarrow> (Block \<Rightarrow> 'a list) \<Rightarrow> nat \<Rightarrow> 'a list" where
  "history bc entries n =
     concat (map (\<lambda>k. case GetBlockByNumber bc (of_nat k) of Inl _ \<Rightarrow> [] | Inr b \<Rightarrow> rev (entries b)) (rev [0..<Suc n]))"

definition block_txs :: "Block \<Rightarrow> ActivityTransaction list" where
  "block_txs b = map (activity_tx b) (body_Transactions (blk_Body b))"

definition block_proofs :: "Block \<Rightarrow> ActivityProof list" where
  "block_proofs b = map (activity_proof b) (body_CrawlProofs (blk_Body b))"

lemma collect_take: "collect m p mk xs acc = acc @ take (m - length acc) (map mk (filter p xs))"
  by (induction xs arbitrary: acc) (auto simp: take_Cons' Suc_diff_Suc)

lemma history_0: "history bc f 0 = (case GetBlockByNumber bc 0 of Inl _ \<Rightarrow> [] | Inr b \<Rightarrow> rev (f b))"
  by (simp add: history_def split: sum.splits)

lemma history_Suc:
  "history bc f (Suc n) = (case GetBlockByNumber bc (of_nat (Suc n)) of Inl _ \<Rightarrow> [] | Inr b \<Rightarrow> rev (f b)) @ history bc f n"
  by (simp add: history_def split: sum.splits)

lemma take_more: "acc @ take (m - length acc) (xs @ ys)
    = (acc @ take (m - length acc) xs) @ take (m - length (acc @ take (m - length acc) xs)) ys"
  by (simp add: min_def)

lemma recent_loop_history:
  "recent_loop bc m n r = r\<lparr>ra_Transactions := ra_Transactions r @ take (m - length (ra_Transactions r)) (history bc block_txs n),
     ra_Proofs := ra_Proofs r @ take (m - length (ra_Proofs r)) (history bc block_proofs n)\<rparr>"
proof (induction n arbitrary: r)
  case 0
  then show ?case
    by (subst recent_loop.simps)
      (simp add: Let_def history_0 collect_take block_txs_def block_proofs_def rev_map split: sum.splits)
next
  case (Suc n)
  let ?b = "GetBlockByNumber bc (of_nat (Suc n))"
  let ?here = "\<lambda>f. case ?b of Inl _ \<Rightarrow> [] | Inr b \<Rightarrow> rev (f b)"
  let ?r' = "r\<lparr>ra_Transactions := ra_Transactions r @ take (m - length (ra_Transactions r)) (?here block_txs),
     ra_Proofs := ra_Proofs r @ take (m - length (ra_Proofs r)) (?here block_proofs)\<rparr>"
  have "recent_loop bc m (Suc n) r =
      (if m \<le> length (ra_Transactions ?r') \<and> m \<le> length (ra_Proofs ?r') then ?r' else recent_loop bc m n ?r')"
  proof (cases ?b)
    case (Inl e)
    then show ?thesis unfolding recent_loop.simps [of bc m "Suc n" r] by (simp del: of_nat_Suc add: Let_def)
  next
    case (Inr b)
    have "rev (block_txs b) = map (activity_tx b) (filter (\<lambda>_. True) (rev (body_Transactions (blk_Body b))))"
      "rev (block_proofs b) = map (activity_proof b) (filter (\<lambda>_. True) (rev (body_CrawlProofs (blk_Body b))))"
      by (simp_all add: block_txs_def block_proofs_def rev_map)
    then show ?thesis
      unfolding recent_loop.simps [of bc m "Suc n" r] Inr sum.case collect_take Let_def by (simp only: nat.simps diff_Suc_1 if_False)
  qed
  moreover have "?r' = recent_loop bc m n ?r'" if "m \<le> length (ra_Transactions ?r') \<and> m \<le> length (ra_Proofs ?r')"
    using that by (simp add: Suc.IH)
  ultimately have "recent_loop bc m (Suc n) r = recent_loop bc m n ?r'" by argo
  then show ?case
    unfolding history_Suc take_more [of "ra_Transactions r" m "?here block_txs"] take_more [of "ra_Proofs r" m "?here block_proofs"]
    by (simp add: Suc.IH)
qed


definition about_txs :: "string \<Rightarrow> Block \<Rightarrow> ActivityTransaction list" where
  "about_txs a b = map (activity_tx b) (filter (\<lambda>tx. tx_From tx = a \<or> tx_To tx = a) (body_Transactions (blk_Body b)))"

definition about_proofs :: "string \<Rightarrow> string set \<Rightarrow> Block \<Rightarrow> ActivityProof list" where
  "about_proofs a tasks b =
     map (activity_proof b) (filter (\<lambda>p. pr_Miner p = a \<or> pr_TaskTxHash p \<in> tasks) (body_CrawlProofs (blk_Body b)))"

text \<open>The two loops of an address activity have the same shape.\<close>

lemma history_loop:
  assumes step: "\<And>n acc. loop n acc =
      (let acc' = (case GetBlockByNumber bc (of_nat n) of Inl _ \<Rightarrow> acc | Inr b \<Rightarrow> acc @ take (m - length acc) (rev (f b)))
       in if m \<le> length acc' \<or> n = 0 then acc' else loop (n - 1) acc')"
  shows "loop n acc = acc @ take (m - length acc) (history bc f n)"
proof (induction n arbitrary: acc)
  case 0
  then show ?case by (subst step) (simp add: history_0 Let_def split: sum.splits)
next
  case (Suc n)
  let ?here = "case GetBlockByNumber bc (of_nat (Suc n)) of Inl _ \<Rightarrow> [] | Inr b \<Rightarrow> rev (f b)"
  let ?acc = "acc @ take (m - length acc) ?here"
  have "loop (Suc n) acc = (if m \<le> length ?acc then ?acc else loop n ?acc)"
  proof (cases "GetBlockByNumber bc (of_nat (Suc n))")
    case (Inl e)
    then show ?thesis unfolding step [of "Suc n" acc] by (simp del: of_nat_Suc add: Let_def)
  next
    case (Inr b)
    then show ?thesis
      unfolding step [of "Suc n" acc] Inr sum.case Let_def by (simp only: nat.simps diff_Suc_1 simp_thms)
  qed
  moreover have "loop n ?acc = ?acc" if "m \<le> length ?acc" using that by (simp add: Suc.IH)
  ultimately have "loop (Suc n) acc = loop n ?acc" by argo
  then show ?case unfolding history_Suc take_more [of acc m ?here] by (simp add: Suc.IH)
qed

lemma address_txs_history: "address_txs bc m a n acc = acc @ take (m - length acc) (history bc (about_txs a) n)"
proof (rule history_loop)
  fix n acc
  have "rev (about_txs a b) = map (activity_tx b) (filter (\<lambda>tx. tx_From tx = a \<or> tx_To tx = a) (rev (body_Transactions (blk_Body b))))" for b
    by (simp add: about_txs_def rev_map rev_filter)
  note this_rev = this
  show "address_txs bc m a n acc =
      (let acc' = (case GetBlockByNumber bc (of_nat n) of Inl _ \<Rightarrow> acc | Inr b \<Rightarrow> acc @ take (m - length acc) (rev (about_txs a b)))
       in if m \<le> length acc' \<or> n = 0 then acc' else address_txs bc m a (n - 1) acc')"
    unfolding address_txs.simps [of bc m a n acc] collect_take this_rev by (rule refl)
qed

lemma address_proofs_history:
  "address_proofs bc m a related n acc = acc @ take (m - length acc) (history bc (about_proofs a (set related)) n)"
proof (rule history_loop)
  fix n acc
  have "rev (about_proofs a (set related) b)
      = map (activity_proof b) (filter (\<lambda>p. pr_Miner p = a \<or> pr_TaskTxHash p \<in> set related) (rev (body_CrawlProofs (blk_Body b))))" for b
    by (simp add: about_proofs_def rev_map rev_filter)
  note this_rev = this
  show "address_proofs bc m a related n acc =
      (let acc' = (case GetBlockByNumber bc (of_nat n) of Inl _ \<Rightarrow> acc | Inr b \<Rightarrow> acc @ take (m - length acc) (rev (about_proofs a (set related) b)))
       in if m \<le> length acc' \<or> n = 0 then acc' else address_proofs bc m a related (n - 1) acc')"
    unfolding address_proofs.simps [of bc m a related n acc] collect_take this_rev by (rule refl)
qed

lemma normalizeActivityLimit_range: "0 < normalizeActivityLimit limit" "normalizeActivityLimit limit \<le> 64"
proof -
  have "\<not> 64 < limit \<Longrightarrow> unat limit \<le> 64" by (simp add: word_less_nat_alt)
  moreover have "limit \<noteq> 0 \<Longrightarrow> 0 < unat limit" by (simp add: unat_gt_0)
  ultimately show "0 < normalizeActivityLimit limit" "normalizeActivityLimit limit \<le> 64"
    by (auto simp: normalizeActivityLimit_def)
qed

text \<open>
  Activity is the newest part of the history: the recent transactions and proofs are the first entries, at
  most 64 of each, of the blocks read from the tip down with each block from its end, and an address's activity is the first
  entries that concern it, its proofs being those it mined and those of the tasks among the transactions shown.
\<close>

theorem activity_newest_first:
  "\<exists>k. 0 < k \<and> k \<le> 64
    \<and> RecentActivity_query bc limit =
        \<lparr>ra_LatestBlock = hdr_Number (blk_Header (bc_latest bc)),
         ra_Transactions = take k (history bc block_txs (unat (hdr_Number (blk_Header (bc_latest bc))))),
         ra_Proofs = take k (history bc block_proofs (unat (hdr_Number (blk_Header (bc_latest bc)))))\<rparr>
    \<and> (case AddressActivity_query bc order address limit of
         Inl e \<Rightarrow> e = ErrInvalidTransaction \<and> TrimSpace address = []
       | Inr r \<Rightarrow>
           aa_Transactions r = take k (history bc (about_txs (TrimSpace address)) (unat (hdr_Number (blk_Header (bc_latest bc)))))
           \<and> aa_Proofs r = take k (history bc (about_proofs (TrimSpace address)
               (tx_Hash ` {tx \<in> at_Transaction ` set (aa_Transactions r). tx_Type tx = TxTypeSearchTask}))
               (unat (hdr_Number (blk_Header (bc_latest bc))))))"
proof (intro exI [of _ "normalizeActivityLimit limit"] conjI normalizeActivityLimit_range)
  show "RecentActivity_query bc limit =
        \<lparr>ra_LatestBlock = hdr_Number (blk_Header (bc_latest bc)),
         ra_Transactions = take (normalizeActivityLimit limit) (history bc block_txs (unat (hdr_Number (blk_Header (bc_latest bc))))),
         ra_Proofs = take (normalizeActivityLimit limit) (history bc block_proofs (unat (hdr_Number (blk_Header (bc_latest bc)))))\<rparr>"
    by (simp add: RecentActivity_query_def Let_def recent_loop_history)
qed (simp add: AddressActivity_query_def Let_def address_txs_history address_proofs_history
      set_filter image_image)


section \<open>Search\<close>

definition search_match :: "env \<Rightarrow> string \<Rightarrow> string \<Rightarrow> string \<Rightarrow> SearchRecord \<Rightarrow> bool" where
  "search_match E term flt url d \<longleftrightarrow> (flt = [] \<or> Contains (ToLower E url) flt) \<and> fm_get (doc_TermCounts d) 0 term \<noteq> 0"

definition search_hit :: "string \<Rightarrow> SearchRecord \<Rightarrow> SearchHit" where
  "search_hit term d =
     \<lparr>hit_Document = d, hit_TermCount = fm_get (doc_TermCounts d) 0 term, hit_Score = fm_get (doc_TermCounts d) 0 term\<rparr>"

lemma search_loop_filter:
  "search_loop E term flt xs = map (\<lambda>(u, d). search_hit term d) (filter (\<lambda>(u, d). search_match E term flt u d) xs)"
proof (induction xs)
  case (Cons x xs)
  obtain u d where x: "x = (u, d)" by (cases x)
  have "search_loop E term flt (x # xs) =
      (if search_match E term flt u d then search_hit term d # search_loop E term flt xs else search_loop E term flt xs)"
    by (simp add: x search_match_def search_hit_def Let_def)
  then show ?case by (simp add: Cons.IH x)
qed simp

lemma normalizeSearchResultLimit_range: "0 < normalizeSearchResultLimit limit" "normalizeSearchResultLimit limit \<le> 50"
proof -
  have "\<not> 50 < limit \<Longrightarrow> unat limit \<le> 50" by (simp add: word_less_nat_alt)
  moreover have "limit \<noteq> 0 \<Longrightarrow> 0 < unat limit" by (simp add: unat_gt_0)
  ultimately show "0 < normalizeSearchResultLimit limit" "normalizeSearchResultLimit limit \<le> 50"
    by (auto simp: normalizeSearchResultLimit_def)
qed

lemma fm_sum_entries: "fm_sum w m = (\<Sum>(k, v)\<leftarrow>fm_entries m. w v)"
proof -
  have "fm_sum w m = (\<Sum>k\<leftarrow>sorted_list_of_fset (fmdom m). w (the (fmlookup m k)))"
    unfolding fm_sum_def
    by (subst sum_list_distinct_conv_sum_set) (simp_all add: sorted_list_of_fset.rep_eq fmdom'_alt_def)
  then show ?thesis by (simp add: fm_entries_def comp_def)
qed

lemma hits_count_all:
  "(\<Sum>h\<leftarrow>search_loop E term [] (fm_entries index). uint (hit_TermCount h)) = fm_sum (mentions_in term) index"
proof -
  have "(\<Sum>h\<leftarrow>search_loop E term [] xs. uint (hit_TermCount h)) = (\<Sum>(u, d)\<leftarrow>xs. mentions_in term d)" for xs
    by (induction xs) (auto simp: mentions_in_def Let_def)
  then show ?thesis by (simp add: fm_sum_entries)
qed

lemma sum_list_sort_key: "sum_list (map f (sort_key k xs)) = (sum_list (map f xs) :: int)"
proof -
  have "mset (map f (sort_key k xs)) = mset (map f xs)" by simp
  then show ?thesis by (metis sum_mset_sum_list)
qed

text \<open>The order of the answer: by score, then by date, both descending, then by URL.\<close>

definition ranks_before :: "SearchHit \<Rightarrow> SearchHit \<Rightarrow> bool" where
  "ranks_before h h' \<longleftrightarrow>
     hit_Score h' < hit_Score h
     \<or> hit_Score h' = hit_Score h
       \<and> (doc_IndexedAt (hit_Document h') < doc_IndexedAt (hit_Document h)
          \<or> doc_IndexedAt (hit_Document h') = doc_IndexedAt (hit_Document h)
            \<and> doc_URL (hit_Document h) \<le> doc_URL (hit_Document h'))"

lemma sorted_hits: "sorted (map hit_rank hits) \<Longrightarrow> sorted_wrt ranks_before hits"
  unfolding sorted_map
  by (erule sorted_wrt_mono_rel [rotated]) (auto simp: hit_rank_def ranks_before_def less_eq_prod_def word_less_def word_uint_eq_iff)


definition one_doc :: SearchRecord where
  "one_doc = \<lparr>doc_TaskID = [], doc_URL = ''u'', doc_Query = [], doc_Title = [], doc_Snippet = [], doc_Body = [], doc_BodyBytes = 0,
     doc_ContentHash = [], doc_SimHash = 0, doc_IndexedAt = 0, doc_IndexedBy = [], doc_ProofHash = [], doc_BlockHash = [],
     doc_TermCounts = fmupd ''t'' 3 fmempty\<rparr>"

definition one_doc_chain :: Blockchain where
  "one_doc_chain = \<lparr>bc_db = empty_store,
     bc_state = NewStateSnapshot\<lparr>SearchIndex := fmupd ''u'' one_doc fmempty, MentionCounts := fmupd ''t'' 3 fmempty\<rparr>,
     bc_latest = zero_Block, bc_latestMeta = zero_BlockMeta, bc_network = toy_network\<rparr>"


section \<open>Signing\<close>

text \<open>
  C14: A transaction signed with the key of its sender is accepted: if the private key's signatures verify under its
  public key and the sender is the address of that key, then \<open>ValidateSignature\<close> accepts what \<open>Sign\<close> returns, and
  refuses it again once the recipient, the value, the nonce or the data are changed and the hash no longer fits.
\<close>

theorem signed_is_valid:
  assumes "\<And>m. ed25519_verify E pub m (sign m) \<and> length (sign m) = ed25519_SignatureSize"
    and "NewAddressFromPubKey E pub = Inr a" and "tx_From tx = Address_String E a"
    and "sha256_len E" and "length pub = ed25519_PublicKeySize"
    and "tx_Type tx = TxTypeTransfer \<or> tx_Type tx = TxTypeSearchTask \<or> tx_Type tx = TxTypeContractDeploy"
  shows "ValidateSignature E (Sign E pub sign tx) = Inr ()
    \<and> (\<forall>tx'. tx_Hash tx' = tx_Hash (Sign E pub sign tx) \<longrightarrow>
         computeTransactionHash E tx' \<noteq> computeTransactionHash E (Sign E pub sign tx) \<longrightarrow> ValidateSignature E tx' \<noteq> Inr ())"
proof -
  let ?s = "Sign E pub sign tx"
  have payload: "signing_fields (t\<lparr>tx_Signature := x\<rparr>) = signing_fields t" "signing_fields (t\<lparr>tx_Hash := y\<rparr>) = signing_fields t" for t x y
    by (simp_all add: signing_fields_def)
  have hash: "tx_Hash ?s = computeTransactionHash E ?s"
    by (simp add: Sign_def Let_def computeTransactionHash_def payload)
  have sig: "tx_PublicKey ?s = pub" "ed25519_verify E pub (signingPayload E ?s) (tx_Signature ?s)"
    "length (tx_Signature ?s) = ed25519_SignatureSize" "tx_From ?s = Address_String E a" "tx_Type ?s = tx_Type tx"
    using assms(1,3) by (simp_all add: Sign_def Let_def signingPayload_def payload)
  have "validateNonSystemAddress E (Address_String E a) = Inr ()"
  proof -
    have wf: "wf_address a" using assms(2) by (rule NewAddressFromPubKey_wf)
    have "Address_String E a \<noteq> []" using wf_not_zero [OF wf] by (simp add: Address_String_def UFIPrefix_def)
    then show ?thesis
      using Parse_String [OF wf assms(4)] String_Parse(1) [OF Parse_String [OF wf assms(4)]]
      by (simp add: validateNonSystemAddress_def validateNonSystemAddressWithArchitect_def Let_def)
  qed
  then have "ValidateSignature E ?s = Inr ()"
    using assms(2,5,6) sig hash by (auto simp: ValidateSignature_def)
  moreover have "ValidateSignature E tx' \<noteq> Inr ()" if "tx_Hash tx' \<noteq> computeTransactionHash E tx'" for tx'
    using that by (auto simp: ValidateSignature_def split: sum.splits)
  ultimately show ?thesis using hash by auto
qed

definition toy_key :: bytes where
  "toy_key = replicate 32 CHR ''k''"

definition toy_transfer :: Transaction where
  "toy_transfer =
     \<lparr>tx_Hash = [], tx_Type = TxTypeTransfer, tx_From = Address_String toy_env \<lparr>version = CurrentAddressVersion, hash160 = replicate 20 CHR ''r''\<rparr>,
      tx_To = ''t'', tx_Value = ''1'', tx_Nonce = 0, tx_Timestamp = 0, tx_Data = [], tx_PublicKey = [], tx_Signature = []\<rparr>"

theorem signed_is_valid_witness:
  "ValidateSignature toy_env (Sign toy_env toy_key (\<lambda>m. replicate 64 CHR ''s'') toy_transfer) = Inr ()
   \<and> ValidateSignature toy_env (toy_transfer\<lparr>tx_Hash := ''h''\<rparr>) \<noteq> Inr ()"
proof -
  have 1: "ed25519_verify toy_env toy_key m ((\<lambda>m. replicate 64 CHR ''s'') m) \<and> length ((\<lambda>m. replicate 64 CHR ''s'') m) = ed25519_SignatureSize" for m :: bytes
    by (simp add: toy_env_def ed25519_SignatureSize_def)
  have 2: "NewAddressFromPubKey toy_env toy_key = Inr \<lparr>version = CurrentAddressVersion, hash160 = replicate 20 CHR ''r''\<rparr>"
    by (simp add: NewAddressFromPubKey_def NewAddress_def toy_env_def toy_key_def address_sizes CurrentAddressVersion_def byte_def)
  have 3: "tx_From toy_transfer = Address_String toy_env \<lparr>version = CurrentAddressVersion, hash160 = replicate 20 CHR ''r''\<rparr>"
    by (simp add: toy_transfer_def)
  have 4: "length toy_key = ed25519_PublicKeySize" by (simp add: toy_key_def ed25519_PublicKeySize_def)
  have 5: "tx_Type toy_transfer = TxTypeTransfer \<or> tx_Type toy_transfer = TxTypeSearchTask \<or> tx_Type toy_transfer = TxTypeContractDeploy"
    by (simp add: toy_transfer_def)
  have "ValidateSignature toy_env (toy_transfer\<lparr>tx_Hash := ''h''\<rparr>) \<noteq> Inr ()"
    by (cases "validateNonSystemAddress toy_env (tx_From toy_transfer)")
      (simp_all add: ValidateSignature_def toy_transfer_def ed25519_PublicKeySize_def)
  with signed_is_valid [OF 1 2 3 toy_env_sha256 4 5] show ?thesis by blast
qed

section \<open>Reverse resolution\<close>

text \<open>
  The name found for an address is one the address owns, and some name is found when it owns any; which one depends on
  the order of the iteration as soon as it owns two.
\<close>

lemma ReverseResolve_owned:
  "case ReverseResolve order address of
     None \<Rightarrow> TrimSpace address = [] \<or> TrimSpace address \<notin> name_Owner ` set order
   | Some r \<Rightarrow> r \<in> set order \<and> name_Owner r = TrimSpace address"
  by (auto simp: ReverseResolve_def find_Some_iff find_None_iff Let_def split: option.splits dest: nth_mem)

lemma ReverseResolve_ambiguous:
  assumes "TrimSpace address \<noteq> []" "name_Owner r = TrimSpace address" "name_Owner s = TrimSpace address"
  shows "ReverseResolve [r, s] address = Some r" "ReverseResolve [s, r] address = Some s"
  using assms by (simp_all add: ReverseResolve_def)

end
