(* ===== verification/Readiness.thy ===== *)
theory Readiness
  imports Storage
begin

text \<open>
  The readiness report of a node (\<open>src/core/readiness.go\<close>): six required checks and three warnings. The data
  directory of the node and the directory for temporary files are arguments; paths are Unix paths.
\<close>

section \<open>Paths\<close>

fun split_char :: "char \<Rightarrow> string \<Rightarrow> string list" where
  "split_char c [] = [[]]"
| "split_char c (x # xs) =
     (if x = c then [] # split_char c xs
      else (case split_char c xs of [] \<Rightarrow> [[x]] | w # ws \<Rightarrow> (x # w) # ws))"

text \<open>
  \<open>filepath.Clean\<close>: empty elements and \<open>.\<close> go away, \<open>..\<close> removes the element before it, at the root it
  removes nothing, and before a relative path it stays. \<open>out\<close> is reversed.
\<close>

fun clean_elements :: "bool \<Rightarrow> string list \<Rightarrow> string list \<Rightarrow> string list" where
  "clean_elements rooted out [] = rev out"
| "clean_elements rooted out (e # es) =
     (if e = [] \<or> e = ''.'' then clean_elements rooted out es
      else if e = ''..'' then
        (case out of
           [] \<Rightarrow> clean_elements rooted (if rooted then [] else [e]) es
         | o1 # rest \<Rightarrow> if o1 = ''..'' then clean_elements rooted (e # out) es else clean_elements rooted rest es)
      else clean_elements rooted (e # out) es)"

definition filepath_Clean :: "string \<Rightarrow> string" where
  "filepath_Clean path =
     (let rooted = prefix ''/'' path;
          body = Join (clean_elements rooted [] (split_char CHR ''/'' path)) ''/''
      in if rooted then CHR ''/'' # body else if body = [] then ''.'' else body)"

definition isEphemeralDataDir :: "string \<Rightarrow> string \<Rightarrow> bool" where
  "isEphemeralDataDir tempDir path =
     (let cleaned = filepath_Clean (TrimSpace path); tempRoot = filepath_Clean tempDir in
      if cleaned = ''.'' \<or> cleaned = [] then True
      else if cleaned = tempRoot \<or> prefix (tempRoot @ ''/'') cleaned then True
      else suffix ''/data/local'' cleaned)"

section \<open>Report\<close>

record ReadinessContext =
  rc_ConnectedPeers :: int
  rc_LowReputationPeers :: int
  rc_BannedPeers :: int
  rc_MiningEnabled :: bool

record ReadinessCheck =
  rk_Name :: string
  rk_Severity :: string
  rk_OK :: bool
  rk_Detail :: string

record ReadinessReport =
  rr_Ready :: bool
  rr_Network :: NetworkConfig
  rr_LatestBlock :: u64
  rr_DataDir :: string
  rr_ConnectedPeers :: int
  rr_Checks :: "ReadinessCheck list"

definition readinessAddressOK :: "env \<Rightarrow> string \<Rightarrow> bool" where
  "readinessAddressOK E address =
     (let cleaned = TrimSpace address in
      if cleaned = [] \<or> Contains cleaned ''REPLACE_ME'' then False
      else (case ParseAddress E cleaned of Inl _ \<Rightarrow> False | Inr _ \<Rightarrow> True))"

fun contracts_loop :: "bool \<Rightarrow> bool \<Rightarrow> ContractRecord list \<Rightarrow> bool" where
  "contracts_loop foundSearch foundUNS [] = (foundSearch \<and> foundUNS)"
| "contracts_loop foundSearch foundUNS (c # cs) =
     (if \<not> con_GenesisDeployed c then False
      else if con_Address c = ''0x101'' then contracts_loop True foundUNS cs
      else if con_Address c = ''0x102'' then contracts_loop foundSearch True cs
      else contracts_loop foundSearch foundUNS cs)"

definition readinessContractsOK :: "ContractRecord list \<Rightarrow> bool" where
  "readinessContractsOK contracts = (if length contracts < 2 then False else contracts_loop False False contracts)"

definition readiness_checks :: "env \<Rightarrow> string \<Rightarrow> NetworkConfig \<Rightarrow> string \<Rightarrow> ReadinessContext \<Rightarrow> ReadinessCheck list" where
  "readiness_checks E tempDir net dataDir ctx =
     [\<lparr>rk_Name = ''network-name'', rk_Severity = ''required'',
       rk_OK = (TrimSpace (net_Name net) \<noteq> [] \<and> net_Name net \<noteq> ''unified-local''),
       rk_Detail = ''shared network should use an explicit non-local network name''\<rparr>,
      \<lparr>rk_Name = ''chain-id'', rk_Severity = ''required'', rk_OK = (net_ChainID net \<noteq> 0),
       rk_Detail = ''chain ID must be configured and persisted''\<rparr>,
      \<lparr>rk_Name = ''genesis-address'', rk_Severity = ''required'', rk_OK = readinessAddressOK E (net_GenesisAddress net),
       rk_Detail = ''genesis address must be a valid non-placeholder UFI address''\<rparr>,
      \<lparr>rk_Name = ''architect-address'', rk_Severity = ''required'', rk_OK = readinessAddressOK E (net_ArchitectAddress net),
       rk_Detail = ''architect address must be a valid non-placeholder UFI address''\<rparr>,
      \<lparr>rk_Name = ''persistent-datadir'', rk_Severity = ''required'', rk_OK = (\<not> isEphemeralDataDir tempDir dataDir),
       rk_Detail = ''node should not run from a temporary or local-dev datadir''\<rparr>,
      \<lparr>rk_Name = ''protocol-contracts'', rk_Severity = ''required'', rk_OK = readinessContractsOK (net_SystemContracts net),
       rk_Detail = ''protocol contracts must be published in the shared network config''\<rparr>,
      \<lparr>rk_Name = ''peer-connectivity'', rk_Severity = ''warning'', rk_OK = (net_Bootnodes net = [] \<or> 0 < rc_ConnectedPeers ctx),
       rk_Detail = ''node should have live peer connectivity when bootnodes are configured''\<rparr>,
      \<lparr>rk_Name = ''peer-reputation'', rk_Severity = ''warning'', rk_OK = (rc_BannedPeers ctx = 0 \<and> rc_LowReputationPeers ctx = 0),
       rk_Detail = ''no connected peers should currently be degraded or banned''\<rparr>,
      \<lparr>rk_Name = ''mining-enabled'', rk_Severity = ''warning'', rk_OK = rc_MiningEnabled ctx,
       rk_Detail = ''at least one production seed node should have mining enabled''\<rparr>]"

fun ready_loop :: "ReadinessCheck list \<Rightarrow> bool" where
  "ready_loop [] = True"
| "ready_loop (c # cs) = (if rk_Severity c = ''required'' \<and> \<not> rk_OK c then False else ready_loop cs)"

definition ReadinessReport_of :: "env \<Rightarrow> string \<Rightarrow> string \<Rightarrow> Blockchain \<Rightarrow> ReadinessContext \<Rightarrow> ReadinessReport" where
  "ReadinessReport_of E tempDir dataDir bc ctx =
     (let checks = readiness_checks E tempDir (bc_network bc) dataDir ctx
      in \<lparr>rr_Ready = ready_loop checks, rr_Network = bc_network bc, rr_LatestBlock = hdr_Number (blk_Header (bc_latest bc)),
          rr_DataDir = dataDir, rr_ConnectedPeers = rc_ConnectedPeers ctx, rr_Checks = checks\<rparr>)"

section \<open>What readiness means\<close>

lemma ready_loop_iff: "ready_loop cs \<longleftrightarrow> (\<forall>c \<in> set cs. rk_Severity c = ''required'' \<longrightarrow> rk_OK c)"
  by (induction cs) auto

lemma contracts_loop_iff:
  "contracts_loop s u cs \<longleftrightarrow> (\<forall>c \<in> set cs. con_GenesisDeployed c)
     \<and> (s \<or> ''0x101'' \<in> con_Address ` set cs) \<and> (u \<or> ''0x102'' \<in> con_Address ` set cs)"
  by (induction cs arbitrary: s u) auto

lemma readinessContractsOK_iff:
  "readinessContractsOK cs \<longleftrightarrow> (\<forall>c \<in> set cs. con_GenesisDeployed c)
     \<and> ''0x101'' \<in> con_Address ` set cs \<and> ''0x102'' \<in> con_Address ` set cs"
proof -
  have "2 \<le> length cs" if "a \<in> set cs" "b \<in> set cs" "con_Address a = ''0x101''" "con_Address b = ''0x102''" for a b
  proof -
    have "a \<noteq> b" using that by auto
    then have "card {a, b} \<le> card (set cs)" using that by (intro card_mono) auto
    also have "\<dots> \<le> length cs" by (rule card_length)
    finally show ?thesis using \<open>a \<noteq> b\<close> by simp
  qed
  then show ?thesis unfolding readinessContractsOK_def contracts_loop_iff by force
qed

text \<open>
  A node is ready exactly when the six required checks hold (a network name of its own, a chain identifier,
  parsable genesis and architect addresses that are not placeholders, a persistent data directory, both protocol contracts
  and only contracts deployed at genesis); peers, reputation and mining never decide it.
\<close>

theorem ready_iff_required:
  "rr_Ready (ReadinessReport_of E tempDir dataDir bc ctx) \<longleftrightarrow>
     TrimSpace (net_Name (bc_network bc)) \<noteq> [] \<and> net_Name (bc_network bc) \<noteq> ''unified-local'' \<and> net_ChainID (bc_network bc) \<noteq> 0
     \<and> readinessAddressOK E (net_GenesisAddress (bc_network bc)) \<and> readinessAddressOK E (net_ArchitectAddress (bc_network bc))
     \<and> \<not> isEphemeralDataDir tempDir dataDir
     \<and> (\<forall>c \<in> set (net_SystemContracts (bc_network bc)). con_GenesisDeployed c)
     \<and> ''0x101'' \<in> con_Address ` set (net_SystemContracts (bc_network bc))
     \<and> ''0x102'' \<in> con_Address ` set (net_SystemContracts (bc_network bc))"
  by (simp add: ReadinessReport_of_def Let_def ready_loop_iff readiness_checks_def readinessContractsOK_iff)

text \<open>
  The check for a local data directory looks for \<open>/data/local\<close> at the end of the cleaned path, and cleaning removes a
  leading \<open>./\<close>: the directory the Makefile passes by default is taken for a persistent one.
\<close>

lemma local_datadir_unnoticed: "\<not> isEphemeralDataDir ''/tmp'' ''./data/local''" "isEphemeralDataDir ''/tmp'' ''/srv/data/local''"
proof -
  have "TrimSpace ''./data/local'' = ''./data/local''" "TrimSpace ''/srv/data/local'' = ''/srv/data/local''"
    by (rule TrimSpace_visible; simp add: visible_def byte_def)+
  moreover have "filepath_Clean ''./data/local'' = ''data/local''" "filepath_Clean ''/srv/data/local'' = ''/srv/data/local''"
    "filepath_Clean ''/tmp'' = ''/tmp''" by code_simp+
  ultimately show "\<not> isEphemeralDataDir ''/tmp'' ''./data/local''" "isEphemeralDataDir ''/tmp'' ''/srv/data/local''"
    by (simp_all add: isEphemeralDataDir_def suffix_def)
qed

end
