(* ===== verification/Web_Api.thy ===== *)
theory Web_Api
  imports Readiness
begin

text \<open>
  The web side of a node: the cross-origin wrapper (\<open>src/api/cors.go\<close>) and the WebSocket server that pushes
  snapshots of topics (\<open>src/api/ws_server.go\<close>). A wrapped request is given by its method and the headers that are read; a
  WebSocket session by what the providers return at each tick of the poll timer. The transport (net/http, the
  WebSocket library, the goroutine that writes) is left out: a session that ends early has sent a prefix.
\<close>

section \<open>Origins\<close>

definition defaultCORSMethods :: string where
  "defaultCORSMethods = ''GET, POST, OPTIONS''"

definition defaultCORSHeaders :: string where
  "defaultCORSHeaders = ''Content-Type, Authorization, Accept''"

text \<open>The loop of \<open>normalizeOrigins\<close>; a star replaces everything.\<close>

fun origins_loop :: "string list \<Rightarrow> string list \<Rightarrow> string list" where
  "origins_loop normalized [] = normalized"
| "origins_loop normalized (origin # rest) =
     (let cleaned = TrimSpace origin in
      if cleaned = [] then origins_loop normalized rest
      else if cleaned = ''*'' then [''*'']
      else if cleaned \<in> set normalized then origins_loop normalized rest
      else origins_loop (normalized @ [cleaned]) rest)"

definition normalizeOrigins :: "string list \<Rightarrow> string list" where
  "normalizeOrigins origins = origins_loop [] origins"

fun origin_loop :: "string \<Rightarrow> string list \<Rightarrow> string option" where
  "origin_loop origin [] = None"
| "origin_loop origin (candidate # rest) =
     (if candidate = ''*'' then Some ''*'' else if origin = candidate then Some origin else origin_loop origin rest)"

definition matchOrigin :: "string \<Rightarrow> string list \<Rightarrow> string option" where
  "matchOrigin origin allowed = (if allowed = [] \<or> TrimSpace origin = [] then None else origin_loop origin allowed)"

definition requestedHeaders :: "string \<Rightarrow> string" where
  "requestedHeaders requested = (if TrimSpace requested \<noteq> [] then TrimSpace requested else defaultCORSHeaders)"

text \<open>Headers added to the answer, and a status that ends the request (\<open>None\<close>: the wrapped handler answers).\<close>

definition WrapWithCORS :: "string list \<Rightarrow> string \<Rightarrow> string \<Rightarrow> string \<Rightarrow> (string \<times> string) list \<times> nat option" where
  "WrapWithCORS origins method originHeader requested =
     (let allowed = normalizeOrigins origins in
      if allowed = [] then ([], None)
      else
        (let origin = TrimSpace originHeader;
             allowOrigin = matchOrigin origin allowed;
             headers = (case allowOrigin of
                None \<Rightarrow> []
              | Some a \<Rightarrow> [(''Access-Control-Allow-Origin'', a), (''Access-Control-Allow-Methods'', defaultCORSMethods),
                  (''Access-Control-Allow-Headers'', requestedHeaders requested), (''Access-Control-Max-Age'', ''600''),
                  (''Vary'', ''Origin''), (''Vary'', ''Access-Control-Request-Method''),
                  (''Vary'', ''Access-Control-Request-Headers'')])
         in if method = ''OPTIONS'' then (headers, Some (if origin \<noteq> [] \<and> allowOrigin = None then 403 else 204))
            else (headers, None)))"

lemma origin_loop_iff:
  "origin_loop origin allowed = None \<longleftrightarrow> ''*'' \<notin> set allowed \<and> origin \<notin> set allowed"
  "origin_loop origin allowed = Some a \<Longrightarrow> a = ''*'' \<and> ''*'' \<in> set allowed \<or> a = origin \<and> origin \<in> set allowed"
  by (induction allowed) (auto split: if_splits)

lemma origins_loop_set: "set (origins_loop acc origins) \<subseteq> set acc \<union> TrimSpace ` set origins"
proof (induction origins arbitrary: acc)
  case (Cons origin rest)
  show ?case using Cons.IH [of acc] Cons.IH [of "acc @ [TrimSpace origin]"] by (simp add: Let_def) blast
qed simp

text \<open>A browser is told it may read the answer only when its origin, or every origin, is configured.\<close>

theorem cors_only_configured:
  assumes "WrapWithCORS origins method originHeader requested = (headers, status)"
  shows "(''Access-Control-Allow-Origin'', a) \<in> set headers \<Longrightarrow>
      TrimSpace originHeader \<noteq> [] \<and> (a = ''*'' \<and> ''*'' \<in> TrimSpace ` set origins
        \<or> a = TrimSpace originHeader \<and> a \<in> TrimSpace ` set origins)"
    and "status = Some 403 \<Longrightarrow> headers = [] \<and> method = ''OPTIONS'' \<and> TrimSpace originHeader \<notin> set (normalizeOrigins origins)"
proof -
  let ?allowed = "normalizeOrigins origins" and ?o = "TrimSpace originHeader"
  have sub: "set ?allowed \<subseteq> TrimSpace ` set origins" using origins_loop_set [of "[]" origins] by (simp add: normalizeOrigins_def)
  show "?o \<noteq> [] \<and> (a = ''*'' \<and> ''*'' \<in> TrimSpace ` set origins \<or> a = ?o \<and> a \<in> TrimSpace ` set origins)"
    if "(''Access-Control-Allow-Origin'', a) \<in> set headers"
  proof -
    have "matchOrigin ?o ?allowed = Some a"
      using assms that by (auto simp: WrapWithCORS_def Let_def split: if_splits option.splits)
    then have "?o \<noteq> []" "origin_loop ?o ?allowed = Some a" by (simp_all add: matchOrigin_def split: if_splits)
    with origin_loop_iff(2) [OF this(2)] sub show ?thesis by auto
  qed
  show "headers = [] \<and> method = ''OPTIONS'' \<and> ?o \<notin> set ?allowed" if "status = Some 403"
  proof -
    have "matchOrigin ?o ?allowed = None" "headers = []" "method = ''OPTIONS''" "?o \<noteq> []" "?allowed \<noteq> []"
      using assms that by (auto simp: WrapWithCORS_def Let_def split: if_splits option.splits)
    then show ?thesis by (simp add: matchOrigin_def origin_loop_iff(1))
  qed
qed

section \<open>WebSocket sessions\<close>

definition DefaultWSPollInterval :: int where
  "DefaultWSPollInterval = 2 * 10 ^ 9"

definition DefaultWSResultLimit :: int where
  "DefaultWSResultLimit = 8"

definition MaxWSResultLimit :: int where
  "MaxWSResultLimit = 64"

definition defaultWSTopics :: "string list" where
  "defaultWSTopics = [''health'', ''chain'', ''blocks'', ''mempool'', ''peers'', ''governance'']"

text \<open>\<open>strconv.Atoi\<close>: a signed decimal number that fits an \<open>int\<close>.\<close>

definition Atoi :: "string \<Rightarrow> int option" where
  "Atoi s = (case SetString s of None \<Rightarrow> None | Some v \<Rightarrow> if - (2 ^ 63) \<le> v \<and> v < 2 ^ 63 then Some v else None)"

definition normalizeWSLimit :: "string \<Rightarrow> int" where
  "normalizeWSLimit raw =
     (let cleaned = TrimSpace raw in
      if cleaned = [] then DefaultWSResultLimit
      else
        (case Atoi cleaned of
           None \<Rightarrow> DefaultWSResultLimit
         | Some parsed \<Rightarrow>
             if parsed \<le> 0 then DefaultWSResultLimit
             else if MaxWSResultLimit < parsed then MaxWSResultLimit
             else parsed))"

definition isWSTopic :: "string \<Rightarrow> bool" where
  "isWSTopic topic \<longleftrightarrow> topic \<in> set defaultWSTopics"

fun topics_loop :: "env \<Rightarrow> string list \<Rightarrow> string list \<Rightarrow> string list" where
  "topics_loop E out [] = (if out = [] then defaultWSTopics else out)"
| "topics_loop E out (part # parts) =
     (let cleaned = TrimSpace (ToLower E part) in
      if cleaned = [] then topics_loop E out parts
      else if cleaned = ''*'' then defaultWSTopics
      else if \<not> isWSTopic cleaned then topics_loop E out parts
      else if cleaned \<in> set out then topics_loop E out parts
      else topics_loop E (out @ [cleaned]) parts)"

definition normalizeWSTopics :: "env \<Rightarrow> string \<Rightarrow> string list" where
  "normalizeWSTopics E raw =
     (if TrimSpace raw = [] then defaultWSTopics else topics_loop E [] (split_char CHR '','' raw))"

definition checkOrigin :: "string list \<Rightarrow> string \<Rightarrow> bool" where
  "checkOrigin origins originHeader =
     (let origin = TrimSpace originHeader in
      if origin = [] \<or> origins = [] then True else matchOrigin origin origins \<noteq> None)"

text \<open>
  \<open>providers\<close> gives, for a topic, the function the server was configured with; \<open>marshal\<close> is \<open>json.Marshal\<close>.
  An envelope is its topic (none for the greeting) and its data.
\<close>

datatype 'v ws_data = Hello "string list" int | Snapshot_of string 'v

definition ws_snapshot :: "(string \<Rightarrow> (int \<Rightarrow> 'v) option) \<Rightarrow> string \<Rightarrow> int \<Rightarrow> 'v option" where
  "ws_snapshot providers topic limit =
     (if isWSTopic topic then (case providers topic of None \<Rightarrow> None | Some f \<Rightarrow> Some (f limit)) else None)"

definition pushTopicSnapshot ::
    "('v \<Rightarrow> string option) \<Rightarrow> (string \<Rightarrow> (int \<Rightarrow> 'v) option) \<Rightarrow> (string, string) fmap \<Rightarrow> string \<Rightarrow> int \<Rightarrow> bool
     \<Rightarrow> (string, string) fmap \<times> 'v ws_data list" where
  "pushTopicSnapshot marshal providers lastSent topic limit force =
     (case ws_snapshot providers topic limit of
        None \<Rightarrow> (lastSent, [])
      | Some payload \<Rightarrow>
          (case marshal payload of
             None \<Rightarrow> (lastSent, [])
           | Some current \<Rightarrow>
               if \<not> force \<and> fm_get lastSent [] topic = current then (lastSent, [])
               else (fmupd topic current lastSent, [Snapshot_of topic payload])))"

fun push_topics ::
    "('v \<Rightarrow> string option) \<Rightarrow> (string \<Rightarrow> (int \<Rightarrow> 'v) option) \<Rightarrow> int \<Rightarrow> bool \<Rightarrow> string list \<Rightarrow> (string, string) fmap
     \<Rightarrow> (string, string) fmap \<times> 'v ws_data list" where
  "push_topics marshal providers limit force [] lastSent = (lastSent, [])"
| "push_topics marshal providers limit force (topic # topics) lastSent =
     (let (l1, out1) = pushTopicSnapshot marshal providers lastSent topic limit force;
          (l2, out2) = push_topics marshal providers limit force topics l1
      in (l2, out1 @ out2))"

fun ws_ticks ::
    "('v \<Rightarrow> string option) \<Rightarrow> int \<Rightarrow> string list \<Rightarrow> (string \<Rightarrow> (int \<Rightarrow> 'v) option) list \<Rightarrow> (string, string) fmap
     \<Rightarrow> 'v ws_data list" where
  "ws_ticks marshal limit topics [] lastSent = []"
| "ws_ticks marshal limit topics (providers # rest) lastSent =
     (let (l1, out) = push_topics marshal providers limit False topics lastSent
      in out @ ws_ticks marshal limit topics rest l1)"

text \<open>A session of \<open>ServeHTTP\<close>: the greeting, every topic once, then the changes at each tick.\<close>

definition ws_session ::
    "env \<Rightarrow> ('v \<Rightarrow> string option) \<Rightarrow> string \<Rightarrow> string \<Rightarrow> (string \<Rightarrow> (int \<Rightarrow> 'v) option)
     \<Rightarrow> (string \<Rightarrow> (int \<Rightarrow> 'v) option) list \<Rightarrow> 'v ws_data list" where
  "ws_session E marshal rawTopics rawLimit first ticks =
     (let topics = normalizeWSTopics E rawTopics; limit = normalizeWSLimit rawLimit;
          (lastSent, out) = push_topics marshal first limit True topics fmempty
      in Hello topics limit # out @ ws_ticks marshal limit topics ticks lastSent)"

section \<open>What a session delivers\<close>

lemma normalizeWSLimit_range: "1 \<le> normalizeWSLimit raw \<and> normalizeWSLimit raw \<le> 64"
  by (auto simp: normalizeWSLimit_def DefaultWSResultLimit_def MaxWSResultLimit_def Let_def split: option.splits)

lemma topics_loop_ok:
  "distinct out \<Longrightarrow> set out \<subseteq> set defaultWSTopics \<Longrightarrow>
   distinct (topics_loop E out parts) \<and> set (topics_loop E out parts) \<subseteq> set defaultWSTopics \<and> topics_loop E out parts \<noteq> []"
proof (induction parts arbitrary: out)
  case (Cons part parts)
  let ?c = "TrimSpace (ToLower E part)"
  show ?case
  proof (cases "?c \<noteq> [] \<and> ?c \<noteq> ''*'' \<and> isWSTopic ?c \<and> ?c \<notin> set out")
    case True
    then have "distinct (out @ [?c])" "set (out @ [?c]) \<subseteq> set defaultWSTopics" using Cons.prems by (auto simp: isWSTopic_def)
    from Cons.IH [OF this] True show ?thesis by (simp add: Let_def)
  next
    case False
    then show ?thesis using Cons.IH [OF Cons.prems] by (auto simp: Let_def) (simp_all add: defaultWSTopics_def)
  qed
qed (simp add: defaultWSTopics_def)

lemma normalizeWSTopics_ok:
  "distinct (normalizeWSTopics E raw)" "set (normalizeWSTopics E raw) \<subseteq> set defaultWSTopics" "normalizeWSTopics E raw \<noteq> []"
  using topics_loop_ok [of "[]" E] by (auto simp: normalizeWSTopics_def) (simp_all add: defaultWSTopics_def)

text \<open>The encoded snapshots of one topic, among the envelopes sent and as the providers had them.\<close>

fun sent_of :: "('v \<Rightarrow> string option) \<Rightarrow> string \<Rightarrow> 'v ws_data list \<Rightarrow> string list" where
  "sent_of marshal topic [] = []"
| "sent_of marshal topic (Hello _ _ # xs) = sent_of marshal topic xs"
| "sent_of marshal topic (Snapshot_of t v # xs) =
     (if t = topic then (case marshal v of None \<Rightarrow> [] | Some s \<Rightarrow> [s]) else []) @ sent_of marshal topic xs"

definition seen_now :: "('v \<Rightarrow> string option) \<Rightarrow> int \<Rightarrow> string \<Rightarrow> (string \<Rightarrow> (int \<Rightarrow> 'v) option) \<Rightarrow> string list" where
  "seen_now marshal limit topic p =
     (case ws_snapshot p topic limit of None \<Rightarrow> [] | Some v \<Rightarrow> (case marshal v of None \<Rightarrow> [] | Some s \<Rightarrow> [s]))"

fun seen_of :: "('v \<Rightarrow> string option) \<Rightarrow> int \<Rightarrow> string \<Rightarrow> (string \<Rightarrow> (int \<Rightarrow> 'v) option) list \<Rightarrow> string list" where
  "seen_of marshal limit topic [] = []"
| "seen_of marshal limit topic (p # ps) = seen_now marshal limit topic p @ seen_of marshal limit topic ps"

lemma seen_now_cases: "seen_now m limit topic p = [] \<or> (\<exists>s. seen_now m limit topic p = [s])"
  by (auto simp: seen_now_def split: option.splits)

lemma sent_of_append: "sent_of m t (xs @ ys) = sent_of m t xs @ sent_of m t ys"
proof (induction xs)
  case (Cons x xs)
  then show ?case by (cases x) auto
qed simp

text \<open>A pass over distinct topics touches each topic once and leaves the other entries alone.\<close>

lemma push_topics_other:
  assumes "push_topics m p limit force ts l = (l', out)" "topic \<notin> set ts"
  shows "fmlookup l' topic = fmlookup l topic \<and> sent_of m topic out = []"
  using assms
proof (induction ts arbitrary: l l' out)
  case (Cons t ts)
  obtain l1 o1 where 1: "pushTopicSnapshot m p l t limit force = (l1, o1)" by (meson surj_pair)
  obtain l2 o2 where 2: "push_topics m p limit force ts l1 = (l2, o2)" by (meson surj_pair)
  have "fmlookup l1 topic = fmlookup l topic \<and> sent_of m topic o1 = []"
    using 1 Cons.prems(2) by (auto simp: pushTopicSnapshot_def split: option.splits if_splits)
  with Cons.IH [OF 2] Cons.prems 1 2 show ?case by (auto simp: sent_of_append)
qed simp

definition pushed :: "('v \<Rightarrow> string option) \<Rightarrow> (string \<Rightarrow> (int \<Rightarrow> 'v) option) \<Rightarrow> int \<Rightarrow> bool \<Rightarrow> string \<Rightarrow> string \<Rightarrow> string list" where
  "pushed m p limit force topic last_sent = filter (\<lambda>s. force \<or> s \<noteq> last_sent) (seen_now m limit topic p)"

lemma push_topics_one:
  assumes "push_topics m p limit force ts l = (l', out)" "topic \<in> set ts" "distinct ts"
  shows "sent_of m topic out = pushed m p limit force topic (fm_get l [] topic)
    \<and> fm_get l' [] topic = (case seen_now m limit topic p of [] \<Rightarrow> fm_get l [] topic | s # _ \<Rightarrow> s)"
  using assms
proof (induction ts arbitrary: l l' out)
  case (Cons t ts)
  obtain l1 o1 where 1: "pushTopicSnapshot m p l t limit force = (l1, o1)" by (meson surj_pair)
  obtain l2 o2 where 2: "push_topics m p limit force ts l1 = (l2, o2)" by (meson surj_pair)
  have out: "l' = l2" "out = o1 @ o2" using Cons.prems(1) 1 2 by auto
  show ?case
  proof (cases "t = topic")
    case True
    have "sent_of m topic o1 = pushed m p limit force topic (fm_get l [] topic)
      \<and> fm_get l1 [] topic = (case seen_now m limit topic p of [] \<Rightarrow> fm_get l [] topic | s # _ \<Rightarrow> s)"
      using 1 True
      by (auto simp: pushTopicSnapshot_def pushed_def seen_now_def split: option.splits if_splits)
    moreover have "fmlookup l2 topic = fmlookup l1 topic \<and> sent_of m topic o2 = []"
      using Cons.prems(3) True by (intro push_topics_other [OF 2]) auto
    ultimately show ?thesis by (simp add: out sent_of_append fm_get_def)
  next
    case False
    then have "fmlookup l1 topic = fmlookup l topic \<and> sent_of m topic o1 = []"
      using 1 by (auto simp: pushTopicSnapshot_def split: option.splits if_splits)
    moreover from this have "fm_get l1 [] topic = fm_get l [] topic" by (simp add: fm_get_def)
    ultimately show ?thesis using Cons.IH [OF 2] Cons.prems(2,3) False
      by (simp add: out sent_of_append split: list.split)
  qed
qed simp

lemma ws_ticks_changes:
  assumes "topic \<in> set topics" "distinct topics"
  shows "sent_of m topic (ws_ticks m limit topics ticks l) = tl (remdups_adj (fm_get l [] topic # seen_of m limit topic ticks))"
proof (induction ticks arbitrary: l)
  case (Cons p ticks)
  obtain l1 out where 1: "push_topics m p limit False topics l = (l1, out)" by (meson surj_pair)
  note one = push_topics_one [OF 1 assms]
  consider "seen_now m limit topic p = []" | s where "seen_now m limit topic p = [s]"
    using seen_now_cases [of m limit topic p] by blast
  then show ?case
  proof cases
    case 1
    with one show ?thesis using \<open>push_topics m p limit False topics l = (l1, out)\<close>
      by (simp add: sent_of_append Cons.IH pushed_def)
  next
    case (2 s)
    have "remdups_adj (s # xs) = s # tl (remdups_adj (s # xs))" for xs :: "string list"
      by (metis hd_remdups_adj list.collapse list.sel(1) list.simps(3) remdups_adj_Nil_iff)
    with one 2 show ?thesis using 1
      by (simp add: sent_of_append Cons.IH pushed_def)
  qed
qed simp

text \<open>
  A WebSocket session delivers, for every topic it serves, exactly the changes: the encoded snapshots sent for the
  topic are the values the provider had at the first push and at each tick, in order, with repetitions dropped. The
  topics are distinct known ones, never none, and the limit lies between 1 and 64.
\<close>

theorem ws_session_sends_changes:
  assumes "topic \<in> set (normalizeWSTopics E rawTopics)"
    and "(case ws_snapshot first topic (normalizeWSLimit rawLimit) of None \<Rightarrow> None | Some v \<Rightarrow> marshal v) \<noteq> None"
  shows "sent_of marshal topic (ws_session E marshal rawTopics rawLimit first ticks)
      = remdups_adj (seen_of marshal (normalizeWSLimit rawLimit) topic (first # ticks))
    \<and> distinct (normalizeWSTopics E rawTopics) \<and> topic \<in> set defaultWSTopics
    \<and> 1 \<le> normalizeWSLimit rawLimit \<and> normalizeWSLimit rawLimit \<le> 64"
proof -
  let ?limit = "normalizeWSLimit rawLimit" and ?topics = "normalizeWSTopics E rawTopics"
  note topics = normalizeWSTopics_ok [of E rawTopics]
  obtain l out where 1: "push_topics marshal first ?limit True ?topics fmempty = (l, out)" by (meson surj_pair)
  from assms(2) obtain s where s: "seen_now marshal ?limit topic first = [s]"
    by (auto simp: seen_now_def split: option.splits)
  have "remdups_adj (s # xs) = s # tl (remdups_adj (s # xs))" for xs :: "string list"
    by (metis hd_remdups_adj list.collapse list.sel(1) list.simps(3) remdups_adj_Nil_iff)
  moreover have "sent_of marshal topic out = [s]" "fm_get l [] topic = s"
    using push_topics_one [OF 1 assms(1) topics(1)] by (simp_all add: pushed_def s)
  ultimately have "sent_of marshal topic (ws_session E marshal rawTopics rawLimit first ticks)
      = remdups_adj (seen_of marshal ?limit topic (first # ticks))"
    using 1 by (simp add: ws_session_def Let_def sent_of_append ws_ticks_changes [OF assms(1) topics(1)] s)
  then show ?thesis using topics assms(1) normalizeWSLimit_range by blast
qed

text \<open>A session on one topic whose value is 1, 1, 2, 2.\<close>

definition tick_of :: "string \<Rightarrow> string \<Rightarrow> (int \<Rightarrow> string) option" where
  "tick_of v topic = (if topic = ''chain'' then Some (\<lambda>_. v) else None)"

theorem ws_session_sends_changes_witness:
  "sent_of Some ''chain'' (ws_session toy_env Some [] [] (tick_of ''1'') (map tick_of [''1'', ''2'', ''2''])) = [''1'', ''2'']"
proof -
  have t: "normalizeWSTopics toy_env [] = defaultWSTopics" by (simp add: normalizeWSTopics_def)
  have "sent_of Some ''chain'' (ws_session toy_env Some [] [] (tick_of ''1'') (map tick_of [''1'', ''2'', ''2'']))
      = remdups_adj (seen_of Some (normalizeWSLimit []) ''chain'' (tick_of ''1'' # map tick_of [''1'', ''2'', ''2'']))"
    by (rule ws_session_sends_changes [THEN conjunct1])
      (simp_all add: t defaultWSTopics_def ws_snapshot_def isWSTopic_def tick_of_def)
  then show ?thesis
    by (simp add: seen_now_def ws_snapshot_def isWSTopic_def defaultWSTopics_def tick_of_def)
qed

end
