(* ===== verification/Rpc.thy ===== *)
theory Rpc
  imports Queries Engine Web_Api Reputation
begin

text \<open>
  The JSON-RPC server of a node (\<open>src/api/rpc_server.go\<close>): decoding of parameters, dispatch to the blockchain
  and the engine, the write limit per client, and the answer to an HTTP request. A request body is given by what
  \<open>encoding/json\<close> reads from it; parameters are JSON trees, decoded into the parameter structs by the rules of that
  library. The decoding of the structs of the core package is a parameter (\<open>rpc_lib\<close>). A panic of a handler is caught
  by net/http, which aborts the answer: it is the reply \<open>Aborted\<close>.
\<close>

section \<open>JSON parameters\<close>

datatype jv =
    JvNull | JvBool bool | JvNum string | JvStr string | JvArr "jv list" | JvObj "(string \<times> jv) list"

definition err_json :: err where
  "err_json = ErrLib ''json''"

text \<open>
  \<open>json.Unmarshal\<close> into a field: null leaves it alone, a value of another kind is an error (the library goes on
  decoding, but reports the error at the end, and the callers then drop the value).
\<close>

definition into_string :: "(string \<Rightarrow> 'r \<Rightarrow> 'r) \<Rightarrow> jv \<Rightarrow> 'r \<Rightarrow> 'r res" where
  "into_string put v r = (case v of JvNull \<Rightarrow> Inr r | JvStr s \<Rightarrow> Inr (put s r) | _ \<Rightarrow> Inl err_json)"

definition into_uint :: "(u64 \<Rightarrow> 'r \<Rightarrow> 'r) \<Rightarrow> jv \<Rightarrow> 'r \<Rightarrow> 'r res" where
  "into_uint put v r =
     (case v of
        JvNull \<Rightarrow> Inr r
      | JvNum s \<Rightarrow> (case ParseUint s of Inl _ \<Rightarrow> Inl err_json | Inr n \<Rightarrow> Inr (put n r))
      | _ \<Rightarrow> Inl err_json)"

definition into_int :: "(int \<Rightarrow> 'r \<Rightarrow> 'r) \<Rightarrow> jv \<Rightarrow> 'r \<Rightarrow> 'r res" where
  "into_int put v r =
     (case v of
        JvNull \<Rightarrow> Inr r
      | JvNum s \<Rightarrow> (case Atoi s of None \<Rightarrow> Inl err_json | Some n \<Rightarrow> Inr (put n r))
      | _ \<Rightarrow> Inl err_json)"

text \<open>The field of a member: by its exact name, else by its name without regard to case; others are ignored.\<close>

definition field_for :: "env \<Rightarrow> (string \<times> 'f) list \<Rightarrow> string \<Rightarrow> 'f option" where
  "field_for E specs key =
     (case map_of specs key of
        Some f \<Rightarrow> Some f
      | None \<Rightarrow> map_option snd (find (\<lambda>(name, f). EqualFold E name key) specs))"

fun decode_members ::
    "env \<Rightarrow> (string \<times> (jv \<Rightarrow> 'r \<Rightarrow> 'r res)) list \<Rightarrow> (string \<times> jv) list \<Rightarrow> 'r \<Rightarrow> 'r res" where
  "decode_members E specs [] r = Inr r"
| "decode_members E specs ((key, v) # members) r =
     (case field_for E specs key of
        None \<Rightarrow> decode_members E specs members r
      | Some f \<Rightarrow> (case f v r of Inl e \<Rightarrow> Inl e | Inr r' \<Rightarrow> decode_members E specs members r'))"

definition decode_struct :: "env \<Rightarrow> (string \<times> (jv \<Rightarrow> 'r \<Rightarrow> 'r res)) list \<Rightarrow> jv \<Rightarrow> 'r \<Rightarrow> 'r res" where
  "decode_struct E specs v r =
     (case v of JvNull \<Rightarrow> Inr r | JvObj members \<Rightarrow> decode_members E specs members r | _ \<Rightarrow> Inl err_json)"

definition missing_params :: err where
  "missing_params = ErrText ''missing params''"

text \<open>\<open>raw\<close> is the member \<open>params\<close> of the request, if it has one; only the first element of a list is read.\<close>

definition decodeParams :: "(jv \<Rightarrow> 'r \<Rightarrow> 'r res) \<Rightarrow> 'r \<Rightarrow> jv option \<Rightarrow> 'r res" where
  "decodeParams unmarshal zero raw =
     (case raw of
        None \<Rightarrow> Inl missing_params
      | Some JvNull \<Rightarrow> Inl missing_params
      | Some (JvArr []) \<Rightarrow> Inl missing_params
      | Some (JvArr (single # _)) \<Rightarrow> unmarshal single zero
      | Some v \<Rightarrow> unmarshal v zero)"

text \<open>A parameter struct whose only field is a string.\<close>

definition one_string :: "env \<Rightarrow> string \<Rightarrow> jv \<Rightarrow> string \<Rightarrow> string res" where
  "one_string E name = decode_struct E [(name, into_string (\<lambda>s _. s))]"

definition one_limit :: "env \<Rightarrow> jv \<Rightarrow> u64 \<Rightarrow> u64 res" where
  "one_limit E = decode_struct E [(''limit'', into_uint (\<lambda>n _. n))]"

record getTransactionCountParams =
  tc_Address :: string
  tc_Block :: string

record getSearchDataParams =
  sd_URL :: string
  sd_Term :: string

record searchIndexParams =
  si_Term :: string
  si_URL :: string
  si_Limit :: u64

record callNativeParams =
  cn_To :: string
  cn_Data :: string

record getAddressActivityParams =
  ga_Address :: string
  ga_Limit :: u64

record getCrawlProofParams =
  cp_TaskTxHash :: string
  cp_TaskID :: string

record getPendingPoolParams =
  pp_Address :: string
  pp_Limit :: int

record callParams =
  cl_To :: string
  cl_From :: string
  cl_Data :: string
  cl_Value :: string
  cl_Block :: string

record submitSearchTaskParams =
  st_Transaction :: Transaction
  st_Task :: SearchTaskRequest

definition count_fields :: "env \<Rightarrow> jv \<Rightarrow> getTransactionCountParams \<Rightarrow> getTransactionCountParams res" where
  "count_fields E = decode_struct E
     [(''address'', into_string (\<lambda>s r. r\<lparr>tc_Address := s\<rparr>)), (''block'', into_string (\<lambda>s r. r\<lparr>tc_Block := s\<rparr>))]"

definition search_data_fields :: "env \<Rightarrow> jv \<Rightarrow> getSearchDataParams \<Rightarrow> getSearchDataParams res" where
  "search_data_fields E = decode_struct E
     [(''url'', into_string (\<lambda>s r. r\<lparr>sd_URL := s\<rparr>)), (''term'', into_string (\<lambda>s r. r\<lparr>sd_Term := s\<rparr>))]"

definition search_index_fields :: "env \<Rightarrow> jv \<Rightarrow> searchIndexParams \<Rightarrow> searchIndexParams res" where
  "search_index_fields E = decode_struct E
     [(''term'', into_string (\<lambda>s r. r\<lparr>si_Term := s\<rparr>)), (''url'', into_string (\<lambda>s r. r\<lparr>si_URL := s\<rparr>)),
      (''limit'', into_uint (\<lambda>n r. r\<lparr>si_Limit := n\<rparr>))]"

definition call_native_fields :: "env \<Rightarrow> jv \<Rightarrow> callNativeParams \<Rightarrow> callNativeParams res" where
  "call_native_fields E = decode_struct E
     [(''to'', into_string (\<lambda>s r. r\<lparr>cn_To := s\<rparr>)), (''data'', into_string (\<lambda>s r. r\<lparr>cn_Data := s\<rparr>))]"

definition address_activity_fields :: "env \<Rightarrow> jv \<Rightarrow> getAddressActivityParams \<Rightarrow> getAddressActivityParams res" where
  "address_activity_fields E = decode_struct E
     [(''address'', into_string (\<lambda>s r. r\<lparr>ga_Address := s\<rparr>)), (''limit'', into_uint (\<lambda>n r. r\<lparr>ga_Limit := n\<rparr>))]"

definition crawl_proof_fields :: "env \<Rightarrow> jv \<Rightarrow> getCrawlProofParams \<Rightarrow> getCrawlProofParams res" where
  "crawl_proof_fields E = decode_struct E
     [(''taskTxHash'', into_string (\<lambda>s r. r\<lparr>cp_TaskTxHash := s\<rparr>)), (''taskId'', into_string (\<lambda>s r. r\<lparr>cp_TaskID := s\<rparr>))]"

definition pending_pool_fields :: "env \<Rightarrow> jv \<Rightarrow> getPendingPoolParams \<Rightarrow> getPendingPoolParams res" where
  "pending_pool_fields E = decode_struct E
     [(''address'', into_string (\<lambda>s r. r\<lparr>pp_Address := s\<rparr>)), (''limit'', into_int (\<lambda>n r. r\<lparr>pp_Limit := n\<rparr>))]"

definition call_fields :: "env \<Rightarrow> jv \<Rightarrow> callParams \<Rightarrow> callParams res" where
  "call_fields E = decode_struct E
     [(''to'', into_string (\<lambda>s r. r\<lparr>cl_To := s\<rparr>)), (''from'', into_string (\<lambda>s r. r\<lparr>cl_From := s\<rparr>)),
      (''data'', into_string (\<lambda>s r. r\<lparr>cl_Data := s\<rparr>)), (''value'', into_string (\<lambda>s r. r\<lparr>cl_Value := s\<rparr>)),
      (''block'', into_string (\<lambda>s r. r\<lparr>cl_Block := s\<rparr>))]"

text \<open>What \<open>encoding/json\<close> makes of a transaction and of a task: into an existing value, and from bytes.\<close>

record rpc_lib =
  into_transaction :: "jv \<Rightarrow> Transaction \<Rightarrow> Transaction option"
  into_request :: "jv \<Rightarrow> SearchTaskRequest \<Rightarrow> SearchTaskRequest option"
  unmarshal_transaction :: "bytes \<Rightarrow> Transaction option"

definition from_option :: "err \<Rightarrow> 'a option \<Rightarrow> 'a res" where
  "from_option e x = (case x of None \<Rightarrow> Inl e | Some v \<Rightarrow> Inr v)"

definition submit_task_fields :: "env \<Rightarrow> rpc_lib \<Rightarrow> jv \<Rightarrow> submitSearchTaskParams \<Rightarrow> submitSearchTaskParams res" where
  "submit_task_fields E J = decode_struct E
     [(''transaction'', \<lambda>v r. from_option err_json (map_option (\<lambda>t. r\<lparr>st_Transaction := t\<rparr>) (into_transaction J v (st_Transaction r)))),
      (''task'', \<lambda>v r. from_option err_json (map_option (\<lambda>t. r\<lparr>st_Task := t\<rparr>) (into_request J v (st_Task r))))]"

definition zero_Transaction :: Transaction where
  "zero_Transaction = \<lparr>tx_Hash = [], tx_Type = [], tx_From = [], tx_To = [], tx_Value = [], tx_Nonce = 0, tx_Timestamp = 0,
     tx_Data = [], tx_PublicKey = [], tx_Signature = []\<rparr>"

definition zero_SearchTaskRequest :: SearchTaskRequest where
  "zero_SearchTaskRequest = \<lparr>req_Query = [], req_URL = [], req_BaseBounty = [], req_Difficulty = 0, req_DataVolumeBytes = 0\<rparr>"

section \<open>Positional parameters\<close>

definition decodeHexPayload :: "string \<Rightarrow> bytes res" where
  "decodeHexPayload raw =
     (let encoded = TrimSpace (TrimPrefix ''0x'' raw) in
      if encoded = [] then Inl (ErrText ''missing hex payload'') else from_option (ErrLib ''hex'') (hex_decode encoded))"

definition decodeRawTransaction :: "rpc_lib \<Rightarrow> string \<Rightarrow> Transaction res" where
  "decodeRawTransaction J raw =
     (case decodeHexPayload raw of Inl e \<Rightarrow> Inl e | Inr bs \<Rightarrow> from_option err_json (unmarshal_transaction J bs))"

text \<open>\<open>SetString(s, 16)\<close>: an optional sign and hexadecimal digits.\<close>

definition SetStringHex :: "string \<Rightarrow> int option" where
  "SetStringHex s =
     (let (sign, digits) = (case s of [] \<Rightarrow> (1, []) | c # t \<Rightarrow>
            if c = CHR ''-'' then (-1, t) else if c = CHR ''+'' then (1, t) else (1, s))
      in if digits = [] then None else map_option (\<lambda>n. sign * int n) (hex_number digits 0))"

definition parseCallValue :: "env \<Rightarrow> string \<Rightarrow> int res" where
  "parseCallValue E raw =
     (let cleaned = TrimSpace (ToLower E raw) in
      if cleaned = [] then Inr 0
      else if prefix ''0x'' cleaned
      then from_option (ErrText ''invalid call value'') (SetStringHex (TrimPrefix ''0x'' cleaned))
      else from_option (ErrText ''invalid call value'') (SetString cleaned))"

text \<open>A second list element overrides the block reference, unless it is null.\<close>

definition second_string :: "jv list \<Rightarrow> string \<Rightarrow> string res" where
  "second_string vs ref = (case vs of [] \<Rightarrow> Inr ref | v # _ \<Rightarrow> if v = JvNull then Inr ref else into_string (\<lambda>s _. s) v ref)"

definition decode_call_sources :: "env \<Rightarrow> jv option \<Rightarrow> (callParams \<times> string) res" where
  "decode_call_sources E raw =
     (let zero = \<lparr>cl_To = [], cl_From = [], cl_Data = [], cl_Value = [], cl_Block = []\<rparr> in
      case raw of
        None \<Rightarrow> Inl missing_params
      | Some JvNull \<Rightarrow> Inl missing_params
      | Some (JvArr []) \<Rightarrow> Inl missing_params
      | Some (JvArr (v # vs)) \<Rightarrow>
          (case call_fields E v zero of
             Inl e \<Rightarrow> Inl e
           | Inr params \<Rightarrow> (case second_string vs ''latest'' of Inl e \<Rightarrow> Inl e | Inr ref \<Rightarrow> Inr (params, ref)))
      | Some v \<Rightarrow>
          (case call_fields E v zero of
             Inl e \<Rightarrow> Inl e
           | Inr params \<Rightarrow> Inr (params, if TrimSpace (cl_Block params) \<noteq> [] then cl_Block params else ''latest'')))"

definition decodeCallParams :: "env \<Rightarrow> jv option \<Rightarrow> (CallMessage \<times> string) res" where
  "decodeCallParams E raw =
     (case decode_call_sources E raw of
        Inl e \<Rightarrow> Inl e
      | Inr (params, blockRef) \<Rightarrow>
          (case decodeHexPayload (cl_Data params) of
             Inl e \<Rightarrow> Inl e
           | Inr input \<Rightarrow>
               (case parseCallValue E (cl_Value params) of
                  Inl e \<Rightarrow> Inl e
                | Inr v \<Rightarrow>
                    Inr (\<lparr>call_From = TrimSpace (cl_From params), call_To = TrimSpace (cl_To params), call_Data = input,
                          call_Value = Some v\<rparr>, blockRef))))"

definition decode_count_sources :: "env \<Rightarrow> jv option \<Rightarrow> getTransactionCountParams res" where
  "decode_count_sources E raw =
     (let zero = \<lparr>tc_Address = [], tc_Block = ''latest''\<rparr> in
      case raw of
        None \<Rightarrow> Inl missing_params
      | Some JvNull \<Rightarrow> Inl missing_params
      | Some (JvArr []) \<Rightarrow> Inl missing_params
      | Some (JvArr (v # vs)) \<Rightarrow>
          (case into_string (\<lambda>s r. r\<lparr>tc_Address := s\<rparr>) v zero of
             Inl e \<Rightarrow> Inl e
           | Inr params \<Rightarrow>
               (case second_string vs (tc_Block params) of Inl e \<Rightarrow> Inl e | Inr ref \<Rightarrow> Inr (params\<lparr>tc_Block := ref\<rparr>)))
      | Some v \<Rightarrow> count_fields E v zero)"

definition decodeTransactionCountParams :: "env \<Rightarrow> jv option \<Rightarrow> (string \<times> string) res" where
  "decodeTransactionCountParams E raw =
     (case decode_count_sources E raw of
        Inl e \<Rightarrow> Inl e
      | Inr params \<Rightarrow>
          if TrimSpace (tc_Address params) = [] then Inl (ErrText ''address is required'')
          else Inr (TrimSpace (tc_Address params),
                    if TrimSpace (tc_Block params) = [] then ''latest'' else TrimSpace (tc_Block params)))"

text \<open>\<open>decodeCodeParams\<close> is the same code over \<open>getCodeParams\<close>, a struct with the same fields.\<close>

definition decodeCodeParams :: "env \<Rightarrow> jv option \<Rightarrow> (string \<times> string) res" where
  "decodeCodeParams = decodeTransactionCountParams"

definition parseBlockNumber :: "env \<Rightarrow> string \<Rightarrow> u64 \<Rightarrow> u64 res" where
  "parseBlockNumber E ref latest =
     (let cleaned = TrimSpace (ToLower E ref) in
      if cleaned = [] \<or> cleaned = ''latest'' then Inr latest else ParseUint cleaned)"

section \<open>The server\<close>

record clientWindow =
  cw_start :: time
  cw_count :: int

record clientWindowLimiter =
  cl_limit :: int
  cl_window :: int
  cl_clients :: "(string, clientWindow) fmap"

definition newClientWindowLimiter :: "int \<Rightarrow> int \<Rightarrow> clientWindowLimiter" where
  "newClientWindowLimiter limit window = \<lparr>cl_limit = limit, cl_window = window, cl_clients = fmempty\<rparr>"

definition client_pruneLocked :: "clientWindowLimiter \<Rightarrow> time \<Rightarrow> clientWindowLimiter" where
  "client_pruneLocked l n = l\<lparr>cl_clients := fmfilter (\<lambda>key. case fmlookup (cl_clients l) key of
       None \<Rightarrow> True | Some entry \<Rightarrow> \<not> cl_window l \<le> time_Sub n (cw_start entry)) (cl_clients l)\<rparr>"

definition client_Allow :: "clientWindowLimiter \<Rightarrow> string \<Rightarrow> time \<Rightarrow> clientWindowLimiter \<times> bool" where
  "client_Allow l key0 n =
     (if cl_limit l \<le> 0 \<or> cl_window l \<le> 0 then (l, True)
      else
        (let key = (if TrimSpace key0 = [] then ''unknown'' else key0) in
         case fmlookup (cl_clients l) key of
           None \<Rightarrow> (client_pruneLocked (l\<lparr>cl_clients := fmupd key \<lparr>cw_start = n, cw_count = 1\<rparr> (cl_clients l)\<rparr>) n, True)
         | Some entry \<Rightarrow>
             if cl_window l \<le> time_Sub n (cw_start entry)
             then (client_pruneLocked (l\<lparr>cl_clients := fmupd key \<lparr>cw_start = n, cw_count = 1\<rparr> (cl_clients l)\<rparr>) n, True)
             else if cl_limit l \<le> cw_count entry then (l, False)
             else (l\<lparr>cl_clients := fmupd key (entry\<lparr>cw_count := int64 (cw_count entry + 1)\<rparr>) (cl_clients l)\<rparr>, True)))"

text \<open>\<open>net.SplitHostPort\<close>, the host; \<open>None\<close> is any of its errors.\<close>

definition last_colon :: "string \<Rightarrow> nat option" where
  "last_colon s =
     (if CHR '':'' \<in> set s then Some (length s - 1 - length (takeWhile (\<lambda>c. c \<noteq> CHR '':'') (rev s))) else None)"

definition SplitHostPort_host :: "string \<Rightarrow> string option" where
  "SplitHostPort_host hostport =
     (case last_colon hostport of
        None \<Rightarrow> None
      | Some i \<Rightarrow>
          if prefix ''['' hostport then
            (let e = length (takeWhile (\<lambda>c. c \<noteq> CHR '']'') hostport) in
             if e = length hostport \<or> e + 1 \<noteq> i then None
             else if CHR ''['' \<in> set (drop 1 hostport) \<or> CHR '']'' \<in> set (drop (e + 1) hostport) then None
             else Some (take (e - 1) (drop 1 hostport)))
          else
            (let host = take i hostport in
             if CHR '':'' \<in> set host \<or> CHR ''['' \<in> set hostport \<or> CHR '']'' \<in> set hostport then None
             else Some host))"

text \<open>A request: its method, two of its headers, and what decoding its body gives.\<close>

record rpcRequest =
  rq_Method :: string
  rq_Params :: "jv option"
  rq_ID :: "jv option"

datatype rpc_body = BodyTooLarge | BodyInvalid | BodyDecoded rpcRequest bool

record http_request =
  hr_Method :: string
  hr_ForwardedFor :: string
  hr_RemoteAddr :: string
  hr_Body :: rpc_body

definition clientAddress :: "http_request \<Rightarrow> string" where
  "clientAddress request =
     (let forwarded = TrimSpace (hr_ForwardedFor request);
          cleaned = TrimSpace (hd (split_char CHR '','' forwarded)) in
      if forwarded \<noteq> [] \<and> cleaned \<noteq> [] then cleaned
      else
        (case SplitHostPort_host (TrimSpace (hr_RemoteAddr request)) of
           Some host \<Rightarrow> host
         | None \<Rightarrow> if TrimSpace (hr_RemoteAddr request) \<noteq> [] then TrimSpace (hr_RemoteAddr request) else ''unknown''))"

text \<open>The result of a method: a JSON value built by the handler, or a value of the core package it passes on.\<close>

datatype rpc_value =
    V_json json | V_network NetworkConfig | V_contract ContractRecord | V_contracts "ContractRecord list"
  | V_block Block | V_recent RecentActivity | V_address AddressActivity | V_transaction ActivityTransaction
  | V_proof ActivityProof | V_mempool MempoolStatus | V_mining MiningStatus | V_transactions "Transaction list"
  | V_tasks "PendingSearchTask list" | V_quarantined "QuarantinedSearchTask list"
  | V_search_data SearchQueryResult | V_search SearchResults

datatype rpc_reply = Result rpc_value | Refused int err | Aborted

definition invalidParams :: "err \<Rightarrow> rpc_reply" where
  "invalidParams e = Refused (-32602) e"

definition rpcFailure :: "err \<Rightarrow> rpc_reply" where
  "rpcFailure e = (if e = GoPanic then Aborted else Refused (-32000) e)"

definition with_params :: "'p res \<Rightarrow> ('p \<Rightarrow> rpc_reply) \<Rightarrow> rpc_reply" where
  "with_params r k = (case r of Inl e \<Rightarrow> invalidParams e | Inr v \<Rightarrow> k v)"

definition with_result :: "'p res \<Rightarrow> ('p \<Rightarrow> rpc_value) \<Rightarrow> rpc_reply" where
  "with_result r k = (case r of Inl e \<Rightarrow> rpcFailure e | Inr v \<Rightarrow> Result (k v))"

record RPCServer =
  srv_Blockchain :: Blockchain
  srv_Engine :: "Engine option"
  srv_limiter :: "clientWindowLimiter option"

definition MaxRPCBodyBytes :: nat where "MaxRPCBodyBytes = 2 ^ 20"
definition DefaultRPCWriteLimit :: int where "DefaultRPCWriteLimit = 60"
definition DefaultRPCWriteWindow :: int where "DefaultRPCWriteWindow = Minute"

definition NewRPCServer :: "Blockchain \<Rightarrow> Engine option \<Rightarrow> RPCServer" where
  "NewRPCServer blockchain engine = \<lparr>srv_Blockchain = blockchain, srv_Engine = engine,
     srv_limiter = Some (newClientWindowLimiter DefaultRPCWriteLimit DefaultRPCWriteWindow)\<rparr>"

definition resolveTransactionCount :: "env \<Rightarrow> RPCServer \<Rightarrow> string \<Rightarrow> string \<Rightarrow> u64 res" where
  "resolveTransactionCount E s address blockRef =
     (let ref = ToLower E (TrimSpace blockRef) in
      if ref = [] \<or> ref = ''latest'' then NonceAt E (srv_Blockchain s) address ''latest''
      else if ref = ''pending'' then
        (case srv_Engine s of
           None \<Rightarrow> NonceAt E (srv_Blockchain s) address ''latest''
         | Some e \<Rightarrow> PendingNonce E e address)
      else NonceAt E (srv_Blockchain s) address blockRef)"

definition isMutatingMethod :: "string \<Rightarrow> bool" where
  "isMutatingMethod method \<longleftrightarrow>
     TrimSpace method \<in> {''ufi_sendTransaction'', ''ufi_sendRawTransaction'', ''ufi_submitSearchTask''}"

section \<open>Methods\<close>

text \<open>\<open>0x%x\<close> of a number and of bytes.\<close>

fun hex_digits :: "nat \<Rightarrow> string" where
  "hex_digits n = (if n < 16 then [hex_digit n] else hex_digits (n div 16) @ [hex_digit (n mod 16)])"

declare hex_digits.simps [simp del]

definition hex_uint :: "u64 \<Rightarrow> string" where
  "hex_uint n = ''0x'' @ hex_digits (unat n)"

definition hex_bytes :: "bytes \<Rightarrow> string" where
  "hex_bytes bs = ''0x'' @ hex_encode bs"

definition name_reply :: "NameRecord option \<Rightarrow> rpc_reply" where
  "name_reply r =
     (case r of
        None \<Rightarrow> Result (V_json (JObj [(''found'', JBool False)]))
      | Some rec \<Rightarrow> Result (V_json (JObj [(''found'', JBool True), (''name'', JStr (name_Name rec)), (''owner'', JStr (name_Owner rec)),
            (''txHash'', JStr (name_TxHash rec)), (''created'', JTime (name_RegisteredAt rec))])))"

text \<open>
  The cases of \<open>handle\<close> that only read, in groups, each of which passes the other methods on. \<open>order\<close> is the order in which \<open>ReverseResolve\<close> visits the names.
  The engine is checked for nil where the code does.
\<close>

definition read_index :: "env \<Rightarrow> NameRecord list \<Rightarrow> RPCServer \<Rightarrow> string \<Rightarrow> jv option \<Rightarrow> rpc_reply" where
  "read_index E order s method params =
     (let bc = srv_Blockchain s in
      if method = ''ufi_getSearchData'' then
        with_params (decodeParams (search_data_fields E) \<lparr>sd_URL = [], sd_Term = []\<rparr> params)
          (\<lambda>p. Result (V_search_data (GetSearchData E bc (sd_URL p) (sd_Term p))))
      else if method = ''ufi_searchIndex'' then
        with_params (decodeParams (search_index_fields E) \<lparr>si_Term = [], si_URL = [], si_Limit = 0\<rparr> params)
          (\<lambda>p. Result (V_search (SearchIndex_query E bc (si_Term p) (si_URL p) (si_Limit p))))
      else if method = ''ufi_getNamePrice'' then
        with_params (decodeParams (one_string E ''name'') [] params)
          (\<lambda>n. with_result (UNSRegistrationPrice E bc n) (\<lambda>price. V_json (JObj [(''price'', JStr (show_int price))])))
      else if method = ''ufi_call'' \<or> method = ''eth_call'' then
        with_params (decodeCallParams E params)
          (\<lambda>(call, ref). with_result (CallContract E bc call ref) (\<lambda>output. V_json (JStr (hex_bytes output))))
      else if method = ''ufi_callNative'' then
        with_params (decodeParams (call_native_fields E) \<lparr>cn_To = [], cn_Data = []\<rparr> params)
          (\<lambda>p. with_params (decodeHexPayload (cn_Data p))
             (\<lambda>input. with_result
                (CallContract E bc \<lparr>call_From = [], call_To = cn_To p, call_Data = input, call_Value = None\<rparr> ''latest'')
                (\<lambda>output. V_json (JObj [(''output'', JStr (hex_bytes output))]))))
      else if method = ''ufi_callPrecompile0101'' then
        with_params (decodeParams (one_string E ''term'') [] params)
          (\<lambda>t. with_result (PrecompileMentionFrequency E bc t) (\<lambda>output. V_json (JObj [(''output'', JStr (hex_bytes output))])))
      else Refused (-32601) (ErrText ''method not found''))"

definition read_blocks :: "env \<Rightarrow> NameRecord list \<Rightarrow> RPCServer \<Rightarrow> string \<Rightarrow> jv option \<Rightarrow> rpc_reply" where
  "read_blocks E order s method params =
     (let bc = srv_Blockchain s in
      if method = ''ufi_getBlockByNumber'' then
        with_params (decodeParams (one_string E ''number'') [] params)
          (\<lambda>n. with_params (parseBlockNumber E n (hdr_Number (blk_Header (bc_latest bc))))
             (\<lambda>number. with_result (GetBlockByNumber bc number) V_block))
      else if method = ''ufi_getBlockByHash'' then
        with_params (decodeParams (one_string E ''hash'') [] params)
          (\<lambda>h. with_result (GetBlockByHash bc (TrimSpace h)) V_block)
      else if method = ''ufi_getRecentActivity'' then
        with_params (decodeParams (one_limit E) 0 params) (\<lambda>n. Result (V_recent (RecentActivity_query bc n)))
      else if method = ''ufi_getAddressActivity'' then
        with_params (decodeParams (address_activity_fields E) \<lparr>ga_Address = [], ga_Limit = 0\<rparr> params)
          (\<lambda>p. with_params (AddressActivity_query bc order (ga_Address p) (ga_Limit p)) (\<lambda>a. Result (V_address a)))
      else if method = ''ufi_getTransactionByHash'' then
        with_params (decodeParams (one_string E ''hash'') [] params)
          (\<lambda>h. with_result (TransactionByHash bc h) V_transaction)
      else if method = ''ufi_getCrawlProof'' then
        with_params (decodeParams (crawl_proof_fields E) \<lparr>cp_TaskTxHash = [], cp_TaskID = []\<rparr> params)
          (\<lambda>p. with_result (CrawlProofByTask bc (cp_TaskTxHash p) (cp_TaskID p)) V_proof)
      else read_index E order s method params)"

definition read_chain :: "env \<Rightarrow> NameRecord list \<Rightarrow> RPCServer \<Rightarrow> string \<Rightarrow> jv option \<Rightarrow> rpc_reply" where
  "read_chain E order s method params =
     (let bc = srv_Blockchain s in
      if method = ''ufi_getBalance'' then
        with_params (decodeParams (one_string E ''address'') [] params)
          (\<lambda>a. Result (V_json (JObj [(''balance'', JStr (show_int (GetBalance bc a)))])))
      else if method = ''ufi_getTransactionCount'' then
        with_params (decodeTransactionCountParams E params)
          (\<lambda>(a, ref). with_result (resolveTransactionCount E s a ref) (\<lambda>n. V_json (JObj [(''nonce'', JStr (FormatUint n))])))
      else if method = ''eth_getTransactionCount'' then
        with_params (decodeTransactionCountParams E params)
          (\<lambda>(a, ref). with_result (resolveTransactionCount E s a ref) (\<lambda>n. V_json (JStr (hex_uint n))))
      else if method = ''ufi_getNetworkConfig'' then Result (V_network (bc_network bc))
      else if method = ''eth_chainId'' then Result (V_json (JStr (hex_uint (net_ChainID (bc_network bc)))))
      else if method = ''ufi_getContract'' then
        with_params (decodeParams (one_string E ''address'') [] params)
          (\<lambda>a. case ContractAt E bc a of None \<Rightarrow> rpcFailure ErrUnsupportedNativeContract | Some rec \<Rightarrow> Result (V_contract rec))
      else if method = ''ufi_listContracts'' then Result (V_contracts (ListContracts E bc))
      else if method = ''eth_getCode'' then
        with_params (decodeCodeParams E params) (\<lambda>(a, ref). Result (V_json (JStr (ContractCodeAt E bc a))))
      else if method = ''ufi_resolveName'' then
        with_params (decodeParams (one_string E ''name'') [] params) (\<lambda>n. name_reply (ResolveName bc n))
      else if method = ''ufi_reverseResolve'' then
        with_params (decodeParams (one_string E ''address'') [] params) (\<lambda>a. name_reply (ReverseResolve order a))
      else read_blocks E order s method params)"

definition unavailable :: "string \<Rightarrow> rpc_reply" where
  "unavailable what = rpcFailure (ErrText (what @ '' is unavailable''))"

definition pool_params :: "env \<Rightarrow> jv option \<Rightarrow> getPendingPoolParams res" where
  "pool_params E = decodeParams (pending_pool_fields E) \<lparr>pp_Address = [], pp_Limit = 0\<rparr>"

definition read_method :: "env \<Rightarrow> NameRecord list \<Rightarrow> RPCServer \<Rightarrow> string \<Rightarrow> jv option \<Rightarrow> rpc_reply" where
  "read_method E order s method params =
     (if method = ''ufi_getMempoolStatus'' then
        (case srv_Engine s of None \<Rightarrow> unavailable ''mempool'' | Some e \<Rightarrow> Result (V_mempool (Engine_MempoolStatus e)))
      else if method = ''ufi_getMiningStatus'' then
        (if srv_Engine s = None then unavailable ''mining status'' else Result (V_mining (Engine_MiningStatus (srv_Engine s))))
      else if method = ''ufi_getPendingTransactions'' then
        (if srv_Engine s = None then unavailable ''mempool''
         else with_params (pool_params E params)
           (\<lambda>p. Result (V_transactions (PendingTransactions (srv_Engine s) (pp_Address p) (pp_Limit p)))))
      else if method = ''ufi_getPendingSearchTasks'' then
        (if srv_Engine s = None then unavailable ''mempool''
         else with_params (pool_params E params)
           (\<lambda>p. Result (V_tasks (PendingSearchTasks (srv_Engine s) (pp_Address p) (pp_Limit p)))))
      else if method = ''ufi_getQuarantinedSearchTasks'' then
        (if srv_Engine s = None then unavailable ''mempool''
         else with_params (pool_params E params)
           (\<lambda>p. Result (V_quarantined (QuarantinedSearchTasks (srv_Engine s) (pp_Address p) (pp_Limit p)))))
      else read_chain E order s method params)"

text \<open>
  The cases that submit. Their replies are built from the envelope the engine accepted; without an engine they
  dereference nil.
\<close>

definition submit_reply :: "RPCServer \<Rightarrow> Engine \<times> string res \<Rightarrow> RPCServer \<times> rpc_reply" where
  "submit_reply s outcome =
     (s\<lparr>srv_Engine := Some (fst outcome)\<rparr>, with_result (snd outcome) (\<lambda>hash. V_json (JObj [(''hash'', JStr hash)])))"

definition task_reply ::
    "RPCServer \<Rightarrow> (SearchTaskEnvelope \<Rightarrow> rpc_value) \<Rightarrow> Engine \<times> SearchTaskEnvelope res \<Rightarrow> RPCServer \<times> rpc_reply" where
  "task_reply s k outcome = (s\<lparr>srv_Engine := Some (fst outcome)\<rparr>, with_result (snd outcome) k)"

definition send_transaction :: "env \<Rightarrow> RPCServer \<Rightarrow> Transaction \<Rightarrow> RPCServer \<times> rpc_reply" where
  "send_transaction E s tx =
     (case srv_Engine s of None \<Rightarrow> (s, Aborted) | Some e \<Rightarrow> submit_reply s (submitTransaction E e tx))"

definition ufi_sendTransaction :: "env \<Rightarrow> rpc_lib \<Rightarrow> RPCServer \<Rightarrow> jv option \<Rightarrow> RPCServer \<times> rpc_reply" where
  "ufi_sendTransaction E J s params =
     (case decodeParams (\<lambda>v tx. from_option err_json (into_transaction J v tx)) zero_Transaction params of
        Inl e \<Rightarrow> (s, invalidParams e)
      | Inr tx \<Rightarrow> send_transaction E s tx)"

definition ufi_sendRawTransaction :: "env \<Rightarrow> rpc_lib \<Rightarrow> RPCServer \<Rightarrow> jv option \<Rightarrow> RPCServer \<times> rpc_reply" where
  "ufi_sendRawTransaction E J s params =
     (case decodeParams (one_string E ''raw'') [] params of
        Inl e \<Rightarrow> (s, invalidParams e)
      | Inr raw \<Rightarrow>
          (case decodeRawTransaction J raw of
             Inl e \<Rightarrow> (s, invalidParams e)
           | Inr tx \<Rightarrow>
               if tx_Type tx = TxTypeSearchTask then
                 (case tx_SearchTaskRequest E tx of
                    Inl e \<Rightarrow> (s, rpcFailure e)
                  | Inr request \<Rightarrow>
                      (case srv_Engine s of
                         None \<Rightarrow> (s, Aborted)
                       | Some e \<Rightarrow>
                           task_reply s (\<lambda>envelope. V_json (JObj [(''hash'', JStr (tx_Hash (env_Transaction envelope))),
                               (''taskId'', JStr (ct_ID (env_Task envelope))),
                               (''grossBounty'', JStr (tx_Value (env_Transaction envelope)))]))
                             (submitSearchTask E e tx request)))
               else send_transaction E s tx))"

definition ufi_submitSearchTask :: "env \<Rightarrow> rpc_lib \<Rightarrow> RPCServer \<Rightarrow> jv option \<Rightarrow> RPCServer \<times> rpc_reply" where
  "ufi_submitSearchTask E J s params =
     (case decodeParams (submit_task_fields E J) \<lparr>st_Transaction = zero_Transaction, st_Task = zero_SearchTaskRequest\<rparr> params of
        Inl e \<Rightarrow> (s, invalidParams e)
      | Inr p \<Rightarrow>
          (case srv_Engine s of
             None \<Rightarrow> (s, Aborted)
           | Some e \<Rightarrow>
               task_reply s (\<lambda>envelope. V_json (JObj [(''hash'', JStr (tx_Hash (env_Transaction envelope))),
                   (''taskId'', JStr (ct_ID (env_Task envelope))), (''grossBounty'', JStr (tx_Value (env_Transaction envelope))),
                   (''difficulty'', JUint (ct_Difficulty (env_Task envelope))), (''query'', JStr (req_Query (env_Request envelope))),
                   (''url'', JStr (req_URL (env_Request envelope)))]))
                 (submitSearchTask E e (st_Transaction p) (st_Task p))))"

definition handle :: "env \<Rightarrow> rpc_lib \<Rightarrow> NameRecord list \<Rightarrow> RPCServer \<Rightarrow> rpcRequest \<Rightarrow> RPCServer \<times> rpc_reply" where
  "handle E J order s r =
     (if rq_Method r = ''ufi_sendTransaction'' then ufi_sendTransaction E J s (rq_Params r)
      else if rq_Method r = ''ufi_sendRawTransaction'' then ufi_sendRawTransaction E J s (rq_Params r)
      else if rq_Method r = ''ufi_submitSearchTask'' then ufi_submitSearchTask E J s (rq_Params r)
      else (s, read_method E order s (rq_Method r) (rq_Params r)))"

text \<open>An answer: its status, the identifier of the request and the reply; an aborted request has none.\<close>

record rpc_answer =
  an_Status :: nat
  an_ID :: "jv option"
  an_Reply :: rpc_reply

definition answer :: "nat \<Rightarrow> jv option \<Rightarrow> rpc_reply \<Rightarrow> rpc_answer option" where
  "answer status i reply = Some \<lparr>an_Status = status, an_ID = i, an_Reply = reply\<rparr>"

definition serve_handled :: "jv option \<Rightarrow> rpc_reply \<Rightarrow> rpc_answer option" where
  "serve_handled i reply =
     (case reply of
        Aborted \<Rightarrow> None
      | Refused code e \<Rightarrow> answer 400 i reply
      | Result v \<Rightarrow> answer 200 i reply)"

text \<open>The write limit: the limiter is asked, at the time of the request, only for a mutating method.\<close>

definition admit :: "env \<Rightarrow> RPCServer \<Rightarrow> http_request \<Rightarrow> string \<Rightarrow> RPCServer \<times> bool" where
  "admit E s request method =
     (if isMutatingMethod method then
        (case srv_limiter s of
           None \<Rightarrow> (s, True)
         | Some l \<Rightarrow>
             (let (l', ok) = client_Allow l (clientAddress request) (now E) in (s\<lparr>srv_limiter := Some l'\<rparr>, ok)))
      else (s, True))"

definition rpc_ServeHTTP ::
    "env \<Rightarrow> rpc_lib \<Rightarrow> NameRecord list \<Rightarrow> RPCServer \<Rightarrow> http_request \<Rightarrow> RPCServer \<times> rpc_answer option" where
  "rpc_ServeHTTP E J order s request =
     (if hr_Method request \<noteq> ''POST'' then (s, answer 405 None (Refused (-32600) (ErrText ''method not allowed'')))
      else
        (case hr_Body request of
           BodyTooLarge \<Rightarrow> (s, answer 413 None (Refused (-32001) (ErrText ''request body too large'')))
         | BodyInvalid \<Rightarrow> (s, answer 400 None (Refused (-32700) (ErrText ''invalid JSON-RPC payload'')))
         | BodyDecoded r extra \<Rightarrow>
             if extra then (s, answer 400 None (Refused (-32700) (ErrText ''invalid JSON-RPC payload'')))
             else
               (let (s1, ok) = admit E s request (rq_Method r) in
                if \<not> ok then (s1, answer 429 (rq_ID r) (Refused (-32005) (ErrText ''rate limit exceeded'')))
                else (let (s2, reply) = handle E J order s1 r in (s2, serve_handled (rq_ID r) reply)))))"

end
