(* ===== verification/Rpc_Laws.thy ===== *)
theory Rpc_Laws
  imports Rpc Queries_Laws Engine_Rounds Reputation_Laws
begin

text \<open>
  What the JSON-RPC server guarantees: a request changes nothing but the engine and the write limiter, and the engine by at most
  one submission; the write limit bounds the mutating requests of a client address in any minute; the nonces it reports are
  those of the states the headers certify, and follow the submissions it accepts.
\<close>

section \<open>Requests and the engine\<close>

text \<open>At most one submission: the engine makes a step and the rest of the server stays.\<close>

definition stepped :: "env \<Rightarrow> RPCServer \<Rightarrow> RPCServer \<Rightarrow> bool" where
  "stepped E s s' \<longleftrightarrow> s' = s \<or> (\<exists>e e'. srv_Engine s = Some e \<and> s' = s\<lparr>srv_Engine := Some e'\<rparr> \<and> engine_step E e e')"

lemma stepped_refl [simp]: "stepped E s s"
  by (simp add: stepped_def)

lemma stepped_task [simp]: "srv_Engine s = Some e \<Longrightarrow> stepped E s (fst (task_reply s k (submitSearchTask E e tx request)))"
  by (cases "submitSearchTask E e tx request") (auto simp: stepped_def task_reply_def intro: engine_step.task)

lemma stepped_send [simp]: "stepped E s (fst (send_transaction E s tx))"
proof (cases "srv_Engine s")
  case (Some e)
  then show ?thesis
    by (cases "submitTransaction E e tx") (auto simp: stepped_def send_transaction_def submit_reply_def intro: engine_step.transfer)
qed (simp add: send_transaction_def)

lemma stepped_methods:
  "stepped E s (fst (ufi_sendTransaction E J s params))" "stepped E s (fst (ufi_sendRawTransaction E J s params))"
  "stepped E s (fst (ufi_submitSearchTask E J s params))"
  by (simp_all add: ufi_sendTransaction_def ufi_sendRawTransaction_def ufi_submitSearchTask_def split: sum.split option.split)

lemma mutating_methods:
  "isMutatingMethod ''ufi_sendTransaction''" "isMutatingMethod ''ufi_sendRawTransaction''" "isMutatingMethod ''ufi_submitSearchTask''"
proof -
  have "TrimSpace ''ufi_sendTransaction'' = ''ufi_sendTransaction''"
    "TrimSpace ''ufi_sendRawTransaction'' = ''ufi_sendRawTransaction''"
    "TrimSpace ''ufi_submitSearchTask'' = ''ufi_submitSearchTask''"
    by (rule TrimSpace_visible; simp add: visible_def byte_def)+
  then show "isMutatingMethod ''ufi_sendTransaction''" "isMutatingMethod ''ufi_sendRawTransaction''"
    "isMutatingMethod ''ufi_submitSearchTask''" by (simp_all add: isMutatingMethod_def)
qed

lemma handle_stepped:
  "stepped E s (fst (handle E J order s r))"
  "\<not> isMutatingMethod (rq_Method r) \<Longrightarrow> fst (handle E J order s r) = s"
  using mutating_methods by (auto simp: handle_def stepped_methods)

lemma admit_server:
  "admit E s rq m = (s', ok) \<Longrightarrow> srv_Blockchain s' = srv_Blockchain s \<and> srv_Engine s' = srv_Engine s"
  "\<not> isMutatingMethod m \<Longrightarrow> admit E s rq m = (s, True)"
  by (auto simp: admit_def split: if_splits option.splits prod.splits)

lemma rpc_only_submits_unchanged:
  assumes "rpc_ServeHTTP E J order s rq = (s', ans)"
    and "\<nexists>r. hr_Method rq = ''POST'' \<and> hr_Body rq = BodyDecoded r False \<and> isMutatingMethod (rq_Method r)"
  shows "s' = s"
proof (cases "\<exists>r. hr_Method rq = ''POST'' \<and> hr_Body rq = BodyDecoded r False")
  case False
  then show ?thesis using assms(1) by (auto simp: rpc_ServeHTTP_def split: if_splits rpc_body.splits)
next
  case True
  then obtain r where r: "hr_Method rq = ''POST''" "hr_Body rq = BodyDecoded r False" by blast
  with assms(2) have "\<not> isMutatingMethod (rq_Method r)" by blast
  then show ?thesis using assms(1) r admit_server(2) handle_stepped(2)
    by (auto simp: rpc_ServeHTTP_def split: prod.splits) (metis fst_conv)
qed


section \<open>The write limit\<close>

text \<open>The limiter of clients is the limiter of peers without a limit of its own per call.\<close>

definition peer_view :: "clientWindowLimiter \<Rightarrow> peerWindowLimiter" where
  "peer_view l = \<lparr>wl_limit = cl_limit l, wl_window = cl_window l,
     wl_entries = fmmap (\<lambda>w. \<lparr>pw_start = cw_start w, pw_count = cw_count w\<rparr>) (cl_clients l)\<rparr>"

definition client_key :: "string \<Rightarrow> string" where
  "client_key key = (if TrimSpace key = [] then ''unknown'' else key)"

lemma peer_view_upd:
  "peer_view (l\<lparr>cl_clients := fmupd k w (cl_clients l)\<rparr>)
     = (peer_view l)\<lparr>wl_entries := fmupd k \<lparr>pw_start = cw_start w, pw_count = cw_count w\<rparr> (wl_entries (peer_view l))\<rparr>"
  by (simp add: peer_view_def) (rule fmap_ext, simp)

lemma peer_view_prune: "peer_view (client_pruneLocked l n) = pruneLocked (peer_view l) n"
  by (simp add: peer_view_def client_pruneLocked_def pruneLocked_def)
    (rule fmap_ext, auto split: option.split)

lemma client_Allow_refines:
  assumes "0 < cl_limit l" "0 < cl_window l"
  shows "AllowWithLimit (peer_view l) (client_key key) n 0 = (case client_Allow l key n of (l', ok) \<Rightarrow> (peer_view l', ok))"
proof -
  have "client_key key \<noteq> []" by (auto simp: client_key_def)
  moreover have "wl_limit (peer_view l) = cl_limit l" "wl_window (peer_view l) = cl_window l"
    "fmlookup (wl_entries (peer_view l)) k = map_option (\<lambda>w. \<lparr>pw_start = cw_start w, pw_count = cw_count w\<rparr>) (fmlookup (cl_clients l) k)" for k
    by (simp_all add: peer_view_def)
  ultimately show ?thesis
    using assms
    by (simp add: AllowWithLimit_def client_Allow_def Let_def client_key_def [symmetric] peer_view_upd peer_view_prune split: option.split)
qed

lemma client_Allow_params:
  "client_Allow l key n = (l', ok) \<Longrightarrow> cl_limit l' = cl_limit l \<and> cl_window l' = cl_window l"
  by (auto simp: client_Allow_def client_pruneLocked_def Let_def split: if_splits option.splits)

text \<open>
  A run of the server: the answers to requests that arrive in order, each at a time of its own (and with an order of
  its own in which names are visited).
\<close>

type_synonym rpc_call = "time \<times> NameRecord list \<times> http_request"

fun rpc_run :: "env \<Rightarrow> rpc_lib \<Rightarrow> RPCServer \<Rightarrow> rpc_call list \<Rightarrow> rpc_answer option list" where
  "rpc_run E J s [] = []"
| "rpc_run E J s ((n, order, rq) # calls) =
     (let (s', ans) = rpc_ServeHTTP (E\<lparr>now := n\<rparr>) J order s rq in ans # rpc_run E J s' calls)"

fun rpc_after :: "env \<Rightarrow> rpc_lib \<Rightarrow> RPCServer \<Rightarrow> rpc_call list \<Rightarrow> RPCServer" where
  "rpc_after E J s [] = s"
| "rpc_after E J s ((n, order, rq) # calls) = rpc_after E J (fst (rpc_ServeHTTP (E\<lparr>now := n\<rparr>) J order s rq)) calls"

text \<open>A request for a mutating method, and an answer (an aborted request has none) other than that the limit is exceeded.\<close>

definition writes :: "http_request \<Rightarrow> bool" where
  "writes rq \<longleftrightarrow> hr_Method rq = ''POST'' \<and> (case hr_Body rq of BodyDecoded r extra \<Rightarrow> \<not> extra \<and> isMutatingMethod (rq_Method r) | _ \<Rightarrow> False)"

definition let_through :: "rpc_answer option \<Rightarrow> bool" where
  "let_through ans \<longleftrightarrow> (case ans of None \<Rightarrow> True | Some a \<Rightarrow> an_Status a \<noteq> 429)"

definition written :: "string \<Rightarrow> env \<Rightarrow> rpc_lib \<Rightarrow> RPCServer \<Rightarrow> rpc_call list \<Rightarrow> nat" where
  "written key E J s calls =
     length (filter (\<lambda>((n, order, rq), ans). writes rq \<and> client_key (clientAddress rq) = key \<and> let_through ans)
       (zip calls (rpc_run E J s calls)))"

definition limited :: "RPCServer \<Rightarrow> clientWindowLimiter \<Rightarrow> bool" where
  "limited s l \<longleftrightarrow> srv_limiter s = Some l \<and> cl_limit l = DefaultRPCWriteLimit \<and> cl_window l = DefaultRPCWriteWindow"

lemma answer_through [simp]: "let_through (answer status i reply) \<longleftrightarrow> status \<noteq> 429"
  by (simp add: answer_def let_through_def)

lemma serve_handled_through [simp]: "let_through (serve_handled i reply)"
  by (cases reply) (simp_all add: serve_handled_def, simp add: let_through_def)

lemma handle_limiter: "srv_limiter (fst (handle E J order s r)) = srv_limiter s"
  using handle_stepped(1) [of E s J order r] by (auto simp: stepped_def)

lemma serve_limiter:
  assumes "rpc_ServeHTTP (E\<lparr>now := n\<rparr>) J order s rq = (s', ans)" "srv_limiter s = Some l"
  shows "if writes rq then srv_limiter s' = Some (fst (client_Allow l (clientAddress rq) n))
           \<and> let_through ans = snd (client_Allow l (clientAddress rq) n)
         else s' = s"
proof (cases "writes rq")
  case True
  then obtain r where r: "hr_Method rq = ''POST''" "hr_Body rq = BodyDecoded r False" "isMutatingMethod (rq_Method r)"
    by (auto simp: writes_def split: rpc_body.splits)
  obtain l' ok where allow: "client_Allow l (clientAddress rq) n = (l', ok)" by fastforce
  have "rpc_ServeHTTP (E\<lparr>now := n\<rparr>) J order s rq =
     (let s1 = s\<lparr>srv_limiter := Some l'\<rparr> in
      if \<not> ok then (s1, answer 429 (rq_ID r) (Refused (-32005) (ErrText ''rate limit exceeded'')))
      else (let (s2, reply) = handle (E\<lparr>now := n\<rparr>) J order s1 r in (s2, serve_handled (rq_ID r) reply)))"
    using r allow assms(2) by (simp add: rpc_ServeHTTP_def admit_def Let_def)
  with assms(1) allow True show ?thesis
    using handle_limiter [of "E\<lparr>now := n\<rparr>" J order "s\<lparr>srv_limiter := Some l'\<rparr>" r]
    by (cases ok) (auto simp: Let_def split: prod.splits)
next
  case False
  then have "\<nexists>r. hr_Method rq = ''POST'' \<and> hr_Body rq = BodyDecoded r False \<and> isMutatingMethod (rq_Method r)"
    by (auto simp: writes_def)
  with rpc_only_submits_unchanged [OF assms(1)] False show ?thesis by simp
qed


text \<open>The calls of the limiter that a run makes.\<close>

definition limiter_calls :: "rpc_call list \<Rightarrow> (string \<times> time \<times> int) list" where
  "limiter_calls calls = map (\<lambda>(n, order, rq). (client_key (clientAddress rq), n, 0)) (filter (\<lambda>(n, order, rq). writes rq) calls)"

lemma limiter_calls_Cons:
  "limiter_calls ((n, order, rq) # calls) =
     (if writes rq then [(client_key (clientAddress rq), n, 0)] else []) @ limiter_calls calls"
  by (simp add: limiter_calls_def)

lemma limited_step:
  assumes "limited s l" "rpc_ServeHTTP (E\<lparr>now := n\<rparr>) J order s rq = (s', ans)"
  obtains l' where "limited s' l'"
    "if writes rq then AllowWithLimit (peer_view l) (client_key (clientAddress rq)) n 0 = (peer_view l', let_through ans) else l' = l"
proof -
  obtain m ok where allow: "client_Allow l (clientAddress rq) n = (m, ok)" by fastforce
  have "0 < cl_limit l" "0 < cl_window l"
    using assms(1) by (simp_all add: limited_def DefaultRPCWriteLimit_def DefaultRPCWriteWindow_def Minute_def Second_def)
  note refines = client_Allow_refines [OF this, of "clientAddress rq" n]
  have "srv_limiter s = Some l" using assms(1) by (simp add: limited_def)
  from serve_limiter [OF assms(2) this] show ?thesis
    using that [of "if writes rq then m else l"] assms(1) client_Allow_params [OF allow] refines allow
    by (simp add: limited_def split: if_splits)
qed

lemma written_granted: "limited s l \<Longrightarrow> written key E J s calls = granted key (peer_view l) (limiter_calls calls)"
proof (induction calls arbitrary: s l)
  case (Cons c calls)
  obtain n order rq where c: "c = (n, order, rq)" by (cases c)
  obtain s' ans where serve: "rpc_ServeHTTP (E\<lparr>now := n\<rparr>) J order s rq = (s', ans)" by fastforce
  obtain l' where l': "limited s' l'"
    "if writes rq then AllowWithLimit (peer_view l) (client_key (clientAddress rq)) n 0 = (peer_view l', let_through ans) else l' = l"
    by (rule limited_step [OF Cons.prems serve])
  have "written key E J s (c # calls) =
      (if writes rq \<and> client_key (clientAddress rq) = key \<and> let_through ans then 1 else 0) + written key E J s' calls"
    by (simp add: written_def c serve)
  then show ?case using Cons.IH [OF l'(1)] l'(2)
    by (cases "writes rq") (simp_all add: c limiter_calls_Cons granted_def)
qed (simp add: written_def granted_def limiter_calls_def)

lemma limited_after:
  "limited s l \<Longrightarrow> \<exists>l'. limited (rpc_after E J s calls) l'
     \<and> peer_view l' = fold (\<lambda>(q, n, limit) l. fst (AllowWithLimit l q n limit)) (limiter_calls calls) (peer_view l)"
proof (induction calls arbitrary: s l)
  case (Cons c calls)
  obtain n order rq where c: "c = (n, order, rq)" by (cases c)
  obtain s' ans where serve: "rpc_ServeHTTP (E\<lparr>now := n\<rparr>) J order s rq = (s', ans)" by fastforce
  obtain l' where l': "limited s' l'"
    "if writes rq then AllowWithLimit (peer_view l) (client_key (clientAddress rq)) n 0 = (peer_view l', let_through ans) else l' = l"
    by (rule limited_step [OF Cons.prems serve])
  from Cons.IH [OF l'(1)] show ?case using l'(2)
    by (cases "writes rq") (simp_all add: c limiter_calls_Cons serve)
qed (auto simp: limiter_calls_def)

text \<open>
  C33: However requests are spread, at most 120 mutating requests that name one client address get past the write limit
  in any minute, whatever came before: twice the limit of 60, since the windows are fixed.
\<close>

theorem rpc_writes_bounded:
  assumes "\<forall>(n, order, rq) \<in> set calls. t \<le> n \<and> n < t + Minute"
  shows "written key E J (rpc_after E J (NewRPCServer bc engine) before) calls \<le> 120"
proof -
  have "limited (NewRPCServer bc engine) (newClientWindowLimiter DefaultRPCWriteLimit DefaultRPCWriteWindow)"
    by (simp add: limited_def NewRPCServer_def newClientWindowLimiter_def)
  from limited_after [OF this] obtain l where
    l: "limited (rpc_after E J (NewRPCServer bc engine) before) l"
      "peer_view l = fold (\<lambda>(q, n, limit) l. fst (AllowWithLimit l q n limit)) (limiter_calls before)
         (peer_view (newClientWindowLimiter DefaultRPCWriteLimit DefaultRPCWriteWindow))" by blast
  have "peer_view (newClientWindowLimiter DefaultRPCWriteLimit DefaultRPCWriteWindow)
      = newPeerWindowLimiter DefaultRPCWriteLimit DefaultRPCWriteWindow"
    by (simp add: peer_view_def newClientWindowLimiter_def newPeerWindowLimiter_def)
  moreover have "\<forall>(q, n, limit) \<in> set (limiter_calls calls). t \<le> n \<and> n < t + DefaultRPCWriteWindow"
    using assms by (auto simp: limiter_calls_def DefaultRPCWriteWindow_def)
  ultimately show ?thesis
    using limiter_bounds_any_period [of DefaultRPCWriteLimit DefaultRPCWriteWindow "limiter_calls calls" t key "limiter_calls before"]
    by (simp add: written_granted [OF l(1)] l(2) DefaultRPCWriteLimit_def DefaultRPCWriteWindow_def Minute_def Second_def)
qed

section \<open>Nonces by height\<close>

lemma hex_digits_mem: "c \<in> set (hex_digits n) \<Longrightarrow> \<exists>d < 16. c = hex_digit d"
proof (induction n rule: hex_digits.induct)
  case (1 n)
  show ?case
  proof (cases "n < 16")
    case True
    with 1(2) show ?thesis by (auto simp: hex_digits.simps [of n])
  next
    case False
    with 1(2) consider "c \<in> set (hex_digits (n div 16))" | "c = hex_digit (n mod 16)"
      by (auto simp: hex_digits.simps [of n])
    then show ?thesis using 1(1) [OF False] by cases (auto intro: exI [of _ "n mod 16"])
  qed
qed

lemma hex_digit_plain: "d < 16 \<Longrightarrow> lower_char (hex_digit d) = hex_digit d \<and> visible (hex_digit d) \<and> byte (hex_digit d) < 128"
proof -
  have "list_all (\<lambda>d. lower_char (hex_digit d) = hex_digit d \<and> visible (hex_digit d) \<and> byte (hex_digit d) < 128) [0..<16]"
    by code_simp
  then show "d < 16 \<Longrightarrow> lower_char (hex_digit d) = hex_digit d \<and> visible (hex_digit d) \<and> byte (hex_digit d) < 128"
    by (simp add: list_all_iff)
qed

lemma hex_number_append:
  "hex_number (xs @ [c]) v = (case hex_number xs v of None \<Rightarrow> None | Some w \<Rightarrow> map_option (\<lambda>d. 16 * w + d) (hex_value c))"
  by (induction xs arbitrary: v) (simp_all split: option.split)

lemma hex_number_digits [simp]: "hex_number (hex_digits n) 0 = Some n"
proof (induction n rule: hex_digits.induct)
  case (1 n)
  show ?case
  proof (cases "n < 16")
    case True
    then show ?thesis by (simp add: hex_digits.simps [of n] hex_value_digit)
  next
    case False
    then show ?thesis using 1 by (simp add: hex_digits.simps [of n] hex_number_append hex_value_digit)
  qed
qed

lemma hex_digits_nonempty [simp]: "hex_digits n \<noteq> []"
  by (simp add: hex_digits.simps [of n])

lemma hex_uint_plain: "ToLower E (hex_uint n) = hex_uint n" "TrimSpace (hex_uint n) = hex_uint n"
proof -
  have "lower_char c = c \<and> visible c \<and> byte c < 128" if "c \<in> set ''0x''" for c
    using that by (auto simp: lower_char_def visible_def byte_def)
  moreover have "set (hex_uint n) = set ''0x'' \<union> set (hex_digits (unat n))" by (simp add: hex_uint_def)
  ultimately have plain: "lower_char c = c \<and> visible c \<and> byte c < 128" if "c \<in> set (hex_uint n)" for c
    using that hex_digits_mem [of c "unat n"] hex_digit_plain by blast
  then show "ToLower E (hex_uint n) = hex_uint n"
    by (auto simp: ToLower_def is_ascii_def list_all_iff intro: map_idI)
  show "TrimSpace (hex_uint n) = hex_uint n"
    by (rule TrimSpace_visible) (use plain in \<open>auto simp: hex_uint_def\<close>)
qed

lemma stateForBlockRef_hex: "stateForBlockRef E bc (hex_uint n) = stateForBlockRef E bc (FormatUint n)"
proof -
  have "hex_uint n \<noteq> []" "hex_uint n \<noteq> ''latest''" "prefix ''0x'' (hex_uint n)" "TrimPrefix ''0x'' (hex_uint n) = hex_digits (unat n)"
    by (simp_all add: hex_uint_def TrimPrefix_def)
  moreover have "unat n < 18446744073709551616" using unsigned_less [of n] by simp
  ultimately have "stateForBlockRef E bc (hex_uint n) =
     (case GetBlockByNumber bc n of Inl e \<Rightarrow> Inl e | Inr block \<Rightarrow> getStateSnapshotLocked bc (blk_Hash block))"
    by (simp add: stateForBlockRef_def parseBlockReference_def hex_uint_plain ParseHexUint_def)
  then show ?thesis by (simp add: stateForBlockRef_number)
qed

text \<open>What clients send: a block number in a struct, an address and a block reference in a list.\<close>

definition block_request :: "u64 \<Rightarrow> rpcRequest" where
  "block_request n = \<lparr>rq_Method = ''ufi_getBlockByNumber'', rq_Params = Some (JvObj [(''number'', JvStr (FormatUint n))]), rq_ID = None\<rparr>"

definition count_request :: "string \<Rightarrow> string \<Rightarrow> rpcRequest" where
  "count_request address ref =
     \<lparr>rq_Method = ''eth_getTransactionCount'', rq_Params = Some (JvArr [JvStr address, JvStr ref]), rq_ID = None\<rparr>"

lemma one_string_object [simp]: "one_string E name (JvObj [(name, JvStr s)]) old = Inr s"
  by (simp add: one_string_def decode_struct_def field_for_def into_string_def)

lemma handle_block_request:
  "handle E J order s (block_request n) = (s, with_result (GetBlockByNumber (srv_Blockchain s) n) V_block)"
proof -
  have d: "list_all is_digit (FormatUint n)" by (simp add: FormatUint_def show_nat_digits)
  have "FormatUint n \<noteq> ''latest''" using d by (auto simp: is_digit_def byte_def)
  then have "parseBlockNumber E (FormatUint n) latest = Inr n" for latest
    using digits_plain [OF d] by (simp add: parseBlockNumber_def FormatUint_nonempty)
  then show ?thesis
    by (simp add: handle_def block_request_def read_method_def read_chain_def read_blocks_def decodeParams_def with_params_def)
qed

lemma handle_count_request:
  assumes "TrimSpace address \<noteq> []" "TrimSpace ref \<noteq> []"
  shows "handle E J order s (count_request address ref) =
    (s, with_result (resolveTransactionCount E s (TrimSpace address) (TrimSpace ref)) (\<lambda>n. V_json (JStr (hex_uint n))))"
  using assms
  by (simp add: handle_def count_request_def read_method_def read_chain_def decodeTransactionCountParams_def
      decode_count_sources_def into_string_def second_string_def with_params_def)

lemma resolve_hex: "resolveTransactionCount E s address (hex_uint n) = NonceAt E (srv_Blockchain s) address (hex_uint n)"
  by (simp add: resolveTransactionCount_def hex_uint_plain) (simp add: hex_uint_def)

text \<open>
  C13: The nonces a node reports for a past height are certified by the headers it reports: in every state a node can
  reach, a block request for a height up to the tip answers the canonical block of that number, and there is a state with
  the state root of its header whose nonces are the answers to \<open>eth_getTransactionCount\<close> at that height, for every
  address. A greater height is refused by both.
\<close>

theorem rpc_nonces_certified:
  assumes "OpenBlockchain E empty_store config balances = Some (Inr bc0)" and "(chain_step E)\<^sup>*\<^sup>* bc0 (srv_Blockchain s)"
    and "sha256_len E" and tip: "tip = hdr_Number (blk_Header (bc_latest (srv_Blockchain s)))"
  shows "(\<forall>n \<le> tip. \<exists>b st. handle E J order s (block_request n) = (s, Result (V_block b)) \<and> hdr_Number (blk_Header b) = n
      \<and> computeStateRoot E st = hdr_StateRoot (blk_Header b)
      \<and> (\<forall>address. TrimSpace address \<noteq> [] \<longrightarrow> handle E J order s (count_request address (hex_uint n))
            = (s, Result (V_json (JStr (hex_uint (fm_get (Nonces st) 0 (TrimSpace address))))))))
    \<and> (\<forall>n > tip. handle E J order s (block_request n) = (s, Refused (-32000) ErrBlockNotFound)
      \<and> (\<forall>address. TrimSpace address \<noteq> [] \<longrightarrow>
            handle E J order s (count_request address (hex_uint n)) = (s, Refused (-32000) ErrBlockNotFound)))"
proof (intro conjI allI impI)
  note heights = state_at_every_height [OF assms(1-3)]
  fix n assume "n \<le> tip"
  with heights obtain b st where b: "GetBlockByNumber (srv_Blockchain s) n = Inr b" "hdr_Number (blk_Header b) = n"
    "stateForBlockRef E (srv_Blockchain s) (FormatUint n) = Inr st" "computeStateRoot E st = hdr_StateRoot (blk_Header b)"
    using tip by blast
  have "handle E J order s (count_request address (hex_uint n))
      = (s, Result (V_json (JStr (hex_uint (fm_get (Nonces st) 0 (TrimSpace address))))))" if "TrimSpace address \<noteq> []" for address
  proof -
    have "TrimSpace (hex_uint n) \<noteq> []" by (simp add: hex_uint_plain) (simp add: hex_uint_def)
    then show ?thesis
      using that b(3) by (simp add: handle_count_request hex_uint_plain resolve_hex NonceAt_def stateForBlockRef_hex with_result_def)
  qed
  with b show "\<exists>b st. handle E J order s (block_request n) = (s, Result (V_block b)) \<and> hdr_Number (blk_Header b) = n
      \<and> computeStateRoot E st = hdr_StateRoot (blk_Header b)
      \<and> (\<forall>address. TrimSpace address \<noteq> [] \<longrightarrow> handle E J order s (count_request address (hex_uint n))
            = (s, Result (V_json (JStr (hex_uint (fm_get (Nonces st) 0 (TrimSpace address)))))))"
    by (auto simp: handle_block_request with_result_def)
next
  note heights = state_at_every_height [OF assms(1-3)]
  fix n assume above: "tip < n"
  then have "stateForBlockRef E (srv_Blockchain s) (FormatUint n) = Inl ErrBlockNotFound" using heights tip by blast
  then have none: "stateForBlockRef E (srv_Blockchain s) (hex_uint n) = Inl ErrBlockNotFound"
    by (simp add: stateForBlockRef_hex)
  have "chain_inv (blk_Hash (bc_latest bc0)) (srv_Blockchain s)"
    by (rule chain_reach_inv [OF _ assms(3)]) (use assms(1,2) in \<open>auto simp: chain_reach_def\<close>)
  then have "\<nexists>b. GetBlockByNumber (srv_Blockchain s) n = Inr b" using above tip by (simp add: level_reads not_le)
  moreover have "n \<noteq> hdr_Number (blk_Header (bc_latest (srv_Blockchain s)))" using above tip by simp
  ultimately have "GetBlockByNumber (srv_Blockchain s) n = Inl ErrBlockNotFound"
    by (simp add: GetBlockByNumber_def split: option.splits)
  then show "handle E J order s (block_request n) = (s, Refused (-32000) ErrBlockNotFound)"
    by (simp add: handle_block_request with_result_def rpcFailure_def)
  fix address assume "TrimSpace address \<noteq> []"
  moreover have "TrimSpace (hex_uint n) \<noteq> []" by (simp add: hex_uint_plain) (simp add: hex_uint_def)
  ultimately show "handle E J order s (count_request address (hex_uint n)) = (s, Refused (-32000) ErrBlockNotFound)"
    using none by (simp add: handle_count_request hex_uint_plain resolve_hex NonceAt_def with_result_def rpcFailure_def)
qed

section \<open>Submission\<close>

definition send_request :: "jv \<Rightarrow> rpcRequest" where
  "send_request v = \<lparr>rq_Method = ''ufi_sendTransaction'', rq_Params = Some v, rq_ID = None\<rparr>"

definition pending_request :: "string \<Rightarrow> rpcRequest" where
  "pending_request address =
     \<lparr>rq_Method = ''ufi_getPendingTransactions'', rq_Params = Some (JvObj [(''address'', JvStr address)]), rq_ID = None\<rparr>"

lemma accepted_sender:
  assumes "submitTransaction E e tx = (e', Inr h)"
  shows "TrimSpace (tx_From tx) \<noteq> []" "h = tx_Hash (normalizeTransaction E tx)"
proof -
  let ?x = "normalizeTransaction E tx"
  have "validatePendingTransaction E e ?x = Inr ()" and h: "h = tx_Hash ?x"
    using assms by (auto simp: submitTransaction_def Let_def split: if_splits sum.splits prod.splits)
  then obtain st st' a where applied: "apply_tx E (ArchitectAddress (the (eng_Blockchain e))) st ?x = Inr (st', a)"
    by (auto simp: validatePendingTransaction_def split: sum.splits)
  from applied obtain v where "check_transaction E st (normalizeTransaction E ?x) = Inr v" by (rule apply_tx_cases) blast
  then have "ValidateSignature E (normalizeTransaction E ?x) = Inr ()" by (rule check_transaction_Inr)
  then obtain b where "tx_From (normalizeTransaction E ?x) = Address_String E b" "wf_address b" by (rule ValidateSignature_From)
  then show "TrimSpace (tx_From tx) \<noteq> []" using wf_not_zero [of b] by (simp add: Address_String_def UFIPrefix_def split: if_splits)
  show "h = tx_Hash ?x" by (rule h)
qed

lemma resolve_pending:
  "srv_Engine s = Some e \<Longrightarrow> resolveTransactionCount E s address ''pending'' = PendingNonce E e address"
proof -
  have "TrimSpace ''pending'' = ''pending''" by (rule TrimSpace_visible) (simp add: visible_def byte_def)
  moreover have "ToLower E ''pending'' = ''pending''" by (simp add: ToLower_def is_ascii_def lower_char_def byte_def)
  ultimately show "srv_Engine s = Some e \<Longrightarrow> ?thesis" by (simp add: resolveTransactionCount_def)
qed

lemma handle_pending_count:
  assumes "TrimSpace address \<noteq> []" "srv_Engine s = Some e"
  shows "handle E J order s (count_request address ''pending'') =
    (s, with_result (PendingNonce E e (TrimSpace address)) (\<lambda>n. V_json (JStr (hex_uint n))))"
proof -
  have "TrimSpace ''pending'' = ''pending''" by (rule TrimSpace_visible) (simp add: visible_def byte_def)
  then show ?thesis using assms by (simp add: handle_count_request resolve_pending)
qed

lemma handle_pending_request:
  assumes "srv_Engine s = Some e"
  shows "handle E J order s (pending_request address) = (s, Result (V_transactions (PendingTransactions (Some e) address 0)))"
  using assms
  by (simp add: handle_def pending_request_def read_method_def pool_params_def pending_pool_fields_def decodeParams_def
      decode_struct_def field_for_def into_string_def with_params_def)

lemma handle_send_request:
  assumes "srv_Engine s = Some e" "into_transaction J v zero_Transaction = Some tx" "v \<noteq> JvNull" "\<nexists>vs. v = JvArr vs"
  shows "handle E J order s (send_request v) = submit_reply s (submitTransaction E e tx)"
proof -
  have "decodeParams (\<lambda>v tx. from_option err_json (into_transaction J v tx)) zero_Transaction (Some v) = Inr tx"
    using assms(2-4) by (cases v) (simp_all add: decodeParams_def from_option_def)
  with assms(1) show ?thesis by (simp add: handle_def send_request_def ufi_sendTransaction_def send_transaction_def)
qed

text \<open>
  C19: A client can pace itself by the answers of the node: when the server accepts a transaction it answers its hash; before
  that \<open>eth_getTransactionCount\<close> with \<open>pending\<close> reported the transaction's own nonce for its sender, afterwards it
  reports the next one, and the transaction is the last one the node lists as pending for the sender. The chain and the limiter are
  unchanged.
\<close>

theorem rpc_accepted_is_pending:
  assumes "srv_Engine s = Some e" and "eng_Blockchain e = Some bc" and "pool_inv (\<lambda>tx. tx) (eng_TxPool e)"
    and "unat (fm_get (Nonces (bc_state bc)) 0 (TrimSpace (tx_From tx))) + length (sender_work e (TrimSpace (tx_From tx))) < 2 ^ 64"
    and "into_transaction J v zero_Transaction = Some tx" "v \<noteq> JvNull" "\<nexists>vs. v = JvArr vs"
    and "hash_identifies (normalizeTransaction E tx) (pool_pending (eng_TxPool e))"
    and "handle E J order s (send_request v) = (s', Result reply)"
  shows "reply = V_json (JObj [(''hash'', JStr (tx_Hash (normalizeTransaction E tx)))])
    \<and> handle E J order s (count_request (tx_From tx) ''pending'') = (s, Result (V_json (JStr (hex_uint (tx_Nonce tx)))))
    \<and> handle E J order s' (count_request (tx_From tx) ''pending'') = (s', Result (V_json (JStr (hex_uint (tx_Nonce tx + 1)))))
    \<and> (\<exists>txs. handle E J order s' (pending_request (tx_From tx)) = (s', Result (V_transactions (txs @ [normalizeTransaction E tx]))))
    \<and> srv_Blockchain s' = srv_Blockchain s \<and> srv_limiter s' = srv_limiter s"
proof -
  obtain e' h where run: "submitTransaction E e tx = (e', Inr h)" "s' = s\<lparr>srv_Engine := Some e'\<rparr>"
    "reply = V_json (JObj [(''hash'', JStr h)])"
    using assms(9) unfolding handle_send_request [OF assms(1,5,6,7)]
    by (cases "submitTransaction E e tx") (auto simp: submit_reply_def with_result_def rpcFailure_def split: sum.splits if_splits)
  note sender = accepted_sender [OF run(1)]
  note effect = accepted_transfer [OF assms(2,3,4) run(1) assms(8)]
  have s': "srv_Engine s' = Some e'" using run(2) by simp
  have "PendingTransactions (Some e') (tx_From tx) 0
      = filter (\<lambda>x. tx_From x = TrimSpace (tx_From tx)) (pool_pending (eng_TxPool e)) @ [normalizeTransaction E tx]"
    using sender(1) effect
    by (simp add: PendingTransactions_def copy_limited_def effective_limit_def TxPool_PendingForSender_def pool_PendingForSender_def)
  then show ?thesis
    using sender effect run(2,3) handle_pending_count [OF sender(1) assms(1)] handle_pending_count [OF sender(1) s']
      handle_pending_request [OF s'] by (simp add: with_result_def)
qed


section \<open>The limit and the forwarded header\<close>

text \<open>
  The client address is what the header \<open>X-Forwarded-For\<close> says, and an address without a window is always admitted. So
  a client that invents a new name for each request is never limited.
\<close>

lemma clientAddress_forwarded:
  assumes "list_all (\<lambda>c. visible c \<and> c \<noteq> CHR '','') h" "h \<noteq> []"
  shows "clientAddress (rq\<lparr>hr_ForwardedFor := h\<rparr>) = h"
proof -
  have "TrimSpace h = h" by (rule TrimSpace_visible) (use assms in \<open>auto simp: list_all_iff\<close>)
  moreover have "split_char CHR '','' h = [h]" using assms(1) by (induction h) auto
  ultimately show ?thesis using assms(2) by (simp add: clientAddress_def)
qed

lemma new_name_admitted:
  assumes "srv_limiter s = Some l" "fmlookup (cl_clients l) (client_key (clientAddress rq)) = None"
  shows "snd (admit E s rq m)"
  using assms by (simp add: admit_def client_Allow_def Let_def client_key_def [symmetric] split: prod.split)

section \<open>Witnesses\<close>

definition toy_rpc_lib :: rpc_lib where
  "toy_rpc_lib = \<lparr>into_transaction = (\<lambda>v tx. if v = JvObj [] then Some (toy_tx TxTypeTransfer 1000 []) else None),
     into_request = (\<lambda>v r. None), unmarshal_transaction = (\<lambda>bs. None)\<rparr>"

definition toy_post :: http_request where
  "toy_post = \<lparr>hr_Method = ''POST'', hr_ForwardedFor = [], hr_RemoteAddr = ''10.0.0.1:5000'',
     hr_Body = BodyDecoded (send_request (JvObj [])) False\<rparr>"


theorem rpc_writes_bounded_witness:
  "written ''10.0.0.1'' toy_env toy_rpc_lib
     (rpc_after toy_env toy_rpc_lib (NewRPCServer toy_chain (Some toy_engine)) [(0, [], toy_post)]) [(5, [], toy_post), (9, [], toy_post)] \<le> 120"
  using rpc_writes_bounded [of "[(5, [], toy_post), (9, [], toy_post)]" 5 "''10.0.0.1''" toy_env toy_rpc_lib toy_chain
      "Some toy_engine" "[(0, [], toy_post)]"]
  by (simp add: Minute_def Second_def)

theorem rpc_nonces_certified_witness:
  "\<exists>s b st. hdr_Number (blk_Header (bc_latest (srv_Blockchain s))) = 1
     \<and> handle chain_env toy_rpc_lib [] s (block_request 0) = (s, Result (V_block b))
     \<and> computeStateRoot chain_env st = hdr_StateRoot (blk_Header b)
     \<and> handle chain_env toy_rpc_lib [] s (count_request ''a'' (hex_uint 0))
         = (s, Result (V_json (JStr (hex_uint (fm_get (Nonces st) 0 (TrimSpace ''a''))))))"
proof -
  obtain bc bc' where open0: "OpenBlockchain chain_env empty_store chain_config [] = Some (Inr bc)"
    and one: "hdr_Number (blk_Header (bc_latest bc')) = 1" and run: "(chain_step chain_env)\<^sup>*\<^sup>* bc bc'" by (rule chain_mines)
  define s where "s = NewRPCServer bc' None"
  have s: "srv_Blockchain s = bc'" by (simp add: s_def NewRPCServer_def)
  have "TrimSpace ''a'' \<noteq> []" by (subst TrimSpace_visible) (simp_all add: visible_def byte_def)
  with rpc_nonces_certified [OF open0 run [folded s] chain_env_sha refl, of toy_rpc_lib "[]", THEN conjunct1, rule_format, of 0]
  show ?thesis using one s by (intro exI [of _ s]) auto
qed

theorem rpc_accepted_is_pending_witness:
  "\<exists>s reply. handle toy_env toy_rpc_lib [] (NewRPCServer toy_chain (Some toy_engine)) (send_request (JvObj [])) = (s, Result reply)
     \<and> handle toy_env toy_rpc_lib [] s (count_request (tx_From (toy_tx TxTypeTransfer 1000 [])) ''pending'')
         = (s, Result (V_json (JStr (hex_uint 1))))"
proof -
  let ?s = "NewRPCServer toy_chain (Some toy_engine)" and ?tx = "toy_tx TxTypeTransfer 1000 []"
  obtain e' h where run: "submitTransaction toy_env toy_engine ?tx = (e', Inr h)" using toy_submitted by blast
  have server: "srv_Engine ?s = Some toy_engine" by (simp add: NewRPCServer_def)
  have lib: "into_transaction toy_rpc_lib (JvObj []) zero_Transaction = Some ?tx" by (simp add: toy_rpc_lib_def)
  have shape: "JvObj [] \<noteq> JvNull" "\<nexists>vs. JvObj [] = JvArr vs" by simp_all
  obtain s reply where send: "handle toy_env toy_rpc_lib [] ?s (send_request (JvObj [])) = (s, Result reply)"
    using handle_send_request [where E = toy_env and order = "[]", OF server lib shape] run
    by (simp add: submit_reply_def with_result_def)
  have inv: "pool_inv (\<lambda>tx. tx) (eng_TxPool toy_engine)" using new_pools_inv by simp
  have room: "unat (fm_get (Nonces (bc_state toy_chain)) 0 a) + length (sender_work toy_engine a) < 2 ^ 64" for a
    by (simp add: toy_state_def NewStateSnapshot_def fm_get_def)
  from rpc_accepted_is_pending [OF server toy_engine_simps(1) inv room lib shape _ send] send show ?thesis
    by (auto simp: NewTxPool_def hash_identifies_def)
qed

end
