(* ===== verification/Crawler.thy ===== *)
theory Crawler
  imports Consensus
begin

text \<open>
  The crawler of \<open>src/core/consensus/pouw.go\<close>: the limiter that bounds the crawls in progress, overall and per host, and
  the indexing of one page. A channel used as a semaphore is its capacity and the number of elements in it; waiting for a
  slot is a state of the crawl, in which its context may be cancelled. What the colly library fetches and parses is an
  argument.
\<close>

section \<open>Configuration\<close>

definition DefaultCrawlerTimeout :: int where "DefaultCrawlerTimeout = 10 * 10 ^ 9"
definition DefaultCrawlerMaxBodyBytes :: int where "DefaultCrawlerMaxBodyBytes = 4 * 2 ^ 20"
definition DefaultCrawlerMaxIdleConns :: int where "DefaultCrawlerMaxIdleConns = 128"
definition DefaultCrawlerMaxIdleConnsPerHost :: int where "DefaultCrawlerMaxIdleConnsPerHost = 16"
definition DefaultCrawlerMaxConnsPerHost :: int where "DefaultCrawlerMaxConnsPerHost = 32"
definition DefaultCrawlerIdleConnTimeout :: int where "DefaultCrawlerIdleConnTimeout = 90 * 10 ^ 9"

text \<open>The fields of an \<open>http.Transport\<close> that are set; \<open>base\<close> is the clone of the default transport.\<close>

record crawler_transport =
  tr_ResponseHeaderTimeout :: int
  tr_MaxIdleConns :: int
  tr_MaxIdleConnsPerHost :: int
  tr_MaxConnsPerHost :: int
  tr_IdleConnTimeout :: int

definition or_default :: "int \<Rightarrow> int \<Rightarrow> int" where
  "or_default v d = (if v \<le> 0 then d else v)"

definition NewCrawlerTransport :: "crawler_transport \<Rightarrow> int \<Rightarrow> int \<Rightarrow> int \<Rightarrow> int \<Rightarrow> int \<Rightarrow> crawler_transport" where
  "NewCrawlerTransport base requestTimeout maxIdleConns maxIdleConnsPerHost maxConnsPerHost idleConnTimeout =
     base\<lparr>tr_ResponseHeaderTimeout := (if 0 < requestTimeout then requestTimeout else tr_ResponseHeaderTimeout base),
          tr_MaxIdleConns := or_default maxIdleConns DefaultCrawlerMaxIdleConns,
          tr_MaxIdleConnsPerHost := or_default maxIdleConnsPerHost DefaultCrawlerMaxIdleConnsPerHost,
          tr_MaxConnsPerHost := or_default maxConnsPerHost DefaultCrawlerMaxConnsPerHost,
          tr_IdleConnTimeout := or_default idleConnTimeout DefaultCrawlerIdleConnTimeout\<rparr>"

section \<open>The limiter\<close>

text \<open>A nil channel of the limiter is \<open>None\<close>.\<close>

record slots =
  sl_capacity :: nat
  sl_taken :: nat

record CrawlLimiter =
  cl_globalSlots :: "slots option"
  cl_perHostLimit :: int
  cl_hostSlots :: "(string, slots) fmap"

definition make_slots :: "int \<Rightarrow> slots" where
  "make_slots limit = \<lparr>sl_capacity = nat limit, sl_taken = 0\<rparr>"

definition NewCrawlLimiter :: "int \<Rightarrow> int \<Rightarrow> CrawlLimiter option" where
  "NewCrawlLimiter globalLimit perHostLimit =
     (if globalLimit \<le> 0 \<and> perHostLimit \<le> 0 then None
      else Some \<lparr>cl_globalSlots = (if 0 < globalLimit then Some (make_slots globalLimit) else None),
                 cl_perHostLimit = perHostLimit, cl_hostSlots = fmempty\<rparr>)"

text \<open>A send on the channel, which blocks when it is full, and a receive.\<close>

definition send_slot :: "slots \<Rightarrow> slots option" where
  "send_slot c = (if sl_taken c < sl_capacity c then Some (c\<lparr>sl_taken := sl_taken c + 1\<rparr>) else None)"

definition receive_slot :: "slots \<Rightarrow> slots" where
  "receive_slot c = c\<lparr>sl_taken := sl_taken c - 1\<rparr>"

definition hostSlot :: "CrawlLimiter \<Rightarrow> string \<Rightarrow> CrawlLimiter \<times> slots" where
  "hostSlot l host =
     (case fmlookup (cl_hostSlots l) host of
        Some c \<Rightarrow> (l, c)
      | None \<Rightarrow> (let c = make_slots (cl_perHostLimit l) in (l\<lparr>cl_hostSlots := fmupd host c (cl_hostSlots l)\<rparr>, c)))"

text \<open>
  Where a crawl is in \<open>Acquire\<close>: before its global slot, before its host slot (holding a global slot if there are any),
  crawling with all its slots until it calls the release function, or over. The release function runs once.
\<close>

datatype crawl_phase = Wants_global string | Wants_host string | Crawling string | Over

definition host_limited :: "CrawlLimiter \<Rightarrow> string \<Rightarrow> bool" where
  "host_limited l host \<longleftrightarrow> 0 < cl_perHostLimit l \<and> host \<noteq> []"

definition after_global :: "CrawlLimiter \<Rightarrow> string \<Rightarrow> crawl_phase" where
  "after_global l host = (if host_limited l host then Wants_host host else Crawling host)"

definition acquire_start :: "env \<Rightarrow> CrawlLimiter \<Rightarrow> string \<Rightarrow> crawl_phase res" where
  "acquire_start E l rawURL =
     (case url_parse E rawURL of
        None \<Rightarrow> Inl (ErrLib ''url'')
      | Some parsed \<Rightarrow>
          (let host = ToLower E (url_hostname E parsed)
           in Inr (if cl_globalSlots l = None then after_global l host else Wants_global host)))"

definition release_global :: "CrawlLimiter \<Rightarrow> CrawlLimiter" where
  "release_global l = l\<lparr>cl_globalSlots := map_option receive_slot (cl_globalSlots l)\<rparr>"

definition release_host :: "CrawlLimiter \<Rightarrow> string \<Rightarrow> CrawlLimiter" where
  "release_host l host =
     (if host_limited l host
      then l\<lparr>cl_hostSlots := fmupd host (receive_slot (snd (hostSlot l host))) (cl_hostSlots (fst (hostSlot l host)))\<rparr>
      else l)"

text \<open>The steps of one crawl; \<open>None\<close> when it would block, or has no such step.\<close>

fun proceed :: "CrawlLimiter \<Rightarrow> crawl_phase \<Rightarrow> (CrawlLimiter \<times> crawl_phase) option" where
  "proceed l (Wants_global host) =
     (case cl_globalSlots l of
        None \<Rightarrow> None
      | Some c \<Rightarrow>
          (case send_slot c of
             None \<Rightarrow> None
           | Some c' \<Rightarrow> Some (l\<lparr>cl_globalSlots := Some c'\<rparr>, after_global l host)))"
| "proceed l (Wants_host host) =
     (case hostSlot l host of
        (l1, c) \<Rightarrow>
          (case send_slot c of
             None \<Rightarrow> None
           | Some c' \<Rightarrow> Some (l1\<lparr>cl_hostSlots := fmupd host c' (cl_hostSlots l1)\<rparr>, Crawling host)))"
| "proceed l (Crawling host) = Some (release_global (release_host l host), Over)"
| "proceed l Over = None"

fun cancel :: "CrawlLimiter \<Rightarrow> crawl_phase \<Rightarrow> (CrawlLimiter \<times> crawl_phase) option" where
  "cancel l (Wants_global host) = Some (l, Over)"
| "cancel l (Wants_host host) = Some (release_global (fst (hostSlot l host)), Over)"
| "cancel l (Crawling host) = None"
| "cancel l Over = None"

text \<open>The crawls that share a limiter, in any interleaving.\<close>

record crawls =
  cr_limiter :: CrawlLimiter
  cr_phases :: "crawl_phase list"

inductive crawls_step :: "env \<Rightarrow> crawls \<Rightarrow> crawls \<Rightarrow> bool" for E where
  begins: "acquire_start E (cr_limiter s) rawURL = Inr p \<Longrightarrow> crawls_step E s (s\<lparr>cr_phases := cr_phases s @ [p]\<rparr>)"
| proceeds: "i < length (cr_phases s) \<Longrightarrow> proceed (cr_limiter s) (cr_phases s ! i) = Some (l, p) \<Longrightarrow>
    crawls_step E s \<lparr>cr_limiter = l, cr_phases = (cr_phases s)[i := p]\<rparr>"
| cancelled: "i < length (cr_phases s) \<Longrightarrow> cancel (cr_limiter s) (cr_phases s ! i) = Some (l, p) \<Longrightarrow>
    crawls_step E s \<lparr>cr_limiter = l, cr_phases = (cr_phases s)[i := p]\<rparr>"

section \<open>Indexing a page\<close>

text \<open>\<open>strings.Fields\<close>: the maximal runs of bytes outside white space; \<open>cur\<close> is reversed.\<close>

function string_fields :: "string \<Rightarrow> string \<Rightarrow> string list" where
  "string_fields cur s =
     (let flush = (if cur = [] then [] else [rev cur]) in
      case s of
        [] \<Rightarrow> flush
      | c # rest \<Rightarrow>
          (let n = lead white_space s in
           if n = 0 then string_fields (c # cur) rest else flush @ string_fields [] (drop n s)))"
  by pat_completeness auto
termination by (relation "measure (\<lambda>(cur, s). length s)") auto

declare string_fields.simps [simp del]

definition collapseWhitespace :: "string \<Rightarrow> string" where
  "collapseWhitespace input = Join (string_fields [] (TrimSpace input)) '' ''"

text \<open>
  What a visit of the colly collector delivers: the response, the texts of the title and body elements and the
  absolute URLs of the links in the order of the document, an error reported to \<open>OnError\<close>, and the error \<open>Visit\<close> returns.
\<close>

record colly_visit =
  cv_Response :: "(int \<times> bytes) option"
  cv_Titles :: "string list"
  cv_Bodies :: "string list"
  cv_Hrefs :: "string list"
  cv_OnError :: "err option"
  cv_Visit :: "err option"

text \<open>The handlers for titles and bodies keep the first text that is not empty.\<close>

fun first_text :: "string \<Rightarrow> string list \<Rightarrow> string" where
  "first_text acc [] = acc"
| "first_text acc (t # ts) = first_text (if acc = [] then collapseWhitespace t else acc) ts"

definition crawl_error :: "colly_visit \<Rightarrow> err option" where
  "crawl_error v =
     (case cv_OnError v of
        Some e \<Rightarrow> Some e
      | None \<Rightarrow>
          (case cv_Response v of
             None \<Rightarrow> None
           | Some (status, _) \<Rightarrow>
               if 400 \<le> status then Some (ErrText (''consensus: crawl returned HTTP '' @ show_int status)) else None))"

text \<open>
  \<open>ctx_before\<close> and \<open>ctx_after\<close> are the errors of the context at the two places that read it, \<open>acquired\<close> the error of
  the limiter.
\<close>

definition CollyCrawler_Index ::
    "env \<Rightarrow> err option \<Rightarrow> err option \<Rightarrow> err option \<Rightarrow> (string \<Rightarrow> colly_visit) \<Rightarrow> crawler" where
  "CollyCrawler_Index E ctx_before acquired ctx_after visit task targetURL =
     (case ctx_before of Some e \<Rightarrow> Inl e | None \<Rightarrow>
     (case normalizeURL E targetURL of Inl e \<Rightarrow> Inl e | Inr target \<Rightarrow>
     (case acquired of Some e \<Rightarrow> Inl e | None \<Rightarrow>
        (let v = visit target in
         case cv_Visit v of Some e \<Rightarrow> Inl e | None \<Rightarrow>
        (case crawl_error v of Some e \<Rightarrow> Inl e | None \<Rightarrow>
        (case ctx_after of Some e \<Rightarrow> Inl e | None \<Rightarrow>
           (let title = first_text [] (cv_Titles v); body = first_text [] (cv_Bodies v) in
            if title = [] \<and> body = [] then Inl ErrNoIndexableResult
            else
              (let snippet = truncateRunes body 280
               in Inr \<lparr>page_URL = target, page_Title = title, page_Body = body,
                       page_Snippet = (if snippet = [] then truncateRunes title 280 else snippet),
                       page_OutboundLinks = uniqueStrings (filter (\<lambda>h. h \<noteq> []) (cv_Hrefs v)),
                       page_StatusCode = (case cv_Response v of None \<Rightarrow> 0 | Some (status, _) \<Rightarrow> status),
                       page_BodyBytes = (case cv_Response v of None \<Rightarrow> 0 | Some (_, bs) \<Rightarrow> of_nat (length bs)),
                       page_ContentHash = (case cv_Response v of None \<Rightarrow> [] | Some (_, bs) \<Rightarrow> hex_encode (sha256 E bs)),
                       page_QueryCoverage = QueryCoverage E (ct_Query task) (title @ '' '' @ body),
                       page_SimHash = SimHash E (title @ '' '' @ body), page_IndexedAt = now E\<rparr>))))))))"

section \<open>What the limiter guarantees\<close>

fun holds_global :: "crawl_phase \<Rightarrow> bool" where
  "holds_global (Wants_host host) = True"
| "holds_global (Crawling host) = True"
| "holds_global p = False"

definition in_phase :: "(crawl_phase \<Rightarrow> bool) \<Rightarrow> crawl_phase list \<Rightarrow> nat" where
  "in_phase P ps = length (filter P ps)"

definition phase_ok :: "int \<Rightarrow> int \<Rightarrow> crawl_phase \<Rightarrow> bool" where
  "phase_ok g h p \<longleftrightarrow> (case p of
       Wants_global host \<Rightarrow> 0 < g | Wants_host host \<Rightarrow> 0 < h \<and> host \<noteq> [] | _ \<Rightarrow> True)"

text \<open>The elements of each channel are the crawls that hold a slot of it.\<close>

definition crawls_ok :: "int \<Rightarrow> int \<Rightarrow> crawls \<Rightarrow> bool" where
  "crawls_ok g h s \<longleftrightarrow>
     cl_perHostLimit (cr_limiter s) = h
     \<and> (if 0 < g then cl_globalSlots (cr_limiter s) = Some \<lparr>sl_capacity = nat g, sl_taken = in_phase holds_global (cr_phases s)\<rparr>
          \<and> in_phase holds_global (cr_phases s) \<le> nat g
        else cl_globalSlots (cr_limiter s) = None)
     \<and> (\<forall>host. 0 < h \<and> host \<noteq> [] \<longrightarrow>
          snd (hostSlot (cr_limiter s) host) = \<lparr>sl_capacity = nat h, sl_taken = in_phase (\<lambda>p. p = Crawling host) (cr_phases s)\<rparr>
          \<and> in_phase (\<lambda>p. p = Crawling host) (cr_phases s) \<le> nat h)
     \<and> list_all (phase_ok g h) (cr_phases s)"

lemma filter_update:
  "i < length xs \<Longrightarrow> length (filter P (xs[i := y])) + (if P (xs ! i) then 1 else 0) = length (filter P xs) + (if P y then 1 else 0)"
proof (induction xs arbitrary: i)
  case (Cons x xs)
  then show ?case by (cases i) auto
qed simp

lemma in_phase_update:
  assumes "i < length (cr_phases s)" "cr_phases s ! i = q"
  shows "in_phase P ((cr_phases s)[i := p]) + (if P q then 1 else 0) = in_phase P (cr_phases s) + (if P p then 1 else 0)"
  using filter_update [OF assms(1), of P p] assms(2) by (simp add: in_phase_def)

lemma hostSlot_upd [simp]:
  "snd (hostSlot (l\<lparr>cl_hostSlots := fmupd host c (cl_hostSlots (fst (hostSlot l host0)))\<rparr>) host')
     = (if host' = host then c else snd (hostSlot (fst (hostSlot l host0)) host'))"
  by (auto simp: hostSlot_def Let_def split: option.split)

lemma hostSlot_upd_same [simp]:
  "snd (hostSlot (l\<lparr>cl_hostSlots := fmupd host c (cl_hostSlots l)\<rparr>) host') = (if host' = host then c else snd (hostSlot l host'))"
  by (auto simp: hostSlot_def Let_def split: option.split)

lemma hostSlot_fst [simp]:
  "snd (hostSlot (fst (hostSlot l host0)) host') = snd (hostSlot l host')"
  "cl_perHostLimit (fst (hostSlot l host0)) = cl_perHostLimit l" "cl_globalSlots (fst (hostSlot l host0)) = cl_globalSlots l"
  by (auto simp: hostSlot_def Let_def split: option.split)

lemma hostSlot_global [simp]: "snd (hostSlot (l\<lparr>cl_globalSlots := x\<rparr>) host) = snd (hostSlot l host)"
  by (auto simp: hostSlot_def Let_def split: option.split)

lemma crawls_okI:
  assumes "cl_perHostLimit (cr_limiter s) = h"
    and "if 0 < g then cl_globalSlots (cr_limiter s) = Some \<lparr>sl_capacity = nat g, sl_taken = in_phase holds_global (cr_phases s)\<rparr>
          \<and> in_phase holds_global (cr_phases s) \<le> nat g else cl_globalSlots (cr_limiter s) = None"
    and "\<And>host. 0 < h \<Longrightarrow> host \<noteq> [] \<Longrightarrow>
        snd (hostSlot (cr_limiter s) host) = \<lparr>sl_capacity = nat h, sl_taken = in_phase (\<lambda>p. p = Crawling host) (cr_phases s)\<rparr>
          \<and> in_phase (\<lambda>p. p = Crawling host) (cr_phases s) \<le> nat h"
    and "list_all (phase_ok g h) (cr_phases s)"
  shows "crawls_ok g h s"
  using assms by (simp add: crawls_ok_def)

lemmas crawls_okD = crawls_ok_def [THEN iffD1, THEN conjunct1] crawls_ok_def [THEN iffD1, THEN conjunct2, THEN conjunct1]
  crawls_ok_def [THEN iffD1, THEN conjunct2, THEN conjunct2, THEN conjunct1, rule_format, OF _ conjI]
  crawls_ok_def [THEN iffD1, THEN conjunct2, THEN conjunct2, THEN conjunct2]

lemma crawls_ok_step: "crawls_step E s s' \<Longrightarrow> crawls_ok g h s \<Longrightarrow> crawls_ok g h s'"
proof (induction rule: crawls_step.induct)
  case (begins s rawURL p)
  have "\<not> holds_global p \<and> (\<forall>host. p \<noteq> Crawling host)" if "0 < g"
    using that begins by (auto simp: acquire_start_def Let_def crawls_ok_def split: option.splits)
  moreover have "p \<noteq> Crawling host" if "0 < h" "host \<noteq> []" for host
    using that begins by (auto simp: acquire_start_def Let_def after_global_def host_limited_def crawls_ok_def split: option.splits if_splits)
  moreover have "phase_ok g h p"
    using begins by (auto simp: acquire_start_def Let_def after_global_def host_limited_def crawls_ok_def phase_ok_def split: option.splits if_splits)
  ultimately show ?case using begins(2) by (auto simp: crawls_ok_def in_phase_def)
next
  case (proceeds i s l p)
  have ok: "list_all (phase_ok g h) (cr_phases s)" "cl_perHostLimit (cr_limiter s) = h" using proceeds(3) by (simp_all add: crawls_ok_def)
  have here: "phase_ok g h (cr_phases s ! i)" using ok(1) proceeds(1) by (simp add: list_all_length)
  have others: "list_all (phase_ok g h) ((cr_phases s)[i := p])" if "phase_ok g h p"
    using ok(1) that by (auto simp: list_all_iff dest: set_update_subset_insert [THEN subsetD])
  show ?case
  proof (cases "cr_phases s ! i")
    case (Wants_global host)
    note count = in_phase_update [OF proceeds(1) Wants_global, of _ p]
    from here Wants_global have "0 < g" by (simp add: phase_ok_def)
    with proceeds(2,3) Wants_global have
      p: "p = after_global (cr_limiter s) host" "in_phase holds_global (cr_phases s) < nat g"
      and l: "l = (cr_limiter s)\<lparr>cl_globalSlots := Some \<lparr>sl_capacity = nat g, sl_taken = in_phase holds_global (cr_phases s) + 1\<rparr>\<rparr>"
      by (auto simp: crawls_ok_def send_slot_def split: if_splits)
    have "phase_ok g h p" "holds_global p" "\<And>x. p = Crawling x \<Longrightarrow> \<not> (0 < h \<and> x \<noteq> [])"
      by (auto simp: p after_global_def host_limited_def ok(2) phase_ok_def split: if_splits)
    with count [of holds_global] count [of "\<lambda>p. p = Crawling x" for x] proceeds(3) \<open>0 < g\<close> p(2) l others show ?thesis
      by (auto simp: crawls_ok_def)
  next
    case (Wants_host host)
    note count = in_phase_update [OF proceeds(1) Wants_host, of _ p]
    from here Wants_host have host: "0 < h" "host \<noteq> []" by (simp_all add: phase_ok_def)
    with proceeds(2,3) Wants_host have
      p: "p = Crawling host" "in_phase (\<lambda>p. p = Crawling host) (cr_phases s) < nat h"
      and l: "l = (fst (hostSlot (cr_limiter s) host))\<lparr>cl_hostSlots :=
          fmupd host \<lparr>sl_capacity = nat h, sl_taken = in_phase (\<lambda>p. p = Crawling host) (cr_phases s) + 1\<rparr>
            (cl_hostSlots (fst (hostSlot (cr_limiter s) host)))\<rparr>"
      by (auto simp: crawls_ok_def send_slot_def split: if_splits prod.splits)
    have G: "in_phase holds_global ((cr_phases s)[i := p]) = in_phase holds_global (cr_phases s)" using count [of holds_global] by (simp add: p)
    have H: "in_phase (\<lambda>p. p = Crawling x) ((cr_phases s)[i := p]) = in_phase (\<lambda>p. p = Crawling x) (cr_phases s) + (if x = host then 1 else 0)" for x
      using count [of "\<lambda>p. p = Crawling x"] by (auto simp: p)
    have "list_all (phase_ok g h) ((cr_phases s)[i := p])" using others by (simp add: p phase_ok_def)
    then show ?thesis
      using crawls_okD(1,2) [OF proceeds(3)] crawls_okD(3) [OF proceeds(3) host(1)] p(2) host
      by (intro crawls_okI) (simp_all add: G H l)
  next
    case (Crawling host)
    note count = in_phase_update [OF proceeds(1) Crawling, of _ p]
    have p: "p = Over" "l = release_global (release_host (cr_limiter s) host)" using proceeds(2) Crawling by auto
    have G: "in_phase holds_global (cr_phases s) = in_phase holds_global ((cr_phases s)[i := p]) + 1" using count [of holds_global] by (simp add: p)
    have H: "in_phase (\<lambda>p. p = Crawling x) (cr_phases s) = in_phase (\<lambda>p. p = Crawling x) ((cr_phases s)[i := p]) + (if x = host then 1 else 0)" for x
      using count [of "\<lambda>p. p = Crawling x"] by (auto simp: p)
    have "list_all (phase_ok g h) ((cr_phases s)[i := p])" using others by (simp add: p phase_ok_def)
    then show ?thesis
      using crawls_okD(1,2) [OF proceeds(3)] crawls_okD(3) [OF proceeds(3)]
      by (intro crawls_okI) (auto simp: G H p release_global_def release_host_def receive_slot_def host_limited_def
          split: if_splits dest: add_leD1)
  next
    case Over
    with proceeds(2) show ?thesis by simp
  qed
next
  case (cancelled i s l p)
  have ok: "list_all (phase_ok g h) (cr_phases s)" using cancelled(3) by (simp add: crawls_ok_def)
  have others: "list_all (phase_ok g h) ((cr_phases s)[i := Over])"
    using ok by (auto simp: list_all_iff phase_ok_def dest: set_update_subset_insert [THEN subsetD])
  show ?case
  proof (cases "cr_phases s ! i")
    case (Wants_global host)
    note count = in_phase_update [OF cancelled(1) Wants_global, of _ p]
    have p: "p = Over" "l = cr_limiter s" using cancelled(2) Wants_global by auto
    with count [of holds_global] count [of "\<lambda>p. p = Crawling x" for x] cancelled(3) others show ?thesis
      by (auto simp: crawls_ok_def)
  next
    case (Wants_host host)
    note count = in_phase_update [OF cancelled(1) Wants_host, of _ p]
    have p: "p = Over" "l = release_global (fst (hostSlot (cr_limiter s) host))" using cancelled(2) Wants_host by auto
    with count [of holds_global] count [of "\<lambda>p. p = Crawling x" for x] cancelled(3) others show ?thesis
      by (auto simp: crawls_ok_def release_global_def receive_slot_def)
  qed (use cancelled(2) in auto)
qed


text \<open>
  C24: The limits hold in every interleaving of crawls that share a limiter, and no slot is lost: never more than the global
  limit of crawls hold a global slot, never more than the limit per host crawl one host; when all crawls are over every
  slot is free again; and as long as one is not over, some crawl can proceed (no deadlock).
\<close>

theorem crawl_limits_hold:
  assumes "NewCrawlLimiter g h = Some l" and "(crawls_step E)\<^sup>*\<^sup>* \<lparr>cr_limiter = l, cr_phases = []\<rparr> s"
  shows "(0 < g \<longrightarrow> length (filter holds_global (cr_phases s)) \<le> nat g)
    \<and> (\<forall>host. 0 < h \<and> host \<noteq> [] \<longrightarrow> length (filter (\<lambda>p. p = Crawling host) (cr_phases s)) \<le> nat h)
    \<and> (set (cr_phases s) \<subseteq> {Over} \<longrightarrow> cl_globalSlots (cr_limiter s) = cl_globalSlots l
        \<and> (\<forall>host. 0 < h \<and> host \<noteq> [] \<longrightarrow> sl_taken (snd (hostSlot (cr_limiter s) host)) = 0))
    \<and> (\<not> set (cr_phases s) \<subseteq> {Over} \<longrightarrow> (\<exists>p \<in> set (cr_phases s). proceed (cr_limiter s) p \<noteq> None))"
proof -
  have l: "l = \<lparr>cl_globalSlots = (if 0 < g then Some (make_slots g) else None), cl_perHostLimit = h, cl_hostSlots = fmempty\<rparr>"
    using assms(1) by (simp add: NewCrawlLimiter_def split: if_splits)
  have "crawls_ok g h \<lparr>cr_limiter = l, cr_phases = []\<rparr>"
    by (intro crawls_okI) (simp_all add: l in_phase_def make_slots_def hostSlot_def Let_def)
  with assms(2) have ok: "crawls_ok g h s" by (induction rule: rtranclp_induct) (auto intro: crawls_ok_step)
  note D = crawls_okD(1,2,4) [OF ok] crawls_okD(3) [OF ok]
  have none: "in_phase P (cr_phases s) = 0" if "\<And>p. p \<in> set (cr_phases s) \<Longrightarrow> \<not> P p" for P
    using that by (simp add: in_phase_def)
  have "\<exists>p \<in> set (cr_phases s). proceed (cr_limiter s) p \<noteq> None" if "\<not> set (cr_phases s) \<subseteq> {Over}"
  proof -
    consider host where "Crawling host \<in> set (cr_phases s)"
      | host where "Wants_host host \<in> set (cr_phases s)" "\<And>x. Crawling x \<notin> set (cr_phases s)"
      | host where "Wants_global host \<in> set (cr_phases s)" "\<And>p. p \<in> set (cr_phases s) \<Longrightarrow> \<not> holds_global p"
    proof -
      obtain p where p: "p \<in> set (cr_phases s)" "p \<noteq> Over" using \<open>\<not> set (cr_phases s) \<subseteq> {Over}\<close> by blast
      show thesis
      proof (cases "\<exists>q \<in> set (cr_phases s). holds_global q")
        case True
        then show ?thesis using that(1,2) by (metis holds_global.elims(2))
      next
        case False
        then have "\<not> holds_global p" using p(1) by blast
        with p(2) obtain host where "p = Wants_global host" by (cases p) auto
        then show ?thesis using that(3) [of host] p(1) False by blast
      qed
    qed
    then show ?thesis
    proof cases
      case (1 host)
      then show ?thesis by (intro bexI [of _ "Crawling host"]) simp_all
    next
      case (2 host)
      then have "0 < h" "host \<noteq> []" using D(3) by (auto simp: list_all_iff phase_ok_def)
      moreover have "in_phase (\<lambda>p. p = Crawling host) (cr_phases s) = 0" using 2(2) by (intro none) auto
      ultimately have "proceed (cr_limiter s) (Wants_host host) \<noteq> None"
        using D(4) [of host] by (auto simp: send_slot_def split: prod.split)
      with 2(1) show ?thesis by blast
    next
      case (3 host)
      then have "0 < g" using D(3) by (auto simp: list_all_iff phase_ok_def)
      with D(2) none [OF 3(2)] have "proceed (cr_limiter s) (Wants_global host) \<noteq> None" by (simp add: send_slot_def)
      with 3(1) show ?thesis by blast
    qed
  qed
  moreover have "cl_globalSlots (cr_limiter s) = cl_globalSlots l
      \<and> (\<forall>host. 0 < h \<and> host \<noteq> [] \<longrightarrow> sl_taken (snd (hostSlot (cr_limiter s) host)) = 0)" if "set (cr_phases s) \<subseteq> {Over}"
  proof -
    have "in_phase P (cr_phases s) = 0" if "\<not> P Over" for P using \<open>set (cr_phases s) \<subseteq> {Over}\<close> that by (intro none) auto
    then show ?thesis using D(2,4) by (simp add: l make_slots_def split: if_splits)
  qed
  ultimately show ?thesis using D(2,4) by (auto simp: in_phase_def split: if_splits)
qed


text \<open>
  A crawl takes its global slot before it waits for its host, so crawls that wait for a busy host keep the others out: with two
  slots and one per host, two crawls of one host stop a crawl of another, though only one page is being fetched.
\<close>

definition toy_limiter :: CrawlLimiter where
  "toy_limiter = \<lparr>cl_globalSlots = Some \<lparr>sl_capacity = 2, sl_taken = 0\<rparr>, cl_perHostLimit = 1, cl_hostSlots = fmempty\<rparr>"

lemma toy_limiter_new: "NewCrawlLimiter 2 1 = Some toy_limiter"
  by (simp add: NewCrawlLimiter_def toy_limiter_def make_slots_def)

definition host_busy :: crawls where
  "host_busy = \<lparr>cr_limiter = \<lparr>cl_globalSlots = Some \<lparr>sl_capacity = 2, sl_taken = 2\<rparr>, cl_perHostLimit = 1,
       cl_hostSlots = fmupd ''a'' \<lparr>sl_capacity = 1, sl_taken = 1\<rparr> fmempty\<rparr>,
     cr_phases = [Crawling ''a'', Wants_host ''a'', Wants_global ''b'']\<rparr>"

definition url_env :: env where
  "url_env = toy_env\<lparr>url_parse := (\<lambda>s. Some \<lparr>Scheme = [], Host = s, Path = [], RawQuery = [], Fragment = [], url_rest = []\<rparr>),
     url_hostname := Host\<rparr>"

lemma crawl_begins: "acquire_start url_env (cr_limiter s) h = Inr p \<Longrightarrow> s' = s\<lparr>cr_phases := cr_phases s @ [p]\<rparr> \<Longrightarrow> crawls_step url_env s s'"
  by (auto intro: crawls_step.begins)

lemma crawl_proceeds:
  "i < length (cr_phases s) \<Longrightarrow> proceed (cr_limiter s) (cr_phases s ! i) = Some (l, p) \<Longrightarrow>
   s' = \<lparr>cr_limiter = l, cr_phases = (cr_phases s)[i := p]\<rparr> \<Longrightarrow> crawls_step E s s'"
  by (auto intro: crawls_step.proceeds)

lemma busy_host_starves_others:
  "(crawls_step url_env)\<^sup>*\<^sup>* \<lparr>cr_limiter = toy_limiter, cr_phases = []\<rparr> host_busy"
  "proceed (cr_limiter host_busy) (Wants_global ''b'') = None"
  "length (filter (\<lambda>p. \<exists>h. p = Crawling h) (cr_phases host_busy)) = 1"
proof -
  have starts: "acquire_start url_env (cr_limiter s) h = Inr (Wants_global h)" if "cl_globalSlots (cr_limiter s) \<noteq> None" "h \<in> {''a'', ''b''}" for s h
    using that by (auto simp: acquire_start_def url_env_def ToLower_def is_ascii_def lower_char_def byte_def)
  let ?s = "\<lambda>gl hosts ps. \<lparr>cr_limiter = \<lparr>cl_globalSlots = Some \<lparr>sl_capacity = 2, sl_taken = gl\<rparr>, cl_perHostLimit = 1, cl_hostSlots = hosts\<rparr>,
     cr_phases = ps\<rparr>"
  let ?a = "Wants_global ''a''" and ?b = "Wants_global ''b''" and ?w = "Wants_host ''a''"
  have "crawls_step url_env (?s 0 fmempty []) (?s 0 fmempty [?a])" by (rule crawl_begins [OF starts]) simp_all
  moreover have "crawls_step url_env (?s 0 fmempty [?a]) (?s 0 fmempty [?a, ?a])" by (rule crawl_begins [OF starts]) simp_all
  moreover have "crawls_step url_env (?s 0 fmempty [?a, ?a]) (?s 0 fmempty [?a, ?a, ?b])" by (rule crawl_begins [OF starts]) simp_all
  moreover have "crawls_step url_env (?s 0 fmempty [?a, ?a, ?b]) (?s 1 fmempty [?w, ?a, ?b])"
    by (rule crawl_proceeds [of 0]) (simp_all add: send_slot_def after_global_def host_limited_def)
  moreover have "crawls_step url_env (?s 1 fmempty [?w, ?a, ?b]) (?s 2 fmempty [?w, ?w, ?b])"
    by (rule crawl_proceeds [of 1]) (simp_all add: send_slot_def after_global_def host_limited_def)
  moreover have "crawls_step url_env (?s 2 fmempty [?w, ?w, ?b]) host_busy"
    by (rule crawl_proceeds [of 0]) (simp_all add: send_slot_def hostSlot_def make_slots_def host_busy_def Let_def)
  ultimately show "(crawls_step url_env)\<^sup>*\<^sup>* \<lparr>cr_limiter = toy_limiter, cr_phases = []\<rparr> host_busy"
    unfolding toy_limiter_def by (meson converse_rtranclp_into_rtranclp rtranclp.rtrancl_refl)
  show "proceed (cr_limiter host_busy) (Wants_global ''b'') = None"
    "length (filter (\<lambda>p. \<exists>h. p = Crawling h) (cr_phases host_busy)) = 1"
    by (simp_all add: host_busy_def send_slot_def)
qed

theorem crawl_limits_hold_witness:
  "length (filter holds_global (cr_phases host_busy)) \<le> 2 \<and> (\<exists>p \<in> set (cr_phases host_busy). proceed (cr_limiter host_busy) p \<noteq> None)"
  using crawl_limits_hold [OF toy_limiter_new busy_host_starves_others(1)] by (auto simp: host_busy_def)


section \<open>What indexing guarantees\<close>

text \<open>
  Two nodes that fetch the same page for one task index the same page, up to the time: the fingerprints they compare do not depend
  on the node, its context or its limiter.
\<close>

lemma index_deterministic:
  assumes "CollyCrawler_Index E b1 a1 c1 visit task url = Inr p" and "CollyCrawler_Index (E\<lparr>now := n\<rparr>) b2 a2 c2 visit task url = Inr q"
    and "\<And>u. normalizeURL (E\<lparr>now := n\<rparr>) u = normalizeURL E u" and "\<And>x y. QueryCoverage (E\<lparr>now := n\<rparr>) x y = QueryCoverage E x y"
    and "\<And>x. SimHash (E\<lparr>now := n\<rparr>) x = SimHash E x"
  shows "q = p\<lparr>page_IndexedAt := n\<rparr>"
  using assms by (auto simp: CollyCrawler_Index_def Let_def split: option.splits sum.splits if_splits)

end
