(* ===== verification/Seeding.thy ===== *)
theory Seeding
  imports Queries_Laws Reputation State_Codec Engine
begin

text \<open>
  The tool that seeds a node with search tasks (\<open>src/scripts/seed_urls/main.go\<close>): it reads a list of URLs, has each
  task quoted, checks the balance of the sender and submits one signed transaction per task, at most a batch ahead of the
  mined ones. The flags, the environment and the answers of the node are arguments; a fatal error ends the tool with
  its message.
\<close>

section \<open>Amounts\<close>

definition seedUFDScale :: int where
  "seedUFDScale = uint BasisPoints"

text \<open>\<open>strings.SplitN(s, ".", 2)\<close>: the text before the first point, and the rest if there is one.\<close>

definition split_point :: "string \<Rightarrow> string \<times> string option" where
  "split_point s =
     (let whole = takeWhile (\<lambda>c. c \<noteq> CHR ''.'') s
      in (whole, if CHR ''.'' \<in> set s then Some (drop (length whole + 1) s) else None))"

definition parseSeedUFDAmount :: "string \<Rightarrow> int res" where
  "parseSeedUFDAmount v =
     (let cleaned = TrimSpace v in
      if cleaned = [] then Inl (ErrText ''empty UFD amount'')
      else if prefix ''-'' cleaned then Inl (ErrText (''negative UFD amount: '' @ v))
      else
        (let (whole_text, fraction_text) = split_point cleaned in
         case SetString whole_text of
           None \<Rightarrow> Inl (ErrText (''invalid UFD amount: '' @ v))
         | Some whole \<Rightarrow>
             (case fraction_text of
                None \<Rightarrow> Inr (whole * seedUFDScale)
              | Some fraction \<Rightarrow>
                  if 4 < length fraction then Inl (ErrText (''UFD amount supports at most 4 decimal places: '' @ v))
                  else
                    (case SetString (fraction @ replicate (4 - length fraction) CHR ''0'') of
                       None \<Rightarrow> Inl (ErrText (''invalid UFD amount: '' @ v))
                     | Some fractionValue \<Rightarrow> Inr (whole * seedUFDScale + fractionValue)))))"

definition leftPadSeed :: "string \<Rightarrow> nat \<Rightarrow> string" where
  "leftPadSeed v width = (if width \<le> length v then v else replicate (width - length v) CHR ''0'' @ v)"

definition formatSeedUFDAmount :: "int option \<Rightarrow> string" where
  "formatSeedUFDAmount v =
     (case v of
        None \<Rightarrow> ''0.0000''
      | Some amount0 \<Rightarrow>
          (let sign = (if amount0 < 0 then ''-'' else []); amount = \<bar>amount0\<bar>
           in sign @ show_int (amount div seedUFDScale) @ ''.'' @ leftPadSeed (show_int (amount mod seedUFDScale)) 4))"

section \<open>Settings\<close>

text \<open>The environment is given by the value of the variable (empty when it is not set).\<close>

definition seed_envOrDefault :: "string \<Rightarrow> string \<Rightarrow> string" where
  "seed_envOrDefault v fallback = (if TrimSpace v = [] then fallback else TrimSpace v)"

definition envOrDefaultBool :: "env \<Rightarrow> string \<Rightarrow> bool \<Rightarrow> bool" where
  "envOrDefaultBool E v fallback =
     (let w = TrimSpace (ToLower E v) in
      if w = [] then fallback
      else if w \<in> {''1'', ''true'', ''yes'', ''on''} then True
      else if w \<in> {''0'', ''false'', ''no'', ''off''} then False
      else fallback)"

text \<open>A number is reduced to its low 64 bits, as \<open>big.Int.Uint64\<close> does.\<close>

definition parseSeedUint :: "string \<Rightarrow> u64 res" where
  "parseSeedUint v =
     (case SetString (TrimSpace v) of
        None \<Rightarrow> Inl (ErrText ''invalid unsigned integer'')
      | Some n \<Rightarrow> if n < 0 then Inl (ErrText ''invalid unsigned integer'') else Inr (of_int n))"

definition parseSeedInt :: "string \<Rightarrow> int res" where
  "parseSeedInt v = (case parseSeedUint v of Inl e \<Rightarrow> Inl e | Inr n \<Rightarrow> Inr (sint n))"

definition envOrDefaultInt :: "string \<Rightarrow> int \<Rightarrow> int" where
  "envOrDefaultInt v fallback =
     (if TrimSpace v = [] then fallback else (case parseSeedInt (TrimSpace v) of Inl _ \<Rightarrow> fallback | Inr n \<Rightarrow> n))"

definition envOrDefaultUint64 :: "string \<Rightarrow> u64 \<Rightarrow> u64" where
  "envOrDefaultUint64 v fallback =
     (if TrimSpace v = [] then fallback else (case parseSeedUint (TrimSpace v) of Inl _ \<Rightarrow> fallback | Inr n \<Rightarrow> n))"

definition seedKeyFromEnv :: "string list \<Rightarrow> string" where
  "seedKeyFromEnv values =
     (case find (\<lambda>v. TrimSpace v \<noteq> []) values of None \<Rightarrow> [] | Some v \<Rightarrow> TrimSpace v)"

text \<open>A private key from its seed, or as it is. \<open>base64\<close> decodes the standard encoding.\<close>

datatype seed_key = Key_of_seed bytes | Key bytes

definition parseSeedKey :: "(string \<Rightarrow> bytes option) \<Rightarrow> string \<Rightarrow> seed_key res" where
  "parseSeedKey base64 raw =
     (let cleaned = TrimSpace raw in
      if cleaned = [] then Inl (ErrText ''UFI_SEED_KEY, UFI_OPERATOR_KEY, or UFI_ARCHITECT_KEY is required'')
      else
        (case (case hex_decode (TrimPrefix ''0x'' cleaned) of Some bs \<Rightarrow> Some bs | None \<Rightarrow> base64 cleaned) of
           None \<Rightarrow> Inl (ErrText ''seed key must be hex or base64 encoded'')
         | Some bs \<Rightarrow>
             if length bs = 32 then Inr (Key_of_seed bs)
             else if length bs = 64 then Inr (Key bs)
             else Inl (ErrText ''seed key must decode to 32-byte seed or 64-byte private key'')))"

text \<open>The node's endpoints: the RPC URL and the base for quotes.\<close>

definition TrimRight_slash :: "string \<Rightarrow> string" where
  "TrimRight_slash s = rev (dropWhile (\<lambda>c. c = CHR ''/'') (rev s))"

definition newSeedRPCClient :: "env \<Rightarrow> string \<Rightarrow> (string \<times> string) res" where
  "newSeedRPCClient E raw =
     (let cleaned = (if TrimSpace raw = [] then ''http://localhost:3337'' else TrimSpace raw) in
      case url_parse E cleaned of
        None \<Rightarrow> Inl (ErrLib ''url'')
      | Some parsed \<Rightarrow>
          if Scheme parsed = [] then Inl (ErrText (''rpc url must include scheme, got '' @ raw))
          else
            (let base = TrimRight_slash (Scheme parsed @ ''://'' @ Host parsed);
                 rpcPath = TrimRight_slash (Path parsed) in
             if rpcPath = [] \<or> rpcPath = ''/'' \<or> rpcPath = ''/rpc'' then Inr (base @ ''/rpc'', base)
             else Inr (cleaned, TrimRight_slash cleaned)))"

section \<open>The list of URLs\<close>

record seedFileEntry =
  se_URL :: string
  se_Query :: string

text \<open>\<open>csv\<close> is one record read by \<open>encoding/csv\<close>.\<close>

definition parseSeedLine :: "(string \<Rightarrow> string list res) \<Rightarrow> string \<Rightarrow> string \<Rightarrow> seedFileEntry res" where
  "parseSeedLine csv raw defaultQuery =
     (if Contains raw '','' then
        (case csv raw of
           Inl e \<Rightarrow> Inl e
         | Inr [] \<Rightarrow> Inl (ErrText ''missing url'')
         | Inr (f # fs) \<Rightarrow>
             (let query = (case fs of
                    [] \<Rightarrow> TrimSpace defaultQuery
                  | q # _ \<Rightarrow> if TrimSpace q \<noteq> [] then TrimSpace q else TrimSpace defaultQuery)
              in if TrimSpace f = [] then Inl (ErrText ''missing url'') else Inr \<lparr>se_URL = TrimSpace f, se_Query = query\<rparr>))
      else Inr \<lparr>se_URL = raw, se_Query = TrimSpace defaultQuery\<rparr>)"

text \<open>The lines the scanner yields; it may end with an error.\<close>

fun loadSeedFile :: "(string \<Rightarrow> string list res) \<Rightarrow> string \<Rightarrow> string list \<Rightarrow> err option \<Rightarrow> seedFileEntry list res" where
  "loadSeedFile csv defaultQuery [] scan = (case scan of None \<Rightarrow> Inr [] | Some e \<Rightarrow> Inl e)"
| "loadSeedFile csv defaultQuery (line # lines) scan =
     (let raw = TrimSpace line in
      if raw = [] \<or> prefix ''#'' raw then loadSeedFile csv defaultQuery lines scan
      else
        (case parseSeedLine csv raw defaultQuery of
           Inl e \<Rightarrow> Inl e
         | Inr entry \<Rightarrow>
             (case loadSeedFile csv defaultQuery lines scan of Inl e \<Rightarrow> Inl e | Inr entries \<Rightarrow> Inr (entry # entries))))"

text \<open>The preflight keeps the URLs that answer with a status below 400. \<open>fetch\<close> is one request of a URL.\<close>

definition preflight_ok :: "int res \<Rightarrow> bool" where
  "preflight_ok answer = (case answer of Inl _ \<Rightarrow> False | Inr status \<Rightarrow> status < 400)"

definition filterSeedEntries :: "bool \<Rightarrow> (string \<Rightarrow> int res) \<Rightarrow> seedFileEntry list \<Rightarrow> seedFileEntry list \<times> nat" where
  "filterSeedEntries enabled fetch entries =
     (if \<not> enabled then (entries, 0)
      else
        (let kept = filter (\<lambda>e. preflight_ok (fetch (TrimSpace (se_URL e)))) entries
         in (kept, length entries - length kept)))"

section \<open>The plan\<close>

record seedQuoteResponse =
  sqr_Query :: string
  sqr_URL :: string
  sqr_MultiplierBPS :: u64
  sqr_AdjustedDifficulty :: u64
  sqr_AdjustedBounty :: string
  sqr_ArchitectFee :: string
  sqr_MinerReward :: string
  sqr_PrioritySectors :: "string list"

record seedPlanItem =
  sp_Entry :: seedFileEntry
  sp_Quote :: seedQuoteResponse

record seed_settings =
  ss_address :: string
  ss_baseBounty :: int
  ss_difficulty :: u64
  ss_dataVolumeBytes :: u64
  ss_batchSize :: int
  ss_pub :: bytes
  ss_sign :: "bytes \<Rightarrow> bytes"

definition seed_request :: "seed_settings \<Rightarrow> seedFileEntry \<Rightarrow> SearchTaskRequest" where
  "seed_request c entry =
     \<lparr>req_Query = se_Query entry, req_URL = se_URL entry, req_BaseBounty = show_int (ss_baseBounty c),
      req_Difficulty = ss_difficulty c, req_DataVolumeBytes = ss_dataVolumeBytes c\<rparr>"

record seed_totals =
  to_Required :: int
  to_ArchitectFee :: int
  to_MinerReward :: int

text \<open>Each task is quoted by the node (\<open>quote\<close>); the quoted amounts must be decimal numbers.\<close>

fun seed_plan ::
    "(SearchTaskRequest \<Rightarrow> seedQuoteResponse res) \<Rightarrow> seed_settings \<Rightarrow> seedFileEntry list \<Rightarrow> seedPlanItem list \<Rightarrow> seed_totals
     \<Rightarrow> (seedPlanItem list \<times> seed_totals) res" where
  "seed_plan quote c [] plan totals = Inr (plan, totals)"
| "seed_plan quote c (entry # entries) plan totals =
     (case quote (seed_request c entry) of
        Inl e \<Rightarrow> Inl e
      | Inr q \<Rightarrow>
          (case SetString (TrimSpace (sqr_AdjustedBounty q)) of
             None \<Rightarrow> Inl (ErrText ''invalid adjusted bounty'')
           | Some adjustedBounty \<Rightarrow>
          (case SetString (TrimSpace (sqr_ArchitectFee q)) of
             None \<Rightarrow> Inl (ErrText ''invalid architect fee'')
           | Some architectFee \<Rightarrow>
          (case SetString (TrimSpace (sqr_MinerReward q)) of
             None \<Rightarrow> Inl (ErrText ''invalid miner reward'')
           | Some minerReward \<Rightarrow>
               seed_plan quote c entries (plan @ [\<lparr>sp_Entry = entry, sp_Quote = q\<rparr>])
                 \<lparr>to_Required = to_Required totals + adjustedBounty, to_ArchitectFee = to_ArchitectFee totals + architectFee,
                  to_MinerReward = to_MinerReward totals + minerReward\<rparr>))))"

definition seed_transaction :: "env \<Rightarrow> seed_settings \<Rightarrow> seedPlanItem \<Rightarrow> u64 \<Rightarrow> Transaction" where
  "seed_transaction E c item nonce =
     Sign E (ss_pub c) (ss_sign c) \<lparr>tx_Hash = [], tx_Type = TxTypeSearchTask, tx_From = ss_address c, tx_To = [],
       tx_Value = sqr_AdjustedBounty (sp_Quote item), tx_Nonce = nonce, tx_Timestamp = 0,
       tx_Data = json_marshal E (request_json (seed_request c (sp_Entry item))), tx_PublicKey = [], tx_Signature = []\<rparr>"

section \<open>Submission\<close>

text \<open>An error of a call: its message, and whether it is \<open>io.EOF\<close>.\<close>

datatype seed_error = SeedError string bool

fun isTransientSeedError :: "env \<Rightarrow> seed_error \<Rightarrow> bool" where
  "isTransientSeedError E (SeedError message eof) =
     (list_ex (\<lambda>fragment. Contains (ToLower E message) fragment)
        [''sender pending limit reached'', ''mempool is full'', ''invalid nonce'', ''rate limit exceeded''] \<or> eof)"

text \<open>The answers of one round of the main loop; the loop sends at most as many transactions as it has answers for; each is signed at
  the time given with its answer.\<close>

record seed_round =
  rd_latest :: "seed_error + u64"
  rd_pending :: "seed_error + u64"
  rd_sends :: "(time \<times> (seed_error + string)) list"

record seed_progress =
  pg_nextNonce :: u64
  pg_nextIndex :: nat
  pg_tried :: "Transaction list"
  pg_accepted :: "Transaction list"

text \<open>A loop goes on, ends the tool, or is waiting for an answer that has not come.\<close>

datatype seed_outcome = Go_on seed_progress | Fatal seed_progress | Unanswered seed_progress

fun progress_of :: "seed_outcome \<Rightarrow> seed_progress" where
  "progress_of (Go_on p) = p"
| "progress_of (Fatal p) = p"
| "progress_of (Unanswered p) = p"

fun submit_loop ::
    "env \<Rightarrow> seed_settings \<Rightarrow> seedPlanItem list \<Rightarrow> int \<Rightarrow> int \<Rightarrow> (time \<times> (seed_error + string)) list \<Rightarrow> seed_progress \<Rightarrow> seed_outcome" where
  "submit_loop E c plan slots submitted [] p =
     (if submitted < slots \<and> pg_nextIndex p < length plan then Unanswered p else Go_on p)"
| "submit_loop E c plan slots submitted ((t, ans) # sends) p =
     (if submitted < slots \<and> pg_nextIndex p < length plan then
        (let tx = seed_transaction (E\<lparr>now := t\<rparr>) c (plan ! pg_nextIndex p) (pg_nextNonce p);
             p1 = p\<lparr>pg_tried := pg_tried p @ [tx]\<rparr> in
         case ans of
           Inl e \<Rightarrow> if isTransientSeedError E e then Go_on p1 else Fatal p1
         | Inr hash \<Rightarrow>
             submit_loop E c plan slots (submitted + 1) sends
               (p1\<lparr>pg_nextNonce := pg_nextNonce p + 1, pg_nextIndex := pg_nextIndex p + 1, pg_accepted := pg_accepted p @ [tx]\<rparr>))
      else Go_on p)"

definition seed_round_step :: "env \<Rightarrow> seed_settings \<Rightarrow> seedPlanItem list \<Rightarrow> seed_round \<Rightarrow> seed_progress \<Rightarrow> seed_outcome" where
  "seed_round_step E c plan rd p =
     (case (rd_latest rd, rd_pending rd) of
        (Inr latest, Inr pending) \<Rightarrow>
          if pending < latest then Fatal p
          else
            (let inFlight = sint (pending - latest) in
             if ss_batchSize c \<le> inFlight then Go_on p
             else submit_loop E c plan (int64 (ss_batchSize c - inFlight)) 0 (rd_sends rd) p)
      | _ \<Rightarrow> Fatal p)"

fun seed_loop :: "env \<Rightarrow> seed_settings \<Rightarrow> seedPlanItem list \<Rightarrow> seed_round list \<Rightarrow> seed_progress \<Rightarrow> seed_outcome" where
  "seed_loop E c plan [] p = (if pg_nextIndex p < length plan then Unanswered p else Go_on p)"
| "seed_loop E c plan (rd # rounds) p =
     (if pg_nextIndex p < length plan then
        (case seed_round_step E c plan rd p of Go_on p' \<Rightarrow> seed_loop E c plan rounds p' | stop \<Rightarrow> stop)
      else Go_on p)"

text \<open>The wait at the end, over the pairs of nonces the node reports: \<open>None\<close> while it goes on.\<close>

fun final_wait :: "u64 \<Rightarrow> ((seed_error + u64) \<times> (seed_error + u64)) list \<Rightarrow> bool option" where
  "final_wait target [] = None"
| "final_wait target ((Inr latest, Inr pending) # rest) = (if target \<le> latest then Some True else final_wait target rest)"
| "final_wait target (_ # rest) = Some False"

text \<open>
  The tool's inputs: the flags, the outside world at the start (the lines of the file, the key material, the answers of the
  URLs), and the node. \<open>keypair\<close> is the public key and the signatures of a private key.
\<close>

record seed_flags =
  fl_file :: string
  fl_rpcURL :: string
  fl_query :: string
  fl_baseBounty :: string
  fl_difficulty :: u64
  fl_dataVolumeBytes :: u64
  fl_batchSize :: int
  fl_preflight :: bool

record seed_world =
  sw_keys :: "string list"
  sw_base64 :: "string \<Rightarrow> bytes option"
  sw_keypair :: "seed_key \<Rightarrow> bytes \<times> (bytes \<Rightarrow> bytes)"
  sw_lines :: "string list res"
  sw_scan :: "err option"
  sw_csv :: "string \<Rightarrow> string list res"
  sw_fetch :: "string \<Rightarrow> int res"

record seed_node =
  sn_quote :: "SearchTaskRequest \<Rightarrow> seedQuoteResponse res"
  sn_latest :: "u64 res"
  sn_pending :: "u64 res"
  sn_balance :: "int res"
  sn_rounds :: "seed_round list"
  sn_final :: "((seed_error + u64) \<times> (seed_error + u64)) list"

definition maxSeedSenderPending :: int where
  "maxSeedSenderPending = 32"

definition seed_setup :: "env \<Rightarrow> seed_flags \<Rightarrow> seed_world \<Rightarrow> (seed_settings \<times> seedFileEntry list) res" where
  "seed_setup E fl w =
     (if TrimSpace (fl_file fl) = [] then Inl (ErrText ''--file is required'')
      else if TrimSpace (fl_query fl) = [] then Inl (ErrText ''--query must not be empty'')
      else if fl_batchSize fl \<le> 0 \<or> maxSeedSenderPending < fl_batchSize fl then
        Inl (ErrText ''--batch-size must be between 1 and 32'')
      else
        (case parseSeedKey (sw_base64 w) (seedKeyFromEnv (sw_keys w)) of Inl e \<Rightarrow> Inl e | Inr key \<Rightarrow>
        (case NewAddressFromPubKey E (fst (sw_keypair w key)) of Inl e \<Rightarrow> Inl e | Inr address \<Rightarrow>
        (case newSeedRPCClient E (fl_rpcURL fl) of Inl e \<Rightarrow> Inl e | Inr _ \<Rightarrow>
        (case sw_lines w of Inl e \<Rightarrow> Inl e | Inr lines \<Rightarrow>
        (case loadSeedFile (sw_csv w) (TrimSpace (fl_query fl)) lines (sw_scan w) of Inl e \<Rightarrow> Inl e | Inr loaded \<Rightarrow>
           if loaded = [] then Inl (ErrText ''no URLs found'')
           else
             (let (entries, skipped) = filterSeedEntries (fl_preflight fl) (sw_fetch w) loaded in
              if entries = [] then Inl (ErrText ''no seedable URLs remain after preflight filtering'')
              else
                (case parseSeedUFDAmount (fl_baseBounty fl) of Inl e \<Rightarrow> Inl e | Inr baseBounty \<Rightarrow>
                   Inr (\<lparr>ss_address = Address_String E address, ss_baseBounty = baseBounty, ss_difficulty = fl_difficulty fl,
                         ss_dataVolumeBytes = fl_dataVolumeBytes fl, ss_batchSize = fl_batchSize fl,
                         ss_pub = fst (sw_keypair w key), ss_sign = snd (sw_keypair w key)\<rparr>, entries)))))))))"

text \<open>
  The run against the node: its nonces at the start, the quotes, the balance, then the two loops. The result is the
  progress of the submission and, once the final wait ended, whether it succeeded.
\<close>

definition seed_run ::
    "env \<Rightarrow> seed_settings \<Rightarrow> seed_node \<Rightarrow> seedFileEntry list \<Rightarrow> (seed_outcome \<times> bool option) res" where
  "seed_run E c node entries =
     (case sn_latest node of Inl e \<Rightarrow> Inl e | Inr latest \<Rightarrow>
     (case sn_pending node of Inl e \<Rightarrow> Inl e | Inr pending \<Rightarrow>
        if pending \<noteq> latest then Inl (ErrText ''refusing to seed while sender already has pending transactions'')
        else
     (case seed_plan (sn_quote node) c entries [] \<lparr>to_Required = 0, to_ArchitectFee = 0, to_MinerReward = 0\<rparr> of
        Inl e \<Rightarrow> Inl e
      | Inr (plan, totals) \<Rightarrow>
     (case sn_balance node of Inl e \<Rightarrow> Inl e | Inr balance \<Rightarrow>
        if balance < to_Required totals then Inl (ErrText ''insufficient balance'')
        else
          (let out = seed_loop E c plan (sn_rounds node)
                 \<lparr>pg_nextNonce = pending, pg_nextIndex = 0, pg_tried = [], pg_accepted = []\<rparr>
           in Inr (out, case out of
                Go_on p \<Rightarrow> final_wait (latest + of_nat (length plan)) (sn_final node)
              | _ \<Rightarrow> None))))))"

definition seed_main :: "env \<Rightarrow> seed_flags \<Rightarrow> seed_world \<Rightarrow> seed_node \<Rightarrow> (seed_outcome \<times> bool option) res" where
  "seed_main E fl w node = (case seed_setup E fl w of Inl e \<Rightarrow> Inl e | Inr (c, entries) \<Rightarrow> seed_run E c node entries)"

section \<open>What seeding guarantees\<close>

lemma show_nat_below: "n < 10 ^ k \<Longrightarrow> 0 < k \<Longrightarrow> length (show_nat n) \<le> k"
proof (induction n arbitrary: k rule: show_nat.induct)
  case (1 n)
  show ?case
  proof (cases "n < 10")
    case True
    then show ?thesis using 1(3) by (simp add: show_nat.simps [of n])
  next
    case False
    with 1(2,3) obtain j where "k = Suc j" by (cases k) auto
    with 1(2) False have j: "k = Suc j" "0 < j" by (auto intro: Nat.gr0I)
    then have "n div 10 < 10 ^ j" using 1(2) by (simp add: less_mult_imp_div_less mult.commute)
    from 1(1) [OF False this j(2)] show ?thesis using False j(1) by (simp add: show_nat.simps [of n])
  qed
qed

lemma seedUFDScale_eq: "seedUFDScale = 10000"
  by (simp add: seedUFDScale_def BasisPoints_def)

text \<open>An amount that is printed reads back as the same amount.\<close>

theorem seed_amount_round_trip:
  assumes "0 \<le> v"
  shows "parseSeedUFDAmount (formatSeedUFDAmount (Some v)) = Inr v"
proof -
  let ?q = "nat (v div 10000)" and ?r = "nat (v mod 10000)"
  note scale = seedUFDScale_eq
  have r: "?r < 10 ^ 4" using pos_mod_bound [of 10000 v] by simp
  define f where "f = replicate (4 - length (show_nat ?r)) CHR ''0'' @ show_nat ?r"
  have lf: "length f = 4" using show_nat_below [OF r] by (simp add: f_def)
  have printed: "formatSeedUFDAmount (Some v) = show_nat ?q @ CHR ''.'' # f"
    using assms lf show_nat_below [OF r] pos_mod_sign [of 10000 v]
    by (simp add: not_less pos_imp_zdiv_nonneg_iff formatSeedUFDAmount_def scale leftPadSeed_def show_int_def f_def Let_def)
  have "is_digit CHR ''0''" by (simp add: is_digit_def byte_def)
  then have digits: "list_all is_digit (show_nat ?q)" "list_all is_digit f"
    using show_nat_digits by (auto simp: f_def list_all_iff)
  have no_point: "takeWhile (\<lambda>c. c \<noteq> CHR ''.'') (show_nat ?q @ CHR ''.'' # f) = show_nat ?q"
  proof -
    have "c \<noteq> CHR ''.''" if "c \<in> set (show_nat ?q)" for c
      using digits(1) that by (auto simp: list_all_iff is_digit_def byte_def)
    then show ?thesis by (simp add: takeWhile_append2)
  qed
  have trim: "TrimSpace (show_nat ?q @ CHR ''.'' # f) = show_nat ?q @ CHR ''.'' # f"
  proof (rule TrimSpace_visible)
    have "visible c" if "c \<in> set (show_nat ?q @ CHR ''.'' # f)" for c
      using digits that digit_visible by (auto simp: list_all_iff visible_def byte_def)
    then show "show_nat ?q @ CHR ''.'' # f = [] \<or> visible (hd (show_nat ?q @ CHR ''.'' # f)) \<and> visible (last (show_nat ?q @ CHR ''.'' # f))"
      using lf by (auto simp: hd_append)
  qed
  have minus: "\<not> prefix ''-'' (show_nat ?q @ CHR ''.'' # f)"
    using show_nat_hd [of ?q] by (cases "show_nat ?q") (auto simp: is_digit_def byte_def)
  have value_f: "SetString f = Some (int ?r)"
  proof -
    have "digits_value f = ?r" by (simp add: f_def digits_value_zeros)
    moreover have "f \<noteq> []" using lf by auto
    moreover have "hd f \<noteq> CHR ''-'' \<and> hd f \<noteq> CHR ''+''" using digits(2) lf by (cases f) (auto simp: is_digit_def byte_def)
    ultimately show ?thesis using digits(2) by (cases f) (auto simp: SetString_def parse_digits_def)
  qed
  have "v div 10000 * 10000 + v mod 10000 = v" by simp
  then show ?thesis
    using assms lf minus value_f SetString_show_nat [of ?q] pos_mod_sign [of 10000 v]
    unfolding parseSeedUFDAmount_def printed Let_def trim split_point_def no_point scale
    by (simp add: pos_imp_zdiv_nonneg_iff)
qed

text \<open>The fraction may carry a sign of its own.\<close>

lemma signed_fraction_accepted: "parseSeedUFDAmount ''1.-5'' = Inr 9500"
proof -
  have "TrimSpace ''1.-5'' = ''1.-5''" by (rule TrimSpace_visible) (simp add: visible_def byte_def)
  moreover have "SetString ''1'' = Some 1" "SetString ''-500'' = Some (- 500)" by code_simp+
  ultimately show ?thesis
    by (simp add: parseSeedUFDAmount_def split_point_def Let_def seedUFDScale_eq numeral_2_eq_2)
qed

section \<open>Order and nonces\<close>

text \<open>
  The progress a run may be in: as many accepted transactions as the index says, each the task of its place in the plan
  with its place's nonce, and nothing tried but these and the next one.
\<close>

definition task_tx :: "env \<Rightarrow> seed_settings \<Rightarrow> seedPlanItem list \<Rightarrow> u64 \<Rightarrow> nat \<Rightarrow> Transaction \<Rightarrow> bool" where
  "task_tx E c plan n0 i tx \<longleftrightarrow> (\<exists>t. tx = seed_transaction (E\<lparr>now := t\<rparr>) c (plan ! i) (n0 + of_nat i))"

definition submitted_in_order :: "env \<Rightarrow> seed_settings \<Rightarrow> seedPlanItem list \<Rightarrow> u64 \<Rightarrow> seed_progress \<Rightarrow> bool" where
  "submitted_in_order E c plan n0 p \<longleftrightarrow>
     pg_nextIndex p \<le> length plan \<and> pg_nextNonce p = n0 + of_nat (pg_nextIndex p)
     \<and> length (pg_accepted p) = pg_nextIndex p
     \<and> (\<forall>i < pg_nextIndex p. task_tx E c plan n0 i (pg_accepted p ! i))
     \<and> (\<forall>tx \<in> set (pg_tried p). \<exists>i \<le> pg_nextIndex p. i < length plan \<and> task_tx E c plan n0 i tx)"

lemma tried_in_order:
  assumes "submitted_in_order E c plan n0 p" "pg_nextIndex p < length plan"
  shows "submitted_in_order E c plan n0
     (p\<lparr>pg_tried := pg_tried p @ [seed_transaction (E\<lparr>now := t\<rparr>) c (plan ! pg_nextIndex p) (pg_nextNonce p)]\<rparr>)"
  using assms by (auto simp: submitted_in_order_def task_tx_def)

lemma accepted_in_order:
  assumes "submitted_in_order E c plan n0 p" "pg_nextIndex p < length plan"
    and "tx = seed_transaction (E\<lparr>now := t\<rparr>) c (plan ! pg_nextIndex p) (pg_nextNonce p)"
  shows "submitted_in_order E c plan n0
     (p\<lparr>pg_tried := pg_tried p @ [tx], pg_nextNonce := pg_nextNonce p + 1, pg_nextIndex := pg_nextIndex p + 1,
        pg_accepted := pg_accepted p @ [tx]\<rparr>)"
proof -
  have "task_tx E c plan n0 (pg_nextIndex p) tx" using assms by (auto simp: submitted_in_order_def task_tx_def)
  then show ?thesis
    using assms(1,2)
    by (auto simp: submitted_in_order_def nth_append less_Suc_eq algebra_simps) (meson le_SucI order_refl)+
qed

lemma submit_loop_in_order:
  "submitted_in_order E c plan n0 p \<Longrightarrow> submitted_in_order E c plan n0 (progress_of (submit_loop E c plan slots k sends p))"
proof (induction E c plan slots k sends p rule: submit_loop.induct)
  case (2 E c plan slots k t ans sends p)
  show ?case
  proof (cases "k < slots \<and> pg_nextIndex p < length plan")
    case True
    note tried = tried_in_order [OF 2(2) conjunct2 [OF True], of t]
    show ?thesis
    proof (cases ans)
      case (Inl e)
      then show ?thesis using True tried by (simp add: Let_def)
    next
      case (Inr h)
      note next1 = accepted_in_order [OF 2(2) conjunct2 [OF True] refl, of t]
      show ?thesis using 2(1) [OF True refl refl Inr] next1 True Inr by (simp add: Let_def)
    qed
  next
    case False
    then show ?thesis using 2(2) by auto
  qed
qed simp

lemma seed_round_in_order:
  "submitted_in_order E c plan n0 p \<Longrightarrow> submitted_in_order E c plan n0 (progress_of (seed_round_step E c plan rd p))"
  using submit_loop_in_order by (auto simp: seed_round_step_def Let_def split: sum.splits)

lemma seed_loop_in_order:
  "submitted_in_order E c plan n0 p \<Longrightarrow> submitted_in_order E c plan n0 (progress_of (seed_loop E c plan rounds p))"
proof (induction rounds arbitrary: p)
  case (Cons rd rounds)
  then show ?case
    using seed_round_in_order [OF Cons(2), of rd] by (auto split: seed_outcome.splits)
qed simp

lemma seed_loop_ends_complete:
  "seed_loop E c plan rounds p = Go_on p' \<Longrightarrow> length plan \<le> pg_nextIndex p'"
  by (induction rounds arbitrary: p) (auto split: if_splits seed_outcome.splits)

text \<open>A round has at most the free slots of the batch accepted.\<close>

lemma submit_loop_slots:
  "int (pg_nextIndex (progress_of (submit_loop E c plan slots k sends p))) \<le> int (pg_nextIndex p) + max 0 (slots - k)"
proof (induction E c plan slots k sends p rule: submit_loop.induct)
  case (2 E c plan slots k t ans sends p)
  show ?case
  proof (cases "k < slots \<and> pg_nextIndex p < length plan")
    case True
    show ?thesis
    proof (cases ans)
      case (Inl e)
      then show ?thesis using True by (simp add: Let_def)
    next
      case (Inr h)
      show ?thesis using 2(1) [OF True refl refl Inr] True Inr by (simp add: Let_def)
    qed
  qed auto
qed simp

lemma seed_round_within_batch:
  assumes "rd_latest rd = Inr latest" "rd_pending rd = Inr pending" "latest \<le> pending" "uint pending - uint latest < 2 ^ 63"
    and "0 < ss_batchSize c" "ss_batchSize c \<le> maxSeedSenderPending"
  shows "int (pg_nextIndex (progress_of (seed_round_step E c plan rd p))) + (uint pending - uint latest)
     \<le> int (pg_nextIndex p) + max (ss_batchSize c) (uint pending - uint latest)"
proof -
  have "sint (pending - latest) = uint pending - uint latest"
    using assms(3,4) using uint_sub_lem [of latest pending]
    by (simp add: sint_uint signed_take_bit_int_eq_self word_le_def)
  moreover have "int64 (ss_batchSize c - (uint pending - uint latest)) = ss_batchSize c - (uint pending - uint latest)"
    if "uint pending - uint latest < ss_batchSize c"
    using that assms(3,5,6) by (simp add: int64_def maxSeedSenderPending_def word_le_def)
  ultimately show ?thesis
    using assms submit_loop_slots [of E c plan "ss_batchSize c - (uint pending - uint latest)" 0 "rd_sends rd" p]
    by (auto simp: seed_round_step_def Let_def)
qed

text \<open>The plan has an item per entry, and its totals are the sums of the quoted amounts.\<close>

lemma seed_plan_sums:
  assumes "seed_plan quote c entries plan totals = Inr (plan', totals')"
  shows "map sp_Entry plan' = map sp_Entry plan @ entries
    \<and> (\<forall>item \<in> set plan'. item \<in> set plan
         \<or> (quote (seed_request c (sp_Entry item)) = Inr (sp_Quote item)
            \<and> SetString (TrimSpace (sqr_AdjustedBounty (sp_Quote item))) \<noteq> None))
    \<and> to_Required totals' = to_Required totals
        + sum_list (map (\<lambda>item. the (SetString (TrimSpace (sqr_AdjustedBounty (sp_Quote item))))) (drop (length plan) plan'))
    \<and> take (length plan) plan' = plan"
  using assms
proof (induction quote c entries plan totals rule: seed_plan.induct)
  case (2 quote c entry entries plan totals)
  obtain q v f m where eqs: "quote (seed_request c entry) = Inr q" "SetString (TrimSpace (sqr_AdjustedBounty q)) = Some v"
      "SetString (TrimSpace (sqr_ArchitectFee q)) = Some f" "SetString (TrimSpace (sqr_MinerReward q)) = Some m"
    using 2(2) by (auto split: sum.splits option.splits)
  let ?item = "\<lparr>sp_Entry = entry, sp_Quote = q\<rparr>"
  from 2(1) [OF eqs] 2(2) eqs have IH: "map sp_Entry plan' = map sp_Entry plan @ entry # entries"
    "\<forall>item \<in> set plan'. item \<in> set (plan @ [?item])
         \<or> (quote (seed_request c (sp_Entry item)) = Inr (sp_Quote item)
            \<and> SetString (TrimSpace (sqr_AdjustedBounty (sp_Quote item))) \<noteq> None)"
    "to_Required totals' = to_Required totals + v
        + sum_list (map (\<lambda>item. the (SetString (TrimSpace (sqr_AdjustedBounty (sp_Quote item))))) (drop (length plan + 1) plan'))"
    "take (length plan + 1) plan' = plan @ [?item]"
    by simp_all
  have "plan' = plan @ ?item # drop (length plan + 1) plan'" 
    using append_take_drop_id [of "length plan + 1" plan'] unfolding IH(4) by simp
  then have "drop (length plan) plan' = ?item # drop (length plan + 1) plan'" "take (length plan) plan' = plan"
    by (metis append_eq_conv_conj)+
  then show ?case using IH eqs by auto
qed simp

section \<open>The claims\<close>

text \<open>
  C23: Seeding submits the tasks of the file in order. Whatever the node answers, a run that is not refused at its start has
  a plan of one quoted item per entry whose bounties the balance covers, and the transactions accepted so far are the first
  items of the plan in their order with consecutive nonces from the sender's nonce at the start; nothing else was ever
  sent but the next item. The loop ends without an error only when all of the plan is accepted, and the final wait
  succeeds only then.
\<close>

theorem seeding_in_order:
  assumes "seed_main E fl w node = Inr (out, final)"
  shows "\<exists>c entries plan n0 balance. seed_setup E fl w = Inr (c, entries) \<and> map sp_Entry plan = entries
    \<and> sn_pending node = Inr n0 \<and> sn_latest node = Inr n0 \<and> sn_balance node = Inr balance
    \<and> sum_list (map (\<lambda>item. the (SetString (TrimSpace (sqr_AdjustedBounty (sp_Quote item))))) plan) \<le> balance
    \<and> submitted_in_order E c plan n0 (progress_of out)
    \<and> ((\<exists>p. out = Go_on p) \<longrightarrow> length (pg_accepted (progress_of out)) = length plan)
    \<and> (final = Some True \<longrightarrow> length (pg_accepted (progress_of out)) = length plan)"
proof -
  obtain c entries where s: "seed_setup E fl w = Inr (c, entries)" and r: "seed_run E c node entries = Inr (out, final)"
    using assms by (auto simp: seed_main_def split: sum.splits)
  obtain n0 plan totals balance where n: "sn_latest node = Inr n0" "sn_pending node = Inr n0" "sn_balance node = Inr balance"
      and plan: "seed_plan (sn_quote node) c entries [] \<lparr>to_Required = 0, to_ArchitectFee = 0, to_MinerReward = 0\<rparr> = Inr (plan, totals)"
      and cover: "to_Required totals \<le> balance"
      and out: "out = seed_loop E c plan (sn_rounds node)
                  \<lparr>pg_nextNonce = n0, pg_nextIndex = 0, pg_tried = [], pg_accepted = []\<rparr>"
      and final: "final = (case out of Go_on p \<Rightarrow> final_wait (n0 + of_nat (length plan)) (sn_final node) | _ \<Rightarrow> None)"
    using r by (auto simp: seed_run_def Let_def not_less split: sum.splits if_splits)
  have order: "submitted_in_order E c plan n0 (progress_of out)"
    unfolding out by (rule seed_loop_in_order) (simp add: submitted_in_order_def)
  have all: "length (pg_accepted (progress_of out)) = length plan" if "out = Go_on p" for p
    using seed_loop_ends_complete [of E c plan "sn_rounds node" _ p] order that out by (auto simp: submitted_in_order_def)
  have complete: "(\<exists>p. out = Go_on p) \<longrightarrow> length (pg_accepted (progress_of out)) = length plan" using all by blast
  then have ended: "final = Some True \<longrightarrow> length (pg_accepted (progress_of out)) = length plan" using final by (cases out) auto
  have sums: "map sp_Entry plan = entries"
    "sum_list (map (\<lambda>item. the (SetString (TrimSpace (sqr_AdjustedBounty (sp_Quote item))))) plan) \<le> balance"
    using seed_plan_sums [OF plan] cover by simp_all
  note body = conjI [OF s conjI [OF sums(1) conjI [OF n(2) conjI [OF n(1) conjI [OF n(3) conjI [OF sums(2)
    conjI [OF order conjI [OF complete ended]]]]]]]]
  show ?thesis by (intro exI) (rule body)
qed

definition toy_flags :: seed_flags where
  "toy_flags = \<lparr>fl_file = ''f'', fl_rpcURL = ''x'', fl_query = ''q'', fl_baseBounty = ''1'', fl_difficulty = 8,
     fl_dataVolumeBytes = 1, fl_batchSize = 1, fl_preflight = False\<rparr>"

definition toy_world :: seed_world where
  "toy_world = \<lparr>sw_keys = [''zz''], sw_base64 = (\<lambda>_. Some (replicate 32 CHR ''k'')),
     sw_keypair = (\<lambda>_. (toy_key, \<lambda>_. replicate 64 CHR ''s'')), sw_lines = Inr [''u''], sw_scan = None,
     sw_csv = (\<lambda>_. Inr []), sw_fetch = (\<lambda>_. Inr 200)\<rparr>"

definition toy_quote :: seedQuoteResponse where
  "toy_quote = \<lparr>sqr_Query = ''q'', sqr_URL = ''u'', sqr_MultiplierBPS = 0, sqr_AdjustedDifficulty = 8,
     sqr_AdjustedBounty = ''1'', sqr_ArchitectFee = ''0'', sqr_MinerReward = ''1'', sqr_PrioritySectors = []\<rparr>"

definition toy_seed_node :: seed_node where
  "toy_seed_node = \<lparr>sn_quote = (\<lambda>_. Inr toy_quote), sn_latest = Inr 0, sn_pending = Inr 0, sn_balance = Inr 1,
     sn_rounds = [\<lparr>rd_latest = Inr 0, rd_pending = Inr 0, rd_sends = [(1, Inr ''h'')]\<rparr>], sn_final = [(Inr 1, Inr 1)]\<rparr>"

lemma toy_seed_trims:
  "TrimSpace ''f'' = ''f''" "TrimSpace ''q'' = ''q''" "TrimSpace ''u'' = ''u''" "TrimSpace ''x'' = ''x''" "TrimSpace ''1'' = ''1''"
  "TrimSpace ''0'' = ''0''" "TrimSpace ''zz'' = ''zz''"
  by (rule TrimSpace_visible, simp add: visible_def byte_def)+

lemma toy_setup: "\<exists>c. seed_setup toy_env toy_flags toy_world = Inr (c, [\<lparr>se_URL = ''u'', se_Query = ''q''\<rparr>]) \<and> ss_batchSize c = 1"
proof -
  have key: "NewAddressFromPubKey toy_env toy_key = Inr \<lparr>version = CurrentAddressVersion, hash160 = replicate 20 CHR ''r''\<rparr>"
    by (simp add: NewAddressFromPubKey_def NewAddress_def toy_env_def toy_key_def address_sizes CurrentAddressVersion_def byte_def)
  have rpc: "\<exists>r. newSeedRPCClient toy_env ''x'' = Inr r"
    by (simp add: newSeedRPCClient_def toy_seed_trims toy_env_def Let_def)
  have hex: "hex_decode (TrimPrefix ''0x'' ''zz'') = None" by code_simp
  have comma: "Contains ''u'' '','' = False" by code_simp
  have amount: "parseSeedUFDAmount ''1'' = Inr 10000"
  proof -
    have "SetString ''1'' = Some 1" by code_simp
    then show ?thesis by (simp add: parseSeedUFDAmount_def toy_seed_trims split_point_def Let_def seedUFDScale_eq)
  qed
  obtain r where "newSeedRPCClient toy_env ''x'' = Inr r" using rpc by blast
  then show ?thesis
    by (simp add: seed_setup_def toy_flags_def toy_world_def toy_seed_trims maxSeedSenderPending_def seedKeyFromEnv_def parseSeedKey_def
        hex key parseSeedLine_def comma filterSeedEntries_def amount)
qed

lemma toy_seeded: "\<exists>out. seed_main toy_env toy_flags toy_world toy_seed_node = Inr (out, Some True)"
proof -
  obtain c where c: "seed_setup toy_env toy_flags toy_world = Inr (c, [\<lparr>se_URL = ''u'', se_Query = ''q''\<rparr>])" "ss_batchSize c = 1"
    using toy_setup by blast
  have "SetString ''1'' = Some 1" "SetString ''0'' = Some 0" by code_simp+
  moreover have "int64 1 = 1" by (simp add: int64_def)
  ultimately show ?thesis
    using c by (simp add: seed_main_def seed_run_def toy_seed_node_def toy_quote_def toy_seed_trims seed_round_step_def Let_def)
qed

theorem seeding_in_order_witness:
  "\<exists>out. seed_main toy_env toy_flags toy_world toy_seed_node = Inr (out, Some True) \<and> length (pg_accepted (progress_of out)) = 1"
proof -
  obtain out where out: "seed_main toy_env toy_flags toy_world toy_seed_node = Inr (out, Some True)" using toy_seeded by blast
  from seeding_in_order [OF out] toy_setup have "length (pg_accepted (progress_of out)) = 1" by fastforce
  with out show ?thesis by blast
qed

section \<open>Stale nonces\<close>

text \<open>
  A nonce that the node calls invalid is never read again: when every answer is that error, each round sends the same
  item with the same nonce, and no number of rounds gets further.
\<close>

lemma stale_nonce_loops:
  assumes "\<forall>rd \<in> set rounds. rd_latest rd = Inr n \<and> rd_pending rd = Inr n \<and> (\<exists>t e. rd_sends rd = [(t, Inl e)] \<and> isTransientSeedError E e)"
    and "pg_nextIndex p < length plan" "0 < ss_batchSize c" "ss_batchSize c \<le> maxSeedSenderPending"
  shows "\<exists>p'. seed_loop E c plan rounds p = Unanswered p' \<and> pg_nextIndex p' = pg_nextIndex p \<and> pg_nextNonce p' = pg_nextNonce p"
  using assms(1,2)
proof (induction rounds arbitrary: p)
  case (Cons rd rounds)
  from Cons(2) have "rd_latest rd = Inr n \<and> rd_pending rd = Inr n \<and> (\<exists>t e. rd_sends rd = [(t, Inl e)] \<and> isTransientSeedError E e)"
    by simp
  then obtain t e where rd: "rd_latest rd = Inr n" "rd_pending rd = Inr n" "rd_sends rd = [(t, Inl e)]" "isTransientSeedError E e"
    by blast
  let ?p1 = "p\<lparr>pg_tried := pg_tried p @ [seed_transaction (E\<lparr>now := t\<rparr>) c (plan ! pg_nextIndex p) (pg_nextNonce p)]\<rparr>"
  have "int64 (ss_batchSize c) = ss_batchSize c" using assms(3,4) by (simp add: int64_def maxSeedSenderPending_def)
  then have "seed_round_step E c plan rd p = Go_on ?p1"
    using rd assms(3) Cons(3) by (simp add: seed_round_step_def Let_def)
  moreover have "\<exists>p'. seed_loop E c plan rounds ?p1 = Unanswered p' \<and> pg_nextIndex p' = pg_nextIndex ?p1 \<and> pg_nextNonce p' = pg_nextNonce ?p1"
    by (rule Cons(1)) (use Cons(2,3) in simp_all)
  ultimately show ?case using Cons(3) by simp
qed simp

end
