(* ===== verification/Operator_Tools.thy ===== *)
theory Operator_Tools
  imports Rpc Seeding
begin

text \<open>
  The tools of an operator: generating a network configuration (\<open>src/scripts/generate_network_config/main.go\<close>), comparing
  a pinned configuration with the one a node serves (\<open>src/scripts/verify_network_config/main.go\<close>), and the two transactions
  that open a chain (\<open>src/scripts/genesis_tx/main.go\<close>). Files, the environment and the answers of the node are arguments.
\<close>

section \<open>Configuration files\<close>

text \<open>The file is given by what \<open>encoding/json\<close> reads from it.\<close>

definition LoadNetworkConfig :: "env \<Rightarrow> NetworkConfig res \<Rightarrow> NetworkConfig res" where
  "LoadNetworkConfig E file = (case file of Inl e \<Rightarrow> Inl e | Inr cfg \<Rightarrow> NormalizeNetworkConfig E cfg)"

text \<open>\<open>io\<close> is the error of making the directory or writing the file, if there is one.\<close>

definition WriteNetworkConfig :: "env \<Rightarrow> err option \<Rightarrow> NetworkConfig \<Rightarrow> NetworkConfig res" where
  "WriteNetworkConfig E io cfg =
     (case NormalizeNetworkConfig E cfg of
        Inl e \<Rightarrow> Inl e
      | Inr normalized \<Rightarrow> (case io of Some e \<Rightarrow> Inl e | None \<Rightarrow> Inr normalized))"

text \<open>\<open>strings.Split(s, ",")\<close>.\<close>

fun split_commas :: "string \<Rightarrow> string list" where
  "split_commas [] = [[]]"
| "split_commas (c # s) =
     (if c = CHR '','' then [] # split_commas s else (case split_commas s of [] \<Rightarrow> [[c]] | w # ws \<Rightarrow> (c # w) # ws))"

definition splitCSV :: "string \<Rightarrow> string list" where
  "splitCSV v = (if TrimSpace v = [] then [] else filter (\<lambda>w. w \<noteq> []) (map TrimSpace (split_commas v)))"

text \<open>\<open>run\<close> of the generator: the configuration it prints, or the one it writes to a file.\<close>

definition generate_config ::
    "env \<Rightarrow> err option \<Rightarrow> string \<Rightarrow> string \<Rightarrow> u64 \<Rightarrow> string \<Rightarrow> string \<Rightarrow> string \<Rightarrow> string \<Rightarrow> NetworkConfig res" where
  "generate_config E io output name chainID genesisAddress architectAddress circulatingSupply bootnodesRaw =
     (case NormalizeNetworkConfig E
         \<lparr>net_Name = name, net_ChainID = chainID, net_GenesisAddress = genesisAddress, net_ArchitectAddress = architectAddress,
          net_CirculatingSupply = circulatingSupply, net_Bootnodes = splitCSV bootnodesRaw, net_SystemContracts = []\<rparr> of
        Inl e \<Rightarrow> Inl e
      | Inr config \<Rightarrow> if TrimSpace output = [] then Inr config else WriteNetworkConfig E io config)"

section \<open>Verifying a node\<close>

definition containsPlaceholder :: "string \<Rightarrow> bool" where
  "containsPlaceholder v \<longleftrightarrow> TrimSpace v = [] \<or> Contains (TrimSpace v) ''REPLACE_ME''"

definition rejectPlaceholders :: "NetworkConfig \<Rightarrow> unit res" where
  "rejectPlaceholders cfg =
     (if containsPlaceholder (net_GenesisAddress cfg) then
        Inl (ErrText ''pinned config still contains a placeholder genesis address'')
      else if containsPlaceholder (net_ArchitectAddress cfg) then
        Inl (ErrText ''pinned config still contains a placeholder architect address'')
      else Inr ())"

text \<open>\<open>arrange\<close> is \<open>sort.Slice\<close> by address, which need not be stable.\<close>

definition normalizedForCompare :: "(ContractRecord list \<Rightarrow> ContractRecord list) \<Rightarrow> NetworkConfig \<Rightarrow> NetworkConfig" where
  "normalizedForCompare arrange cfg =
     cfg\<lparr>net_Bootnodes := sort (net_Bootnodes cfg), net_SystemContracts := arrange (net_SystemContracts cfg)\<rparr>"

definition omit_empty :: "string \<Rightarrow> string \<Rightarrow> (string \<times> json) list" where
  "omit_empty name v = (if v = [] then [] else [(name, JStr v)])"

definition contract_json :: "ContractRecord \<Rightarrow> json" where
  "contract_json c =
     JObj ([(''address'', JStr (con_Address c)), (''name'', JStr (con_Name c)), (''kind'', JStr (con_Kind c)),
            (''handler'', JStr (con_Handler c)), (''code'', JStr (con_Code c)), (''codeHash'', JStr (con_CodeHash c)),
            (''description'', JStr (con_Description c))]
       @ omit_empty ''owner'' (con_Owner c) @ omit_empty ''txHash'' (con_TxHash c)
       @ [(''system'', JBool (con_System c)), (''executable'', JBool (con_Executable c)),
          (''genesisDeployed'', JBool (con_GenesisDeployed c)), (''deploymentBlock'', JUint (con_DeploymentBlock c)),
          (''deploymentModel'', JStr (con_DeploymentModel c)), (''functions'', JArr (map function_json (con_Functions c))),
          (''source'', JStr (con_Source c)), (''storageModel'', JStr (con_StorageModel c))])"

definition contracts_json :: "env \<Rightarrow> ContractRecord list \<Rightarrow> bytes" where
  "contracts_json E cs = json_marshal E (JArr (map contract_json cs))"

definition config_json :: "NetworkConfig \<Rightarrow> json" where
  "config_json cfg =
     JObj ([(''name'', JStr (net_Name cfg)), (''chainId'', JUint (net_ChainID cfg)), (''genesisAddress'', JStr (net_GenesisAddress cfg)),
            (''architectAddress'', JStr (net_ArchitectAddress cfg)), (''circulatingSupply'', JStr (net_CirculatingSupply cfg))]
       @ (if net_Bootnodes cfg = [] then [] else [(''bootnodes'', JArr (map JStr (net_Bootnodes cfg)))])
       @ (if net_SystemContracts cfg = [] then [] else [(''systemContracts'', JArr (map contract_json (net_SystemContracts cfg)))]))"

definition configHash :: "env \<Rightarrow> (ContractRecord list \<Rightarrow> ContractRecord list) \<Rightarrow> NetworkConfig \<Rightarrow> string" where
  "configHash E arrange cfg = hex_encode (sha256 E (json_marshal E (config_json (normalizedForCompare arrange cfg))))"

fun equalStringSlices :: "string list \<Rightarrow> string list \<Rightarrow> bool" where
  "equalStringSlices [] [] = True"
| "equalStringSlices (x # xs) (y # ys) = (x = y \<and> equalStringSlices xs ys)"
| "equalStringSlices _ _ = False"

definition equalContracts :: "env \<Rightarrow> ContractRecord list \<Rightarrow> ContractRecord list \<Rightarrow> bool" where
  "equalContracts E left right \<longleftrightarrow> length left = length right \<and> contracts_json E left = contracts_json E right"

text \<open>A mismatch is printed with its expected and its found value.\<close>

datatype mismatch =
    NameMismatch string string
  | ChainMismatch u64 u64
  | GenesisMismatch string string
  | ArchitectMismatch string string
  | SupplyMismatch string string
  | BootnodesMismatch "string list" "string list"
  | ContractsMismatch
  | ChainRPCMismatch string string

definition compareConfigs ::
    "env \<Rightarrow> (ContractRecord list \<Rightarrow> ContractRecord list) \<Rightarrow> NetworkConfig \<Rightarrow> NetworkConfig \<Rightarrow> mismatch list" where
  "compareConfigs E arrange expected actual =
     (let e = normalizedForCompare arrange expected; g = normalizedForCompare arrange actual in
      (if net_Name e \<noteq> net_Name g then [NameMismatch (net_Name e) (net_Name g)] else [])
      @ (if net_ChainID e \<noteq> net_ChainID g then [ChainMismatch (net_ChainID e) (net_ChainID g)] else [])
      @ (if net_GenesisAddress e \<noteq> net_GenesisAddress g then [GenesisMismatch (net_GenesisAddress e) (net_GenesisAddress g)] else [])
      @ (if net_ArchitectAddress e \<noteq> net_ArchitectAddress g
         then [ArchitectMismatch (net_ArchitectAddress e) (net_ArchitectAddress g)] else [])
      @ (if net_CirculatingSupply e \<noteq> net_CirculatingSupply g
         then [SupplyMismatch (net_CirculatingSupply e) (net_CirculatingSupply g)] else [])
      @ (if \<not> equalStringSlices (net_Bootnodes e) (net_Bootnodes g) then [BootnodesMismatch (net_Bootnodes e) (net_Bootnodes g)] else [])
      @ (if \<not> equalContracts E (net_SystemContracts e) (net_SystemContracts g) then [ContractsMismatch] else []))"

definition normalizeRPCURL :: "string \<Rightarrow> string" where
  "normalizeRPCURL raw =
     (let cleaned = TrimSpace raw in if suffix ''/rpc'' cleaned then cleaned else TrimRight_slash cleaned @ ''/rpc'')"

text \<open>The answers of the node to \<open>ufi_getNetworkConfig\<close> and \<open>eth_chainId\<close>, under the endpoint asked.\<close>

record verify_node =
  vn_config :: "string \<Rightarrow> NetworkConfig res"
  vn_chainID :: "string \<Rightarrow> string res"

definition fetchRemoteConfig :: "env \<Rightarrow> verify_node \<Rightarrow> string \<Rightarrow> (NetworkConfig \<times> string) res" where
  "fetchRemoteConfig E node rpcURL =
     (case vn_config node (normalizeRPCURL rpcURL) of
        Inl e \<Rightarrow> Inl e
      | Inr remote \<Rightarrow>
          (case NormalizeNetworkConfig E remote of
             Inl e \<Rightarrow> Inl e
           | Inr normalized \<Rightarrow>
               (case vn_chainID node (normalizeRPCURL rpcURL) of Inl e \<Rightarrow> Inl e | Inr chainID \<Rightarrow> Inr (normalized, chainID))))"

text \<open>\<open>run\<close>: the mismatches printed, and the hash of the pinned configuration or the error.\<close>

definition verify_config ::
    "env \<Rightarrow> (ContractRecord list \<Rightarrow> ContractRecord list) \<Rightarrow> string \<Rightarrow> NetworkConfig res \<Rightarrow> bool \<Rightarrow> string \<Rightarrow> verify_node
     \<Rightarrow> mismatch list \<times> string res" where
  "verify_config E arrange configPath file allowPlaceholders rpcURL node =
     (if TrimSpace configPath = [] then ([], Inl (ErrText ''config path is required''))
      else
        (case LoadNetworkConfig E file of
           Inl e \<Rightarrow> ([], Inl e)
         | Inr local \<Rightarrow>
             (case (if allowPlaceholders then Inr () else rejectPlaceholders local) of
                Inl e \<Rightarrow> ([], Inl e)
              | Inr _ \<Rightarrow>
                  if TrimSpace rpcURL = [] then ([], Inr (configHash E arrange local))
                  else
                    (case fetchRemoteConfig E node rpcURL of
                       Inl e \<Rightarrow> ([], Inl e)
                     | Inr (remote, chainID) \<Rightarrow>
                         (let mismatches = compareConfigs E arrange local remote
                            @ (if chainID \<noteq> hex_uint (net_ChainID local)
                               then [ChainRPCMismatch (hex_uint (net_ChainID local)) chainID] else [])
                          in if mismatches \<noteq> [] then (mismatches, Inl (ErrText ''network config mismatch''))
                             else ([], Inr (configHash E arrange local)))))))"

lemma equalStringSlices_eq [simp]: "equalStringSlices xs ys \<longleftrightarrow> xs = ys"
  by (induction xs ys rule: equalStringSlices.induct) simp_all

lemma sort_same_iff: "sort xs = sort ys \<longleftrightarrow> mset xs = mset ys" for xs ys :: "string list"
  by (metis mset_sort properties_for_sort sorted_sort)

text \<open>
  Two configurations compare as equal when they agree in everything but the order of their bootnodes and contracts.
\<close>

definition same_network :: "env \<Rightarrow> (ContractRecord list \<Rightarrow> ContractRecord list) \<Rightarrow> NetworkConfig \<Rightarrow> NetworkConfig \<Rightarrow> bool" where
  "same_network E arrange a b \<longleftrightarrow>
     net_Name a = net_Name b \<and> net_ChainID a = net_ChainID b \<and> net_GenesisAddress a = net_GenesisAddress b
     \<and> net_ArchitectAddress a = net_ArchitectAddress b \<and> net_CirculatingSupply a = net_CirculatingSupply b
     \<and> mset (net_Bootnodes a) = mset (net_Bootnodes b)
     \<and> length (net_SystemContracts a) = length (net_SystemContracts b)
     \<and> contracts_json E (arrange (net_SystemContracts a)) = contracts_json E (arrange (net_SystemContracts b))"

lemma compareConfigs_none:
  assumes "\<And>cs. mset (arrange cs) = mset cs"
  shows "compareConfigs E arrange a b = [] \<longleftrightarrow> same_network E arrange a b"
proof -
  have "length (arrange cs) = length cs" for cs using assms by (metis size_mset)
  then show ?thesis
    by (auto simp: compareConfigs_def normalizedForCompare_def same_network_def equalContracts_def sort_same_iff Let_def)
qed

text \<open>Contracts with addresses of their own are arranged in one way only, so their order does not matter.\<close>

lemma arranged_unique:
  assumes "\<And>cs. mset (arrange cs) = mset cs \<and> sorted (map con_Address (arrange cs))"
    and "mset cs = mset ds" and "distinct (map con_Address cs)"
  shows "arrange cs = arrange ds"
proof -
  have same: "mset (arrange cs) = mset cs" "mset (arrange ds) = mset cs" using assms(1,2) by simp_all
  then have sets: "set (arrange cs) = set cs" "set (arrange ds) = set cs" by (metis mset_eq_setD)+
  have "distinct (map con_Address (arrange cs))" "distinct (map con_Address (arrange ds))"
    using same assms(3) by (metis mset_map mset_eq_imp_distinct_iff)+
  moreover have "inj_on con_Address (set cs)" using assms(3) by (simp add: distinct_map)
  ultimately show ?thesis
    using assms(1) sets by (intro map_sorted_distinct_set_unique [where f = con_Address]) simp_all
qed

section \<open>Opening a chain\<close>

definition parseUFDAmount :: "string \<Rightarrow> int res" where
  "parseUFDAmount v = parseSeedUFDAmount v"

definition parseArchitectKey :: "(string \<Rightarrow> bytes option) \<Rightarrow> string \<Rightarrow> seed_key res" where
  "parseArchitectKey base64 raw =
     (let cleaned = TrimSpace raw in
      if cleaned = [] then Inl (ErrText ''UFI_ARCHITECT_KEY is required'')
      else
        (case (case hex_decode (TrimPrefix ''0x'' cleaned) of Some bs \<Rightarrow> Some bs | None \<Rightarrow> base64 cleaned) of
           None \<Rightarrow> Inl (ErrText ''UFI_ARCHITECT_KEY must be hex or base64 encoded'')
         | Some bs \<Rightarrow>
             if length bs = 32 then Inr (Key_of_seed bs)
             else if length bs = 64 then Inr (Key bs)
             else Inl (ErrText ''UFI_ARCHITECT_KEY must decode to 32-byte seed or 64-byte private key'')))"

text \<open>The address the key must have: from the environment, the node, or the constant of the protocol; \<open>None\<close> when it is left open.\<close>

definition expected_architect :: "string \<Rightarrow> NetworkConfig res \<Rightarrow> string option" where
  "expected_architect setting network =
     (let given = TrimSpace setting;
          candidate = (case network of Inl _ \<Rightarrow> [] | Inr n \<Rightarrow> TrimSpace (net_ArchitectAddress n));
          e1 = (if given = [] \<and> candidate \<noteq> [] \<and> \<not> Contains candidate ''REPLACE_ME'' then candidate else given);
          e2 = (if e1 = [] \<and> \<not> Contains GenesisArchitectAddress ''REPLACE_ME'' then GenesisArchitectAddress else e1)
      in if e2 = [] then None else Some e2)"

definition validateExpectedArchitectAddress :: "string \<Rightarrow> NetworkConfig res \<Rightarrow> string \<Rightarrow> unit res" where
  "validateExpectedArchitectAddress setting network derived =
     (case expected_architect setting network of
        None \<Rightarrow> Inr ()
      | Some expected \<Rightarrow> if expected \<noteq> derived then Inl (ErrText (''architect key derives '' @ derived)) else Inr ())"

record blockEnvelope =
  be_Hash :: string
  be_Number :: u64
  be_Transactions :: "Transaction list"

definition blockContainsTransaction :: "blockEnvelope \<Rightarrow> string \<Rightarrow> bool" where
  "blockContainsTransaction block hash \<longleftrightarrow> list_ex (\<lambda>tx. tx_Hash tx = hash) (be_Transactions block)"

text \<open>The answers to the polls before the deadline; when there are no more, the deadline has passed.\<close>

fun waitForBlock :: "u64 \<Rightarrow> blockEnvelope res list \<Rightarrow> blockEnvelope res \<Rightarrow> blockEnvelope res" where
  "waitForBlock number [] block = Inl (ErrText ''timed out waiting for block'')"
| "waitForBlock number (latest # rest) block =
     (case latest of
        Inl e \<Rightarrow> Inl e
      | Inr l \<Rightarrow> if number \<le> be_Number l then block else waitForBlock number rest block)"

text \<open>An amount the node returns as text.\<close>

definition node_amount :: "string \<Rightarrow> string res \<Rightarrow> int res" where
  "node_amount message ans =
     (case ans of
        Inl e \<Rightarrow> Inl e
      | Inr v \<Rightarrow> (case SetString (TrimSpace v) of None \<Rightarrow> Inl (ErrText message) | Some n \<Rightarrow> Inr n))"

record genesis_setting =
  gi_key :: string
  gi_architect :: string
  gi_query :: string
  gi_url :: string
  gi_base64 :: "string \<Rightarrow> bytes option"
  gi_keypair :: "seed_key \<Rightarrow> bytes \<times> (bytes \<Rightarrow> bytes)"

record genesis_node =
  gn_network :: "NetworkConfig res"
  gn_latest :: "blockEnvelope res"
  gn_price :: "string res"
  gn_balance :: "string res"
  gn_registered :: "string res"
  gn_polls :: "blockEnvelope res list"
  gn_blockOne :: "blockEnvelope res"
  gn_seeded :: "string res"

definition defaultSeedDifficulty :: u64 where "defaultSeedDifficulty = 64"
definition defaultSeedDataVolume :: u64 where "defaultSeedDataVolume = 4096"

definition registration_fee :: "genesis_node \<Rightarrow> int res" where
  "registration_fee node =
     (case node_amount ''invalid name price returned by node'' (gn_price node) of
        Inr v \<Rightarrow> Inr v
      | Inl _ \<Rightarrow> parseUFDAmount ''10.0'')"

definition genesis_seed_bounty :: "int res" where
  "genesis_seed_bounty =
     (case parseUFDAmount ''50.0'' of
        Inl e \<Rightarrow> Inl e
      | Inr base \<Rightarrow> QuoteBounty (Some base) defaultSeedDifficulty defaultSeedDataVolume)"

text \<open>The two transactions, signed at the times \<open>t\<close>.\<close>

definition registration_tx :: "env \<Rightarrow> time \<Rightarrow> bytes \<times> (bytes \<Rightarrow> bytes) \<Rightarrow> string \<Rightarrow> int \<Rightarrow> bytes \<Rightarrow> Transaction" where
  "registration_tx E t key architect fee data =
     Sign (E\<lparr>now := t\<rparr>) (fst key) (snd key)
       \<lparr>tx_Hash = [], tx_Type = TxTypeTransfer, tx_From = architect, tx_To = UNSRegistryAddress, tx_Value = show_int fee,
        tx_Nonce = 0, tx_Timestamp = 0, tx_Data = data, tx_PublicKey = [], tx_Signature = []\<rparr>"

definition genesis_task :: "genesis_setting \<Rightarrow> int \<Rightarrow> SearchTaskRequest" where
  "genesis_task s base =
     \<lparr>req_Query = seed_envOrDefault (gi_query s) ''UniFied genesis seed'',
      req_URL = seed_envOrDefault (gi_url s) ''https://unified.network/genesis'', req_BaseBounty = show_int base,
      req_Difficulty = defaultSeedDifficulty, req_DataVolumeBytes = defaultSeedDataVolume\<rparr>"

definition genesis_seed_tx :: "env \<Rightarrow> time \<Rightarrow> bytes \<times> (bytes \<Rightarrow> bytes) \<Rightarrow> string \<Rightarrow> int \<Rightarrow> SearchTaskRequest \<Rightarrow> Transaction" where
  "genesis_seed_tx E t key architect bounty request =
     Sign (E\<lparr>now := t\<rparr>) (fst key) (snd key)
       \<lparr>tx_Hash = [], tx_Type = TxTypeSearchTask, tx_From = architect, tx_To = [], tx_Value = show_int bounty,
        tx_Nonce = 1, tx_Timestamp = 0, tx_Data = json_marshal E (request_json request), tx_PublicKey = [], tx_Signature = []\<rparr>"

text \<open>The checks before anything is sent: the key, its address, the fee and the bounty.\<close>

definition genesis_preflight ::
    "env \<Rightarrow> genesis_setting \<Rightarrow> genesis_node \<Rightarrow> ((bytes \<times> (bytes \<Rightarrow> bytes)) \<times> string \<times> int \<times> int) res" where
  "genesis_preflight E s node =
     (case parseArchitectKey (gi_base64 s) (gi_key s) of Inl e \<Rightarrow> Inl e | Inr key \<Rightarrow>
     (case NewAddressFromPubKey E (fst (gi_keypair s key)) of Inl e \<Rightarrow> Inl e | Inr address \<Rightarrow>
        let architect = Address_String E address in
     (case validateExpectedArchitectAddress (gi_architect s) (gn_network node) architect of Inl e \<Rightarrow> Inl e | Inr _ \<Rightarrow>
     (case gn_latest node of Inl e \<Rightarrow> Inl e | Inr latest \<Rightarrow>
        if 0 < be_Number latest then Inl (ErrText ''refusing genesis flow'')
        else
     (case registration_fee node of Inl e \<Rightarrow> Inl e | Inr fee \<Rightarrow>
     (case genesis_seed_bounty of Inl e \<Rightarrow> Inl e | Inr bounty \<Rightarrow>
        if ArchitectFee (Some bounty) + (bounty - ArchitectFee (Some bounty)) \<noteq> bounty
        then Inl (ErrText ''seed task fee split is invalid'')
        else
     (case node_amount ''invalid balance returned by node'' (gn_balance node) of Inl e \<Rightarrow> Inl e | Inr balance \<Rightarrow>
        if balance < fee + bounty then Inl (ErrText ''insufficient architect balance'')
        else Inr (gi_keypair s key, architect, fee, bounty))))))))"

text \<open>\<open>main\<close>: the transactions sent, and how it ended.\<close>

definition genesis_flow ::
    "env \<Rightarrow> time \<Rightarrow> time \<Rightarrow> genesis_setting \<Rightarrow> genesis_node \<Rightarrow> Transaction list \<times> unit res" where
  "genesis_flow E t1 t2 s node =
     (case genesis_preflight E s node of Inl e \<Rightarrow> ([], Inl e) | Inr (key, architect, fee, bounty) \<Rightarrow>
     (case EncodeRegisterNameCall E ''Architect'' of Inl e \<Rightarrow> ([], Inl e) | Inr data \<Rightarrow>
        let reg = registration_tx E t1 key architect fee data in
     (case gn_registered node of Inl e \<Rightarrow> ([reg], Inl e) | Inr hash \<Rightarrow>
     (case waitForBlock 1 (gn_polls node) (gn_blockOne node) of Inl e \<Rightarrow> ([reg], Inl e) | Inr blockOne \<Rightarrow>
        if \<not> blockContainsTransaction blockOne hash then ([reg], Inl (ErrText ''block #1 mined without the genesis registration tx''))
        else
     (case parseUFDAmount ''50.0'' of Inl e \<Rightarrow> ([reg], Inl e) | Inr base \<Rightarrow>
        let seed = genesis_seed_tx E t2 key architect bounty (genesis_task s base) in
     (case gn_seeded node of Inl e \<Rightarrow> ([reg, seed], Inl e) | Inr _ \<Rightarrow> ([reg, seed], Inr ())))))))"

lemma fifty_parsed: "parseUFDAmount ''50.0'' = Inr 500000" "genesis_seed_bounty = Inr 762144"
proof -
  have "TrimSpace ''50.0'' = ''50.0''" by (rule TrimSpace_visible) (simp add: visible_def byte_def)
  moreover have "SetString ''50'' = Some 50" "SetString ''0000'' = Some 0" by code_simp+
  ultimately show fifty: "parseUFDAmount ''50.0'' = Inr 500000"
    by (simp add: parseUFDAmount_def parseSeedUFDAmount_def split_point_def Let_def seedUFDScale_eq numeral_3_eq_3)
  show "genesis_seed_bounty = Inr 762144"
    by (simp add: genesis_seed_bounty_def fifty QuoteBounty_def cloneBigInt_def defaultSeedDifficulty_def defaultSeedDataVolume_def)
qed

section \<open>What the tools guarantee\<close>

text \<open>
  A node is verified exactly when the pinned file loads without placeholders and the node's configuration and chain ID are
  the pinned ones, up to the order of bootnodes and contracts.
\<close>

theorem verified_iff_same_network:
  assumes "\<And>cs. mset (arrange cs) = mset cs" and "TrimSpace rpcURL \<noteq> []" and "TrimSpace configPath \<noteq> []"
  shows "(\<exists>h. verify_config E arrange configPath file allow rpcURL node = ([], Inr h))
    \<longleftrightarrow> (\<exists>pinned served remote. LoadNetworkConfig E file = Inr pinned
          \<and> (allow \<or> \<not> containsPlaceholder (net_GenesisAddress pinned) \<and> \<not> containsPlaceholder (net_ArchitectAddress pinned))
          \<and> vn_config node (normalizeRPCURL rpcURL) = Inr served \<and> NormalizeNetworkConfig E served = Inr remote
          \<and> vn_chainID node (normalizeRPCURL rpcURL) = Inr (hex_uint (net_ChainID pinned))
          \<and> same_network E arrange pinned remote)"
proof (cases "LoadNetworkConfig E file")
  case (Inr pinned)
  show ?thesis
  proof (cases "if allow then Inr () else rejectPlaceholders pinned")
    case (Inl e)
    then show ?thesis using assms(2,3) Inr by (auto simp: verify_config_def rejectPlaceholders_def split: if_splits)
  next
    case allowed: (Inr u)
    then have "allow \<or> \<not> containsPlaceholder (net_GenesisAddress pinned) \<and> \<not> containsPlaceholder (net_ArchitectAddress pinned)"
      by (auto simp: rejectPlaceholders_def split: if_splits)
    then show ?thesis
      using assms(2,3) Inr allowed compareConfigs_none [OF assms(1), where E = E and a = pinned]
      by (auto simp: verify_config_def fetchRemoteConfig_def Let_def split: sum.splits)
  qed
qed (use assms(2,3) in \<open>simp add: verify_config_def\<close>)

text \<open>A generated configuration is verified against a node that runs with it.\<close>

lemma generated_config_verified:
  assumes "generate_config E io output name chainID genesis architect supply bootnodes = Inr cfg"
    and "\<not> containsPlaceholder genesis" "\<not> containsPlaceholder architect"
    and "\<And>cs. mset (arrange cs) = mset cs" "TrimSpace rpcURL \<noteq> []" "TrimSpace configPath \<noteq> []"
    and "vn_config node (normalizeRPCURL rpcURL) = Inr cfg" "vn_chainID node (normalizeRPCURL rpcURL) = Inr (hex_uint (net_ChainID cfg))"
  shows "verify_config E arrange configPath (Inr cfg) False rpcURL node = ([], Inr (configHash E arrange cfg))"
proof -
  obtain raw where raw: "NormalizeNetworkConfig E raw = Inr cfg" "net_GenesisAddress raw = genesis" "net_ArchitectAddress raw = architect"
    using assms(1) normalized_again
    by (force simp: generate_config_def WriteNetworkConfig_def split: sum.splits if_splits option.splits)
  note again = normalized_again [OF raw(1)]
  have "cfg = overlaid E raw" using raw(1) by (simp add: NormalizeNetworkConfig_Inr)
  then have "net_GenesisAddress cfg = TrimSpace genesis" "net_ArchitectAddress cfg = TrimSpace architect"
    using raw assms(2,3) by (simp_all add: overlaid_def overlay_def containsPlaceholder_def)
  then have ok: "rejectPlaceholders cfg = Inr ()" using assms(2,3) by (simp add: rejectPlaceholders_def containsPlaceholder_def)
  moreover have "compareConfigs E arrange cfg cfg = []"
    using compareConfigs_none [OF assms(4), of E cfg cfg] by (simp add: same_network_def)
  ultimately show ?thesis
    using assms(5-8) again by (simp add: verify_config_def LoadNetworkConfig_def fetchRemoteConfig_def)
qed

text \<open>
  The genesis flow sends nothing unless the chain has no block yet, the key belongs to the expected architect and the balance covers the
  fee and the bounty; then first the registration with nonce 0, and the search task with nonce 1 only after block 1 was seen
  to contain the registration. It succeeds only when both were sent.
\<close>

theorem genesis_in_order:
  assumes "genesis_flow E t1 t2 s node = (sent, r)" and "sent \<noteq> []"
  shows "\<exists>key architect fee data latest balance.
    (let reg = registration_tx E t1 key architect fee data;
         seed = genesis_seed_tx E t2 key architect 762144 (genesis_task s 500000) in
     (sent = [reg] \<or> sent = [reg, seed]
        \<and> (\<exists>hash b. gn_registered node = Inr hash \<and> gn_blockOne node = Inr b \<and> blockContainsTransaction b hash))
     \<and> (r = Inr () \<longrightarrow> sent = [reg, seed]))
    \<and> EncodeRegisterNameCall E ''Architect'' = Inr data
    \<and> gn_latest node = Inr latest \<and> be_Number latest = 0
    \<and> (\<forall>expected. expected_architect (gi_architect s) (gn_network node) = Some expected \<longrightarrow> architect = expected)
    \<and> node_amount ''invalid balance returned by node'' (gn_balance node) = Inr balance \<and> fee + 762144 \<le> balance"
proof -
  obtain key architect fee bounty where pre: "genesis_preflight E s node = Inr (key, architect, fee, bounty)"
    using assms by (auto simp: genesis_flow_def split: sum.splits)
  obtain data where data: "EncodeRegisterNameCall E ''Architect'' = Inr data"
    using assms pre by (auto simp: genesis_flow_def split: sum.splits)
  let ?reg = "registration_tx E t1 key architect fee data"
  let ?seed = "genesis_seed_tx E t2 key architect 762144 (genesis_task s 500000)"
  have latest: "\<exists>l. gn_latest node = Inr l \<and> be_Number l = 0" and bounty: "bounty = 762144"
    and expected: "\<forall>x. expected_architect (gi_architect s) (gn_network node) = Some x \<longrightarrow> architect = x"
    and balance: "\<exists>b. node_amount ''invalid balance returned by node'' (gn_balance node) = Inr b \<and> fee + 762144 \<le> b"
    using pre
    by (auto simp: genesis_preflight_def fifty_parsed validateExpectedArchitectAddress_def Let_def word_gt_0
        split: sum.splits if_splits option.splits)
  have block: "\<exists>ls. waitForBlock 1 ls b = Inr x \<Longrightarrow> b = Inr x" for b x
  proof -
    have "waitForBlock 1 ls b = Inr x \<Longrightarrow> b = Inr x" for ls
      by (induction ls) (auto split: sum.splits if_splits)
    then show "\<exists>ls. waitForBlock 1 ls b = Inr x \<Longrightarrow> b = Inr x" by blast
  qed
  have "(sent = [?reg] \<or> sent = [?reg, ?seed]
        \<and> (\<exists>hash b. gn_registered node = Inr hash \<and> gn_blockOne node = Inr b \<and> blockContainsTransaction b hash))
     \<and> (r = Inr () \<longrightarrow> sent = [?reg, ?seed])"
    using assms block by (auto simp: genesis_flow_def pre data bounty fifty_parsed Let_def split: sum.splits if_splits)
  then show ?thesis using data latest expected balance unfolding Let_def by blast
qed

end
