(* ===== verification/Governance_Client.thy ===== *)
theory Governance_Client
  imports Governance_Service
begin

text \<open>
  The HTTP client of the governance service (\<open>src/web/governance/client.go\<close>): fetching the active proposals, voting, and
  the subscription that polls for events from a block on. A transport takes the path and the query of a request and
  returns the answer of \<open>Governance_Service\<close>, or an error when there is none; \<open>interleaved\<close> composes the subscription with the
  store, whose operations happen between two polls in any order.
\<close>

section \<open>Requests\<close>

definition accepted_status :: "nat \<Rightarrow> bool" where
  "accepted_status status \<longleftrightarrow> 200 \<le> status \<and> status < 300"

text \<open>\<open>NewClient\<close> keeps the base of the URLs without slashes at its end.\<close>

definition NewClient :: "string \<Rightarrow> string" where
  "NewClient baseURL = rev (dropWhile (\<lambda>c. c = CHR ''/'') (rev baseURL))"

text \<open>Decoding gives back what \<open>writeJSON\<close> encoded; another kind of value does not decode.\<close>

fun decode_proposals :: "reply \<Rightarrow> ProposalSummary list res" where
  "decode_proposals (ReplyProposals ps) = Inr ps"
| "decode_proposals _ = Inl (ErrLib ''json'')"

fun decode_events :: "reply \<Rightarrow> GovernanceEvent list res" where
  "decode_events (ReplyEvents es) = Inr es"
| "decode_events _ = Inl (ErrLib ''json'')"

definition ActiveProposals :: "(string \<Rightarrow> http res) \<Rightarrow> string \<Rightarrow> ProposalSummary list res" where
  "ActiveProposals get baseURL =
     (case get (baseURL @ ''/governance/proposals?status=active'') of
        Inl e \<Rightarrow> Inl e
      | Inr (status, reply) \<Rightarrow>
          if \<not> accepted_status status then Inl (ErrText ''governance client: proposal fetch failed'')
          else decode_proposals reply)"

definition client_CastVote :: "(string \<Rightarrow> VoteRequest \<Rightarrow> http res) \<Rightarrow> string \<Rightarrow> u64 \<Rightarrow> VoteChoice \<Rightarrow> unit res" where
  "client_CastVote post baseURL proposalID choice =
     (case post (baseURL @ ''/governance/vote'') \<lparr>vq_ProposalID = proposalID, vq_Choice = choice\<rparr> of
        Inl e \<Rightarrow> Inl e
      | Inr (status, _) \<Rightarrow>
          if \<not> accepted_status status then Inl (ErrText ''governance client: vote failed'') else Inr ())"

text \<open>The digits of a number need no escaping in the query.\<close>

definition fetchGovernanceEvents :: "(string \<Rightarrow> http res) \<Rightarrow> string \<Rightarrow> u64 \<Rightarrow> GovernanceEvent list res" where
  "fetchGovernanceEvents get baseURL fromBlock =
     (case get (baseURL @ ''/governance/events?fromBlock='' @ FormatUint fromBlock) of
        Inl e \<Rightarrow> Inl e
      | Inr (status, reply) \<Rightarrow>
          if \<not> accepted_status status then Inl (ErrText ''governance client: event fetch failed'')
          else decode_events reply)"

section \<open>The subscription\<close>

text \<open>
  The goroutine of \<open>SubscribeGovernanceEvents\<close>: the next block it asks for, the events it sent, the error it reported,
  and whether it still runs. \<open>room\<close> is the number of sends of a round before the context is done; \<open>None\<close> when it is not.
\<close>

record poller =
  po_next :: u64
  po_sent :: "GovernanceEvent list"
  po_error :: "err option"
  po_running :: bool

definition start_poller :: "u64 \<Rightarrow> poller" where
  "start_poller fromBlock = \<lparr>po_next = fromBlock, po_sent = [], po_error = None, po_running = True\<rparr>"

definition raise_block :: "GovernanceEvent \<Rightarrow> u64 \<Rightarrow> u64" where
  "raise_block e next = (if next \<le> ev_BlockNumber e then ev_BlockNumber e + 1 else next)"

fun send_batch :: "nat option \<Rightarrow> GovernanceEvent list \<Rightarrow> poller \<Rightarrow> poller" where
  "send_batch room [] p = (if room = None then p else p\<lparr>po_running := False\<rparr>)"
| "send_batch room (e # batch) p =
     (let p1 = p\<lparr>po_next := raise_block e (po_next p)\<rparr> in
      if room = Some 0 then p1\<lparr>po_running := False\<rparr>
      else send_batch (map_option (\<lambda>n. n - 1) room) batch (p1\<lparr>po_sent := po_sent p @ [e]\<rparr>))"

definition poll_round :: "(string \<Rightarrow> http res) \<Rightarrow> string \<Rightarrow> nat option \<Rightarrow> poller \<Rightarrow> poller" where
  "poll_round get baseURL room p =
     (if \<not> po_running p then p
      else
        (case fetchGovernanceEvents get baseURL (po_next p) of
           Inl e \<Rightarrow> p\<lparr>po_error := (if room = Some 0 then None else Some e), po_running := False\<rparr>
         | Inr batch \<Rightarrow> send_batch room batch p))"

definition client_SubscribeGovernanceEvents ::
    "((string \<Rightarrow> http res) \<times> nat option) list \<Rightarrow> string \<Rightarrow> u64 \<Rightarrow> poller" where
  "client_SubscribeGovernanceEvents rounds baseURL fromBlock =
     fold (\<lambda>(get, room). poll_round get baseURL room) rounds (start_poller fromBlock)"

section \<open>The client and the service\<close>

text \<open>The service answers a request for events at any base; what stands before the path does not matter to it.\<close>

definition service_get :: "Service \<Rightarrow> string \<Rightarrow> string \<Rightarrow> http res" where
  "service_get s baseURL url =
     (let path = baseURL @ ''/governance/events?fromBlock='' in
      if prefix path url then Inr (handleEvents ''GET'' (drop (length path) url) s) else Inl (ErrText ''no such route''))"

datatype client_act = Operate "err option \<times> gov_op" | Poll

text \<open>
  A step of the service or a poll. Beside the two states it keeps the events announced in time: those whose block the
  subscription had not passed when they were announced.
\<close>

definition interleaved ::
    "env \<Rightarrow> string \<Rightarrow> client_act \<Rightarrow> Service \<times> poller \<times> GovernanceEvent list \<Rightarrow> Service \<times> poller \<times> GovernanceEvent list" where
  "interleaved E baseURL act w =
     (case w of (s, p, in_time) \<Rightarrow>
        (case act of
           Poll \<Rightarrow> (s, poll_round (service_get s baseURL) baseURL None p, in_time)
         | Operate a \<Rightarrow>
             (let g = sv_governance s; g' = gov_step E a g in
              (s\<lparr>sv_governance := g'\<rparr>, p,
               in_time @ filter (\<lambda>e. po_next p \<le> ev_BlockNumber e) (drop (length (gs_events g)) (gs_events g'))))))"

lemma fetch_from_service: "fetchGovernanceEvents (service_get s baseURL) baseURL n = Inr (EventsSince n (sv_governance s))"
proof -
  have trim: "TrimSpace (FormatUint n) = FormatUint n" "FormatUint n \<noteq> []"
    by (simp_all add: FormatUint_def)
  show ?thesis
    by (simp add: fetchGovernanceEvents_def service_get_def handleEvents_def trim Let_def accepted_status_def)
qed

lemma send_batch_all:
  "send_batch None batch p = p\<lparr>po_next := fold raise_block batch (po_next p), po_sent := po_sent p @ batch\<rparr>"
  by (induction batch arbitrary: p) (simp_all add: Let_def)

lemma poll_service:
  "po_running p \<Longrightarrow> poll_round (service_get s baseURL) baseURL None p
     = p\<lparr>po_next := fold raise_block (EventsSince (po_next p) (sv_governance s)) (po_next p),
         po_sent := po_sent p @ EventsSince (po_next p) (sv_governance s)\<rparr>"
  by (simp add: poll_round_def fetch_from_service send_batch_all)

text \<open>After a batch the next block is above all of its events, unless the last block number is reached.\<close>

lemma block_below_next: "ev_BlockNumber e + 1 \<noteq> 0 \<Longrightarrow> ev_BlockNumber e < ev_BlockNumber e + 1"
  using unatSuc [of "ev_BlockNumber e"] by (simp add: word_less_nat_alt add.commute)

lemma raise_block_above:
  assumes "ev_BlockNumber e + 1 \<noteq> 0"
  shows "n \<le> raise_block e n" and "ev_BlockNumber e < raise_block e n"
  using block_below_next [OF assms] by (auto simp: raise_block_def)

lemma raise_batch:
  assumes "\<forall>e \<in> set batch. ev_BlockNumber e + 1 \<noteq> 0"
  shows "n \<le> fold raise_block batch n \<and> (\<forall>e \<in> set batch. ev_BlockNumber e < fold raise_block batch n)"
  using assms
proof (induction batch arbitrary: n)
  case (Cons e batch)
  have "raise_block e n \<le> fold raise_block batch (raise_block e n)
    \<and> (\<forall>e' \<in> set batch. ev_BlockNumber e' < fold raise_block batch (raise_block e n))"
    using Cons by simp
  moreover have "n \<le> raise_block e n" "ev_BlockNumber e < raise_block e n" using raise_block_above Cons.prems by simp_all
  ultimately show ?case by (auto intro: order_trans less_le_trans)
qed simp

text \<open>A step of the store extends its events.\<close>

lemma gov_step_events:
  assumes "sound E g" and "cfg_StoragePath (gs_config g) \<noteq> []"
  shows "prefix (gs_events g) (gs_events (gov_step E (io, op) g))"
proof (cases op)
  case (Finalize j)
  from finalize_step [OF sound_keyed [OF assms(1)], of E io j] show ?thesis by (auto simp: Finalize quiet_def)
next
  case Restart
  then show ?thesis
    using restarted_durable [OF sound_keyed [OF assms(1)]] assms by (simp add: gov_step_def sound_def)
next
  case (Receive j)
  then show ?thesis by (auto simp: gov_step_def receive_event_def split: option.split list.split)
next
  case (Forward j)
  then show ?thesis by (auto simp: gov_step_def forward_subscription_def split: option.split)
qed (use quiet_steps [OF sound_keyed [OF assms(1)], of op E io] in
  \<open>auto simp: quiet_def gov_step_def SubscribeGovernanceEvents_def cancel_subscription_def Let_def\<close>)

text \<open>
  What the subscription has sent and what it will still get: the events in time. All events before position \<open>m\<close> are below
  the next block, so a poll returns exactly the later ones that were in time.
\<close>

definition on_track :: "env \<Rightarrow> Service \<times> poller \<times> GovernanceEvent list \<Rightarrow> bool" where
  "on_track E w \<longleftrightarrow>
     (case w of (s, p, in_time) \<Rightarrow>
        sound E (sv_governance s) \<and> cfg_StoragePath (gs_config (sv_governance s)) \<noteq> [] \<and> po_running p \<and> po_error p = None
        \<and> (\<exists>m \<le> length (gs_events (sv_governance s)).
             (\<forall>e \<in> set (take m (gs_events (sv_governance s))). ev_BlockNumber e < po_next p)
             \<and> po_sent p @ filter (\<lambda>e. po_next p \<le> ev_BlockNumber e) (drop m (gs_events (sv_governance s))) = in_time))"

lemma events_since_track:
  assumes "\<forall>e \<in> set (take m es). ev_BlockNumber e < n"
  shows "filter (\<lambda>e. \<not> ev_BlockNumber e < n) es = filter (\<lambda>e. n \<le> ev_BlockNumber e) (drop m es)"
proof -
  have "filter (\<lambda>e. \<not> ev_BlockNumber e < n) (take m es) = []" using assms by (simp add: filter_empty_conv)
  then show ?thesis
    using filter_append [of "\<lambda>e. \<not> ev_BlockNumber e < n" "take m es" "drop m es"] by (simp add: not_less)
qed

lemma poll_on_track:
  assumes "on_track E (s, p, in_time)" and "\<forall>e \<in> set (gs_events (sv_governance s)). ev_BlockNumber e + 1 \<noteq> 0"
  shows "on_track E (interleaved E baseURL Poll (s, p, in_time))
    \<and> po_sent (fst (snd (interleaved E baseURL Poll (s, p, in_time)))) = in_time"
proof -
  let ?es = "gs_events (sv_governance s)"
  obtain m where m: "m \<le> length ?es" "\<forall>e \<in> set (take m ?es). ev_BlockNumber e < po_next p"
      "po_sent p @ filter (\<lambda>e. po_next p \<le> ev_BlockNumber e) (drop m ?es) = in_time" and run: "po_running p"
    using assms(1) by (auto simp: on_track_def)
  define batch where "batch = EventsSince (po_next p) (sv_governance s)"
  have batch: "batch = filter (\<lambda>e. po_next p \<le> ev_BlockNumber e) (drop m ?es)" "set batch = {e \<in> set ?es. po_next p \<le> ev_BlockNumber e}"
    using events_since_track [OF m(2)] by (simp add: batch_def EventsSince_def) (simp add: batch_def EventsSince_def not_less set_filter)
  let ?n = "fold raise_block batch (po_next p)"
  have above: "po_next p \<le> ?n" "\<forall>e \<in> set batch. ev_BlockNumber e < ?n"
    using raise_batch [of batch "po_next p"] assms(2) batch(2) by auto
  have all: "ev_BlockNumber e < ?n" if "e \<in> set ?es" for e
    using that above batch(2) by (cases "po_next p \<le> ev_BlockNumber e") auto
  have "interleaved E baseURL Poll (s, p, in_time) = (s, p\<lparr>po_next := ?n, po_sent := po_sent p @ batch\<rparr>, in_time)"
    by (simp add: interleaved_def poll_service [OF run] batch_def)
  then show ?thesis
    using assms(1) m(3) batch(1) all by (auto simp: on_track_def intro: exI [of _ "length ?es"])
qed

lemma operate_on_track:
  assumes "on_track E (s, p, in_time)" and "unat (gs_nextProposal (sv_governance s)) + 1 < 2 ^ 64"
  shows "on_track E (interleaved E baseURL (Operate a) (s, p, in_time))
    \<and> advances (sv_governance s) (gov_step E a (sv_governance s))"
proof -
  obtain io op where a: "a = (io, op)" by fastforce
  let ?g = "sv_governance s" and ?g' = "gov_step E a (sv_governance s)"
  have s: "sound E ?g" "cfg_StoragePath (gs_config ?g) \<noteq> []" using assms(1) by (simp_all add: on_track_def)
  have next': "sound E ?g' \<and> advances ?g ?g'" unfolding a by (rule step_sound [OF s(1) assms(2)])
  obtain new where new: "gs_events ?g' = gs_events ?g @ new" using gov_step_events [OF s, of io op] by (auto simp: a prefix_def)
  obtain m where m: "m \<le> length (gs_events ?g)" "\<forall>e \<in> set (take m (gs_events ?g)). ev_BlockNumber e < po_next p"
      "po_sent p @ filter (\<lambda>e. po_next p \<le> ev_BlockNumber e) (drop m (gs_events ?g)) = in_time"
    using assms(1) by (auto simp: on_track_def)
  then have "\<exists>m \<le> length (gs_events ?g').
      (\<forall>e \<in> set (take m (gs_events ?g')). ev_BlockNumber e < po_next p)
      \<and> po_sent p @ filter (\<lambda>e. po_next p \<le> ev_BlockNumber e) (drop m (gs_events ?g'))
        = in_time @ filter (\<lambda>e. po_next p \<le> ev_BlockNumber e) (drop (length (gs_events ?g)) (gs_events ?g'))"
    by (intro exI [of _ m]) (auto simp: new)
  then show ?thesis using assms(1) next' by (simp add: on_track_def interleaved_def Let_def advances_def)
qed

text \<open>Runs: the events of the store only grow.\<close>

lemma interleaved_governance:
  "sv_governance (fst (interleaved E baseURL act w))
     = (case act of Operate a \<Rightarrow> gov_step E a (sv_governance (fst w)) | Poll \<Rightarrow> sv_governance (fst w))"
  by (cases w) (simp add: interleaved_def Let_def split: client_act.split)

lemma interleaved_grows:
  assumes "sound E (sv_governance (fst w))" and "cfg_StoragePath (gs_config (sv_governance (fst w))) \<noteq> []"
    and "unat (gs_nextProposal (sv_governance (fst w))) + length acts < 2 ^ 64"
  shows "prefix (gs_events (sv_governance (fst w))) (gs_events (sv_governance (fst (fold (interleaved E baseURL) acts w))))"
  using assms
proof (induction acts arbitrary: w)
  case (Cons act acts)
  let ?g = "sv_governance (fst w)" and ?w' = "interleaved E baseURL act w"
  have "sound E (sv_governance (fst ?w')) \<and> advances ?g (sv_governance (fst ?w')) \<and> prefix (gs_events ?g) (gs_events (sv_governance (fst ?w')))"
  proof (cases act)
    case (Operate a)
    obtain io op where a: "a = (io, op)" by fastforce
    show ?thesis
      using step_sound [of E ?g io op] gov_step_events [of E ?g io op] Cons.prems by (simp add: Operate a interleaved_governance)
  next
    case Poll
    then show ?thesis using Cons.prems by (simp add: interleaved_governance advances_def)
  qed
  with Cons.IH [of ?w'] Cons.prems show ?case by (auto simp: advances_def intro: prefix_order.trans)
qed simp

lemma interleaved_run:
  assumes "on_track E w" and "unat (gs_nextProposal (sv_governance (fst w))) + length acts < 2 ^ 64"
    and "\<forall>e \<in> set (gs_events (sv_governance (fst (fold (interleaved E baseURL) acts w)))). ev_BlockNumber e + 1 \<noteq> 0"
  shows "on_track E (fold (interleaved E baseURL) acts w)"
  using assms
proof (induction acts arbitrary: w)
  case (Cons act acts)
  obtain s p in_time where w: "w = (s, p, in_time)" by (cases w)
  let ?w' = "interleaved E baseURL act w"
  have s: "sound E (sv_governance s)" "cfg_StoragePath (gs_config (sv_governance s)) \<noteq> []"
    using Cons.prems(1) by (simp_all add: on_track_def w)
  have "prefix (gs_events (sv_governance s)) (gs_events (sv_governance (fst (fold (interleaved E baseURL) (act # acts) w))))"
    using interleaved_grows [of E w "act # acts" baseURL] s Cons.prems(2) by (simp add: w)
  then have low: "\<forall>e \<in> set (gs_events (sv_governance s)). ev_BlockNumber e + 1 \<noteq> 0"
    using Cons.prems(3) by (metis set_mono_prefix subsetD)
  have "on_track E ?w' \<and> advances (sv_governance s) (sv_governance (fst ?w'))"
  proof (cases act)
    case (Operate a)
    then show ?thesis
      using operate_on_track [of E s p in_time baseURL a] Cons.prems interleaved_governance [of E baseURL act w] by (simp add: w)
  next
    case Poll
    then show ?thesis
      using poll_on_track [OF Cons.prems(1) [unfolded w] low] interleaved_governance [of E baseURL act w] by (simp add: w advances_def)
  qed
  with Cons.IH [of ?w'] Cons.prems show ?case by (simp add: w advances_def)
qed simp

section \<open>The claims\<close>

text \<open>
  C27: A client that polls for governance events gets every event that was announced in time, exactly once and in the order of the
  store, whatever the service does between two polls, restarts included: after any run and one more poll the events sent
  are the ones that the store held at the start from the requested block on, followed by the events announced later whose block the
  subscription had not passed yet; the subscription still runs and has reported no error.
\<close>

theorem polling_gets_all_in_time:
  assumes "length before + length acts < 2 ^ 64" and "cfg_StoragePath c \<noteq> []"
    and "sv_governance s = gov_run E c before"
    and "run = fold (interleaved E baseURL) acts (s, start_poller fromBlock, EventsSince fromBlock (sv_governance s))"
    and "\<forall>e \<in> set (gs_events (sv_governance (fst run))). ev_BlockNumber e + 1 \<noteq> 0"
  shows "case interleaved E baseURL Poll run of (s', p, in_time) \<Rightarrow>
    po_sent p = in_time \<and> in_time = snd (snd run) \<and> po_running p \<and> po_error p = None"
proof -
  note start = gov_run_sound [of before E c]
  have "on_track E (s, start_poller fromBlock, EventsSince fromBlock (sv_governance s))"
    using assms(1-3) start by (auto simp: on_track_def start_poller_def EventsSince_def not_less normalizeConfig_def intro: exI [of _ 0])
  then have "on_track E run" unfolding assms(4) using assms start by (intro interleaved_run) simp_all
  moreover obtain s' p in_time where run: "run = (s', p, in_time)" by (cases run)
  ultimately have "on_track E (interleaved E baseURL Poll run)
    \<and> po_sent (fst (snd (interleaved E baseURL Poll run))) = in_time"
    using poll_on_track [of E s' p in_time baseURL] assms(5) by simp
  moreover have "snd (snd (interleaved E baseURL Poll run)) = in_time" by (simp add: run interleaved_def)
  ultimately show ?thesis by (auto simp: on_track_def run split: prod.splits)
qed

definition toy_client_service :: Service where
  "toy_client_service = \<lparr>sv_config = normalizeConfig toy_config, sv_governance = gov_run gov_env toy_config toy_decision,
     sv_priorityRegistry = NewPriorityRegistry, sv_listenerFrom = 1\<rparr>"

lemma toy_events: "gs_events (gov_run gov_env toy_config toy_decision) = [toy_announced]"
  using toy_steps(1) [OF toy_store(1-3)] toy_store(5)
  by (simp add: gov_run_def toy_store_def [symmetric] toy_passed_def Let_def broadcastEvent_def toy_announced_def)

theorem polling_gets_all_in_time_witness:
  "po_sent (fst (snd (interleaved gov_env ''http://n'' Poll
     (toy_client_service, start_poller 1, EventsSince 1 (sv_governance toy_client_service))))) = [toy_announced]"
proof -
  have low: "\<forall>e \<in> set (gs_events (sv_governance toy_client_service)). ev_BlockNumber e + 1 \<noteq> 0"
    by (simp add: toy_client_service_def toy_events toy_announced_def finalize_event_def)
  have "EventsSince 1 (sv_governance toy_client_service) = [toy_announced]"
    by (simp add: toy_client_service_def EventsSince_def toy_events) (simp add: toy_announced_def finalize_event_def)
  then show ?thesis
    using polling_gets_all_in_time [of toy_decision "[]" toy_config toy_client_service gov_env _ "''http://n''" 1, OF _ _ _ refl] low
    by (simp add: toy_length toy_config_def toy_client_service_def split: prod.splits)
qed

text \<open>
  An event of a block that the subscription has passed is not in time: when two proposals are decided at one block and the client polls
  between the decisions, it never gets the second event.
\<close>

lemma same_block_event_missed:
  assumes "gov_step E a (sv_governance s) = g'" and "gs_events g' = gs_events (sv_governance s) @ [e]"
    and "e' \<in> set (gs_events (sv_governance s))" "ev_BlockNumber e' = ev_BlockNumber e" "ev_BlockNumber e + 1 \<noteq> 0"
    and "\<forall>e \<in> set (gs_events (sv_governance s)). ev_BlockNumber e + 1 \<noteq> 0" and "po_running p"
  shows "e \<notin> set (drop (length (po_sent p) + length (EventsSince (po_next p) (sv_governance s)))
      (po_sent (fst (snd (fold (interleaved E baseURL) [Poll, Operate a, Poll] (s, p, in_time))))))"
proof -
  let ?s' = "s\<lparr>sv_governance := g'\<rparr>"
  define n where "n = fold raise_block (EventsSince (po_next p) (sv_governance s)) (po_next p)"
  have above: "po_next p \<le> n" "\<forall>e \<in> set (EventsSince (po_next p) (sv_governance s)). ev_BlockNumber e < n"
    using raise_batch [of "EventsSince (po_next p) (sv_governance s)" "po_next p"] assms(6)
    by (auto simp: n_def EventsSince_def)
  then have "ev_BlockNumber e < n"
    using assms(3,4) by (cases "po_next p \<le> ev_BlockNumber e'") (auto simp: EventsSince_def not_less)
  then have "e \<notin> set (EventsSince n g')" by (auto simp: EventsSince_def)
  then show ?thesis
    by (simp add: interleaved_def Let_def poll_service assms(1,7) n_def [symmetric])
qed

end
